(* ===== verification/Prelude.thy ===== *)
theory Prelude
  imports Main "HOL-Library.AList"
begin

text \<open>
  Shared vocabulary of the development: keyed tables (the rows of one database table, each with
  a primary key), sums over selected rows, per-device sequence numbers, and Python's small
  idioms (a \<open>dict\<close> that keeps insertion order, the falsy test on an optional string).
  Nothing here is specific to the shop.

  The simplification rules that speak about tables are collected in \<open>table_simps\<close>, the
  rules about sums over ledger rows in \<open>sum_simps\<close>.
\<close>

named_theorems table_simps
named_theorems sum_simps

section \<open>Python idioms\<close>

text \<open>\<open>errors[k] = m\<close> on a dict: an existing key keeps its place, a new key goes last.\<close>

abbreviation dict_set :: "'k \<Rightarrow> 'v \<Rightarrow> ('k \<times> 'v) list \<Rightarrow> ('k \<times> 'v) list" where
  "dict_set k v d \<equiv> AList.update k v d"

lemma dict_set_nonempty [simp]: "dict_set k v d \<noteq> []"
  by (cases d) auto

text \<open>\<open>s or None\<close> for a string: the empty string is falsy.\<close>

definition or_none :: "string \<Rightarrow> string option" where
  "or_none s = (if s = [] then None else Some s)"

text \<open>\<open>s or ''''\<close> for an optional string.\<close>

definition or_empty :: "string option \<Rightarrow> string" where
  "or_empty s = (case s of None \<Rightarrow> [] | Some t \<Rightarrow> t)"

lemma or_none_simps [simp]: "or_none [] = None" "s \<noteq> [] \<Longrightarrow> or_none s = Some s"
  by (auto simp: or_none_def)

lemma or_empty_simps [simp]: "or_empty None = []" "or_empty (Some t) = t"
  by (auto simp: or_empty_def)

section \<open>Keyed tables\<close>

text \<open>\<open>session.get(Model, k)\<close>: the row whose primary key is \<open>k\<close>.\<close>

definition tget :: "('r \<Rightarrow> 'k) \<Rightarrow> 'k \<Rightarrow> 'r list \<Rightarrow> 'r option" where
  "tget key k rows = find (\<lambda>r. key r = k) rows"

text \<open>\<open>UPDATE ... WHERE key = k\<close>.\<close>

definition tupd :: "('r \<Rightarrow> 'k) \<Rightarrow> 'k \<Rightarrow> ('r \<Rightarrow> 'r) \<Rightarrow> 'r list \<Rightarrow> 'r list" where
  "tupd key k f rows = map (\<lambda>r. if key r = k then f r else r) rows"

text \<open>Is there a row with this key? (The primary-key test of an INSERT.)\<close>

definition thas :: "('r \<Rightarrow> 'k) \<Rightarrow> 'k \<Rightarrow> 'r list \<Rightarrow> bool" where
  "thas key k rows = list_ex (\<lambda>r. key r = k) rows"

lemma thas_iff: "thas key k rows \<longleftrightarrow> k \<in> key ` set rows"
  by (auto simp: thas_def list_ex_iff)

lemma tget_SomeD: "tget key k rows = Some r \<Longrightarrow> r \<in> set rows \<and> key r = k"
  by (auto simp: tget_def find_Some_iff)

lemma tget_key: "tget key k rows = Some r \<Longrightarrow> k = key r"
  using tget_SomeD by metis

lemma tget_self: "tget key k rows = Some r \<Longrightarrow> tget key (key r) rows = Some r"
  using tget_key by metis

lemma tget_mem_key: "tget key k rows = Some r \<Longrightarrow> k \<in> key ` set rows"
  using tget_SomeD by (metis image_eqI)

lemma tget_None_iff: "tget key k rows = None \<longleftrightarrow> k \<notin> key ` set rows"
  by (auto simp: tget_def find_None_iff)

lemma tget_Cons [table_simps]:
  "tget key k (r # rows) = (if key r = k then Some r else tget key k rows)"
  by (simp add: tget_def)

lemma tget_Nil [table_simps]: "tget key k [] = None"
  by (simp add: tget_def)

lemma tget_append [table_simps]:
  "tget key k (xs @ ys) = (case tget key k xs of None \<Rightarrow> tget key k ys | Some r \<Rightarrow> Some r)"
  by (induction xs) (auto simp: tget_Cons tget_Nil)

lemma tget_in:
  assumes "distinct (map key rows)" and "r \<in> set rows"
  shows "tget key (key r) rows = Some r"
  using assms by (induction rows) (auto simp: tget_Cons)

lemma length_tupd [table_simps]: "length (tupd key k f rows) = length rows"
  by (simp add: tupd_def)

lemma map_key_tupd [table_simps]:
  "(\<And>r. key (f r) = key r) \<Longrightarrow> map key (tupd key k f rows) = map key rows"
  by (simp add: tupd_def)

lemma map_other_tupd:
  "(\<And>r. g (f r) = g r) \<Longrightarrow> map g (tupd key k f rows) = map g rows"
  by (simp add: tupd_def)

lemma find_append: "find P (xs @ ys) = (case find P xs of None \<Rightarrow> find P ys | Some x \<Rightarrow> Some x)"
  by (induction xs) auto

lemma set_tupd: "set (tupd key k f rows) = (\<lambda>r. if key r = k then f r else r) ` set rows"
  by (simp add: tupd_def)

lemma tget_tupd [table_simps]:
  assumes "\<And>r. key (f r) = key r"
  shows "tget key j (tupd key k f rows)
       = (if j = k then map_option f (tget key k rows) else tget key j rows)"
  using assms by (induction rows) (auto simp: tget_Cons tget_Nil tupd_def)

lemma tupd_nohit: "k \<notin> key ` set rows \<Longrightarrow> tupd key k f rows = rows"
  by (induction rows) (auto simp: tupd_def)

section \<open>Sums over selected rows\<close>

text \<open>\<open>SELECT COALESCE(SUM(v), 0) FROM rows WHERE p\<close>.\<close>

definition sum_where :: "('r \<Rightarrow> bool) \<Rightarrow> ('r \<Rightarrow> int) \<Rightarrow> 'r list \<Rightarrow> int" where
  "sum_where p v rows = sum_list (map v (filter p rows))"

lemma sum_where_Nil [sum_simps]: "sum_where p v [] = 0"
  by (simp add: sum_where_def)

lemma sum_where_Cons [sum_simps]:
  "sum_where p v (r # rows) = (if p r then v r else 0) + sum_where p v rows"
  by (simp add: sum_where_def)

lemma sum_where_append [sum_simps]:
  "sum_where p v (xs @ ys) = sum_where p v xs + sum_where p v ys"
  by (simp add: sum_where_def)

lemma sum_where_cong:
  "(\<And>r. r \<in> set rows \<Longrightarrow> p r = q r) \<Longrightarrow> (\<And>r. r \<in> set rows \<Longrightarrow> q r \<Longrightarrow> v r = u r)
   \<Longrightarrow> sum_where p v rows = sum_where q u rows"
  by (induction rows) (auto simp: sum_simps)

lemma sum_where_zero: "(\<And>r. r \<in> set rows \<Longrightarrow> p r \<Longrightarrow> v r = 0) \<Longrightarrow> sum_where p v rows = 0"
  by (induction rows) (auto simp: sum_simps)

lemma sum_where_split:
  "sum_where p v rows = sum_where (\<lambda>r. p r \<and> q r) v rows + sum_where (\<lambda>r. p r \<and> \<not> q r) v rows"
  by (induction rows) (auto simp: sum_simps)

lemma sum_where_nonneg: "(\<And>r. r \<in> set rows \<Longrightarrow> p r \<Longrightarrow> 0 \<le> v r) \<Longrightarrow> 0 \<le> sum_where p v rows"
  by (induction rows) (auto simp: sum_simps)

text \<open>
  A sum over rows grouped by a key is the sum, over the distinct keys, of the group sums: the
  shape of every \<open>GROUP BY\<close> reconciliation in the reports and in the stock rollup.
\<close>

lemma sum_where_group:
  assumes "distinct ks" and "\<And>r. r \<in> set rows \<Longrightarrow> p r \<Longrightarrow> key r \<in> set ks"
  shows "sum_where p v rows = sum_list (map (\<lambda>k. sum_where (\<lambda>r. p r \<and> key r = k) v rows) ks)"
  using assms(2)
proof (induction rows)
  case Nil
  then show ?case by (simp add: sum_simps)
next
  case (Cons r rows)
  have one: "sum_list (map (\<lambda>k. if p r \<and> key r = k then v r else 0) ks) = (if p r then v r else 0)"
    using assms(1) Cons.prems[of r]
    by (auto simp: sum_list_distinct_conv_sum_set sum.delta)
  have "sum_list (map (\<lambda>k. sum_where (\<lambda>r. p r \<and> key r = k) v (r # rows)) ks)
      = sum_list (map (\<lambda>k. if p r \<and> key r = k then v r else 0) ks)
        + sum_list (map (\<lambda>k. sum_where (\<lambda>r. p r \<and> key r = k) v rows) ks)"
    by (simp add: sum_simps sum_list_addf)
  with one Cons show ?case by (simp add: sum_simps)
qed

section \<open>Per-device sequence numbers\<close>

text \<open>
  Both append-only ledgers number their rows per device: \<open>SELECT MAX(seq) WHERE device_id = d\<close>,
  then \<open>(current or 0) + 1\<close>.
\<close>

definition max_seq :: "('r \<Rightarrow> 'd) \<Rightarrow> ('r \<Rightarrow> int) \<Rightarrow> 'd \<Rightarrow> 'r list \<Rightarrow> int option" where
  "max_seq dev sq d rows =
     (case map sq (filter (\<lambda>r. dev r = d) rows) of
        [] \<Rightarrow> None
      | x # xs \<Rightarrow> Some (fold max xs x))"

lemma fold_max_ge: "a \<le> fold max xs a \<and> (\<forall>x \<in> set xs. x \<le> fold max xs (a :: int))"
proof (induction xs arbitrary: a)
  case Nil
  then show ?case by simp
next
  case (Cons x xs)
  from Cons.IH[of "max x a"] show ?case by auto
qed

lemma max_seq_ge:
  assumes "r \<in> set rows" and "dev r = d"
  shows "\<exists>m. max_seq dev sq d rows = Some m \<and> sq r \<le> m"
proof -
  from assms have mem: "sq r \<in> set (map sq (filter (\<lambda>r. dev r = d) rows))" by auto
  then obtain x xs where xs: "map sq (filter (\<lambda>r. dev r = d) rows) = x # xs"
    by (cases "map sq (filter (\<lambda>r. dev r = d) rows)") auto
  with mem show ?thesis using fold_max_ge[of x xs] by (auto simp: max_seq_def)
qed

text \<open>
  The contract of a numbered ledger: the number handed out to a device is above every number that
  device has used, so appending a row with it keeps the pairs (device, number) distinct.
\<close>

definition numbered :: "('r \<Rightarrow> 'd) \<Rightarrow> ('r \<Rightarrow> int) \<Rightarrow> 'r list \<Rightarrow> bool" where
  "numbered dev sq rows \<longleftrightarrow> distinct (map (\<lambda>r. (dev r, sq r)) rows)"

locale sequenced =
  fixes dev :: "'r \<Rightarrow> 'd" and sq :: "'r \<Rightarrow> int" and nxt :: "'d \<Rightarrow> 'r list \<Rightarrow> int"
  assumes nxt_above: "r \<in> set rows \<Longrightarrow> sq r < nxt (dev r) rows"
begin

lemma numbered_snoc:
  assumes "numbered dev sq rows" and "sq r = nxt (dev r) rows"
  shows "numbered dev sq (rows @ [r])"
proof -
  have "(dev r, sq r) \<notin> (\<lambda>r. (dev r, sq r)) ` set rows"
  proof
    assume "(dev r, sq r) \<in> (\<lambda>r. (dev r, sq r)) ` set rows"
    then obtain q where "q \<in> set rows" "dev q = dev r" "sq q = sq r" by auto
    with nxt_above[of q rows] assms(2) show False by simp
  qed
  with assms(1) show ?thesis by (simp add: numbered_def)
qed

lemma nxt_fresh: "sq r = nxt (dev r) rows \<Longrightarrow> r \<notin> set rows"
  using nxt_above by force

end

end
