(* ===== verification/PyStr.thy ===== *)
theory PyStr
  imports Prelude "HOL-Library.Char_ord" "HOL-Library.List_Lexorder"
begin

text \<open>
  Python strings and integers, as far as the services use them. A string is a list of
  characters, one per code point, for the code points below 256; longer code points occur only
  in labels and names, whose content never decides a branch of the modelled code. String
  comparison \<open><\<close> is Python's: lexicographic by code point (the order instances of
  \<open>Char_ord\<close> and \<open>List_Lexorder\<close>).
\<close>

section \<open>Character classes\<close>

definition ord_of :: "char \<Rightarrow> nat" where
  "ord_of c = of_char c"

text \<open>\<open>str.isspace\<close> for one code point below 256.\<close>

definition is_space :: "char \<Rightarrow> bool" where
  "is_space c \<longleftrightarrow> ord_of c \<in> {9, 10, 11, 12, 13, 28, 29, 30, 31, 32, 133, 160}"

text \<open>The ASCII digits.\<close>

definition is_dig :: "char \<Rightarrow> bool" where
  "is_dig c \<longleftrightarrow> 48 \<le> ord_of c \<and> ord_of c \<le> 57"

definition strip :: "string \<Rightarrow> string" where
  "strip s = rev (dropWhile is_space (rev (dropWhile is_space s)))"

definition isascii :: "string \<Rightarrow> bool" where
  "isascii s \<longleftrightarrow> list_all (\<lambda>c. ord_of c < 128) s"

text \<open>
  \<open>str.isdigit\<close>: also true for the superscripts 1, 2 and 3 (code points 185, 178, 179), which
  \<open>int\<close> does not accept; the services therefore test \<open>isascii\<close> first.
\<close>

definition isdigit :: "string \<Rightarrow> bool" where
  "isdigit s \<longleftrightarrow> s \<noteq> [] \<and> list_all (\<lambda>c. is_dig c \<or> ord_of c \<in> {178, 179, 185}) s"

lemma ord_of_inject: "ord_of c = ord_of d \<longleftrightarrow> c = d"
  by (simp add: ord_of_def)

lemma isascii_isdigit: "isascii s \<and> isdigit s \<longleftrightarrow> s \<noteq> [] \<and> list_all is_dig s"
proof -
  have "ord_of c < 128 \<and> (is_dig c \<or> ord_of c \<in> {178, 179, 185}) \<longleftrightarrow> is_dig c" for c
    by (auto simp: is_dig_def)
  then show ?thesis by (auto simp: isascii_def isdigit_def list_all_iff)
qed

lemma dig_not_space: "is_dig c \<Longrightarrow> \<not> is_space c"
  by (auto simp: is_dig_def is_space_def)

lemma strip_id:
  assumes "s \<noteq> []" and "\<not> is_space (hd s)" and "\<not> is_space (last s)"
  shows "strip s = s"
proof -
  from assms have "dropWhile is_space s = s" by (simp add: dropWhile_eq_self_iff)
  moreover from assms have "dropWhile is_space (rev s) = rev s"
    by (simp add: dropWhile_eq_self_iff hd_rev)
  ultimately show ?thesis by (simp add: strip_def)
qed

lemma strip_noop: "list_all (\<lambda>c. \<not> is_space c) s \<Longrightarrow> strip s = s"
  by (cases "s = []") (auto simp: strip_def[of "[]"] list_all_iff intro: strip_id)

section \<open>Decimal numerals\<close>

definition digit_char :: "nat \<Rightarrow> char" where
  "digit_char d = char_of (48 + d)"

definition digit_val :: "char \<Rightarrow> nat" where
  "digit_val c = ord_of c - 48"

lemma ord_of_digit_char [simp]: "d < 10 \<Longrightarrow> ord_of (digit_char d) = 48 + d"
  by (simp add: ord_of_def digit_char_def)

lemma digit_val_char [simp]: "d < 10 \<Longrightarrow> digit_val (digit_char d) = d"
  by (simp add: digit_val_def)

lemma is_dig_digit_char [simp]: "d < 10 \<Longrightarrow> is_dig (digit_char d)"
  by (simp add: is_dig_def)

lemma digit_val_less: "is_dig c \<Longrightarrow> digit_val c < 10"
  by (auto simp: is_dig_def digit_val_def)

lemma digit_char_val: "is_dig c \<Longrightarrow> digit_char (digit_val c) = c"
  using ord_of_inject[of "digit_char (digit_val c)" c] digit_val_less[of c]
  by (auto simp: is_dig_def digit_val_def)

text \<open>The value of a digit string, most significant digit first.\<close>

definition digits_val :: "string \<Rightarrow> nat" where
  "digits_val s = foldl (\<lambda>a c. 10 * a + digit_val c) 0 s"

lemma foldl_digits: "foldl (\<lambda>a c. 10 * a + digit_val c) a s = a * 10 ^ length s + digits_val s"
proof (induction s arbitrary: a)
  case Nil
  then show ?case by (simp add: digits_val_def)
next
  case (Cons c s)
  from Cons[of "10 * a + digit_val c"] Cons[of "digit_val c"] show ?case
    by (simp add: digits_val_def algebra_simps)
qed

lemma digits_val_simps [simp]:
  "digits_val [] = 0"
  "digits_val (c # s) = digit_val c * 10 ^ length s + digits_val s"
  by (simp_all add: digits_val_def foldl_digits[of "digit_val c", unfolded digits_val_def])

lemma digits_val_append: "digits_val (s @ t) = digits_val s * 10 ^ length t + digits_val t"
  by (simp add: digits_val_def foldl_digits[of "foldl (\<lambda>a c. 10 * a + digit_val c) 0 s", unfolded digits_val_def])

lemma digits_val_less: "list_all is_dig s \<Longrightarrow> digits_val s < 10 ^ length s"
proof (induction s)
  case Nil
  then show ?case by simp
next
  case (Cons c s)
  then have "digit_val c * 10 ^ length s + digits_val s < digit_val c * 10 ^ length s + 10 ^ length s"
    by simp
  also have "\<dots> = (digit_val c + 1) * 10 ^ length s" by simp
  also have "\<dots> \<le> 10 * 10 ^ length s"
    using Cons.prems digit_val_less[of c] by (intro mult_right_mono) auto
  finally show ?case by simp
qed

text \<open>\<open>str(n)\<close> for a natural number.\<close>

fun show_nat :: "nat \<Rightarrow> string" where
  "show_nat n = (if n < 10 then [digit_char n] else show_nat (n div 10) @ [digit_char (n mod 10)])"

declare show_nat.simps [simp del]

text \<open>\<open>f"{n:0wd}"\<close>: zero-padded to at least \<open>w\<close> characters.\<close>

definition zfill :: "nat \<Rightarrow> nat \<Rightarrow> string" where
  "zfill w n = replicate (w - length (show_nat n)) (CHR ''0'') @ show_nat n"

lemma zero_char: "digit_val (CHR ''0'') = 0" "is_dig (CHR ''0'')"
  by (simp_all add: digit_val_def is_dig_def ord_of_def)

lemma show_nat_val [simp]: "digits_val (show_nat n) = n"
proof (induction n rule: show_nat.induct)
  case (1 n)
  then show ?case by (subst show_nat.simps) (auto simp: digits_val_append)
qed

lemma show_nat_digs [simp]: "list_all is_dig (show_nat n)"
proof (induction n rule: show_nat.induct)
  case (1 n)
  then show ?case by (subst show_nat.simps) auto
qed

lemma show_nat_nonempty [simp]: "show_nat n \<noteq> []"
  by (subst show_nat.simps) simp

lemma digits_val_zeros [simp]: "digits_val (replicate k (CHR ''0'')) = 0"
  by (induction k) (auto simp: zero_char)

lemma zfill_val [simp]: "digits_val (zfill w n) = n"
  by (simp add: zfill_def digits_val_append)

lemma zfill_digs [simp]: "list_all is_dig (zfill w n)"
  using show_nat_digs[of n] by (auto simp: zfill_def zero_char list_all_iff)

lemma zfill_nonempty [simp]: "zfill w n \<noteq> []"
  by (simp add: zfill_def)

lemma length_show_nat_le: "n < 10 ^ w \<Longrightarrow> 0 < w \<Longrightarrow> length (show_nat n) \<le> w"
proof (induction n arbitrary: w rule: show_nat.induct)
  case (1 n)
  show ?case
  proof (cases "n < 10")
    case True
    with 1(3) show ?thesis by (subst show_nat.simps) simp
  next
    case False
    with 1(2) obtain v where w: "w = Suc v" and v: "0 < v"
      by (cases w; cases "w - 1") auto
    with 1(2) have "n div 10 < 10 ^ v" by (simp add: less_mult_imp_div_less mult.commute)
    with 1(1)[OF False _ v] False w show ?thesis by (subst show_nat.simps) simp
  qed
qed

lemma length_zfill [simp]: "n < 10 ^ w \<Longrightarrow> 0 < w \<Longrightarrow> length (zfill w n) = w"
  using length_show_nat_le[of n w] by (simp add: zfill_def)

section \<open>Integers from text\<close>

datatype exn = ValueError | WarehouseAccessError | IntegrityError | TypeError | OverflowError

text \<open>\<open>except ValueError\<close> also catches the subclass \<open>WarehouseAccessError\<close>.\<close>

definition is_value_error :: "exn \<Rightarrow> bool" where
  "is_value_error x \<longleftrightarrow> x = ValueError \<or> x = WarehouseAccessError"

text \<open>
  \<open>int(s)\<close> on a non-empty string of ASCII digits (the only strings the services pass to it):
  more than 4300 digits raise \<open>ValueError\<close>, the interpreter's limit on str-to-int conversion.
\<close>

definition py_int :: "string \<Rightarrow> exn + int" where
  "py_int s = (if length s > 4300 then Inl ValueError else Inr (int (digits_val s)))"

text \<open>
  The quantity field of every form:
  \<open>qty = int(t) if t.isascii() and t.isdigit() else 0\<close> with \<open>t = raw.strip()\<close>.
\<close>

definition parse_qty :: "string \<Rightarrow> exn + int" where
  "parse_qty raw = (let t = strip raw in if isascii t \<and> isdigit t then py_int t else Inr 0)"

lemma parse_qty_nonneg: "parse_qty raw = Inr q \<Longrightarrow> 0 \<le> q"
  by (auto simp: parse_qty_def py_int_def Let_def split: if_splits)

lemma parse_qty_show: "length (show_nat n) \<le> 4300 \<Longrightarrow> parse_qty (show_nat n) = Inr (int n)"
proof -
  have "list_all (\<lambda>c. \<not> is_space c) (show_nat n)"
    using show_nat_digs[of n] by (auto simp: list_all_iff dest: dig_not_space)
  then have "strip (show_nat n) = show_nat n" by (rule strip_noop)
  moreover have "isascii (show_nat n) \<and> isdigit (show_nat n)"
    by (subst isascii_isdigit) simp
  moreover assume "length (show_nat n) \<le> 4300"
  ultimately show ?thesis by (simp add: parse_qty_def py_int_def Let_def)
qed

end
