(* ===== verification/Money.thy ===== *)
theory Money
  imports PyStr
begin

text \<open>
  Money of \<open>src/app/core.py\<close>: parsing operator input into integer cents (\<open>to_cents\<close>), rendering
  cents (\<open>format_cents\<close>, \<open>format_money\<close>), the currency table and the RUB-to-currency suggestion.
  A \<open>Decimal\<close> is a sign, a coefficient and an exponent of ten; the conversions are exact
  integer arithmetic, as in the source. Exponents beyond the C library's limit of \<open>10^18\<close> in
  absolute value are not distinguished from smaller ones.
\<close>

section \<open>Rounding half up\<close>

text \<open>\<open>quantize(..., rounding=ROUND_HALF_UP)\<close> of \<open>c / k\<close> on magnitudes.\<close>

definition half_up :: "nat \<Rightarrow> nat \<Rightarrow> nat" where
  "half_up c k = (if k \<le> 2 * (c mod k) then c div k + 1 else c div k)"

lemma half_up_1 [simp]: "half_up c 1 = c" "half_up c (Suc 0) = c"
  by (simp_all add: half_up_def)

lemma half_up_bounds:
  assumes "0 < k"
  shows "2 * int c < (2 * int (half_up c k) + 1) * int k"
    and "(2 * int (half_up c k) - 1) * int k \<le> 2 * int c"
proof -
  have c: "int c = int (c div k) * int k + int (c mod k)"
    by (metis div_mult_mod_eq of_nat_add of_nat_mult)
  have r: "int (c mod k) < int k" using assms by simp
  show "2 * int c < (2 * int (half_up c k) + 1) * int k"
    and "(2 * int (half_up c k) - 1) * int k \<le> 2 * int c"
    using c r by (auto simp: half_up_def algebra_simps)
qed

lemma half_up_unique:
  assumes "0 < k" and "2 * int c < (2 * int q + 1) * int k" and "(2 * int q - 1) * int k \<le> 2 * int c"
  shows "half_up c k = q"
proof -
  let ?h = "half_up c k"
  from assms(1) have k: "0 < int k" by simp
  have "(2 * int ?h - 1) * int k < (2 * int q + 1) * int k"
    using half_up_bounds(2)[OF assms(1), of c] assms(2) by linarith
  moreover have "(2 * int q - 1) * int k < (2 * int ?h + 1) * int k"
    using half_up_bounds(1)[OF assms(1), of c] assms(3) by linarith
  ultimately show ?thesis using k by (simp add: mult_less_cancel_right)
qed

section \<open>Decimal literals\<close>

definition dec_sign :: "string \<Rightarrow> bool \<times> string" where
  "dec_sign s = (case s of [] \<Rightarrow> (False, [])
     | c # t \<Rightarrow> if c = CHR ''-'' then (True, t) else if c = CHR ''+'' then (False, t) else (False, s))"

definition dec_exp :: "string \<Rightarrow> int option" where
  "dec_exp s = (case s of [] \<Rightarrow> Some 0
     | c # t \<Rightarrow>
        if c = CHR ''e'' \<or> c = CHR ''E'' then
          (let (neg, ds) = dec_sign t in
           if ds \<noteq> [] \<and> list_all is_dig ds
           then Some (if neg then - int (digits_val ds) else int (digits_val ds)) else None)
        else None)"

text \<open>
  \<open>Decimal(text)\<close> restricted to finite values: underscores are ignored, then an optional sign,
  digits with at most one point (at least one digit in all) and an optional exponent. \<open>None\<close>
  stands for \<open>InvalidOperation\<close> and for the non-finite spellings, which \<open>to_cents\<close> turns into
  the same error.
\<close>

definition parse_decimal :: "string \<Rightarrow> (bool \<times> nat \<times> int) option" where
  "parse_decimal text =
     (let (neg, u) = dec_sign (filter (\<lambda>c. c \<noteq> CHR ''_'') text);
          ip = takeWhile is_dig u;
          r = dropWhile is_dig u;
          (fp, r2) = (case r of [] \<Rightarrow> ([], [])
                        | c # t \<Rightarrow> if c = CHR ''.'' then (takeWhile is_dig t, dropWhile is_dig t)
                                  else ([], r))
      in if ip @ fp = [] then None
         else case dec_exp r2 of None \<Rightarrow> None
              | Some x \<Rightarrow> Some (neg, digits_val (ip @ fp), x - int (length fp)))"

text \<open>
  \<open>int(amount.quantize(Decimal("0.01"), rounding=ROUND_HALF_UP) * 100)\<close>: the magnitude in
  hundredths, half up; \<open>quantize\<close> raises when the result needs more than the context's 28 digits.
\<close>

definition cents_magnitude :: "nat \<Rightarrow> int \<Rightarrow> nat" where
  "cents_magnitude c x =
     (if 0 \<le> x + 2 then c * 10 ^ nat (x + 2) else half_up c (10 ^ nat (- (x + 2))))"

definition to_cents :: "string \<Rightarrow> exn + int" where
  "to_cents value =
     (case parse_decimal (map (\<lambda>c. if c = CHR '','' then CHR ''.'' else c) (strip value)) of
        None \<Rightarrow> Inl ValueError
      | Some (neg, c, x) \<Rightarrow>
          (let m = cents_magnitude c x
           in if m < 10 ^ 28 then Inr (if neg then - int m else int m) else Inl ValueError))"

text \<open>\<open>to_cents\<close> raises nothing but \<open>ValueError\<close>; its callers catch exactly that.\<close>

lemma to_cents_error: "to_cents v = Inl x \<Longrightarrow> x = ValueError"
  by (auto simp: to_cents_def Let_def split: option.splits if_splits prod.splits)

section \<open>Rendering\<close>

definition format_cents :: "int \<Rightarrow> string" where
  "format_cents cents =
     (let sign = (if cents < 0 then ''-'' else '''');
          a = nat \<bar>cents\<bar>
      in sign @ show_nat (a div 100) @ '','' @ zfill 2 (a mod 100))"

datatype currency_symbol = RubleSign | HryvniaSign | EuroSign | CodeItself string

definition CURRENCIES :: "(string \<times> currency_symbol) list" where
  "CURRENCIES = [(''RUB'', RubleSign), (''UAH'', HryvniaSign), (''EUR'', EuroSign)]"

definition DEFAULT_CURRENCY :: string where
  "DEFAULT_CURRENCY = ''RUB''"

text \<open>\<open>code in CURRENCIES\<close>.\<close>

definition known_currency :: "string \<Rightarrow> bool" where
  "known_currency c \<longleftrightarrow> c \<in> fst ` set CURRENCIES"

text \<open>\<open>currency or DEFAULT_CURRENCY\<close>.\<close>

definition or_default :: "string option \<Rightarrow> string" where
  "or_default c = (if or_empty c = [] then DEFAULT_CURRENCY else or_empty c)"

definition currency_symbol :: "string option \<Rightarrow> currency_symbol" where
  "currency_symbol currency =
     (if or_empty currency = [] then the (map_of CURRENCIES DEFAULT_CURRENCY)
      else case map_of CURRENCIES (or_empty currency) of
             Some s \<Rightarrow> s | None \<Rightarrow> CodeItself (or_empty currency))"

definition format_money :: "int \<Rightarrow> string option \<Rightarrow> string \<times> currency_symbol" where
  "format_money cents currency = (format_cents cents, currency_symbol currency)"

section \<open>The one conversion: a RUB price as a suggestion\<close>

definition RUB_DIVISOR :: "(string \<times> nat) list" where
  "RUB_DIVISOR = [(''RUB'', 1), (''UAH'', 2), (''EUR'', 100)]"

definition rub_divisor :: "string option \<Rightarrow> nat" where
  "rub_divisor currency = (case map_of RUB_DIVISOR (or_default currency) of Some d \<Rightarrow> d | None \<Rightarrow> 1)"

definition rub_suggestion :: "int option \<Rightarrow> string option \<Rightarrow> int option" where
  "rub_suggestion rub currency =
     (case rub of None \<Rightarrow> None
      | Some r \<Rightarrow>
          (let m = int (half_up (nat \<bar>r\<bar>) (rub_divisor currency)) in Some (if r < 0 then - m else m)))"

lemma rub_divisor_pos [simp]: "0 < rub_divisor c"
  by (auto simp: rub_divisor_def RUB_DIVISOR_def split: option.splits if_splits)

lemma rub_suggestion_rub: "rub_suggestion r (Some ''RUB'') = r"
  by (cases r)
     (auto simp: rub_suggestion_def rub_divisor_def RUB_DIVISOR_def or_default_def Let_def)

section \<open>Parsing what was rendered\<close>

lemma split_digs:
  assumes "list_all is_dig s"
  shows "\<not> is_dig c \<Longrightarrow> takeWhile is_dig (s @ c # t) = s"
    and "\<not> is_dig c \<Longrightarrow> dropWhile is_dig (s @ c # t) = c # t"
    and "takeWhile is_dig s = s" and "dropWhile is_dig s = []"
  using assms by (induction s) auto

lemma dec_exp_Nil [simp]: "dec_exp [] = Some 0"
  by (simp add: dec_exp_def)

lemma not_dig_marks [simp]:
  "\<not> is_dig (CHR ''.'')" "\<not> is_dig (CHR '','')" "\<not> is_dig (CHR ''-'')" "\<not> is_dig (CHR ''+'')"
  "\<not> is_dig (CHR ''_'')" "\<not> is_space (CHR ''-'')" "\<not> is_space (CHR '','')"
  by (simp_all add: is_dig_def is_space_def ord_of_def)

lemma map_comma_digs: "list_all is_dig s \<Longrightarrow> map (\<lambda>c. if c = CHR '','' then CHR ''.'' else c) s = s"
  using not_dig_marks by (intro map_idI) (metis Ball_set)

lemma filter_digs: "list_all is_dig s \<Longrightarrow> filter (\<lambda>c. c \<noteq> CHR ''_'') s = s"
  using not_dig_marks by (intro filter_True) (metis Ball_set)

lemma dec_sign_digs: "list_all is_dig s \<Longrightarrow> s \<noteq> [] \<Longrightarrow> dec_sign (s @ t) = (False, s @ t)"
  by (cases s) (auto simp: dec_sign_def)

lemma dec_sign_minus: "dec_sign (CHR ''-'' # s) = (True, s)"
  by (simp add: dec_sign_def)

lemma parse_decimal_fixed:
  assumes "list_all is_dig ip" "ip \<noteq> []" "list_all is_dig fp"
  shows "parse_decimal (ip @ CHR ''.'' # fp) = Some (False, digits_val (ip @ fp), - int (length fp))"
    and "parse_decimal (CHR ''-'' # ip @ CHR ''.'' # fp)
           = Some (True, digits_val (ip @ fp), - int (length fp))"
  using assms
  by (simp_all add: parse_decimal_def filter_digs dec_sign_digs dec_sign_minus split_digs Let_def)

lemma format_cents_parts:
  fixes n :: int
  defines "a \<equiv> nat \<bar>n\<bar>"
  shows "map (\<lambda>c. if c = CHR '','' then CHR ''.'' else c) (strip (format_cents n))
       = (if n < 0 then ''-'' else '''') @ show_nat (a div 100) @ CHR ''.'' # zfill 2 (a mod 100)"
proof -
  have "list_all (\<lambda>c. \<not> is_space c) (format_cents n)"
    using show_nat_digs[of "a div 100"] zfill_digs[of 2 "a mod 100"]
    by (auto simp: format_cents_def Let_def list_all_iff a_def dest: dig_not_space)
  then have "strip (format_cents n) = format_cents n" by (rule strip_noop)
  then show ?thesis by (simp add: format_cents_def Let_def a_def map_comma_digs)
qed

lemma digits_val_hundred:
  "digits_val (show_nat (a div 100) @ zfill 2 (a mod 100)) = a"
  by (simp add: digits_val_append)

text \<open>What \<open>format_cents\<close> prints, \<open>to_cents\<close> reads back as the same amount, for every amount within the
  28 significant digits of the decimal context, negative ones included.\<close>

theorem to_cents_format_cents:
  assumes "\<bar>n\<bar> < 10 ^ 28"
  shows "to_cents (format_cents n) = Inr n"
proof -
  define a where "a = nat \<bar>n\<bar>"
  have bound: "a < 10 ^ 28" using assms by (simp add: a_def nat_less_iff)
  have "parse_decimal (map (\<lambda>c. if c = CHR '','' then CHR ''.'' else c) (strip (format_cents n)))
      = Some (n < 0, a, -2)"
    unfolding format_cents_parts a_def[symmetric]
    using parse_decimal_fixed[of "show_nat (a div 100)" "zfill 2 (a mod 100)"]
      digits_val_hundred[of a] by simp
  then show ?thesis using bound by (auto simp: to_cents_def cents_magnitude_def a_def Let_def)
qed

text \<open>C40: an amount typed with more than two decimals is rounded to the nearest cent, ties away from
  zero, and keeps its sign.\<close>

theorem to_cents_nearest:
  assumes "parse_decimal (map (\<lambda>c. if c = CHR '','' then CHR ''.'' else c) (strip v)) = Some (neg, c, x)"
    and "to_cents v = Inr n" and "x < - 2"
  shows "2 * int c < (2 * \<bar>n\<bar> + 1) * 10 ^ nat (- (x + 2))
    \<and> (2 * \<bar>n\<bar> - 1) * 10 ^ nat (- (x + 2)) \<le> 2 * int c
    \<and> (if neg then n \<le> 0 else 0 \<le> n)"
proof -
  have n: "\<bar>n\<bar> = int (half_up c (10 ^ nat (- (x + 2))))"
    and s: "neg \<longrightarrow> n \<le> 0" "\<not> neg \<longrightarrow> 0 \<le> n"
    using assms by (auto simp: to_cents_def cents_magnitude_def Let_def split: if_splits)
  have "2 * int c < (2 * \<bar>n\<bar> + 1) * 10 ^ nat (- (x + 2))"
    and "(2 * \<bar>n\<bar> - 1) * 10 ^ nat (- (x + 2)) \<le> 2 * int c"
    using half_up_bounds[of "10 ^ nat (- (x + 2))" c] unfolding n by simp_all
  with s show ?thesis by simp
qed

end
