(* ===== verification/Models.thy ===== *)
theory Models
  imports Money
begin

text \<open>
  The tables of \<open>src/app/models.py\<close>: one record per mapped class, one field per column, and the
  allow-lists the services validate against. A nullable column is an \<open>option\<close>; cents and
  quantities are unbounded integers; the flag \<open>is_legacy\<close>, only ever written as 0 or 1, is a bool. The
  \<open>updated_at\<close> bookkeeping column, which the ORM stamps on every UPDATE, is left out of every
  table. \<open>db\<close> is one database state: the rows of each table in insertion order.
\<close>

section \<open>Allow-lists\<close>

definition OPERATION_TYPES :: "string list" where
  "OPERATION_TYPES = [''receipt'', ''sale'', ''writeoff'', ''return'', ''correction'', ''transfer'',
     ''price_change'', ''product_created'', ''product_edited'']"

definition WRITEOFF_REASONS :: "string list" where
  "WRITEOFF_REASONS = [''damaged'', ''expired'', ''lost'', ''personal'', ''gift'', ''other'']"

definition CASH_CATEGORIES :: "string list" where
  "CASH_CATEGORIES = [''sale'', ''return'', ''withdrawal_supplier'', ''withdrawal_salary'',
     ''withdrawal_rent'', ''withdrawal_utilities'', ''withdrawal_other'', ''deposit_opening'',
     ''deposit_correction'']"

definition CASH_BUCKETS :: "(string \<times> string list) list" where
  "CASH_BUCKETS =
     [(''sale'', [''sale'']),
      (''return'', [''return'']),
      (''withdrawal'', [''withdrawal_supplier'', ''withdrawal_salary'', ''withdrawal_rent'',
         ''withdrawal_utilities'', ''withdrawal_other'']),
      (''deposit'', [''deposit_opening'', ''deposit_correction''])]"

text \<open>\<open>CASH_BUCKETS[b]\<close> for the four buckets.\<close>

definition cash_bucket :: "string \<Rightarrow> string list" where
  "cash_bucket b = (case map_of CASH_BUCKETS b of Some cs \<Rightarrow> cs | None \<Rightarrow> [])"

definition ROLES :: "string list" where
  "ROLES = [''administrator'', ''operator'']"

definition CONTACT_KINDS :: "string list" where
  "CONTACT_KINDS = [''phone'', ''telegram'', ''email'', ''social'']"

section \<open>Tables\<close>

record product =
  p_id :: string
  p_code :: "string option"
  p_name :: string
  p_category :: "string option"
  p_cost_cents :: "int option"
  p_sale_cents :: "int option"
  p_min_sale_cents :: "int option"
  p_cost_uah_cents :: "int option"
  p_sale_uah_cents :: "int option"
  p_min_sale_uah_cents :: "int option"
  p_cost_eur_cents :: "int option"
  p_sale_eur_cents :: "int option"
  p_min_sale_eur_cents :: "int option"
  p_low_stock_threshold :: "int option"
  p_stale_days :: "int option"
  p_name_lc :: "string option"
  p_quantity :: int
  p_created_at :: string
  p_deleted_at :: "string option"

record warehouse =
  w_id :: string
  w_name :: string
  w_address :: "string option"
  w_currency :: string
  w_created_at :: string
  w_deleted_at :: "string option"

record batch =
  b_id :: string
  b_product_id :: string
  b_warehouse_id :: string
  b_expiry :: "string option"
  b_price_cents :: "int option"
  b_cost_cents :: "int option"
  b_location :: "string option"
  b_comment :: "string option"
  b_name :: "string option"
  b_quantity :: int
  b_is_legacy :: bool
  b_created_at :: string

text \<open>
  The JSON column \<open>payload\<close>: the shapes the services write, and \<open>P_other\<close> for a payload that
  came in over the wire with another shape.
\<close>

datatype payload =
    P_return (origin_op_id: string)
  | P_writeoff (reason_code: string) (wo_note: string)
  | P_correction (co_note: "string option") (co_mode: string)
  | P_created (cr_code: string) (cr_name: string)
  | P_price_change (pc_field: string) (old_cents: "int option") (new_cents: "int option")
  | P_edited (ed_fields: "string list")
  | P_other string

record operation =
  o_id :: string
  o_type :: string
  o_product_id :: string
  o_qty_delta :: int
  o_unit_cost_cents :: "int option"
  o_unit_price_cents :: "int option"
  o_payload :: "payload option"
  o_sale_id :: "string option"
  o_batch_id :: "string option"
  o_reverses_op_id :: "string option"
  o_author_id :: "string option"
  o_device_id :: string
  o_seq :: int
  o_created_at :: string
  o_business_date :: "string option"
  o_created_by :: string
  o_synced_at :: "string option"

record sale =
  s_id :: string
  s_customer_id :: "string option"
  s_created_at :: string
  s_created_by :: string
  s_author_id :: "string option"
  s_device_id :: "string option"

record cash_movement =
  m_id :: string
  m_category :: string
  m_amount_cents :: int
  m_currency :: string
  m_note :: "string option"
  m_sale_id :: "string option"
  m_reverses_movement_id :: "string option"
  m_author_id :: "string option"
  m_device_id :: string
  m_seq :: int
  m_created_at :: string
  m_business_date :: "string option"
  m_created_by :: string
  m_synced_at :: "string option"

record catalog_price =
  cp_id :: string
  cp_year :: int
  cp_number :: int
  cp_code :: string
  cp_name :: "string option"
  cp_consumer_cents :: "int option"
  cp_consultant_cents :: "int option"
  cp_points :: "int option"

record dict_entry =
  d_id :: string
  d_code :: string
  d_name :: string
  d_name_lc :: "string option"
  d_rubric :: "string option"
  d_catalogs :: "string list option"
  d_created_at :: string

record customer =
  c_id :: string
  c_name :: string
  c_surname :: "string option"
  c_consultant_number :: "string option"
  c_address :: "string option"
  c_search_lc :: "string option"
  c_created_at :: string

record contact =
  k_id :: string
  k_customer_id :: string
  k_kind :: string
  k_value :: string
  k_label :: "string option"
  k_created_at :: string

record active_catalog =
  ac_id :: string
  ac_number :: "string option"
  ac_close_date :: "string option"
  ac_created_at :: string

record user =
  u_id :: string
  u_login :: string
  u_display_name :: string
  u_role :: string
  u_is_active :: int
  u_password_hash :: string
  u_created_at :: string

record device_token =
  dt_id :: string
  dt_device_id :: string
  dt_label :: string
  dt_token_prefix :: string
  dt_token_hash :: string
  dt_user_id :: "string option"
  dt_is_active :: int
  dt_created_at :: string
  dt_last_used_at :: "string option"
  dt_revoked_at :: "string option"

record sync_state =
  ss_id :: int
  ss_last_sync_at :: "string option"
  ss_last_status :: "string option"
  ss_last_result :: "string option"
  ss_auto_enabled :: int
  ss_auto_interval_seconds :: int

record db =
  products :: "product list"
  warehouses :: "warehouse list"
  batches :: "batch list"
  operations :: "operation list"
  sales :: "sale list"
  cash_movements :: "cash_movement list"
  catalog_prices :: "catalog_price list"
  dictionary :: "dict_entry list"
  users :: "user list"
  user_warehouses :: "(string \<times> string) list"
  customers :: "customer list"
  contacts :: "contact list"
  active_catalogs :: "active_catalog list"
  device_tokens :: "device_token list"
  sync_states :: "sync_state list"

definition empty_db :: db where
  "empty_db = \<lparr>products = [], warehouses = [], batches = [], operations = [], sales = [],
     cash_movements = [], catalog_prices = [], dictionary = [], users = [], user_warehouses = [],
     customers = [], contacts = [], active_catalogs = [], device_tokens = [], sync_states = []\<rparr>"

text \<open>\<open>session.get\<close> on the tables the services read by primary key.\<close>

abbreviation get_product :: "db \<Rightarrow> string \<Rightarrow> product option" where
  "get_product d k \<equiv> tget p_id k (products d)"

abbreviation get_warehouse :: "db \<Rightarrow> string \<Rightarrow> warehouse option" where
  "get_warehouse d k \<equiv> tget w_id k (warehouses d)"

abbreviation get_batch :: "db \<Rightarrow> string \<Rightarrow> batch option" where
  "get_batch d k \<equiv> tget b_id k (batches d)"

abbreviation get_operation :: "db \<Rightarrow> string \<Rightarrow> operation option" where
  "get_operation d k \<equiv> tget o_id k (operations d)"

text \<open>
  The active product with a code: \<open>Product.code == code, Product.deleted_at IS NULL\<close>. The partial
  unique index \<open>uq_products_code_active\<close> makes it unique.
\<close>

definition is_active_code :: "string \<Rightarrow> product \<Rightarrow> bool" where
  "is_active_code code p \<longleftrightarrow> p_code p = Some code \<and> p_deleted_at p = None"

definition active_product :: "db \<Rightarrow> string \<Rightarrow> product option" where
  "active_product d code = find (is_active_code code) (products d)"

definition active_codes :: "product list \<Rightarrow> string list" where
  "active_codes ps = [c. p \<leftarrow> ps, p_deleted_at p = None, c \<leftarrow> (case p_code p of None \<Rightarrow> [] | Some c \<Rightarrow> [c])]"

lemma active_codes_iff: "c \<in> set (active_codes ps) \<longleftrightarrow> list_ex (is_active_code c) ps"
  by (induction ps) (auto simp: active_codes_def is_active_code_def split: option.splits)

lemma active_productD:
  "active_product d code = Some p \<Longrightarrow>
     p \<in> set (products d) \<and> p_code p = Some code \<and> p_deleted_at p = None"
  by (auto simp: active_product_def find_Some_iff is_active_code_def)

section \<open>Card prices per currency\<close>

text \<open>
  \<open>CARD_PRICE_FIELDS\<close>: the product columns of a currency's price set, by kind
  (\<open>cost\<close>, \<open>sale\<close>, \<open>min_sale\<close>); an unknown or empty currency gives the RUB set.
\<close>

definition card_price_fields :: "string option \<Rightarrow> string \<Rightarrow> string" where
  "card_price_fields currency kind =
     kind @ (if or_default currency = ''UAH'' then ''_uah_cents''
             else if or_default currency = ''EUR'' then ''_eur_cents'' else ''_cents'')"

definition PRICE_FIELDS :: "string list" where
  "PRICE_FIELDS = [card_price_fields (Some c) k.
     c \<leftarrow> [''RUB'', ''UAH'', ''EUR''], k \<leftarrow> [''cost'', ''sale'', ''min_sale'']]"

text \<open>\<open>getattr(product, field)\<close> and \<open>setattr(product, field, v)\<close> on the nine price columns.\<close>

definition get_price :: "string \<Rightarrow> product \<Rightarrow> int option" where
  "get_price f p =
     (if f = ''cost_cents'' then p_cost_cents p
      else if f = ''sale_cents'' then p_sale_cents p
      else if f = ''min_sale_cents'' then p_min_sale_cents p
      else if f = ''cost_uah_cents'' then p_cost_uah_cents p
      else if f = ''sale_uah_cents'' then p_sale_uah_cents p
      else if f = ''min_sale_uah_cents'' then p_min_sale_uah_cents p
      else if f = ''cost_eur_cents'' then p_cost_eur_cents p
      else if f = ''sale_eur_cents'' then p_sale_eur_cents p
      else if f = ''min_sale_eur_cents'' then p_min_sale_eur_cents p
      else None)"

definition set_price :: "string \<Rightarrow> int option \<Rightarrow> product \<Rightarrow> product" where
  "set_price f v p =
     (if f = ''cost_cents'' then p\<lparr>p_cost_cents := v\<rparr>
      else if f = ''sale_cents'' then p\<lparr>p_sale_cents := v\<rparr>
      else if f = ''min_sale_cents'' then p\<lparr>p_min_sale_cents := v\<rparr>
      else if f = ''cost_uah_cents'' then p\<lparr>p_cost_uah_cents := v\<rparr>
      else if f = ''sale_uah_cents'' then p\<lparr>p_sale_uah_cents := v\<rparr>
      else if f = ''min_sale_uah_cents'' then p\<lparr>p_min_sale_uah_cents := v\<rparr>
      else if f = ''cost_eur_cents'' then p\<lparr>p_cost_eur_cents := v\<rparr>
      else if f = ''sale_eur_cents'' then p\<lparr>p_sale_eur_cents := v\<rparr>
      else if f = ''min_sale_eur_cents'' then p\<lparr>p_min_sale_eur_cents := v\<rparr>
      else p)"

text \<open>The columns a price update leaves alone.\<close>

lemma set_price_frame [simp]:
  "p_id (set_price f v p) = p_id p" "p_quantity (set_price f v p) = p_quantity p"
  "p_code (set_price f v p) = p_code p" "p_deleted_at (set_price f v p) = p_deleted_at p"
  "p_name (set_price f v p) = p_name p"
  by (auto simp: set_price_def)

lemma get_set_price: "f \<in> set PRICE_FIELDS \<Longrightarrow> get_price f (set_price f v p) = v"
  by (auto simp: PRICE_FIELDS_def card_price_fields_def or_default_def get_price_def set_price_def)

lemma get_set_price_other: "f \<noteq> g \<Longrightarrow> get_price g (set_price f v p) = get_price g p"
  by (auto simp: get_price_def set_price_def)

definition card_price_suggestion :: "product \<Rightarrow> string \<Rightarrow> string option \<Rightarrow> int option" where
  "card_price_suggestion p kind currency =
     (case get_price (card_price_fields currency kind) p of
        Some own \<Rightarrow> Some own
      | None \<Rightarrow> rub_suggestion (get_price (card_price_fields (Some DEFAULT_CURRENCY) kind) p) currency)"

definition card_price_is_converted :: "product \<Rightarrow> string \<Rightarrow> string option \<Rightarrow> bool" where
  "card_price_is_converted p kind currency =
     (let own = card_price_fields currency kind;
          rub = card_price_fields (Some DEFAULT_CURRENCY) kind
      in own \<noteq> rub \<and> get_price own p = None \<and> get_price rub p \<noteq> None)"

end
