(* ===== verification/Dates.thy ===== *)
theory Dates
  imports PyStr
begin

text \<open>
  Calendar days, as the services use \<open>datetime.date\<close>, and the date helpers of
  \<open>src/app/core.py\<close> that need no time zone: parsing (\<open>date.fromisoformat\<close>, with the extended,
  basic and week formats Python 3.11+ accepts), rendering (\<open>isoformat\<close>, \<open>format_ru_date\<close>), the
  value of a date input and the closed business-date bounds. The lemmas show the round trip and
  that ISO strings sort as the days they denote, which every period filter of the program
  relies on.
\<close>

section \<open>Days\<close>

datatype date = Date (dyear: nat) (dmonth: nat) (dday: nat)

instantiation date :: linorder
begin

definition less_eq_date :: "date \<Rightarrow> date \<Rightarrow> bool" where
  "less_eq_date a b \<longleftrightarrow> dyear a < dyear b \<or> dyear a = dyear b \<and>
     (dmonth a < dmonth b \<or> dmonth a = dmonth b \<and> dday a \<le> dday b)"

definition less_date :: "date \<Rightarrow> date \<Rightarrow> bool" where
  "less_date a b \<longleftrightarrow> dyear a < dyear b \<or> dyear a = dyear b \<and>
     (dmonth a < dmonth b \<or> dmonth a = dmonth b \<and> dday a < dday b)"

instance
  by standard (auto simp: less_eq_date_def less_date_def intro: date.expand)

end

definition is_leap :: "nat \<Rightarrow> bool" where
  "is_leap y \<longleftrightarrow> y mod 4 = 0 \<and> (y mod 100 \<noteq> 0 \<or> y mod 400 = 0)"

definition days_in_month :: "nat \<Rightarrow> nat \<Rightarrow> nat" where
  "days_in_month y m = (if m = 2 then (if is_leap y then 29 else 28)
                        else if m \<in> {4, 6, 9, 11} then 30 else 31)"

definition valid_date :: "date \<Rightarrow> bool" where
  "valid_date d \<longleftrightarrow> 1 \<le> dyear d \<and> dyear d \<le> 9999 \<and> 1 \<le> dmonth d \<and> dmonth d \<le> 12
     \<and> 1 \<le> dday d \<and> dday d \<le> days_in_month (dyear d) (dmonth d)"

lemma days_in_month_le: "days_in_month y m \<le> 31"
  by (simp add: days_in_month_def)

section \<open>Rendering\<close>

definition isoformat :: "date \<Rightarrow> string" where
  "isoformat d = zfill 4 (dyear d) @ ''-'' @ zfill 2 (dmonth d) @ ''-'' @ zfill 2 (dday d)"

text \<open>\<open>strftime("%d.%m.%Y")\<close>.\<close>

definition ru_format :: "date \<Rightarrow> string" where
  "ru_format d = zfill 2 (dday d) @ ''.'' @ zfill 2 (dmonth d) @ ''.'' @ zfill 4 (dyear d)"

section \<open>Ordinals and week dates\<close>

definition days_before_year :: "nat \<Rightarrow> nat" where
  "days_before_year y = (let z = y - 1 in z * 365 + z div 4 - z div 100 + z div 400)"

fun days_before_month :: "nat \<Rightarrow> nat \<Rightarrow> nat" where
  "days_before_month y 0 = 0"
| "days_before_month y (Suc m) = (if m = 0 then 0 else days_before_month y m + days_in_month y m)"

definition ymd2ord :: "date \<Rightarrow> nat" where
  "ymd2ord d = days_before_year (dyear d) + days_before_month (dyear d) (dmonth d) + dday d"

text \<open>The month and day of the \<open>n\<close>-th day (from 0) counted from the first of month \<open>m\<close>.\<close>

function month_day :: "nat \<Rightarrow> nat \<Rightarrow> nat \<Rightarrow> nat \<times> nat" where
  "month_day y m n =
     (if 12 \<le> m \<or> n < days_in_month y m then (m, n + 1)
      else month_day y (m + 1) (n - days_in_month y m))"
  by pat_completeness auto
termination
  by (relation "measure (\<lambda>(y, m, n). 12 - m)") auto

declare month_day.simps [simp del]

definition ord2ymd :: "nat \<Rightarrow> date" where
  "ord2ymd k =
     (let n0 = k - 1; n400 = n0 div 146097; a = n0 mod 146097;
          n100 = a div 36524; b = a mod 36524;
          n4 = b div 1461; c = b mod 1461;
          n1 = c div 365; n = c mod 365;
          y = n400 * 400 + 1 + n100 * 100 + n4 * 4 + n1
      in if n1 = 4 \<or> n100 = 4 then Date (y - 1) 12 31
         else (let (m, d) = month_day y 1 n in Date y m d))"

definition isoweek1monday :: "nat \<Rightarrow> nat" where
  "isoweek1monday y =
     (let firstday = ymd2ord (Date y 1 1); firstweekday = (firstday + 6) mod 7
      in if 3 < firstweekday then firstday - firstweekday + 7 else firstday - firstweekday)"

definition mk_date :: "nat \<Rightarrow> nat \<Rightarrow> nat \<Rightarrow> date option" where
  "mk_date y m d = (if valid_date (Date y m d) then Some (Date y m d) else None)"

definition isoweek_to_gregorian :: "nat \<Rightarrow> nat \<Rightarrow> nat \<Rightarrow> date option" where
  "isoweek_to_gregorian y w d =
     (let first_weekday = ymd2ord (Date y 1 1) mod 7;
          week_ok = (0 < w \<and> w < 53) \<or>
            (w = 53 \<and> (first_weekday = 4 \<or> first_weekday = 3 \<and> is_leap y))
      in if y = 0 \<or> 9999 < y \<or> \<not> week_ok \<or> d = 0 \<or> 7 < d then None
         else (let g = ord2ymd (isoweek1monday y + (w - 1) * 7 + (d - 1))
               in mk_date (dyear g) (dmonth g) (dday g)))"

section \<open>Parsing\<close>

definition digits_opt :: "string \<Rightarrow> nat option" where
  "digits_opt s = (if s \<noteq> [] \<and> list_all is_dig s then Some (digits_val s) else None)"

text \<open>The part after the year: \<open>MM-DD\<close> with a separator, \<open>MMDD\<close> without.\<close>

definition month_day_part :: "bool \<Rightarrow> string \<Rightarrow> (nat \<times> nat) option" where
  "month_day_part sep r =
     (if (if sep then length r = 5 \<and> r ! 2 = CHR ''-'' else length r = 4)
      then (case (digits_opt (take 2 r), digits_opt (drop (if sep then 3 else 2) r)) of
              (Some m, Some d) \<Rightarrow> Some (m, d) | _ \<Rightarrow> None)
      else None)"

text \<open>The part after \<open>W\<close>: \<open>ww\<close>, or \<open>ww-D\<close> with a separator, \<open>wwD\<close> without.\<close>

definition week_day_part :: "bool \<Rightarrow> string \<Rightarrow> (nat \<times> nat) option" where
  "week_day_part sep r =
     (if length r = 2 then map_option (\<lambda>w. (w, 1)) (digits_opt r)
      else if (if sep then length r = 4 \<and> r ! 2 = CHR ''-'' else length r = 3)
      then (case (digits_opt (take 2 r), digits_opt (drop (if sep then 3 else 2) r)) of
              (Some w, Some d) \<Rightarrow> Some (w, d) | _ \<Rightarrow> None)
      else None)"

text \<open>\<open>date.fromisoformat(s)\<close>; \<open>None\<close> is the \<open>ValueError\<close>.\<close>

definition fromisoformat :: "string \<Rightarrow> date option" where
  "fromisoformat s =
     (if length s \<notin> {7, 8, 10} then None
      else case digits_opt (take 4 s) of None \<Rightarrow> None
      | Some y \<Rightarrow>
          (let sep = (s ! 4 = CHR ''-''); r = drop (if sep then 5 else 4) s
           in if r \<noteq> [] \<and> hd r = CHR ''W''
              then Option.bind (week_day_part sep (tl r)) (\<lambda>(w, d). isoweek_to_gregorian y w d)
              else Option.bind (month_day_part sep r) (\<lambda>(m, d). mk_date y m d)))"

lemma fromisoformat_valid: "fromisoformat s = Some d \<Longrightarrow> valid_date d"
  by (auto simp: fromisoformat_def isoweek_to_gregorian_def mk_date_def Let_def
      split: if_splits option.splits Option.bind_splits prod.splits)

lemma digits_opt_zfill [simp]: "digits_opt (zfill w n) = Some n"
  by (simp add: digits_opt_def)

lemma valid_date_widths:
  assumes "valid_date d"
  shows "length (zfill 4 (dyear d)) = 4" "length (zfill 2 (dmonth d)) = 2" "length (zfill 2 (dday d)) = 2"
  using assms days_in_month_le[of "dyear d" "dmonth d"] by (auto simp: valid_date_def)

lemma length_isoformat: "valid_date d \<Longrightarrow> length (isoformat d) = 10"
  using valid_date_widths[of d] by (simp add: isoformat_def)

lemma dig_not_W: "list_all is_dig s \<Longrightarrow> s \<noteq> [] \<Longrightarrow> hd (s @ t) \<noteq> CHR ''W''"
  by (cases s) (auto simp: is_dig_def ord_of_def)

text \<open>What \<open>isoformat\<close> writes, \<open>fromisoformat\<close> reads back.\<close>

lemma fromisoformat_isoformat:
  assumes "valid_date d"
  shows "fromisoformat (isoformat d) = Some d"
proof -
  note w = valid_date_widths[OF assms]
  have "take 4 (isoformat d) = zfill 4 (dyear d)" and "isoformat d ! 4 = CHR ''-''"
    and r: "drop 5 (isoformat d) = zfill 2 (dmonth d) @ ''-'' @ zfill 2 (dday d)"
    using w by (simp_all add: isoformat_def nth_append)
  moreover have "month_day_part True (drop 5 (isoformat d)) = Some (dmonth d, dday d)"
    unfolding r using w by (simp add: month_day_part_def nth_append)
  moreover have "hd (drop 5 (isoformat d)) \<noteq> CHR ''W''"
    unfolding r by (rule dig_not_W) simp_all
  moreover have "mk_date (dyear d) (dmonth d) (dday d) = Some d"
    using assms by (simp add: mk_date_def)
  ultimately show ?thesis
    using length_isoformat[OF assms] by (simp add: fromisoformat_def Let_def)
qed

section \<open>ISO strings sort as days\<close>

lemma less_append:
  "length s = length t \<Longrightarrow> s @ u < t @ v \<longleftrightarrow> s < t \<or> s = t \<and> u < (v :: string)"
proof (induction s t rule: list_induct2)
  case Nil
  then show ?case by simp
next
  case (Cons x xs y ys)
  then show ?case by (auto simp: Cons_less_Cons)
qed

lemma ord_of_less: "c < d \<longleftrightarrow> ord_of c < ord_of d"
  by (simp add: less_char_def ord_of_def)

lemma digit_step:
  fixes a b p q k :: nat
  assumes "a < b" and "p < k"
  shows "a * k + p < b * k + q"
proof -
  have "a * k + p < (a + 1) * k" using assms(2) by simp
  also have "\<dots> \<le> b * k" using assms(1) by (intro mult_right_mono) simp_all
  finally show ?thesis by simp
qed

lemma dig_order:
  assumes "is_dig x" and "is_dig y"
  shows "x < y \<longleftrightarrow> digit_val x < digit_val y" and "x = y \<longleftrightarrow> digit_val x = digit_val y"
  using assms unfolding ord_of_less ord_of_inject[symmetric] digit_val_def is_dig_def by linarith+

lemma digits_less:
  "length s = length t \<Longrightarrow> list_all is_dig s \<Longrightarrow> list_all is_dig t \<Longrightarrow>
     s < t \<longleftrightarrow> digits_val s < digits_val t"
proof (induction s t rule: list_induct2)
  case Nil
  then show ?case by simp
next
  case (Cons x xs y ys)
  have vx: "digits_val xs < 10 ^ length ys" and vy: "digits_val ys < 10 ^ length ys"
    using digits_val_less[of xs] digits_val_less[of ys] Cons by auto
  have less: "x < y \<longleftrightarrow> digit_val x < digit_val y" and eq: "x = y \<longleftrightarrow> digit_val x = digit_val y"
    using Cons.prems dig_order[of x y] by simp_all
  consider "digit_val x < digit_val y" | "digit_val x = digit_val y" | "digit_val y < digit_val x"
    by linarith
  then show ?case
  proof cases
    case 1
    with less digit_step[OF 1 vx, of "digits_val ys"] Cons.hyps show ?thesis
      by (simp add: Cons_less_Cons)
  next
    case 2
    with less eq Cons show ?thesis by (simp add: Cons_less_Cons)
  next
    case 3
    with less eq digit_step[OF 3 vy, of "digits_val xs"] Cons.hyps show ?thesis
      by (simp add: Cons_less_Cons)
  qed
qed

lemma zfill_less: "length (zfill w m) = length (zfill w n) \<Longrightarrow> zfill w m < zfill w n \<longleftrightarrow> m < n"
  using digits_less[of "zfill w m" "zfill w n"] by simp

lemma zfill_eq: "zfill w m = zfill w n \<longleftrightarrow> m = n"
  by (metis zfill_val)

lemma isoformat_less:
  assumes "valid_date a" and "valid_date b"
  shows "isoformat a < isoformat b \<longleftrightarrow> a < b"
  using valid_date_widths[OF assms(1)] valid_date_widths[OF assms(2)]
  by (simp add: isoformat_def less_append zfill_less zfill_eq less_date_def)

lemma isoformat_inject:
  assumes "valid_date a" and "valid_date b"
  shows "isoformat a = isoformat b \<longleftrightarrow> a = b"
  by (metis fromisoformat_isoformat assms option.inject)

text \<open>Stored business dates behave as days: the ISO string of a day reads back as that day, and the
  strings compare as the days do, so the string comparisons of the reports are comparisons of
  dates.\<close>

theorem iso_dates_faithful:
  assumes "valid_date a" and "valid_date b"
  shows "fromisoformat (isoformat a) = Some a \<and> (isoformat a < isoformat b \<longleftrightarrow> a < b)
    \<and> (isoformat a = isoformat b \<longleftrightarrow> a = b)"
  using assms by (simp add: fromisoformat_isoformat isoformat_less isoformat_inject)

section \<open>Display helpers of core.py\<close>

text \<open>\<open>None\<close> and the empty string give the empty string; an unreadable value is shown as it is.\<close>

definition format_ru_date :: "string option \<Rightarrow> string" where
  "format_ru_date text =
     (if or_empty text = [] then []
      else case fromisoformat (or_empty text) of
             Some d \<Rightarrow> ru_format d | None \<Rightarrow> or_empty text)"

text \<open>The argument is \<open>None\<close> when the submitted object is not a string.\<close>

definition date_input_value :: "string option \<Rightarrow> string \<Rightarrow> string" where
  "date_input_value raw fallback =
     (if or_empty raw = [] then fallback
      else case fromisoformat (or_empty raw) of
             Some d \<Rightarrow> if isoformat d = or_empty raw then or_empty raw else fallback
           | None \<Rightarrow> fallback)"

definition business_date_bounds :: "date \<Rightarrow> date \<Rightarrow> string \<times> string" where
  "business_date_bounds start_day end_day = (isoformat start_day, isoformat end_day)"

lemma date_input_value_canonical:
  assumes "fromisoformat fallback \<noteq> None" and "isoformat (the (fromisoformat fallback)) = fallback"
  shows "\<exists>d. valid_date d \<and> date_input_value raw fallback = isoformat d"
proof (cases "date_input_value raw fallback = fallback")
  case True
  from assms obtain d where "fromisoformat fallback = Some d" by auto
  with assms True show ?thesis using fromisoformat_valid[of fallback d] by auto
next
  case False
  then obtain d where "fromisoformat (or_empty raw) = Some d" "isoformat d = or_empty raw"
      "date_input_value raw fallback = or_empty raw"
    by (auto simp: date_input_value_def split: if_splits option.splits)
  then show ?thesis using fromisoformat_valid by metis
qed

end
