(* ===== verification/Session.thy ===== *)
theory Session
  imports Models Dates
begin

text \<open>
  The database session of one request (\<open>app/db.py\<close>, SQLAlchemy's \<open>Session\<close> as the services use
  it). \<open>cur\<close> is what the session sees: the committed rows plus everything staged; \<open>saved\<close> is the
  committed state. \<open>commit\<close> publishes \<open>cur\<close>, \<open>rollback\<close> returns to \<open>saved\<close>. A staged row that
  breaks a primary key or the unique index on active codes sets \<open>bad\<close>: the next flush (an
  autoflush before a query, or the commit) raises \<open>IntegrityError\<close>.

  The clock and the id generator are streams: every read of the UTC clock or of the local day,
  and every minted UUID, advances a counter, so two reads in one request may differ (a request
  may run across local midnight). Nothing is assumed about the streams.
\<close>

record env =
  device_id :: string
  operator_name :: string
  current_user :: "(string \<times> string) option"
  allowed_warehouses :: "string list option"
  utcnow :: "nat \<Rightarrow> string"
  today_at :: "nat \<Rightarrow> date"
  uuid :: "nat \<Rightarrow> string"

record world =
  cur :: db
  saved :: db
  bad :: bool
  ticks :: nat
  mints :: nat

section \<open>Clock and ids\<close>

definition utcnow_iso :: "env \<Rightarrow> world \<Rightarrow> string \<times> world" where
  "utcnow_iso e w = (utcnow e (ticks w), w\<lparr>ticks := ticks w + 1\<rparr>)"

definition local_today_iso :: "env \<Rightarrow> world \<Rightarrow> string \<times> world" where
  "local_today_iso e w = (isoformat (today_at e (ticks w)), w\<lparr>ticks := ticks w + 1\<rparr>)"

definition new_id :: "env \<Rightarrow> world \<Rightarrow> string \<times> world" where
  "new_id e w = (uuid e (mints w), w\<lparr>mints := mints w + 1\<rparr>)"

text \<open>\<open>business_date or local_today_iso(settings.display_tz)\<close>: the clock is read only when needed.\<close>

definition or_today :: "env \<Rightarrow> string option \<Rightarrow> world \<Rightarrow> string \<times> world" where
  "or_today e d w = (if or_empty d = [] then local_today_iso e w else (or_empty d, w))"

section \<open>Transaction control\<close>

definition flush :: "world \<Rightarrow> exn option" where
  "flush w = (if bad w then Some IntegrityError else None)"

definition commit :: "world \<Rightarrow> exn option \<times> world" where
  "commit w = (if bad w then (Some IntegrityError, w) else (None, w\<lparr>saved := cur w\<rparr>))"

definition rollback :: "world \<Rightarrow> world" where
  "rollback w = w\<lparr>cur := saved w, bad := False\<rparr>"

text \<open>A session with nothing staged, as each request starts and as \<open>get_session\<close> leaves it.\<close>

definition clean :: "world \<Rightarrow> bool" where
  "clean w \<longleftrightarrow> cur w = saved w \<and> \<not> bad w"

section \<open>Staging rows\<close>

definition stage :: "(db \<Rightarrow> db) \<Rightarrow> bool \<Rightarrow> world \<Rightarrow> world" where
  "stage f clash w = w\<lparr>cur := f (cur w), bad := bad w \<or> clash\<rparr>"

definition add_product_row :: "product \<Rightarrow> db \<Rightarrow> db" where
  "add_product_row p d = d\<lparr>products := products d @ [p]\<rparr>"

definition add_batch_row :: "batch \<Rightarrow> db \<Rightarrow> db" where
  "add_batch_row b d = d\<lparr>batches := batches d @ [b]\<rparr>"

definition add_sale_row :: "sale \<Rightarrow> db \<Rightarrow> db" where
  "add_sale_row s d = d\<lparr>sales := sales d @ [s]\<rparr>"

definition add_cash_row :: "cash_movement \<Rightarrow> db \<Rightarrow> db" where
  "add_cash_row m d = d\<lparr>cash_movements := cash_movements d @ [m]\<rparr>"

definition upd_product :: "string \<Rightarrow> (product \<Rightarrow> product) \<Rightarrow> db \<Rightarrow> db" where
  "upd_product k f d = d\<lparr>products := tupd p_id k f (products d)\<rparr>"

definition upd_batch :: "string \<Rightarrow> (batch \<Rightarrow> batch) \<Rightarrow> db \<Rightarrow> db" where
  "upd_batch k f d = d\<lparr>batches := tupd b_id k f (batches d)\<rparr>"

text \<open>
  \<open>session.add\<close> of a new row: it clashes when its primary key is taken, and a product also when
  another active product has its code.
\<close>

definition add_product :: "product \<Rightarrow> world \<Rightarrow> world" where
  "add_product p w = stage (add_product_row p)
     (thas p_id (p_id p) (products (cur w)) \<or>
      p_deleted_at p = None \<and> (case p_code p of None \<Rightarrow> False
         | Some c \<Rightarrow> list_ex (is_active_code c) (products (cur w)))) w"

text \<open>An UPDATE of a product card; a code that is taken by another active card clashes.\<close>

definition edit_product :: "string \<Rightarrow> (product \<Rightarrow> product) \<Rightarrow> world \<Rightarrow> world" where
  "edit_product k f w = stage (upd_product k f)
     (\<not> distinct (active_codes (tupd p_id k f (products (cur w))))) w"

definition add_batch :: "batch \<Rightarrow> world \<Rightarrow> world" where
  "add_batch b w = stage (add_batch_row b) (thas b_id (b_id b) (batches (cur w))) w"

definition add_sale :: "sale \<Rightarrow> world \<Rightarrow> world" where
  "add_sale s w = stage (add_sale_row s) (thas s_id (s_id s) (sales (cur w))) w"

definition add_cash :: "cash_movement \<Rightarrow> world \<Rightarrow> world" where
  "add_cash m w = stage (add_cash_row m) (thas m_id (m_id m) (cash_movements (cur w))) w"

section \<open>Frame facts\<close>

lemma clock_frame [simp]:
  "cur (snd (utcnow_iso e w)) = cur w" "saved (snd (utcnow_iso e w)) = saved w"
  "bad (snd (utcnow_iso e w)) = bad w"
  "cur (snd (local_today_iso e w)) = cur w" "saved (snd (local_today_iso e w)) = saved w"
  "bad (snd (local_today_iso e w)) = bad w"
  "cur (snd (new_id e w)) = cur w" "saved (snd (new_id e w)) = saved w"
  "bad (snd (new_id e w)) = bad w"
  "cur (snd (or_today e d w)) = cur w" "saved (snd (or_today e d w)) = saved w"
  "bad (snd (or_today e d w)) = bad w"
  by (simp_all add: utcnow_iso_def local_today_iso_def new_id_def or_today_def)

lemma or_today_given: "s \<noteq> [] \<Longrightarrow> or_today e (Some s) w = (s, w)"
  by (simp add: or_today_def)

lemma isoformat_nonempty [simp]: "isoformat d \<noteq> []"
  by (simp add: isoformat_def)

lemma or_today_nonempty [simp]: "fst (or_today e d w) \<noteq> []"
  by (simp add: or_today_def local_today_iso_def)

lemma rollback_simps [simp]:
  "cur (rollback w) = saved w" "saved (rollback w) = saved w" "\<not> bad (rollback w)"
  by (simp_all add: rollback_def)

lemma clean_rollback [simp]: "clean (rollback w)"
  by (simp add: clean_def)

lemma commit_cases:
  obtains (clash) "bad w" "commit w = (Some IntegrityError, w)"
  | (ok) "\<not> bad w" "commit w = (None, w\<lparr>saved := cur w\<rparr>)"
  by (cases "bad w") (auto simp: commit_def)

lemma stage_frame [simp]:
  "saved (stage f c w) = saved w" "cur (stage f c w) = f (cur w)"
  "bad (stage f c w) \<longleftrightarrow> bad w \<or> c"
  by (simp_all add: stage_def)

lemma add_frame [simp]:
  "saved (add_product p w) = saved w" "cur (add_product p w) = add_product_row p (cur w)"
  "saved (add_batch b w) = saved w" "cur (add_batch b w) = add_batch_row b (cur w)"
  "saved (add_sale s w) = saved w" "cur (add_sale s w) = add_sale_row s (cur w)"
  "saved (add_cash m w) = saved w" "cur (add_cash m w) = add_cash_row m (cur w)"
  "saved (edit_product k f w) = saved w" "cur (edit_product k f w) = upd_product k f (cur w)"
  by (simp_all add: add_product_def add_batch_def add_sale_def add_cash_def edit_product_def)

lemma add_row_frame [simp]:
  "products (add_product_row p d) = products d @ [p]" "batches (add_product_row p d) = batches d"
  "operations (add_product_row p d) = operations d" "warehouses (add_product_row p d) = warehouses d"
  "cash_movements (add_product_row p d) = cash_movements d" "sales (add_product_row p d) = sales d"
  "products (add_batch_row b d) = products d" "batches (add_batch_row b d) = batches d @ [b]"
  "operations (add_batch_row b d) = operations d" "warehouses (add_batch_row b d) = warehouses d"
  "cash_movements (add_batch_row b d) = cash_movements d" "sales (add_batch_row b d) = sales d"
  "products (add_sale_row s d) = products d" "batches (add_sale_row s d) = batches d"
  "operations (add_sale_row s d) = operations d" "warehouses (add_sale_row s d) = warehouses d"
  "cash_movements (add_sale_row s d) = cash_movements d" "sales (add_sale_row s d) = sales d @ [s]"
  "products (add_cash_row m d) = products d" "batches (add_cash_row m d) = batches d"
  "operations (add_cash_row m d) = operations d" "warehouses (add_cash_row m d) = warehouses d"
  "cash_movements (add_cash_row m d) = cash_movements d @ [m]" "sales (add_cash_row m d) = sales d"
  by (simp_all add: add_product_row_def add_batch_row_def add_sale_row_def add_cash_row_def)

lemma upd_frame [simp]:
  "products (upd_product k f d) = tupd p_id k f (products d)" "batches (upd_product k f d) = batches d"
  "operations (upd_product k f d) = operations d" "warehouses (upd_product k f d) = warehouses d"
  "cash_movements (upd_product k f d) = cash_movements d" "sales (upd_product k f d) = sales d"
  "products (upd_batch k g d) = products d" "batches (upd_batch k g d) = tupd b_id k g (batches d)"
  "operations (upd_batch k g d) = operations d" "warehouses (upd_batch k g d) = warehouses d"
  "cash_movements (upd_batch k g d) = cash_movements d" "sales (upd_batch k g d) = sales d"
  by (simp_all add: upd_product_def upd_batch_def)

section \<open>Invariants of a session\<close>

text \<open>
  A database property \<open>P\<close> is kept by a session when it holds of the committed state and, unless
  a clash is pending, of the staged state. Commit and rollback keep it; the component theories
  show it of each staging step, and so of every handler composed of such steps.
\<close>

definition keeps :: "(db \<Rightarrow> bool) \<Rightarrow> world \<Rightarrow> bool" where
  "keeps P w \<longleftrightarrow> P (saved w) \<and> (bad w \<or> P (cur w))"

lemma keeps_clock [simp]:
  "keeps P (snd (utcnow_iso e w)) = keeps P w" "keeps P (snd (local_today_iso e w)) = keeps P w"
  "keeps P (snd (new_id e w)) = keeps P w" "keeps P (snd (or_today e d w)) = keeps P w"
  by (simp_all add: keeps_def)

lemma keeps_rollback: "keeps P w \<Longrightarrow> keeps P (rollback w)"
  by (simp add: keeps_def)

lemma keeps_commit: "keeps P w \<Longrightarrow> keeps P (snd (commit w))"
  by (auto simp: keeps_def commit_def)

lemma keeps_stage:
  "keeps P w \<Longrightarrow> (\<not> bad w \<Longrightarrow> \<not> c \<Longrightarrow> P (cur w) \<Longrightarrow> P (f (cur w))) \<Longrightarrow> keeps P (stage f c w)"
  by (auto simp: keeps_def)

lemma keeps_clean: "clean w \<Longrightarrow> keeps P w \<longleftrightarrow> P (saved w)"
  by (auto simp: keeps_def clean_def)

end
