(* ===== verification/Security.thy ===== *)
theory Security
  imports Session
begin

text \<open>
  The guard of \<open>src/app/services/security.py\<close> and the parts of \<open>users.py\<close> it calls: who may
  reach a route, which warehouses the request's user may move stock in, and the attribution
  stamped on ledger rows. The request-scoped context variables are the fields
  \<open>current_user\<close> and \<open>allowed_warehouses\<close> of the environment. The random CSRF token is a
  parameter; constant-time comparison is equality.
\<close>

section \<open>Warehouse scope\<close>

definition allowed_warehouse_ids :: "env \<Rightarrow> string list option" where
  "allowed_warehouse_ids e = allowed_warehouses e"

text \<open>The SQL predicate on a nullable warehouse column: NULL never matches a restricted set.\<close>

definition warehouse_scope :: "env \<Rightarrow> string option \<Rightarrow> bool" where
  "warehouse_scope e c = (case allowed_warehouses e of None \<Rightarrow> True
     | Some ws \<Rightarrow> (case c of None \<Rightarrow> False | Some k \<Rightarrow> k \<in> set ws))"

definition warehouse_allowed :: "env \<Rightarrow> string \<Rightarrow> bool" where
  "warehouse_allowed e k = (case allowed_warehouses e of None \<Rightarrow> True | Some ws \<Rightarrow> k \<in> set ws)"

text \<open>The SQL predicate and its Python twin agree on every warehouse id.\<close>

lemma warehouse_scope_Some [simp]: "warehouse_scope e (Some k) = warehouse_allowed e k"
  by (simp add: warehouse_scope_def warehouse_allowed_def split: option.splits)

definition resolve_allowed_warehouses :: "db \<Rightarrow> user \<Rightarrow> string list option" where
  "resolve_allowed_warehouses d u =
     (if u_role u = ''administrator'' then None
      else Some (map snd (filter (\<lambda>(i, _). i = u_id u) (user_warehouses d))))"

definition author_fields :: "env \<Rightarrow> string option \<times> string" where
  "author_fields e = (case current_user e of None \<Rightarrow> (None, operator_name e)
     | Some (i, n) \<Rightarrow> (Some i, n))"

section \<open>The guard of every route\<close>

definition PUBLIC_PATHS :: "string list" where
  "PUBLIC_PATHS = [''/login'', ''/logout'', ''/setup'', ''/health'', ''/otchet-prihodov'']"

definition SYNC_PATH_PREFIX :: string where
  "SYNC_PATH_PREFIX = ''/api/sync/''"

definition OFFLINE_PATH_PREFIX :: string where
  "OFFLINE_PATH_PREFIX = ''/api/offline/''"

definition startswith :: "string \<Rightarrow> string \<Rightarrow> bool" where
  "startswith s pre \<longleftrightarrow> take (length pre) s = pre"

record http_session =
  csrf :: string
  session_user :: "string option"

record http_request =
  path :: string
  http_method :: string
  csrf_header :: string
  csrf_form :: string

datatype guard_result =
    Anonymous
  | Admitted user "string list option"
  | NotAuthenticated string
  | Forbidden

definition issue_csrf :: "string \<Rightarrow> http_session \<Rightarrow> http_session" where
  "issue_csrf fresh s = (if csrf s = [] then s\<lparr>csrf := fresh\<rparr> else s)"

definition csrf_ok :: "http_request \<Rightarrow> http_session \<Rightarrow> bool" where
  "csrf_ok r s =
     (let submitted = (if csrf_header r = [] then csrf_form r else csrf_header r)
      in csrf s \<noteq> [] \<and> submitted \<noteq> [] \<and> submitted = csrf s)"

definition count_users :: "db \<Rightarrow> nat" where
  "count_users d = length (users d)"

definition get_active_user :: "db \<Rightarrow> string \<Rightarrow> user option" where
  "get_active_user d k = (case tget u_id k (users d) of None \<Rightarrow> None
     | Some u \<Rightarrow> if u_is_active u \<noteq> 1 then None else Some u)"

definition auth_guard ::
  "string \<Rightarrow> db \<Rightarrow> http_request \<Rightarrow> http_session \<Rightarrow> guard_result \<times> http_session" where
  "auth_guard fresh d r s0 =
     (let s = issue_csrf fresh s0 in
      if path r \<in> set PUBLIC_PATHS then (Anonymous, s)
      else if startswith (path r) SYNC_PATH_PREFIX then (Anonymous, s)
      else if startswith (path r) OFFLINE_PATH_PREFIX then (Anonymous, s)
      else if count_users d = 0 then (NotAuthenticated ''/setup'', s)
      else case (if or_empty (session_user s) = [] then None
                 else get_active_user d (or_empty (session_user s))) of
             None \<Rightarrow> (NotAuthenticated ''/login'', s\<lparr>session_user := None\<rparr>)
           | Some u \<Rightarrow>
               if http_method r \<notin> {''GET'', ''HEAD'', ''OPTIONS''} \<and> \<not> csrf_ok r s
               then (Forbidden, s)
               else (Admitted u (resolve_allowed_warehouses d u), s))"

text \<open>\<open>require_role(role)\<close>: does the dependency let the request's user through?\<close>

definition require_role :: "string \<Rightarrow> user option \<Rightarrow> bool" where
  "require_role role u =
     (case u of None \<Rightarrow> False
      | Some v \<Rightarrow> u_role v = ''administrator'' \<or> u_role v = role)"

lemma get_active_userD:
  "get_active_user d k = Some u \<Longrightarrow> u \<in> set (users d) \<and> u_id u = k \<and> u_is_active u = 1"
  by (auto simp: get_active_user_def dest: tget_SomeD split: option.splits if_splits)

text \<open>C31: deny by default. Off the public pages and the two device-token trees the guard never lets a request
  through anonymously; whom it admits is the session's user, active in the database at that very
  request, with the warehouses of the database; and a request with an unsafe method is admitted
  only with the CSRF token of the session.\<close>

theorem auth_guard_sound:
  assumes "auth_guard fresh d r s0 = (g, s)" and "path r \<notin> set PUBLIC_PATHS"
    and "\<not> startswith (path r) SYNC_PATH_PREFIX" and "\<not> startswith (path r) OFFLINE_PATH_PREFIX"
  shows "g \<noteq> Anonymous \<and>
    (\<forall>u ws. g = Admitted u ws \<longrightarrow> u \<in> set (users d) \<and> u_is_active u = 1 \<and> session_user s0 = Some (u_id u)
       \<and> ws = resolve_allowed_warehouses d u
       \<and> (http_method r \<in> {''GET'', ''HEAD'', ''OPTIONS''}
          \<or> csrf s0 \<noteq> [] \<and> csrf s0 \<in> {csrf_header r, csrf_form r}
          \<or> csrf s0 = [] \<and> fresh \<in> {csrf_header r, csrf_form r}))"
  using assms
  by (auto simp: auth_guard_def issue_csrf_def csrf_ok_def Let_def or_empty_def
      dest!: get_active_userD split: if_splits option.splits)

end
