(* ===== verification/Forms.thy ===== *)
theory Forms
  imports Session
begin

text \<open>
  What a form handler returns. The services answer \<open>(result, errors)\<close> pairs: a result with an
  empty error dict, \<open>None\<close> with the field errors, or a result that asks for confirmation (an
  oversell, a price below the minimum, a negative balance). A fourth outcome is an exception that
  escapes the handler. Each operator-facing message is one constructor of \<open>msg\<close>; messages that
  carry a value have it as an argument.
\<close>

datatype msg =
    OpDateFormat | OpDateFuture | OpDateTooOld
  | QtyMsg | CodeRequired | NameRequired | PriceMsg | PriceRequired
  | EmptyBasket | ProductNotFound string | BatchRequired | MixedCurrency
  | SaveRollback | SaveFailed
  | ReasonMsg | ModeMsg | CountQtyMsg | DeltaQtyMsg | ZeroNet
  | OriginNotFound | FullyReturned | OverCap int | ProductUnavailable
  | WarehouseMsg | NoWarehouses | BatchChoice | ExpiryMsg | DuplicateCode
  | SameWarehouse | CostRequired
  | AmountMsg | CategoryMsg | NoteRequired | CurrencyMsg
  | ThresholdMsg | ProductMissing | ProductDeleted
  | BatchMissing | NameTooLong | LocationTooLong | CommentTooLong
  | WarehouseMissing | CurrencyInvalid | WarehouseNameRequired
  | LoginRequired | DisplayNameRequired | LoginTaken | RoleInvalid | PasswordRequired | UserMissing
  | SelfDeactivate | AdminHasAllWarehouses | BadCredentials | AccountDisabled
  | LabelRequired | DeviceIdRequired | TokenMissing
  | CustomerMissing | CustomerNameRequired | CustomerNameTooLong | SurnameTooLong
  | ConsultantNumberTooLong | AddressTooLong | ContactTooLong
  | EntryMissing | EntryDuplicate | ProductCodeMissing | EntryCodeRequired | EntryNameRequired
  | CatalogNumberTooLong | CloseDateMsg

type_synonym errors = "(string \<times> msg) list"

datatype ('a, 'w) outcome =
    Ok 'a
  | Warn 'w
  | Errors errors
  | Raised exn

definition is_Ok :: "('a, 'w) outcome \<Rightarrow> bool" where
  "is_Ok r = (case r of Ok _ \<Rightarrow> True | _ \<Rightarrow> False)"

lemma is_Ok_simps [simp]:
  "is_Ok (Ok a)" "\<not> is_Ok (Warn v)" "\<not> is_Ok (Errors es)" "\<not> is_Ok (Raised x)"
  by (simp_all add: is_Ok_def)

lemma not_is_OkI: "(\<And>a. r \<noteq> Ok a) \<Longrightarrow> \<not> is_Ok r"
  by (cases r) auto

end
