(* ===== verification/Ledger.thy ===== *)
theory Ledger
  imports Security Forms
begin

text \<open>
  \<open>src/app/services/ledger.py\<close>: the single write path for stock. \<open>record_operation\<close> validates,
  appends one immutable row and increments the cached quantity of the product and of the batch;
  \<open>recompute_derived\<close> rebuilds both caches from the ledger and checks that they agree. The
  invariant \<open>ledger_ok\<close> says that every cache equals the sum it caches and that every product's
  quantity is the sum of its batches'.
\<close>

section \<open>Dates of operations\<close>

definition STOCK_AFFECTING_TYPES :: "string list" where
  "STOCK_AFFECTING_TYPES = [''receipt'', ''sale'', ''writeoff'', ''return'', ''correction'', ''transfer'']"

definition OP_DATE_FLOOR :: date where
  "OP_DATE_FLOOR = Date 2000 1 1"

text \<open>
  \<open>parse_op_date(raw, errors, key)\<close>: the date (\<open>None\<close> for empty input and for an error), the
  error dict and the clock after it. Only the last check reads the clock.
\<close>

definition parse_op_date ::
  "env \<Rightarrow> string \<Rightarrow> errors \<Rightarrow> string \<Rightarrow> world \<Rightarrow> string option \<times> errors \<times> world" where
  "parse_op_date e raw es key w =
     (let s = strip raw in
      if s = [] then (None, es, w)
      else case fromisoformat s of
        None \<Rightarrow> (None, dict_set key OpDateFormat es, w)
      | Some parsed \<Rightarrow>
          if parsed < OP_DATE_FLOOR then (None, dict_set key OpDateTooOld es, w)
          else (let (today, w1) = local_today_iso e w in
                if today < isoformat parsed then (None, dict_set key OpDateFuture es, w1)
                else (Some (isoformat parsed), es, w1)))"

lemma parse_op_date_frame:
  assumes "parse_op_date e raw es key w = (d, es', w')"
  shows "cur w' = cur w" "saved w' = saved w" "bad w' = bad w" "mints w' = mints w"
  using assms by (auto simp: parse_op_date_def local_today_iso_def Let_def split: if_splits option.splits)

text \<open>An accepted date: nothing typed, or a canonical day from the floor to the day of the check.\<close>

lemma parse_op_date_ok:
  assumes "parse_op_date e raw es key w = (bd, [], w1)"
  shows "es = []"
    and "bd = None \<Longrightarrow> strip raw = []"
    and "bd = Some s \<Longrightarrow> \<exists>d. fromisoformat (strip raw) = Some d \<and> s = isoformat d
           \<and> OP_DATE_FLOOR \<le> d \<and> s \<le> isoformat (today_at e (ticks w))"
  using assms
  by (auto simp: parse_op_date_def local_today_iso_def Let_def split: if_splits option.splits)

text \<open>An operation date that passes without an error is either absent (nothing typed) or the canonical
  ISO form of a valid day, not before 2000-01-01 and not after the operator's local today.\<close>

theorem accepted_op_date:
  assumes "parse_op_date e raw [] key w = (bd, [], w1)"
  shows "case bd of None \<Rightarrow> strip raw = []
    | Some s \<Rightarrow> (\<exists>d. fromisoformat (strip raw) = Some d \<and> valid_date d \<and> s = isoformat d
         \<and> OP_DATE_FLOOR \<le> d \<and> s \<le> isoformat (today_at e (ticks w)))"
  using parse_op_date_ok[OF assms] fromisoformat_valid by (cases bd) auto

section \<open>Recording one operation\<close>

definition next_seq :: "string \<Rightarrow> operation list \<Rightarrow> int" where
  "next_seq dev ops = (case max_seq o_device_id o_seq dev ops of None \<Rightarrow> 0 | Some m \<Rightarrow> m) + 1"

interpretation op_seq: sequenced "o_device_id :: operation \<Rightarrow> string" o_seq next_seq
proof
  fix r :: operation and rows assume "r \<in> set rows"
  then show "o_seq r < next_seq (o_device_id r) rows"
    using max_seq_ge[of r rows o_device_id "o_device_id r" o_seq] by (auto simp: next_seq_def)
qed

text \<open>The keyword arguments of \<open>record_operation\<close>.\<close>

record op_args =
  a_type :: string
  a_product_id :: string
  a_qty_delta :: int
  a_unit_cost_cents :: "int option"
  a_unit_price_cents :: "int option"
  a_payload :: "payload option"
  a_sale_id :: "string option"
  a_batch_id :: "string option"
  a_business_date :: "string option"

text \<open>The batch guard: the batch of a stock-affecting row, none for an audit row.\<close>

definition check_batch :: "env \<Rightarrow> op_args \<Rightarrow> db \<Rightarrow> exn + batch option" where
  "check_batch e a d =
     (if a_type a \<in> set STOCK_AFFECTING_TYPES then
        (case a_batch_id a of None \<Rightarrow> Inl ValueError
         | Some k \<Rightarrow> (case get_batch d k of None \<Rightarrow> Inl ValueError
            | Some b \<Rightarrow>
                if b_product_id b \<noteq> a_product_id a then Inl ValueError
                else if \<not> warehouse_allowed e (b_warehouse_id b)
                       \<and> \<not> (a_type a = ''transfer'' \<and> 0 < a_qty_delta a)
                then Inl WarehouseAccessError
                else Inr (Some b)))
      else if a_batch_id a \<noteq> None then Inl ValueError
      else Inr None)"

text \<open>The row and the two SQL-side increments \<open>quantity = quantity + ?\<close>.\<close>

definition append_op :: "operation \<Rightarrow> db \<Rightarrow> db" where
  "append_op o1 d = d\<lparr>operations := operations d @ [o1],
     products := tupd p_id (o_product_id o1) (\<lambda>p. p\<lparr>p_quantity := p_quantity p + o_qty_delta o1\<rparr>) (products d),
     batches := (case o_batch_id o1 of None \<Rightarrow> batches d
       | Some k \<Rightarrow> tupd b_id k (\<lambda>b. b\<lparr>b_quantity := b_quantity b + o_qty_delta o1\<rparr>) (batches d))\<rparr>"

definition make_op :: "env \<Rightarrow> op_args \<Rightarrow> world \<Rightarrow> operation \<times> world" where
  "make_op e a w =
     (let (author, by) = author_fields e;
          (i, w1) = new_id e w;
          s = next_seq (device_id e) (operations (cur w1));
          (at, w2) = utcnow_iso e w1;
          (bd, w3) = or_today e (a_business_date a) w2
      in (\<lparr>o_id = i, o_type = a_type a, o_product_id = a_product_id a, o_qty_delta = a_qty_delta a,
           o_unit_cost_cents = a_unit_cost_cents a, o_unit_price_cents = a_unit_price_cents a,
           o_payload = a_payload a, o_sale_id = a_sale_id a, o_batch_id = a_batch_id a,
           o_reverses_op_id = None, o_author_id = author, o_device_id = device_id e, o_seq = s,
           o_created_at = at, o_business_date = Some bd, o_created_by = by, o_synced_at = None\<rparr>, w3))"

definition stage_op :: "operation \<Rightarrow> world \<Rightarrow> world" where
  "stage_op o1 w = stage (append_op o1) (thas o_id (o_id o1) (operations (cur w))) w"

definition record_operation :: "env \<Rightarrow> op_args \<Rightarrow> bool \<Rightarrow> world \<Rightarrow> (exn + operation) \<times> world" where
  "record_operation e a do_commit w =
     (if a_type a \<notin> set OPERATION_TYPES then (Inl ValueError, w)
      else case flush w of Some x \<Rightarrow> (Inl x, w)
      | None \<Rightarrow>
        (case get_product (cur w) (a_product_id a) of
           None \<Rightarrow> (Inl ValueError, w)
         | Some p \<Rightarrow>
             if p_deleted_at p \<noteq> None then (Inl ValueError, w)
             else (case check_batch e a (cur w) of
                Inl x \<Rightarrow> (Inl x, w)
              | Inr b \<Rightarrow>
                  (let (o1, w1) = make_op e a w; w2 = stage_op o1 w1
                   in if do_commit then (case commit w2 of
                           (Some x, w3) \<Rightarrow> (Inl x, w3) | (None, w3) \<Rightarrow> (Inr o1, w3))
                      else (Inr o1, w2)))))"

section \<open>Recomputing the caches\<close>

definition compute_stock :: "db \<Rightarrow> string \<Rightarrow> int" where
  "compute_stock d pid = sum_where (\<lambda>o1. o_product_id o1 = pid) o_qty_delta (operations d)"

text \<open>The rows of a product written before batches existed.\<close>

definition null_bucket :: "db \<Rightarrow> string \<Rightarrow> int" where
  "null_bucket d pid =
     sum_where (\<lambda>o1. o_product_id o1 = pid \<and> o_batch_id o1 = None) o_qty_delta (operations d)"

definition compute_batch_stock :: "db \<Rightarrow> batch \<Rightarrow> int" where
  "compute_batch_stock d b =
     sum_where (\<lambda>o1. o_batch_id o1 = Some (b_id b)) o_qty_delta (operations d)
     + (if b_is_legacy b then null_bucket d (b_product_id b) else 0)"

definition has_legacy :: "db \<Rightarrow> string \<Rightarrow> bool" where
  "has_legacy d pid \<longleftrightarrow> list_ex (\<lambda>b. b_product_id b = pid \<and> b_is_legacy b) (batches d)"

definition repair_caches :: "db \<Rightarrow> db" where
  "repair_caches d = d\<lparr>
     products := map (\<lambda>p. p\<lparr>p_quantity := compute_stock d (p_id p)\<rparr>) (products d),
     batches := map (\<lambda>b. b\<lparr>b_quantity := compute_batch_stock d b\<rparr>) (batches d)\<rparr>"

definition rollup :: "db \<Rightarrow> string \<Rightarrow> int" where
  "rollup d pid = sum_where (\<lambda>b. b_product_id b = pid) b_quantity (batches d)
     + (if has_legacy d pid then 0 else null_bucket d pid)"

definition rollup_ok :: "db \<Rightarrow> bool" where
  "rollup_ok d \<longleftrightarrow> list_all (\<lambda>p. p_quantity p = rollup d (p_id p)) (products d)"

definition recompute_derived :: "world \<Rightarrow> exn option \<times> world" where
  "recompute_derived w =
     (case flush w of Some x \<Rightarrow> (Some x, w)
      | None \<Rightarrow>
        (let d = repair_caches (cur w); w1 = w\<lparr>cur := d\<rparr>
         in if rollup_ok d then (None, w1) else (Some ValueError, w1)))"

definition rebuild_stock :: "world \<Rightarrow> exn option \<times> world" where
  "rebuild_stock w = (case recompute_derived w of
     (Some x, w1) \<Rightarrow> (Some x, w1) | (None, w1) \<Rightarrow> commit w1)"

section \<open>The invariant of the stock ledger\<close>

definition ids_distinct :: "db \<Rightarrow> bool" where
  "ids_distinct d \<longleftrightarrow> distinct (map p_id (products d)) \<and> distinct (map b_id (batches d))
     \<and> distinct (map o_id (operations d))"

definition stock_cached :: "db \<Rightarrow> bool" where
  "stock_cached d \<longleftrightarrow> (\<forall>p \<in> set (products d). p_quantity p = compute_stock d (p_id p))"

definition batches_cached :: "db \<Rightarrow> bool" where
  "batches_cached d \<longleftrightarrow> (\<forall>b \<in> set (batches d). b_quantity b = compute_batch_stock d b)"

definition op_refs_ok :: "db \<Rightarrow> operation \<Rightarrow> bool" where
  "op_refs_ok d o1 \<longleftrightarrow> o_product_id o1 \<in> p_id ` set (products d) \<and>
     (case o_batch_id o1 of None \<Rightarrow> True
      | Some k \<Rightarrow> \<exists>b \<in> set (batches d). b_id b = k \<and> b_product_id b = o_product_id o1)"

definition refs_ok :: "db \<Rightarrow> bool" where
  "refs_ok d \<longleftrightarrow> (\<forall>o1 \<in> set (operations d). op_refs_ok d o1)"

definition one_legacy :: "db \<Rightarrow> bool" where
  "one_legacy d \<longleftrightarrow> distinct (map b_product_id (filter b_is_legacy (batches d)))"

text \<open>A product without a legacy batch has nothing left over from before batches.\<close>

definition null_settled :: "db \<Rightarrow> bool" where
  "null_settled d \<longleftrightarrow> (\<forall>pid. \<not> has_legacy d pid \<longrightarrow> null_bucket d pid = 0)"

definition ledger_ok :: "db \<Rightarrow> bool" where
  "ledger_ok d \<longleftrightarrow> ids_distinct d \<and> refs_ok d \<and> stock_cached d \<and> batches_cached d
     \<and> one_legacy d \<and> null_settled d"

lemmas ledger_ok_defs = ledger_ok_def ids_distinct_def stock_cached_def batches_cached_def
  refs_ok_def one_legacy_def null_settled_def

lemma ledger_ok_empty: "ledger_ok empty_db"
  by (simp add: ledger_ok_defs empty_db_def has_legacy_def null_bucket_def sum_simps)

section \<open>The caches agree\<close>

lemma has_legacy_iff: "has_legacy d pid \<longleftrightarrow> pid \<in> b_product_id ` set (filter b_is_legacy (batches d))"
  by (auto simp: has_legacy_def list_ex_iff)

lemma legacy_share:
  assumes "distinct (map b_product_id (filter b_is_legacy bs))"
  shows "sum_where (\<lambda>b. b_product_id b = pid) (\<lambda>b. if b_is_legacy b then N else 0) bs
       = (if list_ex (\<lambda>b. b_product_id b = pid \<and> b_is_legacy b) bs then N else 0)"
  using assms
proof (induction bs)
  case Nil
  then show ?case by (simp add: sum_simps)
next
  case (Cons b bs)
  have "b_is_legacy b \<Longrightarrow> \<not> list_ex (\<lambda>c. b_product_id c = b_product_id b \<and> b_is_legacy c) bs"
  proof
    assume l: "b_is_legacy b" and "list_ex (\<lambda>c. b_product_id c = b_product_id b \<and> b_is_legacy c) bs"
    then obtain c where "c \<in> set (filter b_is_legacy bs)" "b_product_id c = b_product_id b"
      by (auto simp: list_ex_iff)
    then have "b_product_id b \<in> set (map b_product_id (filter b_is_legacy bs))"
      by (metis image_eqI set_map)
    with l Cons.prems show False by simp
  qed
  with Cons show ?case by (auto simp: sum_simps)
qed

lemma sum_where_add: "sum_where p (\<lambda>r. u r + v r) rows = sum_where p u rows + sum_where p v rows"
  by (induction rows) (auto simp: sum_simps)

lemma op_batch_product:
  assumes "refs_ok d" and "distinct (map b_id (batches d))"
    and "o1 \<in> set (operations d)" and "b \<in> set (batches d)" and "o_batch_id o1 = Some (b_id b)"
  shows "o_product_id o1 = b_product_id b"
proof -
  from assms(1,3) have "op_refs_ok d o1" by (simp add: refs_ok_def)
  with assms(5) obtain c where c: "c \<in> set (batches d)" "b_id c = b_id b" "b_product_id c = o_product_id o1"
    by (auto simp: op_refs_ok_def)
  have "Some c = Some b"
    using tget_in[OF assms(2) c(1)] tget_in[OF assms(2,4)] unfolding c(2) by (rule trans[OF sym])
  with c(3) show ?thesis by simp
qed

lemma batched_split:
  assumes refs: "refs_ok d" and dist: "distinct (map b_id (batches d))"
  shows "sum_where (\<lambda>o1. o_product_id o1 = pid \<and> o_batch_id o1 \<noteq> None) o_qty_delta (operations d)
       = sum_where (\<lambda>b. b_product_id b = pid)
           (\<lambda>b. sum_where (\<lambda>o1. o_batch_id o1 = Some (b_id b)) o_qty_delta (operations d)) (batches d)"
proof -
  let ?bs = "filter (\<lambda>b. b_product_id b = pid) (batches d)"
  let ?ks = "map (\<lambda>b. Some (b_id b)) ?bs"
  have dks: "distinct ?ks"
    using distinct_map_filter[OF dist, of "\<lambda>b. b_product_id b = pid"]
    by (auto simp: distinct_map inj_on_def)
  have mem: "o_batch_id o1 \<in> set ?ks"
    if "o1 \<in> set (operations d)" "o_product_id o1 = pid \<and> o_batch_id o1 \<noteq> None" for o1
    using that refs by (force simp: refs_ok_def op_refs_ok_def split: option.splits)
  have "sum_where (\<lambda>o1. o_product_id o1 = pid \<and> o_batch_id o1 \<noteq> None) o_qty_delta (operations d)
      = sum_list (map (\<lambda>k. sum_where (\<lambda>o1. (o_product_id o1 = pid \<and> o_batch_id o1 \<noteq> None)
          \<and> o_batch_id o1 = k) o_qty_delta (operations d)) ?ks)"
    by (rule sum_where_group[OF dks mem])
  also have "\<dots> = sum_list (map (\<lambda>b. sum_where (\<lambda>o1. o_batch_id o1 = Some (b_id b)) o_qty_delta (operations d)) ?bs)"
  proof -
    have eq: "sum_where (\<lambda>o1. (o_product_id o1 = pid \<and> o_batch_id o1 \<noteq> None) \<and> o_batch_id o1 = Some (b_id b))
        o_qty_delta (operations d)
      = sum_where (\<lambda>o1. o_batch_id o1 = Some (b_id b)) o_qty_delta (operations d)"
      if "b \<in> set ?bs" for b
    proof (rule sum_where_cong)
      fix o1 assume "o1 \<in> set (operations d)"
      then have "o_batch_id o1 = Some (b_id b) \<Longrightarrow> o_product_id o1 = pid"
        using that op_batch_product[OF refs dist] by auto
      then show "((o_product_id o1 = pid \<and> o_batch_id o1 \<noteq> None) \<and> o_batch_id o1 = Some (b_id b))
        = (o_batch_id o1 = Some (b_id b))" by auto
    qed simp
    show ?thesis unfolding map_map comp_def by (rule arg_cong[OF map_cong[OF refl eq]])
  qed
  finally show ?thesis by (simp add: sum_where_def)
qed

text \<open>The ledger-side rollup needs no caches: stock is the batches' rows plus the NULL bucket.\<close>

lemma compute_stock_split:
  assumes "refs_ok d" and "distinct (map b_id (batches d))"
  shows "compute_stock d pid = null_bucket d pid + sum_where (\<lambda>b. b_product_id b = pid)
           (\<lambda>b. sum_where (\<lambda>o1. o_batch_id o1 = Some (b_id b)) o_qty_delta (operations d)) (batches d)"
  unfolding batched_split[OF assms, symmetric] compute_stock_def null_bucket_def
  by (rule sum_where_split)

lemma batch_stock_rollup:
  assumes "refs_ok d" and "distinct (map b_id (batches d))" and "one_legacy d"
  shows "compute_stock d pid
       = sum_where (\<lambda>b. b_product_id b = pid) (compute_batch_stock d) (batches d)
         + (if has_legacy d pid then 0 else null_bucket d pid)"
proof -
  have "sum_where (\<lambda>b. b_product_id b = pid) (compute_batch_stock d) (batches d)
      = sum_where (\<lambda>b. b_product_id b = pid)
          (\<lambda>b. sum_where (\<lambda>o1. o_batch_id o1 = Some (b_id b)) o_qty_delta (operations d)) (batches d)
        + sum_where (\<lambda>b. b_product_id b = pid)
            (\<lambda>b. if b_is_legacy b then null_bucket d pid else 0) (batches d)"
    unfolding sum_where_add[symmetric]
    by (rule sum_where_cong) (auto simp: compute_batch_stock_def)
  then show ?thesis
    using compute_stock_split[OF assms(1,2), of pid] legacy_share[OF assms(3)[unfolded one_legacy_def]]
    by (simp add: has_legacy_def)
qed

lemma ledger_ok_rollup: "ledger_ok d \<Longrightarrow> rollup_ok d"
  using batch_stock_rollup[of d]
  by (auto simp: ledger_ok_defs rollup_ok_def rollup_def list_all_iff intro!: sum_where_cong)

lemma repair_caches_id: "ledger_ok d \<Longrightarrow> repair_caches d = d"
proof -
  assume ok: "ledger_ok d"
  then have "map (\<lambda>p. p\<lparr>p_quantity := compute_stock d (p_id p)\<rparr>) (products d) = products d"
    and "map (\<lambda>b. b\<lparr>b_quantity := compute_batch_stock d b\<rparr>) (batches d) = batches d"
    by (auto simp: ledger_ok_defs intro!: map_idI)
  then show ?thesis by (simp add: repair_caches_def)
qed

end
