(* ===== verification/Finance.thy ===== *)
theory Finance
  imports Ledger
begin

text \<open>
  \<open>src/app/services/finance.py\<close>: the single write path for cash. \<open>record_cash_movement\<close> appends one
  signed row to the cash ledger; a balance is always the live sum of one currency's rows, never
  a stored value. \<open>record_manual_movement\<close> is the operator's form: it picks the sign from the
  category's bucket and warns before a withdrawal that would make the balance negative.
\<close>

section \<open>The single write path for cash\<close>

definition cash_next_seq :: "string \<Rightarrow> cash_movement list \<Rightarrow> int" where
  "cash_next_seq dev ms = (case max_seq m_device_id m_seq dev ms of None \<Rightarrow> 0 | Some k \<Rightarrow> k) + 1"

interpretation cash_seq: sequenced "m_device_id :: cash_movement \<Rightarrow> string" m_seq cash_next_seq
proof
  fix r :: cash_movement and rows assume "r \<in> set rows"
  then show "m_seq r < cash_next_seq (m_device_id r) rows"
    using max_seq_ge[of r rows m_device_id "m_device_id r" m_seq] by (auto simp: cash_next_seq_def)
qed

record cash_args =
  c_category :: string
  c_amount_cents :: int
  c_currency :: string
  c_sale_id :: "string option"
  c_note :: "string option"
  c_business_date :: "string option"

definition make_cash :: "env \<Rightarrow> cash_args \<Rightarrow> world \<Rightarrow> cash_movement \<times> world" where
  "make_cash e a w =
     (let (author, by) = author_fields e;
          (i, w1) = new_id e w;
          s = cash_next_seq (device_id e) (cash_movements (cur w1));
          (at, w2) = utcnow_iso e w1;
          (bd, w3) = or_today e (c_business_date a) w2
      in (\<lparr>m_id = i, m_category = c_category a, m_amount_cents = c_amount_cents a,
           m_currency = c_currency a, m_note = c_note a, m_sale_id = c_sale_id a,
           m_reverses_movement_id = None, m_author_id = author, m_device_id = device_id e,
           m_seq = s, m_created_at = at, m_business_date = Some bd, m_created_by = by,
           m_synced_at = None\<rparr>, w3))"

definition record_cash_movement ::
  "env \<Rightarrow> cash_args \<Rightarrow> bool \<Rightarrow> world \<Rightarrow> (exn + cash_movement) \<times> world" where
  "record_cash_movement e a do_commit w =
     (if c_category a \<notin> set CASH_CATEGORIES then (Inl ValueError, w)
      else if \<not> known_currency (c_currency a) then (Inl ValueError, w)
      else case flush w of Some x \<Rightarrow> (Inl x, w)
      | None \<Rightarrow>
        (let (m, w1) = make_cash e a w; w2 = add_cash m w1
         in if do_commit then (case commit w2 of
                 (Some x, w3) \<Rightarrow> (Inl x, w3) | (None, w3) \<Rightarrow> (Inr m, w3))
            else (Inr m, w2)))"

definition compute_balance :: "db \<Rightarrow> string \<Rightarrow> int" where
  "compute_balance d currency =
     sum_where (\<lambda>m. m_currency m = currency) m_amount_cents (cash_movements d)"

section \<open>Manual entries\<close>

definition NOTE_REQUIRED_CATEGORIES :: "string list" where
  "NOTE_REQUIRED_CATEGORIES = [''withdrawal_other'', ''deposit_correction'']"

text \<open>\<open>str.upper\<close> on ASCII letters; no other letter maps into a known currency code.\<close>

definition upper :: "string \<Rightarrow> string" where
  "upper s = map (\<lambda>c. if 97 \<le> ord_of c \<and> ord_of c \<le> 122 then char_of (ord_of c - 32) else c) s"

definition parse_amount :: "string \<Rightarrow> errors \<Rightarrow> int \<times> errors" where
  "parse_amount amount_raw es =
     (case to_cents amount_raw of
        Inl x \<Rightarrow> (0, dict_set ''amount'' AmountMsg es)
      | Inr n \<Rightarrow> if n \<le> 0 then (n, dict_set ''amount'' AmountMsg es) else (n, es))"

definition is_withdrawal :: "string \<Rightarrow> bool" where
  "is_withdrawal category \<longleftrightarrow> category \<in> set (cash_bucket ''withdrawal'')"

definition is_deposit :: "string \<Rightarrow> bool" where
  "is_deposit category \<longleftrightarrow> category \<in> set (cash_bucket ''deposit'')"

text \<open>The warning carries the balance and the amount of the withdrawal.\<close>

definition record_manual_movement ::
  "env \<Rightarrow> string \<Rightarrow> string \<Rightarrow> string \<Rightarrow> string \<Rightarrow> string \<Rightarrow> string \<Rightarrow> world
     \<Rightarrow> (cash_movement, int \<times> int) outcome \<times> world" where
  "record_manual_movement e category amount_raw note currency confirm op_date w =
     (let es1 = (if \<not> (is_withdrawal category \<or> is_deposit category)
                 then dict_set ''category'' CategoryMsg [] else []);
          c0 = upper (strip currency);
          code = (if c0 = [] then DEFAULT_CURRENCY else c0);
          es2 = (if c0 \<noteq> [] \<and> \<not> known_currency c0 then dict_set ''currency'' CurrencyMsg es1 else es1);
          (parsed, es3) = parse_amount amount_raw es2;
          (bd, es, w1) = parse_op_date e op_date es3 ''op_date'' w
      in if es \<noteq> [] then (Errors es, w1)
         else (let amount = (if is_withdrawal category then - parsed else parsed) in
           if category \<in> set NOTE_REQUIRED_CATEGORIES \<and> strip note = []
           then (Errors [(''note'', NoteRequired)], w1)
           else if is_withdrawal category \<and> confirm \<noteq> ''1'' \<and> compute_balance (cur w1) code + amount < 0
           then (Warn (compute_balance (cur w1) code, - amount), w1)
           else (case record_cash_movement e
                   \<lparr>c_category = category, c_amount_cents = amount, c_currency = code,
                    c_sale_id = None, c_note = or_none (strip note), c_business_date = bd\<rparr> True w1 of
                   (Inl x, w2) \<Rightarrow> (Errors [(''form'', SaveFailed)], rollback w2)
                 | (Inr m, w2) \<Rightarrow> (Ok m, w2))))"

section \<open>What the cash write path does\<close>

lemma make_cash_frame:
  assumes "make_cash e a w = (m, w')"
  shows "cur w' = cur w" "saved w' = saved w" "bad w' = bad w"
    and "m_category m = c_category a" "m_amount_cents m = c_amount_cents a"
    "m_currency m = c_currency a" "m_sale_id m = c_sale_id a" "m_device_id m = device_id e"
    "m_seq m = cash_next_seq (device_id e) (cash_movements (cur w))"
    "m_business_date m = Some (fst (or_today e (c_business_date a) (snd (utcnow_iso e (snd (new_id e w))))))"
  using assms
  by (auto simp: make_cash_def new_id_def utcnow_iso_def or_today_def local_today_iso_def Let_def
      split: prod.splits if_splits)

lemma record_cash_cases:
  obtains (refused) x where "record_cash_movement e a c w = (Inl x, w)"
      "c_category a \<notin> set CASH_CATEGORIES \<or> \<not> known_currency (c_currency a) \<or> bad w"
  | (recorded) m w1 where "make_cash e a w = (m, w1)" "c_category a \<in> set CASH_CATEGORIES"
      "known_currency (c_currency a)" "\<not> bad w"
      "record_cash_movement e a c w =
         (if \<not> c then (Inr m, add_cash m w1)
          else if bad (add_cash m w1) then (Inl IntegrityError, add_cash m w1)
          else (Inr m, snd (commit (add_cash m w1))))"
proof (cases "c_category a \<in> set CASH_CATEGORIES \<and> known_currency (c_currency a) \<and> \<not> bad w")
  case False
  then show thesis
    by (intro refused[of "if c_category a \<in> set CASH_CATEGORIES \<and> known_currency (c_currency a)
          then IntegrityError else ValueError"]) (auto simp: record_cash_movement_def flush_def)
next
  case True
  then show thesis
    by (cases "make_cash e a w", intro recorded)
       (auto simp: record_cash_movement_def flush_def commit_def)
qed

lemma balance_add_cash [simp]:
  "compute_balance (add_cash_row m d) c = compute_balance d c + (if m_currency m = c then m_amount_cents m else 0)"
  by (simp add: compute_balance_def sum_simps)

end
