(* ===== verification/WritePath.thy ===== *)
theory WritePath
  imports Finance "HOL-Library.Sublist"
begin

text \<open>
  The contract of the two single write paths, stated once as a locale: a database property that
  survives every row the services can stage (one admitted operation, a new empty batch, a new
  product card, a card price, a sale header, an admitted cash row) is kept by
  \<open>record_operation\<close> and \<open>record_cash_movement\<close>, whether they commit, stage or refuse, and so
  by every handler built on them; the handlers' own theories extend the locale with that fact.
  The interpretations instantiate the contract with the program's invariants: the caches
  (\<open>ledger_ok\<close>), append-only history (\<open>extends\<close>), per-device numbering (\<open>numbered\<close>), unique
  active codes (\<open>codes_ok\<close>), known cash rows (\<open>cash_ok\<close>) and the operator's warehouses
  (\<open>in_scope\<close>). Numbering itself is a second, smaller interface that both ledgers provide.
\<close>

section \<open>What a sale still owes\<close>

text \<open>Units of a product sold and taken back under one sale header (\<open>returns.py\<close>).\<close>

definition sold_qty :: "db \<Rightarrow> string \<Rightarrow> string \<Rightarrow> int" where
  "sold_qty d sid pid = - sum_where (\<lambda>o1. o_sale_id o1 = Some sid \<and> o_product_id o1 = pid
     \<and> o_type o1 = ''sale'') o_qty_delta (operations d)"

definition returned_qty :: "db \<Rightarrow> string \<Rightarrow> string \<Rightarrow> int" where
  "returned_qty d sid pid = sum_where (\<lambda>o1. o_sale_id o1 = Some sid \<and> o_product_id o1 = pid
     \<and> o_type o1 = ''return'') o_qty_delta (operations d)"

definition returnable_qty :: "db \<Rightarrow> string \<Rightarrow> string \<Rightarrow> int" where
  "returnable_qty d sid pid = sold_qty d sid pid - returned_qty d sid pid"

section \<open>What the write paths admit\<close>

text \<open>What the handlers guarantee of the arguments they pass to \<open>record_operation\<close>: an audit row moves no
  stock, a sale takes units out, a return takes back no more than is left to return.\<close>

definition args_admitted :: "db \<Rightarrow> op_args \<Rightarrow> bool" where
  "args_admitted d a \<longleftrightarrow> (a_type a \<notin> set STOCK_AFFECTING_TYPES \<longrightarrow> a_qty_delta a = 0)
     \<and> (a_type a = ''sale'' \<longrightarrow> a_qty_delta a < 0)
     \<and> (a_type a = ''return'' \<longrightarrow> (\<exists>sid. a_sale_id a = Some sid
          \<and> a_qty_delta a \<le> returnable_qty d sid (a_product_id a)))"

definition op_admitted :: "env \<Rightarrow> db \<Rightarrow> operation \<Rightarrow> bool" where
  "op_admitted e d o1 \<longleftrightarrow>
     o_type o1 \<in> set OPERATION_TYPES
     \<and> (\<exists>p. get_product d (o_product_id o1) = Some p \<and> p_deleted_at p = None)
     \<and> (if o_type o1 \<in> set STOCK_AFFECTING_TYPES
        then \<exists>b. o_batch_id o1 = Some (b_id b) \<and> get_batch d (b_id b) = Some b
               \<and> b_product_id b = o_product_id o1
               \<and> (warehouse_allowed e (b_warehouse_id b) \<or> o_type o1 = ''transfer'' \<and> 0 < o_qty_delta o1)
        else o_batch_id o1 = None \<and> o_qty_delta o1 = 0)
     \<and> (o_type o1 = ''sale'' \<longrightarrow> o_qty_delta o1 < 0)
     \<and> (o_type o1 = ''return'' \<longrightarrow> (\<exists>sid. o_sale_id o1 = Some sid
          \<and> o_qty_delta o1 \<le> returnable_qty d sid (o_product_id o1)))
     \<and> \<not> thas o_id (o_id o1) (operations d)
     \<and> o_device_id o1 = device_id e \<and> o_seq o1 = next_seq (device_id e) (operations d)
     \<and> o_business_date o1 \<noteq> None \<and> (o_author_id o1, o_created_by o1) = author_fields e"

definition batch_admitted :: "db \<Rightarrow> batch \<Rightarrow> bool" where
  "batch_admitted d b \<longleftrightarrow> \<not> thas b_id (b_id b) (batches d) \<and> b_quantity b = 0
     \<and> (\<not> b_is_legacy b \<or> \<not> has_legacy d (b_product_id b))"

definition product_admitted :: "db \<Rightarrow> product \<Rightarrow> bool" where
  "product_admitted d p \<longleftrightarrow> \<not> thas p_id (p_id p) (products d) \<and> p_quantity p = 0
     \<and> (p_deleted_at p = None \<longrightarrow> (\<forall>c. p_code p = Some c \<longrightarrow> c \<notin> set (active_codes (products d))))"

text \<open>An UPDATE of a card: it keeps the key and the cached quantity, and frees or keeps codes.\<close>

definition card_admitted :: "db \<Rightarrow> string \<Rightarrow> (product \<Rightarrow> product) \<Rightarrow> bool" where
  "card_admitted d k f \<longleftrightarrow> (\<forall>p. p_id (f p) = p_id p \<and> p_quantity (f p) = p_quantity p)
     \<and> (distinct (active_codes (products d)) \<longrightarrow> distinct (active_codes (tupd p_id k f (products d))))"

text \<open>An UPDATE of a batch's labels and prices: what it is a batch of, where, and how much stay.\<close>

definition label_edit :: "(batch \<Rightarrow> batch) \<Rightarrow> bool" where
  "label_edit f \<longleftrightarrow> (\<forall>b. b_id (f b) = b_id b \<and> b_product_id (f b) = b_product_id b
     \<and> b_warehouse_id (f b) = b_warehouse_id b \<and> b_quantity (f b) = b_quantity b
     \<and> b_is_legacy (f b) = b_is_legacy b)"

definition cash_admitted :: "env \<Rightarrow> db \<Rightarrow> cash_movement \<Rightarrow> bool" where
  "cash_admitted e d m \<longleftrightarrow> m_category m \<in> set CASH_CATEGORIES \<and> known_currency (m_currency m)
     \<and> \<not> thas m_id (m_id m) (cash_movements d)
     \<and> m_device_id m = device_id e \<and> m_seq m = cash_next_seq (device_id e) (cash_movements d)
     \<and> m_business_date m \<noteq> None"

lemma active_codes_cong:
  "(\<And>p. p_code (f p) = p_code p \<and> p_deleted_at (f p) = p_deleted_at p)
     \<Longrightarrow> active_codes (tupd p_id k f ps) = active_codes ps"
  by (induction ps) (auto simp: active_codes_def tupd_def)

lemma active_codes_price: "active_codes (tupd p_id k (set_price f v) ps) = active_codes ps"
  by (rule active_codes_cong) simp

lemma active_codes_quantity:
  "active_codes (tupd p_id k (\<lambda>p. p\<lparr>p_quantity := h p\<rparr>) ps) = active_codes ps"
  by (rule active_codes_cong) simp

lemma op_admitted_batchless: "op_admitted e d o1 \<Longrightarrow> o_batch_id o1 = None \<Longrightarrow> o_qty_delta o1 = 0"
  by (auto simp: op_admitted_def split: if_splits)

lemma op_admitted_refs: "op_admitted e d o1 \<Longrightarrow> op_refs_ok d o1"
proof -
  assume "op_admitted e d o1"
  moreover from this have "o_product_id o1 \<in> p_id ` set (products d)"
    by (auto simp: op_admitted_def dest: tget_mem_key)
  ultimately show ?thesis
    by (auto simp: op_admitted_def op_refs_ok_def dest!: tget_SomeD split: if_splits)
qed

section \<open>The two ways record_operation can go\<close>

lemma make_op_frame:
  assumes "make_op e a w = (o1, w')"
  shows "cur w' = cur w" "saved w' = saved w" "bad w' = bad w"
    and "o_type o1 = a_type a" "o_product_id o1 = a_product_id a" "o_qty_delta o1 = a_qty_delta a"
    "o_unit_cost_cents o1 = a_unit_cost_cents a" "o_unit_price_cents o1 = a_unit_price_cents a"
    "o_payload o1 = a_payload a" "o_sale_id o1 = a_sale_id a" "o_batch_id o1 = a_batch_id a"
    "o_device_id o1 = device_id e" "o_seq o1 = next_seq (device_id e) (operations (cur w))"
    "(o_author_id o1, o_created_by o1) = author_fields e"
    "o_business_date o1 = Some (fst (or_today e (a_business_date a) (snd (utcnow_iso e (snd (new_id e w))))))"
  using assms
  by (auto simp: make_op_def new_id_def utcnow_iso_def or_today_def local_today_iso_def Let_def
      split: prod.splits if_splits)

lemma make_op_date:
  "make_op e a w = (o1, w') \<Longrightarrow> a_business_date a = Some s \<Longrightarrow> s \<noteq> [] \<Longrightarrow> o_business_date o1 = Some s"
  by (auto dest!: make_op_frame(15) simp: or_today_given)

lemma stage_op_frame [simp]:
  "saved (stage_op o1 w) = saved w" "cur (stage_op o1 w) = append_op o1 (cur w)"
  "bad (stage_op o1 w) \<longleftrightarrow> bad w \<or> thas o_id (o_id o1) (operations (cur w))"
  by (simp_all add: stage_op_def)

lemma append_op_frame [simp]:
  "operations (append_op o1 d) = operations d @ [o1]" "warehouses (append_op o1 d) = warehouses d"
  "sales (append_op o1 d) = sales d" "cash_movements (append_op o1 d) = cash_movements d"
  by (simp_all add: append_op_def)

lemma append_op_caches:
  "products (append_op o1 d) = tupd p_id (o_product_id o1)
     (\<lambda>p. p\<lparr>p_quantity := p_quantity p + o_qty_delta o1\<rparr>) (products d)"
  "batches (append_op o1 d) = (case o_batch_id o1 of None \<Rightarrow> batches d
     | Some k \<Rightarrow> tupd b_id k (\<lambda>b. b\<lparr>b_quantity := b_quantity b + o_qty_delta o1\<rparr>) (batches d))"
  by (simp_all add: append_op_def)

lemma record_operation_cases:
  obtains (refused) x where "record_operation e a c w = (Inl x, w)"
  | (recorded) o1 w1 b where "make_op e a w = (o1, w1)" "\<not> bad w"
      "a_type a \<in> set OPERATION_TYPES"
      "\<exists>p. get_product (cur w) (a_product_id a) = Some p \<and> p_deleted_at p = None"
      "check_batch e a (cur w) = Inr b"
      "record_operation e a c w =
         (if \<not> c then (Inr o1, stage_op o1 w1)
          else if bad (stage_op o1 w1) then (Inl IntegrityError, stage_op o1 w1)
          else (Inr o1, snd (commit (stage_op o1 w1))))"
proof -
  obtain o1 w1 where mk: "make_op e a w = (o1, w1)" by (cases "make_op e a w")
  show thesis
  proof (cases "a_type a \<in> set OPERATION_TYPES \<and> \<not> bad w
      \<and> (\<exists>p. get_product (cur w) (a_product_id a) = Some p \<and> p_deleted_at p = None)
      \<and> (\<exists>b. check_batch e a (cur w) = Inr b)")
    case True
    then show thesis using mk
      by (auto intro!: recorded simp: record_operation_def flush_def commit_def)
  next
    case False
    then have "\<exists>x. record_operation e a c w = (Inl x, w)"
      by (auto simp: record_operation_def flush_def split: option.splits sum.splits)
    then show thesis using refused by blast
  qed
qed

lemma check_batch_Inr:
  assumes "check_batch e a d = Inr r"
  shows "if a_type a \<in> set STOCK_AFFECTING_TYPES
      then \<exists>b. r = Some b \<and> a_batch_id a = Some (b_id b) \<and> get_batch d (b_id b) = Some b
             \<and> b_product_id b = a_product_id a
             \<and> (warehouse_allowed e (b_warehouse_id b) \<or> a_type a = ''transfer'' \<and> 0 < a_qty_delta a)
      else r = None \<and> a_batch_id a = None"
proof (cases "a_type a \<in> set STOCK_AFFECTING_TYPES")
  case True
  with assms obtain k b where k: "a_batch_id a = Some k" "get_batch d k = Some b"
    by (auto simp: check_batch_def split: option.splits)
  moreover have "k = b_id b" using k(2) by (rule tget_key)
  ultimately have g: "a_batch_id a = Some (b_id b)" "get_batch d (b_id b) = Some b" by simp_all
  have "r = Some b \<and> b_product_id b = a_product_id a
      \<and> (warehouse_allowed e (b_warehouse_id b) \<or> a_type a = ''transfer'' \<and> 0 < a_qty_delta a)"
    using assms True g by (simp add: check_batch_def split: if_splits)
  with g True show ?thesis by simp
next
  case False
  with assms show ?thesis by (auto simp: check_batch_def split: if_splits)
qed

text \<open>The rows \<open>record_operation\<close> stages are admitted when its arguments are.\<close>

lemma recorded_admitted:
  assumes "make_op e a w = (o1, w1)" "a_type a \<in> set OPERATION_TYPES"
    "\<exists>p. get_product (cur w) (a_product_id a) = Some p \<and> p_deleted_at p = None"
    "check_batch e a (cur w) = Inr b" "\<not> thas o_id (o_id o1) (operations (cur w))"
    and "args_admitted (cur w) a"
  shows "op_admitted e (cur w) o1"
  using assms(2-6) check_batch_Inr[OF assms(4)] make_op_frame[OF assms(1)]
  by (auto simp: op_admitted_def args_admitted_def)

section \<open>The contract\<close>

locale write_path =
  fixes e :: env and P :: "db \<Rightarrow> bool"
  assumes op_law: "P d \<Longrightarrow> op_admitted e d o1 \<Longrightarrow> P (append_op o1 d)"
    and batch_law: "P d \<Longrightarrow> batch_admitted d b \<Longrightarrow> P (add_batch_row b d)"
    and product_law: "P d \<Longrightarrow> product_admitted d p \<Longrightarrow> P (add_product_row p d)"
    and card_law: "P d \<Longrightarrow> card_admitted d k f \<Longrightarrow> P (upd_product k f d)"
    and label_law: "P d \<Longrightarrow> label_edit g \<Longrightarrow> P (upd_batch k g d)"
    and warehouse_law: "P d \<Longrightarrow> P (d\<lparr>warehouses := whs\<rparr>)"
    and sale_law: "P d \<Longrightarrow> P (add_sale_row s d)"
    and cash_law: "P d \<Longrightarrow> cash_admitted e d m \<Longrightarrow> P (add_cash_row m d)"
begin

lemma keeps_record_operation:
  assumes "keeps P w" and "args_admitted (cur w) a"
  shows "keeps P (snd (record_operation e a c w))"
proof (cases rule: record_operation_cases[of e a c w])
  case (refused x)
  with assms(1) show ?thesis by simp
next
  case (recorded o1 w1 b)
  note frame = make_op_frame[OF recorded(1)]
  have st: "keeps P (stage_op o1 w1)"
    unfolding stage_op_def
  proof (rule keeps_stage)
    show "keeps P w1" using assms(1) frame by (simp add: keeps_def)
    assume "\<not> thas o_id (o_id o1) (operations (cur w1))" "P (cur w1)"
    then show "P (append_op o1 (cur w1))"
      using recorded_admitted[OF recorded(1,3,4,5)] assms(2) frame by (auto intro: op_law)
  qed
  then show ?thesis using recorded(6) keeps_commit[OF st] by auto
qed

lemma keeps_record_cash:
  assumes "keeps P w"
  shows "keeps P (snd (record_cash_movement e a c w))"
proof (cases rule: record_cash_cases[of e a c w])
  case (refused x)
  with assms show ?thesis by simp
next
  case (recorded m w1)
  note frame = make_cash_frame[OF recorded(1)]
  have st: "keeps P (add_cash m w1)"
    unfolding add_cash_def
  proof (rule keeps_stage)
    show "keeps P w1" using assms frame by (simp add: keeps_def)
    assume "\<not> thas m_id (m_id m) (cash_movements (cur w1))" "P (cur w1)"
    then show "P (add_cash_row m (cur w1))"
      using frame recorded by (auto intro!: cash_law simp: cash_admitted_def)
  qed
  then show ?thesis using recorded(5) keeps_commit[OF st] by auto
qed

lemma keeps_add_batch:
  "keeps P w \<Longrightarrow> b_quantity b = 0 \<Longrightarrow> \<not> b_is_legacy b \<or> \<not> has_legacy (cur w) (b_product_id b)
     \<Longrightarrow> keeps P (add_batch b w)"
  unfolding add_batch_def by (rule keeps_stage) (auto intro!: batch_law simp: batch_admitted_def)

lemma keeps_add_product:
  "keeps P w \<Longrightarrow> p_quantity p = 0 \<Longrightarrow> keeps P (add_product p w)"
  unfolding add_product_def
  by (rule keeps_stage)
     (auto intro!: product_law simp: product_admitted_def active_codes_iff)

lemma keeps_edit_product:
  "keeps P w \<Longrightarrow> (\<And>p. p_id (f p) = p_id p \<and> p_quantity (f p) = p_quantity p)
     \<Longrightarrow> keeps P (edit_product k f w)"
  unfolding edit_product_def by (rule keeps_stage) (auto intro: card_law simp: card_admitted_def)

lemma keeps_price: "keeps P w \<Longrightarrow> keeps P (stage (upd_product k (set_price f v)) False w)"
  by (rule keeps_stage) (auto intro: card_law simp: card_admitted_def active_codes_price)

lemma keeps_label: "keeps P w \<Longrightarrow> label_edit g \<Longrightarrow> keeps P (stage (upd_batch k g) False w)"
  by (rule keeps_stage) (auto intro: label_law)

lemma keeps_add_sale: "keeps P w \<Longrightarrow> keeps P (add_sale s w)"
  unfolding add_sale_def by (rule keeps_stage) (auto intro: sale_law)

text \<open>The steps a handler is composed of, as introduction rules on \<open>keeps P (snd _)\<close>.\<close>

lemmas keeps_steps = keeps_rollback keeps_commit keeps_record_operation keeps_record_cash
  keeps_add_batch keeps_add_product keeps_add_sale keeps_edit_product keeps_label

lemma keeps_parse_op_date: "keeps P w \<Longrightarrow> keeps P (snd (snd (parse_op_date e raw es key w)))"
  by (cases "parse_op_date e raw es key w") (auto dest: parse_op_date_frame simp: keeps_def)

lemma keeps_manual_movement:
  assumes "keeps P w"
  shows "keeps P (snd (record_manual_movement e cat amt note ccy confirm op_date w))"
proof -
  obtain parsed es3 where pa: "parse_amount amt
      (if upper (strip ccy) \<noteq> [] \<and> \<not> known_currency (upper (strip ccy)) then dict_set ''currency'' CurrencyMsg
        (if \<not> (is_withdrawal cat \<or> is_deposit cat) then dict_set ''category'' CategoryMsg [] else [])
       else (if \<not> (is_withdrawal cat \<or> is_deposit cat) then dict_set ''category'' CategoryMsg [] else []))
      = (parsed, es3)" by fastforce
  obtain bd es w1 where pd: "parse_op_date e op_date es3 ''op_date'' w = (bd, es, w1)"
    by (metis prod_cases3)
  have k: "keeps P w1" using assms parse_op_date_frame[OF pd] by (simp add: keeps_def)
  show ?thesis
    unfolding record_manual_movement_def Let_def pa prod.case pd
    using k by (auto simp: split_beta split: sum.splits intro!: keeps_steps)
qed

end

end
