(* ===== verification/Invariants.thy ===== *)
theory Invariants
  imports WritePath
begin

text \<open>
  The database properties that the write paths provide: each is an interpretation of the
  contract \<open>write_path\<close>, so every lemma \<open>keeps_<handler>\<close> that a component adds to the locale holds
  for all of them.

  \<open>ledger_ok\<close>: the cached quantities equal the sums they cache. \<open>extends d0\<close>: the two ledgers only
  grow. \<open>numbered\<close>: a device never reuses a sequence number. \<open>codes_ok\<close>: active cards have
  distinct codes. \<open>cash_ok\<close>: a cash row has a known category and currency and a business date.
  \<open>in_scope e n\<close>: the operations after the first \<open>n\<close> touch only the operator's warehouses
  (a transfer may credit a foreign one) and carry the session's author and device.
\<close>

section \<open>The caches\<close>

lemma compute_stock_append [sum_simps]:
  "compute_stock (append_op o1 d) pid
     = compute_stock d pid + (if o_product_id o1 = pid then o_qty_delta o1 else 0)"
  by (simp add: compute_stock_def sum_simps)

lemma null_bucket_append [sum_simps]:
  "null_bucket (append_op o1 d) pid
     = null_bucket d pid + (if o_product_id o1 = pid \<and> o_batch_id o1 = None then o_qty_delta o1 else 0)"
  by (simp add: null_bucket_def sum_simps)

text \<open>The increments as maps over the two tables.\<close>

definition bump_product :: "operation \<Rightarrow> product \<Rightarrow> product" where
  "bump_product o1 p = p\<lparr>p_quantity := p_quantity p + (if o_product_id o1 = p_id p then o_qty_delta o1 else 0)\<rparr>"

definition bump_batch :: "operation \<Rightarrow> batch \<Rightarrow> batch" where
  "bump_batch o1 b = b\<lparr>b_quantity := b_quantity b + (if o_batch_id o1 = Some (b_id b) then o_qty_delta o1 else 0)\<rparr>"

lemma products_append: "products (append_op o1 d) = map (bump_product o1) (products d)"
  by (auto simp: append_op_caches bump_product_def tupd_def)

lemma batches_append: "batches (append_op o1 d) = map (bump_batch o1) (batches d)"
  by (cases "o_batch_id o1") (auto simp: append_op_caches bump_batch_def tupd_def intro!: map_idI[symmetric])

lemma bump_frame [simp]:
  "p_id (bump_product o1 p) = p_id p" "p_code (bump_product o1 p) = p_code p"
  "p_deleted_at (bump_product o1 p) = p_deleted_at p"
  "b_id (bump_batch o1 b) = b_id b" "b_product_id (bump_batch o1 b) = b_product_id b"
  "b_warehouse_id (bump_batch o1 b) = b_warehouse_id b" "b_is_legacy (bump_batch o1 b) = b_is_legacy b"
  "b_price_cents (bump_batch o1 b) = b_price_cents b" "b_cost_cents (bump_batch o1 b) = b_cost_cents b"
  "p_quantity (bump_product o1 p) = p_quantity p + (if o_product_id o1 = p_id p then o_qty_delta o1 else 0)"
  "b_quantity (bump_batch o1 b) = b_quantity b + (if o_batch_id o1 = Some (b_id b) then o_qty_delta o1 else 0)"
  by (simp_all add: bump_product_def bump_batch_def)

lemma append_op_operations: "operations (append_op o1 d) = operations d @ [o1]"
  by simp

lemmas append_tables = append_op_operations products_append batches_append

lemma has_legacy_append [simp]: "has_legacy (append_op o1 d) pid = has_legacy d pid"
  by (simp add: has_legacy_def batches_append list_ex_iff)

lemma op_refs_append: "op_refs_ok (append_op o1 d) o2 = op_refs_ok d o2"
  by (simp add: op_refs_ok_def append_tables image_image split: option.split)

lemma compute_batch_stock_append:
  assumes "o_batch_id o1 = None \<Longrightarrow> o_qty_delta o1 = 0"
  shows "compute_batch_stock (append_op o1 d) b
       = compute_batch_stock d b + (if o_batch_id o1 = Some (b_id b) then o_qty_delta o1 else 0)"
  using assms by (auto simp: compute_batch_stock_def sum_simps)

lemma compute_batch_stock_cong:
  "b_id c = b_id b \<Longrightarrow> b_product_id c = b_product_id b \<Longrightarrow> b_is_legacy c = b_is_legacy b
     \<Longrightarrow> compute_batch_stock d c = compute_batch_stock d b"
  by (simp add: compute_batch_stock_def)

lemma one_legacy_map:
  assumes "\<And>b. b_product_id (g b) = b_product_id b \<and> b_is_legacy (g b) = b_is_legacy b"
  shows "map b_product_id (filter b_is_legacy (map g bs))
       = map b_product_id (filter b_is_legacy bs)"
  using assms by (induction bs) auto

lemma ids_append:
  "ids_distinct d \<Longrightarrow> \<not> thas o_id (o_id o1) (operations d) \<Longrightarrow> ids_distinct (append_op o1 d)"
  by (simp add: ids_distinct_def thas_iff append_tables comp_def)

lemma ledger_ok_append:
  assumes ok: "ledger_ok d" and adm: "op_admitted e d o1"
  shows "ledger_ok (append_op o1 d)"
proof -
  note nb = op_admitted_batchless[OF adm]
  have "ids_distinct (append_op o1 d)"
    using ok adm by (auto intro!: ids_append simp: ledger_ok_def op_admitted_def)
  moreover have "refs_ok (append_op o1 d)"
    using ok op_admitted_refs[OF adm] by (simp add: ledger_ok_def refs_ok_def op_refs_append)
  moreover have "stock_cached (append_op o1 d)"
    using ok by (simp add: ledger_ok_def stock_cached_def products_append sum_simps)
  moreover have "batches_cached (append_op o1 d)"
    using ok by (simp add: ledger_ok_def batches_cached_def batches_append compute_batch_stock_append[OF nb]
        compute_batch_stock_cong[of "bump_batch o1 b" b for b])
  moreover have "null_settled (append_op o1 d)"
    using ok nb by (auto simp: ledger_ok_def null_settled_def sum_simps)
  moreover have "one_legacy (append_op o1 d)"
    using ok by (simp add: ledger_ok_def one_legacy_def batches_append one_legacy_map)
  ultimately show ?thesis by (simp add: ledger_ok_def)
qed

lemma sum_batch_fresh:
  assumes "refs_ok d" and "k \<notin> b_id ` set (batches d)"
  shows "sum_where (\<lambda>o1. o_batch_id o1 = Some k) o_qty_delta (operations d) = 0"
proof (rule sum_where_zero)
  fix o1 assume o: "o1 \<in> set (operations d)" "o_batch_id o1 = Some k"
  then have "op_refs_ok d o1" using assms(1) by (simp add: refs_ok_def)
  with o(2) assms(2) show "o_qty_delta o1 = 0" by (auto simp: op_refs_ok_def)
qed

lemma fresh_batch_stock:
  assumes ok: "ledger_ok d" and adm: "batch_admitted d b"
  shows "compute_batch_stock d b = 0"
  using assms sum_batch_fresh[of d "b_id b"]
  by (auto simp: ledger_ok_def batch_admitted_def thas_iff compute_batch_stock_def null_settled_def)

lemma compute_frame [simp]:
  "compute_stock (add_batch_row b d) pid = compute_stock d pid"
  "null_bucket (add_batch_row b d) pid = null_bucket d pid"
  "compute_batch_stock (add_batch_row b d) c = compute_batch_stock d c"
  "compute_stock (add_product_row p d) pid = compute_stock d pid"
  "compute_batch_stock (add_product_row p d) c = compute_batch_stock d c"
  "null_bucket (add_product_row p d) pid = null_bucket d pid"
  "has_legacy (add_product_row p d) pid = has_legacy d pid"
  by (simp_all add: compute_stock_def null_bucket_def compute_batch_stock_def has_legacy_def)

lemma has_legacy_add_batch [simp]:
  "has_legacy (add_batch_row b d) pid \<longleftrightarrow> has_legacy d pid \<or> b_product_id b = pid \<and> b_is_legacy b"
  by (auto simp: has_legacy_def)

lemma ledger_ok_add_batch:
  assumes ok: "ledger_ok d" and adm: "batch_admitted d b"
  shows "ledger_ok (add_batch_row b d)"
proof -
  have "one_legacy (add_batch_row b d)"
    using ok adm by (auto simp: ledger_ok_def one_legacy_def batch_admitted_def has_legacy_iff)
  then show ?thesis
    using ok adm fresh_batch_stock[OF ok adm]
    by (auto simp: ledger_ok_def ids_distinct_def refs_ok_def op_refs_ok_def stock_cached_def
        batches_cached_def null_settled_def batch_admitted_def thas_iff split: option.splits)
qed

lemma ledger_ok_add_product:
  assumes ok: "ledger_ok d" and adm: "product_admitted d p"
  shows "ledger_ok (add_product_row p d)"
proof -
  have "compute_stock d (p_id p) = 0"
    unfolding compute_stock_def
  proof (rule sum_where_zero)
    fix o1 assume o: "o1 \<in> set (operations d)" "o_product_id o1 = p_id p"
    then have "op_refs_ok d o1" using ok by (simp add: ledger_ok_def refs_ok_def)
    with o(2) adm show "o_qty_delta o1 = 0"
      by (simp add: product_admitted_def op_refs_ok_def thas_iff)
  qed
  with ok adm show ?thesis
    by (auto simp: ledger_ok_def ids_distinct_def refs_ok_def op_refs_ok_def stock_cached_def
        batches_cached_def null_settled_def one_legacy_def product_admitted_def thas_iff
        split: option.splits)
qed

text \<open>Edits that keep the keys and the cached columns keep the invariant.\<close>

lemma ledger_ok_edit:
  assumes ok: "ledger_ok d"
    and ops: "operations d' = operations d"
    and prods: "products d' = map f (products d)" and bats: "batches d' = map g (batches d)"
    and f: "\<And>p. p_id (f p) = p_id p \<and> p_quantity (f p) = p_quantity p"
    and g: "\<And>b. b_id (g b) = b_id b \<and> b_product_id (g b) = b_product_id b
              \<and> b_quantity (g b) = b_quantity b \<and> b_is_legacy (g b) = b_is_legacy b"
  shows "ledger_ok d'"
proof -
  have cs: "compute_stock d' pid = compute_stock d pid" "null_bucket d' pid = null_bucket d pid" for pid
    by (simp_all add: compute_stock_def null_bucket_def ops)
  then have cb: "compute_batch_stock d' (g b) = compute_batch_stock d b" for b
    by (simp add: compute_batch_stock_def ops g)
  have hl: "has_legacy d' pid = has_legacy d pid" for pid
    by (simp add: has_legacy_def bats list_ex_iff g)
  have rf: "op_refs_ok d' o1 = op_refs_ok d o1" for o1
    by (simp add: op_refs_ok_def prods bats image_image f g split: option.split)
  show ?thesis
    using ok by (simp add: ledger_ok_defs ops prods bats comp_def f g cs cb hl rf one_legacy_map)
qed

lemma tupd_map: "tupd key k f rows = map (\<lambda>r. if key r = k then f r else r) rows"
  by (simp add: tupd_def)

lemma map_same: "rows = map (\<lambda>r. r) rows"
  by simp

interpretation lok: write_path e ledger_ok for e
proof
  fix d k f assume "ledger_ok d" "card_admitted d k f"
  then show "ledger_ok (upd_product k f d)"
    by (elim ledger_ok_edit[where f = "\<lambda>p. if p_id p = k then f p else p" and g = "\<lambda>b. b"])
       (auto simp: tupd_map card_admitted_def)
next
  fix d k g assume "ledger_ok d" "label_edit g"
  then show "ledger_ok (upd_batch k g d)"
    by (elim ledger_ok_edit[where f = "\<lambda>p. p" and g = "\<lambda>b. if b_id b = k then g b else b"])
       (auto simp: tupd_map label_edit_def)
next
  fix d whs assume "ledger_ok d"
  then show "ledger_ok (d\<lparr>warehouses := whs\<rparr>)"
    by (elim ledger_ok_edit[where f = "\<lambda>p. p" and g = "\<lambda>b. b"]) auto
next
  fix d s assume "ledger_ok d"
  then show "ledger_ok (add_sale_row s d)"
    by (elim ledger_ok_edit[where f = "\<lambda>p. p" and g = "\<lambda>b. b"]) auto
next
  fix d m assume "ledger_ok d"
  then show "ledger_ok (add_cash_row m d)"
    by (elim ledger_ok_edit[where f = "\<lambda>p. p" and g = "\<lambda>b. b"]) auto
qed (fact ledger_ok_append ledger_ok_add_batch ledger_ok_add_product)+

section \<open>Append-only history\<close>

definition extends :: "db \<Rightarrow> db \<Rightarrow> bool" where
  "extends d0 d \<longleftrightarrow> prefix (operations d0) (operations d) \<and> prefix (cash_movements d0) (cash_movements d)"

lemma extends_refl [simp]: "extends d d"
  by (simp add: extends_def)

interpretation hist: write_path e "extends d0" for e d0
  by unfold_locales (auto simp: extends_def intro: prefix_order.trans)

section \<open>Numbering\<close>

definition ledgers_numbered :: "db \<Rightarrow> bool" where
  "ledgers_numbered d \<longleftrightarrow> numbered o_device_id o_seq (operations d)
     \<and> numbered m_device_id m_seq (cash_movements d)"

interpretation seqs: write_path e ledgers_numbered for e
  by unfold_locales
     (auto simp: ledgers_numbered_def op_admitted_def cash_admitted_def
        intro!: op_seq.numbered_snoc cash_seq.numbered_snoc)

section \<open>Active codes\<close>

definition codes_ok :: "db \<Rightarrow> bool" where
  "codes_ok d \<longleftrightarrow> distinct (active_codes (products d))"

lemma active_codes_append [simp]: "active_codes (xs @ ys) = active_codes xs @ active_codes ys"
  by (simp add: active_codes_def)

lemma active_codes_one: "active_codes [p] =
    (if p_deleted_at p = None then (case p_code p of None \<Rightarrow> [] | Some c \<Rightarrow> [c]) else [])"
  by (simp add: active_codes_def)

lemma codes_ok_add_product: "codes_ok d \<Longrightarrow> product_admitted d p \<Longrightarrow> codes_ok (add_product_row p d)"
  by (cases "p_code p"; cases "p_deleted_at p")
     (auto simp: codes_ok_def product_admitted_def active_codes_one)

interpretation codes: write_path e codes_ok for e
  by unfold_locales
     (simp_all add: codes_ok_add_product, simp_all add: codes_ok_def append_op_caches active_codes_quantity card_admitted_def)

section \<open>Cash rows\<close>

definition cash_ok :: "db \<Rightarrow> bool" where
  "cash_ok d \<longleftrightarrow> (\<forall>m \<in> set (cash_movements d). m_category m \<in> set CASH_CATEGORIES
     \<and> known_currency (m_currency m) \<and> m_business_date m \<noteq> None)"

interpretation cash: write_path e cash_ok for e
  by unfold_locales (auto simp: cash_ok_def cash_admitted_def)

section \<open>The operator's warehouses\<close>

definition op_in_scope :: "env \<Rightarrow> db \<Rightarrow> operation \<Rightarrow> bool" where
  "op_in_scope e d o1 \<longleftrightarrow> o_device_id o1 = device_id e \<and> (o_author_id o1, o_created_by o1) = author_fields e
     \<and> (case o_batch_id o1 of None \<Rightarrow> o_type o1 \<notin> set STOCK_AFFECTING_TYPES
        | Some k \<Rightarrow> (case get_batch d k of None \<Rightarrow> False
            | Some b \<Rightarrow> warehouse_allowed e (b_warehouse_id b) \<or> o_type o1 = ''transfer'' \<and> 0 < o_qty_delta o1))"

definition in_scope :: "env \<Rightarrow> nat \<Rightarrow> db \<Rightarrow> bool" where
  "in_scope e n d \<longleftrightarrow> (\<forall>o1 \<in> set (drop n (operations d)). op_in_scope e d o1)"

lemma op_in_scope_mono:
  assumes "op_in_scope e d o1"
    and "\<And>k b. get_batch d k = Some b \<Longrightarrow> \<exists>c. get_batch d' k = Some c \<and> b_warehouse_id c = b_warehouse_id b"
  shows "op_in_scope e d' o1"
  using assms(1) by (auto simp: op_in_scope_def split: option.splits dest!: assms(2))

lemma in_scope_mono:
  assumes "in_scope e n d" and "operations d' = operations d"
    and "\<And>k b. get_batch d k = Some b \<Longrightarrow> \<exists>c. get_batch d' k = Some c \<and> b_warehouse_id c = b_warehouse_id b"
  shows "in_scope e n d'"
  using assms(1,2) op_in_scope_mono[OF _ assms(3)] by (auto simp: in_scope_def)

lemma get_batch_append:
  "get_batch d k = Some b \<Longrightarrow> \<exists>c. get_batch (append_op o1 d) k = Some c \<and> b_warehouse_id c = b_warehouse_id b"
  by (auto simp: append_op_caches table_simps split: option.splits)

lemma op_admitted_in_scope: "op_admitted e d o1 \<Longrightarrow> op_in_scope e d o1"
  by (auto simp: op_admitted_def op_in_scope_def split: if_splits option.splits)

interpretation scope: write_path e "in_scope e n" for e n
proof
  fix d o1 assume old: "in_scope e n d" and adm: "op_admitted e d o1"
  have "op_in_scope e (append_op o1 d) o2" if "o2 \<in> set (drop n (operations d)) \<union> {o1}" for o2
    using that old op_admitted_in_scope[OF adm]
    by (intro op_in_scope_mono[OF _ get_batch_append]) (auto simp: in_scope_def)
  moreover have "set (drop n (operations d @ [o1])) \<subseteq> set (drop n (operations d)) \<union> {o1}"
    by (auto dest: in_set_dropD)
  ultimately show "in_scope e n (append_op o1 d)"
    by (auto simp: in_scope_def)
qed (auto elim!: in_scope_mono simp: table_simps label_edit_def split: option.splits)

section \<open>The cap on returns\<close>

text \<open>No more units of a product are taken back under a sale than the sale sold.\<close>

definition returns_capped :: "db \<Rightarrow> bool" where
  "returns_capped d \<longleftrightarrow> (\<forall>sid pid. 0 \<le> returnable_qty d sid pid)"

lemma returnable_append:
  "returnable_qty (append_op o1 d) sid pid = returnable_qty d sid pid
     - (if o_sale_id o1 = Some sid \<and> o_product_id o1 = pid \<and> (o_type o1 = ''sale'' \<or> o_type o1 = ''return'')
        then o_qty_delta o1 else 0)"
  by (auto simp: returnable_qty_def sold_qty_def returned_qty_def sum_simps)

interpretation capped: write_path e returns_capped for e
proof
  fix d o1 assume old: "returns_capped d" and adm: "op_admitted e d o1"
  have "0 \<le> returnable_qty (append_op o1 d) sid pid" for sid pid
    using old adm by (auto simp: returns_capped_def returnable_append op_admitted_def) (smt (verit))+
  then show "returns_capped (append_op o1 d)" by (simp add: returns_capped_def)
qed (simp_all add: returns_capped_def returnable_qty_def sold_qty_def returned_qty_def)

end
