(* ===== verification/Catalog.thy ===== *)
theory Catalog
  imports Invariants "HOL-Library.Sublist"
begin

text \<open>
  \<open>src/app/services/catalog.py\<close>: the product cards. A card is created, edited, soft-deleted and
  restored here; every price change leaves one \<open>price_change\<close> row and every other change one
  \<open>product_edited\<close> row in the operations ledger, in the transaction of the edit itself.
\<close>

section \<open>Optional fields\<close>

text \<open>\<open>parse_optional_cents(raw, errors, field)\<close> and \<open>parse_optional_int\<close>: the value and the error
  dict after the call. The second may raise: \<open>int\<close> refuses more than 4300 digits.\<close>

definition parse_optional_cents :: "string \<Rightarrow> string \<Rightarrow> errors \<Rightarrow> int option \<times> errors" where
  "parse_optional_cents raw field es =
     (if strip raw = [] then (None, es)
      else case to_cents (strip raw) of
        Inl x \<Rightarrow> (None, dict_set field PriceMsg es)
      | Inr c \<Rightarrow> if c < 0 then (None, dict_set field PriceMsg es) else (Some c, es))"

definition parse_optional_int :: "string \<Rightarrow> string \<Rightarrow> errors \<Rightarrow> exn + int option \<times> errors" where
  "parse_optional_int raw field es =
     (let t = strip raw in
      if t = [] then Inr (None, es)
      else if isascii t \<and> isdigit t then
        (case py_int t of Inl x \<Rightarrow> Inl x
         | Inr n \<Rightarrow> if n \<le> 2147483647 then Inr (Some n, es)
                  else Inr (None, dict_set field ThresholdMsg es))
      else Inr (None, dict_set field ThresholdMsg es))"

lemma parse_optional_cents_nonneg: "parse_optional_cents raw field es = (Some c, es') \<Longrightarrow> 0 \<le> c \<and> es' = es"
  by (auto simp: parse_optional_cents_def split: if_splits sum.splits)

text \<open>The error dict only grows: a field error is never lost by a later field.\<close>

lemma parse_optional_cents_errors: "parse_optional_cents raw field es = (v, []) \<Longrightarrow> es = []"
  by (auto simp: parse_optional_cents_def split: if_splits sum.splits)

lemma parse_optional_int_bounds:
  "parse_optional_int raw field es = Inr (Some n, es') \<Longrightarrow> 0 \<le> n \<and> n \<le> 2147483647"
  by (auto simp: parse_optional_int_def py_int_def Let_def split: if_splits sum.splits)

section \<open>The card form\<close>

text \<open>The raw form fields; an absent UAH or EUR field (\<open>None\<close>) leaves that price unchanged.\<close>

record product_form =
  f_code :: string
  f_name :: string
  f_category :: string
  f_cost :: string
  f_sale :: string
  f_min_sale :: string
  f_low_stock_threshold :: string
  f_stale_days :: string
  f_cost_uah :: "string option"
  f_sale_uah :: "string option"
  f_min_sale_uah :: "string option"
  f_cost_eur :: "string option"
  f_sale_eur :: "string option"
  f_min_sale_eur :: "string option"

record card_values =
  v_code :: string
  v_name :: string
  v_category :: "string option"
  v_prices :: "(string \<times> int option) list"
  v_low_stock_threshold :: "int option"
  v_stale_days :: "int option"

definition extra_raw :: "product_form \<Rightarrow> (string \<times> string option) list" where
  "extra_raw f =
     [(''cost_uah_cents'', f_cost_uah f), (''sale_uah_cents'', f_sale_uah f),
      (''min_sale_uah_cents'', f_min_sale_uah f), (''cost_eur_cents'', f_cost_eur f),
      (''sale_eur_cents'', f_sale_eur f), (''min_sale_eur_cents'', f_min_sale_eur f)]"

text \<open>\<open>field.removesuffix("_cents")\<close>.\<close>

definition removesuffix :: "string \<Rightarrow> string \<Rightarrow> string" where
  "removesuffix suf s = (if suf \<noteq> [] \<and> suffix suf s then take (length s - length suf) s else s)"

fun parse_extra ::
  "(string \<Rightarrow> int option) \<Rightarrow> (string \<times> string option) list \<Rightarrow> errors \<Rightarrow> (string \<times> int option) list \<times> errors" where
  "parse_extra current [] es = ([], es)"
| "parse_extra current ((field, raw) # rest) es =
     (let (v, es1) = (case raw of None \<Rightarrow> (current field, es)
            | Some r \<Rightarrow> parse_optional_cents r (removesuffix ''_cents'' field) es);
          (vs, es2) = parse_extra current rest es1
      in ((field, v) # vs, es2))"

definition name_errors :: "bool \<Rightarrow> string \<Rightarrow> string \<Rightarrow> errors" where
  "name_errors duplicate code name =
     (let es1 = (if code = [] then dict_set ''code'' CodeRequired [] else []);
          es2 = (if name = [] then dict_set ''name'' NameRequired es1 else es1)
      in if code \<noteq> [] \<and> duplicate then dict_set ''code'' DuplicateCode es2 else es2)"

definition card_of_form ::
  "(string \<Rightarrow> int option) \<Rightarrow> product_form \<Rightarrow> errors \<Rightarrow> exn + card_values \<times> errors" where
  "card_of_form current f es =
     (let (cost, es1) = parse_optional_cents (f_cost f) ''cost'' es;
          (sal, es2) = parse_optional_cents (f_sale f) ''sale'' es1;
          (minsale, es3) = parse_optional_cents (f_min_sale f) ''min_sale'' es2;
          (extra, es4) = parse_extra current (extra_raw f) es3
      in case parse_optional_int (f_low_stock_threshold f) ''low_stock_threshold'' es4 of
        Inl x \<Rightarrow> Inl x
      | Inr (low, es5) \<Rightarrow> (case parse_optional_int (f_stale_days f) ''stale_days'' es5 of
          Inl x \<Rightarrow> Inl x
        | Inr (stale, es6) \<Rightarrow> Inr
            (\<lparr>v_code = strip (f_code f), v_name = strip (f_name f),
              v_category = or_none (strip (f_category f)),
              v_prices = [(''cost_cents'', cost), (''sale_cents'', sal), (''min_sale_cents'', minsale)] @ extra,
              v_low_stock_threshold = low, v_stale_days = stale\<rparr>, es6)))"

definition new_price :: "card_values \<Rightarrow> string \<Rightarrow> int option" where
  "new_price v field = (case map_of (v_prices v) field of Some c \<Rightarrow> c | None \<Rightarrow> None)"

text \<open>\<open>str.lower\<close> on the Latin-1 letters.\<close>

definition lower :: "string \<Rightarrow> string" where
  "lower s = map (\<lambda>c. if 65 \<le> ord_of c \<and> ord_of c \<le> 90 \<or> 192 \<le> ord_of c \<and> ord_of c \<le> 222 \<and> ord_of c \<noteq> 215
                      then char_of (ord_of c + 32) else c) s"

definition set_card :: "card_values \<Rightarrow> product \<Rightarrow> product" where
  "set_card v p = fold (\<lambda>f. set_price f (new_price v f)) PRICE_FIELDS
     (p\<lparr>p_code := Some (v_code v), p_name := v_name v, p_name_lc := Some (lower (v_name v)),
        p_category := v_category v, p_low_stock_threshold := v_low_stock_threshold v,
        p_stale_days := v_stale_days v\<rparr>)"

lemma fold_set_price_frame:
  "p_id (fold (\<lambda>f. set_price f (h f)) fs p) = p_id p
   \<and> p_quantity (fold (\<lambda>f. set_price f (h f)) fs p) = p_quantity p
   \<and> p_code (fold (\<lambda>f. set_price f (h f)) fs p) = p_code p
   \<and> p_deleted_at (fold (\<lambda>f. set_price f (h f)) fs p) = p_deleted_at p
   \<and> p_name (fold (\<lambda>f. set_price f (h f)) fs p) = p_name p"
  by (induction fs arbitrary: p) auto

lemma set_card_frame [simp]:
  "p_id (set_card v p) = p_id p" "p_quantity (set_card v p) = p_quantity p"
  "p_code (set_card v p) = Some (v_code v)" "p_deleted_at (set_card v p) = p_deleted_at p"
  "p_name (set_card v p) = v_name v"
  by (simp_all add: set_card_def fold_set_price_frame)

lemma fold_set_price_get:
  "set fs \<subseteq> set PRICE_FIELDS \<Longrightarrow> get_price f (fold (\<lambda>f. set_price f (h f)) fs p)
     = (if f \<in> set fs then h f else get_price f p)"
proof (induction fs arbitrary: p)
  case Nil
  then show ?case by simp
next
  case (Cons g fs)
  then show ?case by (cases "f = g") (auto simp: get_set_price get_set_price_other)
qed

lemma set_card_price: "f \<in> set PRICE_FIELDS \<Longrightarrow> get_price f (set_card v p) = new_price v f"
  by (simp add: set_card_def fold_set_price_get)

section \<open>Creating a card\<close>

definition audit_args :: "string \<Rightarrow> string \<Rightarrow> payload \<Rightarrow> op_args" where
  "audit_args ty pid pay =
     \<lparr>a_type = ty, a_product_id = pid, a_qty_delta = 0, a_unit_cost_cents = None,
      a_unit_price_cents = None, a_payload = Some pay, a_sale_id = None, a_batch_id = None,
      a_business_date = None\<rparr>"

definition blank_product :: "string \<Rightarrow> string \<Rightarrow> product" where
  "blank_product i at =
     \<lparr>p_id = i, p_code = None, p_name = [], p_category = None, p_cost_cents = None,
      p_sale_cents = None, p_min_sale_cents = None, p_cost_uah_cents = None,
      p_sale_uah_cents = None, p_min_sale_uah_cents = None, p_cost_eur_cents = None,
      p_sale_eur_cents = None, p_min_sale_eur_cents = None, p_low_stock_threshold = None,
      p_stale_days = None, p_name_lc = None, p_quantity = 0, p_created_at = at,
      p_deleted_at = None\<rparr>"

lemma blank_product_frame [simp]:
  "p_id (blank_product i at) = i" "p_quantity (blank_product i at) = 0"
  "p_deleted_at (blank_product i at) = None"
  by (simp_all add: blank_product_def)

definition create_product ::
  "env \<Rightarrow> product_form \<Rightarrow> world \<Rightarrow> (product, unit) outcome \<times> world" where
  "create_product e f w =
     (let code = strip (f_code f) in
      case flush w of Some x \<Rightarrow> (Raised x, w)
      | None \<Rightarrow>
     (case card_of_form (\<lambda>_. None) f
           (name_errors (active_product (cur w) code \<noteq> None) code (strip (f_name f))) of
        Inl x \<Rightarrow> (Raised x, w)
      | Inr (v, es) \<Rightarrow>
          if es \<noteq> [] then (Errors es, w)
          else (let (i, w1) = new_id e w;
                    (at, w2) = utcnow_iso e w1;
                    p = set_card v (blank_product i at);
                    w3 = add_product p w2
                in case record_operation e (audit_args ''product_created'' i (P_created code (v_name v))) True w3 of
                    (Inl x, w4) \<Rightarrow> if x = IntegrityError then (Errors [(''code'', DuplicateCode)], rollback w4)
                                   else (Raised x, w4)
                  | (Inr _, w4) \<Rightarrow> (Ok p, w4))))"

section \<open>Editing a card\<close>

text \<open>\<open>sorted(f for f in old_fields if old_fields[f] != new_fields[f])\<close>: the five names are listed in
  sorted order.\<close>

definition changed_fields :: "card_values \<Rightarrow> product \<Rightarrow> string list" where
  "changed_fields v p =
     (if p_category p \<noteq> v_category v then [''category''] else []) @
     (if p_code p \<noteq> Some (v_code v) then [''code''] else []) @
     (if p_low_stock_threshold p \<noteq> v_low_stock_threshold v then [''low_stock_threshold''] else []) @
     (if p_name p \<noteq> v_name v then [''name''] else []) @
     (if p_stale_days p \<noteq> v_stale_days v then [''stale_days''] else [])"

definition changed_prices :: "card_values \<Rightarrow> product \<Rightarrow> string list" where
  "changed_prices v p = filter (\<lambda>f. get_price f p \<noteq> new_price v f) PRICE_FIELDS"

definition edit_audit :: "card_values \<Rightarrow> product \<Rightarrow> op_args list" where
  "edit_audit v p =
     map (\<lambda>f. audit_args ''price_change'' (p_id p) (P_price_change f (get_price f p) (new_price v f)))
       (changed_prices v p)
     @ (if changed_fields v p = [] then []
        else [audit_args ''product_edited'' (p_id p) (P_edited (changed_fields v p))])"

text \<open>Several rows staged one after another with \<open>commit=False\<close>; the first exception stops it.\<close>

fun record_all :: "env \<Rightarrow> op_args list \<Rightarrow> world \<Rightarrow> (exn + operation list) \<times> world" where
  "record_all e [] w = (Inr [], w)"
| "record_all e (a # as) w =
     (case record_operation e a False w of
        (Inl x, w1) \<Rightarrow> (Inl x, w1)
      | (Inr o1, w1) \<Rightarrow> (case record_all e as w1 of
            (Inl x, w2) \<Rightarrow> (Inl x, w2)
          | (Inr os, w2) \<Rightarrow> (Inr (o1 # os), w2)))"

definition write_edit ::
  "env \<Rightarrow> card_values \<Rightarrow> product \<Rightarrow> world \<Rightarrow> (product, unit) outcome \<times> world" where
  "write_edit e v p w =
     (if edit_audit v p = [] then (Ok p, w)
      else case record_all e (edit_audit v p) (edit_product (p_id p) (set_card v) w) of
        (Inl x, w1) \<Rightarrow> if x = IntegrityError then (Errors [(''code'', DuplicateCode)], rollback w1)
                       else (Raised x, w1)
      | (Inr _, w1) \<Rightarrow> (case commit w1 of
          (Some x, w2) \<Rightarrow> (Errors [(''code'', DuplicateCode)], rollback w2)
        | (None, w2) \<Rightarrow> (Ok (set_card v p), w2)))"

definition code_taken_by_other :: "db \<Rightarrow> string \<Rightarrow> string \<Rightarrow> bool" where
  "code_taken_by_other d code pid = list_ex (\<lambda>p. is_active_code code p \<and> p_id p \<noteq> pid) (products d)"

definition update_product ::
  "env \<Rightarrow> string \<Rightarrow> product_form \<Rightarrow> world \<Rightarrow> (product, unit) outcome \<times> world" where
  "update_product e pid f w =
     (case flush w of Some x \<Rightarrow> (Raised x, w) | None \<Rightarrow>
     (case get_product (cur w) pid of
        None \<Rightarrow> (Errors [(''product'', ProductMissing)], w)
      | Some p \<Rightarrow>
          if p_deleted_at p \<noteq> None then (Errors [(''product'', ProductDeleted)], w)
          else (let code = strip (f_code f) in
            case card_of_form (\<lambda>field. get_price field p) f
                (name_errors (code_taken_by_other (cur w) code pid) code (strip (f_name f))) of
              Inl x \<Rightarrow> (Raised x, w)
            | Inr (v, es) \<Rightarrow> if es \<noteq> [] then (Errors es, w) else write_edit e v p w)))"

section \<open>Deleting and restoring\<close>

definition soft_delete_product :: "env \<Rightarrow> string \<Rightarrow> world \<Rightarrow> (unit, unit) outcome \<times> world" where
  "soft_delete_product e pid w =
     (case get_product (cur w) pid of
        None \<Rightarrow> (Ok (), w)
      | Some p \<Rightarrow>
          if p_deleted_at p \<noteq> None then (Ok (), w)
          else (let (at, w1) = utcnow_iso e w;
                    w2 = edit_product pid (\<lambda>q. q\<lparr>p_deleted_at := Some at\<rparr>) w1
                in case commit w2 of (Some x, w3) \<Rightarrow> (Raised x, w3) | (None, w3) \<Rightarrow> (Ok (), w3)))"

text \<open>The pair \<open>(deleted, info)\<close>; the second component is \<open>blocked_qty\<close>.\<close>

definition quick_delete_product ::
  "env \<Rightarrow> string \<Rightarrow> world \<Rightarrow> (bool \<times> int option, unit) outcome \<times> world" where
  "quick_delete_product e pid w =
     (case get_product (cur w) pid of
        None \<Rightarrow> (Ok (False, None), w)
      | Some p \<Rightarrow>
          if p_deleted_at p \<noteq> None then (Ok (False, None), w)
          else if 0 < p_quantity p then (Ok (False, Some (p_quantity p)), w)
          else (let (at, w1) = utcnow_iso e w;
                    w2 = edit_product pid (\<lambda>q. q\<lparr>p_deleted_at := Some at\<rparr>) w1
                in case commit w2 of (Some x, w3) \<Rightarrow> (Raised x, w3)
                   | (None, w3) \<Rightarrow> (Ok (True, None), w3)))"

definition restore_product :: "env \<Rightarrow> string \<Rightarrow> world \<Rightarrow> (unit, unit) outcome \<times> world" where
  "restore_product e pid w =
     (case get_product (cur w) pid of
        None \<Rightarrow> (Ok (), w)
      | Some p \<Rightarrow>
          if p_deleted_at p = None then (Ok (), w)
          else (case commit (edit_product pid (\<lambda>q. q\<lparr>p_deleted_at := None\<rparr>) w) of
              (Some x, w1) \<Rightarrow> (Raised x, w1) | (None, w1) \<Rightarrow> (Ok (), w1)))"

section \<open>The handlers keep the invariants\<close>

lemma audit_args_frame [simp]: "a_qty_delta (audit_args t p pay) = 0" "a_type (audit_args t p pay) = t"
    "a_product_id (audit_args t p pay) = p" "a_batch_id (audit_args t p pay) = None"
    "a_payload (audit_args t p pay) = Some pay"
  by (simp_all add: audit_args_def)

lemma edit_audit_admitted: "a \<in> set (edit_audit v p) \<Longrightarrow> args_admitted d a"
  by (auto simp: edit_audit_def args_admitted_def split: if_splits)

lemma audit_admitted [simp]: "ty \<noteq> ''sale'' \<Longrightarrow> ty \<noteq> ''return'' \<Longrightarrow> args_admitted d (audit_args ty p pay)"
  by (simp add: args_admitted_def)

context write_path
begin

lemma keeps_record_all:
  "keeps P w \<Longrightarrow> (\<And>a d. a \<in> set as \<Longrightarrow> args_admitted d a)
     \<Longrightarrow> keeps P (snd (record_all e as w))"
proof (induction as arbitrary: w)
  case Nil
  then show ?case by simp
next
  case (Cons a as)
  obtain r w1 where ro: "record_operation e a False w = (r, w1)" by fastforce
  have "keeps P w1" using keeps_record_operation[OF Cons.prems(1), of a False] Cons.prems(2) ro by simp
  then have "keeps P (snd (record_all e as w1))" using Cons by simp
  with \<open>keeps P w1\<close> show ?case by (auto simp: ro split: sum.splits prod.splits)
qed

lemma keeps_create_product: "keeps P w \<Longrightarrow> keeps P (snd (create_product e f w))"
  by (auto simp: create_product_def Let_def split_beta split: sum.splits option.splits
      intro!: keeps_steps)

lemma keeps_write_edit: "keeps P w \<Longrightarrow> keeps P (snd (write_edit e v p w))"
  by (auto simp: write_edit_def split_beta edit_audit_admitted split: sum.splits option.splits
      intro!: keeps_steps keeps_record_all)

lemma keeps_update_product: "keeps P w \<Longrightarrow> keeps P (snd (update_product e pid f w))"
  by (auto simp: update_product_def Let_def keeps_write_edit split: option.splits sum.splits)

lemma keeps_soft_delete_product: "keeps P w \<Longrightarrow> keeps P (snd (soft_delete_product e pid w))"
  by (auto simp: soft_delete_product_def Let_def split_beta split: option.splits intro!: keeps_steps)

lemma keeps_quick_delete_product: "keeps P w \<Longrightarrow> keeps P (snd (quick_delete_product e pid w))"
  by (auto simp: quick_delete_product_def Let_def split_beta split: option.splits intro!: keeps_steps)

lemma keeps_restore_product: "keeps P w \<Longrightarrow> keeps P (snd (restore_product e pid w))"
  by (auto simp: restore_product_def Let_def split_beta split: option.splits intro!: keeps_steps)

end

end
