(* ===== verification/Batches.thy ===== *)
theory Batches
  imports Catalog
begin

text \<open>
  \<open>src/app/services/batches.py\<close>: the lots behind the pickers. All reads are limited to the
  operator's warehouses; the one write edits a lot's labels and frozen prices, never its
  quantity. Ties of an \<open>ORDER BY\<close> are left in insertion order.
\<close>

section \<open>Reads\<close>

text \<open>\<open>ORDER BY expiry ASC NULLS LAST, created_at ASC\<close>.\<close>

definition batch_order :: "batch list \<Rightarrow> batch list" where
  "batch_order bs = sort_key (\<lambda>b. b_expiry b = None)
     (sort_key (\<lambda>b. or_empty (b_expiry b)) (sort_key b_created_at bs))"

definition open_batches :: "env \<Rightarrow> db \<Rightarrow> string \<Rightarrow> string option \<Rightarrow> batch list" where
  "open_batches e d pid wid = batch_order (filter
     (\<lambda>b. b_product_id b = pid \<and> 0 < b_quantity b \<and> warehouse_scope e (Some (b_warehouse_id b))
        \<and> (case wid of None \<Rightarrow> True | Some k \<Rightarrow> b_warehouse_id b = k)) (batches d))"

text \<open>The page's dict, one entry per product that has an open lot, in order of first appearance.\<close>

definition batches_for_products :: "env \<Rightarrow> db \<Rightarrow> string list \<Rightarrow> (string \<times> batch list) list" where
  "batches_for_products e d pids =
     (let rows = batch_order (filter (\<lambda>b. b_product_id b \<in> set pids \<and> 0 < b_quantity b
                   \<and> warehouse_scope e (Some (b_warehouse_id b))) (batches d))
      in map (\<lambda>k. (k, filter (\<lambda>b. b_product_id b = k) rows)) (rev (remdups (rev (map b_product_id rows)))))"

definition legacy_batch :: "db \<Rightarrow> string \<Rightarrow> batch option" where
  "legacy_batch d pid = find (\<lambda>b. b_product_id b = pid \<and> b_is_legacy b) (batches d)"

text \<open>A lot joined to its card and warehouse; a lot without either row is dropped by the joins.\<close>

definition join_batch :: "db \<Rightarrow> batch \<Rightarrow> (batch \<times> product \<times> warehouse) list" where
  "join_batch d b = (case (get_product d (b_product_id b), get_warehouse d (b_warehouse_id b)) of
     (Some p, Some wh) \<Rightarrow> [(b, p, wh)] | _ \<Rightarrow> [])"

definition expiring_batches :: "env \<Rightarrow> db \<Rightarrow> (batch \<times> product \<times> warehouse) list" where
  "expiring_batches e d = concat (map (join_batch d) (batch_order (filter
     (\<lambda>b. 0 < b_quantity b \<and> b_expiry b \<noteq> None \<and> warehouse_scope e (Some (b_warehouse_id b)))
     (batches d))))"

definition active_warehouses :: "env \<Rightarrow> db \<Rightarrow> bool \<Rightarrow> warehouse list" where
  "active_warehouses e d scoped = sort_key w_name (filter
     (\<lambda>wh. w_deleted_at wh = None \<and> (\<not> scoped \<or> warehouse_scope e (Some (w_id wh)))) (warehouses d))"

text \<open>The per-product units of a restricted operator; \<open>None\<close> for an unrestricted user.\<close>

definition scoped_quantities :: "env \<Rightarrow> db \<Rightarrow> string list option \<Rightarrow> (string \<times> int) list option" where
  "scoped_quantities e d pids =
     (if allowed_warehouse_ids e = None then None
      else if pids = Some [] then Some []
      else (let rows = filter (\<lambda>b. warehouse_scope e (Some (b_warehouse_id b))
                    \<and> (case pids of None \<Rightarrow> True | Some ks \<Rightarrow> b_product_id b \<in> set ks)) (batches d)
            in Some (map (\<lambda>k. (k, sum_where (\<lambda>b. b_product_id b = k) b_quantity rows))
                  (remdups (map b_product_id rows)))))"

definition warehouse_currency :: "db \<Rightarrow> string option \<Rightarrow> string" where
  "warehouse_currency d wid =
     (if or_empty wid = [] then DEFAULT_CURRENCY
      else case get_warehouse d (or_empty wid) of
        None \<Rightarrow> DEFAULT_CURRENCY
      | Some wh \<Rightarrow> if w_currency wh = [] then DEFAULT_CURRENCY else w_currency wh)"

section \<open>The one write\<close>

definition NAME_MAX_LEN :: nat where "NAME_MAX_LEN = 220"
definition LOCATION_MAX_LEN :: nat where "LOCATION_MAX_LEN = 100"
definition COMMENT_MAX_LEN :: nat where "COMMENT_MAX_LEN = 200"

text \<open>\<open>x = raw.strip() or None\<close> with its length check.\<close>

definition parse_label :: "string \<Rightarrow> nat \<Rightarrow> string \<Rightarrow> msg \<Rightarrow> errors \<Rightarrow> string option \<times> errors" where
  "parse_label raw limit key m es =
     (or_none (strip raw), if limit < length (strip raw) then dict_set key m es else es)"

definition parse_expiry :: "string \<Rightarrow> errors \<Rightarrow> string option \<times> errors" where
  "parse_expiry raw es =
     (if strip raw = [] then (None, es)
      else case fromisoformat (strip raw) of
        None \<Rightarrow> (None, dict_set ''expiry'' ExpiryMsg es)
      | Some d \<Rightarrow> (Some (isoformat d), es))"

record batch_form =
  bf_name :: string
  bf_expiry :: string
  bf_location :: string
  bf_comment :: string
  bf_price :: string
  bf_cost :: string

text \<open>The parsed fields as the assignment the handler makes.\<close>

definition batch_edit :: "batch_form \<Rightarrow> (batch \<Rightarrow> batch) \<times> errors" where
  "batch_edit f =
     (let (nm, es1) = parse_label (bf_name f) NAME_MAX_LEN ''name'' NameTooLong [];
          (loc, es2) = parse_label (bf_location f) LOCATION_MAX_LEN ''location'' LocationTooLong es1;
          (com, es3) = parse_label (bf_comment f) COMMENT_MAX_LEN ''comment'' CommentTooLong es2;
          (expi, es4) = parse_expiry (bf_expiry f) es3;
          (price, es5) = parse_optional_cents (bf_price f) ''price'' es4;
          (cost, es6) = parse_optional_cents (bf_cost f) ''cost'' es5
      in (\<lambda>b. b\<lparr>b_name := nm, b_expiry := expi, b_location := loc, b_comment := com,
               b_price_cents := price, b_cost_cents := cost\<rparr>, es6))"

definition update_batch ::
  "env \<Rightarrow> string \<Rightarrow> batch_form \<Rightarrow> world \<Rightarrow> (batch, unit) outcome \<times> world" where
  "update_batch e k f w =
     (case get_batch (cur w) k of
        None \<Rightarrow> (Errors [(''batch'', BatchMissing)], w)
      | Some b \<Rightarrow>
          if \<not> warehouse_allowed e (b_warehouse_id b) then (Errors [(''batch'', BatchMissing)], w)
          else (let (g, es) = batch_edit f in
            if es \<noteq> [] then (Errors es, w)
            else (case commit (stage (upd_batch k g) False w) of
                (Some x, w1) \<Rightarrow> (Raised x, w1) | (None, w1) \<Rightarrow> (Ok (g b), w1))))"

section \<open>What the reads return\<close>

lemma set_batch_order [simp]: "set (batch_order bs) = set bs"
  by (simp add: batch_order_def)

lemma legacy_batchD:
  "legacy_batch d pid = Some b \<Longrightarrow> b \<in> set (batches d) \<and> b_product_id b = pid \<and> b_is_legacy b"
  by (auto simp: legacy_batch_def find_Some_iff)

lemma batch_edit_label: "label_edit (fst (batch_edit f))"
  by (auto simp: batch_edit_def label_edit_def Let_def split_beta)

context write_path
begin

lemma keeps_update_batch: "keeps P w \<Longrightarrow> keeps P (snd (update_batch e k f w))"
  by (auto simp: update_batch_def split_beta batch_edit_label split: option.splits
      intro!: keeps_steps)

end

end
