(* ===== verification/Moves.thy ===== *)
theory Moves
  imports Batches
begin

text \<open>
  What the stock-moving handlers share: the picked batch of a form, the arguments of a ledger
  row, the single resolution of the business date, the newest-first listings, and the facts
  about a successful and a failed \<open>record_operation\<close> that their proofs rest on.
\<close>

section \<open>Shared steps\<close>

text \<open>\<open>session.get(Batch, batch_id.strip()) if batch_id.strip() else None\<close>.\<close>

definition pick_batch :: "db \<Rightarrow> string \<Rightarrow> batch option" where
  "pick_batch d raw = (if strip raw = [] then None else get_batch d (strip raw))"

text \<open>The picked batch belongs to the product and to a warehouse of the operator.\<close>

definition owned_batch :: "env \<Rightarrow> db \<Rightarrow> product \<Rightarrow> string \<Rightarrow> batch option" where
  "owned_batch e d p raw =
     (case pick_batch d raw of None \<Rightarrow> None
      | Some b \<Rightarrow> if b_product_id b \<noteq> p_id p \<or> \<not> warehouse_allowed e (b_warehouse_id b)
                  then None else Some b)"

definition move_args :: "string \<Rightarrow> string \<Rightarrow> int \<Rightarrow> string \<Rightarrow> string option \<Rightarrow> op_args" where
  "move_args ty pid delta k bd =
     \<lparr>a_type = ty, a_product_id = pid, a_qty_delta = delta, a_unit_cost_cents = None,
      a_unit_price_cents = None, a_payload = None, a_sale_id = None, a_batch_id = Some k,
      a_business_date = bd\<rparr>"

lemma move_args_frame [simp]:
  "a_type (move_args ty pid q k bd) = ty" "a_product_id (move_args ty pid q k bd) = pid"
  "a_qty_delta (move_args ty pid q k bd) = q" "a_batch_id (move_args ty pid q k bd) = Some k"
  "a_business_date (move_args ty pid q k bd) = bd" "a_payload (move_args ty pid q k bd) = None"
  "a_unit_cost_cents (move_args ty pid q k bd) = None"
  "a_unit_price_cents (move_args ty pid q k bd) = None" "a_sale_id (move_args ty pid q k bd) = None"
  by (simp_all add: move_args_def)

lemma pick_batchD: "pick_batch d raw = Some b \<Longrightarrow> get_batch d (b_id b) = Some b \<and> b \<in> set (batches d)"
  by (auto simp: pick_batch_def split: if_splits intro: tget_self dest: tget_SomeD)

lemma owned_batchD:
  "owned_batch e d p raw = Some b \<Longrightarrow>
     get_batch d (b_id b) = Some b \<and> b_product_id b = p_id p \<and> warehouse_allowed e (b_warehouse_id b)"
  by (auto simp: owned_batch_def dest: pick_batchD split: option.splits if_splits)

section \<open>Listings\<close>

text \<open>
  \<open>ORDER BY created_at DESC, seq DESC\<close>, the warehouse of a row (NULL without a batch, as the outer
  join gives), and the listing of one type joined to its products.
\<close>

definition newest_first :: "operation list \<Rightarrow> operation list" where
  "newest_first ops = rev (sort_key o_created_at (sort_key o_seq ops))"

definition op_warehouse :: "db \<Rightarrow> operation \<Rightarrow> string option" where
  "op_warehouse d o1 = (case o_batch_id o1 of None \<Rightarrow> None
     | Some k \<Rightarrow> map_option b_warehouse_id (get_batch d k))"

definition join_product :: "db \<Rightarrow> operation \<Rightarrow> (operation \<times> product) list" where
  "join_product d o1 = (case get_product d (o_product_id o1) of None \<Rightarrow> [] | Some p \<Rightarrow> [(o1, p)])"

definition recent_of :: "env \<Rightarrow> db \<Rightarrow> (operation \<Rightarrow> bool) \<Rightarrow> nat \<Rightarrow> (operation \<times> product) list" where
  "recent_of e d sel limit = take limit (concat (map (join_product d) (newest_first
     (filter (\<lambda>o1. sel o1 \<and> warehouse_scope e (op_warehouse d o1)) (operations d)))))"

lemma recent_of_scope:
  assumes "(o1, p) \<in> set (recent_of e d sel limit)"
  shows "o1 \<in> set (operations d)" "sel o1" "warehouse_scope e (op_warehouse d o1)"
    "get_product d (o_product_id o1) = Some p"
  using assms[unfolded recent_of_def, THEN in_set_takeD]
  by (auto simp: newest_first_def join_product_def split: option.splits)

section \<open>One recorded row\<close>

lemma record_operation_Inr:
  assumes "record_operation e a c w = (Inr o1, w')"
  shows "\<exists>w1 b. make_op e a w = (o1, w1) \<and> check_batch e a (cur w) = Inr b"
    and "cur w' = append_op o1 (cur w)" "saved w' = (if c then append_op o1 (cur w) else saved w)"
    and "\<not> bad w" "c \<Longrightarrow> \<not> bad w'"
    and "\<exists>p. get_product (cur w) (a_product_id a) = Some p \<and> p_deleted_at p = None"
    and "a_type a \<in> set OPERATION_TYPES"
  using assms
  by (cases rule: record_operation_cases[of e a c w];
      force simp: commit_def dest: make_op_frame split: if_splits)+

lemma record_operation_Inl:
  "record_operation e a c w = (Inl x, w') \<Longrightarrow> saved w' = saved w"
  by (cases rule: record_operation_cases[of e a c w]) (auto dest: make_op_frame split: if_splits)

lemma record_operation_saved:
  "record_operation e a False w = (r, w') \<Longrightarrow> saved w' = saved w"
  by (cases r) (auto dest: record_operation_Inl record_operation_Inr(3))

lemma record_cash_Inr:
  assumes "record_cash_movement e a c w = (Inr m, w')"
  shows "\<exists>w1. make_cash e a w = (m, w1)"
    and "cur w' = add_cash_row m (cur w)" "saved w' = (if c then add_cash_row m (cur w) else saved w)"
    and "\<not> bad w" "c_category a \<in> set CASH_CATEGORIES" "known_currency (c_currency a)"
  using assms
  by (cases rule: record_cash_cases[of e a c w];
      force simp: commit_def dest: make_cash_frame split: if_splits)+

lemma record_cash_saved: "record_cash_movement e a False w = (r, w') \<Longrightarrow> saved w' = saved w"
  by (cases rule: record_cash_cases[of e a False w]) (auto dest: make_cash_frame)

lemma commit_None: "commit w = (None, w') \<Longrightarrow> saved w' = cur w \<and> cur w' = cur w \<and> \<not> bad w"
  by (auto simp: commit_def split: if_splits)

lemma commit_Some: "commit w = (Some x, w') \<Longrightarrow> w' = w \<and> x = IntegrityError"
  by (auto simp: commit_def split: if_splits)

text \<open>The columns of a recorded row that come from its arguments.\<close>

lemma recorded_fields:
  assumes "record_operation e a c w = (Inr o1, w')"
  shows "o_type o1 = a_type a" "o_product_id o1 = a_product_id a" "o_qty_delta o1 = a_qty_delta a"
    "o_unit_cost_cents o1 = a_unit_cost_cents a" "o_unit_price_cents o1 = a_unit_price_cents a"
    "o_payload o1 = a_payload a" "o_sale_id o1 = a_sale_id a" "o_batch_id o1 = a_batch_id a"
    and "a_business_date a = Some s \<Longrightarrow> s \<noteq> [] \<Longrightarrow> o_business_date o1 = Some s"
    and "o_author_id o1 = fst (author_fields e)" "o_created_by o1 = snd (author_fields e)"
proof -
  from record_operation_Inr(1)[OF assms] obtain w1 where mk: "make_op e a w = (o1, w1)" by auto
  show "o_type o1 = a_type a" "o_product_id o1 = a_product_id a" "o_qty_delta o1 = a_qty_delta a"
    "o_unit_cost_cents o1 = a_unit_cost_cents a" "o_unit_price_cents o1 = a_unit_price_cents a"
    "o_payload o1 = a_payload a" "o_sale_id o1 = a_sale_id a" "o_batch_id o1 = a_batch_id a"
    using make_op_frame[OF mk] by simp_all
  show "a_business_date a = Some s \<Longrightarrow> s \<noteq> [] \<Longrightarrow> o_business_date o1 = Some s"
    using make_op_date[OF mk] by simp
  show "o_author_id o1 = fst (author_fields e)" "o_created_by o1 = snd (author_fields e)"
    using make_op_frame(14)[OF mk] by (metis fst_conv, metis snd_conv)
qed

text \<open>A batch after a recorded row: its quantity moves by the row's delta, nothing else changes.\<close>

lemma get_batch_append_op:
  "get_batch (append_op o1 d) k = map_option (bump_batch o1) (get_batch d k)"
proof -
  have "tget b_id k (map (bump_batch o1) bs) = map_option (bump_batch o1) (tget b_id k bs)" for bs
    by (induction bs) (auto simp: table_simps)
  then show ?thesis by (simp add: batches_append)
qed

lemma batch_after_op:
  "get_batch d k = Some b \<Longrightarrow> o_batch_id o1 = Some k \<Longrightarrow>
     map_option b_quantity (get_batch (append_op o1 d) k) = Some (b_quantity b + o_qty_delta o1)"
  by (auto simp: get_batch_append_op dest: tget_key)

lemma get_product_append_op:
  "get_product (append_op o1 d) k = map_option (bump_product o1) (get_product d k)"
proof -
  have "tget p_id k (map (bump_product o1) ps) = map_option (bump_product o1) (tget p_id k ps)" for ps
    by (induction ps) (auto simp: table_simps)
  then show ?thesis by (simp add: products_append)
qed

section \<open>The resolved business date\<close>

text \<open>\<open>business_date or local_today_iso(...)\<close>, resolved once for all rows of a handler.\<close>

lemma or_today_frame:
  assumes "or_today e bd w = (date, w')"
  shows "cur w' = cur w" "saved w' = saved w" "date \<noteq> []" "bd = None \<or> bd = Some date \<or> bd = Some []"
  using assms by (cases bd; auto simp: or_today_def local_today_iso_def split: if_splits)+

section \<open>Several recorded rows\<close>

definition batch_moves :: "string \<Rightarrow> operation list \<Rightarrow> int" where
  "batch_moves k ops = sum_where (\<lambda>o1. o_batch_id o1 = Some k) o_qty_delta ops"

definition product_moves :: "string \<Rightarrow> operation list \<Rightarrow> int" where
  "product_moves k ops = sum_where (\<lambda>o1. o_product_id o1 = k) o_qty_delta ops"

lemma fold_append_frame:
  "operations (fold append_op ops d) = operations d @ ops"
  "warehouses (fold append_op ops d) = warehouses d" "sales (fold append_op ops d) = sales d"
  "cash_movements (fold append_op ops d) = cash_movements d"
  by (induction ops arbitrary: d) simp_all

lemma batch_after_ops:
  "map_option b_quantity (get_batch (fold append_op ops d) k)
     = map_option (\<lambda>b. b_quantity b + batch_moves k ops) (get_batch d k)"
proof (induction ops arbitrary: d)
  case Nil
  then show ?case by (cases "get_batch d k") (auto simp: batch_moves_def sum_simps)
next
  case (Cons o1 ops)
  show ?case
    by (cases "get_batch d k")
       (auto simp: Cons.IH get_batch_append_op batch_moves_def sum_simps dest: tget_key)
qed

lemma product_after_ops:
  "map_option p_quantity (get_product (fold append_op ops d) k)
     = map_option (\<lambda>p. p_quantity p + product_moves k ops) (get_product d k)"
proof (induction ops arbitrary: d)
  case Nil
  then show ?case by (cases "get_product d k") (auto simp: product_moves_def sum_simps)
next
  case (Cons o1 ops)
  show ?case
    by (cases "get_product d k")
       (auto simp: Cons.IH get_product_append_op product_moves_def sum_simps dest: tget_key)
qed

end
