(* ===== verification/Writeoffs.thy ===== *)
theory Writeoffs
  imports Moves
begin

text \<open>
  \<open>src/app/services/writeoffs.py\<close>: one \<open>writeoff\<close> row takes goods out of a picked batch, with a
  reason from the allow-list; an over-removal is only made once the operator has confirmed it.
\<close>

record writeoff_form =
  wof_code :: string
  wof_qty :: string
  wof_reason :: string
  wof_note :: string
  wof_batch_id :: string
  wof_confirm :: string
  wof_op_date :: string

definition writeoff_args :: "writeoff_form \<Rightarrow> int \<Rightarrow> product \<Rightarrow> batch \<Rightarrow> string option \<Rightarrow> op_args" where
  "writeoff_args f qty p b bd = (move_args ''writeoff'' (p_id p) (- qty) (b_id b) bd)
     \<lparr>a_payload := Some (P_writeoff (wof_reason f) (strip (wof_note f)))\<rparr>"

text \<open>The part after validation: the lookups, the oversell warning and the write. The warning
  carries the product, the available and the requested units.\<close>

definition write_writeoff ::
  "env \<Rightarrow> writeoff_form \<Rightarrow> int \<Rightarrow> string option \<Rightarrow> world
     \<Rightarrow> (product \<times> operation, product \<times> int \<times> int) outcome \<times> world" where
  "write_writeoff e f qty bd w =
     (let code = strip (wof_code f) in
      case active_product (cur w) code of
        None \<Rightarrow> (Errors [(''code'', ProductNotFound code)], w)
      | Some p \<Rightarrow> (case owned_batch e (cur w) p (wof_batch_id f) of
          None \<Rightarrow> (Errors [(''batch'', BatchRequired)], w)
        | Some b \<Rightarrow>
            if wof_confirm f \<noteq> ''1'' \<and> b_quantity b < qty then (Warn (p, b_quantity b, qty), w)
            else (case record_operation e (writeoff_args f qty p b bd) True w of
                (Inl x, w1) \<Rightarrow> (Errors [(''form'', SaveFailed)], rollback w1)
              | (Inr o1, w1) \<Rightarrow> (Ok (p, o1), w1))))"

definition writeoff_errors :: "writeoff_form \<Rightarrow> int \<Rightarrow> errors" where
  "writeoff_errors f qty =
     (let es1 = (if strip (wof_code f) = [] then dict_set ''code'' CodeRequired [] else []);
          es2 = (if qty \<le> 0 then dict_set ''quantity'' QtyMsg es1 else es1)
      in if wof_reason f \<notin> set WRITEOFF_REASONS then dict_set ''reason'' ReasonMsg es2 else es2)"

definition register_writeoff ::
  "env \<Rightarrow> writeoff_form \<Rightarrow> world \<Rightarrow> (product \<times> operation, product \<times> int \<times> int) outcome \<times> world" where
  "register_writeoff e f w =
     (case parse_qty (wof_qty f) of
        Inl x \<Rightarrow> (Raised x, w)
      | Inr qty \<Rightarrow>
          (let (bd, es, w1) = parse_op_date e (wof_op_date f) (writeoff_errors f qty) ''op_date'' w
           in if es \<noteq> [] then (Errors es, w1) else write_writeoff e f qty bd w1))"

definition recent_writeoffs :: "env \<Rightarrow> db \<Rightarrow> nat \<Rightarrow> (operation \<times> product) list" where
  "recent_writeoffs e d limit = recent_of e d (\<lambda>o1. o_type o1 = ''writeoff'') limit"

section \<open>What a write-off does\<close>

lemma register_writeoff_cases:
  assumes "register_writeoff e f w = (r, w')"
  obtains (invalid) "\<not> is_Ok r" "saved w' = saved w"
  | (valid) qty bd w1 where "parse_qty (wof_qty f) = Inr qty" "0 < qty"
      "wof_reason f \<in> set WRITEOFF_REASONS" "parse_op_date e (wof_op_date f) [] ''op_date'' w = (bd, [], w1)"
      "cur w1 = cur w" "saved w1 = saved w" "write_writeoff e f qty bd w1 = (r, w')"
proof (cases "parse_qty (wof_qty f)")
  case (Inl x)
  with assms invalid show thesis by (auto simp: register_writeoff_def)
next
  case (Inr qty)
  obtain bd es w1 where pd: "parse_op_date e (wof_op_date f) (writeoff_errors f qty) ''op_date'' w = (bd, es, w1)"
    by (metis prod_cases3)
  have run: "(r, w') = (if es \<noteq> [] then (Errors es, w1) else write_writeoff e f qty bd w1)"
    using assms Inr pd by (auto simp: register_writeoff_def)
  note frame = parse_op_date_frame[OF pd]
  show thesis
  proof (cases "es = []")
    case True
    then have "writeoff_errors f qty = []" using parse_op_date_ok(1) pd by blast
    moreover from this have "0 < qty" "wof_reason f \<in> set WRITEOFF_REASONS"
      by (auto simp: writeoff_errors_def Let_def split: if_splits)
    ultimately show thesis using valid[OF Inr] pd run True frame by simp
  next
    case False
    with run frame invalid show thesis by simp
  qed
qed

lemma write_writeoff_fail:
  "write_writeoff e f qty bd w = (r, w') \<Longrightarrow> \<not> is_Ok r \<Longrightarrow> saved w' = saved w"
  by (auto simp: write_writeoff_def Let_def dest: record_operation_Inl
      split: option.splits if_splits sum.splits prod.splits)

lemma write_writeoff_ok:
  assumes "write_writeoff e f qty bd w = (Ok (p, o1), w')"
  obtains b where "active_product (cur w) (strip (wof_code f)) = Some p"
    "owned_batch e (cur w) p (wof_batch_id f) = Some b"
    "wof_confirm f = ''1'' \<or> qty \<le> b_quantity b"
    "record_operation e (writeoff_args f qty p b bd) True w = (Inr o1, w')"
  using assms
  by (auto simp: write_writeoff_def Let_def split: option.splits if_splits sum.splits prod.splits)

text \<open>A write-off that is not accepted (a field error, an unknown product or batch, an oversell
  waiting for confirmation, a failed save) leaves the committed database as it was.\<close>

lemma writeoff_all_or_nothing:
  "register_writeoff e f w = (r, w') \<Longrightarrow> \<not> is_Ok r \<Longrightarrow> saved w' = saved w"
  by (elim register_writeoff_cases) (auto dest: write_writeoff_fail)

text \<open>C25: an accepted write-off commits exactly one row: type \<open>writeoff\<close>, minus the typed quantity, on
  the picked batch of the active product with the typed code, with the reason and the stripped
  note; the batch then holds that many fewer units, and not less than zero unless the operator
  confirmed the oversell.\<close>

theorem writeoff_effect:
  assumes "register_writeoff e f w = (Ok (p, o1), w')"
  shows "\<exists>b qty. active_product (cur w) (strip (wof_code f)) = Some p
     \<and> owned_batch e (cur w) p (wof_batch_id f) = Some b
     \<and> parse_qty (wof_qty f) = Inr qty \<and> 0 < qty \<and> wof_reason f \<in> set WRITEOFF_REASONS
     \<and> saved w' = append_op o1 (cur w)
     \<and> o_type o1 = ''writeoff'' \<and> o_product_id o1 = p_id p \<and> o_batch_id o1 = Some (b_id b)
     \<and> o_qty_delta o1 = - qty \<and> o_payload o1 = Some (P_writeoff (wof_reason f) (strip (wof_note f)))
     \<and> map_option b_quantity (get_batch (saved w') (b_id b)) = Some (b_quantity b - qty)
     \<and> (wof_confirm f \<noteq> ''1'' \<longrightarrow> 0 \<le> b_quantity b - qty)"
  using assms
proof (cases rule: register_writeoff_cases)
  case (valid qty bd w1)
  from valid(7) obtain b where b: "active_product (cur w1) (strip (wof_code f)) = Some p"
    "owned_batch e (cur w1) p (wof_batch_id f) = Some b" "wof_confirm f = ''1'' \<or> qty \<le> b_quantity b"
    and rec: "record_operation e (writeoff_args f qty p b bd) True w1 = (Inr o1, w')"
    by (rule write_writeoff_ok)
  note fields = recorded_fields[OF rec] and post = record_operation_Inr(3)[OF rec]
  have "map_option b_quantity (get_batch (saved w') (b_id b)) = Some (b_quantity b - qty)"
    using post owned_batchD[OF b(2)] fields batch_after_op[of "b_id b" "cur w1" b o1]
    by (simp add: writeoff_args_def)
  with valid b fields post show ?thesis
    by (intro exI[of _ b] exI[of _ qty]) (auto simp: writeoff_args_def)
qed simp

context write_path
begin

lemma keeps_write_writeoff: "keeps P w \<Longrightarrow> keeps P (snd (write_writeoff e f qty bd w))"
  by (auto simp: write_writeoff_def Let_def split_beta writeoff_args_def args_admitted_def STOCK_AFFECTING_TYPES_def
      split: option.splits sum.splits intro!: keeps_steps)

lemma keeps_register_writeoff: "keeps P w \<Longrightarrow> keeps P (snd (register_writeoff e f w))"
  by (simp add: register_writeoff_def Let_def split_beta keeps_write_writeoff keeps_parse_op_date
      split: sum.split)

end

end
