(* ===== verification/Corrections.thy ===== *)
theory Corrections
  imports Moves
begin

text \<open>
  \<open>src/app/services/corrections.py\<close>: a stock correction in one of two modes. A counted quantity is
  compared with the picked batch, a signed change is applied as typed; either way one
  \<open>correction\<close> row carries the difference, and a difference of zero is refused.
\<close>

record correction_form =
  kf_code :: string
  kf_mode :: string
  kf_value :: string
  kf_note :: string
  kf_batch_id :: string
  kf_confirm :: string
  kf_op_date :: string

text \<open>\<open>int(s)\<close> for a string of ASCII digits with at most one leading minus. The 4300-digit limit
  counts the digits only.\<close>

definition signed_int :: "string \<Rightarrow> exn + int" where
  "signed_int s = (case s of [] \<Rightarrow> py_int s
     | c # t \<Rightarrow> if c = CHR ''-'' then (case py_int t of Inl x \<Rightarrow> Inl x | Inr n \<Rightarrow> Inr (- n)) else py_int s)"

text \<open>The net change asked for: the counted branch and the signed branch of the handler.\<close>

definition correction_delta :: "string \<Rightarrow> string \<Rightarrow> int \<Rightarrow> exn + int \<times> errors" where
  "correction_delta mode value_raw available =
     (let s = strip value_raw in
      if mode = ''count'' then
        (if isascii s \<and> isdigit s then
           (case py_int s of Inl x \<Rightarrow> Inl x | Inr counted \<Rightarrow> Inr (counted - available, []))
         else Inr (0, dict_set ''quantity'' CountQtyMsg []))
      else (let body = (case s of [] \<Rightarrow> s | c # t \<Rightarrow> if c = CHR ''-'' then t else s) in
        if body \<noteq> [] \<and> isascii body \<and> isdigit body then
           (case signed_int s of Inl x \<Rightarrow> Inl x | Inr n \<Rightarrow> Inr (n, []))
        else Inr (0, dict_set ''quantity'' DeltaQtyMsg [])))"

definition correction_args :: "correction_form \<Rightarrow> int \<Rightarrow> product \<Rightarrow> batch \<Rightarrow> string option \<Rightarrow> op_args" where
  "correction_args f delta p b bd = (move_args ''correction'' (p_id p) delta (b_id b) bd)
     \<lparr>a_payload := Some (P_correction (or_none (strip (kf_note f))) (kf_mode f))\<rparr>"

text \<open>\<open>product.quantity\<close> after the commit, re-read from the refreshed row.\<close>

definition quantity_of :: "db \<Rightarrow> string \<Rightarrow> int" where
  "quantity_of d pid = (case get_product d pid of None \<Rightarrow> 0 | Some p \<Rightarrow> p_quantity p)"

definition write_correction ::
  "env \<Rightarrow> correction_form \<Rightarrow> product \<Rightarrow> batch \<Rightarrow> int \<Rightarrow> string option \<Rightarrow> world
     \<Rightarrow> (product \<times> operation \<times> int, product \<times> int \<times> int) outcome \<times> world" where
  "write_correction e f p b delta bd w =
     (if delta = 0 then (Errors [(''quantity'', ZeroNet)], w)
      else if kf_confirm f \<noteq> ''1'' \<and> b_quantity b < - delta then (Warn (p, b_quantity b, - delta), w)
      else (case record_operation e (correction_args f delta p b bd) True w of
          (Inl x, w1) \<Rightarrow> (Errors [(''form'', SaveFailed)], rollback w1)
        | (Inr o1, w1) \<Rightarrow> (Ok (p, o1, quantity_of (cur w1) (p_id p)), w1)))"

definition register_correction ::
  "env \<Rightarrow> correction_form \<Rightarrow> world
     \<Rightarrow> (product \<times> operation \<times> int, product \<times> int \<times> int) outcome \<times> world" where
  "register_correction e f w =
     (let code = strip (kf_code f) in
      if kf_mode f \<notin> {''count'', ''delta''} then (Errors [(''mode'', ModeMsg)], w)
      else if code = [] then (Errors [(''code'', CodeRequired)], w)
      else case active_product (cur w) code of
        None \<Rightarrow> (Errors [(''code'', ProductNotFound code)], w)
      | Some p \<Rightarrow> (case owned_batch e (cur w) p (kf_batch_id f) of
          None \<Rightarrow> (Errors [(''batch'', BatchRequired)], w)
        | Some b \<Rightarrow> (case correction_delta (kf_mode f) (kf_value f) (b_quantity b) of
            Inl x \<Rightarrow> (Raised x, w)
          | Inr (delta, es1) \<Rightarrow>
              (let (bd, es, w1) = parse_op_date e (kf_op_date f) es1 ''op_date'' w
               in if es \<noteq> [] then (Errors es, w1) else write_correction e f p b delta bd w1))))"

section \<open>What a correction does\<close>

lemma write_correction_fail:
  "write_correction e f p b delta bd w = (r, w') \<Longrightarrow> \<not> is_Ok r \<Longrightarrow> saved w' = saved w"
  by (auto simp: write_correction_def dest: record_operation_Inl
      split: if_splits sum.splits prod.splits)

lemma register_correction_cases:
  assumes "register_correction e f w = (r, w')"
  obtains (invalid) "\<not> is_Ok r" "saved w' = saved w"
  | (valid) p b delta bd w1 where "active_product (cur w) (strip (kf_code f)) = Some p"
      "owned_batch e (cur w) p (kf_batch_id f) = Some b" "kf_mode f = ''count'' \<or> kf_mode f = ''delta''"
      "correction_delta (kf_mode f) (kf_value f) (b_quantity b) = Inr (delta, [])"
      "cur w1 = cur w" "saved w1 = saved w" "write_correction e f p b delta bd w1 = (r, w')"
proof (cases "\<exists>p b delta es1. active_product (cur w) (strip (kf_code f)) = Some p
    \<and> owned_batch e (cur w) p (kf_batch_id f) = Some b
    \<and> correction_delta (kf_mode f) (kf_value f) (b_quantity b) = Inr (delta, es1)
    \<and> (kf_mode f = ''count'' \<or> kf_mode f = ''delta'') \<and> strip (kf_code f) \<noteq> []")
  case False
  then have "\<not> is_Ok r \<and> saved w' = saved w"
    using assms by (auto simp: register_correction_def Let_def split: if_splits option.splits sum.splits)
  with invalid show thesis by blast
next
  case True
  then obtain p b delta es1 where h: "active_product (cur w) (strip (kf_code f)) = Some p"
    "owned_batch e (cur w) p (kf_batch_id f) = Some b" "kf_mode f = ''count'' \<or> kf_mode f = ''delta''"
    "correction_delta (kf_mode f) (kf_value f) (b_quantity b) = Inr (delta, es1)" "strip (kf_code f) \<noteq> []"
    by blast
  obtain bd es w1 where pd: "parse_op_date e (kf_op_date f) es1 ''op_date'' w = (bd, es, w1)"
    by (metis prod_cases3)
  note frame = parse_op_date_frame[OF pd]
  have run: "(r, w') = (if es \<noteq> [] then (Errors es, w1) else write_correction e f p b delta bd w1)"
    using assms h pd by (auto simp: register_correction_def)
  show thesis
  proof (cases "es = []")
    case True
    then have "es1 = []" using parse_op_date_ok(1) pd by blast
    with True run h frame valid show thesis by simp
  next
    case False
    with run frame invalid show thesis by simp
  qed
qed

text \<open>A correction that is not accepted leaves the committed database as it was.\<close>

lemma correction_all_or_nothing:
  "register_correction e f w = (r, w') \<Longrightarrow> \<not> is_Ok r \<Longrightarrow> saved w' = saved w"
  by (elim register_correction_cases) (auto dest: write_correction_fail)

lemma write_correction_ok:
  assumes "write_correction e f p b delta bd w = (Ok (q, o1, n), w')"
  shows "delta \<noteq> 0" "kf_confirm f = ''1'' \<or> - delta \<le> b_quantity b"
    "record_operation e (correction_args f delta p b bd) True w = (Inr o1, w')" "q = p"
    "n = quantity_of (cur w') (p_id p)"
  using assms by (auto simp: write_correction_def split: if_splits sum.splits prod.splits)

text \<open>C26: an accepted correction commits exactly one \<open>correction\<close> row with a non-zero change, and after a
  count the picked batch holds exactly the counted quantity (the typed number), while after a
  signed change it holds its old quantity plus the typed number; without confirmation the batch
  never goes below zero.\<close>

theorem correction_effect:
  assumes "register_correction e f w = (Ok (p, o1, n), w')"
  shows "\<exists>b. owned_batch e (cur w) p (kf_batch_id f) = Some b
     \<and> saved w' = append_op o1 (cur w) \<and> o_type o1 = ''correction'' \<and> o_qty_delta o1 \<noteq> 0
     \<and> o_batch_id o1 = Some (b_id b)
     \<and> map_option b_quantity (get_batch (saved w') (b_id b)) = Some (b_quantity b + o_qty_delta o1)
     \<and> (kf_mode f = ''count'' \<longrightarrow>
          py_int (strip (kf_value f)) = Inr (b_quantity b + o_qty_delta o1))
     \<and> (kf_mode f = ''delta'' \<longrightarrow> signed_int (strip (kf_value f)) = Inr (o_qty_delta o1))
     \<and> (kf_confirm f \<noteq> ''1'' \<longrightarrow> 0 \<le> b_quantity b + o_qty_delta o1)
     \<and> n = quantity_of (saved w') (p_id p)"
  using assms
proof (cases rule: register_correction_cases)
  case (valid p' b delta bd w1)
  note ok = write_correction_ok[OF valid(7)]
  note fields = recorded_fields[OF ok(3)] and post = record_operation_Inr(2,3)[OF ok(3)]
  have typed: "(kf_mode f = ''count'' \<longrightarrow> py_int (strip (kf_value f)) = Inr (b_quantity b + delta))
      \<and> (kf_mode f = ''delta'' \<longrightarrow> signed_int (strip (kf_value f)) = Inr delta)"
    using valid(4) by (auto simp: correction_delta_def Let_def split: if_splits sum.splits)
  have "map_option b_quantity (get_batch (saved w') (b_id b)) = Some (b_quantity b + delta)"
    using post(2) owned_batchD[OF valid(2)] valid(5) fields batch_after_op[of "b_id b" "cur w" b o1]
    by (simp add: correction_args_def)
  with valid ok fields post typed show ?thesis
    by (intro exI[of _ b]) (auto simp: correction_args_def)
qed simp

context write_path
begin

lemma keeps_write_correction: "keeps P w \<Longrightarrow> keeps P (snd (write_correction e f p b delta bd w))"
  by (auto simp: write_correction_def split_beta correction_args_def args_admitted_def STOCK_AFFECTING_TYPES_def
      split: sum.splits intro!: keeps_steps)

lemma keeps_register_correction: "keeps P w \<Longrightarrow> keeps P (snd (register_correction e f w))"
  by (simp add: register_correction_def Let_def split_beta keeps_write_correction keeps_parse_op_date
      split: sum.split option.split)

end

end
