(* ===== verification/Sales.thy ===== *)
theory Sales
  imports Moves
begin

text \<open>
  \<open>src/app/services/sales.py\<close>: a basket of lines sold in one transaction. Every line is checked
  against the active card and the picked batch, all batches must be priced in one currency, an
  oversell or a price below the minimum asks for confirmation, and then the header, one \<open>sale\<close>
  row per line and one cash row are staged and committed together, all on one business date.
\<close>

section \<open>The basket\<close>

type_synonym raw_line = "string \<times> string \<times> string \<times> string"

text \<open>\<open>non_blank_lines(codes, qtys, prices, batch_ids)\<close>: the batch column is padded first, and never
  makes a line count.\<close>

definition non_blank_lines ::
  "string list \<Rightarrow> string list \<Rightarrow> string list \<Rightarrow> string list \<Rightarrow> raw_line list" where
  "non_blank_lines codes qtys prices batch_ids =
     (let padded = batch_ids @ replicate (length codes - length batch_ids) []
      in filter (\<lambda>(c, q, p, _). strip c \<noteq> [] \<or> strip q \<noteq> [] \<or> strip p \<noteq> [])
           (zip codes (zip qtys (zip prices padded))))"

text \<open>One entry of \<open>resolved\<close>, and the same once every part is known.\<close>

record resolved_line =
  r_product :: "product option"
  r_qty :: int
  r_price :: "int option"
  r_batch :: "batch option"

record sale_line =
  l_product :: product
  l_qty :: int
  l_price :: int
  l_batch :: batch

definition line_key :: "string \<Rightarrow> nat \<Rightarrow> string" where
  "line_key field i = field @ ''-'' @ show_nat i"

definition line_price :: "nat \<Rightarrow> string \<Rightarrow> errors \<Rightarrow> int option \<times> errors" where
  "line_price i raw es =
     (if strip raw = [] then (None, dict_set (line_key ''price'' i) PriceRequired es)
      else case to_cents (strip raw) of
        Inl x \<Rightarrow> (None, dict_set (line_key ''price'' i) PriceMsg es)
      | Inr c \<Rightarrow> if c < 0 then (None, dict_set (line_key ''price'' i) PriceMsg es) else (Some c, es))"

definition line_batch ::
  "env \<Rightarrow> db \<Rightarrow> nat \<Rightarrow> product option \<Rightarrow> string \<Rightarrow> errors \<Rightarrow> batch option \<times> errors" where
  "line_batch e d i p raw es =
     (let refused = (None, dict_set (line_key ''batch'' i) BatchRequired es) in
      case pick_batch d raw of None \<Rightarrow> refused
      | Some b \<Rightarrow>
          if (case p of None \<Rightarrow> False | Some q \<Rightarrow> b_product_id b \<noteq> p_id q)
             \<or> \<not> warehouse_allowed e (b_warehouse_id b)
          then refused else (Some b, es))"

definition resolve_line ::
  "env \<Rightarrow> db \<Rightarrow> nat \<Rightarrow> raw_line \<Rightarrow> errors \<Rightarrow> exn + resolved_line \<times> errors" where
  "resolve_line e d i raw es =
     (let (code_raw, qty_raw, price_raw, batch_raw) = raw; code = strip code_raw in
      case parse_qty qty_raw of Inl x \<Rightarrow> Inl x
      | Inr qty \<Rightarrow>
          (let es1 = (if qty \<le> 0 then dict_set (line_key ''qty'' i) QtyMsg es else es);
               (price, es2) = line_price i price_raw es1;
               p = active_product d code;
               es3 = (if p = None then dict_set (line_key ''code'' i) (ProductNotFound code) es2 else es2);
               (b, es4) = line_batch e d i p batch_raw es3
           in Inr (\<lparr>r_product = p, r_qty = qty, r_price = price, r_batch = b\<rparr>, es4)))"

fun resolve_lines ::
  "env \<Rightarrow> db \<Rightarrow> nat \<Rightarrow> raw_line list \<Rightarrow> errors \<Rightarrow> exn + resolved_line list \<times> errors" where
  "resolve_lines e d i [] es = Inr ([], es)"
| "resolve_lines e d i (raw # raws) es =
     (case resolve_line e d i raw es of Inl x \<Rightarrow> Inl x
      | Inr (r, es1) \<Rightarrow> (case resolve_lines e d (Suc i) raws es1 of Inl x \<Rightarrow> Inl x
          | Inr (rs, es2) \<Rightarrow> Inr (r # rs, es2)))"

text \<open>A line with every part known; with an empty error dict that is every line
  (\<open>resolve_lines_complete\<close> below).\<close>

definition complete_line :: "resolved_line \<Rightarrow> sale_line list" where
  "complete_line r = (case (r_product r, r_price r, r_batch r) of
     (Some p, Some c, Some b) \<Rightarrow> [\<lparr>l_product = p, l_qty = r_qty r, l_price = c, l_batch = b\<rparr>]
   | _ \<Rightarrow> [])"

definition complete_lines :: "resolved_line list \<Rightarrow> sale_line list" where
  "complete_lines rs = concat (map complete_line rs)"

section \<open>The checks on the whole basket\<close>

text \<open>The set of currencies of the picked batches' warehouses, as a list without repetitions.\<close>

definition basket_currencies :: "db \<Rightarrow> sale_line list \<Rightarrow> string list" where
  "basket_currencies d ls = remdups (map w_currency
     (filter (\<lambda>wh. w_id wh \<in> (b_warehouse_id \<circ> l_batch) ` set ls) (warehouses d)))"

fun requested_by_batch :: "sale_line list \<Rightarrow> (string \<times> int) list \<Rightarrow> (string \<times> int) list" where
  "requested_by_batch [] acc = acc"
| "requested_by_batch (l # ls) acc = requested_by_batch ls
     (dict_set (b_id (l_batch l))
        ((case map_of acc (b_id (l_batch l)) of None \<Rightarrow> 0 | Some n \<Rightarrow> n) + l_qty l) acc)"

text \<open>An oversold batch: its product and the batch (of the last line that names it), what it holds
  and what the basket takes.\<close>

definition oversold :: "sale_line list \<Rightarrow> (product \<times> batch \<times> int \<times> int) list" where
  "oversold ls = sort_key (p_name \<circ> fst) (concat (map
     (\<lambda>(k, requested). case find (\<lambda>l. b_id (l_batch l) = k) (rev ls) of
         None \<Rightarrow> []
       | Some l \<Rightarrow> if b_quantity (l_batch l) < requested
                   then [(l_product l, l_batch l, b_quantity (l_batch l), requested)] else [])
     (requested_by_batch ls [])))"

text \<open>A line priced under the card's minimum of the basket currency: product, entered, minimum.\<close>

definition below_minimum :: "string \<Rightarrow> sale_line list \<Rightarrow> (product \<times> int \<times> int) list" where
  "below_minimum ccy ls = sort_key (p_name \<circ> fst) (concat (map
     (\<lambda>l. case get_price (card_price_fields (Some ccy) ''min_sale'') (l_product l) of
         None \<Rightarrow> []
       | Some m \<Rightarrow> if l_price l < m then [(l_product l, l_price l, m)] else [])
     ls))"

section \<open>The write\<close>

record sale_form =
  sf_customer_id :: "string option"
  sf_codes :: "string list"
  sf_qtys :: "string list"
  sf_prices :: "string list"
  sf_batch_ids :: "string list"
  sf_confirm :: string
  sf_op_date :: string

text \<open>The frozen cost of a line: the batch's own, else the card's in the basket currency.\<close>

definition frozen_cost :: "string \<Rightarrow> sale_line \<Rightarrow> int option" where
  "frozen_cost ccy l = (case b_cost_cents (l_batch l) of Some c \<Rightarrow> Some c
     | None \<Rightarrow> get_price (card_price_fields (Some ccy) ''cost'') (l_product l))"

definition sale_args :: "string \<Rightarrow> string \<Rightarrow> string \<Rightarrow> sale_line \<Rightarrow> op_args" where
  "sale_args ccy sid date l =
     (move_args ''sale'' (p_id (l_product l)) (- l_qty l) (b_id (l_batch l)) (Some date))
       \<lparr>a_unit_cost_cents := frozen_cost ccy l, a_unit_price_cents := Some (l_price l),
        a_sale_id := Some sid\<rparr>"

text \<open>The write loop: rows staged so far and the running total.\<close>

fun sale_loop ::
  "env \<Rightarrow> string \<Rightarrow> string \<Rightarrow> string \<Rightarrow> sale_line list \<Rightarrow> int \<Rightarrow> world \<Rightarrow> (exn + int) \<times> world" where
  "sale_loop e ccy sid date [] tot w = (Inr tot, w)"
| "sale_loop e ccy sid date (l # ls) tot w =
     (case record_operation e (sale_args ccy sid date l) False w of
        (Inl x, w1) \<Rightarrow> (Inl x, w1)
      | (Inr o1, w1) \<Rightarrow> sale_loop e ccy sid date ls (tot + l_qty l * l_price l) w1)"

definition sale_cash_args :: "string \<Rightarrow> string \<Rightarrow> string \<Rightarrow> int \<Rightarrow> cash_args" where
  "sale_cash_args ccy sid date tot =
     \<lparr>c_category = ''sale'', c_amount_cents = tot, c_currency = ccy, c_sale_id = Some sid,
      c_note = None, c_business_date = Some date\<rparr>"

definition make_header :: "env \<Rightarrow> string option \<Rightarrow> world \<Rightarrow> sale \<times> world" where
  "make_header e customer w =
     (let (i, w1) = new_id e w; (at, w2) = utcnow_iso e w1
      in (\<lparr>s_id = i, s_customer_id = or_none (or_empty customer), s_created_at = at,
           s_created_by = operator_name e, s_author_id = None, s_device_id = Some (device_id e)\<rparr>, w2))"

text \<open>Everything from the resolved business date on; every exception of the block is caught.\<close>

definition write_sale ::
  "env \<Rightarrow> sale_form \<Rightarrow> string \<Rightarrow> sale_line list \<Rightarrow> string option \<Rightarrow> world
     \<Rightarrow> (sale \<times> nat \<times> int, (product \<times> batch \<times> int \<times> int) list \<times> (product \<times> int \<times> int) list) outcome \<times> world" where
  "write_sale e f ccy ls bd w =
     (let (date, w1) = or_today e bd w;
          (h, w2) = make_header e (sf_customer_id f) w1
      in case sale_loop e ccy (s_id h) date ls 0 (add_sale h w2) of
        (Inl x, w3) \<Rightarrow> (Errors [(''basket'', SaveRollback)], rollback w3)
      | (Inr tot, w3) \<Rightarrow>
          (case record_cash_movement e (sale_cash_args ccy (s_id h) date tot) False w3 of
            (Inl x, w4) \<Rightarrow> (Errors [(''basket'', SaveRollback)], rollback w4)
          | (Inr m, w4) \<Rightarrow> (case commit w4 of
              (Some x, w5) \<Rightarrow> (Errors [(''basket'', SaveRollback)], rollback w5)
            | (None, w5) \<Rightarrow> (Ok (h, length ls, tot), w5))))"

definition check_sale ::
  "env \<Rightarrow> sale_form \<Rightarrow> sale_line list \<Rightarrow> string option \<Rightarrow> world
     \<Rightarrow> (sale \<times> nat \<times> int, (product \<times> batch \<times> int \<times> int) list \<times> (product \<times> int \<times> int) list) outcome \<times> world" where
  "check_sale e f ls bd w =
     (case basket_currencies (cur w) ls of
        [] \<Rightarrow> (Errors [(''basket'', SaveRollback)], w)
      | [ccy] \<Rightarrow>
          if sf_confirm f \<noteq> ''1'' \<and> (oversold ls \<noteq> [] \<or> below_minimum ccy ls \<noteq> [])
          then (Warn (oversold ls, below_minimum ccy ls), w)
          else write_sale e f ccy ls bd w
      | _ \<Rightarrow> (Errors [(''basket'', MixedCurrency)], w))"

definition register_sale ::
  "env \<Rightarrow> sale_form \<Rightarrow> world
     \<Rightarrow> (sale \<times> nat \<times> int, (product \<times> batch \<times> int \<times> int) list \<times> (product \<times> int \<times> int) list) outcome \<times> world" where
  "register_sale e f w =
     (let raws = non_blank_lines (sf_codes f) (sf_qtys f) (sf_prices f) (sf_batch_ids f) in
      if raws = [] then (Errors [(''basket'', EmptyBasket)], w)
      else case resolve_lines e (cur w) 0 raws [] of
        Inl x \<Rightarrow> (Raised x, w)
      | Inr (rs, es1) \<Rightarrow>
          (let (bd, es, w1) = parse_op_date e (sf_op_date f) es1 ''op_date'' w
           in if es \<noteq> [] then (Errors es, w1) else check_sale e f (complete_lines rs) bd w1))"

definition recent_sales :: "env \<Rightarrow> db \<Rightarrow> nat \<Rightarrow> (operation \<times> product) list" where
  "recent_sales e d limit = recent_of e d (\<lambda>o1. o_type o1 = ''sale'') limit"

section \<open>Accepted lines\<close>

text \<open>The line that a raw line stands for: what an accepted basket promises of each line.\<close>

definition line_ok :: "env \<Rightarrow> db \<Rightarrow> raw_line \<Rightarrow> sale_line \<Rightarrow> bool" where
  "line_ok e d raw l = (case raw of (code, qty, price, batch) \<Rightarrow>
     active_product d (strip code) = Some (l_product l)
     \<and> parse_qty qty = Inr (l_qty l) \<and> 0 < l_qty l
     \<and> to_cents (strip price) = Inr (l_price l) \<and> 0 \<le> l_price l
     \<and> owned_batch e d (l_product l) batch = Some (l_batch l))"

lemma line_price_ok:
  "line_price i raw es = (c, []) \<Longrightarrow> es = [] \<and> (\<exists>n. c = Some n \<and> 0 \<le> n \<and> to_cents (strip raw) = Inr n)"
  by (auto simp: line_price_def split: if_splits sum.splits)

lemma line_batch_ok:
  assumes "line_batch e d i (Some p) raw es = (b, [])"
  shows "es = [] \<and> (\<exists>b'. b = Some b' \<and> owned_batch e d p raw = Some b')"
proof (cases "pick_batch d raw")
  case None
  with assms show ?thesis by (simp add: line_batch_def)
next
  case (Some c)
  with assms show ?thesis by (simp add: line_batch_def owned_batch_def Let_def split: if_splits)
qed

lemma resolve_line_ok:
  assumes "resolve_line e d i raw es = Inr (r, [])"
  shows "es = [] \<and> (\<exists>l. complete_line r = [l] \<and> line_ok e d raw l)"
proof -
  obtain code qty price bat where raw: "raw = (code, qty, price, bat)" by (cases raw)
  from assms obtain q where q: "parse_qty qty = Inr q"
    by (auto simp: resolve_line_def raw Let_def split: sum.splits)
  define es1 where "es1 = (if q \<le> 0 then dict_set (line_key ''qty'' i) QtyMsg es else es)"
  obtain c es2 where lp: "line_price i price es1 = (c, es2)" by fastforce
  define p where "p = active_product d (strip code)"
  define es3 where "es3 = (if p = None then dict_set (line_key ''code'' i) (ProductNotFound (strip code)) es2 else es2)"
  obtain b where lb: "line_batch e d i p bat es3 = (b, [])"
    and r: "r = \<lparr>r_product = p, r_qty = q, r_price = c, r_batch = b\<rparr>"
    using assms q lp by (auto simp: resolve_line_def raw es1_def es3_def p_def Let_def split: prod.splits)
  have "es3 = []" using lb by (auto simp: line_batch_def Let_def split: option.splits if_splits)
  then obtain p' where p': "p = Some p'" and "es2 = []" by (auto simp: es3_def split: if_splits)
  moreover from \<open>es2 = []\<close> lp obtain n where "c = Some n" "0 \<le> n" "to_cents (strip price) = Inr n" "es1 = []"
    using line_price_ok by blast
  moreover from \<open>es1 = []\<close> have "0 < q" "es = []" by (auto simp: es1_def split: if_splits)
  moreover obtain b' where "b = Some b'" "owned_batch e d p' bat = Some b'"
    using line_batch_ok[OF lb[unfolded p']] by auto
  ultimately show ?thesis
    using q by (auto simp: r complete_line_def line_ok_def raw p_def)
qed

lemma resolve_lines_ok:
  "resolve_lines e d i raws es = Inr (rs, []) \<Longrightarrow>
     es = [] \<and> list_all2 (line_ok e d) raws (complete_lines rs)"
proof (induction raws arbitrary: i es rs)
  case Nil
  then show ?case by (simp add: complete_lines_def)
next
  case (Cons raw raws)
  then obtain r es1 rs' where r: "resolve_line e d i raw es = Inr (r, es1)"
    and rs: "resolve_lines e d (Suc i) raws es1 = Inr (rs', [])" "rs = r # rs'"
    by (auto split: sum.splits prod.splits)
  from Cons.IH[OF rs(1)] have ih: "es1 = []" "list_all2 (line_ok e d) raws (complete_lines rs')" by auto
  with resolve_line_ok[of e d i raw es r] r show ?case
    by (auto simp: rs(2) complete_lines_def)
qed

section \<open>What the write loop stages\<close>

definition line_op :: "string \<Rightarrow> string \<Rightarrow> string \<Rightarrow> sale_line \<Rightarrow> operation \<Rightarrow> bool" where
  "line_op ccy sid date l o1 \<longleftrightarrow> o_type o1 = ''sale'' \<and> o_product_id o1 = p_id (l_product l)
     \<and> o_batch_id o1 = Some (b_id (l_batch l)) \<and> o_qty_delta o1 = - l_qty l
     \<and> o_unit_price_cents o1 = Some (l_price l) \<and> o_unit_cost_cents o1 = frozen_cost ccy l
     \<and> o_sale_id o1 = Some sid \<and> o_business_date o1 = Some date"

definition basket_total :: "sale_line list \<Rightarrow> int" where
  "basket_total ls = sum_list (map (\<lambda>l. l_qty l * l_price l) ls)"

definition basket_units :: "string \<Rightarrow> sale_line list \<Rightarrow> int" where
  "basket_units k ls = sum_where (\<lambda>l. b_id (l_batch l) = k) l_qty ls"

lemma sale_loop_saved: "sale_loop e ccy sid date ls tot w = (r, w') \<Longrightarrow> saved w' = saved w"
proof (induction ls arbitrary: tot w)
  case Nil
  then show ?case by simp
next
  case (Cons l ls)
  obtain q w1 where ro: "record_operation e (sale_args ccy sid date l) False w = (q, w1)" by fastforce
  with record_operation_saved[OF ro] Cons show ?case by (cases q) auto
qed

lemma sale_loop_ok:
  assumes "sale_loop e ccy sid date ls tot w = (Inr t, w')" and "date \<noteq> []"
  shows "\<exists>ops. cur w' = fold append_op ops (cur w) \<and> list_all2 (line_op ccy sid date) ls ops
    \<and> t = tot + basket_total ls"
  using assms(1)
proof (induction ls arbitrary: tot w)
  case Nil
  then show ?case by (simp add: basket_total_def)
next
  case (Cons l ls)
  then obtain o1 w1 where ro: "record_operation e (sale_args ccy sid date l) False w = (Inr o1, w1)"
    and rest: "sale_loop e ccy sid date ls (tot + l_qty l * l_price l) w1 = (Inr t, w')"
    by (auto split: sum.splits prod.splits)
  from Cons.IH[OF rest] obtain ops where ops: "cur w' = fold append_op ops (cur w1)"
    "list_all2 (line_op ccy sid date) ls ops" "t = tot + l_qty l * l_price l + basket_total ls" by auto
  have "line_op ccy sid date l o1"
    using recorded_fields[OF ro] assms(2) by (simp add: line_op_def sale_args_def)
  with ops show ?case
    using record_operation_Inr(2)[OF ro]
    by (intro exI[of _ "o1 # ops"]) (auto simp: basket_total_def)
qed

lemma line_ops_moves:
  "list_all2 (line_op ccy sid date) ls ops \<Longrightarrow> batch_moves k ops = - basket_units k ls"
  by (induction rule: list_all2_induct) (auto simp: batch_moves_def basket_units_def line_op_def sum_simps)

section \<open>The oversell check\<close>

lemma requested_by_batch_units:
  "map_of (requested_by_batch ls acc) k =
     (if k \<in> (b_id \<circ> l_batch) ` set ls
      then Some ((case map_of acc k of None \<Rightarrow> 0 | Some n \<Rightarrow> n) + basket_units k ls) else map_of acc k)"
proof (induction ls arbitrary: acc)
  case Nil
  then show ?case by simp
next
  case (Cons l ls)
  have zero: "k \<notin> (b_id \<circ> l_batch) ` set ls \<Longrightarrow> basket_units k ls = 0"
    unfolding basket_units_def by (rule sum_where_zero) force
  show ?case
    using zero by (auto simp: Cons.IH update_conv' basket_units_def sum_simps split: option.split)
qed

lemma oversold_empty:
  assumes none: "oversold ls = []" and l: "l \<in> set ls"
    and one: "\<And>l'. l' \<in> set ls \<Longrightarrow> b_id (l_batch l') = b_id (l_batch l) \<Longrightarrow> l_batch l' = l_batch l"
  shows "basket_units (b_id (l_batch l)) ls \<le> b_quantity (l_batch l)"
proof -
  let ?k = "b_id (l_batch l)"
  have "map_of (requested_by_batch ls []) ?k = Some (basket_units ?k ls)"
    using l by (auto simp: requested_by_batch_units)
  then have mem: "(?k, basket_units ?k ls) \<in> set (requested_by_batch ls [])" by (rule map_of_SomeD)
  obtain l' where l': "find (\<lambda>l. b_id (l_batch l) = ?k) (rev ls) = Some l'"
    using l by (cases "find (\<lambda>l. b_id (l_batch l) = ?k) (rev ls)") (auto simp: find_None_iff)
  then have "l_batch l' = l_batch l" using one by (auto simp: find_Some_iff) (metis nth_mem set_rev length_rev)
  moreover have "\<not> b_quantity (l_batch l') < basket_units ?k ls"
  proof
    assume "b_quantity (l_batch l') < basket_units ?k ls"
    then have "(l_product l', l_batch l', b_quantity (l_batch l'), basket_units ?k ls) \<in> set (oversold ls)"
      using mem l' by (force simp: oversold_def)
    with none show False by simp
  qed
  ultimately show ?thesis by simp
qed

section \<open>What a sale does\<close>

lemma make_header_frame:
  "make_header e c w = (h, w') \<Longrightarrow> cur w' = cur w \<and> saved w' = saved w \<and> bad w' = bad w"
  by (auto simp: make_header_def new_id_def utcnow_iso_def)

lemma write_sale_fail:
  assumes "write_sale e f ccy ls bd w = (r, w')" and "\<not> is_Ok r"
  shows "saved w' = saved w"
proof -
  obtain date w1 where d: "or_today e bd w = (date, w1)" by fastforce
  obtain h w2 where h: "make_header e (sf_customer_id f) w1 = (h, w2)" by fastforce
  obtain q w3 where lp: "sale_loop e ccy (s_id h) date ls 0 (add_sale h w2) = (q, w3)" by fastforce
  have s3: "saved w3 = saved w"
    using sale_loop_saved[OF lp] or_today_frame[OF d] make_header_frame[OF h] by simp
  show ?thesis
  proof (cases q)
    case (Inl x)
    with assms s3 show ?thesis by (auto simp: write_sale_def d h lp)
  next
    case (Inr t)
    obtain c w4 where rc: "record_cash_movement e (sale_cash_args ccy (s_id h) date t) False w3 = (c, w4)"
      by fastforce
    have "saved w4 = saved w" using record_cash_saved[OF rc] s3 by simp
    with assms show ?thesis
      by (auto simp: write_sale_def d h lp rc Inr split: sum.splits prod.splits option.splits dest: commit_Some)
  qed
qed

text \<open>A basket that is not sold (any invalid line, a bad date, mixed currencies, a warning that
  waits for confirmation, an exception while writing) leaves the committed database as it was:
  no header, no row, no cash.\<close>

lemma sale_all_or_nothing:
  assumes "register_sale e f w = (r, w')" and "\<not> is_Ok r"
  shows "saved w' = saved w"
proof -
  let ?raws = "non_blank_lines (sf_codes f) (sf_qtys f) (sf_prices f) (sf_batch_ids f)"
  show ?thesis
  proof (cases "resolve_lines e (cur w) 0 ?raws []")
    case (Inl x)
    with assms(1) show ?thesis by (auto simp: register_sale_def Let_def split: if_splits)
  next
    case (Inr a)
    obtain rs es1 where a: "a = (rs, es1)" by (cases a)
    obtain bd es w1 where pd: "parse_op_date e (sf_op_date f) es1 ''op_date'' w = (bd, es, w1)"
      by (metis prod_cases3)
    have "saved w1 = saved w" using parse_op_date_frame[OF pd] by simp
    with assms show ?thesis
      by (auto simp: register_sale_def Let_def Inr a pd check_sale_def dest: write_sale_fail
          split: if_splits list.splits)
  qed
qed

lemma write_sale_ok:
  assumes "write_sale e f ccy ls bd w = (Ok (h, n, t), w')"
  shows "\<exists>ops m date. saved w' = add_cash_row m (fold append_op ops (add_sale_row h (cur w)))
    \<and> list_all2 (line_op ccy (s_id h) date) ls ops \<and> n = length ls \<and> t = basket_total ls
    \<and> m_category m = ''sale'' \<and> m_amount_cents m = t \<and> m_currency m = ccy
    \<and> m_sale_id m = Some (s_id h) \<and> m_business_date m = Some date \<and> (bd = None \<or> bd = Some date \<or> bd = Some [])"
proof -
  obtain date w1 where d: "or_today e bd w = (date, w1)" by fastforce
  obtain h' w2 where h: "make_header e (sf_customer_id f) w1 = (h', w2)" by fastforce
  note fd = or_today_frame[OF d] and fh = make_header_frame[OF h]
  obtain t' w3 where lp: "sale_loop e ccy (s_id h') date ls 0 (add_sale h' w2) = (Inr t', w3)"
    using assms by (auto simp: write_sale_def d h split: sum.splits prod.splits)
  obtain m w4 where rc: "record_cash_movement e (sale_cash_args ccy (s_id h') date t') False w3 = (Inr m, w4)"
    using assms by (auto simp: write_sale_def d h lp split: sum.splits prod.splits)
  have cm: "commit w4 = (None, w')" and eq: "h = h'" "n = length ls" "t = t'"
    using assms by (auto simp: write_sale_def d h lp rc split: prod.splits option.splits)
  from sale_loop_ok[OF lp fd(3)] obtain ops where ops: "cur w3 = fold append_op ops (add_sale_row h' (cur w))"
    "list_all2 (line_op ccy (s_id h') date) ls ops" "t' = basket_total ls" using fd fh by auto
  from record_cash_Inr(1)[OF rc] obtain w5 where mk: "make_cash e (sale_cash_args ccy (s_id h') date t') w3 = (m, w5)"
    by auto
  note fm = make_cash_frame[OF mk]
  have "m_business_date m = Some date" using fm(10) fd(3) by (simp add: sale_cash_args_def or_today_given)
  then show ?thesis
    using ops commit_None[OF cm] record_cash_Inr(2)[OF rc] fm eq fd(4)
    by (intro exI[of _ ops] exI[of _ m] exI[of _ date]) (simp add: sale_cash_args_def)
qed

lemma register_sale_ok:
  assumes "register_sale e f w = (Ok (h, n, t), w')"
  obtains ls bd w1 ccy where
    "list_all2 (line_ok e (cur w)) (non_blank_lines (sf_codes f) (sf_qtys f) (sf_prices f) (sf_batch_ids f)) ls"
    "ls \<noteq> []" "cur w1 = cur w" "basket_currencies (cur w) ls = [ccy]"
    "sf_confirm f = ''1'' \<or> oversold ls = [] \<and> below_minimum ccy ls = []"
    "parse_op_date e (sf_op_date f) [] ''op_date'' w = (bd, [], w1)"
    "write_sale e f ccy ls bd w1 = (Ok (h, n, t), w')"
proof -
  let ?raws = "non_blank_lines (sf_codes f) (sf_qtys f) (sf_prices f) (sf_batch_ids f)"
  from assms obtain rs es1 where rl: "resolve_lines e (cur w) 0 ?raws [] = Inr (rs, es1)" and ne: "?raws \<noteq> []"
    by (auto simp: register_sale_def Let_def split: if_splits sum.splits)
  obtain bd es w1 where pd: "parse_op_date e (sf_op_date f) es1 ''op_date'' w = (bd, es, w1)"
    by (metis prod_cases3)
  from assms rl ne pd have es: "es = []" and ck: "check_sale e f (complete_lines rs) bd w1 = (Ok (h, n, t), w')"
    by (auto simp: register_sale_def Let_def split: if_splits)
  then have es1: "es1 = []" using parse_op_date_ok(1) pd by blast
  with resolve_lines_ok rl have la: "list_all2 (line_ok e (cur w)) ?raws (complete_lines rs)" by blast
  with ne have "complete_lines rs \<noteq> []" by auto
  moreover have c: "cur w1 = cur w" using parse_op_date_frame[OF pd] by simp
  ultimately show thesis
    using that la es es1 pd ck by (auto simp: check_sale_def split: list.splits if_splits)
qed

text \<open>C19: an accepted sale is exactly its basket. With the lines that the raw basket stands for (the
  active product, the picked batch of that product in one of the operator's warehouses, the
  typed quantity and price), the commit adds the header, one \<open>sale\<close> row per line in order with
  minus the quantity, the typed price and the frozen cost, and one cash row of the basket total
  in the basket's single currency; the rows and the cash carry one and the same business date.\<close>

theorem sale_effect:
  assumes "register_sale e f w = (Ok (h, n, t), w')"
  shows "\<exists>ls ops m ccy date.
     list_all2 (line_ok e (cur w)) (non_blank_lines (sf_codes f) (sf_qtys f) (sf_prices f) (sf_batch_ids f)) ls
     \<and> basket_currencies (cur w) ls = [ccy]
     \<and> saved w' = add_cash_row m (fold append_op ops (add_sale_row h (cur w)))
     \<and> list_all2 (line_op ccy (s_id h) date) ls ops
     \<and> n = length ls \<and> t = basket_total ls
     \<and> m_category m = ''sale'' \<and> m_amount_cents m = t \<and> m_currency m = ccy
     \<and> m_sale_id m = Some (s_id h) \<and> m_business_date m = Some date"
proof -
  from assms obtain ls bd w1 ccy where
    "list_all2 (line_ok e (cur w)) (non_blank_lines (sf_codes f) (sf_qtys f) (sf_prices f) (sf_batch_ids f)) ls"
    "cur w1 = cur w" "basket_currencies (cur w) ls = [ccy]" and ws: "write_sale e f ccy ls bd w1 = (Ok (h, n, t), w')"
    by (rule register_sale_ok)
  with write_sale_ok[OF ws] show ?thesis by metis
qed

lemma line_ok_batch: "line_ok e d raw l \<Longrightarrow> get_batch d (b_id (l_batch l)) = Some (l_batch l)"
  by (auto simp: line_ok_def dest: owned_batchD split: prod.splits)

lemma line_ok_positive: "list_all2 (line_ok e d) raws ls \<Longrightarrow> \<forall>l \<in> set ls. 0 < l_qty l"
  by (induction rule: list_all2_induct) (auto simp: line_ok_def split: prod.splits)

text \<open>A sale that was not confirmed never drives a picked batch below zero: after the commit each
  batch of the basket holds what it held minus the units of all its lines, and that is not
  negative. The same batch on several lines is counted once with the sum of its lines.\<close>

theorem unconfirmed_sale_in_stock:
  assumes "register_sale e f w = (Ok (h, n, t), w')" and "sf_confirm f \<noteq> ''1''"
  shows "\<exists>ls. list_all2 (line_ok e (cur w)) (non_blank_lines (sf_codes f) (sf_qtys f) (sf_prices f) (sf_batch_ids f)) ls
     \<and> (\<forall>l \<in> set ls. map_option b_quantity (get_batch (saved w') (b_id (l_batch l)))
            = Some (b_quantity (l_batch l) - basket_units (b_id (l_batch l)) ls)
          \<and> 0 \<le> b_quantity (l_batch l) - basket_units (b_id (l_batch l)) ls)"
proof -
  from assms(1) obtain ls bd w1 ccy where
    la: "list_all2 (line_ok e (cur w)) (non_blank_lines (sf_codes f) (sf_qtys f) (sf_prices f) (sf_batch_ids f)) ls"
    and c: "cur w1 = cur w" and chk: "sf_confirm f = ''1'' \<or> oversold ls = [] \<and> below_minimum ccy ls = []"
    and ws: "write_sale e f ccy ls bd w1 = (Ok (h, n, t), w')"
    by (rule register_sale_ok)
  from write_sale_ok[OF ws] obtain ops m date where
    sv: "saved w' = add_cash_row m (fold append_op ops (add_sale_row h (cur w)))"
    and lo: "list_all2 (line_op ccy (s_id h) date) ls ops" using c by auto
  have gb: "get_batch (cur w) (b_id (l_batch l)) = Some (l_batch l)" if "l \<in> set ls" for l
    using la that by (auto simp: list_all2_conv_all_nth in_set_conv_nth intro: line_ok_batch)
  have "basket_units (b_id (l_batch l)) ls \<le> b_quantity (l_batch l)" if "l \<in> set ls" for l
    using chk assms(2) gb that by (intro oversold_empty) (auto, metis option.inject)
  moreover have "map_option b_quantity (get_batch (saved w') (b_id (l_batch l)))
      = Some (b_quantity (l_batch l) - basket_units (b_id (l_batch l)) ls)" if "l \<in> set ls" for l
    using batch_after_ops[of "b_id (l_batch l)" ops "add_sale_row h (cur w)"] gb[OF that]
    by (simp add: sv line_ops_moves[OF lo])
  ultimately show ?thesis using la by auto
qed

context write_path
begin

lemma keeps_sale_loop:
  "keeps P w \<Longrightarrow> \<forall>l \<in> set ls. 0 < l_qty l \<Longrightarrow> keeps P (snd (sale_loop e ccy sid date ls tot w))"
proof (induction ls arbitrary: tot w)
  case Nil
  then show ?case by simp
next
  case (Cons l ls)
  have "keeps P (snd (record_operation e (sale_args ccy sid date l) False w))"
    using Cons.prems
    by (intro keeps_record_operation) (simp_all add: sale_args_def args_admitted_def STOCK_AFFECTING_TYPES_def)
  with Cons.prems show ?case using Cons.IH by (auto simp: split_beta split: sum.split)
qed

lemma keeps_make_header: "keeps P w \<Longrightarrow> keeps P (snd (make_header e c w))"
  by (simp add: make_header_def split_beta)

lemma keeps_write_sale:
  "keeps P w \<Longrightarrow> \<forall>l \<in> set ls. 0 < l_qty l \<Longrightarrow> keeps P (snd (write_sale e f ccy ls bd w))"
  unfolding write_sale_def Let_def split_beta
  by (auto split: sum.split option.split intro!: keeps_steps keeps_sale_loop keeps_make_header)

lemma keeps_register_sale:
  assumes "keeps P w"
  shows "keeps P (snd (register_sale e f w))"
proof (cases "resolve_lines e (cur w) 0 (non_blank_lines (sf_codes f) (sf_qtys f) (sf_prices f) (sf_batch_ids f)) []")
  case (Inl x)
  with assms show ?thesis by (simp add: register_sale_def Let_def)
next
  case (Inr r)
  obtain rs es1 where r: "r = (rs, es1)" by (cases r)
  obtain bd es w1 where pd: "parse_op_date e (sf_op_date f) es1 ''op_date'' w = (bd, es, w1)"
    by (metis prod_cases3)
  have k: "keeps P w1" using keeps_parse_op_date[OF assms, of "sf_op_date f" es1 "''op_date''"] by (simp add: pd)
  have "\<forall>l \<in> set (complete_lines rs). 0 < l_qty l" if "es = []"
  proof -
    from that have "es1 = []" using parse_op_date_ok(1) pd by blast
    with Inr r show ?thesis using resolve_lines_ok line_ok_positive by blast
  qed
  with assms k Inr show ?thesis
    by (auto simp: register_sale_def check_sale_def Let_def r pd keeps_write_sale split: list.split)
qed

end

end
