(* ===== verification/Returns.thy ===== *)
theory Returns
  imports Moves
begin

text \<open>
  \<open>src/app/services/returns.py\<close>: a return of one sold line. It is capped by what that sale sold of
  the product and has not taken back yet, it goes back to the batch the line was sold from (for
  a row older than batches, to the product's legacy batch, created on the spot when missing), and
  the row and the refund repeat the price and the cost frozen in the sale.
\<close>

definition DEFAULT_WAREHOUSE_ID :: string where
  "DEFAULT_WAREHOUSE_ID = ''00000000-0000-4000-8000-000000000010''"

text \<open>The Russian comment of the seeded legacy batches, in Latin letters.\<close>

definition LEGACY_BATCH_COMMENT :: string where
  "LEGACY_BATCH_COMMENT = ''Ostatok do vnedreniya partij''"

definition resolve_return_batch :: "db \<Rightarrow> operation \<Rightarrow> batch option" where
  "resolve_return_batch d origin = (case o_batch_id origin of
     Some k \<Rightarrow> get_batch d k | None \<Rightarrow> legacy_batch d (o_product_id origin))"

definition origin_allowed :: "env \<Rightarrow> db \<Rightarrow> operation \<Rightarrow> bool" where
  "origin_allowed e d origin = warehouse_allowed e (case resolve_return_batch d origin of
     Some b \<Rightarrow> b_warehouse_id b | None \<Rightarrow> DEFAULT_WAREHOUSE_ID)"

definition new_legacy_batch :: "string \<Rightarrow> string \<Rightarrow> string \<Rightarrow> batch" where
  "new_legacy_batch i pid at =
     \<lparr>b_id = i, b_product_id = pid, b_warehouse_id = DEFAULT_WAREHOUSE_ID, b_expiry = None,
      b_price_cents = None, b_cost_cents = None, b_location = None,
      b_comment = Some LEGACY_BATCH_COMMENT, b_name = None, b_quantity = 0, b_is_legacy = True,
      b_created_at = at\<rparr>"

text \<open>\<open>_resolve_or_create_return_batch_id\<close>; the flush of a new batch may raise.\<close>

definition resolve_or_create_return_batch_id :: "env \<Rightarrow> operation \<Rightarrow> world \<Rightarrow> (exn + string) \<times> world" where
  "resolve_or_create_return_batch_id e origin w =
     (case o_batch_id origin of
        Some k \<Rightarrow> (Inr k, w)
      | None \<Rightarrow> (case legacy_batch (cur w) (o_product_id origin) of
          Some b \<Rightarrow> (Inr (b_id b), w)
        | None \<Rightarrow>
            (let (i, w1) = new_id e w; (at, w2) = utcnow_iso e w1;
                 w3 = add_batch (new_legacy_batch i (o_product_id origin) at) w2
             in case flush w3 of Some x \<Rightarrow> (Inl x, w3) | None \<Rightarrow> (Inr i, w3))))"

definition return_args :: "operation \<Rightarrow> int \<Rightarrow> string \<Rightarrow> string \<Rightarrow> op_args" where
  "return_args origin qty k date =
     (move_args ''return'' (o_product_id origin) qty k (Some date))
       \<lparr>a_unit_price_cents := o_unit_price_cents origin, a_unit_cost_cents := o_unit_cost_cents origin,
        a_sale_id := o_sale_id origin, a_payload := Some (P_return (o_id origin))\<rparr>"

definition return_debit :: "operation \<Rightarrow> int \<Rightarrow> int" where
  "return_debit origin qty = qty * (case o_unit_price_cents origin of None \<Rightarrow> 0 | Some c \<Rightarrow> c)"

definition refund_args :: "operation \<Rightarrow> int \<Rightarrow> string \<Rightarrow> string \<Rightarrow> cash_args" where
  "refund_args origin qty ccy date =
     \<lparr>c_category = ''return'', c_amount_cents = - return_debit origin qty, c_currency = ccy,
      c_sale_id = o_sale_id origin, c_note = None, c_business_date = Some date\<rparr>"

text \<open>The currency of the warehouse the goods go back to; \<open>None\<close> when the batch or the warehouse is
  missing.\<close>

definition return_currency :: "db \<Rightarrow> string \<Rightarrow> string option" where
  "return_currency d k = (case get_batch d k of None \<Rightarrow> None
     | Some b \<Rightarrow> map_option w_currency (get_warehouse d (b_warehouse_id b)))"

text \<open>\<open>except ValueError\<close> and \<open>except IntegrityError\<close>.\<close>

definition return_failed :: "exn \<Rightarrow> world \<Rightarrow> ('a, unit) outcome \<times> world" where
  "return_failed x w =
     (Errors [(''form'', if is_value_error x then ProductUnavailable else SaveFailed)], rollback w)"

definition close_return ::
  "operation \<Rightarrow> operation \<Rightarrow> int \<Rightarrow> world \<Rightarrow> (product option \<times> operation \<times> int, unit) outcome \<times> world" where
  "close_return origin o1 remaining w =
     (case commit w of
        (Some x, w1) \<Rightarrow> return_failed x w1
      | (None, w1) \<Rightarrow> (Ok (get_product (cur w1) (o_product_id origin), o1, remaining), w1))"

definition write_return ::
  "env \<Rightarrow> operation \<Rightarrow> int \<Rightarrow> int \<Rightarrow> string option \<Rightarrow> world
     \<Rightarrow> (product option \<times> operation \<times> int, unit) outcome \<times> world" where
  "write_return e origin qty remaining bd w =
     (let (date, w1) = or_today e bd w in
      case resolve_or_create_return_batch_id e origin w1 of
        (Inl x, w2) \<Rightarrow> return_failed x w2
      | (Inr k, w2) \<Rightarrow>
         (case record_operation e (return_args origin qty k date) False w2 of
            (Inl x, w3) \<Rightarrow> return_failed x w3
          | (Inr o1, w3) \<Rightarrow>
              if return_debit origin qty = 0 then close_return origin o1 (remaining - qty) w3
              else (case return_currency (cur w3) k of
                  None \<Rightarrow> (Errors [(''form'', SaveFailed)], rollback w3)
                | Some ccy \<Rightarrow>
                    (case record_cash_movement e (refund_args origin qty ccy date) False w3 of
                       (Inl x, w4) \<Rightarrow> return_failed x w4
                     | (Inr m, w4) \<Rightarrow> close_return origin o1 (remaining - qty) w4))))"

definition register_return ::
  "env \<Rightarrow> string \<Rightarrow> string \<Rightarrow> string \<Rightarrow> world
     \<Rightarrow> (product option \<times> operation \<times> int, unit) outcome \<times> world" where
  "register_return e oid qty_raw op_date w =
     (case get_operation (cur w) oid of
        None \<Rightarrow> (Errors [(''form'', OriginNotFound)], w)
      | Some origin \<Rightarrow> (case o_sale_id origin of
          None \<Rightarrow> (Errors [(''form'', OriginNotFound)], w)
        | Some sid \<Rightarrow>
            if o_type origin \<noteq> ''sale'' \<or> \<not> origin_allowed e (cur w) origin
            then (Errors [(''form'', OriginNotFound)], w)
            else (case parse_qty qty_raw of
                Inl x \<Rightarrow> (Raised x, w)
              | Inr qty \<Rightarrow>
                  if qty \<le> 0 then (Errors [(''quantity'', QtyMsg)], w)
                  else (let remaining = returnable_qty (cur w) sid (o_product_id origin) in
                    if remaining \<le> 0 then (Errors [(''quantity'', FullyReturned)], w)
                    else if remaining < qty then (Errors [(''quantity'', OverCap remaining)], w)
                    else (let (bd, es, w1) = parse_op_date e op_date [] ''op_date'' w
                      in if es \<noteq> [] then (Errors es, w1)
                         else write_return e origin qty remaining bd w1)))))"

section \<open>What a return does\<close>

lemma resolve_or_create_cases:
  assumes "resolve_or_create_return_batch_id e origin w = (r, w')"
  obtains (existing) k where "r = Inr k" "w' = w"
      "o_batch_id origin = Some k \<or> o_batch_id origin = None
         \<and> (\<exists>b. legacy_batch (cur w) (o_product_id origin) = Some b \<and> k = b_id b)"
  | (created) i at where "o_batch_id origin = None" "legacy_batch (cur w) (o_product_id origin) = None"
      "cur w' = add_batch_row (new_legacy_batch i (o_product_id origin) at) (cur w)" "saved w' = saved w"
      "r = Inr i \<or> (\<exists>x. r = Inl x)"
proof (cases "o_batch_id origin")
  case (Some k)
  with assms existing[of k] show thesis by (simp add: resolve_or_create_return_batch_id_def)
next
  case None
  show thesis
  proof (cases "legacy_batch (cur w) (o_product_id origin)")
    case (Some b)
    with None assms existing[of "b_id b"] show thesis by (simp add: resolve_or_create_return_batch_id_def)
  next
    case no: None
    obtain i w1 where i: "new_id e w = (i, w1)" by fastforce
    obtain at w2 where at: "utcnow_iso e w1 = (at, w2)" by fastforce
    have f: "cur w2 = cur w" "saved w2 = saved w"
      using i at by (auto simp: new_id_def utcnow_iso_def)
    show thesis
      using assms None no i at f created[of i at]
      by (auto simp: resolve_or_create_return_batch_id_def Let_def split: option.splits)
  qed
qed

lemma resolve_or_create_operations:
  "operations (cur (snd (resolve_or_create_return_batch_id e origin w))) = operations (cur w)"
  by (rule resolve_or_create_cases[OF prod.collapse[symmetric], of e origin w]) auto

lemma parse_op_date_cur: "cur (snd (snd (parse_op_date e raw es key w))) = cur w"
  by (cases "parse_op_date e raw es key w") (auto dest: parse_op_date_frame)

lemma resolve_or_create_saved:
  "resolve_or_create_return_batch_id e origin w = (r, w') \<Longrightarrow> saved w' = saved w"
  by (erule resolve_or_create_cases) auto

lemma close_return_fail: "close_return origin o1 n w = (r, w') \<Longrightarrow> \<not> is_Ok r \<Longrightarrow> saved w' = saved w"
  by (auto simp: close_return_def return_failed_def dest: commit_Some split: prod.splits option.splits)

lemma write_return_fail:
  assumes "write_return e origin qty remaining bd w = (r, w')" and "\<not> is_Ok r"
  shows "saved w' = saved w"
proof -
  obtain date w1 where d: "or_today e bd w = (date, w1)" by fastforce
  obtain q w2 where rb: "resolve_or_create_return_batch_id e origin w1 = (q, w2)" by fastforce
  have s2: "saved w2 = saved w" using or_today_frame[OF d] resolve_or_create_saved[OF rb] by simp
  show ?thesis
  proof (cases q)
    case (Inl x)
    with assms s2 show ?thesis by (auto simp: write_return_def d rb return_failed_def)
  next
    case (Inr k)
    obtain r3 w3 where ro: "record_operation e (return_args origin qty k date) False w2 = (r3, w3)" by fastforce
    have s3: "saved w3 = saved w" using record_operation_saved[OF ro] s2 by simp
    show ?thesis
    proof (cases r3)
      case (Inl x)
      with assms s3 show ?thesis by (auto simp: write_return_def d rb Inr ro return_failed_def)
    next
      case r3: (Inr o1)
      have step: "(r, w') = (if return_debit origin qty = 0 then close_return origin o1 (remaining - qty) w3
          else (case return_currency (cur w3) k of
                  None \<Rightarrow> (Errors [(''form'', SaveFailed)], rollback w3)
                | Some ccy \<Rightarrow>
                    (case record_cash_movement e (refund_args origin qty ccy date) False w3 of
                       (Inl x, w4) \<Rightarrow> return_failed x w4
                     | (Inr m, w4) \<Rightarrow> close_return origin o1 (remaining - qty) w4)))"
        using assms(1) by (simp add: write_return_def d rb Inr ro r3)
      have c4: "saved w4 = saved w" if "record_cash_movement e a False w3 = (q4, w4)" for a q4 w4
        using record_cash_saved[OF that] s3 by simp
      show ?thesis
        using step assms(2) s3
        by (auto simp: return_failed_def dest!: c4 close_return_fail[OF sym]
            split: if_splits option.splits sum.splits prod.splits)
    qed
  qed
qed

text \<open>A return that is refused (an unknown or foreign origin, a bad quantity or date, more than is
  left to return, a failed save) leaves the committed database as it was.\<close>

lemma return_all_or_nothing:
  assumes "register_return e oid qty_raw op_date w = (r, w')" and "\<not> is_Ok r"
  shows "saved w' = saved w"
proof -
  obtain bd es w1 where pd: "parse_op_date e op_date [] ''op_date'' w = (bd, es, w1)"
    by (metis prod_cases3)
  have "saved w1 = saved w" using parse_op_date_frame[OF pd] by simp
  with assms show ?thesis
    by (auto simp: register_return_def pd Let_def dest: write_return_fail
        split: option.splits if_splits sum.splits)
qed

lemma close_return_ok:
  "close_return origin o1 n w = (Ok (p, o2, m), w') \<Longrightarrow> o2 = o1 \<and> m = n \<and> saved w' = cur w"
  by (auto simp: close_return_def return_failed_def dest: commit_None split: prod.splits option.splits)

text \<open>The state a return starts its row from: the database itself, or with the new legacy batch.\<close>

definition return_base :: "operation \<Rightarrow> db \<Rightarrow> db \<Rightarrow> bool" where
  "return_base origin d d' \<longleftrightarrow> d' = d \<or> o_batch_id origin = None
     \<and> legacy_batch d (o_product_id origin) = None
     \<and> (\<exists>i at. d' = add_batch_row (new_legacy_batch i (o_product_id origin) at) d)"

lemma write_return_ok:
  assumes "write_return e origin qty remaining bd w = (Ok (p, o1, n), w')"
  shows "\<exists>d date k. return_base origin (cur w) d \<and> n = remaining - qty
    \<and> o_type o1 = ''return'' \<and> o_product_id o1 = o_product_id origin \<and> o_qty_delta o1 = qty
    \<and> o_unit_price_cents o1 = o_unit_price_cents origin \<and> o_unit_cost_cents o1 = o_unit_cost_cents origin
    \<and> o_sale_id o1 = o_sale_id origin \<and> o_payload o1 = Some (P_return (o_id origin))
    \<and> o_business_date o1 = Some date \<and> o_batch_id o1 = Some k
    \<and> (o_batch_id origin = None \<or> o_batch_id origin = Some k)
    \<and> (if return_debit origin qty = 0 then saved w' = append_op o1 d
       else \<exists>m ccy. saved w' = add_cash_row m (append_op o1 d) \<and> return_currency (append_op o1 d) k = Some ccy
         \<and> m_category m = ''return'' \<and> m_amount_cents m = - return_debit origin qty
         \<and> m_currency m = ccy \<and> m_sale_id m = o_sale_id origin \<and> m_business_date m = Some date)"
proof -
  obtain date w1 where d: "or_today e bd w = (date, w1)" by fastforce
  note fd = or_today_frame[OF d]
  obtain k w2 where rb: "resolve_or_create_return_batch_id e origin w1 = (Inr k, w2)"
    using assms by (auto simp: write_return_def d return_failed_def split: sum.splits prod.splits)
  have base: "return_base origin (cur w) (cur w2) \<and> (o_batch_id origin = None \<or> o_batch_id origin = Some k)"
    using rb
  proof (cases rule: resolve_or_create_cases)
    case (existing j)
    with fd show ?thesis by (auto simp: return_base_def)
  next
    case (created i at)
    then show ?thesis unfolding return_base_def fd(1) by blast
  qed
  obtain o2 w3 where ro: "record_operation e (return_args origin qty k date) False w2 = (Inr o2, w3)"
    using assms by (auto simp: write_return_def d rb return_failed_def split: sum.splits prod.splits)
  note fields = recorded_fields[OF ro] and post = record_operation_Inr(2)[OF ro]
  show ?thesis
  proof (cases "return_debit origin qty = 0")
    case True
    then have "close_return origin o2 (remaining - qty) w3 = (Ok (p, o1, n), w')"
      using assms by (simp add: write_return_def d rb ro)
    with close_return_ok have "o1 = o2" "n = remaining - qty" "saved w' = cur w3" by fastforce+
    with base fields post fd(3) True show ?thesis
      by - (rule exI[of _ "cur w2"], rule exI[of _ date], rule exI[of _ k], simp add: return_args_def)
  next
    case False
    obtain ccy where cy: "return_currency (cur w3) k = Some ccy"
      using assms False by (auto simp: write_return_def d rb ro split: option.splits)
    obtain m w4 where rc: "record_cash_movement e (refund_args origin qty ccy date) False w3 = (Inr m, w4)"
      and cl: "close_return origin o2 (remaining - qty) w4 = (Ok (p, o1, n), w')"
      using assms False by (auto simp: write_return_def d rb ro cy return_failed_def split: sum.splits prod.splits)
    from record_cash_Inr(1)[OF rc] obtain w5 where mk: "make_cash e (refund_args origin qty ccy date) w3 = (m, w5)"
      by auto
    note fm = make_cash_frame[OF mk]
    have "m_business_date m = Some date" using fm(10) fd(3) by (simp add: refund_args_def or_today_given)
    moreover from cl close_return_ok have "o1 = o2" "n = remaining - qty" "saved w' = cur w4" by fastforce+
    ultimately show ?thesis
      using base fields post fd(3) False record_cash_Inr(2)[OF rc] fm cy
      by - (rule exI[of _ "cur w2"], rule exI[of _ date], rule exI[of _ k],
            auto simp: return_args_def refund_args_def intro!: exI[of _ m])
  qed
qed

lemma register_return_ok:
  assumes "register_return e oid qty_raw op_date w = (Ok (p, o1, n), w')"
  obtains origin sid qty bd w1 where "get_operation (cur w) oid = Some origin"
    "o_sale_id origin = Some sid" "o_type origin = ''sale''" "origin_allowed e (cur w) origin"
    "parse_qty qty_raw = Inr qty" "0 < qty" "qty \<le> returnable_qty (cur w) sid (o_product_id origin)"
    "cur w1 = cur w"
    "write_return e origin qty (returnable_qty (cur w) sid (o_product_id origin)) bd w1 = (Ok (p, o1, n), w')"
proof -
  obtain bd es w1 where pd: "parse_op_date e op_date [] ''op_date'' w = (bd, es, w1)"
    by (metis prod_cases3)
  have "cur w1 = cur w" using parse_op_date_frame[OF pd] by simp
  with assms that show thesis
    by (auto simp: register_return_def pd Let_def split: option.splits if_splits sum.splits)
qed


lemma returnable_frame:
  "returnable_qty (add_cash_row m d) sid pid = returnable_qty d sid pid"
  "returnable_qty (add_batch_row b d) sid pid = returnable_qty d sid pid"
  by (simp_all add: returnable_qty_def sold_qty_def returned_qty_def)

lemma returnable_return:
  "o_type o1 = ''return'' \<Longrightarrow> returnable_qty (append_op o1 d) sid pid = returnable_qty d sid pid
     - (if o_sale_id o1 = Some sid \<and> o_product_id o1 = pid then o_qty_delta o1 else 0)"
  by (simp add: returnable_qty_def sold_qty_def returned_qty_def sum_simps)

text \<open>The return cap. After an accepted return, what is left to return of that product in that sale
  is what was left before minus the quantity, it is the reported remainder, and it is never
  negative: no sequence of accepted returns takes back more than the sale sold.\<close>

theorem return_cap:
  assumes "register_return e oid qty_raw op_date w = (Ok (p, o1, n), w')"
  shows "\<exists>origin sid. get_operation (cur w) oid = Some origin \<and> o_sale_id origin = Some sid
    \<and> n = returnable_qty (saved w') sid (o_product_id origin) \<and> 0 \<le> n
    \<and> n = returnable_qty (cur w) sid (o_product_id origin) - o_qty_delta o1
    \<and> returned_qty (saved w') sid (o_product_id origin) \<le> sold_qty (saved w') sid (o_product_id origin)"
  using assms
proof (rule register_return_ok)
  fix origin sid qty bd w1
  assume h: "get_operation (cur w) oid = Some origin" "o_sale_id origin = Some sid" "cur w1 = cur w"
    and q: "qty \<le> returnable_qty (cur w) sid (o_product_id origin)"
    and wr: "write_return e origin qty (returnable_qty (cur w) sid (o_product_id origin)) bd w1 = (Ok (p, o1, n), w')"
  from write_return_ok[OF wr] obtain d where d: "return_base origin (cur w) d"
    and n: "n = returnable_qty (cur w) sid (o_product_id origin) - qty"
    and o1: "o_type o1 = ''return''" "o_product_id o1 = o_product_id origin" "o_qty_delta o1 = qty"
      "o_sale_id o1 = o_sale_id origin"
    and sv: "saved w' = append_op o1 d \<or> (\<exists>m. saved w' = add_cash_row m (append_op o1 d))"
    unfolding h(3) by (metis (no_types, lifting))
  have "returnable_qty d sid pid = returnable_qty (cur w) sid pid" for pid
    using d by (auto simp: return_base_def returnable_frame)
  then have "returnable_qty (saved w') sid (o_product_id origin) = n"
    using sv n o1 h(2) by (auto simp: returnable_frame returnable_return)
  with h n q o1 show ?thesis by (auto simp: returnable_qty_def)
qed

lemma legacy_batch_None: "legacy_batch d pid = None \<Longrightarrow> \<not> has_legacy d pid"
  by (auto simp: legacy_batch_def has_legacy_def find_None_iff list_ex_iff)

context write_path
begin

lemma keeps_resolve_or_create:
  assumes "keeps P w"
  shows "keeps P (snd (resolve_or_create_return_batch_id e origin w))"
proof -
  have "keeps P (add_batch (new_legacy_batch i (o_product_id origin) at) (snd (utcnow_iso e (snd (new_id e w)))))"
    if "legacy_batch (cur w) (o_product_id origin) = None" for i at
    using assms legacy_batch_None[OF that] by (intro keeps_add_batch) (simp_all add: new_legacy_batch_def)
  with assms show ?thesis
    by (auto simp: resolve_or_create_return_batch_id_def Let_def split_beta split: option.splits)
qed

lemma keeps_close_return: "keeps P w \<Longrightarrow> keeps P (snd (close_return origin o1 n w))"
  by (auto simp: close_return_def return_failed_def split_beta split: option.splits intro!: keeps_steps)

lemma keeps_return_args:
  "keeps P w \<Longrightarrow> o_sale_id origin = Some sid \<Longrightarrow> qty \<le> returnable_qty (cur w) sid (o_product_id origin)
     \<Longrightarrow> keeps P (snd (record_operation e (return_args origin qty k date) c w))"
  by (rule keeps_record_operation) (simp_all add: return_args_def args_admitted_def STOCK_AFFECTING_TYPES_def)

lemma keeps_write_return:
  assumes "keeps P w" and "o_sale_id origin = Some sid" and "qty \<le> returnable_qty (cur w) sid (o_product_id origin)"
  shows "keeps P (snd (write_return e origin qty remaining bd w))"
proof -
  have "returnable_qty (cur (snd (resolve_or_create_return_batch_id e origin (snd (or_today e bd w)))))
      sid (o_product_id origin) = returnable_qty (cur w) sid (o_product_id origin)"
    by (simp add: returnable_qty_def sold_qty_def returned_qty_def resolve_or_create_operations)
  with assms show ?thesis
    unfolding write_return_def Let_def split_beta return_failed_def
    by (auto split: sum.split option.split
        intro!: keeps_steps(1,2,4-) keeps_resolve_or_create keeps_close_return keeps_return_args)
qed

lemma keeps_register_return: "keeps P w \<Longrightarrow> keeps P (snd (register_return e oid q d w))"
  by (auto simp: register_return_def Let_def split_beta keeps_parse_op_date parse_op_date_cur
      intro!: keeps_write_return split: sum.split option.split)

end

end
