(* ===== verification/Transfers.thy ===== *)
theory Transfers
  imports Moves
begin

text \<open>
  \<open>src/app/services/transfers.py\<close>: stock moves between warehouses as two \<open>transfer\<close> rows of one
  transaction, out of the picked batch and into a new batch that inherits its labels. Inside one
  currency the frozen price is inherited and the cost may be overridden; across currencies both
  must be stated in the destination currency (the price may stay empty).
\<close>

record transfer_form =
  tf_code :: string
  tf_qty :: string
  tf_batch_id :: string
  tf_dest_warehouse_id :: string
  tf_new_expiry :: string
  tf_new_comment :: string
  tf_cost :: string
  tf_sale_price :: string
  tf_confirm :: string
  tf_op_date :: string

definition transfer_errors :: "transfer_form \<Rightarrow> int \<Rightarrow> errors" where
  "transfer_errors f qty =
     (let es1 = (if strip (tf_code f) = [] then dict_set ''code'' CodeRequired [] else [])
      in if qty \<le> 0 then dict_set ''quantity'' QtyMsg es1 else es1)"

text \<open>The price and the cost of the destination batch, by the two currencies.\<close>

definition transfer_prices ::
  "transfer_form \<Rightarrow> batch \<Rightarrow> string \<Rightarrow> string \<Rightarrow> errors + int option \<times> int option" where
  "transfer_prices f source dest_ccy source_ccy =
     (let cost_text = strip (tf_cost f) in
      if dest_ccy \<noteq> source_ccy then
        (if cost_text = [] then Inl [(''cost'', CostRequired)]
         else (case to_cents cost_text of
             Inl x \<Rightarrow> Inl [(''cost'', PriceMsg)]
           | Inr cost \<Rightarrow>
               (let (price, es) = parse_optional_cents (tf_sale_price f) ''sale_price'' []
                in if es \<noteq> [] then Inl es else Inr (price, Some cost))))
      else if cost_text = [] then Inr (b_price_cents source, b_cost_cents source)
      else (case to_cents cost_text of
          Inl x \<Rightarrow> Inl [(''cost'', PriceMsg)]
        | Inr cost \<Rightarrow> Inr (b_price_cents source, Some cost)))"

text \<open>\<open>x if x else source.x\<close> on the stripped overrides.\<close>

definition dest_batch ::
  "transfer_form \<Rightarrow> product \<Rightarrow> batch \<Rightarrow> int option \<Rightarrow> int option \<Rightarrow> string \<Rightarrow> string \<Rightarrow> batch" where
  "dest_batch f p source price cost i at =
     \<lparr>b_id = i, b_product_id = p_id p, b_warehouse_id = strip (tf_dest_warehouse_id f),
      b_expiry = (if strip (tf_new_expiry f) \<noteq> [] then Some (strip (tf_new_expiry f)) else b_expiry source),
      b_price_cents = price, b_cost_cents = cost, b_location = b_location source,
      b_comment = (if strip (tf_new_comment f) \<noteq> [] then Some (strip (tf_new_comment f)) else b_comment source),
      b_name = b_name source, b_quantity = 0, b_is_legacy = False, b_created_at = at\<rparr>"

definition write_transfer ::
  "env \<Rightarrow> transfer_form \<Rightarrow> product \<Rightarrow> batch \<Rightarrow> int option \<Rightarrow> int option \<Rightarrow> int \<Rightarrow> string option \<Rightarrow> world
     \<Rightarrow> (product \<times> batch \<times> batch \<times> int, product \<times> int \<times> int) outcome \<times> world" where
  "write_transfer e f p source price cost qty bd w =
     (let (i, w1) = new_id e w;
          (at, w2) = utcnow_iso e w1;
          dest = dest_batch f p source price cost i at;
          (date, w3) = or_today e bd (add_batch dest w2)
      in case record_operation e (move_args ''transfer'' (p_id p) (- qty) (b_id source) (Some date)) False w3 of
        (Inl x, w4) \<Rightarrow> (Errors [(''form'', SaveFailed)], rollback w4)
      | (Inr o1, w4) \<Rightarrow>
          (case record_operation e (move_args ''transfer'' (p_id p) qty i (Some date)) False w4 of
             (Inl x, w5) \<Rightarrow> (Errors [(''form'', SaveFailed)], rollback w5)
           | (Inr o2, w5) \<Rightarrow> (case commit w5 of
               (Some x, w6) \<Rightarrow> (Errors [(''form'', SaveFailed)], rollback w6)
             | (None, w6) \<Rightarrow> (Ok (p, source, dest, qty), w6))))"

definition check_transfer ::
  "env \<Rightarrow> transfer_form \<Rightarrow> int \<Rightarrow> string option \<Rightarrow> world
     \<Rightarrow> (product \<times> batch \<times> batch \<times> int, product \<times> int \<times> int) outcome \<times> world" where
  "check_transfer e f qty bd w =
     (let d = cur w; code = strip (tf_code f); dest_id = strip (tf_dest_warehouse_id f) in
      case active_product d code of
        None \<Rightarrow> (Errors [(''code'', ProductNotFound code)], w)
      | Some p \<Rightarrow> (case owned_batch e d p (tf_batch_id f) of
          None \<Rightarrow> (Errors [(''batch'', BatchRequired)], w)
        | Some source \<Rightarrow>
          (case find (\<lambda>wh. w_id wh = dest_id) (active_warehouses e d False) of
            None \<Rightarrow> (Errors [(''warehouse'', WarehouseMsg)], w)
          | Some dest_wh \<Rightarrow> (case get_warehouse d (b_warehouse_id source) of
              None \<Rightarrow> (Errors [(''batch'', BatchRequired)], w)
            | Some source_wh \<Rightarrow> (case transfer_prices f source (w_currency dest_wh) (w_currency source_wh) of
                Inl es \<Rightarrow> (Errors es, w)
              | Inr (price, cost) \<Rightarrow>
                  if dest_id = b_warehouse_id source \<and> strip (tf_new_expiry f) = []
                     \<and> strip (tf_new_comment f) = []
                  then (Errors [(''form'', SameWarehouse)], w)
                  else if tf_confirm f \<noteq> ''1'' \<and> b_quantity source < qty
                  then (Warn (p, b_quantity source, qty), w)
                  else write_transfer e f p source price cost qty bd w)))))"

definition register_transfer ::
  "env \<Rightarrow> transfer_form \<Rightarrow> world
     \<Rightarrow> (product \<times> batch \<times> batch \<times> int, product \<times> int \<times> int) outcome \<times> world" where
  "register_transfer e f w =
     (case parse_qty (tf_qty f) of
        Inl x \<Rightarrow> (Raised x, w)
      | Inr qty \<Rightarrow>
          (let (bd, es, w1) = parse_op_date e (tf_op_date f) (transfer_errors f qty) ''op_date'' w
           in if es \<noteq> [] then (Errors es, w1) else check_transfer e f qty bd w1))"

text \<open>Each transfer once, by its outbound row.\<close>

definition recent_transfers :: "env \<Rightarrow> db \<Rightarrow> nat \<Rightarrow> (operation \<times> product) list" where
  "recent_transfers e d limit = recent_of e d (\<lambda>o1. o_type o1 = ''transfer'' \<and> o_qty_delta o1 < 0) limit"

section \<open>What a transfer does\<close>

lemma dest_batch_frame [simp]:
  "b_id (dest_batch f p s price cost i at) = i"
  "b_product_id (dest_batch f p s price cost i at) = p_id p"
  "b_warehouse_id (dest_batch f p s price cost i at) = strip (tf_dest_warehouse_id f)"
  "b_quantity (dest_batch f p s price cost i at) = 0" "\<not> b_is_legacy (dest_batch f p s price cost i at)"
  "b_price_cents (dest_batch f p s price cost i at) = price"
  "b_cost_cents (dest_batch f p s price cost i at) = cost"
  by (simp_all add: dest_batch_def)

context write_path
begin

lemma keeps_write_transfer: "keeps P w \<Longrightarrow> keeps P (snd (write_transfer e f p s price cost qty bd w))"
  unfolding write_transfer_def Let_def split_beta
  by (auto simp: args_admitted_def STOCK_AFFECTING_TYPES_def split: sum.split option.split intro!: keeps_steps)

lemma keeps_register_transfer: "keeps P w \<Longrightarrow> keeps P (snd (register_transfer e f w))"
  by (simp add: register_transfer_def check_transfer_def Let_def split_beta keeps_write_transfer
      keeps_parse_op_date split: sum.split option.split)

end

lemma write_transfer_fail:
  assumes "write_transfer e f p s price cost qty bd w = (r, w')" and "\<not> is_Ok r"
  shows "saved w' = saved w"
proof -
  obtain i w1 where i: "new_id e w = (i, w1)" by fastforce
  obtain at w2 where at: "utcnow_iso e w1 = (at, w2)" by fastforce
  obtain date w3 where d: "or_today e bd (add_batch (dest_batch f p s price cost i at) w2) = (date, w3)" by fastforce
  have s3: "saved w3 = saved w"
    using i at or_today_frame[OF d] by (auto simp: new_id_def utcnow_iso_def)
  obtain r4 w4 where r1: "record_operation e (move_args ''transfer'' (p_id p) (- qty) (b_id s) (Some date)) False w3 = (r4, w4)"
    by fastforce
  obtain r5 w5 where r2: "record_operation e (move_args ''transfer'' (p_id p) qty i (Some date)) False w4 = (r5, w5)"
    by fastforce
  show ?thesis
    using assms s3 record_operation_saved[OF r1] record_operation_saved[OF r2]
    by (auto simp: write_transfer_def i at d r1 r2 split: sum.splits prod.splits option.splits dest: commit_Some)
qed

text \<open>A transfer that is refused or waits for confirmation leaves the committed database as it was:
  neither half is written.\<close>

lemma transfer_all_or_nothing:
  assumes "register_transfer e f w = (r, w')" and "\<not> is_Ok r"
  shows "saved w' = saved w"
proof (cases "parse_qty (tf_qty f)")
  case (Inl x)
  with assms show ?thesis by (auto simp: register_transfer_def)
next
  case (Inr qty)
  obtain bd es w1 where pd: "parse_op_date e (tf_op_date f) (transfer_errors f qty) ''op_date'' w = (bd, es, w1)"
    by (metis prod_cases3)
  have "saved w1 = saved w" using parse_op_date_frame[OF pd] by simp
  with assms show ?thesis
    by (auto simp: register_transfer_def Inr pd check_transfer_def Let_def dest: write_transfer_fail
        split: if_splits option.splits sum.splits prod.splits)
qed

lemma write_transfer_ok:
  assumes "write_transfer e f p s price cost qty bd w = (Ok (p', s', dest, q), w')"
  shows "\<exists>i at o1 o2 date. dest = dest_batch f p s price cost i at \<and> p' = p \<and> s' = s \<and> q = qty
    \<and> \<not> thas b_id i (batches (cur w))
    \<and> saved w' = append_op o2 (append_op o1 (add_batch_row dest (cur w)))
    \<and> o_type o1 = ''transfer'' \<and> o_product_id o1 = p_id p \<and> o_qty_delta o1 = - qty \<and> o_batch_id o1 = Some (b_id s)
    \<and> o_type o2 = ''transfer'' \<and> o_product_id o2 = p_id p \<and> o_qty_delta o2 = qty \<and> o_batch_id o2 = Some i
    \<and> o_business_date o1 = Some date \<and> o_business_date o2 = Some date"
proof -
  obtain i w1 where i: "new_id e w = (i, w1)" by fastforce
  obtain at w2 where at: "utcnow_iso e w1 = (at, w2)" by fastforce
  obtain date w3 where d: "or_today e bd (add_batch (dest_batch f p s price cost i at) w2) = (date, w3)" by fastforce
  note fd = or_today_frame[OF d]
  have c2: "cur w2 = cur w" "bad w2 = bad w" using i at by (auto simp: new_id_def utcnow_iso_def)
  obtain o1 w4 where r1: "record_operation e (move_args ''transfer'' (p_id p) (- qty) (b_id s) (Some date)) False w3 = (Inr o1, w4)"
    using assms by (auto simp: write_transfer_def i at d split: sum.splits prod.splits)
  obtain o2 w5 where r2: "record_operation e (move_args ''transfer'' (p_id p) qty i (Some date)) False w4 = (Inr o2, w5)"
    using assms by (auto simp: write_transfer_def i at d r1 split: sum.splits prod.splits)
  have cm: "commit w5 = (None, w')" and eq: "dest = dest_batch f p s price cost i at" "p' = p" "s' = s" "q = qty"
    using assms by (auto simp: write_transfer_def i at d r1 r2 split: prod.splits option.splits)
  have "bad w3 \<longleftrightarrow> bad (add_batch (dest_batch f p s price cost i at) w2)"
    using clock_frame(12)[of e bd "add_batch (dest_batch f p s price cost i at) w2"] d by simp
  then have "\<not> thas b_id i (batches (cur w))"
    using record_operation_Inr(4)[OF r1] c2 by (simp add: add_batch_def)
  then show ?thesis
    using recorded_fields[OF r1] recorded_fields[OF r2] record_operation_Inr(2)[OF r1]
      record_operation_Inr(2)[OF r2] commit_None[OF cm] fd c2 eq
    by - (rule exI[of _ i], rule exI[of _ at], rule exI[of _ o1], rule exI[of _ o2],
          rule exI[of _ date], simp)
qed

lemma register_transfer_ok:
  assumes "register_transfer e f w = (Ok (p, source, dest, q), w')"
  obtains swh dwh price cost bd w1 where "parse_qty (tf_qty f) = Inr q" "0 < q"
    "active_product (cur w) (strip (tf_code f)) = Some p"
    "owned_batch e (cur w) p (tf_batch_id f) = Some source"
    "get_warehouse (cur w) (b_warehouse_id source) = Some swh"
    "dwh \<in> set (active_warehouses e (cur w) False)" "w_id dwh = strip (tf_dest_warehouse_id f)"
    "transfer_prices f source (w_currency dwh) (w_currency swh) = Inr (price, cost)"
    "tf_confirm f = ''1'' \<or> q \<le> b_quantity source" "cur w1 = cur w"
    "write_transfer e f p source price cost q bd w1 = (Ok (p, source, dest, q), w')"
proof -
  obtain qty where qty: "parse_qty (tf_qty f) = Inr qty"
    using assms by (auto simp: register_transfer_def split: sum.splits)
  obtain bd es w1 where pd: "parse_op_date e (tf_op_date f) (transfer_errors f qty) ''op_date'' w = (bd, es, w1)"
    by (metis prod_cases3)
  have c: "cur w1 = cur w" using parse_op_date_frame[OF pd] by simp
  have es: "es = []" and ck: "check_transfer e f qty bd w1 = (Ok (p, source, dest, q), w')"
    using assms qty pd by (auto simp: register_transfer_def split: if_splits)
  from es pd have "transfer_errors f qty = []" using parse_op_date_ok(1) by blast
  then have pos: "0 < qty" by (auto simp: transfer_errors_def Let_def split: if_splits)
  from ck obtain p' s' dwh swh price cost where
    h: "active_product (cur w) (strip (tf_code f)) = Some p'" "owned_batch e (cur w) p' (tf_batch_id f) = Some s'"
      "find (\<lambda>wh. w_id wh = strip (tf_dest_warehouse_id f)) (active_warehouses e (cur w) False) = Some dwh"
      "get_warehouse (cur w) (b_warehouse_id s') = Some swh"
      "transfer_prices f s' (w_currency dwh) (w_currency swh) = Inr (price, cost)"
      "tf_confirm f = ''1'' \<or> qty \<le> b_quantity s'"
      and wr: "write_transfer e f p' s' price cost qty bd w1 = (Ok (p, source, dest, q), w')"
    by (auto simp: check_transfer_def Let_def c not_less split: option.splits sum.splits prod.splits if_splits)
  from write_transfer_ok[OF wr] have "p' = p" "s' = source" "q = qty" by auto
  moreover from h(3) have "dwh \<in> set (active_warehouses e (cur w) False)" "w_id dwh = strip (tf_dest_warehouse_id f)"
    by (auto simp: find_Some_iff)
  ultimately show thesis using that qty pos h wr c by blast
qed


text \<open>Money never crosses currencies in a transfer. Between warehouses of one currency the new batch
  has the source's frozen price, and its cost unless one was typed; between two currencies the
  cost is the typed amount, which is required, and the price is the typed one or none.\<close>

theorem transfer_currency:
  assumes "register_transfer e f w = (Ok (p, source, dest, q), w')"
  shows "\<exists>swh dwh. get_warehouse (cur w) (b_warehouse_id source) = Some swh
    \<and> dwh \<in> set (active_warehouses e (cur w) False) \<and> b_warehouse_id dest = w_id dwh
    \<and> (if w_currency dwh = w_currency swh
       then b_price_cents dest = b_price_cents source
         \<and> (strip (tf_cost f) = [] \<longrightarrow> b_cost_cents dest = b_cost_cents source)
         \<and> (strip (tf_cost f) \<noteq> [] \<longrightarrow> (\<exists>c. to_cents (strip (tf_cost f)) = Inr c \<and> b_cost_cents dest = Some c))
       else (\<exists>c. to_cents (strip (tf_cost f)) = Inr c \<and> b_cost_cents dest = Some c)
         \<and> parse_optional_cents (tf_sale_price f) ''sale_price'' [] = (b_price_cents dest, []))"
  using assms
proof (rule register_transfer_ok)
  fix swh dwh price cost bd w1
  assume h: "get_warehouse (cur w) (b_warehouse_id source) = Some swh"
    "dwh \<in> set (active_warehouses e (cur w) False)" "w_id dwh = strip (tf_dest_warehouse_id f)"
    and tp: "transfer_prices f source (w_currency dwh) (w_currency swh) = Inr (price, cost)"
    and wr: "write_transfer e f p source price cost q bd w1 = (Ok (p, source, dest, q), w')"
  from write_transfer_ok[OF wr] obtain i at where dest: "dest = dest_batch f p source price cost i at" by metis
  show ?thesis
    using h tp by (intro exI[of _ swh] exI[of _ dwh])
      (auto simp: dest transfer_prices_def Let_def split: if_splits sum.splits prod.splits)
qed

end
