(* ===== verification/Receipts.thy ===== *)
theory Receipts
  imports Moves
begin

text \<open>
  \<open>src/app/services/receipts.py\<close>: goods intake. An unknown code creates the card in the same
  transaction; for a known one the entered prices update the card in the receipt warehouse's
  currency, one \<open>price_change\<close> row per changed field. The \<open>receipt\<close> row credits a new batch, named
  after the business date, or tops up a chosen one without touching its frozen price. The
  audit rows are dated on the day of entry, never on the operator's date.
\<close>

record receipt_form =
  rf_code :: string
  rf_name :: string
  rf_qty :: string
  rf_cost :: string
  rf_sale :: string
  rf_warehouse_id :: string
  rf_batch_choice :: string
  rf_expiry :: string
  rf_location :: string
  rf_comment :: string
  rf_op_date :: string

definition parse_optional_expiry :: "string \<Rightarrow> errors \<Rightarrow> string \<Rightarrow> string option \<times> errors" where
  "parse_optional_expiry raw es key =
     (if strip raw = [] then (None, es)
      else case fromisoformat (strip raw) of
        Some d \<Rightarrow> (Some (isoformat d), es)
      | None \<Rightarrow> (None, dict_set key ExpiryMsg es))"

text \<open>The parsed form: cost, sale price, expiry of a new batch, and the errors so far.\<close>

definition receipt_fields ::
  "env \<Rightarrow> db \<Rightarrow> receipt_form \<Rightarrow> int \<Rightarrow> int option \<times> int option \<times> string option \<times> errors" where
  "receipt_fields e d f qty =
     (let es1 = (if strip (rf_code f) = [] then dict_set ''code'' CodeRequired [] else []);
          es2 = (if strip (rf_name f) = [] then dict_set ''name'' NameRequired es1 else es1);
          es3 = (if qty \<le> 0 then dict_set ''quantity'' QtyMsg es2 else es2);
          (cost, es4) = parse_optional_cents (rf_cost f) ''cost'' es3;
          (sal, es5) = parse_optional_cents (rf_sale f) ''sale'' es4;
          active_ids = map w_id (active_warehouses e d True);
          es6 = (if active_ids = [] then dict_set ''warehouse'' NoWarehouses es5
                 else if strip (rf_warehouse_id f) \<notin> set active_ids
                 then dict_set ''warehouse'' WarehouseMsg es5 else es5);
          es7 = (if strip (rf_batch_choice f) = [] then dict_set ''batch_choice'' BatchChoice es6 else es6);
          (expi, es8) = (if strip (rf_batch_choice f) = ''new''
             then parse_optional_expiry (rf_expiry f) es7 ''expiry'' else (None, es7))
      in (cost, sal, expi, es8))"

section \<open>The card\<close>

text \<open>The card fields of the receipt warehouse's currency, with the entered values.\<close>

definition entered_prices :: "string \<Rightarrow> int option \<Rightarrow> int option \<Rightarrow> (string \<times> int option) list" where
  "entered_prices ccy cost sal =
     [(card_price_fields (Some ccy) ''cost'', cost), (card_price_fields (Some ccy) ''sale'', sal)]"

definition receipt_card :: "receipt_form \<Rightarrow> string \<Rightarrow> int option \<Rightarrow> int option \<Rightarrow> string \<Rightarrow> string \<Rightarrow> product" where
  "receipt_card f ccy cost sal i at =
     fold (\<lambda>(field, v). set_price field v) (entered_prices ccy cost sal)
       ((blank_product i at)\<lparr>p_code := Some (strip (rf_code f)), p_name := strip (rf_name f),
          p_name_lc := Some (lower (strip (rf_name f)))\<rparr>)"

text \<open>\<open>for field in entered\<close>: an empty or unchanged price is skipped; the row comes before the
  assignment, and it carries no business date of the operator.\<close>

fun update_prices ::
  "env \<Rightarrow> product \<Rightarrow> (string \<times> int option) list \<Rightarrow> world \<Rightarrow> exn option \<times> world" where
  "update_prices e p [] w = (None, w)"
| "update_prices e p ((field, v) # rest) w =
     (if v = None \<or> v = get_price field p then update_prices e p rest w
      else case record_operation e (audit_args ''price_change'' (p_id p)
             (P_price_change field (get_price field p) v)) False w of
        (Inl x, w1) \<Rightarrow> (Some x, w1)
      | (Inr o1, w1) \<Rightarrow> update_prices e p rest (stage (upd_product (p_id p) (set_price field v)) False w1))"

definition receipt_product ::
  "env \<Rightarrow> receipt_form \<Rightarrow> string \<Rightarrow> int option \<Rightarrow> int option \<Rightarrow> world \<Rightarrow> (exn + product) \<times> world" where
  "receipt_product e f ccy cost sal w =
     (case active_product (cur w) (strip (rf_code f)) of
        None \<Rightarrow>
          (let (i, w1) = new_id e w; (at, w2) = utcnow_iso e w1;
               p = receipt_card f ccy cost sal i at
           in case record_operation e (audit_args ''product_created'' i
                (P_created (strip (rf_code f)) (strip (rf_name f)))) False (add_product p w2) of
             (Inl x, w3) \<Rightarrow> (Inl x, w3) | (Inr o1, w3) \<Rightarrow> (Inr p, w3))
      | Some p \<Rightarrow> (case update_prices e p (entered_prices ccy cost sal) w of
          (Some x, w1) \<Rightarrow> (Inl x, w1) | (None, w1) \<Rightarrow> (Inr p, w1)))"

section \<open>The batch and the row\<close>

text \<open>The separator of the auto-name is written as a plain hyphen.\<close>

definition receipt_batch_row ::
  "receipt_form \<Rightarrow> product \<Rightarrow> string \<Rightarrow> string option \<Rightarrow> int option \<Rightarrow> int option \<Rightarrow> string \<Rightarrow> string \<Rightarrow> batch" where
  "receipt_batch_row f p date expi cost sal i at =
     \<lparr>b_id = i, b_product_id = p_id p, b_warehouse_id = strip (rf_warehouse_id f), b_expiry = expi,
      b_price_cents = sal, b_cost_cents = cost, b_location = or_none (strip (rf_location f)),
      b_comment = or_none (strip (rf_comment f)),
      b_name = Some (p_name p @ '' - '' @ format_ru_date (Some date)), b_quantity = 0,
      b_is_legacy = False, b_created_at = at\<rparr>"

text \<open>The batch of the receipt, or \<open>None\<close> for a choice that is not a batch of this product in this
  warehouse.\<close>

definition receipt_batch ::
  "env \<Rightarrow> receipt_form \<Rightarrow> product \<Rightarrow> string \<Rightarrow> string option \<Rightarrow> int option \<Rightarrow> int option \<Rightarrow> world
     \<Rightarrow> batch option \<times> world" where
  "receipt_batch e f p date expi cost sal w =
     (if strip (rf_batch_choice f) = ''new'' then
        (let (i, w1) = new_id e w; (at, w2) = utcnow_iso e w1;
             b = receipt_batch_row f p date expi cost sal i at
         in (Some b, add_batch b w2))
      else case get_batch (cur w) (strip (rf_batch_choice f)) of
        None \<Rightarrow> (None, w)
      | Some b \<Rightarrow>
          if b_product_id b \<noteq> p_id p \<or> b_warehouse_id b \<noteq> strip (rf_warehouse_id f)
          then (None, w) else (Some b, w))"

definition receipt_args ::
  "product \<Rightarrow> batch \<Rightarrow> int \<Rightarrow> int option \<Rightarrow> int option \<Rightarrow> string \<Rightarrow> op_args" where
  "receipt_args p b qty cost sal date = (move_args ''receipt'' (p_id p) qty (b_id b) (Some date))
     \<lparr>a_unit_cost_cents := cost, a_unit_price_cents := sal\<rparr>"

definition write_receipt ::
  "env \<Rightarrow> receipt_form \<Rightarrow> int \<Rightarrow> int option \<Rightarrow> int option \<Rightarrow> string option \<Rightarrow> string option \<Rightarrow> world
     \<Rightarrow> (product \<times> operation \<times> batch, unit) outcome \<times> world" where
  "write_receipt e f qty cost sal expi bd w =
     (let (date, w1) = or_today e bd w;
          ccy = warehouse_currency (cur w1) (Some (strip (rf_warehouse_id f)))
      in case receipt_product e f ccy cost sal w1 of
        (Inl x, w2) \<Rightarrow> (Raised x, w2)
      | (Inr p, w2) \<Rightarrow>
          (case receipt_batch e f p date expi cost sal w2 of
             (None, w3) \<Rightarrow> (Errors [(''batch_choice'', BatchChoice)], rollback w3)
           | (Some b, w3) \<Rightarrow>
               (case record_operation e (receipt_args p b qty cost sal date) False w3 of
                  (Inl x, w4) \<Rightarrow> (Raised x, w4)
                | (Inr o1, w4) \<Rightarrow> (case commit w4 of
                    (Some x, w5) \<Rightarrow> (Errors [(''code'', DuplicateCode)], rollback w5)
                  | (None, w5) \<Rightarrow> (Ok (p, o1, b), w5)))))"

definition register_receipt ::
  "env \<Rightarrow> receipt_form \<Rightarrow> world \<Rightarrow> (product \<times> operation \<times> batch, unit) outcome \<times> world" where
  "register_receipt e f w =
     (case parse_qty (rf_qty f) of
        Inl x \<Rightarrow> (Raised x, w)
      | Inr qty \<Rightarrow>
          (let (cost, sal, expi, es0) = receipt_fields e (cur w) f qty;
               (bd, es, w1) = parse_op_date e (rf_op_date f) es0 ''op_date'' w
           in if es \<noteq> [] then (Errors es, w1) else write_receipt e f qty cost sal expi bd w1))"

definition recent_receipts :: "env \<Rightarrow> db \<Rightarrow> nat \<Rightarrow> (operation \<times> product) list" where
  "recent_receipts e d limit = recent_of e d (\<lambda>o1. o_type o1 = ''receipt'') limit"

section \<open>The handler keeps the invariants\<close>

lemma receipt_card_frame [simp]:
  "p_id (receipt_card f ccy cost sal i at) = i" "p_quantity (receipt_card f ccy cost sal i at) = 0"
  "p_code (receipt_card f ccy cost sal i at) = Some (strip (rf_code f))"
  "p_deleted_at (receipt_card f ccy cost sal i at) = None"
  "p_name (receipt_card f ccy cost sal i at) = strip (rf_name f)"
  by (simp_all add: receipt_card_def entered_prices_def)

lemma receipt_batch_frame [simp]:
  "b_quantity (receipt_batch_row f p date expi cost sal i at) = 0"
  "\<not> b_is_legacy (receipt_batch_row f p date expi cost sal i at)"
  "b_id (receipt_batch_row f p date expi cost sal i at) = i"
  "b_product_id (receipt_batch_row f p date expi cost sal i at) = p_id p"
  "b_warehouse_id (receipt_batch_row f p date expi cost sal i at) = strip (rf_warehouse_id f)"
  "b_price_cents (receipt_batch_row f p date expi cost sal i at) = sal"
  "b_cost_cents (receipt_batch_row f p date expi cost sal i at) = cost"
  by (simp_all add: receipt_batch_row_def)

section \<open>What a receipt does\<close>

text \<open>The step from \<open>d\<close> to \<open>d'\<close> writes audit rows only, all dated on a day read from the clock.\<close>

definition audit_row :: "env \<Rightarrow> operation \<Rightarrow> bool" where
  "audit_row e o1 \<longleftrightarrow> o_type o1 \<in> {''product_created'', ''price_change''} \<and> o_qty_delta o1 = 0
     \<and> o_batch_id o1 = None \<and> (\<exists>k. o_business_date o1 = Some (isoformat (today_at e k)))"

definition audited :: "env \<Rightarrow> db \<Rightarrow> db \<Rightarrow> bool" where
  "audited e d d' \<longleftrightarrow> batches d' = batches d \<and> cash_movements d' = cash_movements d
     \<and> (\<exists>audit. operations d' = operations d @ audit \<and> (\<forall>o1 \<in> set audit. audit_row e o1))"

lemma audited_refl [simp]: "audited e d d"
  by (simp add: audited_def)

lemma audited_trans:
  assumes "audited e d1 d2" and "audited e d2 d3"
  shows "audited e d1 d3"
proof -
  from assms(1) obtain a1 where a1: "operations d2 = operations d1 @ a1" "\<forall>o1 \<in> set a1. audit_row e o1"
    by (auto simp: audited_def)
  from assms(2) obtain a2 where a2: "operations d3 = operations d2 @ a2" "\<forall>o1 \<in> set a2. audit_row e o1"
    by (auto simp: audited_def)
  have "operations d3 = operations d1 @ (a1 @ a2) \<and> (\<forall>o1 \<in> set (a1 @ a2). audit_row e o1)"
    using a1 a2 by auto
  with assms show ?thesis unfolding audited_def by metis
qed

lemma record_audit:
  assumes "record_operation e (audit_args ty pid pay) False w = (Inr o1, w')"
    and "ty = ''product_created'' \<or> ty = ''price_change''"
  shows "audited e (cur w) (cur w')"
proof -
  from record_operation_Inr(1)[OF assms(1)] obtain w1 where "make_op e (audit_args ty pid pay) w = (o1, w1)" by auto
  note f = make_op_frame[OF this]
  have "\<exists>k. o_business_date o1 = Some (isoformat (today_at e k))"
    using f(15) by (auto simp: audit_args_def or_today_def local_today_iso_def)
  then have "audit_row e o1" using f assms(2) by (auto simp: audit_row_def)
  then show ?thesis
    using record_operation_Inr(2)[OF assms(1)] f(11) by (auto simp: audited_def append_op_caches)
qed

lemma update_prices_saved: "update_prices e p fs w = (r, w') \<Longrightarrow> saved w' = saved w"
proof (induction fs arbitrary: w)
  case Nil
  then show ?case by simp
next
  case (Cons fv fs)
  obtain field v where fv: "fv = (field, v)" by (cases fv)
  obtain q w1 where ro: "record_operation e (audit_args ''price_change'' (p_id p) (P_price_change field (get_price field p) v)) False w = (q, w1)"
    by fastforce
  with Cons record_operation_saved[OF ro] show ?case
    by (auto simp: fv split: if_splits sum.splits dest!: Cons.IH)
qed

lemma update_prices_audited: "update_prices e p fs w = (None, w') \<Longrightarrow> audited e (cur w) (cur w')"
proof (induction fs arbitrary: w)
  case Nil
  then show ?case by simp
next
  case (Cons fv fs)
  obtain field v where fv: "fv = (field, v)" by (cases fv)
  show ?case
  proof (cases "v = None \<or> v = get_price field p")
    case True
    with Cons show ?thesis by (auto simp: fv)
  next
    case False
    then obtain o1 w1 where ro: "record_operation e (audit_args ''price_change'' (p_id p)
          (P_price_change field (get_price field p) v)) False w = (Inr o1, w1)"
      and rest: "update_prices e p fs (stage (upd_product (p_id p) (set_price field v)) False w1) = (None, w')"
      using Cons.prems by (auto simp: fv split: sum.splits prod.splits)
    have "audited e (cur w1) (cur w')"
      using Cons.IH[OF rest] by (auto simp: audited_def)
    with record_audit[OF ro] show ?thesis by (auto intro: audited_trans)
  qed
qed

lemma receipt_product_saved: "receipt_product e f ccy cost sal w = (r, w') \<Longrightarrow> saved w' = saved w"
  by (auto simp: receipt_product_def Let_def new_id_def utcnow_iso_def
      split: option.splits sum.splits prod.splits dest: record_operation_saved update_prices_saved)

lemma receipt_product_audited:
  assumes "receipt_product e f ccy cost sal w = (Inr p, w')"
  shows "audited e (cur w) (cur w')"
    and "active_product (cur w) (strip (rf_code f)) = Some p
      \<or> active_product (cur w) (strip (rf_code f)) = None \<and> (\<exists>i at. p = receipt_card f ccy cost sal i at)"
proof -
  have "audited e (cur w) (cur w') \<and> (active_product (cur w) (strip (rf_code f)) = Some p
      \<or> active_product (cur w) (strip (rf_code f)) = None \<and> (\<exists>i at. p = receipt_card f ccy cost sal i at))"
  proof (cases "active_product (cur w) (strip (rf_code f))")
    case (Some q)
    with assms show ?thesis
      by (auto simp: receipt_product_def split: prod.splits option.splits intro: update_prices_audited)
  next
    case None
    obtain i w1 where i: "new_id e w = (i, w1)" by fastforce
    obtain at w2 where at: "utcnow_iso e w1 = (at, w2)" by fastforce
    have c: "cur w2 = cur w" using i at by (auto simp: new_id_def utcnow_iso_def)
    obtain o1 where ro: "record_operation e (audit_args ''product_created'' i
        (P_created (strip (rf_code f)) (strip (rf_name f)))) False
        (add_product (receipt_card f ccy cost sal i at) w2) = (Inr o1, w')"
      and p: "p = receipt_card f ccy cost sal i at"
      using assms None i at by (auto simp: receipt_product_def Let_def split: sum.splits prod.splits)
    have "audited e (cur w) (cur w')" using record_audit[OF ro] by (auto simp: audited_def c)
    with None p show ?thesis by blast
  qed
  then show "audited e (cur w) (cur w')"
    and "active_product (cur w) (strip (rf_code f)) = Some p
      \<or> active_product (cur w) (strip (rf_code f)) = None \<and> (\<exists>i at. p = receipt_card f ccy cost sal i at)"
    by auto
qed

lemma receipt_batch_saved: "receipt_batch e f p date expi cost sal w = (r, w') \<Longrightarrow> saved w' = saved w"
  by (auto simp: receipt_batch_def Let_def new_id_def utcnow_iso_def split: option.splits if_splits)

text \<open>The batch a receipt credits: a fresh one with the entered price and cost, or a stored one of the
  product in the receipt's warehouse.\<close>

lemma receipt_batch_ok:
  assumes "receipt_batch e f p date expi cost sal w = (Some b, w')" and "\<not> bad w'"
  shows "operations (cur w') = operations (cur w)" "cash_movements (cur w') = cash_movements (cur w)"
    "get_batch (cur w') (b_id b) = Some b"
    "b_product_id b = p_id p" "b_warehouse_id b = strip (rf_warehouse_id f)"
    "if strip (rf_batch_choice f) = ''new''
     then b_price_cents b = sal \<and> b_cost_cents b = cost \<and> b_quantity b = 0
        \<and> b_expiry b = expi \<and> b_name b = Some (p_name p @ '' - '' @ format_ru_date (Some date))
     else get_batch (cur w) (strip (rf_batch_choice f)) = Some b"
proof -
  have "operations (cur w') = operations (cur w) \<and> cash_movements (cur w') = cash_movements (cur w)
    \<and> get_batch (cur w') (b_id b) = Some b
    \<and> b_product_id b = p_id p \<and> b_warehouse_id b = strip (rf_warehouse_id f)
    \<and> (if strip (rf_batch_choice f) = ''new''
     then b_price_cents b = sal \<and> b_cost_cents b = cost \<and> b_quantity b = 0
        \<and> b_expiry b = expi \<and> b_name b = Some (p_name p @ '' - '' @ format_ru_date (Some date))
     else get_batch (cur w) (strip (rf_batch_choice f)) = Some b)"
  proof (cases "strip (rf_batch_choice f) = ''new''")
    case True
    obtain i w1 where i: "new_id e w = (i, w1)" by fastforce
    obtain at w2 where at: "utcnow_iso e w1 = (at, w2)" by fastforce
    have c: "cur w2 = cur w" using i at by (auto simp: new_id_def utcnow_iso_def)
    have b: "b = receipt_batch_row f p date expi cost sal i at" "w' = add_batch b w2"
      using assms(1) True i at by (auto simp: receipt_batch_def Let_def)
    have "\<not> thas b_id (b_id b) (batches (cur w))" using assms(2) b c by (simp add: add_batch_def)
    then have "get_batch (cur w) (b_id b) = None" by (simp add: tget_None_iff thas_iff)
    with True b c show ?thesis by (simp add: table_simps) (simp add: receipt_batch_row_def)
  next
    case False
    with assms(1) have "get_batch (cur w) (strip (rf_batch_choice f)) = Some b"
      and "b_product_id b = p_id p" "b_warehouse_id b = strip (rf_warehouse_id f)" "w' = w"
      by (auto simp: receipt_batch_def split: option.splits if_splits)
    with False tget_self[of b_id "strip (rf_batch_choice f)" "batches (cur w)" b] show ?thesis by simp
  qed
  then show "operations (cur w') = operations (cur w)" "cash_movements (cur w') = cash_movements (cur w)"
    "get_batch (cur w') (b_id b) = Some b"
    "b_product_id b = p_id p" "b_warehouse_id b = strip (rf_warehouse_id f)"
    "if strip (rf_batch_choice f) = ''new''
     then b_price_cents b = sal \<and> b_cost_cents b = cost \<and> b_quantity b = 0
        \<and> b_expiry b = expi \<and> b_name b = Some (p_name p @ '' - '' @ format_ru_date (Some date))
     else get_batch (cur w) (strip (rf_batch_choice f)) = Some b" by auto
qed

lemma parse_optional_expiry_errors: "parse_optional_expiry raw es key = (v, []) \<Longrightarrow> es = []"
  by (auto simp: parse_optional_expiry_def split: if_splits option.splits)

lemma receipt_fields_ok:
  assumes "receipt_fields e d f qty = (cost, sal, expi, [])"
  shows "0 < qty \<and> strip (rf_warehouse_id f) \<in> w_id ` set (active_warehouses e d True)
    \<and> parse_optional_cents (rf_cost f) ''cost'' [] = (cost, [])
    \<and> parse_optional_cents (rf_sale f) ''sale'' [] = (sal, [])"
proof -
  define es3 where "es3 = (if qty \<le> 0 then dict_set ''quantity'' QtyMsg
    (if strip (rf_name f) = [] then dict_set ''name'' NameRequired
      (if strip (rf_code f) = [] then dict_set ''code'' CodeRequired [] else [])
     else (if strip (rf_code f) = [] then dict_set ''code'' CodeRequired [] else []))
    else if strip (rf_name f) = [] then dict_set ''name'' NameRequired
      (if strip (rf_code f) = [] then dict_set ''code'' CodeRequired [] else [])
     else (if strip (rf_code f) = [] then dict_set ''code'' CodeRequired [] else []))"
  obtain c4 es4 where p4: "parse_optional_cents (rf_cost f) ''cost'' es3 = (c4, es4)" by fastforce
  obtain c5 es5 where p5: "parse_optional_cents (rf_sale f) ''sale'' es4 = (c5, es5)" by fastforce
  define es6 where "es6 = (if map w_id (active_warehouses e d True) = [] then dict_set ''warehouse'' NoWarehouses es5
     else if strip (rf_warehouse_id f) \<notin> set (map w_id (active_warehouses e d True))
     then dict_set ''warehouse'' WarehouseMsg es5 else es5)"
  define es7 where "es7 = (if strip (rf_batch_choice f) = [] then dict_set ''batch_choice'' BatchChoice es6 else es6)"
  have out: "es7 = [] \<and> cost = c4 \<and> sal = c5"
    using assms[unfolded receipt_fields_def Let_def, folded es3_def, unfolded p4 prod.case p5, folded es6_def, folded es7_def]
    by (auto split: if_splits prod.splits dest: parse_optional_expiry_errors)
  then have "es6 = []" by (auto simp: es7_def split: if_splits)
  then have "es5 = []" and wh: "strip (rf_warehouse_id f) \<in> w_id ` set (active_warehouses e d True)"
    by (auto simp: es6_def split: if_splits)
  with p4 p5 have nil: "es4 = []" "es3 = []" using parse_optional_cents_errors by blast+
  then have "0 < qty" by (auto simp: es3_def split: if_splits)
  with wh out nil p4 p5 \<open>es5 = []\<close> show ?thesis by simp
qed

lemma write_receipt_fail:
  assumes "write_receipt e f qty cost sal expi bd w = (r, w')" and "\<not> is_Ok r"
  shows "saved w' = saved w"
proof -
  obtain date w1 where d: "or_today e bd w = (date, w1)" by fastforce
  let ?ccy = "warehouse_currency (cur w1) (Some (strip (rf_warehouse_id f)))"
  obtain q w2 where rp: "receipt_product e f ?ccy cost sal w1 = (q, w2)" by fastforce
  have s2: "saved w2 = saved w" using or_today_frame[OF d] receipt_product_saved[OF rp] by simp
  show ?thesis
  proof (cases q)
    case (Inl x)
    with assms s2 show ?thesis by (auto simp: write_receipt_def d rp)
  next
    case (Inr p)
    obtain b w3 where rb: "receipt_batch e f p date expi cost sal w2 = (b, w3)" by fastforce
    have s3: "saved w3 = saved w" using receipt_batch_saved[OF rb] s2 by simp
    show ?thesis
    proof (cases b)
      case None
      with assms s3 show ?thesis by (auto simp: write_receipt_def d rp Inr rb)
    next
      case (Some c)
      obtain q4 w4 where ro: "record_operation e (receipt_args p c qty cost sal date) False w3 = (q4, w4)"
        by fastforce
      have "saved w4 = saved w" using record_operation_saved[OF ro] s3 by simp
      with assms show ?thesis
        by (auto simp: write_receipt_def d rp Inr rb Some ro split: sum.splits prod.splits option.splits
            dest: commit_Some)
    qed
  qed
qed

text \<open>A receipt that is refused, or that fails while it is written, leaves the committed database as
  it was: a card created for it, price changes and a new batch are gone with it.\<close>

lemma receipt_all_or_nothing:
  assumes "register_receipt e f w = (r, w')" and "\<not> is_Ok r"
  shows "saved w' = saved w"
proof (cases "parse_qty (rf_qty f)")
  case (Inl x)
  with assms show ?thesis by (auto simp: register_receipt_def)
next
  case (Inr qty)
  obtain cost sal expi es0 where rf: "receipt_fields e (cur w) f qty = (cost, sal, expi, es0)"
    by (metis prod_cases4)
  obtain bd es w1 where pd: "parse_op_date e (rf_op_date f) es0 ''op_date'' w = (bd, es, w1)"
    by (metis prod_cases3)
  have "saved w1 = saved w" using parse_op_date_frame[OF pd] by simp
  with assms show ?thesis
    by (auto simp: register_receipt_def Inr rf pd dest: write_receipt_fail split: if_splits)
qed

lemma write_receipt_ok:
  assumes "write_receipt e f qty cost sal expi bd w = (Ok (p, o1, b), w')"
  shows "\<exists>d date. audited e (cur w) d
    \<and> operations (saved w') = operations d @ [o1] \<and> cash_movements (saved w') = cash_movements (cur w)
    \<and> o_type o1 = ''receipt'' \<and> o_product_id o1 = p_id p \<and> o_batch_id o1 = Some (b_id b)
    \<and> o_qty_delta o1 = qty \<and> o_unit_cost_cents o1 = cost \<and> o_unit_price_cents o1 = sal
    \<and> o_business_date o1 = Some date \<and> (bd = None \<or> bd = Some date \<or> bd = Some [])
    \<and> b_product_id b = p_id p \<and> b_warehouse_id b = strip (rf_warehouse_id f)
    \<and> (if strip (rf_batch_choice f) = ''new''
       then b_price_cents b = sal \<and> b_cost_cents b = cost \<and> b_quantity b = 0
          \<and> b_name b = Some (p_name p @ '' - '' @ format_ru_date (Some date))
       else get_batch (cur w) (strip (rf_batch_choice f)) = Some b)
    \<and> get_batch (saved w') (b_id b) = Some (b\<lparr>b_quantity := b_quantity b + qty\<rparr>)
    \<and> (active_product (cur w) (strip (rf_code f)) = Some p
       \<or> active_product (cur w) (strip (rf_code f)) = None \<and> p_code p = Some (strip (rf_code f)))"
proof -
  obtain date w1 where d: "or_today e bd w = (date, w1)" by fastforce
  note fd = or_today_frame[OF d]
  let ?ccy = "warehouse_currency (cur w1) (Some (strip (rf_warehouse_id f)))"
  obtain p1 w2 where rp: "receipt_product e f ?ccy cost sal w1 = (Inr p1, w2)"
    using assms by (auto simp: write_receipt_def d split: sum.splits prod.splits)
  obtain b1 w3 where rb: "receipt_batch e f p1 date expi cost sal w2 = (Some b1, w3)"
    using assms by (auto simp: write_receipt_def d rp split: prod.splits option.splits)
  obtain o2 w4 where ro: "record_operation e (receipt_args p1 b1 qty cost sal date) False w3 = (Inr o2, w4)"
    using assms by (auto simp: write_receipt_def d rp rb split: sum.splits prod.splits)
  have cm: "commit w4 = (None, w')" and eq: "p = p1" "o1 = o2" "b = b1"
    using assms by (auto simp: write_receipt_def d rp rb ro split: prod.splits option.splits)
  note aud = receipt_product_audited[OF rp, unfolded fd(1)]
  note bat = receipt_batch_ok[OF rb record_operation_Inr(4)[OF ro]]
  note fields = recorded_fields[OF ro]
  have sv: "saved w' = append_op o2 (cur w3)"
    using commit_None[OF cm] record_operation_Inr(2)[OF ro] by simp
  have "get_batch (saved w') (b_id b) = Some (b\<lparr>b_quantity := b_quantity b + qty\<rparr>)"
    using bat(3) fields by (simp add: sv eq get_batch_append_op bump_batch_def receipt_args_def)
  moreover have "batches (cur w2) = batches (cur w)" "cash_movements (cur w2) = cash_movements (cur w)"
    using aud(1) by (auto simp: audited_def)
  ultimately show ?thesis
    using aud bat fields fd(3,4) eq
    by - (rule exI[of _ "cur w2"], rule exI[of _ date],
          auto simp: sv receipt_args_def split: if_splits)
qed


context write_path
begin

lemma keeps_update_prices: "keeps P w \<Longrightarrow> keeps P (snd (update_prices e p fs w))"
proof (induction fs arbitrary: w)
  case Nil
  then show ?case by simp
next
  case (Cons fv fs)
  obtain field v where fv: "fv = (field, v)" by (cases fv)
  let ?ro = "record_operation e (audit_args ''price_change'' (p_id p) (P_price_change field (get_price field p) v)) False w"
  have "keeps P (snd ?ro)" using Cons.prems by (rule keeps_record_operation) simp
  with Cons show ?case by (auto simp: fv split_beta keeps_price split: sum.split)
qed

lemma keeps_receipt_product: "keeps P w \<Longrightarrow> keeps P (snd (receipt_product e f ccy cost sal w))"
  unfolding receipt_product_def Let_def split_beta
  by (auto split: sum.split option.split intro!: keeps_steps keeps_update_prices)

lemma keeps_receipt_batch: "keeps P w \<Longrightarrow> keeps P (snd (receipt_batch e f p date expi cost sal w))"
  unfolding receipt_batch_def Let_def split_beta
  by (auto split: option.split intro!: keeps_steps)

lemma keeps_write_receipt: "keeps P w \<Longrightarrow> keeps P (snd (write_receipt e f qty cost sal expi bd w))"
  unfolding write_receipt_def Let_def split_beta
  by (auto simp: receipt_args_def args_admitted_def STOCK_AFFECTING_TYPES_def split: sum.split option.split
      intro!: keeps_steps keeps_receipt_product keeps_receipt_batch)

lemma keeps_register_receipt: "keeps P w \<Longrightarrow> keeps P (snd (register_receipt e f w))"
  by (simp add: register_receipt_def Let_def split_beta keeps_write_receipt keeps_parse_op_date
      split: sum.split)

end

end
