(* ===== verification/Paging.thy ===== *)
theory Paging
  imports PyStr
begin

text \<open>
  \<open>src/app/services/pagination.py\<close>: the page slicer and the page-number strip that every list page
  uses. The theorems: the pages of a list, one after another, are the list, and the strip shows
  exactly the first, the last and the neighbouring pages, with a gap mark where pages are left out.
\<close>

definition LIST_PAGE_SIZE :: int where
  "LIST_PAGE_SIZE = 20"

datatype page_mark = Gap | Page int

text \<open>The loop over the ordered indices, with \<open>previous\<close>.\<close>

fun window_marks :: "int option \<Rightarrow> int list \<Rightarrow> page_mark list" where
  "window_marks previous [] = []"
| "window_marks previous (index # rest) =
     (case previous of None \<Rightarrow> [] | Some p \<Rightarrow> if index - p > 1 then [Gap] else [])
     @ Page index # window_marks (Some index) rest"

definition page_indices :: "int \<Rightarrow> int \<Rightarrow> int \<Rightarrow> int list" where
  "page_indices page total_pages spread =
     sort (remdups ([0, total_pages - 1] @ [max 0 (page - spread) .. min total_pages (page + spread + 1) - 1]))"

definition page_window :: "int \<Rightarrow> int \<Rightarrow> int \<Rightarrow> page_mark list" where
  "page_window page total_pages spread =
     (if total_pages \<le> 0 then [] else window_marks None (page_indices page total_pages spread))"

definition total_pages_of :: "int \<Rightarrow> int" where
  "total_pages_of tot = max 1 (- ((- tot) div LIST_PAGE_SIZE))"

definition paginate :: "'a list \<Rightarrow> int \<Rightarrow> 'a list \<times> int \<times> int" where
  "paginate rows page =
     (let tot = int (length rows);
          pages = total_pages_of tot;
          start = max 0 (min page (pages - 1)) * LIST_PAGE_SIZE
      in (take (nat LIST_PAGE_SIZE) (drop (nat start) rows), tot, pages))"

section \<open>Pages\<close>

lemma total_pages_bounds:
  assumes "0 \<le> n"
  shows "n \<le> total_pages_of n * 20" "0 < n \<Longrightarrow> (total_pages_of n - 1) * 20 < n"
  using assms by (auto simp: total_pages_of_def LIST_PAGE_SIZE_def max_def)

lemma paginate_page:
  assumes "0 \<le> k" and "k < total_pages_of (int (length rows))"
  shows "fst (paginate rows k) = take 20 (drop (nat k * 20) rows)"
  using assms by (simp add: paginate_def Let_def LIST_PAGE_SIZE_def nat_mult_distrib)

lemma chunks: "length rows \<le> 20 * n \<Longrightarrow> concat (map (\<lambda>i. take 20 (drop (i * 20) rows)) [0..<n]) = rows"
proof (induction n arbitrary: rows)
  case 0
  then show ?case by simp
next
  case (Suc n)
  have "concat (map (\<lambda>i. take 20 (drop (i * 20) rows)) [0..<Suc n])
      = take 20 rows @ concat (map (\<lambda>i. take 20 (drop (i * 20) (drop 20 rows))) [0..<n])"
    by (simp add: upt_conv_Cons map_Suc_upt[symmetric] comp_def add.commute del: upt_Suc)
  also have "\<dots> = take 20 rows @ drop 20 rows" using Suc by (subst Suc.IH) auto
  finally show ?case by simp
qed

text \<open>Paging loses nothing and repeats nothing: the page slices \<open>0 .. total_pages - 1\<close>, put one after
  another, are the whole list.\<close>

theorem paginate_covers:
  "concat (map (\<lambda>i. fst (paginate rows (int i))) [0..<nat (snd (snd (paginate rows 0)))]) = rows"
proof -
  let ?t = "total_pages_of (int (length rows))"
  have t: "snd (snd (paginate rows 0)) = ?t" by (simp add: paginate_def Let_def)
  have m: "map (\<lambda>i. fst (paginate rows (int i))) [0..<nat ?t] = map (\<lambda>i. take 20 (drop (i * 20) rows)) [0..<nat ?t]"
    by (auto simp: paginate_page)
  have "length rows \<le> 20 * nat ?t" using total_pages_bounds(1)[of "int (length rows)"] by linarith
  then show ?thesis unfolding t m by (rule chunks)
qed

text \<open>Any page number, also one out of range, gives at most a page of rows, and a list with rows
  never shows an empty page.\<close>

theorem paginate_clamped:
  "length (fst (paginate rows page)) \<le> 20 \<and> (fst (paginate rows page) = [] \<longleftrightarrow> rows = [])"
proof -
  let ?t = "total_pages_of (int (length rows))" and ?p = "max 0 (min page (total_pages_of (int (length rows)) - 1))"
  have s: "fst (paginate rows page) = take 20 (drop (nat (?p * 20)) rows)"
    by (simp add: paginate_def Let_def LIST_PAGE_SIZE_def)
  have "nat (?p * 20) < length rows" if "rows \<noteq> []"
  proof -
    have "1 \<le> ?t" by (simp add: total_pages_of_def)
    then have "?p \<le> ?t - 1" by simp
    then have "?p * 20 \<le> (?t - 1) * 20" by (rule mult_right_mono) simp
    also have "\<dots> < int (length rows)" using total_pages_bounds(2)[of "int (length rows)"] that by simp
    finally show ?thesis by (simp add: nat_less_iff)
  qed
  then show ?thesis by (cases "rows = []") (simp add: paginate_def Let_def, simp add: s not_le)
qed

section \<open>The page strip\<close>

lemma set_page_indices:
  assumes "0 \<le> page" and "page < total_pages" and "0 \<le> spread"
  shows "set (page_indices page total_pages spread)
       = {i. 0 \<le> i \<and> i < total_pages \<and> (i = 0 \<or> i = total_pages - 1 \<or> \<bar>i - page\<bar> \<le> spread)}"
  using assms by (auto simp: page_indices_def)

lemma page_indices_sorted: "sorted (page_indices p t s)" "distinct (page_indices p t s)"
  by (simp_all add: page_indices_def)

definition shown :: "page_mark list \<Rightarrow> int list" where
  "shown ms = concat (map (\<lambda>m. case m of Gap \<Rightarrow> [] | Page i \<Rightarrow> [i]) ms)"

lemma shown_marks: "shown (window_marks prev is) = is"
  by (induction "is" arbitrary: prev) (auto simp: shown_def split: option.split)

text \<open>A strip is well marked when neighbouring marks are consecutive pages, or pages around one gap
  that really hides a page.\<close>

fun well_marked :: "page_mark list \<Rightarrow> bool" where
  "well_marked (Page i # Page j # ms) \<longleftrightarrow> j = i + 1 \<and> well_marked (Page j # ms)"
| "well_marked (Page i # Gap # Page j # ms) \<longleftrightarrow> i + 1 < j \<and> well_marked (Page j # ms)"
| "well_marked [Page i] \<longleftrightarrow> True"
| "well_marked [] \<longleftrightarrow> True"
| "well_marked _ \<longleftrightarrow> False"

lemma window_well_marked:
  "sorted (i # is) \<Longrightarrow> distinct (i # is) \<Longrightarrow> well_marked (Page i # window_marks (Some i) is)"
proof (induction "is" arbitrary: i)
  case Nil
  then show ?case by simp
next
  case (Cons j js)
  then have "i < j" "well_marked (Page j # window_marks (Some j) js)" by auto
  then show ?case by auto
qed

text \<open>On a page of the list the strip shows, in increasing order, exactly the first page, the last
  page and the pages at most \<open>spread\<close> away, and a gap mark stands exactly where pages are left out.\<close>

theorem page_window_spec:
  assumes "0 \<le> page" and "page < total_pages" and "0 \<le> spread"
  shows "well_marked (page_window page total_pages spread)
    \<and> sorted (shown (page_window page total_pages spread)) \<and> distinct (shown (page_window page total_pages spread))
    \<and> set (shown (page_window page total_pages spread))
      = {i. 0 \<le> i \<and> i < total_pages \<and> (i = 0 \<or> i = total_pages - 1 \<or> \<bar>i - page\<bar> \<le> spread)}"
proof -
  have w: "page_window page total_pages spread = window_marks None (page_indices page total_pages spread)"
    using assms by (simp add: page_window_def)
  have "well_marked (window_marks None is)" if "sorted is" "distinct is" for "is"
    using window_well_marked that by (cases "is") auto
  then show ?thesis
    using set_page_indices[OF assms] page_indices_sorted by (simp add: w shown_marks)
qed

end
