(* ===== verification/Reports.thy ===== *)
theory Reports
  imports Moves
begin

text \<open>
  The period reports of \<open>src/app/services/reports.py\<close> and \<open>finance_reports.py\<close>. Every report filters
  a ledger by business date (a row without one by the day of its timestamp), by one currency and,
  for an operator, by warehouse, and groups what is left. The theorems are the reconciliations
  the reports promise: totals equal the sum of the rows they group, and the two cash reports agree.
\<close>

section \<open>The shared predicates\<close>

definition business_day :: "string option \<Rightarrow> string \<Rightarrow> string" where
  "business_day bd at = (case bd of Some s \<Rightarrow> s | None \<Rightarrow> take 10 at)"

definition op_in_period :: "string \<Rightarrow> string \<Rightarrow> operation \<Rightarrow> bool" where
  "op_in_period start stop o1 \<longleftrightarrow> start \<le> business_day (o_business_date o1) (o_created_at o1)
     \<and> business_day (o_business_date o1) (o_created_at o1) \<le> stop"

definition cash_in_period :: "string \<Rightarrow> string \<Rightarrow> cash_movement \<Rightarrow> bool" where
  "cash_in_period start stop m \<longleftrightarrow> start \<le> business_day (m_business_date m) (m_created_at m)
     \<and> business_day (m_business_date m) (m_created_at m) \<le> stop"

text \<open>\<open>COALESCE(Warehouse.currency, 'RUB')\<close> through the outer joins.\<close>

definition op_currency :: "db \<Rightarrow> operation \<Rightarrow> string" where
  "op_currency d o1 = (case op_warehouse d o1 of None \<Rightarrow> DEFAULT_CURRENCY
     | Some k \<Rightarrow> (case get_warehouse d k of None \<Rightarrow> DEFAULT_CURRENCY | Some wh \<Rightarrow> w_currency wh))"

section \<open>Sales and profit\<close>

record sales_entry =
  e_product :: product
  e_sold :: int
  e_returned :: int
  e_qty :: int
  e_revenue :: int
  e_cost :: int
  e_profit :: int

text \<open>The rows of the report: sales and returns of the period, currency and scope, optionally of one
  author (\<open>if author_id\<close>: an empty id is no filter).\<close>

definition sales_rows ::
  "env \<Rightarrow> db \<Rightarrow> string \<Rightarrow> string \<Rightarrow> string option \<Rightarrow> string \<Rightarrow> (operation \<times> product) list" where
  "sales_rows e d start stop author currency = concat (map (join_product d) (filter
     (\<lambda>o1. (o_type o1 = ''sale'' \<or> o_type o1 = ''return'') \<and> op_in_period start stop o1
        \<and> op_currency d o1 = currency \<and> warehouse_scope e (op_warehouse d o1)
        \<and> (or_empty author = [] \<or> o_author_id o1 = author)) (operations d)))"

definition row_revenue :: "operation \<Rightarrow> int" where
  "row_revenue o1 = (case o_unit_price_cents o1 of None \<Rightarrow> 0 | Some c \<Rightarrow> c) * (- o_qty_delta o1)"

definition row_cost :: "operation \<Rightarrow> int" where
  "row_cost o1 = (case o_unit_cost_cents o1 of None \<Rightarrow> 0 | Some c \<Rightarrow> c * (- o_qty_delta o1))"

definition row_profit :: "operation \<Rightarrow> int" where
  "row_profit o1 = (case o_unit_cost_cents o1 of None \<Rightarrow> 0
     | Some c \<Rightarrow> row_revenue o1 - c * (- o_qty_delta o1))"

definition new_entry :: "product \<Rightarrow> sales_entry" where
  "new_entry p = \<lparr>e_product = p, e_sold = 0, e_returned = 0, e_qty = 0, e_revenue = 0, e_cost = 0, e_profit = 0\<rparr>"

text \<open>One turn of the accumulation loop.\<close>

definition add_row :: "operation \<Rightarrow> sales_entry \<Rightarrow> sales_entry" where
  "add_row o1 en = en\<lparr>
     e_qty := e_qty en + (- o_qty_delta o1),
     e_revenue := e_revenue en + row_revenue o1,
     e_returned := e_returned en + (if o_type o1 = ''return'' then o_qty_delta o1 else 0),
     e_sold := e_sold en + (if o_type o1 = ''return'' then 0 else - o_qty_delta o1),
     e_cost := e_cost en + row_cost o1,
     e_profit := e_profit en + row_profit o1\<rparr>"

fun sales_entries :: "(operation \<times> product) list \<Rightarrow> (string \<times> sales_entry) list \<Rightarrow> (string \<times> sales_entry) list" where
  "sales_entries [] acc = acc"
| "sales_entries ((o1, p) # rows) acc = sales_entries rows
     (dict_set (p_id p) (add_row o1 (case map_of acc (p_id p) of None \<Rightarrow> new_entry p | Some en \<Rightarrow> en)) acc)"

record sales_totals =
  t_units_sold :: int
  t_units_returned :: int
  t_units_net :: int
  t_sales_revenue :: int
  t_returns :: int
  t_revenue :: int
  t_cost :: int
  t_profit :: int
  t_cost_unknown :: nat

text \<open>\<open>sorted(..., key=(qty, sold), reverse=True)\<close>, which keeps the order of equal keys.\<close>

definition by_qty_sold_desc :: "sales_entry list \<Rightarrow> sales_entry list" where
  "by_qty_sold_desc es = rev (sort_key e_qty (sort_key e_sold (rev es)))"

definition sales_profit_report ::
  "env \<Rightarrow> db \<Rightarrow> string \<Rightarrow> string \<Rightarrow> string option \<Rightarrow> string \<Rightarrow> sales_totals \<times> sales_entry list" where
  "sales_profit_report e d start stop author currency =
     (let rows = sales_rows e d start stop author currency;
          entries = map snd (sales_entries rows []);
          returns = sum_list (map (\<lambda>(o1, p). if o_type o1 = ''return'' then row_revenue o1 else 0) rows);
          unknown = length (filter (\<lambda>(o1, p). o_unit_cost_cents o1 = None \<and> o_type o1 = ''sale'') rows);
          total = (\<lambda>f. sum_list (map f entries))
      in (\<lparr>t_units_sold = total e_sold, t_units_returned = total e_returned, t_units_net = total e_qty,
           t_sales_revenue = total e_revenue - returns, t_returns = returns, t_revenue = total e_revenue,
           t_cost = total e_cost, t_profit = total e_profit, t_cost_unknown = unknown\<rparr>,
          by_qty_sold_desc entries))"

section \<open>Write-offs and top sellers\<close>

definition writeoff_rows :: "env \<Rightarrow> db \<Rightarrow> string \<Rightarrow> string \<Rightarrow> (operation \<times> product) list" where
  "writeoff_rows e d start stop = concat (map (join_product d) (filter
     (\<lambda>o1. o_type o1 = ''writeoff'' \<and> op_in_period start stop o1 \<and> warehouse_scope e (op_warehouse d o1))
     (operations d)))"

text \<open>\<open>(op.payload or {}).get("reason_code", "other")\<close>.\<close>

definition reason_of :: "operation \<Rightarrow> string" where
  "reason_of o1 = (case o_payload o1 of Some (P_writeoff r _) \<Rightarrow> r | _ \<Rightarrow> ''other'')"

definition writeoff_report ::
  "env \<Rightarrow> db \<Rightarrow> string \<Rightarrow> string \<Rightarrow> (string \<times> int \<times> (operation \<times> product) list) list \<times> int" where
  "writeoff_report e d start stop =
     (let rows = writeoff_rows e d start stop;
          lines = (\<lambda>r. filter (\<lambda>(o1, p). reason_of o1 = r) rows);
          result = map (\<lambda>r. (r, sum_list (map (\<lambda>(o1, p). - o_qty_delta o1) (lines r)), lines r))
                     (filter (\<lambda>r. lines r \<noteq> []) WRITEOFF_REASONS)
      in (result, sum_list (map (fst \<circ> snd) result)))"

definition top_selling_products ::
  "env \<Rightarrow> db \<Rightarrow> string \<Rightarrow> string \<Rightarrow> nat \<Rightarrow> (product \<times> int) list" where
  "top_selling_products e d start stop limit =
     (let rows = filter (\<lambda>o1. (o_type o1 = ''sale'' \<or> o_type o1 = ''return'') \<and> op_in_period start stop o1
                    \<and> warehouse_scope e (op_warehouse d o1)) (operations d);
          sold = (\<lambda>p. sum_where (\<lambda>o1. o_product_id o1 = p_id p) (\<lambda>o1. - o_qty_delta o1) rows)
      in take limit (map (\<lambda>p. (p, sold p)) (rev (sort_key sold (filter (\<lambda>p. 0 < sold p) (products d))))))"

section \<open>Cash\<close>

definition cash_expense_total :: "db \<Rightarrow> string \<Rightarrow> string \<Rightarrow> string \<Rightarrow> int" where
  "cash_expense_total d start stop currency =
     sum_where (\<lambda>m. m_category m \<in> set (cash_bucket ''withdrawal'') \<and> cash_in_period start stop m
        \<and> m_currency m = currency) m_amount_cents (cash_movements d)"

record flow =
  fl_income :: "(string \<times> int) list"
  fl_income_total :: int
  fl_expense :: "(string \<times> int) list"
  fl_expense_total :: int
  fl_count :: nat

text \<open>The sum of each category that has a row in the period, in category order.\<close>

definition category_totals :: "db \<Rightarrow> string \<Rightarrow> string \<Rightarrow> string \<Rightarrow> (string \<times> int) list" where
  "category_totals d start stop currency =
     (let rows = filter (\<lambda>m. cash_in_period start stop m \<and> m_currency m = currency) (cash_movements d)
      in map (\<lambda>c. (c, sum_where (\<lambda>m. m_category m = c) m_amount_cents rows))
           (filter (\<lambda>c. list_ex (\<lambda>m. m_category m = c) rows) CASH_CATEGORIES))"

definition cash_flow_report :: "db \<Rightarrow> string \<Rightarrow> string \<Rightarrow> string \<Rightarrow> flow" where
  "cash_flow_report d start stop currency =
     (let income_cats = cash_bucket ''sale'' @ cash_bucket ''return'' @ cash_bucket ''deposit'';
          expense_cats = cash_bucket ''withdrawal'';
          totals = category_totals d start stop currency;
          income = filter (\<lambda>(c, v). c \<in> set income_cats) totals;
          expense = filter (\<lambda>(c, v). c \<notin> set income_cats \<and> c \<in> set expense_cats) totals
      in \<lparr>fl_income = income, fl_income_total = sum_list (map snd income), fl_expense = expense,
          fl_expense_total = sum_list (map snd expense), fl_count = length income + length expense\<rparr>)"

section \<open>Stock value\<close>

record valuation =
  va_cost :: int
  va_sale :: int
  va_cost_unknown :: nat
  va_sale_unknown :: nat

text \<open>The open batches of active products in the currency, with the card.\<close>

definition valued_batches :: "env \<Rightarrow> db \<Rightarrow> string \<Rightarrow> (batch \<times> product) list" where
  "valued_batches e d currency = concat (map
     (\<lambda>b. case (get_product d (b_product_id b), get_warehouse d (b_warehouse_id b)) of
        (Some p, Some wh) \<Rightarrow> if 0 < b_quantity b \<and> p_deleted_at p = None \<and> w_currency wh = currency
             \<and> warehouse_scope e (Some (b_warehouse_id b)) then [(b, p)] else []
      | _ \<Rightarrow> []) (batches d))"

definition unit_cost :: "string \<Rightarrow> batch \<times> product \<Rightarrow> int option" where
  "unit_cost currency bp = (case b_cost_cents (fst bp) of Some c \<Rightarrow> Some c
     | None \<Rightarrow> get_price (card_price_fields (Some currency) ''cost'') (snd bp))"

definition unit_sale :: "string \<Rightarrow> batch \<times> product \<Rightarrow> int option" where
  "unit_sale currency bp = (case b_price_cents (fst bp) of Some c \<Rightarrow> Some c
     | None \<Rightarrow> get_price (card_price_fields (Some currency) ''sale'') (snd bp))"

text \<open>\<open>SUM(quantity * unit)\<close> skips the NULL terms; \<open>COUNT(DISTINCT product_id)\<close> counts them.\<close>

definition value_of :: "(batch \<times> product \<Rightarrow> int option) \<Rightarrow> (batch \<times> product) list \<Rightarrow> int" where
  "value_of unit rows = sum_list (map (\<lambda>bp. case unit bp of None \<Rightarrow> 0 | Some c \<Rightarrow> b_quantity (fst bp) * c) rows)"

definition unknown_of :: "(batch \<times> product \<Rightarrow> int option) \<Rightarrow> (batch \<times> product) list \<Rightarrow> nat" where
  "unknown_of unit rows = length (remdups (map (\<lambda>bp. b_product_id (fst bp)) (filter (\<lambda>bp. unit bp = None) rows)))"

definition stock_valuation :: "env \<Rightarrow> db \<Rightarrow> string \<Rightarrow> valuation" where
  "stock_valuation e d currency =
     (let rows = valued_batches e d currency
      in \<lparr>va_cost = value_of (unit_cost currency) rows, va_sale = value_of (unit_sale currency) rows,
          va_cost_unknown = unknown_of (unit_cost currency) rows,
          va_sale_unknown = unknown_of (unit_sale currency) rows\<rparr>)"

section \<open>Reconciliations\<close>

lemma sum_dict_set:
  fixes f :: "'v \<Rightarrow> int"
  assumes "distinct (map fst acc)"
  shows "sum_list (map (f \<circ> snd) (dict_set k v acc))
       = sum_list (map (f \<circ> snd) acc) - (case map_of acc k of None \<Rightarrow> 0 | Some u \<Rightarrow> f u) + f v"
  using assms
proof (induction acc)
  case Nil
  then show ?case by simp
next
  case (Cons x acc)
  then show ?case
    by (cases x) (auto split: option.splits dest: map_of_SomeD simp: image_iff map_of_eq_None_iff)
qed

lemma sum_sales_entries:
  fixes f :: "sales_entry \<Rightarrow> int"
  assumes "distinct (map fst acc)" and "\<And>o1 en. f (add_row o1 en) = f en + g o1" and "\<And>p. f (new_entry p) = 0"
  shows "sum_list (map (f \<circ> snd) (sales_entries rows acc))
       = sum_list (map (f \<circ> snd) acc) + sum_list (map (g \<circ> fst) rows)"
  using assms(1)
proof (induction rows acc rule: sales_entries.induct)
  case (1 acc)
  then show ?case by simp
next
  case (2 o1 p rows acc)
  let ?en = "case map_of acc (p_id p) of None \<Rightarrow> new_entry p | Some en \<Rightarrow> en"
  have "distinct (map fst (dict_set (p_id p) (add_row o1 ?en) acc))"
    using 2(2) by (rule distinct_update)
  from 2(1)[OF this] show ?case
    using sum_dict_set[OF 2(2), of f "p_id p" "add_row o1 ?en"] assms(2,3)
    by (auto simp: comp_def split: option.splits)
qed

lemma add_row_sums:
  "e_sold (add_row o1 en) = e_sold en + (if o_type o1 = ''return'' then 0 else - o_qty_delta o1)"
  "e_returned (add_row o1 en) = e_returned en + (if o_type o1 = ''return'' then o_qty_delta o1 else 0)"
  "e_qty (add_row o1 en) = e_qty en + (- o_qty_delta o1)"
  "e_revenue (add_row o1 en) = e_revenue en + row_revenue o1"
  "e_cost (add_row o1 en) = e_cost en + row_cost o1"
  "e_profit (add_row o1 en) = e_profit en + row_profit o1"
  by (simp_all add: add_row_def)

lemma sum_entries:
  fixes f :: "sales_entry \<Rightarrow> int"
  assumes "\<And>o1 en. f (add_row o1 en) = f en + g o1" and "\<And>p. f (new_entry p) = 0"
  shows "sum_list (map f (map snd (sales_entries rows []))) = sum_list (map (\<lambda>x. g (fst x)) rows)"
  using sum_sales_entries[of "[]" f g rows, OF _ assms] by (simp add: comp_def)

lemma entry_sums:
  "sum_list (map e_qty (map snd (sales_entries rows []))) = sum_list (map (\<lambda>x. - o_qty_delta (fst x)) rows)"
  "sum_list (map e_revenue (map snd (sales_entries rows []))) = sum_list (map (\<lambda>x. row_revenue (fst x)) rows)"
  "sum_list (map e_cost (map snd (sales_entries rows []))) = sum_list (map (\<lambda>x. row_cost (fst x)) rows)"
  "sum_list (map e_profit (map snd (sales_entries rows []))) = sum_list (map (\<lambda>x. row_profit (fst x)) rows)"
  "sum_list (map e_sold (map snd (sales_entries rows [])))
     = sum_list (map (\<lambda>x. if o_type (fst x) = ''return'' then 0 else - o_qty_delta (fst x)) rows)"
  "sum_list (map e_returned (map snd (sales_entries rows [])))
     = sum_list (map (\<lambda>x. if o_type (fst x) = ''return'' then o_qty_delta (fst x) else 0) rows)"
  by (rule sum_entries; simp add: add_row_sums new_entry_def)+

lemma sum_skip:
  fixes f :: "'a \<Rightarrow> int"
  assumes "\<And>x. \<not> q x \<Longrightarrow> f x = 0"
  shows "sum_list (map f (filter p (filter q xs))) = sum_list (map f (filter p xs))"
  using assms by (induction xs) auto

lemma sum_where_filter: "sum_where p v (filter q rows) = sum_where (\<lambda>r. p r \<and> q r) v rows"
  by (induction rows) (auto simp: sum_simps)

lemma row_sums:
  fixes rows :: "(operation \<times> product) list"
  shows "sum_list (map (\<lambda>x. - o_qty_delta (fst x)) rows)
      = sum_list (map (\<lambda>x. if o_type (fst x) = ''return'' then 0 else - o_qty_delta (fst x)) rows)
        - sum_list (map (\<lambda>x. if o_type (fst x) = ''return'' then o_qty_delta (fst x) else 0) rows)"
    and "sum_list (map (\<lambda>x. - o_qty_delta (fst x)) rows) = - sum_list (map o_qty_delta (map fst rows))"
    and "sum_list (map (\<lambda>x. row_revenue (fst x)) rows) = sum_list (map row_revenue (map fst rows))"
    and "sum_list (map (\<lambda>x. row_profit (fst x)) rows)
      = sum_list (map row_revenue (filter (\<lambda>o1. o_unit_cost_cents o1 \<noteq> None) (map fst rows)))
        - sum_list (map (\<lambda>x. row_cost (fst x)) rows)"
    and "sum_list (map (\<lambda>x. row_cost (fst x)) rows)
      = - sum_list (map (\<lambda>o1. the (o_unit_cost_cents o1) * o_qty_delta o1)
           (filter (\<lambda>o1. o_unit_cost_cents o1 \<noteq> None) (map fst rows)))"
  by (induction rows) (auto simp: row_profit_def row_cost_def)

lemma row_types:
  "\<forall>x \<in> set (sales_rows e d start stop author currency). o_type (fst x) = ''sale'' \<or> o_type (fst x) = ''return''"
  by (auto simp: sales_rows_def join_product_def split: option.splits)

lemma sold_revenue:
  assumes "\<forall>x \<in> set rows. o_type (fst x) = ''sale'' \<or> o_type (fst x) = ''return''"
  shows "sum_list (map (\<lambda>x. row_revenue (fst x)) rows)
        - sum_list (map (\<lambda>(o1, p). if o_type o1 = ''return'' then row_revenue o1 else 0) rows)
      = sum_list (map row_revenue (filter (\<lambda>o1. o_type o1 = ''sale'') (map fst rows)))"
  using assms by (induction rows) force+

text \<open>C36: the totals of the sales report are the sums of the ledger rows it selects, whatever the grouping by
  product: revenue is the price times the sold quantity of every row, returns negative; cost and
  profit leave out exactly the rows without a frozen cost; the two visible halves add up to the net
  figures.\<close>

theorem sales_report_reconciles:
  "let t = fst (sales_profit_report e d start stop author currency);
       rows = map fst (sales_rows e d start stop author currency);
       sold = filter (\<lambda>o1. o_type o1 = ''sale'') rows;
       known = filter (\<lambda>o1. o_unit_cost_cents o1 \<noteq> None) rows
   in t_units_net t = t_units_sold t - t_units_returned t
    \<and> t_units_net t = - sum_list (map o_qty_delta rows)
    \<and> t_revenue t = t_sales_revenue t + t_returns t
    \<and> t_sales_revenue t = sum_list (map row_revenue sold)
    \<and> t_revenue t = sum_list (map row_revenue rows)
    \<and> t_profit t = sum_list (map row_revenue known) - t_cost t
    \<and> t_cost t = - sum_list (map (\<lambda>o1. the (o_unit_cost_cents o1) * o_qty_delta o1) known)"
  using row_sums[of "sales_rows e d start stop author currency"]
    sold_revenue[OF row_types, of e d start stop author currency]
  by (simp add: Let_def sales_profit_report_def entry_sums[simplified])

section \<open>Cash reports\<close>

lemma distinct_categories: "distinct CASH_CATEGORIES"
  by code_simp

lemma category_total:
  "sum_list (map snd (filter (\<lambda>(c, v). p c) (category_totals d start stop currency)))
   = sum_where (\<lambda>m. p (m_category m) \<and> m_category m \<in> set CASH_CATEGORIES \<and> cash_in_period start stop m
       \<and> m_currency m = currency) m_amount_cents (cash_movements d)"
proof -
  let ?q = "\<lambda>m. cash_in_period start stop m \<and> m_currency m = currency"
  let ?rows = "filter ?q (cash_movements d)"
  let ?sum = "\<lambda>c. sum_where (\<lambda>m. m_category m = c) m_amount_cents ?rows"
  have none: "?sum c = 0" if "\<not> list_ex (\<lambda>m. m_category m = c) ?rows" for c
    using that by (intro sum_where_zero) (auto simp: list_ex_iff)
  have known: "?sum c = sum_where (\<lambda>m. (p (m_category m) \<and> m_category m \<in> set CASH_CATEGORIES)
      \<and> m_category m = c) m_amount_cents ?rows" if "c \<in> set (filter p CASH_CATEGORIES)" for c
    by (rule sum_where_cong) (use that in auto)
  have "sum_list (map snd (filter (\<lambda>(c, v). p c) (category_totals d start stop currency)))
      = sum_list (map ?sum (filter p (filter (\<lambda>c. list_ex (\<lambda>m. m_category m = c) ?rows) CASH_CATEGORIES)))"
    by (simp add: category_totals_def Let_def filter_map comp_def)
  also have "\<dots> = sum_list (map ?sum (filter p CASH_CATEGORIES))"
    using none by (intro sum_skip)
  also have "\<dots> = sum_list (map (\<lambda>c. sum_where (\<lambda>m. (p (m_category m) \<and> m_category m \<in> set CASH_CATEGORIES)
      \<and> m_category m = c) m_amount_cents ?rows) (filter p CASH_CATEGORIES))"
    by (rule arg_cong[of _ _ sum_list], rule map_cong[OF refl], rule known)
  also have "\<dots> = sum_where (\<lambda>m. p (m_category m) \<and> m_category m \<in> set CASH_CATEGORIES) m_amount_cents ?rows"
    by (rule sum_where_group[symmetric]) (auto intro: distinct_filter distinct_categories)
  finally show ?thesis by (simp only: sum_where_filter conj_assoc)
qed

lemma withdrawals_known:
  "c \<in> set (cash_bucket ''withdrawal'') \<Longrightarrow> c \<in> set CASH_CATEGORIES"
  "c \<in> set (cash_bucket ''withdrawal'') \<Longrightarrow>
   c \<notin> set (cash_bucket ''sale'' @ cash_bucket ''return'' @ cash_bucket ''deposit'')"
proof -
  have "set (cash_bucket ''withdrawal'') \<subseteq> set CASH_CATEGORIES"
    and "set (cash_bucket ''withdrawal'') \<inter>
      set (cash_bucket ''sale'' @ cash_bucket ''return'' @ cash_bucket ''deposit'') = {}"
    by code_simp+
  then show "c \<in> set (cash_bucket ''withdrawal'') \<Longrightarrow> c \<in> set CASH_CATEGORIES"
    and "c \<in> set (cash_bucket ''withdrawal'') \<Longrightarrow>
      c \<notin> set (cash_bucket ''sale'' @ cash_bucket ''return'' @ cash_bucket ''deposit'')"
    by blast+
qed

lemma buckets_exhaust:
  "c \<in> set CASH_CATEGORIES \<longleftrightarrow>
   c \<in> set (cash_bucket ''sale'' @ cash_bucket ''return'' @ cash_bucket ''deposit'') \<or> c \<in> set (cash_bucket ''withdrawal'')"
proof -
  have "set CASH_CATEGORIES
      = set (cash_bucket ''sale'' @ cash_bucket ''return'' @ cash_bucket ''deposit'') \<union> set (cash_bucket ''withdrawal'')"
    by code_simp
  then show ?thesis by blast
qed

text \<open>The cash-flow report and the net-profit tile never disagree: for the same period and currency
  the report's expense total is \<open>cash_expense_total\<close>.\<close>

theorem cash_reports_agree:
  "fl_expense_total (cash_flow_report d start stop currency) = cash_expense_total d start stop currency"
  unfolding cash_flow_report_def cash_expense_total_def Let_def flow.simps category_total
  by (rule sum_where_cong) (auto dest: withdrawals_known)

lemma flow_total:
  assumes "\<forall>m \<in> set (cash_movements d). m_category m \<in> set CASH_CATEGORIES"
  shows "fl_income_total (cash_flow_report d start stop currency) + fl_expense_total (cash_flow_report d start stop currency)
    = sum_where (\<lambda>m. cash_in_period start stop m \<and> m_currency m = currency) m_amount_cents (cash_movements d)"
  unfolding cash_flow_report_def Let_def flow.simps category_total
  using assms
  by (subst (3) sum_where_split[where q = "\<lambda>m. m_category m \<in> set (cash_bucket ''sale'' @ cash_bucket ''return'' @ cash_bucket ''deposit'')"])
     (intro arg_cong2[where f = "(+)"] sum_where_cong, auto simp: buckets_exhaust simp del: set_append)

section \<open>Write-offs by reason\<close>

lemma reason_lines:
  fixes rows :: "(operation \<times> product) list"
  shows "map fst (filter (\<lambda>(o1, p). reason_of o1 = r) rows) = filter (\<lambda>o1. reason_of o1 = r) (map fst rows)"
    and "sum_list (map (\<lambda>(o1, p). - o_qty_delta o1) (filter (\<lambda>(o1, p). reason_of o1 = r) rows))
      = - sum_where (\<lambda>o1. reason_of o1 = r) o_qty_delta (map fst rows)"
    and "filter (\<lambda>(o1, p). reason_of o1 = r) rows \<noteq> [] \<longleftrightarrow> (\<exists>o1 \<in> set (map fst rows). reason_of o1 = r)"
  by (induction rows) (auto simp: sum_simps)

lemma reasons_total:
  "sum_list (map (\<lambda>r. - sum_where (\<lambda>o1. reason_of o1 = r) o_qty_delta rows)
      (filter (\<lambda>r. \<exists>o1 \<in> set rows. reason_of o1 = r) WRITEOFF_REASONS))
   = - sum_where (\<lambda>o1. reason_of o1 \<in> set WRITEOFF_REASONS) o_qty_delta rows"
proof -
  have "distinct WRITEOFF_REASONS" by code_simp
  then have "sum_where (\<lambda>o1. reason_of o1 \<in> set WRITEOFF_REASONS) o_qty_delta rows = sum_list (map (\<lambda>r.
      sum_where (\<lambda>o1. reason_of o1 \<in> set WRITEOFF_REASONS \<and> reason_of o1 = r) o_qty_delta rows) WRITEOFF_REASONS)"
    by (intro sum_where_group)
  also have "\<dots> = sum_list (map (\<lambda>r. sum_where (\<lambda>o1. reason_of o1 = r) o_qty_delta rows) WRITEOFF_REASONS)"
    by (rule arg_cong[of _ _ sum_list], rule map_cong[OF refl], rule sum_where_cong) auto
  also have "\<dots> = sum_list (map (\<lambda>r. sum_where (\<lambda>o1. reason_of o1 = r) o_qty_delta rows)
      (filter (\<lambda>r. \<exists>o1 \<in> set rows. reason_of o1 = r) WRITEOFF_REASONS))"
    by (rule sum_skip[where p = "\<lambda>_. True", simplified, symmetric]) (auto intro: sum_where_zero)
  finally show ?thesis by (simp add: uminus_sum_list_map comp_def)
qed

text \<open>The write-off report lists exactly the known reasons present in the period, in declaration order, each
  with its rows; a reason's quantity and the grand total are the negated ledger deltas.\<close>

theorem writeoff_report_reconciles:
  "let rows = map fst (writeoff_rows e d start stop); (by_reason, total_qty) = writeoff_report e d start stop
   in map fst by_reason = filter (\<lambda>r. \<exists>o1 \<in> set rows. reason_of o1 = r) WRITEOFF_REASONS
    \<and> (\<forall>(r, qty, lines) \<in> set by_reason. map fst lines = filter (\<lambda>o1. reason_of o1 = r) rows
         \<and> qty = - sum_where (\<lambda>o1. reason_of o1 = r) o_qty_delta rows)
    \<and> total_qty = - sum_where (\<lambda>o1. reason_of o1 \<in> set WRITEOFF_REASONS) o_qty_delta rows"
  using reasons_total[of "map fst (writeoff_rows e d start stop)"]
  by (auto simp: writeoff_report_def Let_def reason_lines comp_def)

end
