(* ===== verification/Warehouses.thy ===== *)
theory Warehouses
  imports Batches Paging Reports
begin

text \<open>
  \<open>src/app/services/warehouses.py\<close>: the warehouse directory. A warehouse carries the currency of all
  the money of its batches; it is deleted softly, never with stock on hand, and the last active one
  only after a confirmation. The writes touch no other table.
\<close>

section \<open>Rows\<close>

definition add_warehouse_row :: "warehouse \<Rightarrow> db \<Rightarrow> db" where
  "add_warehouse_row wh d = d\<lparr>warehouses := warehouses d @ [wh]\<rparr>"

definition upd_warehouse :: "string \<Rightarrow> (warehouse \<Rightarrow> warehouse) \<Rightarrow> db \<Rightarrow> db" where
  "upd_warehouse k f d = d\<lparr>warehouses := tupd w_id k f (warehouses d)\<rparr>"

definition commit_result :: "'a \<Rightarrow> world \<Rightarrow> ('a, 'b) outcome \<times> world" where
  "commit_result a w = (case commit w of (Some x, w1) \<Rightarrow> (Raised x, w1) | (None, w1) \<Rightarrow> (Ok a, w1))"

section \<open>Operations\<close>

definition clean_currency :: "string \<Rightarrow> string \<times> errors" where
  "clean_currency currency =
     (let c = upper (strip currency) in
      if c = [] then (DEFAULT_CURRENCY, [])
      else if \<not> known_currency c then (DEFAULT_CURRENCY, [(''currency'', CurrencyInvalid)])
      else (c, []))"

definition add_warehouse ::
  "env \<Rightarrow> string \<Rightarrow> string \<Rightarrow> string \<Rightarrow> world \<Rightarrow> (warehouse, unit) outcome \<times> world" where
  "add_warehouse e name address currency w =
     (let (c, es0) = clean_currency currency;
          es = (if strip name = [] then dict_set ''name'' WarehouseNameRequired es0 else es0)
      in if es \<noteq> [] then (Errors es, w)
         else (let (i, w1) = new_id e w; (at, w2) = utcnow_iso e w1;
                   wh = \<lparr>w_id = i, w_name = strip name, w_address = or_none (strip address), w_currency = c,
                         w_created_at = at, w_deleted_at = None\<rparr>
               in commit_result wh (stage (add_warehouse_row wh) (thas w_id i (warehouses (cur w))) w2)))"

definition update_warehouse ::
  "env \<Rightarrow> string \<Rightarrow> string \<Rightarrow> string \<Rightarrow> string \<Rightarrow> world \<Rightarrow> (warehouse, unit) outcome \<times> world" where
  "update_warehouse e k name address currency w =
     (case get_warehouse (cur w) k of
        None \<Rightarrow> (Errors [(''warehouse'', WarehouseMissing)], w)
      | Some wh \<Rightarrow>
          if w_deleted_at wh \<noteq> None then (Errors [(''warehouse'', WarehouseMissing)], w)
          else (let (c, es0) = (if strip currency \<noteq> [] then clean_currency currency else (w_currency wh, []));
                    es = (if strip name = [] then dict_set ''name'' WarehouseNameRequired es0 else es0);
                    g = (\<lambda>wh. wh\<lparr>w_name := strip name, w_address := or_none (strip address), w_currency := c\<rparr>)
                in if es \<noteq> [] then (Errors es, w)
                   else commit_result (g wh) (stage (upd_warehouse k g) False w)))"

definition restore_warehouse :: "env \<Rightarrow> string \<Rightarrow> world \<Rightarrow> (unit, unit) outcome \<times> world" where
  "restore_warehouse e k w =
     (case get_warehouse (cur w) k of
        None \<Rightarrow> (Ok (), w)
      | Some wh \<Rightarrow>
          if w_deleted_at wh = None then (Ok (), w)
          else commit_result () (stage (upd_warehouse k (\<lambda>wh. wh\<lparr>w_deleted_at := None\<rparr>)) False w))"

definition warehouse_stock :: "db \<Rightarrow> string \<Rightarrow> int" where
  "warehouse_stock d k = sum_where (\<lambda>b. b_warehouse_id b = k) b_quantity (batches d)"

definition active_count :: "db \<Rightarrow> nat" where
  "active_count d = length (filter (\<lambda>wh. w_deleted_at wh = None) (warehouses d))"

text \<open>The pair \<open>(deleted, warning)\<close>.\<close>

datatype delete_warning = NoWarning | StockOnHand int | LastWarehouse warehouse

definition soft_delete_warehouse ::
  "env \<Rightarrow> string \<Rightarrow> bool \<Rightarrow> world \<Rightarrow> (bool \<times> delete_warning, unit) outcome \<times> world" where
  "soft_delete_warehouse e k confirm w =
     (case get_warehouse (cur w) k of
        None \<Rightarrow> (Ok (False, NoWarning), w)
      | Some wh \<Rightarrow>
          if w_deleted_at wh \<noteq> None then (Ok (False, NoWarning), w)
          else if 0 < warehouse_stock (cur w) k then (Ok (False, StockOnHand (warehouse_stock (cur w) k)), w)
          else if \<not> confirm \<and> active_count (cur w) \<le> 1 then (Ok (False, LastWarehouse wh), w)
          else (let (at, w1) = utcnow_iso e w
                in commit_result (True, NoWarning)
                     (stage (upd_warehouse k (\<lambda>wh. wh\<lparr>w_deleted_at := Some at\<rparr>)) False w1)))"

section \<open>The list page\<close>

record warehouse_line =
  wl_warehouse :: warehouse
  wl_item_count :: nat
  wl_last_receipt :: "string option"

definition contains :: "string \<Rightarrow> string \<Rightarrow> bool" where
  "contains hay needle = sublist (lower (strip needle)) (lower hay)"

definition max_text :: "string list \<Rightarrow> string option" where
  "max_text xs = (if xs = [] then None else Some (fold max (tl xs) (hd xs)))"

definition warehouse_line_of :: "db \<Rightarrow> warehouse \<Rightarrow> warehouse_line" where
  "warehouse_line_of d wh =
     (let mine = filter (\<lambda>b. b_warehouse_id b = w_id wh) (batches d)
      in \<lparr>wl_warehouse = wh,
          wl_item_count = length (remdups (map b_product_id (filter (\<lambda>b. 0 < b_quantity b) mine))),
          wl_last_receipt = max_text (map (\<lambda>o1. business_day (o_business_date o1) (o_created_at o1))
            (filter (\<lambda>o1. o_type o1 = ''receipt'' \<and> (\<exists>b \<in> set mine. o_batch_id o1 = Some (b_id b))) (operations d)))\<rparr>)"

definition list_warehouses ::
  "db \<Rightarrow> string \<Rightarrow> string \<Rightarrow> string \<Rightarrow> string \<Rightarrow> int \<Rightarrow> warehouse_line list \<times> int \<times> int" where
  "list_warehouses d name address status sort_by page =
     (let rows1 = (if status = ''deleted'' then filter (\<lambda>wh. w_deleted_at wh \<noteq> None) (warehouses d)
                   else if status = ''all'' then warehouses d
                   else filter (\<lambda>wh. w_deleted_at wh = None) (warehouses d));
          rows2 = (if name = [] then rows1 else filter (\<lambda>wh. contains (w_name wh) name) rows1);
          rows3 = (if address = [] then rows2
                   else filter (\<lambda>wh. contains (or_empty (w_address wh)) address) rows2);
          rows4 = (if sort_by = ''name_asc'' then sort_key (\<lambda>wh. lower (w_name wh)) rows3
                   else if sort_by = ''name_desc'' then rev (sort_key (\<lambda>wh. lower (w_name wh)) (rev rows3))
                   else sort_key (\<lambda>wh. w_deleted_at wh \<noteq> None) (sort_key w_name rows3));
          (page_rows, tot, pages) = paginate rows4 page
      in (map (warehouse_line_of d) page_rows, tot, pages))"

section \<open>Facts\<close>

lemma warehouse_row_frame [simp]:
  "add_warehouse_row wh d = d\<lparr>warehouses := warehouses d @ [wh]\<rparr>"
  "upd_warehouse k f d = d\<lparr>warehouses := tupd w_id k f (warehouses d)\<rparr>"
  by (simp_all add: add_warehouse_row_def upd_warehouse_def)

lemma active_after_delete:
  assumes "distinct (map w_id whs)" and "tget w_id k whs = Some wh" and "w_deleted_at wh = None"
  shows "length (filter (\<lambda>wh. w_deleted_at wh = None) (tupd w_id k (\<lambda>wh. wh\<lparr>w_deleted_at := Some at\<rparr>) whs)) + 1
    = length (filter (\<lambda>wh. w_deleted_at wh = None) whs)"
  using assms
proof (induction whs)
  case Nil
  then show ?case by (simp add: table_simps)
next
  case (Cons x whs)
  show ?case
  proof (cases "w_id x = k")
    case True
    with Cons.prems have "x = wh" "k \<notin> w_id ` set whs" by (auto simp: table_simps)
    moreover from this have "tupd w_id k (\<lambda>wh. wh\<lparr>w_deleted_at := Some at\<rparr>) (x # whs) = x\<lparr>w_deleted_at := Some at\<rparr> # whs"
      using tupd_nohit[of k w_id whs] True by (simp add: tupd_def)
    ultimately show ?thesis using Cons.prems(3) by simp
  next
    case False
    with Cons have "length (filter (\<lambda>wh. w_deleted_at wh = None)
        (tupd w_id k (\<lambda>wh. wh\<lparr>w_deleted_at := Some at\<rparr>) whs)) + 1
      = length (filter (\<lambda>wh. w_deleted_at wh = None) whs)" by (simp add: table_simps)
    with False show ?thesis by (simp add: tupd_def)
  qed
qed

lemma commit_result_Ok:
  "commit_result a w = (Ok r, w') \<Longrightarrow> r = a \<and> saved w' = cur w"
  by (auto simp: commit_result_def commit_def split: if_splits)

lemma commit_result_fail:
  "\<not> is_Ok (fst (commit_result a w)) \<Longrightarrow> saved (snd (commit_result a w)) = saved w"
  by (auto simp: commit_result_def commit_def split: if_splits)

text \<open>A warehouse that was deleted had no stock on hand, is marked as deleted and is the only one whose
  state changed; without a confirmation there is still an active warehouse afterwards.\<close>

theorem warehouse_delete_guard:
  assumes "soft_delete_warehouse e k confirm w = (Ok (True, msg), w')" and "distinct (map w_id (warehouses (cur w)))"
  shows "warehouse_stock (saved w') k \<le> 0
    \<and> (\<exists>wh at. get_warehouse (cur w) k = Some wh \<and> w_deleted_at wh = None
         \<and> get_warehouse (saved w') k = Some (wh\<lparr>w_deleted_at := Some at\<rparr>))
    \<and> active_count (saved w') + 1 = active_count (cur w) \<and> (confirm \<or> 0 < active_count (saved w'))"
proof -
  from assms(1) obtain wh at where wh: "get_warehouse (cur w) k = Some wh" "w_deleted_at wh = None"
    "warehouse_stock (cur w) k \<le> 0" "confirm \<or> 1 < active_count (cur w)"
    and sv: "saved w' = upd_warehouse k (\<lambda>wh. wh\<lparr>w_deleted_at := Some at\<rparr>) (cur w)"
    by (auto simp: soft_delete_warehouse_def Let_def split_beta dest!: commit_result_Ok
        split: option.splits if_splits)
  have "active_count (saved w') + 1 = active_count (cur w)"
    using active_after_delete[OF assms(2) wh(1,2), of at] by (simp add: sv active_count_def)
  with wh show ?thesis by (auto simp: sv warehouse_stock_def table_simps)
qed

lemma warehouse_refused:
  "\<not> is_Ok (fst (add_warehouse e nm ad ccy w)) \<Longrightarrow> saved (snd (add_warehouse e nm ad ccy w)) = saved w"
  "\<not> is_Ok (fst (update_warehouse e k nm ad ccy w)) \<Longrightarrow> saved (snd (update_warehouse e k nm ad ccy w)) = saved w"
  "\<not> is_Ok (fst (restore_warehouse e k w)) \<Longrightarrow> saved (snd (restore_warehouse e k w)) = saved w"
  "\<not> is_Ok (fst (soft_delete_warehouse e k c w)) \<Longrightarrow> saved (snd (soft_delete_warehouse e k c w)) = saved w"
  by (auto simp: add_warehouse_def update_warehouse_def restore_warehouse_def soft_delete_warehouse_def Let_def
      split_beta commit_result_fail split: option.splits if_splits)

context write_path
begin

lemma keeps_warehouses:
  "keeps P w \<Longrightarrow> keeps P (stage (add_warehouse_row wh) c w)"
  "keeps P w \<Longrightarrow> keeps P (stage (upd_warehouse k f) c w)"
  by (rule keeps_stage; simp add: warehouse_law)+

lemma keeps_commit_result: "keeps P w \<Longrightarrow> keeps P (snd (commit_result a w))"
  using keeps_commit[of P w] by (auto simp: commit_result_def split: prod.splits option.splits)

lemma keeps_warehouse_handlers:
  assumes "keeps P w"
  shows "keeps P (snd (add_warehouse e nm ad ccy w))" "keeps P (snd (update_warehouse e k nm ad ccy w))"
    "keeps P (snd (restore_warehouse e k w))" "keeps P (snd (soft_delete_warehouse e k c w))"
  using assms
  by (auto simp: add_warehouse_def update_warehouse_def restore_warehouse_def soft_delete_warehouse_def Let_def
      split_beta simp del: warehouse_row_frame split: option.splits intro!: keeps_commit_result keeps_warehouses)

end

end
