(* ===== verification/System.thy ===== *)
theory System
  imports Writeoffs Corrections Sales Returns Transfers Receipts Warehouses
begin

text \<open>
  The services as one system. A request names the handler a route calls and its form; it runs on
  a session of its own over the committed database and leaves the committed state the session
  had when it was closed (\<open>get_session\<close> of \<open>app/db.py\<close> drops whatever was not committed). A run is any
  sequence of requests under any environments (any user, any clock, any ids), interleaved with
  changes of the tables these services only read.
\<close>

section \<open>One request\<close>

datatype request =
    Sale sale_form
  | Return string string string
  | Writeoff writeoff_form
  | Correction correction_form
  | Transfer transfer_form
  | Receipt receipt_form
  | Create_product product_form
  | Update_product string product_form
  | Soft_delete_product string
  | Quick_delete_product string
  | Restore_product string
  | Update_batch string batch_form
  | Manual_movement string string string string string string
  | Add_warehouse string string string
  | Update_warehouse string string string string
  | Restore_warehouse string
  | Soft_delete_warehouse string bool

fun handle :: "env \<Rightarrow> request \<Rightarrow> world \<Rightarrow> world" where
  "handle e (Sale f) w = snd (register_sale e f w)"
| "handle e (Return oid qty date) w = snd (register_return e oid qty date w)"
| "handle e (Writeoff f) w = snd (register_writeoff e f w)"
| "handle e (Correction f) w = snd (register_correction e f w)"
| "handle e (Transfer f) w = snd (register_transfer e f w)"
| "handle e (Receipt f) w = snd (register_receipt e f w)"
| "handle e (Create_product f) w = snd (create_product e f w)"
| "handle e (Update_product k f) w = snd (update_product e k f w)"
| "handle e (Soft_delete_product k) w = snd (soft_delete_product e k w)"
| "handle e (Quick_delete_product k) w = snd (quick_delete_product e k w)"
| "handle e (Restore_product k) w = snd (restore_product e k w)"
| "handle e (Update_batch k f) w = snd (update_batch e k f w)"
| "handle e (Manual_movement cat amt note ccy conf date) w
     = snd (record_manual_movement e cat amt note ccy conf date w)"
| "handle e (Add_warehouse name address ccy) w = snd (add_warehouse e name address ccy w)"
| "handle e (Update_warehouse k name address ccy) w = snd (update_warehouse e k name address ccy w)"
| "handle e (Restore_warehouse k) w = snd (restore_warehouse e k w)"
| "handle e (Soft_delete_warehouse k confirm) w = snd (soft_delete_warehouse e k confirm w)"

text \<open>Does the handler report success? Anything else is field errors, a warning that waits for a
  confirmation, or an exception.\<close>

fun accepted :: "env \<Rightarrow> request \<Rightarrow> world \<Rightarrow> bool" where
  "accepted e (Sale f) w = is_Ok (fst (register_sale e f w))"
| "accepted e (Return oid qty date) w = is_Ok (fst (register_return e oid qty date w))"
| "accepted e (Writeoff f) w = is_Ok (fst (register_writeoff e f w))"
| "accepted e (Correction f) w = is_Ok (fst (register_correction e f w))"
| "accepted e (Transfer f) w = is_Ok (fst (register_transfer e f w))"
| "accepted e (Receipt f) w = is_Ok (fst (register_receipt e f w))"
| "accepted e (Create_product f) w = is_Ok (fst (create_product e f w))"
| "accepted e (Update_product k f) w = is_Ok (fst (update_product e k f w))"
| "accepted e (Soft_delete_product k) w = is_Ok (fst (soft_delete_product e k w))"
| "accepted e (Quick_delete_product k) w = is_Ok (fst (quick_delete_product e k w))"
| "accepted e (Restore_product k) w = is_Ok (fst (restore_product e k w))"
| "accepted e (Update_batch k f) w = is_Ok (fst (update_batch e k f w))"
| "accepted e (Manual_movement cat amt note ccy conf date) w
     = is_Ok (fst (record_manual_movement e cat amt note ccy conf date w))"
| "accepted e (Add_warehouse name address ccy) w = is_Ok (fst (add_warehouse e name address ccy w))"
| "accepted e (Update_warehouse k name address ccy) w = is_Ok (fst (update_warehouse e k name address ccy w))"
| "accepted e (Restore_warehouse k) w = is_Ok (fst (restore_warehouse e k w))"
| "accepted e (Soft_delete_warehouse k confirm) w = is_Ok (fst (soft_delete_warehouse e k confirm w))"

text \<open>\<open>get_session\<close>: a clean session on the committed state, closed after the request.\<close>

definition open_session :: "db \<Rightarrow> world" where
  "open_session d = \<lparr>cur = d, saved = d, bad = False, ticks = 0, mints = 0\<rparr>"

definition serve :: "env \<Rightarrow> request \<Rightarrow> db \<Rightarrow> db" where
  "serve e r d = saved (handle e r (open_session d))"

context write_path
begin

lemma keeps_handle: "keeps P w \<Longrightarrow> keeps P (handle e r w)"
  by (cases r) (simp_all add: keeps_register_sale keeps_register_return keeps_register_writeoff
      keeps_register_correction keeps_register_transfer keeps_register_receipt keeps_create_product
      keeps_update_product keeps_soft_delete_product keeps_quick_delete_product keeps_restore_product
      keeps_update_batch keeps_manual_movement keeps_warehouse_handlers)

lemma serve_keeps: "P d \<Longrightarrow> P (serve e r d)"
  using keeps_handle[of "open_session d" r] by (simp add: serve_def open_session_def keeps_def)

end

section \<open>A refused request changes nothing\<close>

lemma record_refused:
  "fst (record_operation e a c w) = Inl x \<Longrightarrow> saved (snd (record_operation e a c w)) = saved w"
  by (metis prod.collapse record_operation_Inl)

lemma create_product_refused:
  "\<not> is_Ok (fst (create_product e f w)) \<Longrightarrow> saved (snd (create_product e f w)) = saved w"
  by (auto simp: create_product_def Let_def split_beta split: sum.splits option.splits
      dest: record_refused)

lemma record_all_saved: "saved (snd (record_all e as w)) = saved w"
proof (induction as arbitrary: w)
  case Nil
  then show ?case by simp
next
  case (Cons a as)
  obtain r w1 where ro: "record_operation e a False w = (r, w1)" by fastforce
  then have "saved w1 = saved w" by (rule record_operation_saved)
  with Cons.IH[of w1] show ?case by (auto simp: ro split: sum.splits prod.splits)
qed

lemma update_product_refused:
  assumes "\<not> is_Ok (fst (update_product e k f w))"
  shows "saved (snd (update_product e k f w)) = saved w"
proof -
  have "saved (snd (write_edit e v p w)) = saved w" if "\<not> is_Ok (fst (write_edit e v p w))" for v p
    using that record_all_saved[of e "edit_audit v p" "edit_product (p_id p) (set_card v) w"]
    by (auto simp: write_edit_def commit_def split: sum.splits prod.splits if_splits)
  with assms show ?thesis
    by (auto simp: update_product_def Let_def split: sum.splits option.splits if_splits)
qed

lemma card_flags_refused:
  "\<not> is_Ok (fst (soft_delete_product e k w)) \<Longrightarrow> saved (snd (soft_delete_product e k w)) = saved w"
  "\<not> is_Ok (fst (quick_delete_product e k w)) \<Longrightarrow> saved (snd (quick_delete_product e k w)) = saved w"
  "\<not> is_Ok (fst (restore_product e k w)) \<Longrightarrow> saved (snd (restore_product e k w)) = saved w"
  by (auto simp: soft_delete_product_def quick_delete_product_def restore_product_def commit_def Let_def split_beta
      split: option.splits if_splits)

lemma update_batch_refused:
  "\<not> is_Ok (fst (update_batch e k f w)) \<Longrightarrow> saved (snd (update_batch e k f w)) = saved w"
  by (auto simp: update_batch_def commit_def split_beta split: option.splits if_splits)

lemma record_cash_refused:
  "record_cash_movement e a c w = (Inl x, w') \<Longrightarrow> saved w' = saved w"
  by (cases rule: record_cash_cases[of e a c w]) (auto dest: make_cash_frame split: if_splits)

lemma manual_movement_refused:
  assumes "\<not> is_Ok (fst (record_manual_movement e cat amt note ccy conf date w))"
  shows "saved (snd (record_manual_movement e cat amt note ccy conf date w)) = saved w"
proof -
  obtain parsed es3 where pa: "parse_amount amt
      (if upper (strip ccy) \<noteq> [] \<and> \<not> known_currency (upper (strip ccy)) then dict_set ''currency'' CurrencyMsg
        (if \<not> (is_withdrawal cat \<or> is_deposit cat) then dict_set ''category'' CategoryMsg [] else [])
       else (if \<not> (is_withdrawal cat \<or> is_deposit cat) then dict_set ''category'' CategoryMsg [] else []))
      = (parsed, es3)" by fastforce
  obtain bd es w1 where pd: "parse_op_date e date es3 ''op_date'' w = (bd, es, w1)"
    by (metis prod_cases3)
  have refused: "saved (snd (record_cash_movement e a c w1)) = saved w"
    if "fst (record_cash_movement e a c w1) = Inl x" for a c x
    using that parse_op_date_frame(2)[OF pd] record_cash_refused[of e a c w1 x]
    by (metis prod.collapse)
  show ?thesis
    using assms parse_op_date_frame(2)[OF pd] refused
    unfolding record_manual_movement_def Let_def pa prod.case pd
    by (simp add: split_beta split: sum.splits if_splits)
qed


section \<open>Runs\<close>

text \<open>A database before the first receipt: the tables of warehouses, users, catalogs and the
  dictionary are free.\<close>

definition fresh_db :: "db \<Rightarrow> bool" where
  "fresh_db d \<longleftrightarrow> products d = [] \<and> batches d = [] \<and> operations d = [] \<and> sales d = []
     \<and> cash_movements d = []"

text \<open>A change of the other tables, by services that only write those.\<close>

definition same_stock :: "db \<Rightarrow> db \<Rightarrow> bool" where
  "same_stock d d' \<longleftrightarrow> products d' = products d \<and> batches d' = batches d
     \<and> operations d' = operations d \<and> sales d' = sales d \<and> cash_movements d' = cash_movements d"

inductive step :: "db \<Rightarrow> db \<Rightarrow> bool" where
  served: "step d (serve e r d)"
| elsewhere: "same_stock d d' \<Longrightarrow> step d d'"

inductive reachable :: "db \<Rightarrow> bool" where
  init: "fresh_db d \<Longrightarrow> reachable d"
| more: "reachable d \<Longrightarrow> step d d' \<Longrightarrow> reachable d'"

inductive_cases stepE: "step d d'"

lemma same_stock_laws:
  assumes "same_stock d d'"
  shows "ledger_ok d' = ledger_ok d" "ledgers_numbered d' = ledgers_numbered d"
    "codes_ok d' = codes_ok d" "cash_ok d' = cash_ok d" "extends d d'"
    "returns_capped d' = returns_capped d"
proof -
  have "ledger_ok d'" if "ledger_ok d" "same_stock d d'" for d d'
    using that by (intro ledger_ok_edit[of d d' "\<lambda>p. p" "\<lambda>b. b"]) (auto simp: same_stock_def)
  moreover have "same_stock d' d" using assms by (simp add: same_stock_def)
  ultimately show "ledger_ok d' = ledger_ok d" using assms by blast
qed (use assms in \<open>simp_all add: same_stock_def ledgers_numbered_def codes_ok_def cash_ok_def extends_def
    returns_capped_def returnable_qty_def sold_qty_def returned_qty_def\<close>)

lemma fresh_db_laws:
  assumes "fresh_db d"
  shows "ledger_ok d" "ledgers_numbered d" "codes_ok d" "cash_ok d" "returns_capped d"
  using assms
  by (simp_all add: returns_capped_def returnable_qty_def sold_qty_def returned_qty_def fresh_db_def ledger_ok_defs has_legacy_def null_bucket_def sum_simps
      ledgers_numbered_def numbered_def codes_ok_def active_codes_def cash_ok_def)

lemma step_laws:
  assumes "step d d'"
  shows "ledger_ok d \<Longrightarrow> ledger_ok d'" "ledgers_numbered d \<Longrightarrow> ledgers_numbered d'"
    "codes_ok d \<Longrightarrow> codes_ok d'" "cash_ok d \<Longrightarrow> cash_ok d'" "extends d d'"
    "returns_capped d \<Longrightarrow> returns_capped d'"
  using assms
  by (auto elim!: stepE simp: same_stock_laws
      intro: lok.serve_keeps seqs.serve_keeps codes.serve_keeps cash.serve_keeps hist.serve_keeps
        capped.serve_keeps)

lemma reachable_laws:
  assumes "reachable d"
  shows "ledger_ok d" "ledgers_numbered d" "codes_ok d" "cash_ok d" "returns_capped d"
  using assms by (induction; simp add: fresh_db_laws step_laws(1-4,6))+

section \<open>What every run keeps\<close>

text \<open>C1: in every reachable state each cached quantity is the ledger's: a product's is the sum of its
  rows, a batch's the sum of its rows (a legacy batch's with the rows older than batches), every
  row points to an existing product and to a batch of that product, and a product's quantity is
  the sum of its batches' quantities.\<close>

theorem reachable_caches:
  assumes "reachable d" and "p \<in> set (products d)" and "b \<in> set (batches d)"
  shows "p_quantity p = compute_stock d (p_id p) \<and> b_quantity b = compute_batch_stock d b
    \<and> p_quantity p = rollup d (p_id p) \<and> (\<forall>o1 \<in> set (operations d). op_refs_ok d o1)"
  using reachable_laws(1)[OF assms(1)] assms(2,3) ledger_ok_rollup[of d]
  by (auto simp: ledger_ok_def stock_cached_def batches_cached_def refs_ok_def rollup_ok_def list_all_iff)

text \<open>\<open>rebuild_stock\<close> on a reachable database never fails and changes nothing.\<close>

theorem rebuild_stock_idle:
  assumes "reachable d"
  shows "rebuild_stock (open_session d) = (None, open_session d)"
proof -
  note ok = reachable_laws(1)[OF assms]
  show ?thesis
    using repair_caches_id[OF ok] ledger_ok_rollup[OF ok]
    by (simp add: rebuild_stock_def recompute_derived_def flush_def open_session_def commit_def)
qed

text \<open>History is append-only: along every step both ledgers keep their old rows, unchanged and in
  place, and only grow at the end.\<close>

theorem history_append_only:
  assumes "step d d'"
  shows "\<exists>ops cash. operations d' = operations d @ ops \<and> cash_movements d' = cash_movements d @ cash"
  using step_laws(5)[OF assms] by (auto simp: extends_def prefix_def)

text \<open>C4: no run gives back more than it sold: in every reachable state, for every sale header and every
  product, the units returned under that sale are at most the units sold under it, whatever
  sequence of returns, repeated or in any order, was sent.\<close>

theorem never_over_returned:
  assumes "reachable d"
  shows "returned_qty d sid pid \<le> sold_qty d sid pid"
  using reachable_laws(5)[OF assms] by (simp add: returns_capped_def returnable_qty_def)

text \<open>In every reachable state the pairs (device, sequence number) are distinct in both ledgers, no
  two active cards share a code, and every cash row has a known category and currency and a
  business date.\<close>

theorem reachable_keys:
  assumes "reachable d"
  shows "distinct (map (\<lambda>o1. (o_device_id o1, o_seq o1)) (operations d))
    \<and> distinct (map (\<lambda>m. (m_device_id m, m_seq m)) (cash_movements d))
    \<and> distinct (active_codes (products d))
    \<and> (\<forall>m \<in> set (cash_movements d). m_category m \<in> set CASH_CATEGORIES \<and> known_currency (m_currency m)
         \<and> m_business_date m \<noteq> None)"
  using reachable_laws[OF assms]
  by (simp_all add: ledgers_numbered_def numbered_def codes_ok_def cash_ok_def)

text \<open>C8: whatever request a restricted operator sends, with whatever form values, every row it adds to
  the ledger carries that session's author and device and, if it moves stock, moves a batch in
  one of the operator's warehouses; the one exception is the inbound half of a transfer.\<close>

theorem operator_confined:
  "\<forall>o1 \<in> set (drop (length (operations d)) (operations (serve e r d))). op_in_scope e (serve e r d) o1"
proof -
  have "in_scope e (length (operations d)) d" by (simp add: in_scope_def)
  then have "in_scope e (length (operations d)) (serve e r d)" by (rule scope.serve_keeps)
  then show ?thesis by (simp add: in_scope_def)
qed

end
