(* ===== verification/Triggers.thy ===== *)
theory Triggers
  imports Invariants
begin

text \<open>
  The append-only triggers of \<open>src/app/db.py\<close>. Each \<open>*_no_update\<close> trigger lists the columns that
  may never change and aborts an UPDATE that changes one of them (\<open>IS NOT\<close> is the null-safe
  difference); each \<open>*_no_delete\<close> trigger aborts every DELETE. The theorems show that the lists
  are complete: the only column of a ledger row that can change is the sync cursor.
\<close>

definition operations_no_update :: "operation \<Rightarrow> operation \<Rightarrow> bool" where
  "operations_no_update old_row new_row \<longleftrightarrow>
     o_id new_row \<noteq> o_id old_row \<or> o_type new_row \<noteq> o_type old_row
     \<or> o_product_id new_row \<noteq> o_product_id old_row \<or> o_qty_delta new_row \<noteq> o_qty_delta old_row
     \<or> o_unit_cost_cents new_row \<noteq> o_unit_cost_cents old_row
     \<or> o_unit_price_cents new_row \<noteq> o_unit_price_cents old_row
     \<or> o_payload new_row \<noteq> o_payload old_row \<or> o_sale_id new_row \<noteq> o_sale_id old_row
     \<or> o_batch_id new_row \<noteq> o_batch_id old_row
     \<or> o_reverses_op_id new_row \<noteq> o_reverses_op_id old_row
     \<or> o_author_id new_row \<noteq> o_author_id old_row \<or> o_device_id new_row \<noteq> o_device_id old_row
     \<or> o_seq new_row \<noteq> o_seq old_row \<or> o_created_at new_row \<noteq> o_created_at old_row
     \<or> o_business_date new_row \<noteq> o_business_date old_row
     \<or> o_created_by new_row \<noteq> o_created_by old_row"

definition cash_movements_no_update :: "cash_movement \<Rightarrow> cash_movement \<Rightarrow> bool" where
  "cash_movements_no_update old_row new_row \<longleftrightarrow>
     m_id new_row \<noteq> m_id old_row \<or> m_category new_row \<noteq> m_category old_row
     \<or> m_amount_cents new_row \<noteq> m_amount_cents old_row \<or> m_currency new_row \<noteq> m_currency old_row
     \<or> m_note new_row \<noteq> m_note old_row \<or> m_sale_id new_row \<noteq> m_sale_id old_row
     \<or> m_reverses_movement_id new_row \<noteq> m_reverses_movement_id old_row
     \<or> m_author_id new_row \<noteq> m_author_id old_row \<or> m_device_id new_row \<noteq> m_device_id old_row
     \<or> m_seq new_row \<noteq> m_seq old_row \<or> m_created_at new_row \<noteq> m_created_at old_row
     \<or> m_business_date new_row \<noteq> m_business_date old_row
     \<or> m_created_by new_row \<noteq> m_created_by old_row"

text \<open>A statement \<open>UPDATE ... WHERE sel\<close> that sets each selected row to \<open>f\<close> of it, and a
  \<open>DELETE ... WHERE sel\<close>: \<open>None\<close> is the abort of the whole statement.\<close>

definition update_stmt :: "('r \<Rightarrow> 'r \<Rightarrow> bool) \<Rightarrow> ('r \<Rightarrow> bool) \<Rightarrow> ('r \<Rightarrow> 'r) \<Rightarrow> 'r list \<Rightarrow> 'r list option" where
  "update_stmt trig sel f rows =
     (if list_ex (\<lambda>r. sel r \<and> trig r (f r)) rows then None
      else Some (map (\<lambda>r. if sel r then f r else r) rows))"

definition delete_stmt :: "('r \<Rightarrow> bool) \<Rightarrow> 'r list \<Rightarrow> 'r list option" where
  "delete_stmt sel rows = (if list_ex sel rows then None else Some rows)"

text \<open>The columns as one value, the sync cursor left out.\<close>

definition op_content :: "operation \<Rightarrow> operation" where
  "op_content o1 = o1\<lparr>o_synced_at := None\<rparr>"

definition cash_content :: "cash_movement \<Rightarrow> cash_movement" where
  "cash_content m = m\<lparr>m_synced_at := None\<rparr>"

lemma op_trigger_content: "operations_no_update x y \<longleftrightarrow> op_content x \<noteq> op_content y"
  by (cases x; cases y) (auto simp: operations_no_update_def op_content_def)

lemma cash_trigger_content: "cash_movements_no_update x y \<longleftrightarrow> cash_content x \<noteq> cash_content y"
  by (cases x; cases y) (auto simp: cash_movements_no_update_def cash_content_def)

text \<open>The contract that both triggers provide: an accepted statement keeps the content of every row.\<close>

locale append_only =
  fixes trig :: "'r \<Rightarrow> 'r \<Rightarrow> bool" and content :: "'r \<Rightarrow> 'c"
  assumes guards: "content x \<noteq> content y \<Longrightarrow> trig x y"
begin

lemma update_keeps:
  "update_stmt trig sel f rows = Some rows' \<Longrightarrow> map content rows' = map content rows"
  by (auto simp: update_stmt_def list_ex_iff split: if_splits) (metis guards)

lemma delete_keeps: "delete_stmt sel rows = Some rows' \<Longrightarrow> rows' = rows"
  by (auto simp: delete_stmt_def split: if_splits)

end

interpretation op_trigger: append_only operations_no_update op_content
  by unfold_locales (simp add: op_trigger_content)

interpretation cash_trigger: append_only cash_movements_no_update cash_content
  by unfold_locales (simp add: cash_trigger_content)

text \<open>C35: the trigger on \<open>operations\<close> aborts an UPDATE exactly when it changes something other than
  \<open>synced_at\<close>: no immutable column is missing from its list, and stamping the cursor alone passes.\<close>

theorem operations_trigger_exact:
  "operations_no_update old_row new_row \<longleftrightarrow> new_row \<noteq> old_row\<lparr>o_synced_at := o_synced_at new_row\<rparr>"
  by (cases old_row; cases new_row) (auto simp: operations_no_update_def)

text \<open>The same for \<open>cash_movements\<close>.\<close>

theorem cash_trigger_exact:
  "cash_movements_no_update old_row new_row \<longleftrightarrow> new_row \<noteq> old_row\<lparr>m_synced_at := m_synced_at new_row\<rparr>"
  by (cases old_row; cases new_row) (auto simp: cash_movements_no_update_def)

text \<open>No accepted UPDATE of the operations table changes a balance: every product's recomputed stock
  is the same before and after.\<close>

theorem update_keeps_stock:
  assumes "update_stmt operations_no_update sel f (operations d) = Some rows"
  shows "compute_stock (d\<lparr>operations := rows\<rparr>) pid = compute_stock d pid"
proof -
  have "sum_where (\<lambda>o1. o_product_id (op_content o1) = pid) (\<lambda>o1. o_qty_delta (op_content o1)) xs
      = sum_where (\<lambda>o1. o_product_id o1 = pid) o_qty_delta xs" for xs
    by (simp add: op_content_def)
  moreover have "sum_where (\<lambda>o1. o_product_id (op_content o1) = pid) (\<lambda>o1. o_qty_delta (op_content o1)) xs
      = sum_where (\<lambda>c. o_product_id c = pid) o_qty_delta (map op_content xs)" for xs
    by (induction xs) (simp_all add: sum_simps)
  ultimately show ?thesis
    using op_trigger.update_keeps[OF assms] by (simp add: compute_stock_def) metis
qed

end
