(* ===== verification/RateLimit.thy ===== *)
theory RateLimit
  imports Complex_Main
begin

text \<open>
  \<open>src/app/services/rate_limit.py\<close>: the token bucket of the sync routes. Times and token counts are
  exact rationals (the code's floats are rounded, and the clock is \<open>time.monotonic\<close>). Each call is
  one atomic step, as the lock makes it.
\<close>

definition SYNC_BUCKET_CAPACITY :: rat where
  "SYNC_BUCKET_CAPACITY = 30"

definition SYNC_BUCKET_REFILL_PER_SECOND :: rat where
  "SYNC_BUCKET_REFILL_PER_SECOND = 1 / 2"

type_synonym buckets = "string \<rightharpoonup> rat \<times> rat"

definition check_rate_limit :: "string \<Rightarrow> rat \<Rightarrow> buckets \<Rightarrow> bool \<times> buckets" where
  "check_rate_limit key now bs =
     (let (tokens0, since) = (case bs key of None \<Rightarrow> (SYNC_BUCKET_CAPACITY, now) | Some b \<Rightarrow> b);
          elapsed = max 0 (now - since);
          tokens = min SYNC_BUCKET_CAPACITY (tokens0 + elapsed * SYNC_BUCKET_REFILL_PER_SECOND)
      in if tokens < 1 then (False, bs(key \<mapsto> (tokens, now)))
         else (True, bs(key \<mapsto> (tokens - 1, now))))"

definition reset_buckets :: buckets where
  "reset_buckets = Map.empty"

text \<open>The answers to a sequence of calls.\<close>

fun run_limits :: "(string \<times> rat) list \<Rightarrow> buckets \<Rightarrow> bool list" where
  "run_limits [] bs = []"
| "run_limits ((key, now) # calls) bs =
     (let (ok, bs1) = check_rate_limit key now bs in ok # run_limits calls bs1)"

text \<open>How many calls for one key were allowed.\<close>

definition allowed :: "string \<Rightarrow> (string \<times> rat) list \<Rightarrow> bool list \<Rightarrow> nat" where
  "allowed key calls answers = length (filter (\<lambda>((k, _), ok). k = key \<and> ok) (zip calls answers))"

text \<open>The level of a bucket as it would be read at time \<open>now\<close>.\<close>

definition level :: "string \<Rightarrow> rat \<Rightarrow> buckets \<Rightarrow> rat" where
  "level key now bs = (case bs key of None \<Rightarrow> 30
     | Some (tokens, since) \<Rightarrow> min 30 (tokens + max 0 (now - since) / 2))"

lemma check_rate_limit_key:
  "check_rate_limit key now bs =
     (if level key now bs < 1 then (False, bs(key \<mapsto> (level key now bs, now)))
      else (True, bs(key \<mapsto> (level key now bs - 1, now))))"
  by (cases "bs key")
     (auto simp: check_rate_limit_def level_def SYNC_BUCKET_CAPACITY_def
      SYNC_BUCKET_REFILL_PER_SECOND_def Let_def)

lemma check_rate_limit_other:
  "k \<noteq> key \<Longrightarrow> level k t (snd (check_rate_limit key now bs)) = level k t bs"
  by (auto simp: check_rate_limit_key level_def)

lemma level_le: "level key now bs \<le> 30"
  by (auto simp: level_def split: option.split)

lemma level_later: "s \<le> t \<Longrightarrow> level key t bs \<le> level key s bs + (t - s) / 2"
  by (auto simp: level_def min_def max_def field_simps split: option.split)

lemma level_after:
  assumes "now \<le> t"
  shows "level key t (snd (check_rate_limit key now bs))
      \<le> level key now bs - (if fst (check_rate_limit key now bs) then 1 else 0) + (t - now) / 2"
  using assms by (auto simp: check_rate_limit_key level_def[of key t] min_def)

definition tokens_ok :: "buckets \<Rightarrow> bool" where
  "tokens_ok bs \<longleftrightarrow> (\<forall>key tokens since. bs key = Some (tokens, since) \<longrightarrow> 0 \<le> tokens)"

lemma level_nonneg: "tokens_ok bs \<Longrightarrow> 0 \<le> level key now bs"
proof (cases "bs key")
  case None
  then show ?thesis by (simp add: level_def)
next
  case (Some b)
  obtain tokens since where b: "b = (tokens, since)" by (cases b)
  assume "tokens_ok bs"
  with Some b have "0 \<le> tokens" unfolding tokens_ok_def by blast
  moreover have "0 \<le> max 0 (now - since) / 2" by simp
  ultimately have "0 \<le> tokens + max 0 (now - since) / 2" by (rule add_nonneg_nonneg)
  with Some b show ?thesis by (simp add: level_def)
qed

lemma tokens_ok_step: "tokens_ok bs \<Longrightarrow> tokens_ok (snd (check_rate_limit key now bs))"
  using level_nonneg[of bs key now] by (auto simp: check_rate_limit_key tokens_ok_def)

lemma allowed_bound:
  assumes "sorted (map snd calls)" and "\<forall>c \<in> set calls. start \<le> snd c \<and> snd c \<le> stop" and "start \<le> stop"
    and "tokens_ok bs"
  shows "of_nat (allowed key calls (run_limits calls bs)) \<le> level key start bs + (stop - start) / 2"
  using assms
proof (induction calls arbitrary: bs start)
  case Nil
  then show ?case using level_nonneg[of bs key start] by (simp add: allowed_def)
next
  case (Cons c calls)
  obtain k now where c: "c = (k, now)" by (cases c)
  obtain ok bs1 where st: "check_rate_limit k now bs = (ok, bs1)" by fastforce
  have "tokens_ok bs1" using tokens_ok_step[OF Cons.prems(4), of k now] st by simp
  with Cons.prems c have ih: "of_nat (allowed key calls (run_limits calls bs1)) \<le> level key now bs1 + (stop - now) / 2"
    by (intro Cons.IH) auto
  have later: "level key now bs \<le> level key start bs + (now - start) / 2"
    using Cons.prems c by (intro level_later) auto
  have al: "(of_nat (allowed key (c # calls) (run_limits (c # calls) bs)) :: rat)
      = (if k = key \<and> ok then 1 else 0) + of_nat (allowed key calls (run_limits calls bs1))"
    by (simp add: c st allowed_def)
  show ?case
  proof (cases "k = key")
    case True
    have "level key now bs1 \<le> level key now bs - (if ok then 1 else 0)"
      using level_after[of now now k bs] st True by simp
    with ih later al True show ?thesis by (simp add: field_simps)
  next
    case False
    then have "level key now bs1 = level key now bs"
      using check_rate_limit_other[of key k now now bs] st by simp
    with ih later al False show ?thesis by (simp add: field_simps)
  qed
qed

lemma tokens_ok_reset: "tokens_ok reset_buckets"
  by (simp add: tokens_ok_def reset_buckets_def)

text \<open>The volume cap. Whatever calls arrive, for whatever keys, in the time from \<open>start\<close> to \<open>stop\<close>
  at most 30 plus half of the elapsed seconds are allowed for any one key.\<close>

theorem rate_limit_volume:
  assumes "sorted (map snd calls)" and "\<forall>c \<in> set calls. start \<le> snd c \<and> snd c \<le> stop" and "start \<le> stop"
  shows "of_nat (allowed key calls (run_limits calls reset_buckets)) \<le> (30 :: rat) + (stop - start) / 2"
  using allowed_bound[OF assms tokens_ok_reset, of key] level_le[of key start reset_buckets] by linarith

text \<open>A bucket that has never been used, or that has rested for a minute, admits a full burst: the
  next call is allowed.\<close>

theorem rate_limit_admits:
  assumes "tokens_ok bs" and "\<And>tokens since. bs key = Some (tokens, since) \<Longrightarrow> since + 60 \<le> now"
  shows "fst (check_rate_limit key now bs) \<and> level key now bs = 30"
proof -
  have "level key now bs = 30"
  proof (cases "bs key")
    case None
    then show ?thesis by (simp add: level_def)
  next
    case (Some b)
    obtain tokens since where b: "b = (tokens, since)" by (cases b)
    with Some assms(1) have "0 \<le> tokens" unfolding tokens_ok_def by blast
    moreover have sn: "since + 60 \<le> now" using Some b by (intro assms(2)) simp
    ultimately have "30 \<le> tokens + (now - since) / 2" by (simp add: field_simps)
    moreover have "max 0 (now - since) = now - since" using sn by (simp add: max_def)
    ultimately have "30 \<le> tokens + max 0 (now - since) / 2" by simp
    with Some b show ?thesis by (simp add: level_def)
  qed
  then show ?thesis by (simp add: check_rate_limit_key)
qed

end
