(* ===== verification/Pricing.thy ===== *)
theory Pricing
  imports Batches
begin

text \<open>
  \<open>src/app/services/pricing.py\<close> and \<open>src/app/services/stock.py\<close>: the reference prices of the imported
  catalogs (a history, newest issue first) and the low-stock list, both reads only.
\<close>

section \<open>Catalog prices\<close>

text \<open>\<open>ORDER BY year DESC, number DESC\<close>; a code appears once per issue.\<close>

definition newest_issue_first :: "catalog_price list \<Rightarrow> catalog_price list" where
  "newest_issue_first rows = rev (sort_key cp_year (sort_key cp_number rows))"

definition price_history_for_code :: "db \<Rightarrow> string \<Rightarrow> catalog_price list" where
  "price_history_for_code d code =
     (if strip code = [] then []
      else newest_issue_first (filter (\<lambda>r. cp_code r = strip code) (catalog_prices d)))"

definition latest_price_for_code :: "db \<Rightarrow> string \<Rightarrow> catalog_price option" where
  "latest_price_for_code d code =
     (if strip code = [] then None
      else case newest_issue_first (filter (\<lambda>r. cp_code r = strip code) (catalog_prices d)) of
        [] \<Rightarrow> None | r # _ \<Rightarrow> Some r)"

text \<open>The loop that keeps the first row seen per code.\<close>

fun first_per_code ::
  "catalog_price list \<Rightarrow> (string \<times> int option \<times> int option) list \<Rightarrow> (string \<times> int option \<times> int option) list" where
  "first_per_code [] acc = acc"
| "first_per_code (r # rows) acc = first_per_code rows
     (if map_of acc (cp_code r) = None
      then dict_set (cp_code r) (cp_consultant_cents r, cp_consumer_cents r) acc else acc)"

definition latest_prices_for_codes ::
  "db \<Rightarrow> string list \<Rightarrow> (string \<times> int option \<times> int option) list" where
  "latest_prices_for_codes d codes =
     (let wanted = filter (\<lambda>c. c \<noteq> []) (map strip codes)
      in if wanted = [] then []
         else first_per_code (newest_issue_first (filter (\<lambda>r. cp_code r \<in> set wanted) (catalog_prices d))) [])"

definition reference_prices_for_code :: "db \<Rightarrow> string \<Rightarrow> string option \<Rightarrow> int option \<times> int option" where
  "reference_prices_for_code d code currency =
     (case latest_price_for_code d code of
        None \<Rightarrow> (None, None)
      | Some r \<Rightarrow> (rub_suggestion (cp_consultant_cents r) currency, rub_suggestion (cp_consumer_cents r) currency))"

text \<open>A dict over the issue's rows: a later row of the same code replaces an earlier one.\<close>

definition prices_for_catalog :: "db \<Rightarrow> int \<Rightarrow> int \<Rightarrow> (string \<times> catalog_price) list" where
  "prices_for_catalog d year number =
     foldl (\<lambda>acc r. dict_set (cp_code r) r acc) []
       (filter (\<lambda>r. cp_year r = year \<and> cp_number r = number) (catalog_prices d))"

lemma map_of_first_per_code:
  "map_of (first_per_code rows acc) c =
     (case map_of acc c of Some v \<Rightarrow> Some v
      | None \<Rightarrow> map_option (\<lambda>r. (cp_consultant_cents r, cp_consumer_cents r)) (find (\<lambda>r. cp_code r = c) rows))"
  by (induction rows acc rule: first_per_code.induct) (auto simp: update_conv' split: option.split)

lemma find_hd_filter: "find P xs = (case filter P xs of [] \<Rightarrow> None | x # _ \<Rightarrow> Some x)"
  by (induction xs) auto

lemma filter_newest: "filter P (newest_issue_first rows) = newest_issue_first (filter P rows)"
  by (simp add: newest_issue_first_def rev_filter[symmetric] filter_sort)

text \<open>C34: the one-query batch lookup of a list page gives every wanted code exactly the price pair that
  the single-code lookup gives it, and no entry for a code without a catalog row.\<close>

theorem batch_prices_agree:
  assumes "code \<in> set codes" and "strip code \<noteq> []"
  shows "map_of (latest_prices_for_codes d codes) (strip code)
       = map_option (\<lambda>r. (cp_consultant_cents r, cp_consumer_cents r)) (latest_price_for_code d code)"
proof -
  have mem: "strip code \<in> set (filter (\<lambda>c. c \<noteq> []) (map strip codes))" using assms by auto
  then have ne: "filter (\<lambda>c. c \<noteq> []) (map strip codes) \<noteq> []" by (metis empty_iff list.set(1))
  have "filter (\<lambda>r. cp_code r = strip code) (filter (\<lambda>r. cp_code r \<in> set (filter (\<lambda>c. c \<noteq> []) (map strip codes))) (catalog_prices d))
      = filter (\<lambda>r. cp_code r = strip code) (catalog_prices d)"
    using mem by (auto simp: filter_filter intro!: filter_cong)
  with ne assms show ?thesis
    by (simp add: latest_prices_for_codes_def latest_price_for_code_def Let_def map_of_first_per_code
        find_hd_filter filter_newest split: list.split)
qed

lemma last_is_max: "sorted (map k xs) \<Longrightarrow> q \<in> set xs \<Longrightarrow> k q \<le> k (last xs)" for k :: "'a \<Rightarrow> 'b::linorder"
proof (induction xs)
  case (Cons x xs)
  then show ?case by (cases "xs = []") (auto dest: last_in_set)
qed simp

lemma last_filter: "xs \<noteq> [] \<Longrightarrow> P (last xs) \<Longrightarrow> last (filter P xs) = last xs"
  by (induction xs rule: rev_induct) auto

text \<open>The latest price of a code is a row of that code, and no row of that code is from a newer
  catalog issue.\<close>

theorem latest_price_newest:
  assumes "latest_price_for_code d code = Some r"
  shows "r \<in> set (catalog_prices d) \<and> cp_code r = strip code
    \<and> (\<forall>q \<in> set (catalog_prices d). cp_code q = strip code \<longrightarrow>
         cp_year q < cp_year r \<or> cp_year q = cp_year r \<and> cp_number q \<le> cp_number r)"
proof -
  let ?rows = "filter (\<lambda>r. cp_code r = strip code) (catalog_prices d)"
  let ?s = "sort_key cp_year (sort_key cp_number ?rows)"
  from assms have hd: "?s \<noteq> []" "r = last ?s"
    by (auto simp: latest_price_for_code_def newest_issue_first_def hd_rev[symmetric] split: if_splits list.splits)
  have year: "cp_year q \<le> cp_year r" if "q \<in> set ?rows" for q
    unfolding hd(2) by (rule last_is_max) (use that in simp_all)
  have number: "cp_number q \<le> cp_number r" if "q \<in> set ?rows" "cp_year q = cp_year r" for q
  proof -
    let ?ys = "filter (\<lambda>x. cp_year x = cp_year r) ?s"
    have "?ys = filter (\<lambda>x. cp_year x = cp_year r) (sort_key cp_number ?rows)"
      by (rule sort_key_stable)
    then have "sorted (map cp_number ?ys)" by (simp add: filter_sort)
    moreover have "last ?ys = r" using hd by (simp add: last_filter)
    moreover have "q \<in> set ?ys" using that by simp
    ultimately show ?thesis using last_is_max[of cp_number ?ys q] by simp
  qed
  from hd have "r \<in> set ?rows" using last_in_set[OF hd(1)] by simp
  with year number show ?thesis by (auto simp: le_less)
qed

section \<open>Low stock\<close>

text \<open>The global default threshold (\<open>settings.low_stock_threshold\<close>) is a parameter.\<close>

definition effective_low_stock_threshold :: "int \<Rightarrow> product \<Rightarrow> int" where
  "effective_low_stock_threshold dflt p = (case p_low_stock_threshold p of Some t \<Rightarrow> t | None \<Rightarrow> dflt)"

definition low_stock_products :: "env \<Rightarrow> db \<Rightarrow> int \<Rightarrow> product list" where
  "low_stock_products e d dflt =
     (let ps = filter (\<lambda>p. p_deleted_at p = None) (products d) in
      case scoped_quantities e d None of
        None \<Rightarrow> sort_key p_quantity (filter (\<lambda>p. p_quantity p \<le> effective_low_stock_threshold dflt p) ps)
      | Some qs \<Rightarrow>
          (let qty = (\<lambda>p. case map_of qs (p_id p) of Some n \<Rightarrow> n | None \<Rightarrow> 0)
           in sort_key qty (filter (\<lambda>p. map_of qs (p_id p) \<noteq> None \<and> qty p \<le> effective_low_stock_threshold dflt p) ps)))"

definition all_active_products :: "env \<Rightarrow> db \<Rightarrow> product list" where
  "all_active_products e d =
     (let ps = sort_key (\<lambda>p. or_empty (p_name_lc p)) (filter (\<lambda>p. p_deleted_at p = None) (products d))
      in case scoped_quantities e d None of None \<Rightarrow> ps
         | Some qs \<Rightarrow> filter (\<lambda>p. map_of qs (p_id p) \<noteq> None) ps)"

end
