(* ===== verification/Prefill.thy ===== *)
theory Prefill
  imports Pricing Transfers
begin

text \<open>
  What the forms are filled with before anything is saved: the code lookups of the sale,
  correction and receipt forms and the two price fields of the transfer form, with the dictionary
  lookup of \<open>dictionary.py\<close> they fall back to. All are reads; a converted RUB price is only ever
  a suggestion, and it is listed as converted.
\<close>

definition dictionary_lookup :: "db \<Rightarrow> string \<Rightarrow> dict_entry option" where
  "dictionary_lookup d code =
     (if strip code = [] then None else find (\<lambda>r. d_code r = strip code) (dictionary d))"

section \<open>Sales and corrections\<close>

datatype sale_prefill = From_card string "int option" | From_dictionary string

definition sale_lookup_prefill :: "db \<Rightarrow> string \<Rightarrow> sale_prefill option" where
  "sale_lookup_prefill d code =
     (if strip code = [] then None
      else case active_product d (strip code) of
        Some p \<Rightarrow> Some (From_card (p_name p) (p_sale_cents p))
      | None \<Rightarrow> map_option (\<lambda>r. From_dictionary (d_name r)) (dictionary_lookup d (strip code)))"

text \<open>Name and cached quantity (none for a dictionary name).\<close>

definition correction_lookup_prefill :: "db \<Rightarrow> string \<Rightarrow> (string \<times> int option) option" where
  "correction_lookup_prefill d code =
     (if strip code = [] then None
      else case active_product d (strip code) of
        Some p \<Rightarrow> Some (p_name p, Some (p_quantity p))
      | None \<Rightarrow> map_option (\<lambda>r. (d_name r, None)) (dictionary_lookup d (strip code)))"

section \<open>Receipts\<close>

text \<open>\<open>pf_catalog\<close> is only present for the catalog source; \<open>pf_converted\<close> lists the price kinds whose
  value is a converted RUB price.\<close>

record prefill =
  pf_from_card :: bool
  pf_name :: "string option"
  pf_cost :: "int option"
  pf_sale :: "int option"
  pf_catalog :: "int option"
  pf_converted :: "string list"

text \<open>\<open>x if x is not None else ...\<close>.\<close>

definition or_else :: "'a option \<Rightarrow> 'a option \<Rightarrow> 'a option" where
  "or_else x y = (case x of None \<Rightarrow> y | Some _ \<Rightarrow> x)"

definition card_prefill :: "db \<Rightarrow> product \<Rightarrow> string \<Rightarrow> string \<Rightarrow> prefill" where
  "card_prefill d p code currency =
     (let cost0 = card_price_suggestion p ''cost'' (Some currency);
          sal0 = card_price_suggestion p ''sale'' (Some currency);
          (cost, sal) = (if currency \<noteq> DEFAULT_CURRENCY then
             (case latest_price_for_code d code of None \<Rightarrow> (cost0, sal0)
              | Some r \<Rightarrow> (or_else cost0 (rub_suggestion (cp_consultant_cents r) (Some currency)),
                           or_else sal0 (rub_suggestion (cp_consumer_cents r) (Some currency))))
             else (cost0, sal0))
      in \<lparr>pf_from_card = True, pf_name = Some (p_name p), pf_cost = cost, pf_sale = sal,
          pf_catalog = None,
          pf_converted =
            (if cost \<noteq> None \<and> get_price (card_price_fields (Some currency) ''cost'') p = None then [''cost''] else [])
            @ (if sal \<noteq> None \<and> get_price (card_price_fields (Some currency) ''sale'') p = None then [''sale''] else [])\<rparr>)"

definition catalog_prefill :: "dict_entry option \<Rightarrow> catalog_price option \<Rightarrow> string \<Rightarrow> prefill" where
  "catalog_prefill entry latest currency =
     (let cost = rub_suggestion (Option.bind latest cp_consultant_cents) (Some currency);
          sal = rub_suggestion (Option.bind latest cp_consumer_cents) (Some currency)
      in \<lparr>pf_from_card = False, pf_name = map_option d_name entry, pf_cost = cost, pf_sale = sal,
          pf_catalog = Option.bind latest cp_consumer_cents,
          pf_converted = (if cost \<noteq> None \<and> currency \<noteq> DEFAULT_CURRENCY then [''cost''] else [])
            @ (if sal \<noteq> None \<and> currency \<noteq> DEFAULT_CURRENCY then [''sale''] else [])\<rparr>)"

definition receipt_lookup_prefill :: "db \<Rightarrow> string \<Rightarrow> string \<Rightarrow> prefill option" where
  "receipt_lookup_prefill d code_raw currency =
     (let code = strip code_raw in
      if code = [] then None
      else case active_product d code of
        Some p \<Rightarrow> Some (card_prefill d p code currency)
      | None \<Rightarrow>
          (let entry = dictionary_lookup d code; latest = latest_price_for_code d code
           in if entry \<noteq> None \<or> latest \<noteq> None then Some (catalog_prefill entry latest currency) else None))"

section \<open>Transfers\<close>

record price_form =
  q_code :: string
  q_batch_id :: string
  q_dest_warehouse_id :: string
  q_cost :: string
  q_sale_price :: string
  q_cost_autofilled :: string
  q_sale_autofilled :: string
  q_suggest :: bool

text \<open>The two fields with their autofill flags; the cost guide is an amount, the converted hint of
  the sale price a flag.\<close>

record price_fields =
  pfd_cross :: bool
  pfd_currency :: string
  pfd_cost :: string
  pfd_cost_autofilled :: bool
  pfd_cost_guide :: "int option"
  pfd_sale_price :: string
  pfd_sale_autofilled :: bool
  pfd_sale_converted :: bool

text \<open>The source batch's warehouse when every submitted id resolves, and the destination's.\<close>

definition transfer_pair :: "env \<Rightarrow> db \<Rightarrow> price_form \<Rightarrow> (batch \<times> warehouse \<times> warehouse) option" where
  "transfer_pair e d q =
     (case (active_product d (strip (q_code q)), pick_batch d (q_batch_id q),
            find (\<lambda>wh. w_id wh = strip (q_dest_warehouse_id q)) (active_warehouses e d False)) of
        (Some p, Some b, Some dest) \<Rightarrow>
          (if b_product_id b \<noteq> p_id p then None
           else map_option (\<lambda>src. (b, src, dest)) (get_warehouse d (b_warehouse_id b)))
      | _ \<Rightarrow> None)"

text \<open>One turn of the loop over the two fields: the value, its autofill flag.\<close>

definition price_field ::
  "bool \<Rightarrow> bool \<Rightarrow> bool \<Rightarrow> int option \<Rightarrow> bool \<Rightarrow> string \<Rightarrow> string \<Rightarrow> string \<times> bool" where
  "price_field is_cost cross suggest price converted raw flag =
     (if \<not> is_cost \<and> \<not> cross then ([], False)
      else if suggest \<and> (strip raw = [] \<or> flag = ''true'') then
        (case price of
           Some c \<Rightarrow> if cross \<and> \<not> (is_cost \<and> converted) then (format_cents c, True) else ([], False)
         | None \<Rightarrow> ([], False))
      else (strip raw, flag = ''true''))"

definition transfer_price_fields :: "env \<Rightarrow> db \<Rightarrow> price_form \<Rightarrow> price_fields" where
  "transfer_price_fields e d q =
     (let dest_id = strip (q_dest_warehouse_id q);
          dest_currency = warehouse_currency d (Some dest_id);
          pair = transfer_pair e d q;
          cross = (case pair of None \<Rightarrow> False | Some (b, src, dest) \<Rightarrow> w_currency dest \<noteq> w_currency src);
          pre = (if cross then receipt_lookup_prefill d (q_code q) dest_currency else None);
          cost_price = Option.bind pre pf_cost;
          sale_price = Option.bind pre pf_sale;
          converted = (case pre of None \<Rightarrow> [] | Some p \<Rightarrow> pf_converted p);
          guide = (if cross \<and> (cost_price = None \<or> ''cost'' \<in> set converted) then
             (case pair of None \<Rightarrow> None
              | Some (b, src, dest) \<Rightarrow>
                  if w_currency src = DEFAULT_CURRENCY \<and> b_cost_cents b \<noteq> None
                  then rub_suggestion (b_cost_cents b) (Some dest_currency) else cost_price)
             else None);
          (cost, cost_auto) = price_field True cross (q_suggest q) cost_price
             (''cost'' \<in> set converted) (q_cost q) (q_cost_autofilled q);
          (sal, sale_auto) = price_field False cross (q_suggest q) sale_price
             (''sale'' \<in> set converted) (q_sale_price q) (q_sale_autofilled q)
      in \<lparr>pfd_cross = cross,
          pfd_currency = (if dest_id \<in> w_id ` set (active_warehouses e d False) then dest_currency else []),
          pfd_cost = cost, pfd_cost_autofilled = cost_auto, pfd_cost_guide = guide,
          pfd_sale_price = sal, pfd_sale_autofilled = sale_auto,
          pfd_sale_converted = (cross \<and> sale_auto \<and> ''sale'' \<in> set converted)\<rparr>)"

section \<open>What the suggestions promise\<close>

lemma or_default_RUB [simp]: "or_default (Some ''RUB'') = ''RUB''" "or_default (Some DEFAULT_CURRENCY) = ''RUB''"
  by (simp_all add: or_default_def DEFAULT_CURRENCY_def)

text \<open>In roubles the receipt form of a known code shows exactly the card's own prices, and nothing
  is marked as converted.\<close>

theorem rub_prefill_is_the_card:
  assumes "active_product d (strip code) = Some p" and "strip code \<noteq> []"
  shows "\<exists>f. receipt_lookup_prefill d code DEFAULT_CURRENCY = Some f \<and> pf_name f = Some (p_name p)
    \<and> pf_cost f = p_cost_cents p \<and> pf_sale f = p_sale_cents p \<and> pf_converted f = []"
  using assms
  by (simp add: receipt_lookup_prefill_def card_prefill_def card_price_suggestion_def card_price_fields_def
      get_price_def Let_def DEFAULT_CURRENCY_def rub_suggestion_rub split: option.split)

lemma transfer_fields_unfold:
  "\<exists>cross cost_price sale_price conv_cost conv_sale.
     (pfd_cost (transfer_price_fields e d q), pfd_cost_autofilled (transfer_price_fields e d q))
       = price_field True cross (q_suggest q) cost_price conv_cost (q_cost q) (q_cost_autofilled q)
     \<and> (pfd_sale_price (transfer_price_fields e d q), pfd_sale_autofilled (transfer_price_fields e d q))
       = price_field False cross (q_suggest q) sale_price conv_sale (q_sale_price q) (q_sale_autofilled q)
     \<and> pfd_cross (transfer_price_fields e d q) = cross"
  unfolding transfer_price_fields_def Let_def split_beta
  by (intro exI conjI) (auto simp: prod_eq_iff)

text \<open>The transfer form never replaces what the operator typed: a non-empty cost that was not
  autofilled is kept as typed (stripped), and so is a sale price of a cross-currency transfer.\<close>

theorem typed_prices_kept:
  "(strip (q_cost q) \<noteq> [] \<and> q_cost_autofilled q \<noteq> ''true'' \<longrightarrow>
      pfd_cost (transfer_price_fields e d q) = strip (q_cost q))
   \<and> (strip (q_sale_price q) \<noteq> [] \<and> q_sale_autofilled q \<noteq> ''true'' \<and> pfd_cross (transfer_price_fields e d q)
      \<longrightarrow> pfd_sale_price (transfer_price_fields e d q) = strip (q_sale_price q))"
  using transfer_fields_unfold[of e d q] by (auto simp: price_field_def)

end
