(* ===== verification/Witnesses.thy ===== *)
theory Witnesses
  imports System Triggers RateLimit Pricing Prefill Reports "HOL-Library.Code_Target_Nat" "HOL-Library.Code_Target_Int"
begin

text \<open>
  Concrete instances of the properties that have hypotheses: one operator, one product, two
  rouble warehouses and one in euro, on which every handler is evaluated by the kernel.
\<close>

section \<open>One small shop\<close>

definition env0 :: env where
  "env0 = \<lparr>device_id = ''D'', operator_name = ''Anna'', current_user = Some (''u1'', ''Anna''),
     allowed_warehouses = Some [''W1''], utcnow = (\<lambda>n. ''2026-01-05T10:00:00''),
     today_at = (\<lambda>n. Date 2026 1 5), uuid = (\<lambda>n. replicate (Suc n) (CHR ''i''))\<rparr>"

definition wh0 :: "string \<Rightarrow> string \<Rightarrow> warehouse" where
  "wh0 k ccy = \<lparr>w_id = k, w_name = k, w_address = None, w_currency = ccy, w_created_at = ''t0'', w_deleted_at = None\<rparr>"

definition card0 :: product where
  "card0 = (blank_product ''P1'' ''t0'')\<lparr>p_code := Some ''100'', p_name := ''Cream'', p_cost_cents := Some 700,
     p_sale_cents := Some 1500, p_quantity := 10\<rparr>"

definition batch0 :: batch where
  "batch0 = \<lparr>b_id = ''B1'', b_product_id = ''P1'', b_warehouse_id = ''W1'', b_expiry = None,
     b_price_cents = Some 1500, b_cost_cents = Some 700, b_location = None, b_comment = None,
     b_name = None, b_quantity = 10, b_is_legacy = False, b_created_at = ''t0''\<rparr>"

definition empty_shop :: db where
  "empty_shop = empty_db\<lparr>warehouses := [wh0 ''W1'' ''RUB'', wh0 ''W2'' ''RUB'', wh0 ''W3'' ''EUR'']\<rparr>"

definition shop :: db where
  "shop = empty_shop\<lparr>products := [card0], batches := [batch0]\<rparr>"

definition sale0 :: sale_form where
  "sale0 = \<lparr>sf_customer_id = None, sf_codes = [''100'', ''100''], sf_qtys = [''2'', ''3''],
     sf_prices = [''12,50'', ''15''], sf_batch_ids = [''B1'', ''B1''], sf_confirm = [], sf_op_date = ''2026-01-04''\<rparr>"

definition writeoff0 :: writeoff_form where
  "writeoff0 = \<lparr>wof_code = ''100'', wof_qty = ''4'', wof_reason = ''damaged'', wof_note = [],
     wof_batch_id = ''B1'', wof_confirm = [], wof_op_date = []\<rparr>"

definition correction0 :: correction_form where
  "correction0 = \<lparr>kf_code = ''100'', kf_mode = ''count'', kf_value = ''7'', kf_note = [], kf_batch_id = ''B1'',
     kf_confirm = [], kf_op_date = []\<rparr>"

definition transfer0 :: transfer_form where
  "transfer0 = \<lparr>tf_code = ''100'', tf_qty = ''4'', tf_batch_id = ''B1'', tf_dest_warehouse_id = ''W3'',
     tf_new_expiry = [], tf_new_comment = [], tf_cost = ''8'', tf_sale_price = ''20'', tf_confirm = [], tf_op_date = []\<rparr>"

definition receipt0 :: receipt_form where
  "receipt0 = \<lparr>rf_code = ''100'', rf_name = ''Cream'', rf_qty = ''10'', rf_cost = ''7'', rf_sale = ''15'',
     rf_warehouse_id = ''W1'', rf_batch_choice = ''new'', rf_expiry = [], rf_location = [], rf_comment = [],
     rf_op_date = []\<rparr>"

text \<open>The shop after its first receipt and after a sale on top of it, and its one sold line.\<close>

definition received :: db where
  "received = serve env0 (Receipt receipt0) empty_shop"

definition sold :: db where
  "sold = serve env0 (Sale sale0) shop"

section \<open>Handlers\<close>

lemma ok_outcome: "is_Ok (fst x) \<Longrightarrow> \<exists>r w. x = (Ok r, w)"
  by (cases x) (auto simp: is_Ok_def split: outcome.splits)

lemma ok_sale: "is_Ok (fst (register_sale env0 sale0 (open_session shop)))"
  by code_simp

lemma ok_writeoff: "is_Ok (fst (register_writeoff env0 writeoff0 (open_session shop)))"
  by code_simp

lemma ok_correction: "is_Ok (fst (register_correction env0 correction0 (open_session shop)))"
  by code_simp

lemma ok_transfer: "is_Ok (fst (register_transfer env0 transfer0 (open_session shop)))"
  by code_simp

lemma ok_receipt: "is_Ok (fst (register_receipt env0 receipt0 (open_session empty_shop)))"
  by code_simp

lemma ok_return: "is_Ok (fst (register_return env0 (o_id (hd (operations sold))) ''1'' [] (open_session sold)))"
  by code_simp

lemma run_sale: obtains h n t w' where "register_sale env0 sale0 (open_session shop) = (Ok (h, n, t), w')" "saved w' = sold"
  using ok_outcome[OF ok_sale] by (auto simp: sold_def serve_def)

lemma run_return: obtains p o1 n w' where
    "register_return env0 (o_id (hd (operations sold))) ''1'' [] (open_session sold) = (Ok (p, o1, n), w')"
  using ok_outcome[OF ok_return] by auto

lemma run_transfer: obtains p s b q w' where
    "register_transfer env0 transfer0 (open_session shop) = (Ok (p, s, b, q), w')"
  using ok_outcome[OF ok_transfer] by auto

lemma open_cur [simp]: "cur (open_session d) = d" "saved (open_session d) = d"
  by (simp_all add: open_session_def)

lemma sale_effect_witness:
  "\<exists>h n t w' m. register_sale env0 sale0 (open_session shop) = (Ok (h, n, t), w')
     \<and> last (cash_movements (saved w')) = m \<and> m_amount_cents m = t \<and> m_sale_id m = Some (s_id h)"
proof -
  obtain h n t w' where r: "register_sale env0 sale0 (open_session shop) = (Ok (h, n, t), w')"
    by (rule run_sale)
  from sale_effect[OF r] show ?thesis using r by fastforce
qed

lemma unconfirmed_sale_in_stock_witness:
  "\<exists>h n t w' ls. register_sale env0 sale0 (open_session shop) = (Ok (h, n, t), w')
     \<and> list_all2 (line_ok env0 shop) (non_blank_lines (sf_codes sale0) (sf_qtys sale0) (sf_prices sale0) (sf_batch_ids sale0)) ls"
proof -
  obtain h n t w' where r: "register_sale env0 sale0 (open_session shop) = (Ok (h, n, t), w')"
    by (rule run_sale)
  have "sf_confirm sale0 \<noteq> ''1''" by (simp add: sale0_def)
  from unconfirmed_sale_in_stock[OF r this] show ?thesis using r by fastforce
qed


lemma return_cap_witness:
  "\<exists>p o1 n w'. register_return env0 (o_id (hd (operations sold))) ''1'' [] (open_session sold) = (Ok (p, o1, n), w') \<and> 0 \<le> n"
proof -
  obtain p o1 n w' where r: "register_return env0 (o_id (hd (operations sold))) ''1'' [] (open_session sold) = (Ok (p, o1, n), w')"
    by (rule run_return)
  from return_cap[OF r] show ?thesis using r by blast
qed

lemma writeoff_effect_witness:
  "\<exists>p o1 w'. register_writeoff env0 writeoff0 (open_session shop) = (Ok (p, o1), w')
     \<and> saved w' = append_op o1 shop \<and> o_qty_delta o1 = - 4"
proof -
  obtain p o1 w' where r: "register_writeoff env0 writeoff0 (open_session shop) = (Ok (p, o1), w')"
    using ok_outcome[OF ok_writeoff] by auto
  have "parse_qty (wof_qty writeoff0) = Inr 4" by code_simp
  with writeoff_effect[OF r] show ?thesis using r by auto
qed

lemma correction_effect_witness:
  "\<exists>p o1 n w'. register_correction env0 correction0 (open_session shop) = (Ok (p, o1, n), w')
     \<and> o_type o1 = ''correction'' \<and> o_qty_delta o1 \<noteq> 0"
proof -
  obtain p o1 n w' where r: "register_correction env0 correction0 (open_session shop) = (Ok (p, o1, n), w')"
    using ok_outcome[OF ok_correction] by auto
  from correction_effect[OF r] show ?thesis using r by blast
qed


lemma transfer_currency_witness:
  "\<exists>p s b q w'. register_transfer env0 transfer0 (open_session shop) = (Ok (p, s, b, q), w')
     \<and> b_cost_cents b = Some 800"
proof -
  obtain p s b q w' where r: "register_transfer env0 transfer0 (open_session shop) = (Ok (p, s, b, q), w')"
    by (rule run_transfer)
  have "to_cents (strip (tf_cost transfer0)) = Inr 800" "strip (tf_cost transfer0) \<noteq> []" by code_simp+
  with transfer_currency[OF r] have "b_cost_cents b = Some 800" by (auto split: if_splits)
  with r show ?thesis by blast
qed


section \<open>Runs\<close>

lemma reachable_received: "reachable received"
proof -
  have "fresh_db empty_shop" by code_simp
  from reachable.more[OF reachable.init[OF this] step.served] show ?thesis unfolding received_def .
qed

lemma reachable_caches_witness:
  "p_quantity (hd (products received)) = compute_stock received (p_id (hd (products received)))
   \<and> b_quantity (hd (batches received)) = compute_batch_stock received (hd (batches received))"
proof -
  have "products received \<noteq> []" "batches received \<noteq> []" by code_simp+
  then have "hd (products received) \<in> set (products received)" "hd (batches received) \<in> set (batches received)" by simp_all
  from reachable_caches[OF reachable_received this] show ?thesis by blast
qed

lemma rebuild_stock_idle_witness: "rebuild_stock (open_session received) = (None, open_session received)"
  by (rule rebuild_stock_idle[OF reachable_received])

lemma history_append_only_witness: "\<exists>ops. operations sold = operations shop @ ops"
  using history_append_only[of shop sold] by (auto simp: sold_def intro: step.served)

lemma never_over_returned_witness: "returned_qty received ''s'' ''p'' \<le> sold_qty received ''s'' ''p''"
  by (rule never_over_returned[OF reachable_received])

lemma reachable_keys_witness: "distinct (active_codes (products received))"
  using reachable_keys[OF reachable_received] by blast


lemma operator_confined_witness: "op_in_scope env0 sold (hd (operations sold))"
proof -
  have "operations shop = []" and "operations sold \<noteq> []" by code_simp+
  with operator_confined[of shop env0 "Sale sale0"] show ?thesis by (simp add: sold_def)
qed

lemma warehouse_delete_guard_witness:
  "\<exists>w' msg. soft_delete_warehouse env0 ''W2'' False (open_session shop) = (Ok (True, msg), w') \<and> warehouse_stock (saved w') ''W2'' \<le> 0"
proof -
  have "is_Ok (fst (soft_delete_warehouse env0 ''W2'' False (open_session shop)))"
    and "(case fst (soft_delete_warehouse env0 ''W2'' False (open_session shop)) of Ok (b, m) \<Rightarrow> b | _ \<Rightarrow> False)"
    by code_simp+
  then obtain msg w' where r: "soft_delete_warehouse env0 ''W2'' False (open_session shop) = (Ok (True, msg), w')"
    using ok_outcome by fastforce
  have "distinct (map w_id (warehouses (cur (open_session shop))))" by code_simp
  from warehouse_delete_guard[OF r this] r show ?thesis by blast
qed

section \<open>Reads, dates, money, limits\<close>

lemma update_keeps_stock_witness:
  "\<exists>rows. update_stmt operations_no_update (\<lambda>o1. True) (\<lambda>o1. o1\<lparr>o_synced_at := Some ''t''\<rparr>) (operations sold) = Some rows
     \<and> compute_stock (sold\<lparr>operations := rows\<rparr>) ''P1'' = compute_stock sold ''P1''"
proof -
  have "update_stmt operations_no_update (\<lambda>o1. True) (\<lambda>o1. o1\<lparr>o_synced_at := Some ''t''\<rparr>) (operations sold) \<noteq> None"
    by code_simp
  then obtain rows where "update_stmt operations_no_update (\<lambda>o1. True) (\<lambda>o1. o1\<lparr>o_synced_at := Some ''t''\<rparr>) (operations sold) = Some rows"
    by auto
  from update_keeps_stock[OF this] this show ?thesis by blast
qed

lemma page_window_spec_witness: "set (shown (page_window 5 10 1)) = {i. 0 \<le> i \<and> i < 10 \<and> (i = 0 \<or> i = 9 \<or> \<bar>i - 5\<bar> \<le> 1)}"
  using page_window_spec[of 5 10 1] by simp

lemma rub_prefill_is_the_card_witness:
  "\<exists>f. receipt_lookup_prefill shop ''100'' DEFAULT_CURRENCY = Some f \<and> pf_cost f = Some 700"
proof -
  have "active_product shop (strip ''100'') = Some card0" and "strip ''100'' \<noteq> []" and "p_cost_cents card0 = Some 700"
    by code_simp+
  with rub_prefill_is_the_card[of shop "''100''" card0] show ?thesis by auto
qed

definition price_query :: price_form where
  "price_query = \<lparr>q_code = ''100'', q_batch_id = ''B1'', q_dest_warehouse_id = ''W3'', q_cost = '' 9 '',
     q_sale_price = [], q_cost_autofilled = [], q_sale_autofilled = [], q_suggest = True\<rparr>"

lemma typed_prices_kept_witness: "pfd_cost (transfer_price_fields env0 shop price_query) = ''9''"
proof -
  have "strip (q_cost price_query) = ''9''" and "q_cost_autofilled price_query \<noteq> ''true''" by code_simp+
  with typed_prices_kept[of price_query env0 shop] show ?thesis by auto
qed

definition priced :: db where
  "priced = shop\<lparr>catalog_prices :=
     [\<lparr>cp_id = ''a'', cp_year = 2025, cp_number = 12, cp_code = ''100'', cp_name = None, cp_consumer_cents = Some 900,
       cp_consultant_cents = Some 700, cp_points = None\<rparr>,
      \<lparr>cp_id = ''b'', cp_year = 2026, cp_number = 1, cp_code = ''100'', cp_name = None, cp_consumer_cents = Some 950,
       cp_consultant_cents = None, cp_points = None\<rparr>]\<rparr>"

lemma batch_prices_agree_witness:
  "map_of (latest_prices_for_codes priced ['' 100 '', ''7'']) ''100''
   = map_option (\<lambda>r. (cp_consultant_cents r, cp_consumer_cents r)) (latest_price_for_code priced '' 100 '')"
proof -
  have "strip '' 100 '' = ''100''" by code_simp
  with batch_prices_agree[of "'' 100 ''" "['' 100 '', ''7'']" priced] show ?thesis by simp
qed

lemma latest_price_newest_witness:
  "\<exists>r. latest_price_for_code priced ''100'' = Some r \<and> r \<in> set (catalog_prices priced)"
proof -
  have "latest_price_for_code priced ''100'' \<noteq> None" by code_simp
  then obtain r where "latest_price_for_code priced ''100'' = Some r" by auto
  with latest_price_newest[OF this] show ?thesis by blast
qed

lemma rate_limit_volume_witness:
  "of_nat (allowed ''k'' [(''k'', 0), (''k'', 1)] (run_limits [(''k'', 0), (''k'', 1)] reset_buckets)) \<le> (30 :: rat) + 1 / 2"
  using rate_limit_volume[of "[(''k'', 0), (''k'', 1)]" 0 1 "''k''"] by simp

lemma rate_limit_admits_witness: "fst (check_rate_limit ''k'' 0 reset_buckets)"
  using rate_limit_admits[of reset_buckets "''k''" 0] by (simp add: tokens_ok_def reset_buckets_def)

lemma to_cents_format_cents_witness: "to_cents (format_cents (- 1005)) = Inr (- 1005)"
  by (rule to_cents_format_cents) simp

lemma to_cents_nearest_witness: "2 * int 12345 < (2 * \<bar>1235\<bar> + 1) * 10 ^ nat (- (- 3 + 2))"
proof -
  have "parse_decimal (map (\<lambda>c. if c = CHR '','' then CHR ''.'' else c) (strip ''12,345'')) = Some (False, 12345, - 3)"
    and "to_cents ''12,345'' = Inr 1235" by code_simp+
  from to_cents_nearest[OF this] show ?thesis by simp
qed

lemma iso_dates_faithful_witness: "isoformat (Date 2025 12 31) < isoformat (Date 2026 1 5)"
  using iso_dates_faithful[of "Date 2025 12 31" "Date 2026 1 5"]
  by (simp add: valid_date_def days_in_month_def less_date_def)

lemma accepted_op_date_witness:
  "\<exists>s w1. parse_op_date env0 ''2026-01-04'' [] ''op_date'' (open_session shop) = (Some s, [], w1)
     \<and> s \<le> isoformat (Date 2026 1 5)"
proof -
  have "fst (parse_op_date env0 ''2026-01-04'' [] ''op_date'' (open_session shop)) \<noteq> None"
    and "fst (snd (parse_op_date env0 ''2026-01-04'' [] ''op_date'' (open_session shop))) = []" by code_simp+
  then obtain s w1 where r: "parse_op_date env0 ''2026-01-04'' [] ''op_date'' (open_session shop) = (Some s, [], w1)"
    by (cases "parse_op_date env0 ''2026-01-04'' [] ''op_date'' (open_session shop)") auto
  from accepted_op_date[OF r] r show ?thesis by (auto simp: env0_def)
qed

definition post_request :: http_request where
  "post_request = \<lparr>path = ''/sales'', http_method = ''POST'', csrf_header = ''tok'', csrf_form = []\<rparr>"

definition signed_in :: http_session where
  "signed_in = \<lparr>csrf = ''tok'', session_user = Some ''u1''\<rparr>"

definition staffed :: db where
  "staffed = shop\<lparr>users := [\<lparr>u_id = ''u1'', u_login = ''anna'', u_display_name = ''Anna'', u_role = ''operator'', u_is_active = 1,
     u_password_hash = ''argon2'', u_created_at = ''2026-03-01T09:00:00+00:00''\<rparr>],
     user_warehouses := [(''u1'', ''W1'')]\<rparr>"

lemma auth_guard_sound_witness:
  "\<exists>u ws s. auth_guard ''fresh'' staffed post_request signed_in = (Admitted u ws, s) \<and> u_is_active u = 1"
proof -
  have paths: "path post_request \<notin> set PUBLIC_PATHS" "\<not> startswith (path post_request) SYNC_PATH_PREFIX"
    "\<not> startswith (path post_request) OFFLINE_PATH_PREFIX" by code_simp+
  have "(case fst (auth_guard ''fresh'' staffed post_request signed_in) of Admitted u ws \<Rightarrow> True | _ \<Rightarrow> False)" by code_simp
  then obtain u ws s where r: "auth_guard ''fresh'' staffed post_request signed_in = (Admitted u ws, s)"
    by (cases "auth_guard ''fresh'' staffed post_request signed_in") (auto split: guard_result.splits)
  from auth_guard_sound[OF r paths] r show ?thesis by blast
qed

lemma writeoff_report_reconciles_witness:
  "snd (writeoff_report env0 (serve env0 (Writeoff writeoff0) shop) ''2026-01-01'' ''2026-01-31'')
   = - sum_where (\<lambda>o1. reason_of o1 \<in> set WRITEOFF_REASONS) o_qty_delta
       (map fst (writeoff_rows env0 (serve env0 (Writeoff writeoff0) shop) ''2026-01-01'' ''2026-01-31''))"
  using writeoff_report_reconciles[of env0 "serve env0 (Writeoff writeoff0) shop" "''2026-01-01''" "''2026-01-31''"]
  by (simp add: Let_def split_beta)

end
