(* ===== verification/Accounts.thy ===== *)
theory Accounts
  imports System
begin

text \<open>
  \<open>src/app/services/users.py\<close>, \<open>auth.py\<close> and the sign-in routes of \<open>src/app/routes/auth.py\<close>: the user
  accounts, the warehouses assigned to an operator and the sessions. The password hasher (Argon2)
  is a parameter: hashing takes the salt the library draws, \<open>verify\<close> tells whether a stored hash
  matches, and \<open>needs_rehash\<close> whether its parameters are outdated.
\<close>

section \<open>Passwords\<close>

record hasher =
  ph_hash :: "nat \<Rightarrow> string \<Rightarrow> string"
  ph_verify :: "string \<Rightarrow> string \<Rightarrow> bool"
  ph_needs_rehash :: "string \<Rightarrow> bool"

definition upd_user :: "string \<Rightarrow> (user \<Rightarrow> user) \<Rightarrow> db \<Rightarrow> db" where
  "upd_user k f d = d\<lparr>users := tupd u_id k f (users d)\<rparr>"

definition add_user_row :: "user \<Rightarrow> db \<Rightarrow> db" where
  "add_user_row u d = d\<lparr>users := users d @ [u]\<rparr>"

text \<open>\<open>verify_password\<close>: a match with an outdated hash stores a fresh one and commits.\<close>

definition verify_password :: "hasher \<Rightarrow> nat \<Rightarrow> user \<Rightarrow> string \<Rightarrow> world \<Rightarrow> bool \<times> world" where
  "verify_password h salt u raw w =
     (if \<not> ph_verify h (u_password_hash u) raw then (False, w)
      else if ph_needs_rehash h (u_password_hash u)
      then (True, snd (commit (stage (upd_user (u_id u) (\<lambda>u. u\<lparr>u_password_hash := ph_hash h salt raw\<rparr>)) False w)))
      else (True, w))"

section \<open>User administration\<close>

definition DISPLAY_NAME_MAX :: nat where
  "DISPLAY_NAME_MAX = 100"

definition find_login :: "db \<Rightarrow> string \<Rightarrow> user option" where
  "find_login d l = find (\<lambda>u. u_login u = l) (users d)"

definition create_user ::
  "env \<Rightarrow> hasher \<Rightarrow> nat \<Rightarrow> string \<Rightarrow> string \<Rightarrow> string \<Rightarrow> string \<Rightarrow> world \<Rightarrow> (user, unit) outcome \<times> world" where
  "create_user e h salt display_name login role password w =
     (let name = strip display_name; l = strip login; r = strip role;
          es1 = (if name = [] then [(''display_name'', DisplayNameRequired)] else []);
          es2 = (if l = [] then dict_set ''login'' LoginRequired es1
                 else if find_login (cur w) l \<noteq> None then dict_set ''login'' LoginTaken es1 else es1);
          es3 = (if r \<notin> set ROLES then dict_set ''role'' RoleInvalid es2 else es2);
          es = (if password = [] then dict_set ''password'' PasswordRequired es3 else es3)
      in if es \<noteq> [] then (Errors es, w)
         else (let (i, w1) = new_id e w; (at, w2) = utcnow_iso e w1;
                   u = \<lparr>u_id = i, u_login = l, u_display_name = take DISPLAY_NAME_MAX name, u_role = r, u_is_active = 1,
                        u_password_hash = ph_hash h salt password, u_created_at = at\<rparr>
               in commit_result u (stage (add_user_row u)
                    (thas u_id i (users (cur w)) \<or> find_login (cur w) l \<noteq> None) w2)))"

definition deactivate_user :: "string \<Rightarrow> string \<Rightarrow> world \<Rightarrow> (unit, unit) outcome \<times> world" where
  "deactivate_user k actor_id w =
     (if k = actor_id then (Errors [(''user'', SelfDeactivate)], w)
      else case tget u_id k (users (cur w)) of
          None \<Rightarrow> (Errors [(''user'', UserMissing)], w)
        | Some u \<Rightarrow> commit_result () (stage (upd_user k (\<lambda>u. u\<lparr>u_is_active := 0\<rparr>)) False w))"

definition reactivate_user :: "string \<Rightarrow> world \<Rightarrow> (bool, unit) outcome \<times> world" where
  "reactivate_user k w =
     (case tget u_id k (users (cur w)) of
        None \<Rightarrow> (Ok False, w)
      | Some u \<Rightarrow> if u_is_active u = 1 then (Ok False, w)
          else commit_result True (stage (upd_user k (\<lambda>u. u\<lparr>u_is_active := 1\<rparr>)) False w))"

definition reset_password :: "hasher \<Rightarrow> nat \<Rightarrow> string \<Rightarrow> string \<Rightarrow> world \<Rightarrow> (unit, unit) outcome \<times> world" where
  "reset_password h salt k new_password w =
     (if new_password = [] then (Errors [(''password'', PasswordRequired)], w)
      else case tget u_id k (users (cur w)) of
          None \<Rightarrow> (Errors [(''user'', UserMissing)], w)
        | Some u \<Rightarrow> commit_result ()
            (stage (upd_user k (\<lambda>u. u\<lparr>u_password_hash := ph_hash h salt new_password\<rparr>)) False w))"

definition list_users :: "db \<Rightarrow> user list" where
  "list_users d = sort_key u_display_name (users d)"

text \<open>\<open>user_id -> set of warehouse ids\<close>, for every user with an assignment.\<close>

definition warehouse_assignments :: "db \<Rightarrow> string \<rightharpoonup> string set" where
  "warehouse_assignments d k =
     (let ws = map snd (filter (\<lambda>(i, _). i = k) (user_warehouses d))
      in if ws = [] then None else Some (set ws))"

definition set_user_warehouses :: "string \<Rightarrow> string list \<Rightarrow> world \<Rightarrow> (unit, unit) outcome \<times> world" where
  "set_user_warehouses k warehouse_ids w =
     (case tget u_id k (users (cur w)) of
        None \<Rightarrow> (Errors [(''user'', UserMissing)], w)
      | Some u \<Rightarrow>
          if u_role u = ''administrator'' then (Errors [(''user'', AdminHasAllWarehouses)], w)
          else (let active = map w_id (filter (\<lambda>wh. w_deleted_at wh = None) (warehouses (cur w)));
                    chosen = sort (remdups (filter (\<lambda>i. i \<in> set active) warehouse_ids))
                in commit_result () (stage (\<lambda>d. d\<lparr>user_warehouses :=
                     filter (\<lambda>(i, _). i \<noteq> k) (user_warehouses d) @ map (\<lambda>i. (k, i)) chosen\<rparr>) False w)))"

section \<open>Signing in\<close>

datatype login_result = Redirect_to string | Login_page msg | Setup_page errors

definition login_submit ::
  "hasher \<Rightarrow> nat \<Rightarrow> string \<Rightarrow> string \<Rightarrow> http_session \<Rightarrow> world \<Rightarrow> login_result \<times> http_session \<times> world" where
  "login_submit h salt login password s w =
     (case find_login (cur w) (strip login) of
        None \<Rightarrow> (Login_page BadCredentials, s, w)
      | Some u \<Rightarrow>
          (let (ok, w1) = verify_password h salt u password w in
           if \<not> ok then (Login_page BadCredentials, s, w1)
           else if u_is_active u \<noteq> 1 then (Login_page AccountDisabled, s, w1)
           else (Redirect_to ''/'', s\<lparr>session_user := Some (u_id u)\<rparr>, w1)))"

definition logout :: "http_session \<Rightarrow> login_result \<times> http_session" where
  "logout s = (Redirect_to ''/login'', \<lparr>csrf = [], session_user = None\<rparr>)"

text \<open>First-run setup: the first user is an administrator and is signed in; \<open>None\<close> is the exception of a failed
  commit.\<close>

definition setup_submit ::
  "env \<Rightarrow> hasher \<Rightarrow> nat \<Rightarrow> string \<Rightarrow> string \<Rightarrow> string \<Rightarrow> http_session \<Rightarrow> world
     \<Rightarrow> (login_result \<times> http_session) option \<times> world" where
  "setup_submit e h salt display_name login password s w =
     (if 0 < count_users (cur w) then (Some (Redirect_to ''/login'', s), w)
      else case create_user e h salt display_name login ''administrator'' password w of
          (Ok u, w1) \<Rightarrow> (Some (Redirect_to ''/'', s\<lparr>session_user := Some (u_id u)\<rparr>), w1)
        | (Errors es, w1) \<Rightarrow> (Some (Setup_page es, s), w1)
        | (_, w1) \<Rightarrow> (None, w1))"

section \<open>The routes of the users page\<close>

text \<open>The requests only an administrator gets to (\<open>require_role("administrator")\<close>), with the signed-in actor.\<close>

datatype admin_request =
    New_user string string string string
  | Deactivate string
  | Reactivate string
  | Reset_password string string
  | Assign_warehouses string "string list"

fun handle_admin :: "env \<Rightarrow> hasher \<Rightarrow> nat \<Rightarrow> string \<Rightarrow> admin_request \<Rightarrow> world \<Rightarrow> world" where
  "handle_admin e h salt actor (New_user n l r p) w = snd (create_user e h salt n l r p w)"
| "handle_admin e h salt actor (Deactivate k) w = snd (deactivate_user k actor w)"
| "handle_admin e h salt actor (Reactivate k) w = snd (reactivate_user k w)"
| "handle_admin e h salt actor (Reset_password k p) w = snd (reset_password h salt k p w)"
| "handle_admin e h salt actor (Assign_warehouses k ws) w = snd (set_user_warehouses k ws w)"

text \<open>What the committed database is after a request; nothing when the actor is not an active administrator.\<close>

definition serve_admin :: "env \<Rightarrow> hasher \<Rightarrow> nat \<Rightarrow> string \<Rightarrow> admin_request \<Rightarrow> db \<Rightarrow> db" where
  "serve_admin e h salt actor r d =
     (if require_role ''administrator'' (get_active_user d actor)
      then saved (handle_admin e h salt actor r (open_session d)) else d)"

section \<open>The accounts do not touch the books\<close>

lemma commit_result_frame:
  "snd (commit_result a w) = (if bad w then w else w\<lparr>saved := cur w\<rparr>)"
  by (simp add: commit_result_def commit_def)

text \<open>The committed state after a staged edit of a clean session.\<close>

lemma commit_stage_saved:
  "saved (snd (commit_result a (stage f c w))) = (if bad w \<or> c then saved w else f (cur w))"
  by (simp add: commit_result_frame)

lemma same_stock_refl [simp]: "same_stock d d"
  by (simp add: same_stock_def)

lemma user_edit_same_stock [simp]:
  "same_stock d (upd_user k f d)" "same_stock d (add_user_row u d)"
  "same_stock d (d\<lparr>user_warehouses := uw\<rparr>)"
  by (simp_all add: same_stock_def upd_user_def add_user_row_def)

lemma admin_same_stock: "same_stock d (saved (handle_admin e h salt actor r (open_session d)))"
proof (cases r)
  case (New_user n l ro p)
  then show ?thesis
    by (auto simp: create_user_def Let_def split_beta commit_stage_saved open_session_def[of d] utcnow_iso_def new_id_def)
next
  case (Deactivate k)
  then show ?thesis
    by (auto simp: deactivate_user_def commit_stage_saved open_session_def split: option.split)
next
  case (Reactivate k)
  then show ?thesis
    by (auto simp: reactivate_user_def commit_stage_saved open_session_def split: option.split)
next
  case (Reset_password k p)
  then show ?thesis
    by (auto simp: reset_password_def commit_stage_saved open_session_def split: option.split)
next
  case (Assign_warehouses k ws)
  then show ?thesis
    by (auto simp: set_user_warehouses_def Let_def commit_stage_saved open_session_def split: option.split)
qed

lemma admin_step: "step d (serve_admin e h salt actor r d)"
  using admin_same_stock by (auto simp: serve_admin_def intro: step.elsewhere)

section \<open>Nobody is locked out\<close>

definition is_admin :: "user \<Rightarrow> bool" where
  "is_admin u \<longleftrightarrow> u_role u = ''administrator'' \<and> u_is_active u = 1"

text \<open>The shop can be administered: some user is an active administrator.\<close>

definition administered :: "db \<Rightarrow> bool" where
  "administered d \<longleftrightarrow> (\<exists>u \<in> set (users d). is_admin u)"

inductive accounts_run :: "db \<Rightarrow> db \<Rightarrow> bool" where
  start: "accounts_run d d"
| request: "accounts_run d0 d \<Longrightarrow> accounts_run d0 (serve_admin e h salt actor r d)"

lemma actor_found: 
  assumes "require_role ''administrator'' (get_active_user d actor)"
  obtains u where "tget u_id actor (users d) = Some u" "is_admin u" "u_id u = actor" "u \<in> set (users d)"
  using assms tget_SomeD[of u_id actor "users d"]
  by (auto simp: require_role_def get_active_user_def is_admin_def split: option.splits if_splits)

lemma admin_survives_upd:
  assumes "u \<in> set us" and "is_admin u" and "k \<noteq> u_id u \<or> (\<forall>v. u_role (f v) = u_role v \<and> (u_is_active v = 1 \<longrightarrow> u_is_active (f v) = 1))"
  shows "\<exists>v \<in> set (tupd u_id k f us). is_admin v"
proof -
  have "(if u_id u = k then f u else u) \<in> set (tupd u_id k f us)"
    using assms(1) by (auto simp: set_tupd)
  moreover have "is_admin (if u_id u = k then f u else u)" using assms(2,3) by (auto simp: is_admin_def)
  ultimately show ?thesis by blast
qed

lemma serve_admin_administered:
  assumes "administered d"
  shows "administered (serve_admin e h salt actor r d)"
proof (cases "require_role ''administrator'' (get_active_user d actor)")
  case True
  then obtain u where u: "is_admin u" "u_id u = actor" "u \<in> set (users d)"
    using actor_found by metis
  show ?thesis
  proof (cases r)
    case (New_user n l ro p)
    then show ?thesis using True u
      by (auto simp: serve_admin_def administered_def create_user_def Let_def split_beta commit_stage_saved
          open_session_def utcnow_iso_def new_id_def add_user_row_def)
  next
    case (Deactivate k)
    then show ?thesis using True u admin_survives_upd[OF u(3,1), of k]
      by (auto simp: serve_admin_def administered_def deactivate_user_def commit_stage_saved open_session_def
          upd_user_def split: option.split)
  next
    case (Reactivate k)
    then show ?thesis using True u admin_survives_upd[OF u(3,1), of k "\<lambda>v. v\<lparr>u_is_active := 1\<rparr>"]
      by (auto simp: serve_admin_def administered_def reactivate_user_def commit_stage_saved open_session_def
          upd_user_def split: option.split)
  next
    case (Reset_password k p)
    then show ?thesis using True u admin_survives_upd[OF u(3,1), of k "\<lambda>v. v\<lparr>u_password_hash := ph_hash h salt p\<rparr>"]
      by (auto simp: serve_admin_def administered_def reset_password_def commit_stage_saved open_session_def
          upd_user_def split: option.split)
  next
    case (Assign_warehouses k ws)
    then show ?thesis using True u
      by (auto simp: serve_admin_def administered_def set_user_warehouses_def Let_def commit_stage_saved
          open_session_def split: option.split)
  qed
next
  case False
  then show ?thesis using assms by (simp add: serve_admin_def)
qed

text \<open>C32: the shop never loses its last administrator: whatever users-page requests are sent, by whomever, in
  any order, a shop with an active administrator keeps one.\<close>

theorem never_locked_out:
  assumes "accounts_run d0 d" and "administered d0"
  shows "administered d"
  using assms by (induction rule: accounts_run.induct) (auto intro: serve_admin_administered)

section \<open>Who gets a session\<close>

lemma find_loginD: "find_login d l = Some u \<Longrightarrow> u \<in> set (users d) \<and> u_login u = l"
  by (auto simp: find_login_def find_Some_iff)

text \<open>C34: a session is given only for the right password of an active account: whatever is submitted to the sign-in
  form, the session either stays as it was or names the active user with that login whose stored
  hash the password matches; and a disabled account is only disclosed to someone who knows its
  password.\<close>

theorem login_sound:
  assumes "login_submit h salt login password s w = (r, s1, w1)"
  shows "(s1 = s \<or> (\<exists>u \<in> set (users (cur w)). u_login u = strip login \<and> u_is_active u = 1
            \<and> ph_verify h (u_password_hash u) password \<and> s1 = s\<lparr>session_user := Some (u_id u)\<rparr>))
    \<and> (r = Login_page AccountDisabled \<longrightarrow>
         (\<exists>u \<in> set (users (cur w)). u_login u = strip login \<and> ph_verify h (u_password_hash u) password))"
  using assms find_loginD
  by (fastforce simp: login_submit_def verify_password_def Let_def split: option.splits if_splits prod.splits)

section \<open>The warehouses of an operator\<close>

text \<open>What the administrator assigns is what the next request sees: after a successful assignment the guard
  restricts that operator to exactly the chosen ids that are active warehouses, and no other user's
  warehouses change.\<close>

theorem assignment_takes_effect:
  assumes "set_user_warehouses k ws (open_session d) = (Ok (), w1)"
  shows "\<exists>u. tget u_id k (users d) = Some u \<and> u_role u \<noteq> ''administrator''
    \<and> (\<exists>as. resolve_allowed_warehouses (saved w1) u = Some as
         \<and> set as = {i \<in> set ws. \<exists>wh \<in> set (warehouses d). w_id wh = i \<and> w_deleted_at wh = None})
    \<and> (\<forall>v. u_id v \<noteq> k \<longrightarrow> resolve_allowed_warehouses (saved w1) v = resolve_allowed_warehouses d v)"
proof -
  let ?active = "map w_id (filter (\<lambda>wh. w_deleted_at wh = None) (warehouses d))"
  let ?chosen = "sort (remdups (filter (\<lambda>i. i \<in> set ?active) ws))"
  obtain u where u: "tget u_id k (users d) = Some u" "u_role u \<noteq> ''administrator''"
    using assms by (auto simp: set_user_warehouses_def open_session_def split: option.splits if_splits)
  let ?uw = "filter (\<lambda>(i, _). i \<noteq> k) (user_warehouses d) @ map (\<lambda>i. (k, i)) ?chosen"
  have saved: "saved w1 = d\<lparr>user_warehouses := ?uw\<rparr>"
  proof -
    have w1: "w1 = snd (set_user_warehouses k ws (open_session d))" using assms by simp
    show ?thesis unfolding w1 using u
      by (simp add: set_user_warehouses_def Let_def commit_stage_saved open_session_def)
  qed
  have mine: "filter (\<lambda>(i, _). i = k) ?uw = map (\<lambda>i. (k, i)) ?chosen"
    by (auto simp: filter_map filter_empty_conv comp_def split_beta)
  have others: "filter (\<lambda>(i, _). i = j) ?uw = filter (\<lambda>(i, _). i = j) (user_warehouses d)" if "j \<noteq> k" for j
    using that by (auto simp: filter_map comp_def split_beta intro!: filter_cong)
  have "resolve_allowed_warehouses (saved w1) u = Some ?chosen"
    using u(2) tget_SomeD[OF u(1)] mine
    by (simp add: resolve_allowed_warehouses_def saved comp_def)
  moreover have "resolve_allowed_warehouses (saved w1) v = resolve_allowed_warehouses d v" if "u_id v \<noteq> k" for v
    using others[OF that] by (simp add: resolve_allowed_warehouses_def saved)
  moreover have "set ?chosen = {i \<in> set ws. \<exists>wh \<in> set (warehouses d). w_id wh = i \<and> w_deleted_at wh = None}"
    by auto
  ultimately show ?thesis using u by blast
qed

end
