(* ===== verification/Devices.thy ===== *)
theory Devices
  imports Accounts
begin

text \<open>
  \<open>src/app/services/devices.py\<close> and \<open>require_device\<close> of \<open>src/app/services/security.py\<close>: the bearer tokens of
  the devices that sync. SHA-256 and the random part of a new token are parameters. Only the
  digest and a short prefix of a token are stored; a token is revoked by clearing \<open>is_active\<close>,
  its row stays.
\<close>

definition TOKEN_PLAINTEXT_PREFIX :: string where
  "TOKEN_PLAINTEXT_PREFIX = ''myos_''"

definition TOKEN_PREFIX_LEN :: nat where
  "TOKEN_PREFIX_LEN = 12"

definition LABEL_MAX :: nat where
  "LABEL_MAX = 100"

definition compare_token :: "string \<Rightarrow> string \<Rightarrow> bool" where
  "compare_token a b \<longleftrightarrow> a = b"

definition add_token_row :: "device_token \<Rightarrow> db \<Rightarrow> db" where
  "add_token_row t d = d\<lparr>device_tokens := device_tokens d @ [t]\<rparr>"

definition upd_token :: "string \<Rightarrow> (device_token \<Rightarrow> device_token) \<Rightarrow> db \<Rightarrow> db" where
  "upd_token k f d = d\<lparr>device_tokens := tupd dt_id k f (device_tokens d)\<rparr>"

section \<open>The life of a token\<close>

definition mint_token ::
  "env \<Rightarrow> (string \<Rightarrow> string) \<Rightarrow> string \<Rightarrow> string \<Rightarrow> string \<Rightarrow> string option \<Rightarrow> world
     \<Rightarrow> (device_token \<times> string, unit) outcome \<times> world" where
  "mint_token e sha256 secret device label user_id w =
     (let l = strip label; dev = strip device;
          es1 = (if l = [] then [(''label'', LabelRequired)] else []);
          es = (if dev = [] then dict_set ''device_id'' DeviceIdRequired es1 else es1)
      in if es \<noteq> [] then (Errors es, w)
         else (let plaintext = TOKEN_PLAINTEXT_PREFIX @ secret;
                   (i, w1) = new_id e w; (at, w2) = utcnow_iso e w1;
                   row = \<lparr>dt_id = i, dt_device_id = dev, dt_label = take LABEL_MAX l,
                          dt_token_prefix = take TOKEN_PREFIX_LEN plaintext, dt_token_hash = sha256 plaintext,
                          dt_user_id = user_id, dt_is_active = 1, dt_created_at = at, dt_last_used_at = None,
                          dt_revoked_at = None\<rparr>
               in commit_result (row, plaintext)
                    (stage (add_token_row row) (thas dt_id i (device_tokens (cur w2))) w2)))"

definition lookup_active_token :: "(string \<Rightarrow> string) \<Rightarrow> db \<Rightarrow> string \<Rightarrow> device_token option" where
  "lookup_active_token sha256 d presented =
     (if presented = [] \<or> length presented < TOKEN_PREFIX_LEN then None
      else case find (\<lambda>t. dt_token_prefix t = take TOKEN_PREFIX_LEN presented \<and> dt_is_active t = 1) (device_tokens d) of
          None \<Rightarrow> None
        | Some row \<Rightarrow> if compare_token (sha256 presented) (dt_token_hash row) then Some row else None)"

definition touch_last_used :: "env \<Rightarrow> device_token \<Rightarrow> world \<Rightarrow> (unit, unit) outcome \<times> world" where
  "touch_last_used e t w =
     (let (at, w1) = utcnow_iso e w
      in commit_result () (stage (upd_token (dt_id t) (\<lambda>t. t\<lparr>dt_last_used_at := Some at\<rparr>)) False w1))"

definition list_device_tokens :: "db \<Rightarrow> device_token list" where
  "list_device_tokens d = sort_key dt_label (device_tokens d)"

definition revoke_token :: "env \<Rightarrow> string \<Rightarrow> world \<Rightarrow> (unit, unit) outcome \<times> world" where
  "revoke_token e k w =
     (case tget dt_id k (device_tokens (cur w)) of
        None \<Rightarrow> (Errors [(''token'', TokenMissing)], w)
      | Some t \<Rightarrow>
          (let (at, w1) = utcnow_iso e w
           in commit_result () (stage (upd_token k (\<lambda>t. t\<lparr>dt_is_active := 0, dt_revoked_at := Some at\<rparr>)) False w1)))"

text \<open>The gate of the sync tree: a 401 (missing or invalid token), or the device, whose last use is stamped.\<close>

datatype device_gate = Token_required | Token_invalid | Device device_token

definition require_device :: "env \<Rightarrow> (string \<Rightarrow> string) \<Rightarrow> string option \<Rightarrow> world \<Rightarrow> device_gate \<times> world" where
  "require_device e sha256 credentials w =
     (case credentials of
        None \<Rightarrow> (Token_required, w)
      | Some presented \<Rightarrow> (case lookup_active_token sha256 (cur w) presented of
            None \<Rightarrow> (Token_invalid, w)
          | Some t \<Rightarrow> (Device t, snd (touch_last_used e t w))))"

section \<open>What the gate lets through\<close>

lemma lookup_active_tokenD:
  "lookup_active_token sha256 d p = Some t \<Longrightarrow>
     t \<in> set (device_tokens d) \<and> dt_is_active t = 1 \<and> dt_token_hash t = sha256 p"
  by (auto simp: lookup_active_token_def compare_token_def find_Some_iff split: if_splits option.splits)

lemma mint_cases:
  assumes "mint_token e sha256 secret dev label usr w = (Ok (row, plaintext), w1)" and "\<not> bad w"
  shows "cur w1 = add_token_row row (cur w) \<and> saved w1 = cur w1 \<and> \<not> thas dt_id (dt_id row) (device_tokens (cur w))
    \<and> plaintext = TOKEN_PLAINTEXT_PREFIX @ secret \<and> dt_is_active row = 1
    \<and> dt_token_prefix row = take TOKEN_PREFIX_LEN plaintext \<and> dt_token_hash row = sha256 plaintext"
  using assms
  by (auto simp: mint_token_def Let_def commit_result_def commit_def utcnow_iso_def new_id_def split: if_splits)

text \<open>The token that is shown once opens the door: after a successful mint the plaintext is accepted and resolves
  to the new row, unless another active token shares its twelve-character prefix; any other
  string is accepted as this device only if it has the same SHA-256 digest; and the plaintext is
  not among the texts that are stored, when it is longer than the prefix and SHA-256 does not
  return its argument.\<close>

theorem minted_token_opens:
  assumes "mint_token e sha256 secret dev label usr (open_session d) = (Ok (row, plaintext), w1)"
    and "\<forall>t \<in> set (device_tokens d). dt_is_active t = 1 \<longrightarrow> dt_token_prefix t \<noteq> take TOKEN_PREFIX_LEN plaintext"
    and "TOKEN_PREFIX_LEN < length plaintext" and "sha256 plaintext \<noteq> plaintext"
  shows "fst (require_device e sha256 (Some plaintext) (open_session (saved w1))) = Device row
    \<and> (\<forall>p t. fst (require_device e sha256 (Some p) (open_session (saved w1))) = Device t \<and> dt_id t = dt_id row
          \<longrightarrow> sha256 p = sha256 plaintext)
    \<and> plaintext \<notin> {dt_token_prefix row, dt_token_hash row}"
proof -
  have "\<not> bad (open_session d)" by (simp add: open_session_def)
  note m = mint_cases[OF assms(1) this]
  have toks: "device_tokens (saved w1) = device_tokens d @ [row]"
    using m by (simp add: open_session_def add_token_row_def)
  have "find (\<lambda>t. dt_token_prefix t = take TOKEN_PREFIX_LEN plaintext \<and> dt_is_active t = 1) (device_tokens d) = None"
    using assms(2) by (auto simp: find_None_iff)
  then have "lookup_active_token sha256 (saved w1) plaintext = Some row"
    using m assms(3) unfolding lookup_active_token_def toks find_append
    by (auto simp: compare_token_def open_session_def)
  then have found: "fst (require_device e sha256 (Some plaintext) (open_session (saved w1))) = Device row"
    by (simp add: require_device_def open_session_def)
  have only: "sha256 p = sha256 plaintext"
    if p: "fst (require_device e sha256 (Some p) (open_session (saved w1))) = Device t" "dt_id t = dt_id row" for p t
  proof -
    have "lookup_active_token sha256 (saved w1) p = Some t"
      using p(1) by (auto simp: require_device_def open_session_def split: option.splits)
    from lookup_active_tokenD[OF this] have t: "t \<in> set (device_tokens d @ [row])" "dt_token_hash t = sha256 p"
      unfolding toks by blast+
    have "dt_id row \<notin> dt_id ` set (device_tokens d)" using m by (simp add: thas_iff open_session_def)
    then have "t \<notin> set (device_tokens d)" using p(2) by (metis imageI)
    with t(1) have "t = row" by simp
    with t(2) m show ?thesis by metis
  qed
  have short: "plaintext \<noteq> take TOKEN_PREFIX_LEN plaintext" 
    using assms(3) length_take[of TOKEN_PREFIX_LEN plaintext] by (metis min_less_iff_conj nat_neq_iff)
  have stored: "plaintext \<notin> {dt_token_prefix row, dt_token_hash row}" using short m assms(4) by simp
  show ?thesis
  proof (intro conjI allI impI)
    show "sha256 p = sha256 plaintext"
      if "fst (require_device e sha256 (Some p) (open_session (saved w1))) = Device t \<and> dt_id t = dt_id row" for p t
      using only that by blast
  qed (fact found stored)+
qed

section \<open>Revocation\<close>

datatype device_request =
    Mint string string string "string option"
  | Revoke string
  | Authenticate "string option"

fun handle_device :: "env \<Rightarrow> (string \<Rightarrow> string) \<Rightarrow> device_request \<Rightarrow> world \<Rightarrow> world" where
  "handle_device e sha256 (Mint secret dev label usr) w = snd (mint_token e sha256 secret dev label usr w)"
| "handle_device e sha256 (Revoke k) w = snd (revoke_token e k w)"
| "handle_device e sha256 (Authenticate c) w = snd (require_device e sha256 c w)"

inductive devices_run :: "(string \<Rightarrow> string) \<Rightarrow> db \<Rightarrow> db \<Rightarrow> bool" for sha256 where
  start: "devices_run sha256 d d"
| request: "devices_run sha256 d0 d \<Longrightarrow> devices_run sha256 d0 (saved (handle_device e sha256 r (open_session d)))"
| elsewhere: "devices_run sha256 d0 d \<Longrightarrow> device_tokens d' = device_tokens d \<Longrightarrow> devices_run sha256 d0 d'"

text \<open>A token is out: its row is there and not active.\<close>

definition revoked :: "string \<Rightarrow> db \<Rightarrow> bool" where
  "revoked k d \<longleftrightarrow> thas dt_id k (device_tokens d) \<and> (\<forall>t \<in> set (device_tokens d). dt_id t = k \<longrightarrow> dt_is_active t \<noteq> 1)"

lemma revoked_upd:
  assumes "revoked k d" and "\<And>t. dt_id (f t) = dt_id t" and "\<And>t. dt_is_active t \<noteq> 1 \<Longrightarrow> dt_is_active (f t) \<noteq> 1"
  shows "revoked k (upd_token j f d)"
proof -
  have "dt_id (if dt_id r = j then f r else r) = dt_id r" for r by (simp add: assms(2))
  then have "dt_id ` set (tupd dt_id j f (device_tokens d)) = dt_id ` set (device_tokens d)"
    unfolding set_tupd image_image by (rule image_cong[OF refl])
  moreover have "dt_is_active t \<noteq> 1" if t: "t \<in> set (tupd dt_id j f (device_tokens d))" "dt_id t = k" for t
  proof -
    obtain r where r: "r \<in> set (device_tokens d)" "t = (if dt_id r = j then f r else r)"
      using t(1) unfolding set_tupd by blast
    then have "dt_id r = k" using t(2) assms(2) by (simp split: if_splits)
    with r assms(1,3) show ?thesis by (auto simp: revoked_def)
  qed
  ultimately show ?thesis using assms(1) by (auto simp: revoked_def upd_token_def thas_iff)
qed

lemma revoked_add:
  assumes "revoked k d" and "\<not> thas dt_id (dt_id t) (device_tokens d)"
  shows "revoked k (add_token_row t d)"
  using assms by (auto simp: revoked_def add_token_row_def thas_iff)

lemma mint_revoked:
  assumes "revoked k d"
  shows "revoked k (saved (snd (mint_token e sha256 secret dev label usr (open_session d))))"
  using assms
  by (auto simp: mint_token_def Let_def split_beta commit_stage_saved open_session_def[of d] utcnow_iso_def new_id_def
      intro!: revoked_add)

lemma revoke_revoked:
  assumes "revoked k d"
  shows "revoked k (saved (snd (revoke_token e j (open_session d))))"
proof (cases "tget dt_id j (device_tokens d)")
  case None
  then show ?thesis using assms by (simp add: revoke_token_def open_session_def)
next
  case (Some t)
  then show ?thesis using assms
    by (auto simp: revoke_token_def Let_def split_beta commit_stage_saved open_session_def utcnow_iso_def intro!: revoked_upd)
qed

lemma gate_revoked:
  assumes "revoked k d"
  shows "revoked k (saved (snd (require_device e sha256 c (open_session d))))"
  using assms
  by (auto simp: require_device_def touch_last_used_def Let_def split_beta commit_stage_saved open_session_def
      utcnow_iso_def intro!: revoked_upd split: option.split)

lemma handle_device_revoked:
  "revoked k d \<Longrightarrow> revoked k (saved (handle_device e sha256 r (open_session d)))"
  by (cases r) (simp_all add: mint_revoked revoke_revoked gate_revoked)

lemma devices_run_revoked: "devices_run sha256 d0 d \<Longrightarrow> revoked k d0 \<Longrightarrow> revoked k d"
proof (induction rule: devices_run.induct)
  case (request d0 d e r)
  then show ?case by (simp add: handle_device_revoked)
qed (simp_all add: revoked_def)

lemma revoke_token_revoked:
  assumes "revoke_token e k (open_session d) = (Ok (), w1)"
  shows "revoked k (saved w1)"
proof -
  have w1: "w1 = snd (revoke_token e k (open_session d))" using assms by simp
  obtain t where t: "tget dt_id k (device_tokens d) = Some t"
    using assms by (auto simp: revoke_token_def open_session_def split: option.splits)
  let ?f = "\<lambda>t. t\<lparr>dt_is_active := 0, dt_revoked_at := Some (utcnow e 0)\<rparr>"
  have saved: "saved w1 = upd_token k ?f d" unfolding w1
    using t by (simp add: revoke_token_def Let_def split_beta commit_stage_saved open_session_def utcnow_iso_def)
  let ?toks = "tupd dt_id k ?f (device_tokens d)"
  have toks: "device_tokens (saved w1) = ?toks" unfolding saved upd_token_def by simp
  have "map dt_id ?toks = map dt_id (device_tokens d)" by (rule map_key_tupd) simp
  then have "dt_id ` set ?toks = dt_id ` set (device_tokens d)" by (metis set_map)
  moreover have "k \<in> dt_id ` set (device_tokens d)" using tget_SomeD[OF t] by force
  ultimately have "thas dt_id k ?toks" unfolding thas_iff by (rule ssubst)
  moreover have "\<forall>s \<in> set ?toks. dt_id s = k \<longrightarrow> dt_is_active s \<noteq> 1"
  proof (intro ballI impI)
    fix s assume "s \<in> set ?toks" and k: "dt_id s = k"
    then obtain r where "s = (if dt_id r = k then ?f r else r)" unfolding set_tupd by blast
    with k show "dt_is_active s \<noteq> 1" by (cases "dt_id r = k") simp_all
  qed
  ultimately show ?thesis unfolding revoked_def toks by (rule conjI)
qed

text \<open>C33: revocation is final: once a token has been revoked, no string presented after any later sequence of
  mints, revocations, authentications and other changes is ever accepted as that device again,
  while its row stays on the administrator's list.\<close>

theorem revocation_final:
  assumes "revoke_token e k (open_session d) = (Ok (), w1)" and "devices_run sha256 (saved w1) d2"
  shows "(\<forall>e' c t. fst (require_device e' sha256 c (open_session d2)) = Device t \<longrightarrow> dt_id t \<noteq> k)
    \<and> k \<in> dt_id ` set (list_device_tokens d2)"
proof -
  have r: "revoked k d2" using devices_run_revoked[OF assms(2) revoke_token_revoked[OF assms(1)]] .
  then have "k \<in> dt_id ` set (list_device_tokens d2)"
    by (auto simp: revoked_def thas_iff list_device_tokens_def)
  with r show ?thesis
    by (auto simp: require_device_def revoked_def open_session_def dest!: lookup_active_tokenD split: option.splits)
qed

end
