(* ===== verification/Json.thy ===== *)
theory Json
  imports PyStr
begin

text \<open>
  What the exchange format uses of Python's \<open>json\<close>: \<open>dumps(obj, ensure_ascii=False)\<close> with the default
  separators and \<open>loads\<close>. A string is a list of characters below 256, so an escape \<open>\u\<close> of a larger
  code point has no value here; a float keeps its literal, since the program only ever asks whether
  a value is an int and never writes a float. Fuel bounds the nesting of the reader; the length of
  the text is always enough.
\<close>

datatype json =
    J_null
  | J_bool bool
  | J_int int
  | J_float string
  | J_str string
  | J_list "json list"
  | J_obj "(string \<times> json) list"

section \<open>Writing\<close>

abbreviation QUOTE :: char where "QUOTE \<equiv> CHR 0x22"
abbreviation BACKSLASH :: char where "BACKSLASH \<equiv> CHR 0x5C"

definition show_int :: "int \<Rightarrow> string" where
  "show_int i = (if i < 0 then CHR ''-'' # show_nat (nat (- i)) else show_nat (nat i))"

definition hex_digit :: "nat \<Rightarrow> char" where
  "hex_digit n = (if n < 10 then char_of (48 + n) else char_of (87 + n))"

text \<open>\<open>py_encode_basestring\<close>, one character.\<close>

definition escape :: "char \<Rightarrow> string" where
  "escape c =
     (if c = QUOTE then [BACKSLASH, QUOTE]
      else if c = BACKSLASH then [BACKSLASH, BACKSLASH]
      else if ord_of c = 10 then [BACKSLASH, CHR ''n'']
      else if ord_of c = 13 then [BACKSLASH, CHR ''r'']
      else if ord_of c = 9 then [BACKSLASH, CHR ''t'']
      else if ord_of c = 12 then [BACKSLASH, CHR ''f'']
      else if ord_of c = 8 then [BACKSLASH, CHR ''b'']
      else if ord_of c < 32 then
        [BACKSLASH, CHR ''u'', CHR ''0'', CHR ''0'', hex_digit (ord_of c div 16), hex_digit (ord_of c mod 16)]
      else [c])"

definition dump_str :: "string \<Rightarrow> string" where
  "dump_str s = QUOTE # concat (map escape s) @ [QUOTE]"

definition join :: "string \<Rightarrow> string list \<Rightarrow> string" where
  "join sep xs = (case xs of [] \<Rightarrow> [] | y # ys \<Rightarrow> y @ concat (map (\<lambda>z. sep @ z) ys))"

fun dumps :: "json \<Rightarrow> string" where
  "dumps J_null = ''null''"
| "dumps (J_bool b) = (if b then ''true'' else ''false'')"
| "dumps (J_int i) = show_int i"
| "dumps (J_float lit) = lit"
| "dumps (J_str s) = dump_str s"
| "dumps (J_list vs) = ''['' @ join '', '' (map dumps vs) @ '']''"
| "dumps (J_obj kvs) = ''{'' @ join '', '' (map (\<lambda>(k, v). dump_str k @ '': '' @ dumps v) kvs) @ ''}''"

section \<open>Reading\<close>

definition is_ws :: "char \<Rightarrow> bool" where
  "is_ws c \<longleftrightarrow> ord_of c \<in> {9, 10, 13, 32}"

definition skip_ws :: "string \<Rightarrow> string" where
  "skip_ws s = dropWhile is_ws s"

definition hex_val :: "char \<Rightarrow> nat option" where
  "hex_val c = (let n = ord_of c in
     if 48 \<le> n \<and> n \<le> 57 then Some (n - 48)
     else if 97 \<le> n \<and> n \<le> 102 then Some (n - 87)
     else if 65 \<le> n \<and> n \<le> 70 then Some (n - 55)
     else None)"

definition unescape :: "char \<Rightarrow> char option" where
  "unescape c =
     (if c = QUOTE then Some QUOTE
      else if c = BACKSLASH then Some BACKSLASH
      else if c = CHR ''/'' then Some (CHR ''/'')
      else if c = CHR ''b'' then Some (char_of (8 :: nat))
      else if c = CHR ''f'' then Some (char_of (12 :: nat))
      else if c = CHR ''n'' then Some (char_of (10 :: nat))
      else if c = CHR ''r'' then Some (char_of (13 :: nat))
      else if c = CHR ''t'' then Some (char_of (9 :: nat))
      else None)"

definition unicode_escape :: "char \<Rightarrow> char \<Rightarrow> char \<Rightarrow> char \<Rightarrow> char option" where
  "unicode_escape a b c d =
     (case (hex_val a, hex_val b, hex_val c, hex_val d) of
        (Some w, Some x, Some y, Some z) \<Rightarrow>
          (if w = 0 \<and> x = 0 then Some (char_of (16 * y + z)) else None)
      | _ \<Rightarrow> None)"

definition cons_fst :: "'a \<Rightarrow> ('a list \<times> 'b) option \<Rightarrow> ('a list \<times> 'b) option" where
  "cons_fst x r = map_option (\<lambda>(xs, y). (x # xs, y)) r"

text \<open>The characters after the opening quote, up to the closing one.\<close>

function scan_str :: "string \<Rightarrow> (string \<times> string) option" where
  "scan_str s = (case s of [] \<Rightarrow> None | c # r \<Rightarrow>
     if c = QUOTE then Some ([], r)
     else if c = BACKSLASH then
       (case r of [] \<Rightarrow> None | e # r1 \<Rightarrow>
          if e = CHR ''u'' then
            (if length r1 < 4 then None
             else case unicode_escape (r1 ! 0) (r1 ! 1) (r1 ! 2) (r1 ! 3) of
                None \<Rightarrow> None | Some x \<Rightarrow> cons_fst x (scan_str (drop 4 r1)))
          else case unescape e of None \<Rightarrow> None | Some x \<Rightarrow> cons_fst x (scan_str r1))
     else if ord_of c < 32 then None
     else cons_fst c (scan_str r))"
  by pat_completeness auto
termination by (relation "measure length") auto

declare scan_str.simps [simp del]

text \<open>\<open>(-?(?:0|[1-9][0-9]* ))(\.[0-9]+)?([eE][-+]?[0-9]+)?\<close>, and the interpreter's limit on int literals.\<close>

definition scan_abs :: "bool \<Rightarrow> string \<Rightarrow> (json \<times> string) option" where
  "scan_abs neg r =
     (if r = [] \<or> \<not> is_dig (hd r) then None
      else
        (let ds = (if hd r = CHR ''0'' then ''0'' else takeWhile is_dig r);
             r1 = drop (length ds) r;
             fs = (if r1 \<noteq> [] \<and> hd r1 = CHR ''.'' then takeWhile is_dig (tl r1) else []);
             frac = (if fs = [] then [] else CHR ''.'' # fs);
             r2 = drop (length frac) r1;
             sgn = (if r2 \<noteq> [] \<and> hd r2 \<in> {CHR ''e'', CHR ''E''} \<and> tl r2 \<noteq> [] \<and> hd (tl r2) \<in> {CHR ''+'', CHR ''-''}
                    then [hd (tl r2)] else []);
             es = (if r2 \<noteq> [] \<and> hd r2 \<in> {CHR ''e'', CHR ''E''} then takeWhile is_dig (drop (length sgn) (tl r2)) else []);
             expo = (if es = [] then [] else [hd r2] @ sgn @ es);
             r3 = drop (length expo) r2
         in if frac = [] \<and> expo = [] then
              (if 4300 < length ds then None
               else Some (J_int (if neg then - int (digits_val ds) else int (digits_val ds)), r1))
            else Some (J_float ((if neg then ''-'' else []) @ ds @ frac @ expo), r3)))"

definition scan_num :: "string \<Rightarrow> (json \<times> string) option" where
  "scan_num s = (if s \<noteq> [] \<and> hd s = CHR ''-'' then scan_abs True (tl s) else scan_abs False s)"

primrec scan_list :: "nat \<Rightarrow> (string \<Rightarrow> (json \<times> string) option) \<Rightarrow> string \<Rightarrow> (json list \<times> string) option" where
  "scan_list 0 p s = None"
| "scan_list (Suc n) p s = (case p s of None \<Rightarrow> None | Some (v, r) \<Rightarrow>
     (case skip_ws r of [] \<Rightarrow> None | c # r1 \<Rightarrow>
        if c = CHR '']'' then Some ([v], r1)
        else if c = CHR '','' then cons_fst v (scan_list n p (skip_ws r1))
        else None))"

primrec scan_obj :: "nat \<Rightarrow> (string \<Rightarrow> (json \<times> string) option) \<Rightarrow> string \<Rightarrow> ((string \<times> json) list \<times> string) option" where
  "scan_obj 0 p s = None"
| "scan_obj (Suc n) p s =
     (if s = [] \<or> hd s \<noteq> QUOTE then None
      else case scan_str (tl s) of None \<Rightarrow> None | Some (k, r) \<Rightarrow>
       (case skip_ws r of [] \<Rightarrow> None | c # r1 \<Rightarrow>
          if c \<noteq> CHR '':'' then None
          else case p (skip_ws r1) of None \<Rightarrow> None | Some (v, r2) \<Rightarrow>
           (case skip_ws r2 of [] \<Rightarrow> None | c2 # r3 \<Rightarrow>
              if c2 = CHR ''}'' then Some ([(k, v)], r3)
              else if c2 = CHR '','' then cons_fst (k, v) (scan_obj n p (skip_ws r3))
              else None)))"

text \<open>\<open>dict(pairs)\<close>: the last value of a repeated key, at the place of its first.\<close>

definition dict_of :: "(string \<times> 'v) list \<Rightarrow> (string \<times> 'v) list" where
  "dict_of kvs = fold (\<lambda>(k, v). dict_set k v) kvs []"

definition literals :: "(string \<times> json) list" where
  "literals = [(''null'', J_null), (''true'', J_bool True), (''false'', J_bool False),
     (''NaN'', J_float ''NaN''), (''Infinity'', J_float ''Infinity''), (''-Infinity'', J_float ''-Infinity'')]"

definition scan_literal :: "string \<Rightarrow> (json \<times> string) option" where
  "scan_literal s = (case find (\<lambda>(t, v). take (length t) s = t) literals of
     None \<Rightarrow> None | Some (t, v) \<Rightarrow> Some (v, drop (length t) s))"

primrec scan_value :: "nat \<Rightarrow> string \<Rightarrow> (json \<times> string) option" where
  "scan_value 0 s = None"
| "scan_value (Suc n) s =
     (if s = [] then None
      else if hd s = QUOTE then map_option (\<lambda>(t, r). (J_str t, r)) (scan_str (tl s))
      else if hd s = CHR ''{'' then
        (let r = skip_ws (tl s) in
         if r \<noteq> [] \<and> hd r = CHR ''}'' then Some (J_obj [], tl r)
         else map_option (\<lambda>(kvs, r). (J_obj (dict_of kvs), r)) (scan_obj n (scan_value n) r))
      else if hd s = CHR ''['' then
        (let r = skip_ws (tl s) in
         if r \<noteq> [] \<and> hd r = CHR '']'' then Some (J_list [], tl r)
         else map_option (\<lambda>(vs, r). (J_list vs, r)) (scan_list n (scan_value n) r))
      else case scan_literal s of Some x \<Rightarrow> Some x | None \<Rightarrow> scan_num s)"

text \<open>\<open>json.loads(s)\<close>; \<open>None\<close> is the \<open>JSONDecodeError\<close> (or, for an over-long int, the \<open>ValueError\<close>).\<close>

definition loads :: "string \<Rightarrow> json option" where
  "loads s = (case scan_value (Suc (length s)) (skip_ws s) of
     None \<Rightarrow> None | Some (v, r) \<Rightarrow> if skip_ws r = [] then Some v else None)"

section \<open>What is written is read back\<close>

text \<open>The values the exchange writes: ints within the literal limit, no floats, no repeated keys.\<close>

fun plain :: "json \<Rightarrow> bool" where
  "plain (J_int i) \<longleftrightarrow> length (show_nat (nat \<bar>i\<bar>)) \<le> 4300"
| "plain (J_float _) \<longleftrightarrow> False"
| "plain (J_list vs) \<longleftrightarrow> list_all plain vs"
| "plain (J_obj kvs) \<longleftrightarrow> distinct (map fst kvs) \<and> list_all (\<lambda>(k, v). plain v) kvs"
| "plain _ \<longleftrightarrow> True"

lemma scan_str_simps:
  "scan_str (QUOTE # r) = Some ([], r)"
  "32 \<le> ord_of c \<Longrightarrow> c \<noteq> QUOTE \<Longrightarrow> c \<noteq> BACKSLASH \<Longrightarrow> scan_str (c # r) = cons_fst c (scan_str r)"
  "e \<noteq> CHR ''u'' \<Longrightarrow> unescape e = Some x \<Longrightarrow> scan_str (BACKSLASH # e # r) = cons_fst x (scan_str r)"
  "unicode_escape a b c d = Some x \<Longrightarrow> scan_str (BACKSLASH # CHR ''u'' # a # b # c # d # r) = cons_fst x (scan_str r)"
  by (subst scan_str.simps; simp)+

lemma ord_of_eq: "ord_of c = n \<Longrightarrow> c = char_of n"
  by (auto simp: ord_of_def)

lemma hex_val_digit: "n < 16 \<Longrightarrow> hex_val (hex_digit n) = Some n"
  by (auto simp: hex_val_def hex_digit_def ord_of_def Let_def)

lemma unicode_low: "ord_of c < 32 \<Longrightarrow>
    unicode_escape (CHR ''0'') (CHR ''0'') (hex_digit (ord_of c div 16)) (hex_digit (ord_of c mod 16)) = Some c"
  by (simp add: unicode_escape_def hex_val_digit hex_val_def[of "CHR ''0''"] ord_of_def[of "CHR ''0''"])
     (simp add: ord_of_def)

lemma scan_escape: "scan_str (escape c @ r) = cons_fst c (scan_str r)"
proof -
  consider "c = QUOTE" | "c = BACKSLASH" | "ord_of c \<in> {8, 9, 10, 12, 13}"
    | "c \<noteq> QUOTE" "c \<noteq> BACKSLASH" "ord_of c \<notin> {8, 9, 10, 12, 13}" "ord_of c < 32"
    | "c \<noteq> QUOTE" "c \<noteq> BACKSLASH" "32 \<le> ord_of c"
    by (cases "ord_of c < 32") auto
  then show ?thesis
  proof cases
    case 3
    then have "c = char_of (8 :: nat) \<or> c = char_of (9 :: nat) \<or> c = char_of (10 :: nat) \<or> c = char_of (12 :: nat) \<or> c = char_of (13 :: nat)"
      by (auto dest: ord_of_eq)
    then show ?thesis
      by (auto simp: escape_def scan_str_simps unescape_def ord_of_def)
  next
    case 4
    then show ?thesis by (simp add: escape_def scan_str_simps unicode_low)
  next
    case 5
    then show ?thesis by (simp add: escape_def scan_str_simps)
  qed (simp_all add: escape_def scan_str_simps unescape_def)
qed

lemma scan_dump_str: "scan_str (concat (map escape s) @ QUOTE # r) = Some (s, r)"
  by (induction s) (simp_all add: scan_str_simps scan_escape cons_fst_def)


lemma skip_ws_id [simp]: "s \<noteq> [] \<Longrightarrow> \<not> is_ws (hd s) \<Longrightarrow> skip_ws s = s"
  by (cases s) (auto simp: skip_ws_def)

lemma skip_ws_space: "skip_ws (CHR '' '' # s) = skip_ws s"
  by (simp add: skip_ws_def is_ws_def ord_of_def)

lemma dig_not_ws: "is_dig c \<Longrightarrow> \<not> is_ws c"
  by (auto simp: is_dig_def is_ws_def)

lemma hd_show_nat: "is_dig (hd (show_nat n))"
  using show_nat_digs[of n] show_nat_nonempty[of n] by (cases "show_nat n") auto

text \<open>How a written value starts.\<close>

lemma dumps_head:
  assumes "plain v"
  shows "dumps v \<noteq> []" "\<not> is_ws (hd (dumps v))" "hd (dumps v) \<notin> {CHR '']'', CHR ''}'', CHR '','', CHR '':''}"
  using assms hd_show_nat[of "nat (case v of J_int i \<Rightarrow> i | _ \<Rightarrow> 0)"]
  by (cases v; auto simp: dump_str_def show_int_def is_ws_def is_dig_def ord_of_def)+

section \<open>Numbers\<close>

definition ends :: "string \<Rightarrow> bool" where
  "ends r \<longleftrightarrow> r = [] \<or> hd r \<in> {CHR '','', CHR '']'', CHR ''}'', CHR 0x0A}"

lemma ends_stop: "ends r \<Longrightarrow> takeWhile is_dig r = []"
  by (cases r) (auto simp: ends_def is_dig_def ord_of_def)

lemma takeWhile_digits: "list_all is_dig ds \<Longrightarrow> ends r \<Longrightarrow> takeWhile is_dig (ds @ r) = ds"
  using ends_stop[of r] by (simp add: takeWhile_append2 list_all_iff)

lemma char_of_48: "char_of (48 :: nat) = CHR ''0''"
proof -
  have "of_char (CHR ''0'') = (48 :: nat)" by simp
  then show ?thesis by (metis char_of_char)
qed

lemma show_nat_head_zero: "hd (show_nat n) = CHR ''0'' \<Longrightarrow> n = 0"
proof (induction n rule: show_nat.induct)
  case (1 n)
  show ?case
  proof (cases "n < 10")
    case True
    with 1(2) have "digit_char n = digit_char 0" by (simp add: show_nat.simps[of n] digit_char_def char_of_48)
    with True show ?thesis by (metis digit_val_char zero_less_numeral)
  next
    case False
    with 1(2) have "hd (show_nat (n div 10)) = CHR ''0''" by (simp add: show_nat.simps[of n])
    with 1(1)[OF False] False show ?thesis by simp
  qed
qed

lemma show_nat_0: "show_nat 0 = ''0''"
  by (simp add: show_nat.simps digit_char_def char_of_48)

lemma number_text: "ends r \<Longrightarrow>
    (if hd (show_nat n @ r) = CHR ''0'' then ''0'' else takeWhile is_dig (show_nat n @ r)) = show_nat n"
  using show_nat_head_zero[of n] takeWhile_digits[of "show_nat n" r] by (auto simp: show_nat_0)

lemma ends_cases:
  assumes "ends r"
  shows "(r \<noteq> [] \<and> hd r = CHR ''.'') = False" "(r \<noteq> [] \<and> hd r \<in> {CHR ''e'', CHR ''E''} \<and> X) = False"
    "(r \<noteq> [] \<and> hd r \<in> {CHR ''e'', CHR ''E''}) = False"
  using assms by (auto simp: ends_def)

lemma scan_abs_show:
  assumes "ends r" and "length (show_nat n) \<le> 4300"
  shows "scan_abs neg (show_nat n @ r) = Some (J_int (if neg then - int n else int n), r)"
proof -
  have "(show_nat n @ r = [] \<or> \<not> is_dig (hd (show_nat n @ r))) = False"
    using hd_show_nat[of n] by simp
  moreover have "drop (length (show_nat n)) (show_nat n @ r) = r" by simp
  ultimately show ?thesis
    unfolding scan_abs_def Let_def number_text[OF assms(1)]
    using assms(2) by (simp only: ends_cases[OF assms(1)] if_False if_True list.size drop_0 simp_thms append_Nil
        show_nat_val not_less[symmetric] refl)
qed

lemma scan_num_show:
  assumes "ends r" and "length (show_nat (nat \<bar>i\<bar>)) \<le> 4300"
  shows "scan_num (show_int i @ r) = Some (J_int i, r)"
proof (cases "i < 0")
  case True
  then show ?thesis
    using assms scan_abs_show[OF assms(1), of "nat (- i)"] by (simp add: scan_num_def show_int_def)
next
  case False
  have "hd (show_nat (nat i) @ r) \<noteq> CHR ''-''"
    using hd_show_nat[of "nat i"] by (auto simp: is_dig_def ord_of_def)
  with False show ?thesis
    using assms scan_abs_show[OF assms(1), of "nat i"] by (simp add: scan_num_def show_int_def)
qed

lemma take_eq_prefix: "take (length t) s = t \<Longrightarrow> \<exists>u. s = t @ u"
  by (metis append_take_drop_id)

lemma scan_literal_int: "scan_literal (show_int i @ r) = None"
proof -
  have no: "take (length t) (show_int i @ r) \<noteq> t" if "(t, v) \<in> set literals" for t v
  proof
    assume "take (length t) (show_int i @ r) = t"
    then obtain u where u: "show_int i @ r = t @ u" using take_eq_prefix by blast
    have d: "is_dig (hd (show_nat n))" "show_nat n \<noteq> []" for n using hd_show_nat by auto
    have "t \<in> {''null'', ''true'', ''false'', ''NaN'', ''Infinity'', ''-Infinity''}"
      using that by (auto simp: literals_def)
    then have "if i < 0 then hd t = CHR ''-'' \<and> is_dig (hd (tl t)) else is_dig (hd t)"
      using arg_cong[OF u, of hd] arg_cong[OF u, of "\<lambda>x. hd (tl x)"] d[of "nat i"] d[of "nat (- i)"]
      by (auto simp: show_int_def)
    with \<open>t \<in> _\<close> show False by (auto simp: is_dig_def ord_of_def split: if_splits)
  qed
  then have "find (\<lambda>(t, v). take (length t) (show_int i @ r) = t) literals = None"
    by (auto simp: find_None_iff)
  then show ?thesis by (simp add: scan_literal_def)
qed

section \<open>The round trip\<close>

lemma join_Cons: "ys \<noteq> [] \<Longrightarrow> join sep (y # ys) = y @ sep @ join sep ys"
  by (cases ys) (auto simp: join_def)

lemma join_single [simp]: "join sep [y] = y"
  by (simp add: join_def)

definition reads :: "(string \<Rightarrow> (json \<times> string) option) \<Rightarrow> json \<Rightarrow> bool" where
  "reads p v \<longleftrightarrow> (\<forall>r. ends r \<longrightarrow> p (dumps v @ r) = Some (v, r))"

lemma ends_closers: "ends (CHR '','' # r)" "ends (CHR '']'' # r)" "ends (CHR ''}'' # r)"
  by (simp_all add: ends_def)

lemma closers_not_ws: "\<not> is_ws (CHR '','')" "\<not> is_ws (CHR '']'')" "\<not> is_ws (CHR ''}'')" "\<not> is_ws (CHR '':'')"
  "\<not> is_ws QUOTE"
  by (simp_all add: is_ws_def ord_of_def)

lemma scan_list_dump:
  "vs \<noteq> [] \<Longrightarrow> length vs \<le> n \<Longrightarrow> list_all plain vs \<Longrightarrow> list_all (reads p) vs \<Longrightarrow>
     scan_list n p (join '', '' (map dumps vs) @ CHR '']'' # r) = Some (vs, r)"
proof (induction vs arbitrary: n)
  case Nil
  then show ?case by simp
next
  case (Cons v vs)
  then obtain m where n: "n = Suc m" by (cases n) auto
  show ?case
  proof (cases "vs = []")
    case True
    with Cons.prems n show ?thesis by (simp add: reads_def ends_closers closers_not_ws)
  next
    case False
    then have ne: "join '', '' (map dumps vs) \<noteq> []" "\<not> is_ws (hd (join '', '' (map dumps vs)))"
      using Cons.prems(3) dumps_head[of "hd vs"] by (cases vs; auto simp: join_def)+
    have "scan_list m p (join '', '' (map dumps vs) @ CHR '']'' # r) = Some (vs, r)"
      using Cons False n by simp
    then show ?thesis
      using Cons.prems n False ne
      by (simp add: join_Cons reads_def ends_closers closers_not_ws skip_ws_space cons_fst_def)
  qed
qed

definition dump_pair :: "string \<times> json \<Rightarrow> string" where
  "dump_pair kv = dump_str (fst kv) @ '': '' @ dumps (snd kv)"

lemma scan_obj_dump:
  "kvs \<noteq> [] \<Longrightarrow> length kvs \<le> n \<Longrightarrow> list_all (\<lambda>kv. plain (snd kv) \<and> reads p (snd kv)) kvs \<Longrightarrow>
     scan_obj n p (join '', '' (map dump_pair kvs) @ CHR ''}'' # r) = Some (kvs, r)"
proof (induction kvs arbitrary: n)
  case Nil
  then show ?case by simp
next
  case (Cons kv kvs)
  then obtain m where n: "n = Suc m" by (cases n) auto
  obtain k v where kv: "kv = (k, v)" by (cases kv)
  have v: "plain v" "reads p v" using Cons.prems kv by auto
  show ?case
  proof (cases "kvs = []")
    case True
    with n kv v dumps_head[OF v(1)] show ?thesis
      by (simp add: reads_def dump_pair_def dump_str_def scan_dump_str ends_closers closers_not_ws skip_ws_space)
  next
    case False
    then have ne: "join '', '' (map dump_pair kvs) \<noteq> []" "\<not> is_ws (hd (join '', '' (map dump_pair kvs)))"
      by (cases kvs; auto simp: join_def dump_pair_def dump_str_def closers_not_ws)+
    have "scan_obj m p (join '', '' (map dump_pair kvs) @ CHR ''}'' # r) = Some (kvs, r)"
      using Cons False n by simp
    then show ?thesis
      using n kv v False ne dumps_head[OF v(1)]
      by (simp add: join_Cons reads_def dump_pair_def[of "(k, v)"] dump_str_def scan_dump_str ends_closers closers_not_ws
          skip_ws_space cons_fst_def)
  qed
qed

lemma dict_set_snoc: "k \<notin> fst ` set m \<Longrightarrow> dict_set k v m = m @ [(k, v)]"
  by (induction m) auto

lemma dict_of_distinct: "distinct (map fst kvs) \<Longrightarrow> dict_of kvs = kvs"
proof -
  have "distinct (map fst (acc @ kvs)) \<Longrightarrow> fold (\<lambda>(k, v). dict_set k v) kvs acc = acc @ kvs" for acc
  proof (induction kvs arbitrary: acc)
    case Nil
    then show ?case by simp
  next
    case (Cons kv kvs)
    obtain k v where kv: "kv = (k, v)" by (cases kv)
    have "k \<notin> fst ` set acc" using Cons.prems kv by auto
    then have "fold (\<lambda>(k, v). dict_set k v) (kv # kvs) acc = fold (\<lambda>(k, v). dict_set k v) kvs (acc @ [kv])"
      by (simp add: kv dict_set_snoc)
    also have "\<dots> = (acc @ [kv]) @ kvs" by (rule Cons.IH) (use Cons.prems in simp)
    finally show ?case by simp
  qed
  from this[of "[]"] show "distinct (map fst kvs) \<Longrightarrow> dict_of kvs = kvs" by (simp add: dict_of_def)
qed

fun need :: "json \<Rightarrow> nat" where
  "need (J_list vs) = Suc (length vs + sum_list (map need vs))"
| "need (J_obj kvs) = Suc (length kvs + sum_list (map (\<lambda>(k, v). need v) kvs))"
| "need _ = 1"

lemma need_pos: "0 < need v"
  by (cases v) auto

lemma length_seps: "length (concat (map ((@) sep) ys)) = sum_list (map length ys) + length sep * length ys"
  by (induction ys) auto

lemma length_join: "ys \<noteq> [] \<Longrightarrow> length (join '', '' ys) = sum_list (map length ys) + 2 * (length ys - 1)"
  by (cases ys) (simp_all add: join_def length_seps)

lemma need_le_length: "plain v \<Longrightarrow> need v \<le> length (dumps v)"
proof (induction v)
  case (J_list vs)
  then have "sum_list (map need vs) \<le> sum_list (map length (map dumps vs))"
    unfolding map_map comp_def by (intro sum_list_mono) (auto simp: list_all_iff)
  then show ?case
    by (cases "vs = []") (simp_all add: length_join join_def[of _ "[]"] Suc_le_eq)
next
  case (J_obj kvs)
  have "(\<lambda>(k, v). need v) kv \<le> length ((\<lambda>(k, v). dump_str k @ '': '' @ dumps v) kv)" if "kv \<in> set kvs" for kv
    using J_obj(1)[of kv "snd kv"] J_obj(2) that by (cases kv) (auto simp: list_all_iff trans_le_add2)
  then have "sum_list (map (\<lambda>(k, v). need v) kvs) \<le> sum_list (map length (map (\<lambda>(k, v). dump_str k @ '': '' @ dumps v) kvs))"
    unfolding map_map comp_def by (intro sum_list_mono) auto
  then show ?case
    by (cases "kvs = []") (simp_all add: length_join join_def[of _ "[]"] Suc_le_eq)
qed (auto simp: dump_str_def show_int_def Suc_le_eq)

lemma member_le_sum: "x \<in> set xs \<Longrightarrow> f x \<le> sum_list (map f xs)" for f :: "'a \<Rightarrow> nat"
  by (rule member_le_sum_list) auto

lemma scan_value_dumps: "plain v \<Longrightarrow> need v \<le> n \<Longrightarrow> reads (scan_value n) v"
proof (induction v arbitrary: n)
  case (J_int i)
  then obtain m where "n = Suc m" by (cases n) auto
  moreover have "show_int i \<noteq> []" "hd (show_int i @ r) \<notin> {QUOTE, CHR ''{'', CHR ''[''}" for r
    using hd_show_nat[of "nat i"] by (auto simp: show_int_def is_dig_def ord_of_def)
  ultimately show ?case
    using J_int by (simp add: reads_def scan_literal_int scan_num_show)
next
  case (J_list vs)
  then obtain m where n: "n = Suc m" by (cases n) auto
  have sub: "list_all (reads (scan_value m)) vs"
    unfolding list_all_iff
  proof
    fix v assume v: "v \<in> set vs"
    then have "need v \<le> m" using J_list(3) n member_le_sum[of v vs need] by simp
    with J_list(1)[OF v] J_list(2) v show "reads (scan_value m) v" by (simp add: list_all_iff)
  qed
  show ?case
  proof (cases "vs = []")
    case True
    with n show ?thesis by (simp add: reads_def join_def closers_not_ws)
  next
    case False
    then obtain v ws where vs: "vs = v # ws" by (cases vs) auto
    have head: "dumps v \<noteq> []" "\<not> is_ws (hd (dumps v))" "hd (dumps v) \<noteq> CHR '']''"
      using dumps_head[of v] J_list(2) vs by auto
    have "hd (join '', '' (map dumps vs) @ t) = hd (dumps v)" "join '', '' (map dumps vs) @ t \<noteq> []" for t
      using head(1) vs by (auto simp: join_def)
    with scan_list_dump[OF False _ _ sub] J_list(2,3) n head show ?thesis by (simp add: reads_def)
  qed
next
  case (J_obj kvs)
  then obtain m where n: "n = Suc m" by (cases n) auto
  have pair: "dumps (J_obj kvs) = ''{'' @ join '', '' (map dump_pair kvs) @ ''}''"
    by (simp add: dump_pair_def[abs_def] case_prod_beta')
  have sub: "list_all (\<lambda>kv. plain (snd kv) \<and> reads (scan_value m) (snd kv)) kvs"
    unfolding list_all_iff
  proof
    fix kv assume kv: "kv \<in> set kvs"
    then have "need (snd kv) \<le> m"
      using J_obj(3) n member_le_sum[of kv kvs "\<lambda>(k, v). need v"] by (auto simp: split_beta)
    with J_obj(1)[OF kv, of "snd kv"] J_obj(2) kv show "plain (snd kv) \<and> reads (scan_value m) (snd kv)"
      by (cases kv) (auto simp: list_all_iff)
  qed
  show ?case
  proof (cases "kvs = []")
    case True
    with n show ?thesis by (simp add: reads_def join_def closers_not_ws dict_of_def)
  next
    case False
    then have "hd (join '', '' (map dump_pair kvs) @ t) = QUOTE" "join '', '' (map dump_pair kvs) @ t \<noteq> []" for t
      by (cases kvs; auto simp: join_def dump_pair_def dump_str_def)+
    with scan_obj_dump[OF False _ sub] J_obj(2,3) n show ?thesis
      by (simp add: reads_def pair closers_not_ws dict_of_distinct del: dumps.simps)
  qed
qed (auto simp: reads_def scan_literal_def literals_def dump_str_def scan_dump_str dest!: Suc_le_D)

lemma loads_dumps: "plain v \<Longrightarrow> loads (dumps v) = Some v"
proof -
  assume p: "plain v"
  have "reads (scan_value (Suc (length (dumps v)))) v"
    using need_le_length[OF p] by (intro scan_value_dumps[OF p]) simp
  then have "scan_value (Suc (length (dumps v))) (dumps v @ []) = Some (v, [])"
    unfolding reads_def by (simp add: ends_def del: scan_value.simps)
  then show ?thesis
    using dumps_head[OF p] by (simp add: loads_def skip_ws_def[of "[]"] del: scan_value.simps)
qed

end
