(* ===== verification/Merge.thy ===== *)
theory Merge
  imports Invariants "HOL-Library.Multiset"
begin

text \<open>
  \<open>src/app/services/merge.py\<close>, the engine: a parsed batch of records is merged into the database.
  Reference rows are inserted when their id is new and discarded otherwise (the server wins), a
  new product whose code is taken is renamed, ledger rows are appended by their origin id, and the
  caches are recomputed. The engine never commits; the caller's transaction makes it all or
  nothing.

  A record carries a row of its table, with every column at its declared type. What SQLite checks
  of an INSERT is the primary key, the unique indexes and the foreign keys the migrations declare
  (\<open>operations.product_id\<close>, the two of \<open>batches\<close>, \<open>sales.customer_id\<close>, \<open>cash_movements.sale_id\<close>;
  the batch and the sale of an operation and every author are bare columns).
\<close>

section \<open>Records\<close>

datatype record_row =
    R_warehouse warehouse | R_product product | R_customer customer | R_dictionary dict_entry
  | R_batch batch | R_sale sale | R_operation operation | R_cash cash_movement

fun record_kind :: "record_row \<Rightarrow> string" where
  "record_kind (R_warehouse _) = ''warehouse''"
| "record_kind (R_product _) = ''product''"
| "record_kind (R_customer _) = ''customer''"
| "record_kind (R_dictionary _) = ''dictionary''"
| "record_kind (R_batch _) = ''batch''"
| "record_kind (R_sale _) = ''sale''"
| "record_kind (R_operation _) = ''operation''"
| "record_kind (R_cash _) = ''cash_movement''"

fun record_id :: "record_row \<Rightarrow> string" where
  "record_id (R_warehouse r) = w_id r"
| "record_id (R_product r) = p_id r"
| "record_id (R_customer r) = c_id r"
| "record_id (R_dictionary r) = d_id r"
| "record_id (R_batch r) = b_id r"
| "record_id (R_sale r) = s_id r"
| "record_id (R_operation r) = o_id r"
| "record_id (R_cash r) = m_id r"

text \<open>No kind carries the same id twice: what \<open>parse_exchange\<close> checks with \<open>seen_ids\<close>.\<close>

definition ids_once :: "record_row list \<Rightarrow> bool" where
  "ids_once rs \<longleftrightarrow> distinct (map (\<lambda>r. (record_kind r, record_id r)) rs)"

text \<open>The cached quantity of a product or batch is dropped, and the sync cursor of a ledger row.\<close>

fun reference_row :: "record_row \<Rightarrow> record_row" where
  "reference_row (R_product p) = R_product (p\<lparr>p_quantity := 0\<rparr>)"
| "reference_row (R_batch b) = R_batch (b\<lparr>b_quantity := 0\<rparr>)"
| "reference_row r = r"

fun ledger_row :: "record_row \<Rightarrow> record_row" where
  "ledger_row (R_operation o1) = R_operation (o1\<lparr>o_synced_at := None\<rparr>)"
| "ledger_row (R_cash m) = R_cash (m\<lparr>m_synced_at := None\<rparr>)"
| "ledger_row r = r"

text \<open>The bucket of a kind, in the order of the records.\<close>

definition bucket :: "(record_row \<Rightarrow> 'r option) \<Rightarrow> record_row list \<Rightarrow> 'r list" where
  "bucket sel rs = List.map_filter sel rs"

definition warehouse_rows :: "record_row list \<Rightarrow> warehouse list" where
  "warehouse_rows rs = bucket (\<lambda>r. case reference_row r of R_warehouse x \<Rightarrow> Some x | _ \<Rightarrow> None) rs"

definition product_rows :: "record_row list \<Rightarrow> product list" where
  "product_rows rs = bucket (\<lambda>r. case reference_row r of R_product x \<Rightarrow> Some x | _ \<Rightarrow> None) rs"

definition customer_rows :: "record_row list \<Rightarrow> customer list" where
  "customer_rows rs = bucket (\<lambda>r. case reference_row r of R_customer x \<Rightarrow> Some x | _ \<Rightarrow> None) rs"

definition dictionary_rows :: "record_row list \<Rightarrow> dict_entry list" where
  "dictionary_rows rs = bucket (\<lambda>r. case reference_row r of R_dictionary x \<Rightarrow> Some x | _ \<Rightarrow> None) rs"

definition batch_rows :: "record_row list \<Rightarrow> batch list" where
  "batch_rows rs = bucket (\<lambda>r. case reference_row r of R_batch x \<Rightarrow> Some x | _ \<Rightarrow> None) rs"

definition sale_rows :: "record_row list \<Rightarrow> sale list" where
  "sale_rows rs = bucket (\<lambda>r. case reference_row r of R_sale x \<Rightarrow> Some x | _ \<Rightarrow> None) rs"

definition operation_rows :: "record_row list \<Rightarrow> operation list" where
  "operation_rows rs = bucket (\<lambda>r. case ledger_row r of R_operation x \<Rightarrow> Some x | _ \<Rightarrow> None) rs"

definition cash_rows :: "record_row list \<Rightarrow> cash_movement list" where
  "cash_rows rs = bucket (\<lambda>r. case ledger_row r of R_cash x \<Rightarrow> Some x | _ \<Rightarrow> None) rs"

section \<open>Which rows are new\<close>

text \<open>The id probe runs over chunks of 500 ids, the bound-parameter cap of one statement.\<close>

definition IN_CHUNK :: nat where
  "IN_CHUNK = 500"

function chunks :: "nat \<Rightarrow> 'a list \<Rightarrow> 'a list list" where
  "chunks n xs = (if xs = [] \<or> n = 0 then [] else take n xs # chunks n (drop n xs))"
  by auto
termination by (relation "measure (\<lambda>(n, xs). length xs)") auto

declare chunks.simps [simp del]

definition existing_ids :: "('r \<Rightarrow> string) \<Rightarrow> string list \<Rightarrow> 'r list \<Rightarrow> string list" where
  "existing_ids key ids tbl =
     concat (map (\<lambda>chunk. map key (filter (\<lambda>r. key r \<in> set chunk) tbl)) (chunks IN_CHUNK ids))"

definition partition_new :: "('r \<Rightarrow> string) \<Rightarrow> 'r list \<Rightarrow> 'r list \<Rightarrow> 'r list \<times> nat" where
  "partition_new key rows tbl =
     (let existing = existing_ids key (map key rows) tbl;
          new_rows = filter (\<lambda>r. key r \<notin> set existing) rows
      in (new_rows, length rows - length new_rows))"

lemma concat_chunks: "0 < n \<Longrightarrow> concat (chunks n xs) = xs"
proof (induction n xs rule: chunks.induct)
  case (1 n xs)
  then show ?case by (subst chunks.simps) auto
qed

lemma set_existing_ids: "set (existing_ids key ids tbl) = set ids \<inter> key ` set tbl"
proof -
  have "set ids = \<Union> (set ` set (chunks IN_CHUNK ids))"
    using concat_chunks[of IN_CHUNK ids] by (simp add: IN_CHUNK_def set_concat[symmetric])
  then show ?thesis by (auto simp: existing_ids_def)
qed

definition new_in :: "('r \<Rightarrow> string) \<Rightarrow> 'r list \<Rightarrow> 'r list \<Rightarrow> 'r list" where
  "new_in key tbl rows = filter (\<lambda>r. \<not> thas key (key r) tbl) rows"

lemma partition_new_eq:
  "partition_new key rows tbl = (new_in key tbl rows, length rows - length (new_in key tbl rows))"
proof -
  have "filter (\<lambda>r. key r \<notin> set (existing_ids key (map key rows) tbl)) rows = new_in key tbl rows"
    unfolding new_in_def by (rule filter_cong) (auto simp: set_existing_ids thas_iff)
  then show ?thesis by (simp add: partition_new_def Let_def)
qed

section \<open>Bulk insert\<close>

text \<open>
  \<open>session.execute(insert(model), rows)\<close>: row after row; a unique index (the primary key is one)
  maps a row to its entry, \<open>None\<close> where the row is not in the index, and an entry that is taken, or
  a missing parent, raises \<open>IntegrityError\<close>.
\<close>

type_synonym 'r index = "'r \<Rightarrow> (string \<times> int) option"

definition pk :: "('r \<Rightarrow> string) \<Rightarrow> 'r index" where
  "pk key r = Some (key r, 0)"

definition entries :: "'r index \<Rightarrow> 'r list \<Rightarrow> (string \<times> int) list" where
  "entries ix rows = List.map_filter ix rows"

definition clashes :: "'r index list \<Rightarrow> 'r list \<Rightarrow> 'r \<Rightarrow> bool" where
  "clashes ixs tbl r \<longleftrightarrow> list_ex (\<lambda>ix. case ix r of None \<Rightarrow> False | Some x \<Rightarrow> x \<in> set (entries ix tbl)) ixs"

fun insert_rows :: "'r index list \<Rightarrow> ('r \<Rightarrow> bool) \<Rightarrow> 'r list \<Rightarrow> 'r list \<Rightarrow> exn + 'r list" where
  "insert_rows ixs fk [] tbl = Inr tbl"
| "insert_rows ixs fk (r # rs) tbl =
     (if clashes ixs tbl r \<or> \<not> fk r then Inl IntegrityError else insert_rows ixs fk rs (tbl @ [r]))"

definition fresh_in :: "'r index \<Rightarrow> 'r list \<Rightarrow> 'r list \<Rightarrow> bool" where
  "fresh_in ix rows tbl \<longleftrightarrow> distinct (entries ix rows) \<and> set (entries ix rows) \<inter> set (entries ix tbl) = {}"

definition insertable :: "'r index list \<Rightarrow> ('r \<Rightarrow> bool) \<Rightarrow> 'r list \<Rightarrow> 'r list \<Rightarrow> bool" where
  "insertable ixs fk rows tbl \<longleftrightarrow> (\<forall>r \<in> set rows. fk r) \<and>
     (\<forall>ix \<in> set ixs. fresh_in ix rows tbl)"

lemma entries_simps [simp]:
  "entries ix [] = []"
  "entries ix (r # rs) = (case ix r of None \<Rightarrow> entries ix rs | Some x \<Rightarrow> x # entries ix rs)"
  "entries ix (xs @ ys) = entries ix xs @ entries ix ys"
  by (simp_all add: entries_def map_filter_def split: option.split)

lemma fresh_in_Cons:
  "fresh_in ix (r # rs) tbl \<longleftrightarrow>
     (case ix r of None \<Rightarrow> True | Some x \<Rightarrow> x \<notin> set (entries ix tbl)) \<and> fresh_in ix rs (tbl @ [r])"
  by (cases "ix r") (auto simp: fresh_in_def)

lemma insertable_Cons:
  "insertable ixs fk (r # rs) tbl \<longleftrightarrow>
     \<not> clashes ixs tbl r \<and> fk r \<and> insertable ixs fk rs (tbl @ [r])"
  unfolding insertable_def fresh_in_Cons clashes_def list_ex_iff
  by (auto split: option.splits)

lemma insert_rows_eq:
  "insert_rows ixs fk rows tbl = (if insertable ixs fk rows tbl then Inr (tbl @ rows) else Inl IntegrityError)"
proof (induction rows arbitrary: tbl)
  case Nil
  then show ?case by (simp add: insertable_def fresh_in_def)
next
  case (Cons r rows)
  then show ?case by (simp add: insertable_Cons)
qed

lemma insert_rows_Inr:
  "insert_rows ixs fk rows tbl = Inr t \<longleftrightarrow> insertable ixs fk rows tbl \<and> t = tbl @ rows"
  by (auto simp: insert_rows_eq)

lemma insert_rows_Inl: "insert_rows ixs fk rows tbl = Inl x \<longleftrightarrow> \<not> insertable ixs fk rows tbl \<and> x = IntegrityError"
  by (auto simp: insert_rows_eq)

lemma entries_pk [simp]: "entries (pk key) rows = map (\<lambda>r. (key r, 0)) rows"
  by (induction rows) (auto simp: pk_def)

lemma insertable_pk:
  "insertable ixs fk rows tbl \<Longrightarrow> pk key \<in> set ixs \<Longrightarrow>
     distinct (map key rows) \<and> key ` set rows \<inter> key ` set tbl = {}"
proof -
  assume "insertable ixs fk rows tbl" "pk key \<in> set ixs"
  then have "fresh_in (pk key) rows tbl" by (simp add: insertable_def)
  then show ?thesis by (auto simp: fresh_in_def distinct_map inj_on_def)
qed

section \<open>Code collisions\<close>

definition CODE_MAX_LEN :: nat where
  "CODE_MAX_LEN = 20"

definition CODE_COLLISION_MARKER :: string where
  "CODE_COLLISION_MARKER = ''~''"

definition CODE_SUFFIX_HEX_LEN :: nat where
  "CODE_SUFFIX_HEX_LEN = 8"

record conflict =
  cf_product_id :: string
  cf_original_code :: string
  cf_resolved_code :: string
  cf_incumbent_id :: string

definition suffix_candidate :: "string \<Rightarrow> string \<Rightarrow> nat \<Rightarrow> string" where
  "suffix_candidate code hex_id n =
     (let marker = CODE_COLLISION_MARKER @ take n hex_id
      in take (CODE_MAX_LEN - length marker) code @ marker)"

text \<open>The loop over \<open>range(8, max_hex + 1)\<close>: it returns on the first candidate that is free, and the last
  candidate when the range is exhausted (the empty string when the range is empty).\<close>

function suffix_loop :: "string \<Rightarrow> string \<Rightarrow> string list \<Rightarrow> nat \<Rightarrow> nat \<Rightarrow> string \<Rightarrow> string" where
  "suffix_loop code hex_id taken n stop candidate =
     (if stop < n then candidate
      else let cand = suffix_candidate code hex_id n
           in if cand \<notin> set taken then cand else suffix_loop code hex_id taken (n + 1) stop cand)"
  by auto
termination by (relation "measure (\<lambda>(_, _, _, n, stop, _). stop + 1 - n)") auto

declare suffix_loop.simps [simp del]

definition suffix_code :: "string \<Rightarrow> string \<Rightarrow> string list \<Rightarrow> string" where
  "suffix_code code row_id taken =
     (let hex_id = filter (\<lambda>c. c \<noteq> CHR ''-'') row_id;
          max_hex = min (length hex_id) (CODE_MAX_LEN - length CODE_COLLISION_MARKER)
      in suffix_loop code hex_id taken CODE_SUFFIX_HEX_LEN max_hex [])"

text \<open>\<open>a or b\<close> on two optional ids: an empty id is falsy.\<close>

definition id_or :: "string option \<Rightarrow> string option \<Rightarrow> string option" where
  "id_or a b = (if or_empty a = [] then b else a)"

text \<open>
  One turn of the loop over the rows sorted by id. \<open>claimed\<close> is the dict \<open>claimed_by\<close>; the
  renames are the assignments \<open>row["code"] = resolved\<close>, by row id.
\<close>

record resolve_state =
  claimed :: "(string \<times> string) list"
  renames :: "(string \<times> string) list"
  found :: "conflict list"

definition resolve_step :: "product list \<Rightarrow> product \<Rightarrow> resolve_state \<Rightarrow> resolve_state" where
  "resolve_step tbl p s =
     (let code = or_empty (p_code p) in
      if p_deleted_at p \<noteq> None \<or> code = [] then s
      else case id_or (map_option p_id (find (is_active_code code) tbl)) (map_of (claimed s) code) of
          None \<Rightarrow> s\<lparr>claimed := dict_set code (p_id p) (claimed s)\<rparr>
        | Some incumbent \<Rightarrow>
            (let resolved = suffix_code code (p_id p) (map fst (claimed s))
             in s\<lparr>claimed := dict_set resolved (p_id p) (claimed s),
                  renames := (p_id p, resolved) # renames s,
                  found := found s @ [\<lparr>cf_product_id = p_id p, cf_original_code = code,
                     cf_resolved_code = resolved, cf_incumbent_id = incumbent\<rparr>]\<rparr>))"

definition rename_row :: "(string \<times> string) list \<Rightarrow> product \<Rightarrow> product" where
  "rename_row rn p = (case map_of rn (p_id p) of None \<Rightarrow> p | Some c \<Rightarrow> p\<lparr>p_code := Some c\<rparr>)"

definition resolve_code_collisions :: "product list \<Rightarrow> product list \<Rightarrow> product list \<times> conflict list" where
  "resolve_code_collisions tbl rows =
     (let s = fold (resolve_step tbl) (sort_key p_id rows) \<lparr>claimed = [], renames = [], found = []\<rparr>
      in (map (rename_row (renames s)) rows, found s))"

section \<open>The stages of a merge\<close>

record merge_report =
  operations_inserted :: nat
  operations_skipped :: nat
  cash_inserted :: nat
  cash_skipped :: nat
  reference_inserted :: "(string \<times> nat) list"
  reference_server_wins :: "(string \<times> nat) list"
  conflicts :: "conflict list"

definition empty_report :: merge_report where
  "empty_report = \<lparr>operations_inserted = 0, operations_skipped = 0, cash_inserted = 0, cash_skipped = 0,
     reference_inserted = [], reference_server_wins = [], conflicts = []\<rparr>"

text \<open>\<open>_upsert_reference\<close>: the new rows, what \<open>prep\<close> makes of them (the code collisions for products),
  and how many rows the server's own rows displaced.\<close>

definition upsert_reference ::
  "('r \<Rightarrow> string) \<Rightarrow> 'r index list \<Rightarrow> ('r \<Rightarrow> bool) \<Rightarrow> ('r list \<Rightarrow> 'r list \<Rightarrow> 'r list \<times> conflict list)
     \<Rightarrow> 'r list \<Rightarrow> 'r list \<Rightarrow> exn + ('r list \<times> nat \<times> nat \<times> conflict list)" where
  "upsert_reference key ixs fk prep rows tbl =
     (if rows = [] then Inr (tbl, 0, 0, [])
      else let (fresh, wins) = partition_new key rows tbl;
               (prepared, cs) = prep tbl fresh
           in case insert_rows ixs fk prepared tbl of
                Inl x \<Rightarrow> Inl x
              | Inr t \<Rightarrow> Inr (t, length fresh, wins, cs))"

definition insert_new ::
  "('r \<Rightarrow> string) \<Rightarrow> 'r index list \<Rightarrow> ('r \<Rightarrow> bool) \<Rightarrow> 'r list \<Rightarrow> 'r list \<Rightarrow> exn + ('r list \<times> nat \<times> nat)" where
  "insert_new key ixs fk rows tbl =
     (if rows = [] then Inr (tbl, 0, 0)
      else let (fresh, skipped) = partition_new key rows tbl
           in case insert_rows ixs fk fresh tbl of
                Inl x \<Rightarrow> Inl x
              | Inr t \<Rightarrow> Inr (t, length fresh, skipped))"

definition no_prep :: "'r list \<Rightarrow> 'r list \<Rightarrow> 'r list \<times> conflict list" where
  "no_prep tbl rows = (rows, [])"

text \<open>The unique indexes of the tables.\<close>

definition active_code_index :: "product index" where
  "active_code_index p = (if p_deleted_at p = None then map_option (\<lambda>c. (c, 0)) (p_code p) else None)"

definition dictionary_code_index :: "dict_entry index" where
  "dictionary_code_index r = Some (d_code r, 0)"

definition op_seq_index :: "operation index" where
  "op_seq_index o1 = Some (o_device_id o1, o_seq o1)"

definition cash_seq_index :: "cash_movement index" where
  "cash_seq_index m = Some (m_device_id m, m_seq m)"

text \<open>A reference kind's counts go into the report only when they are not zero.\<close>

definition count_into :: "string \<Rightarrow> nat \<Rightarrow> (string \<times> nat) list \<Rightarrow> (string \<times> nat) list" where
  "count_into kind n m = (if n = 0 then m else dict_set kind n m)"

definition note_counts :: "string \<Rightarrow> nat \<Rightarrow> nat \<Rightarrow> conflict list \<Rightarrow> merge_report \<Rightarrow> merge_report" where
  "note_counts kind n wins cs rep = rep\<lparr>
     reference_inserted := count_into kind n (reference_inserted rep),
     reference_server_wins := count_into kind wins (reference_server_wins rep),
     conflicts := conflicts rep @ cs\<rparr>"

text \<open>One reference kind, on the database; \<open>put\<close> writes its table back.\<close>

definition reference_stage ::
  "string \<Rightarrow> ('r \<Rightarrow> string) \<Rightarrow> 'r index list \<Rightarrow> (db \<Rightarrow> 'r \<Rightarrow> bool)
     \<Rightarrow> ('r list \<Rightarrow> 'r list \<Rightarrow> 'r list \<times> conflict list) \<Rightarrow> (db \<Rightarrow> 'r list) \<Rightarrow> ('r list \<Rightarrow> db \<Rightarrow> db)
     \<Rightarrow> 'r list \<Rightarrow> db \<times> merge_report \<Rightarrow> exn + db \<times> merge_report" where
  "reference_stage kind key ixs fk prep tbl put rows = (\<lambda>(d, rep).
     if rows = [] then Inr (d, rep)
     else case upsert_reference key ixs (fk d) prep rows (tbl d) of
         Inl x \<Rightarrow> Inl x
       | Inr (t, n, wins, cs) \<Rightarrow> Inr (put t d, note_counts kind n wins cs rep))"

text \<open>A statement after another: the first exception ends the block.\<close>

fun and_then :: "exn + 'a \<Rightarrow> ('a \<Rightarrow> exn + 'b) \<Rightarrow> exn + 'b" where
  "and_then (Inl x) f = Inl x"
| "and_then (Inr a) f = f a"

definition merge_warehouses :: "warehouse list \<Rightarrow> db \<times> merge_report \<Rightarrow> exn + db \<times> merge_report" where
  "merge_warehouses = reference_stage ''warehouse'' w_id [pk w_id] (\<lambda>_ _. True) no_prep
     warehouses (\<lambda>t d. d\<lparr>warehouses := t\<rparr>)"

definition merge_products :: "product list \<Rightarrow> db \<times> merge_report \<Rightarrow> exn + db \<times> merge_report" where
  "merge_products = reference_stage ''product'' p_id [pk p_id, active_code_index] (\<lambda>_ _. True)
     resolve_code_collisions products (\<lambda>t d. d\<lparr>products := t\<rparr>)"

definition merge_customers :: "customer list \<Rightarrow> db \<times> merge_report \<Rightarrow> exn + db \<times> merge_report" where
  "merge_customers = reference_stage ''customer'' c_id [pk c_id] (\<lambda>_ _. True) no_prep
     customers (\<lambda>t d. d\<lparr>customers := t\<rparr>)"

definition merge_dictionary :: "dict_entry list \<Rightarrow> db \<times> merge_report \<Rightarrow> exn + db \<times> merge_report" where
  "merge_dictionary = reference_stage ''dictionary'' d_id [pk d_id, dictionary_code_index] (\<lambda>_ _. True) no_prep
     dictionary (\<lambda>t d. d\<lparr>dictionary := t\<rparr>)"

definition batch_fk :: "db \<Rightarrow> batch \<Rightarrow> bool" where
  "batch_fk d b \<longleftrightarrow> thas p_id (b_product_id b) (products d) \<and> thas w_id (b_warehouse_id b) (warehouses d)"

definition merge_batches :: "batch list \<Rightarrow> db \<times> merge_report \<Rightarrow> exn + db \<times> merge_report" where
  "merge_batches = reference_stage ''batch'' b_id [pk b_id] batch_fk no_prep
     batches (\<lambda>t d. d\<lparr>batches := t\<rparr>)"

definition sale_fk :: "db \<Rightarrow> sale \<Rightarrow> bool" where
  "sale_fk d s = (case s_customer_id s of None \<Rightarrow> True | Some k \<Rightarrow> thas c_id k (customers d))"

definition merge_sales :: "sale list \<Rightarrow> db \<times> merge_report \<Rightarrow> exn + db \<times> merge_report" where
  "merge_sales = reference_stage ''sale'' s_id [pk s_id] sale_fk no_prep sales (\<lambda>t d. d\<lparr>sales := t\<rparr>)"

definition op_fk :: "db \<Rightarrow> operation \<Rightarrow> bool" where
  "op_fk d o1 = thas p_id (o_product_id o1) (products d)"

definition merge_operations :: "operation list \<Rightarrow> db \<times> merge_report \<Rightarrow> exn + db \<times> merge_report" where
  "merge_operations rows = (\<lambda>(d, rep). case insert_new o_id [pk o_id, op_seq_index] (op_fk d) rows (operations d) of
       Inl x \<Rightarrow> Inl x
     | Inr (t, n, k) \<Rightarrow> Inr (d\<lparr>operations := t\<rparr>, rep\<lparr>operations_inserted := n, operations_skipped := k\<rparr>))"

definition cash_fk :: "db \<Rightarrow> cash_movement \<Rightarrow> bool" where
  "cash_fk d m = (case m_sale_id m of None \<Rightarrow> True | Some k \<Rightarrow> thas s_id k (sales d))"

definition merge_cash :: "cash_movement list \<Rightarrow> db \<times> merge_report \<Rightarrow> exn + db \<times> merge_report" where
  "merge_cash rows = (\<lambda>(d, rep). case insert_new m_id [pk m_id, cash_seq_index] (cash_fk d) rows (cash_movements d) of
       Inl x \<Rightarrow> Inl x
     | Inr (t, n, k) \<Rightarrow> Inr (d\<lparr>cash_movements := t\<rparr>, rep\<lparr>cash_inserted := n, cash_skipped := k\<rparr>))"

text \<open>The inserts of a batch, in foreign-key order by kind.\<close>

definition merge_tables :: "record_row list \<Rightarrow> db \<Rightarrow> exn + db \<times> merge_report" where
  "merge_tables rs d =
     and_then (and_then (and_then (and_then (and_then (and_then (and_then
       (merge_warehouses (warehouse_rows rs) (d, empty_report))
       (merge_products (product_rows rs)))
       (merge_customers (customer_rows rs)))
       (merge_dictionary (dictionary_rows rs)))
       (merge_batches (batch_rows rs)))
       (merge_sales (sale_rows rs)))
       (merge_operations (operation_rows rs)))
       (merge_cash (cash_rows rs))"

text \<open>
  \<open>apply_merge\<close> on an open session. When an insert fails, what was inserted before it is left to the
  caller's rollback; no caller reads the session before it.
\<close>

definition apply_merge :: "record_row list \<Rightarrow> world \<Rightarrow> (exn + merge_report) \<times> world" where
  "apply_merge rs w =
     (case merge_tables rs (cur w) of
        Inl x \<Rightarrow> (Inl x, w)
      | Inr (d, rep) \<Rightarrow>
          (case recompute_derived (w\<lparr>cur := d\<rparr>) of
             (Some x, w1) \<Rightarrow> (Inl x, w1)
           | (None, w1) \<Rightarrow> (Inr rep, w1)))"

text \<open>The route's transaction: \<open>session.rollback()\<close>, then \<open>with session.begin()\<close> around the merge, which
  commits on success and rolls back on an exception.\<close>

definition merge_transaction :: "record_row list \<Rightarrow> world \<Rightarrow> (exn + merge_report) \<times> world" where
  "merge_transaction rs w =
     (case apply_merge rs (rollback w) of
        (Inl x, w1) \<Rightarrow> (Inl x, rollback w1)
      | (Inr rep, w1) \<Rightarrow> (case commit w1 of (Some x, w2) \<Rightarrow> (Inl x, rollback w2) | (None, w2) \<Rightarrow> (Inr rep, w2)))"

section \<open>The merged tables in closed form\<close>

lemma new_in_Nil [simp]: "new_in key tbl [] = []"
  by (simp add: new_in_def)

lemma note_counts_zero [simp]: "note_counts kind 0 0 [] rep = rep"
  by (simp add: note_counts_def count_into_def)

lemma resolve_Nil [simp]: "resolve_code_collisions tbl [] = ([], [])"
  by (simp add: resolve_code_collisions_def)

lemma reference_stage_eq:
  assumes "prep (tbl d) [] = ([], [])" and "put (tbl d) d = d"
    and "prep (tbl d) (new_in key (tbl d) rows) = (prepared, cs)"
  shows "reference_stage kind key ixs fk prep tbl put rows (d, rep) =
     (if insertable ixs (fk d) prepared (tbl d)
      then Inr (put (tbl d @ prepared) d,
        note_counts kind (length (new_in key (tbl d) rows)) (length rows - length (new_in key (tbl d) rows)) cs rep)
      else Inl IntegrityError)"
proof (cases "rows = []")
  case True
  with assms show ?thesis
    by (auto simp: reference_stage_def insertable_def fresh_in_def)
next
  case False
  with assms(3) show ?thesis
    by (simp add: reference_stage_def upsert_reference_def partition_new_eq insert_rows_eq)
qed

lemma insert_new_eq:
  "insert_new key ixs fk rows tbl =
     (if insertable ixs fk (new_in key tbl rows) tbl
      then Inr (tbl @ new_in key tbl rows, length (new_in key tbl rows), length rows - length (new_in key tbl rows))
      else Inl IntegrityError)"
  by (auto simp: insert_new_def partition_new_eq insert_rows_eq insertable_def fresh_in_def)

definition new_products :: "db \<Rightarrow> record_row list \<Rightarrow> product list" where
  "new_products d rs = fst (resolve_code_collisions (products d) (new_in p_id (products d) (product_rows rs)))"

definition new_conflicts :: "db \<Rightarrow> record_row list \<Rightarrow> conflict list" where
  "new_conflicts d rs = snd (resolve_code_collisions (products d) (new_in p_id (products d) (product_rows rs)))"

text \<open>The union of the database and the batch, the database winning where both have a row.\<close>

definition merged :: "record_row list \<Rightarrow> db \<Rightarrow> db" where
  "merged rs d = d\<lparr>
     warehouses := warehouses d @ new_in w_id (warehouses d) (warehouse_rows rs),
     products := products d @ new_products d rs,
     customers := customers d @ new_in c_id (customers d) (customer_rows rs),
     dictionary := dictionary d @ new_in d_id (dictionary d) (dictionary_rows rs),
     batches := batches d @ new_in b_id (batches d) (batch_rows rs),
     sales := sales d @ new_in s_id (sales d) (sale_rows rs),
     operations := operations d @ new_in o_id (operations d) (operation_rows rs),
     cash_movements := cash_movements d @ new_in m_id (cash_movements d) (cash_rows rs)\<rparr>"

text \<open>What the database checks of the inserts: the parents of every new row are in the union.\<close>

definition mergeable :: "record_row list \<Rightarrow> db \<Rightarrow> bool" where
  "mergeable rs d \<longleftrightarrow>
     insertable [pk w_id] (\<lambda>_. True) (new_in w_id (warehouses d) (warehouse_rows rs)) (warehouses d)
     \<and> insertable [pk p_id, active_code_index] (\<lambda>_. True) (new_products d rs) (products d)
     \<and> insertable [pk c_id] (\<lambda>_. True) (new_in c_id (customers d) (customer_rows rs)) (customers d)
     \<and> insertable [pk d_id, dictionary_code_index] (\<lambda>_. True) (new_in d_id (dictionary d) (dictionary_rows rs)) (dictionary d)
     \<and> insertable [pk b_id] (batch_fk (merged rs d)) (new_in b_id (batches d) (batch_rows rs)) (batches d)
     \<and> insertable [pk s_id] (sale_fk (merged rs d)) (new_in s_id (sales d) (sale_rows rs)) (sales d)
     \<and> insertable [pk o_id, op_seq_index] (op_fk (merged rs d)) (new_in o_id (operations d) (operation_rows rs)) (operations d)
     \<and> insertable [pk m_id, cash_seq_index] (cash_fk (merged rs d)) (new_in m_id (cash_movements d) (cash_rows rs)) (cash_movements d)"

text \<open>The counts of one reference kind.\<close>

definition counts :: "string \<Rightarrow> ('r \<Rightarrow> string) \<Rightarrow> 'r list \<Rightarrow> 'r list \<Rightarrow> conflict list \<Rightarrow> merge_report \<Rightarrow> merge_report" where
  "counts kind key tbl rows cs =
     note_counts kind (length (new_in key tbl rows)) (length rows - length (new_in key tbl rows)) cs"

definition merged_report :: "record_row list \<Rightarrow> db \<Rightarrow> merge_report" where
  "merged_report rs d =
     (let n = length (new_in o_id (operations d) (operation_rows rs));
          m = length (new_in m_id (cash_movements d) (cash_rows rs))
      in (counts ''sale'' s_id (sales d) (sale_rows rs) []
         (counts ''batch'' b_id (batches d) (batch_rows rs) []
         (counts ''dictionary'' d_id (dictionary d) (dictionary_rows rs) []
         (counts ''customer'' c_id (customers d) (customer_rows rs) []
         (counts ''product'' p_id (products d) (product_rows rs) (new_conflicts d rs)
         (counts ''warehouse'' w_id (warehouses d) (warehouse_rows rs) [] empty_report))))))
       \<lparr>operations_inserted := n, operations_skipped := length (operation_rows rs) - n,
        cash_inserted := m, cash_skipped := length (cash_rows rs) - m\<rparr>)"

lemma fk_cong:
  "products d = products d' \<Longrightarrow> warehouses d = warehouses d' \<Longrightarrow> batch_fk d = batch_fk d'"
  "customers d = customers d' \<Longrightarrow> sale_fk d = sale_fk d'"
  "products d = products d' \<Longrightarrow> op_fk d = op_fk d'"
  "sales d = sales d' \<Longrightarrow> cash_fk d = cash_fk d'"
  by (auto simp: fun_eq_iff batch_fk_def sale_fk_def op_fk_def cash_fk_def split: option.splits)

lemma merge_warehouses_eq:
  "merge_warehouses rows (d, rep) =
     (if insertable [pk w_id] (\<lambda>_. True) (new_in w_id (warehouses d) rows) (warehouses d)
      then Inr (d\<lparr>warehouses := warehouses d @ new_in w_id (warehouses d) rows\<rparr>,
        counts ''warehouse'' w_id (warehouses d) rows [] rep)
      else Inl IntegrityError)"
  unfolding merge_warehouses_def counts_def
  by (subst reference_stage_eq) (auto simp: no_prep_def)

lemma merge_products_eq:
  "merge_products rows (d, rep) =
     (let (prepared, cs) = resolve_code_collisions (products d) (new_in p_id (products d) rows)
      in if insertable [pk p_id, active_code_index] (\<lambda>_. True) prepared (products d)
      then Inr (d\<lparr>products := products d @ prepared\<rparr>, counts ''product'' p_id (products d) rows cs rep)
      else Inl IntegrityError)"
  unfolding merge_products_def counts_def Let_def split_beta
  by (subst reference_stage_eq) (auto simp: prod_eq_iff)

lemma merge_customers_eq:
  "merge_customers rows (d, rep) =
     (if insertable [pk c_id] (\<lambda>_. True) (new_in c_id (customers d) rows) (customers d)
      then Inr (d\<lparr>customers := customers d @ new_in c_id (customers d) rows\<rparr>,
        counts ''customer'' c_id (customers d) rows [] rep)
      else Inl IntegrityError)"
  unfolding merge_customers_def counts_def
  by (subst reference_stage_eq) (auto simp: no_prep_def)

lemma merge_dictionary_eq:
  "merge_dictionary rows (d, rep) =
     (if insertable [pk d_id, dictionary_code_index] (\<lambda>_. True) (new_in d_id (dictionary d) rows) (dictionary d)
      then Inr (d\<lparr>dictionary := dictionary d @ new_in d_id (dictionary d) rows\<rparr>,
        counts ''dictionary'' d_id (dictionary d) rows [] rep)
      else Inl IntegrityError)"
  unfolding merge_dictionary_def counts_def
  by (subst reference_stage_eq) (auto simp: no_prep_def)

lemma merge_batches_eq:
  "merge_batches rows (d, rep) =
     (if insertable [pk b_id] (batch_fk d) (new_in b_id (batches d) rows) (batches d)
      then Inr (d\<lparr>batches := batches d @ new_in b_id (batches d) rows\<rparr>,
        counts ''batch'' b_id (batches d) rows [] rep)
      else Inl IntegrityError)"
  unfolding merge_batches_def counts_def
  by (subst reference_stage_eq) (auto simp: no_prep_def)

lemma merge_sales_eq:
  "merge_sales rows (d, rep) =
     (if insertable [pk s_id] (sale_fk d) (new_in s_id (sales d) rows) (sales d)
      then Inr (d\<lparr>sales := sales d @ new_in s_id (sales d) rows\<rparr>,
        counts ''sale'' s_id (sales d) rows [] rep)
      else Inl IntegrityError)"
  unfolding merge_sales_def counts_def
  by (subst reference_stage_eq) (auto simp: no_prep_def)

lemmas merge_stage_eqs = merge_warehouses_eq merge_products_eq merge_customers_eq merge_dictionary_eq
  merge_batches_eq merge_sales_eq

lemma and_then_if: "and_then (if c then Inr a else Inl x) f = (if c then f a else Inl x)"
  by simp

lemma merge_tables_eq:
  "merge_tables rs d = (if mergeable rs d then Inr (merged rs d, merged_report rs d) else Inl IntegrityError)"
proof -
  have fk: "batch_fk (d\<lparr>warehouses := a, products := b, customers := c, dictionary := e\<rparr>)
      = batch_fk (d\<lparr>warehouses := a, products := b, customers := c, dictionary := e, batches := f, sales := g,
          operations := h, cash_movements := k\<rparr>)"
    "sale_fk (d\<lparr>warehouses := a, products := b, customers := c, dictionary := e, batches := f\<rparr>)
      = sale_fk (d\<lparr>warehouses := a, products := b, customers := c, dictionary := e, batches := f, sales := g,
          operations := h, cash_movements := k\<rparr>)"
    "op_fk (d\<lparr>warehouses := a, products := b, customers := c, dictionary := e, batches := f, sales := g\<rparr>)
      = op_fk (d\<lparr>warehouses := a, products := b, customers := c, dictionary := e, batches := f, sales := g,
          operations := h, cash_movements := k\<rparr>)"
    "cash_fk (d\<lparr>warehouses := a, products := b, customers := c, dictionary := e, batches := f, sales := g,
          operations := h\<rparr>)
      = cash_fk (d\<lparr>warehouses := a, products := b, customers := c, dictionary := e, batches := f, sales := g,
          operations := h, cash_movements := k\<rparr>)" for a b c e f g h k
    by (rule fk_cong; simp)+
  show ?thesis
    by (simp add: merge_tables_def merge_stage_eqs and_then_if split_beta Let_def merge_operations_def
        merge_cash_def insert_new_eq mergeable_def merged_def new_products_def[symmetric] new_conflicts_def[symmetric]
        fk[symmetric] merged_report_def)
qed

end
