(* ===== verification/Exchange.thy ===== *)
theory Exchange
  imports Json Merge
begin

text \<open>
  The wire format of \<open>src/app/services/merge.py\<close>: NDJSON, a header line and one record per line.
  \<open>parse_exchange\<close> checks everything before the database is touched; \<open>serialize_exchange\<close> writes;
  \<open>decode_record\<close> and \<open>record_of\<close> are the projections between a record's columns and a table row
  (\<open>_reference_row\<close> and \<open>_ledger_row\<close> restrict to the model's columns, \<open>_row_to_record\<close> of \<open>sync.py\<close>
  emits them). The digest takes the hash function as an argument.
\<close>

section \<open>The vocabulary\<close>

definition FORMAT_VERSION :: int where
  "FORMAT_VERSION = 1"

definition RECORD_KINDS :: "string list" where
  "RECORD_KINDS = [''header'', ''warehouse'', ''product'', ''customer'', ''dictionary'', ''batch'', ''sale'',
     ''operation'', ''cash_movement'']"

definition LEDGER_KINDS :: "string list" where
  "LEDGER_KINDS = [''operation'', ''cash_movement'']"

definition LEDGER_REQUIRED :: "string list" where
  "LEDGER_REQUIRED = [''device_id'', ''seq'', ''created_at'', ''created_by'']"

text \<open>\<open>KIND_TO_FIELDS\<close>: the columns of the mapped class.\<close>

definition KIND_TO_FIELDS :: "(string \<times> string list) list" where
  "KIND_TO_FIELDS =
    [(''warehouse'', [''id'', ''name'', ''address'', ''currency'', ''created_at'', ''updated_at'', ''deleted_at'']),
     (''product'', [''id'', ''code'', ''name'', ''category'', ''cost_cents'', ''sale_cents'', ''min_sale_cents'',
        ''cost_uah_cents'', ''sale_uah_cents'', ''min_sale_uah_cents'', ''cost_eur_cents'', ''sale_eur_cents'',
        ''min_sale_eur_cents'', ''low_stock_threshold'', ''stale_days'', ''name_lc'', ''quantity'', ''created_at'',
        ''updated_at'', ''deleted_at'']),
     (''customer'', [''id'', ''name'', ''surname'', ''consultant_number'', ''address'', ''search_lc'',
        ''created_at'', ''updated_at'']),
     (''dictionary'', [''id'', ''code'', ''name'', ''catalogs'', ''name_lc'', ''rubric'', ''created_at'', ''updated_at'']),
     (''batch'', [''id'', ''product_id'', ''warehouse_id'', ''expiry'', ''price_cents'', ''cost_cents'', ''location'',
        ''comment'', ''name'', ''quantity'', ''is_legacy'', ''created_at'', ''updated_at'']),
     (''sale'', [''id'', ''customer_id'', ''created_at'', ''created_by'', ''author_id'', ''device_id'']),
     (''operation'', [''id'', ''type'', ''product_id'', ''qty_delta'', ''unit_cost_cents'', ''unit_price_cents'',
        ''payload'', ''sale_id'', ''batch_id'', ''reverses_op_id'', ''author_id'', ''device_id'', ''seq'',
        ''created_at'', ''business_date'', ''created_by'', ''synced_at'']),
     (''cash_movement'', [''id'', ''category'', ''amount_cents'', ''currency'', ''note'', ''sale_id'',
        ''reverses_movement_id'', ''author_id'', ''device_id'', ''seq'', ''created_at'', ''business_date'',
        ''created_by'', ''synced_at''])]"

definition fields_of :: "string \<Rightarrow> string list" where
  "fields_of kind = (case map_of KIND_TO_FIELDS kind of None \<Rightarrow> [] | Some fs \<Rightarrow> fs)"

definition endswith :: "string \<Rightarrow> string \<Rightarrow> bool" where
  "endswith s suf \<longleftrightarrow> length suf \<le> length s \<and> drop (length s - length suf) s = suf"

definition money_fields :: "string \<Rightarrow> string list" where
  "money_fields kind = filter (\<lambda>f. endswith f ''_cents'') (fields_of kind)"

definition DATE_FIELDS :: "string list" where
  "DATE_FIELDS = [''business_date'', ''expiry'']"

definition TIMESTAMP_FIELDS :: "string list" where
  "TIMESTAMP_FIELDS = [''created_at'']"

definition date_fields :: "string \<Rightarrow> string list" where
  "date_fields kind = filter (\<lambda>f. f \<in> set (fields_of kind)) DATE_FIELDS"

definition timestamp_fields :: "string \<Rightarrow> string list" where
  "timestamp_fields kind = filter (\<lambda>f. f \<in> set (fields_of kind)) TIMESTAMP_FIELDS"

section \<open>Dates and timestamps\<close>

definition is_iso_date :: "string \<Rightarrow> bool" where
  "is_iso_date s = (case fromisoformat s of None \<Rightarrow> False | Some d \<Rightarrow> isoformat d = s)"

text \<open>
  The time part of \<open>datetime.fromisoformat\<close>, as in the library's \<open>_parse_isoformat_time\<close>: hours,
  optional minutes, seconds and fraction, all with or all without colons, then nothing, \<open>Z\<close>, or a
  signed offset below 24 hours.
\<close>

definition two_digits :: "string \<Rightarrow> (nat \<times> string) option" where
  "two_digits s = (if length s < 2 then None else map_option (\<lambda>n. (n, drop 2 s)) (digits_opt (take 2 s)))"

definition hh_mm_ss_ff :: "string \<Rightarrow> (nat \<times> nat \<times> nat) option" where
  "hh_mm_ss_ff s =
     (case two_digits s of None \<Rightarrow> None | Some (h, r) \<Rightarrow>
        if r = [] then Some (h, 0, 0)
        else let sep = (hd r = CHR '':''); skip = (\<lambda>t. if sep then tl t else t) in
          (case two_digits (skip r) of None \<Rightarrow> None | Some (m, r2) \<Rightarrow>
             if r2 = [] then Some (h, m, 0)
             else if sep \<and> hd r2 \<noteq> CHR '':'' then None
             else (case two_digits (skip r2) of None \<Rightarrow> None | Some (sec, r3) \<Rightarrow>
                if r3 = [] then Some (h, m, sec)
                else if hd r3 \<notin> {CHR ''.'', CHR '',''} \<or> tl r3 = [] \<or> \<not> list_all is_dig (tl r3) then None
                else Some (h, m, sec))))"

definition zone_ok :: "string \<Rightarrow> bool" where
  "zone_ok z \<longleftrightarrow> z = [] \<or> z = ''Z'' \<or> hd z \<noteq> CHR ''Z'' \<and> length (tl z) \<notin> {0, 1, 3} \<and>
     (case hh_mm_ss_ff (tl z) of None \<Rightarrow> False | Some (h, m, s) \<Rightarrow> h * 3600 + m * 60 + s < 86400)"

definition time_ok :: "string \<Rightarrow> bool" where
  "time_ok t \<longleftrightarrow> 2 \<le> length t \<and>
     (let clock = takeWhile (\<lambda>c. c \<notin> {CHR ''+'', CHR ''-'', CHR ''Z''}) t
      in (case hh_mm_ss_ff clock of None \<Rightarrow> False | Some (h, m, s) \<Rightarrow> h < 24 \<and> m < 60 \<and> s < 60)
         \<and> zone_ok (drop (length clock) t))"

text \<open>A date alone followed by the separator parses: \<open>fromisoformat\<close> skips an empty time part.\<close>

definition is_iso_timestamp :: "string \<Rightarrow> bool" where
  "is_iso_timestamp s \<longleftrightarrow> 11 \<le> length s \<and> s ! 10 \<in> {CHR ''T'', CHR '' ''} \<and> is_iso_date (take 10 s)
     \<and> (drop 11 s = [] \<or> time_ok (drop 11 s))"

section \<open>Parsing\<close>

type_synonym json_obj = "(string \<times> json) list"

record exchange_record =
  x_kind :: string
  x_data :: json_obj

record exchange_batch =
  x_format_version :: json
  x_schema_version :: string
  x_source_device_id :: json
  x_records :: "exchange_record list"

text \<open>\<open>obj.get(key)\<close>: an absent key and a null are the same \<open>None\<close>.\<close>

definition jget :: "string \<Rightarrow> json_obj \<Rightarrow> json" where
  "jget k obj = (case map_of obj k of None \<Rightarrow> J_null | Some v \<Rightarrow> v)"

text \<open>
  \<open>version != FORMAT_VERSION\<close> is Python's numeric equality: \<open>True\<close> and a float that rounds to 1.0 pass.
  A float literal is read as mantissa times ten to an exponent; it rounds to 1.0 between
  1 - 2^-54 and 1 + 2^-53.
\<close>

definition float_parts :: "string \<Rightarrow> (int \<times> int) option" where
  "float_parts lit =
     (if list_all (\<lambda>c. is_dig c \<or> c \<in> {CHR ''+'', CHR ''-'', CHR ''.'', CHR ''e'', CHR ''E''}) lit then
       (let neg = (hd lit = CHR ''-''); body = (if neg then tl lit else lit);
            mant = takeWhile (\<lambda>c. c \<notin> {CHR ''e'', CHR ''E''}) body;
            expo = tl (drop (length mant) body);
            ip = takeWhile (\<lambda>c. c \<noteq> CHR ''.'') mant; fp = tl (drop (length ip) mant);
            m = int (digits_val (ip @ fp));
            e = (if expo = [] then 0 else if hd expo = CHR ''-'' then - int (digits_val (tl expo))
                 else if hd expo = CHR ''+'' then int (digits_val (tl expo)) else int (digits_val expo))
        in Some (if neg then - m else m, e - int (length fp)))
      else None)"

definition float_is_one :: "string \<Rightarrow> bool" where
  "float_is_one lit = (case float_parts lit of None \<Rightarrow> False
     | Some (m, e) \<Rightarrow>
         if 0 \<le> e then m * 10 ^ nat e = 1
         else let q = 10 ^ nat (- e) in (2 ^ 54 - 1) * q \<le> 2 ^ 54 * m \<and> 2 ^ 53 * m \<le> (2 ^ 53 + 1) * q)"

fun is_format_version :: "json \<Rightarrow> bool" where
  "is_format_version (J_int i) \<longleftrightarrow> i = FORMAT_VERSION"
| "is_format_version (J_bool b) \<longleftrightarrow> b"
| "is_format_version (J_float lit) \<longleftrightarrow> float_is_one lit"
| "is_format_version _ \<longleftrightarrow> False"

fun is_int :: "json \<Rightarrow> bool" where
  "is_int (J_int _) \<longleftrightarrow> True"
| "is_int _ \<longleftrightarrow> False"

text \<open>The checks on one record's data; each failure is a \<open>ValueError\<close>.\<close>

definition ledger_ok_data :: "string \<Rightarrow> json_obj \<Rightarrow> bool" where
  "ledger_ok_data kind data \<longleftrightarrow> (kind \<in> set LEDGER_KINDS \<longrightarrow>
     list_all (\<lambda>f. jget f data \<noteq> J_null) LEDGER_REQUIRED \<and> is_int (jget ''seq'' data)
     \<and> list_all (\<lambda>f. case jget f data of J_str s \<Rightarrow> is_iso_timestamp s | _ \<Rightarrow> False) (timestamp_fields kind))"

definition money_ok_data :: "string \<Rightarrow> json_obj \<Rightarrow> bool" where
  "money_ok_data kind data \<longleftrightarrow>
     list_all (\<lambda>f. jget f data = J_null \<or> is_int (jget f data)) (money_fields kind)"

definition date_ok_data :: "string \<Rightarrow> json_obj \<Rightarrow> bool" where
  "date_ok_data kind data \<longleftrightarrow>
     list_all (\<lambda>f. case jget f data of J_null \<Rightarrow> True | J_str s \<Rightarrow> is_iso_date s | _ \<Rightarrow> False) (date_fields kind)"

text \<open>\<open>if "synced_at" in data: data["synced_at"] = None\<close>\<close>

definition drop_synced :: "json_obj \<Rightarrow> json_obj" where
  "drop_synced data = map (\<lambda>(k, v). if k = ''synced_at'' then (k, J_null) else (k, v)) data"

record parse_state =
  ps_header :: "json_obj option"
  ps_records :: "exchange_record list"
  ps_seen :: "(string \<times> string) list"

definition parse_record :: "string \<Rightarrow> json_obj \<Rightarrow> parse_state \<Rightarrow> exn + parse_state" where
  "parse_record kind data s =
     (case jget ''id'' data of
        J_str i \<Rightarrow>
          if i = [] then Inl ValueError
          else if (kind, i) \<in> set (ps_seen s) then Inl ValueError
          else if \<not> ledger_ok_data kind data then Inl ValueError
          else if \<not> money_ok_data kind data then Inl ValueError
          else if \<not> date_ok_data kind data then Inl ValueError
          else Inr (s\<lparr>ps_seen := (kind, i) # ps_seen s,
                     ps_records := ps_records s @ [\<lparr>x_kind = kind, x_data = drop_synced data\<rparr>]\<rparr>)
      | _ \<Rightarrow> Inl ValueError)"

text \<open>
  One line. \<open>kind not in non_header_kinds\<close> hashes \<open>kind\<close>: a list or an object is unhashable and
  raises \<open>TypeError\<close>.
\<close>

definition parse_line :: "string \<Rightarrow> parse_state \<Rightarrow> exn + parse_state" where
  "parse_line raw s =
     (if strip raw = [] then Inr s
      else case loads raw of
          Some (J_obj obj) \<Rightarrow>
            (let kind = jget ''kind'' obj in
             case ps_header s of
               None \<Rightarrow>
                 if kind \<noteq> J_str ''header'' then Inl ValueError
                 else if \<not> is_format_version (jget ''format_version'' obj) then Inl ValueError
                 else Inr (s\<lparr>ps_header := Some obj\<rparr>)
             | Some _ \<Rightarrow>
                 (case kind of
                    J_list _ \<Rightarrow> Inl TypeError
                  | J_obj _ \<Rightarrow> Inl TypeError
                  | J_str k \<Rightarrow>
                      if k = ''header'' \<or> k \<notin> set RECORD_KINDS then Inl ValueError
                      else parse_record k (filter (\<lambda>(key, _). key \<noteq> ''kind'') obj) s
                  | _ \<Rightarrow> Inl ValueError))
        | _ \<Rightarrow> Inl ValueError)"

fun parse_lines :: "string list \<Rightarrow> parse_state \<Rightarrow> exn + parse_state" where
  "parse_lines [] s = Inr s"
| "parse_lines (raw # lines) s = (case parse_line raw s of Inl x \<Rightarrow> Inl x | Inr s1 \<Rightarrow> parse_lines lines s1)"

definition parse_exchange :: "string list \<Rightarrow> exn + exchange_batch" where
  "parse_exchange lines =
     (case parse_lines lines \<lparr>ps_header = None, ps_records = [], ps_seen = []\<rparr> of
        Inl x \<Rightarrow> Inl x
      | Inr s \<Rightarrow> (case ps_header s of
          None \<Rightarrow> Inl ValueError
        | Some header \<Rightarrow> Inr \<lparr>x_format_version = jget ''format_version'' header,
            x_schema_version = (case jget ''schema_version'' header of J_str v \<Rightarrow> v | _ \<Rightarrow> []),
            x_source_device_id = jget ''source_device_id'' header, x_records = ps_records s\<rparr>))"

section \<open>Writing\<close>

definition payload_digest :: "(string \<Rightarrow> string) \<Rightarrow> string list \<Rightarrow> string" where
  "payload_digest sha256 record_lines = sha256 (join [char_of (10 :: nat)] record_lines)"

definition record_line :: "exchange_record \<Rightarrow> string" where
  "record_line r = dumps (J_obj ((''kind'', J_str (x_kind r)) # x_data r))"

text \<open>\<open>counts[kind] = counts.get(kind, 0) + 1\<close>\<close>

definition count_kinds :: "exchange_record list \<Rightarrow> (string \<times> int) list" where
  "count_kinds rs = fold (\<lambda>r m. dict_set (x_kind r) ((case map_of m (x_kind r) of None \<Rightarrow> 0 | Some n \<Rightarrow> n) + 1) m) rs []"

definition header_line :: "(string \<Rightarrow> string) \<Rightarrow> string \<Rightarrow> string option \<Rightarrow> string \<Rightarrow> exchange_record list \<Rightarrow> string" where
  "header_line sha256 schema source generated_at rs = dumps (J_obj
     [(''kind'', J_str ''header''), (''format_version'', J_int FORMAT_VERSION), (''schema_version'', J_str schema),
      (''source_device_id'', (case source of None \<Rightarrow> J_null | Some s \<Rightarrow> J_str s)),
      (''generated_at'', J_str generated_at),
      (''counts'', J_obj (map (\<lambda>(k, n). (k, J_int n)) (count_kinds rs))),
      (''payload_sha256'', J_str (payload_digest sha256 (map record_line rs)))])"

definition serialize_exchange ::
  "(string \<Rightarrow> string) \<Rightarrow> exchange_record list \<Rightarrow> string \<Rightarrow> string option \<Rightarrow> string \<Rightarrow> string list" where
  "serialize_exchange sha256 rs schema source generated_at =
     header_line sha256 schema source generated_at rs # map record_line rs"

section \<open>What parse_exchange lets through\<close>

text \<open>The type of an accepted record.\<close>

definition record_ok :: "exchange_record \<Rightarrow> bool" where
  "record_ok r \<longleftrightarrow> x_kind r \<in> set RECORD_KINDS \<and> x_kind r \<noteq> ''header''
     \<and> (\<exists>i. jget ''id'' (x_data r) = J_str i \<and> i \<noteq> []) \<and> ''kind'' \<notin> fst ` set (x_data r)
     \<and> ledger_ok_data (x_kind r) (x_data r) \<and> money_ok_data (x_kind r) (x_data r) \<and> date_ok_data (x_kind r) (x_data r)
     \<and> jget ''synced_at'' (x_data r) = J_null"

definition records_ok :: "exchange_record list \<Rightarrow> bool" where
  "records_ok rs \<longleftrightarrow> list_all record_ok rs
     \<and> distinct (map (\<lambda>r. (x_kind r, jget ''id'' (x_data r))) rs)"

lemma jget_drop_synced: "jget f (drop_synced data) = (if f = ''synced_at'' then J_null else jget f data)"
  by (induction data) (auto simp: jget_def drop_synced_def)

lemma jget_filter_kind: "jget f (filter (\<lambda>(k, _). k \<noteq> ''kind'') obj) = (if f = ''kind'' then J_null else jget f obj)"
  by (induction obj) (auto simp: jget_def)

lemma checked_fields:
  "''synced_at'' \<notin> set LEDGER_REQUIRED" "\<forall>k \<in> set RECORD_KINDS. ''synced_at'' \<notin> set (timestamp_fields k)
     \<and> ''synced_at'' \<notin> set (money_fields k) \<and> ''synced_at'' \<notin> set (date_fields k)"
  by code_simp+

lemma checks_drop_synced:
  assumes "kind \<in> set RECORD_KINDS"
  shows "ledger_ok_data kind (drop_synced data) = ledger_ok_data kind data"
    "money_ok_data kind (drop_synced data) = money_ok_data kind data"
    "date_ok_data kind (drop_synced data) = date_ok_data kind data"
  using checked_fields assms unfolding ledger_ok_data_def money_ok_data_def date_ok_data_def list_all_iff jget_drop_synced
  by (auto cong: ball_cong)


lemma keys_drop_synced [simp]: "fst ` set (drop_synced data) = fst ` set data"
  by (force simp: drop_synced_def image_iff)

definition state_ok :: "parse_state \<Rightarrow> bool" where
  "state_ok s \<longleftrightarrow> records_ok (ps_records s)
     \<and> (\<lambda>(k, i). (k, J_str i)) ` set (ps_seen s) = (\<lambda>r. (x_kind r, jget ''id'' (x_data r))) ` set (ps_records s)"

lemma parse_record_ok:
  assumes "parse_record kind data s = Inr s1" and "state_ok s" and "kind \<in> set RECORD_KINDS" "kind \<noteq> ''header''"
    and "''kind'' \<notin> fst ` set data"
  shows "state_ok s1"
proof -
  obtain i where i: "jget ''id'' data = J_str i" "i \<noteq> []" "(kind, i) \<notin> set (ps_seen s)"
    and checks: "ledger_ok_data kind data" "money_ok_data kind data" "date_ok_data kind data"
    and s1: "s1 = s\<lparr>ps_seen := (kind, i) # ps_seen s,
       ps_records := ps_records s @ [\<lparr>x_kind = kind, x_data = drop_synced data\<rparr>]\<rparr>"
    using assms(1) by (auto simp: parse_record_def split: json.splits if_splits)
  have "record_ok \<lparr>x_kind = kind, x_data = drop_synced data\<rparr>"
    using assms(3,4,5) i(1,2) checks by (auto simp: record_ok_def jget_drop_synced checks_drop_synced)
  moreover have "(kind, J_str i) \<notin> (\<lambda>(k, i). (k, J_str i)) ` set (ps_seen s)"
    using i(3) by auto
  ultimately show ?thesis
    using assms(2) i(1) by (auto simp: state_ok_def records_ok_def s1 jget_drop_synced)
qed

lemma state_ok_header [simp]: "state_ok (s\<lparr>ps_header := h\<rparr>) = state_ok s"
  by (simp add: state_ok_def)

lemma parse_line_ok: "parse_line raw s = Inr s1 \<Longrightarrow> state_ok s \<Longrightarrow> state_ok s1"
  by (auto simp: parse_line_def Let_def split: if_splits option.splits json.splits dest!: parse_record_ok)

lemma parse_lines_ok: "parse_lines lines s = Inr s1 \<Longrightarrow> state_ok s \<Longrightarrow> state_ok s1"
  by (induction lines arbitrary: s) (auto split: sum.splits dest: parse_line_ok)

lemma parse_exchange_records: "parse_exchange lines = Inr b \<Longrightarrow> records_ok (x_records b)"
proof -
  assume "parse_exchange lines = Inr b"
  then obtain s1 where "parse_lines lines \<lparr>ps_header = None, ps_records = [], ps_seen = []\<rparr> = Inr s1"
    and "x_records b = ps_records s1"
    by (auto simp: parse_exchange_def split: sum.splits option.splits)
  moreover have "state_ok \<lparr>ps_header = None, ps_records = [], ps_seen = []\<rparr>"
    by (simp add: state_ok_def records_ok_def)
  ultimately show ?thesis using parse_lines_ok[of lines _ s1] by (simp add: state_ok_def)
qed

lemma is_int_D: "is_int v \<Longrightarrow> \<exists>n. v = J_int n"
  by (cases v) auto

lemma is_iso_date_D: "is_iso_date s \<Longrightarrow> \<exists>d. valid_date d \<and> s = isoformat d"
  using fromisoformat_valid[of s] by (auto simp: is_iso_date_def split: option.splits)

text \<open>What reaches the merge is well typed: whatever text was pushed, every accepted record has a known kind and
  a non-empty string id, its money columns are null or ints, its date columns are null or the
  canonical text of a real day, its sync cursor is null, and a ledger record has an int sequence
  number, a device, an author's name and a creation time that starts with a real day.\<close>

theorem parse_exchange_typed:
  assumes "parse_exchange lines = Inr b" and "r \<in> set (x_records b)"
  shows "x_kind r \<in> set RECORD_KINDS \<and> x_kind r \<noteq> ''header'' \<and> (\<exists>i. jget ''id'' (x_data r) = J_str i \<and> i \<noteq> [])
    \<and> jget ''synced_at'' (x_data r) = J_null
    \<and> (\<forall>f \<in> set (money_fields (x_kind r)). jget f (x_data r) = J_null \<or> (\<exists>n. jget f (x_data r) = J_int n))
    \<and> (\<forall>f \<in> set (date_fields (x_kind r)). jget f (x_data r) = J_null
         \<or> (\<exists>d. valid_date d \<and> jget f (x_data r) = J_str (isoformat d)))
    \<and> (x_kind r \<in> set LEDGER_KINDS \<longrightarrow> (\<exists>n. jget ''seq'' (x_data r) = J_int n)
         \<and> jget ''device_id'' (x_data r) \<noteq> J_null \<and> jget ''created_by'' (x_data r) \<noteq> J_null
         \<and> (\<exists>t d. jget ''created_at'' (x_data r) = J_str t \<and> valid_date d \<and> take 10 t = isoformat d))"
proof -
  have r: "record_ok r" using parse_exchange_records[OF assms(1)] assms(2) by (auto simp: records_ok_def list_all_iff)
  have created: "\<forall>k \<in> set LEDGER_KINDS. ''created_at'' \<in> set (timestamp_fields k)"
    "{''device_id'', ''created_by''} \<subseteq> set LEDGER_REQUIRED"
    by code_simp+
  have dates: "jget f (x_data r) = J_null \<or> (\<exists>d. valid_date d \<and> jget f (x_data r) = J_str (isoformat d))"
    if "f \<in> set (date_fields (x_kind r))" for f
    using r that is_iso_date_D
    by (cases "jget f (x_data r)") (auto simp: record_ok_def date_ok_data_def list_all_iff)
  have times: "\<exists>t d. jget ''created_at'' (x_data r) = J_str t \<and> valid_date d \<and> take 10 t = isoformat d"
    if "x_kind r \<in> set LEDGER_KINDS"
  proof -
    have "case jget ''created_at'' (x_data r) of J_str t \<Rightarrow> is_iso_timestamp t | _ \<Rightarrow> False"
      using r created(1) that by (auto simp: record_ok_def ledger_ok_data_def list_all_iff)
    then show ?thesis by (auto simp: is_iso_timestamp_def dest!: is_iso_date_D split: json.splits)
  qed
  have money: "jget f (x_data r) = J_null \<or> (\<exists>n. jget f (x_data r) = J_int n)"
    if "f \<in> set (money_fields (x_kind r))" for f
    using r that is_int_D by (auto simp: record_ok_def money_ok_data_def list_all_iff)
  have ledger: "(\<exists>n. jget ''seq'' (x_data r) = J_int n) \<and> jget ''device_id'' (x_data r) \<noteq> J_null
      \<and> jget ''created_by'' (x_data r) \<noteq> J_null" if "x_kind r \<in> set LEDGER_KINDS"
    using r that created(2) is_int_D by (auto simp: record_ok_def ledger_ok_data_def list_all_iff)
  show ?thesis
    using r dates times money ledger unfolding record_ok_def by blast
qed


section \<open>The round trip over the wire\<close>

text \<open>\<open>str.splitlines\<close> on characters below 256: ten line boundaries, carriage return plus line feed being one.\<close>

definition is_break :: "char \<Rightarrow> bool" where
  "is_break c \<longleftrightarrow> ord_of c \<in> {10, 11, 12, 13, 28, 29, 30, 133}"

function splitlines_from :: "string \<Rightarrow> string \<Rightarrow> string list" where
  "splitlines_from acc [] = (if acc = [] then [] else [rev acc])"
| "splitlines_from acc (c # cs) =
     (if is_break c
      then rev acc # splitlines_from [] (if ord_of c = 13 \<and> cs \<noteq> [] \<and> ord_of (hd cs) = 10 then tl cs else cs)
      else splitlines_from (c # acc) cs)"
  by pat_completeness auto
termination by (relation "measure (\<lambda>(_, s). length s)") auto

definition splitlines :: "string \<Rightarrow> string list" where
  "splitlines s = splitlines_from [] s"

lemma splitlines_from_line:
  "list_all (\<lambda>c. \<not> is_break c) l \<Longrightarrow> splitlines_from acc (l @ r) = splitlines_from (rev l @ acc) r"
  by (induction l arbitrary: acc) auto

lemma splitlines_join:
  assumes "list_all (\<lambda>l. l \<noteq> [] \<and> list_all (\<lambda>c. \<not> is_break c) l) ls"
  shows "splitlines (join [char_of (10 :: nat)] ls) = ls"
proof -
  have nl: "is_break (char_of (10 :: nat))" "ord_of (char_of (10 :: nat)) = 10"
    by (simp_all add: is_break_def ord_of_def)
  have "splitlines_from [] (join [char_of (10 :: nat)] ls) = ls"
    using assms
  proof (induction ls)
    case Nil
    then show ?case by (simp add: join_def)
  next
    case (Cons l ls)
    show ?case
    proof (cases "ls = []")
      case True
      with Cons.prems splitlines_from_line[of l "[]" "[]"] show ?thesis by simp
    next
      case False
      with Cons nl show ?thesis by (simp add: join_Cons splitlines_from_line)
    qed
  qed
  then show ?thesis by (simp add: splitlines_def)
qed

text \<open>A text without the character 133, which JSON does not escape and \<open>splitlines\<close> breaks at.\<close>

definition no_nel :: "string \<Rightarrow> bool" where
  "no_nel s \<longleftrightarrow> list_all (\<lambda>c. ord_of c \<noteq> 133) s"

fun json_no_nel :: "json \<Rightarrow> bool" where
  "json_no_nel (J_str s) \<longleftrightarrow> no_nel s"
| "json_no_nel (J_list vs) \<longleftrightarrow> list_all json_no_nel vs"
| "json_no_nel (J_obj kvs) \<longleftrightarrow> list_all (\<lambda>(k, v). no_nel k \<and> json_no_nel v) kvs"
| "json_no_nel _ \<longleftrightarrow> True"

definition unbroken :: "string \<Rightarrow> bool" where
  "unbroken s \<longleftrightarrow> list_all (\<lambda>c. \<not> is_break c) s"

lemma unbroken_simps [simp]:
  "unbroken []" "unbroken (c # s) \<longleftrightarrow> \<not> is_break c \<and> unbroken s" "unbroken (s @ t) \<longleftrightarrow> unbroken s \<and> unbroken t"
  "unbroken (concat ss) \<longleftrightarrow> list_all unbroken ss"
  by (induction ss) (auto simp: unbroken_def)

lemma unbroken_digs: "list_all is_dig s \<Longrightarrow> unbroken s"
  by (auto simp: unbroken_def list_all_iff is_dig_def is_break_def)

lemma printable_not_break: "32 \<le> ord_of c \<Longrightarrow> ord_of c \<noteq> 133 \<Longrightarrow> \<not> is_break c"
  by (auto simp: is_break_def)

lemma hex_not_break: "n < 16 \<Longrightarrow> \<not> is_break (hex_digit n)"
  by (auto simp: hex_digit_def ord_of_def is_break_def)

lemma ascii_not_break: "\<not> is_break BACKSLASH" "\<not> is_break QUOTE" "\<not> is_break (CHR ''u'')" "\<not> is_break (CHR ''0'')"
  "\<not> is_break (CHR ''n'')" "\<not> is_break (CHR ''r'')" "\<not> is_break (CHR ''t'')" "\<not> is_break (CHR ''f'')"
  "\<not> is_break (CHR ''b'')"
  by (simp_all add: is_break_def ord_of_def)

lemma unbroken_escape: "ord_of c \<noteq> 133 \<Longrightarrow> unbroken (escape c)"
  using hex_not_break[of "ord_of c div 16"] hex_not_break[of "ord_of c mod 16"] printable_not_break[of c]
  by (simp add: escape_def ascii_not_break)

lemma unbroken_dump_str: "no_nel s \<Longrightarrow> unbroken (dump_str s)"
  by (auto simp: dump_str_def no_nel_def list_all_iff unbroken_escape printable_not_break ord_of_def)

lemma unbroken_join: "unbroken sep \<Longrightarrow> list_all unbroken ls \<Longrightarrow> unbroken (join sep ls)"
  by (cases ls) (auto simp: join_def list_all_iff)

lemma unbroken_dumps: "plain v \<Longrightarrow> json_no_nel v \<Longrightarrow> unbroken (dumps v)"
proof (induction v)
  case (J_int i)
  then show ?case by (auto simp: show_int_def unbroken_digs is_break_def ord_of_def)
next
  case (J_list vs)
  then show ?case by (auto simp: list_all_iff is_break_def ord_of_def intro!: unbroken_join)
next
  case (J_obj kvs)
  have "unbroken (dump_str k @ '': '' @ dumps v)" if "(k, v) \<in> set kvs" for k v
    using J_obj(1)[of "(k, v)" v] J_obj(2,3) that
    by (auto simp: list_all_iff unbroken_dump_str is_break_def ord_of_def)
  then show ?case by (auto simp: list_all_iff is_break_def ord_of_def intro!: unbroken_join)
qed (auto simp: unbroken_dump_str is_break_def ord_of_def)

lemma strip_dumps_obj: "strip (dumps (J_obj kvs)) \<noteq> []"
proof -
  have h: "\<not> is_space (CHR ''{'')" by (simp add: is_space_def ord_of_def)
  then show ?thesis by (simp add: strip_def dropWhile_eq_Nil_conv)
qed

lemma drop_synced_null:
  assumes "jget ''synced_at'' data = J_null" and "distinct (map fst data)"
  shows "drop_synced data = data"
  unfolding drop_synced_def
proof (rule map_idI)
  fix kv assume kv: "kv \<in> set data"
  obtain k v where eq: "kv = (k, v)" by (cases kv)
  with kv assms(2) have "map_of data k = Some v" by (simp add: map_of_is_SomeI)
  with assms(1) eq show "(case kv of (k, v) \<Rightarrow> if k = ''synced_at'' then (k, J_null) else (k, v)) = kv"
    by (auto simp: jget_def)
qed

lemma filter_no_kind: "''kind'' \<notin> fst ` set data \<Longrightarrow> filter (\<lambda>(k, _). k \<noteq> ''kind'') data = data"
  by (rule filter_True) force

text \<open>A record that can be written: plain JSON, which implies distinct keys.\<close>

definition writable :: "exchange_record \<Rightarrow> bool" where
  "writable r \<longleftrightarrow> record_ok r \<and> plain (J_obj (x_data r)) \<and> json_no_nel (J_obj (x_data r))"

lemma record_object: "writable r \<Longrightarrow> plain (J_obj ((''kind'', J_str (x_kind r)) # x_data r))"
  by (auto simp: writable_def record_ok_def)

lemma parse_record_line:
  assumes r: "writable r" and fresh: "\<And>i. jget ''id'' (x_data r) = J_str i \<Longrightarrow> (x_kind r, i) \<notin> set (ps_seen s)"
    and head: "ps_header s \<noteq> None"
  shows "\<exists>i. jget ''id'' (x_data r) = J_str i
    \<and> parse_line (record_line r) s = Inr (s\<lparr>ps_seen := (x_kind r, i) # ps_seen s, ps_records := ps_records s @ [r]\<rparr>)"
proof -
  obtain h where h: "ps_header s = Some h" using head by auto
  note facts = r[unfolded writable_def record_ok_def]
  obtain i where i: "jget ''id'' (x_data r) = J_str i" "i \<noteq> []" using facts by auto
  have "jget ''kind'' ((''kind'', J_str (x_kind r)) # x_data r) = J_str (x_kind r)" by (simp add: jget_def)
  moreover have "drop_synced (x_data r) = x_data r" using facts by (intro drop_synced_null) auto
  ultimately have "parse_line (record_line r) s = parse_record (x_kind r) (x_data r) s"
    using facts loads_dumps[OF record_object[OF r]] h
    by (simp add: parse_line_def record_line_def strip_dumps_obj filter_no_kind del: dumps.simps)
  also have "\<dots> = Inr (s\<lparr>ps_seen := (x_kind r, i) # ps_seen s, ps_records := ps_records s @ [r]\<rparr>)"
    using facts i fresh[OF i(1)] \<open>drop_synced (x_data r) = x_data r\<close> by (simp add: parse_record_def)
  finally show ?thesis using i(1) by blast
qed

lemma parse_record_lines:
  "list_all writable rs \<Longrightarrow> ps_header s \<noteq> None
   \<Longrightarrow> distinct (map (\<lambda>r. (x_kind r, jget ''id'' (x_data r))) rs)
   \<Longrightarrow> (\<And>k i. (k, i) \<in> set (ps_seen s) \<Longrightarrow> (k, J_str i) \<notin> (\<lambda>r. (x_kind r, jget ''id'' (x_data r))) ` set rs)
   \<Longrightarrow> \<exists>s1. parse_lines (map record_line rs) s = Inr s1 \<and> ps_records s1 = ps_records s @ rs \<and> ps_header s1 = ps_header s"
proof (induction rs arbitrary: s)
  case Nil
  then show ?case by simp
next
  case (Cons r rs)
  have fresh: "(x_kind r, i) \<notin> set (ps_seen s)" if "jget ''id'' (x_data r) = J_str i" for i
    using Cons.prems(4)[of "x_kind r" i] that by auto
  obtain i where i: "jget ''id'' (x_data r) = J_str i"
    and line: "parse_line (record_line r) s = Inr (s\<lparr>ps_seen := (x_kind r, i) # ps_seen s, ps_records := ps_records s @ [r]\<rparr>)"
    using parse_record_line[of r s] Cons.prems fresh by auto
  let ?s = "s\<lparr>ps_seen := (x_kind r, i) # ps_seen s, ps_records := ps_records s @ [r]\<rparr>"
  have "\<exists>s1. parse_lines (map record_line rs) ?s = Inr s1 \<and> ps_records s1 = ps_records ?s @ rs \<and> ps_header s1 = ps_header ?s"
  proof (rule Cons.IH)
    fix k j assume "(k, j) \<in> set (ps_seen ?s)"
    then show "(k, J_str j) \<notin> (\<lambda>r. (x_kind r, jget ''id'' (x_data r))) ` set rs"
    proof (cases "(k, j) = (x_kind r, i)")
      case True
      then have "(k, J_str j) = (x_kind r, jget ''id'' (x_data r))" using i by simp
      with Cons.prems(3) show ?thesis by simp
    next
      case False
      with \<open>(k, j) \<in> set (ps_seen ?s)\<close> Cons.prems(4)[of k j] show ?thesis by auto
    qed
  qed (use Cons.prems in auto)
  then show ?case using line by simp
qed

text \<open>The numbers whose decimal text \<open>json\<close> can read.\<close>

definition DIGIT_LIMIT :: nat where
  "DIGIT_LIMIT = 10 ^ 4300"

lemma count_kinds_plain:
  assumes "length rs < DIGIT_LIMIT"
  shows "plain (J_obj (map (\<lambda>(k, n). (k, J_int n)) (count_kinds rs)))"
proof -
  let ?step = "\<lambda>r m. dict_set (x_kind r) ((case map_of m (x_kind r) of None \<Rightarrow> 0 | Some n \<Rightarrow> n) + 1) m"
  have "0 \<le> b \<Longrightarrow> distinct (map fst m) \<Longrightarrow> \<forall>(k, n) \<in> set m. 0 \<le> n \<and> n \<le> b \<Longrightarrow>
      distinct (map fst (fold ?step xs m)) \<and> (\<forall>(k, n) \<in> set (fold ?step xs m). 0 \<le> n \<and> n \<le> b + int (length xs))"
    for xs m and b :: int
  proof (induction xs arbitrary: m b)
    case Nil
    then show ?case by simp
  next
    case (Cons x xs)
    have "distinct (map fst (?step x m))" using Cons.prems(2) by (simp add: distinct_update)
    moreover have "\<forall>(k, n) \<in> set (?step x m). 0 \<le> n \<and> n \<le> b + 1"
    proof (intro ballI, clarify)
      fix k n assume kn: "(k, n) \<in> set (?step x m)"
      then have "map_of (?step x m) k = Some n" using calculation by (simp add: map_of_is_SomeI)
      then have "map_of m k = Some n \<or> n = (case map_of m (x_kind x) of None \<Rightarrow> 0 | Some n \<Rightarrow> n) + 1"
        by (auto simp: update_conv split: if_splits)
      then show "0 \<le> n \<and> n \<le> b + 1"
        using Cons.prems(1,3) by (auto dest!: map_of_SomeD split: option.splits)
    qed
    ultimately show ?case using Cons.IH[of "b + 1" "?step x m"] Cons.prems(1) by (simp add: algebra_simps)
  qed
  from this[of 0 "[]" rs]
  have d: "distinct (map fst (count_kinds rs))" and b: "\<forall>(k, n) \<in> set (count_kinds rs). 0 \<le> n \<and> n \<le> int (length rs)"
    by (simp_all add: count_kinds_def)
  have "length (show_nat (nat \<bar>n\<bar>)) \<le> 4300" if "(k, n) \<in> set (count_kinds rs)" for k n
  proof (rule length_show_nat_le)
    have "nat \<bar>n\<bar> \<le> length rs" using b that by auto
    then show "nat \<bar>n\<bar> < 10 ^ 4300" using assms unfolding DIGIT_LIMIT_def by (rule le_less_trans)
  qed simp
  with d show ?thesis by (auto simp: list_all_iff comp_def split_beta)
qed

definition header_object :: "(string \<Rightarrow> string) \<Rightarrow> string \<Rightarrow> string option \<Rightarrow> string \<Rightarrow> exchange_record list \<Rightarrow> json_obj" where
  "header_object sha256 schema source generated_at rs =
     [(''kind'', J_str ''header''), (''format_version'', J_int FORMAT_VERSION), (''schema_version'', J_str schema),
      (''source_device_id'', (case source of None \<Rightarrow> J_null | Some s \<Rightarrow> J_str s)),
      (''generated_at'', J_str generated_at),
      (''counts'', J_obj (map (\<lambda>(k, n). (k, J_int n)) (count_kinds rs))),
      (''payload_sha256'', J_str (payload_digest sha256 (map record_line rs)))]"

lemma header_line_object: "header_line sha256 schema source generated_at rs = dumps (J_obj (header_object sha256 schema source generated_at rs))"
  by (simp add: header_line_def header_object_def)

lemma header_plain: "length rs < DIGIT_LIMIT \<Longrightarrow> plain (J_obj (header_object sha256 schema source generated_at rs))"
  using count_kinds_plain[of rs]
  by (cases source) (simp_all add: header_object_def FORMAT_VERSION_def show_nat.simps[of "Suc 0"])

lemma parse_header_line:
  assumes "length rs < DIGIT_LIMIT"
  shows "parse_line (header_line sha256 schema source generated_at rs) \<lparr>ps_header = None, ps_records = [], ps_seen = []\<rparr>
    = Inr \<lparr>ps_header = Some (header_object sha256 schema source generated_at rs), ps_records = [], ps_seen = []\<rparr>"
proof -
  let ?h = "header_object sha256 schema source generated_at rs"
  have "jget ''kind'' ?h = J_str ''header''" "jget ''format_version'' ?h = J_int FORMAT_VERSION"
    by (simp_all add: header_object_def jget_def)
  then show ?thesis
    using loads_dumps[OF header_plain[OF assms]]
    by (simp add: header_line_object parse_line_def strip_dumps_obj del: dumps.simps)
qed

lemma parse_serialized:
  assumes "list_all writable rs" and "distinct (map (\<lambda>r. (x_kind r, jget ''id'' (x_data r))) rs)"
    and "length rs < DIGIT_LIMIT"
  shows "\<exists>b. parse_exchange (serialize_exchange sha256 rs schema source generated_at) = Inr b
    \<and> x_records b = rs \<and> x_schema_version b = schema
    \<and> x_source_device_id b = (case source of None \<Rightarrow> J_null | Some s \<Rightarrow> J_str s)"
proof -
  let ?h = "header_object sha256 schema source generated_at rs"
  obtain s1 where s1: "parse_lines (map record_line rs) \<lparr>ps_header = Some ?h, ps_records = [], ps_seen = []\<rparr> = Inr s1"
    "ps_records s1 = rs" "ps_header s1 = Some ?h"
    using parse_record_lines[OF assms(1) _ assms(2), of "\<lparr>ps_header = Some ?h, ps_records = [], ps_seen = []\<rparr>"] by auto
  have "jget ''schema_version'' ?h = J_str schema"
    "jget ''source_device_id'' ?h = (case source of None \<Rightarrow> J_null | Some s \<Rightarrow> J_str s)"
    by (simp_all add: header_object_def jget_def)
  then show ?thesis
    using s1 by (simp add: parse_exchange_def serialize_exchange_def parse_header_line[OF assms(3)])
qed

lemma kind_no_nel: "\<forall>k \<in> set RECORD_KINDS. no_nel k"
  by code_simp

lemma kind_names_no_nel: "no_nel ''kind'' \<and> no_nel ''header'' \<and> no_nel ''format_version'' \<and> no_nel ''schema_version''
   \<and> no_nel ''source_device_id'' \<and> no_nel ''generated_at'' \<and> no_nel ''counts'' \<and> no_nel ''payload_sha256''"
  by code_simp

lemma count_kinds_keys: "fst ` set (count_kinds rs) \<subseteq> x_kind ` set rs"
proof -
  have "fst ` set (fold (\<lambda>r m. dict_set (x_kind r) ((case map_of m (x_kind r) of None \<Rightarrow> 0 | Some n \<Rightarrow> n) + 1) m) rs m)
      \<subseteq> fst ` set m \<union> x_kind ` set rs" for m :: "(string \<times> int) list"
  proof (induction rs arbitrary: m)
    case Nil
    then show ?case by simp
  next
    case (Cons r rs)
    let ?m = "dict_set (x_kind r) ((case map_of m (x_kind r) of None \<Rightarrow> 0 | Some n \<Rightarrow> n) + 1) m"
    have "fst ` set ?m = insert (x_kind r) (fst ` set m)" by (simp add: dom_update)
    then show ?case using Cons[of ?m] by auto
  qed
  from this[of "[]"] show ?thesis by (simp add: count_kinds_def)
qed

lemma header_no_nel:
  assumes "list_all writable rs" and "no_nel schema" and "no_nel generated_at" and "\<And>t. no_nel (sha256 t)"
    and "\<And>s. source = Some s \<Longrightarrow> no_nel s"
  shows "json_no_nel (J_obj (header_object sha256 schema source generated_at rs))"
proof -
  have "no_nel k" if "(k, n) \<in> set (count_kinds rs)" for k n
  proof -
    from that have "k \<in> x_kind ` set rs" using count_kinds_keys[of rs] by force
    then obtain r where r: "r \<in> set rs" "k = x_kind r" by blast
    then have "writable r" using assms(1) unfolding list_all_iff by blast
    then have "k \<in> set RECORD_KINDS" unfolding writable_def record_ok_def r(2) by blast
    with kind_no_nel show ?thesis by blast
  qed
  then have "json_no_nel (J_obj (map (\<lambda>(k, n). (k, J_int n)) (count_kinds rs)))"
    by (auto simp: list_all_iff)
  moreover have "json_no_nel (case source of None \<Rightarrow> J_null | Some s \<Rightarrow> J_str s)"
    using assms(5) by (simp split: option.split)
  ultimately show ?thesis
    using assms(2,3) kind_names_no_nel
    by (simp only: header_object_def json_no_nel.simps list.pred_inject prod.case payload_digest_def assms(4) simp_thms)
qed

lemma serialized_unbroken:
  assumes "list_all writable rs" and "length rs < DIGIT_LIMIT" and "no_nel schema" and "no_nel generated_at"
    and "\<And>t. no_nel (sha256 t)" and "\<And>s. source = Some s \<Longrightarrow> no_nel s"
  shows "list_all (\<lambda>l. l \<noteq> [] \<and> list_all (\<lambda>c. \<not> is_break c) l) (serialize_exchange sha256 rs schema source generated_at)"
proof -
  have "unbroken (header_line sha256 schema source generated_at rs)"
    unfolding header_line_object
    by (rule unbroken_dumps[OF header_plain[OF assms(2)] header_no_nel[OF assms(1,3,4,5,6)]])
  moreover have "unbroken (record_line r)" if "r \<in> set rs" for r
  proof -
    have w: "writable r" using assms(1) that by (simp add: list_all_iff)
    then have "json_no_nel (J_obj ((''kind'', J_str (x_kind r)) # x_data r))"
      using kind_names_no_nel kind_no_nel by (simp add: writable_def record_ok_def)
    with record_object[OF w] show ?thesis unfolding record_line_def by (rule unbroken_dumps)
  qed
  ultimately show ?thesis
    by (auto simp: serialize_exchange_def list_all_iff unbroken_def record_line_def header_line_def)
qed

text \<open>A stream in which every line ends with a line feed splits into its lines.\<close>

lemma splitlines_stream:
  "list_all (\<lambda>l. l \<noteq> [] \<and> list_all (\<lambda>c. \<not> is_break c) l) ls
     \<Longrightarrow> splitlines (concat (map (\<lambda>l. l @ [char_of (10 :: nat)]) ls)) = ls"
proof -
  have "is_break (char_of (10 :: nat))" "ord_of (char_of (10 :: nat)) = 10"
    by (simp_all add: is_break_def ord_of_def)
  then show "list_all (\<lambda>l. l \<noteq> [] \<and> list_all (\<lambda>c. \<not> is_break c) l) ls
     \<Longrightarrow> splitlines (concat (map (\<lambda>l. l @ [char_of (10 :: nat)]) ls)) = ls"
    by (induction ls) (simp_all add: splitlines_def splitlines_from_line)
qed

text \<open>C16: what one device serializes another parses back: for every list of well-formed records with distinct ids,
  the text of the body, split into lines again by the receiver, parses to the same records, field
  for field, with the sender's schema version and device, whatever characters the fields contain,
  line feeds and quotes included, except the control character 133.\<close>

theorem wire_roundtrip:
  assumes "list_all writable rs" and "distinct (map (\<lambda>r. (x_kind r, jget ''id'' (x_data r))) rs)"
    and "length rs < DIGIT_LIMIT" and "no_nel schema" and "no_nel generated_at" and "\<And>t. no_nel (sha256 t)"
    and "\<And>s. source = Some s \<Longrightarrow> no_nel s"
  shows "\<exists>b. parse_exchange (splitlines (join [char_of (10 :: nat)]
        (serialize_exchange sha256 rs schema source generated_at))) = Inr b
    \<and> x_records b = rs \<and> x_schema_version b = schema
    \<and> x_source_device_id b = (case source of None \<Rightarrow> J_null | Some s \<Rightarrow> J_str s)"
  using parse_serialized[OF assms(1,2,3)] serialized_unbroken[OF assms(1,3-7)] by (simp add: splitlines_join)

end
