(* ===== verification/Columns.thy ===== *)
theory Columns
  imports Exchange "HOL-Library.Monad_Syntax"
begin

text \<open>
  Rows and wire records: \<open>record_of\<close> is the projection of a table row to its columns that the pull
  (\<open>_row_to_record\<close> of \<open>sync.py\<close>) and the push (\<open>_emit\<close> of \<open>sync_client.py\<close>) emit; \<open>row_of\<close> is the
  way back, the column dict that \<open>_reference_row\<close> and \<open>_ledger_row\<close> of \<open>merge.py\<close> hand to the INSERT. It
  is \<open>None\<close> when a NOT NULL column is missing, or a value has not the type of its column. The
  column \<open>updated_at\<close>, which no table of the model has, is an argument of \<open>record_of\<close>.
\<close>

section \<open>Values of a column\<close>

definition str_json :: "string option \<Rightarrow> json" where
  "str_json v = (case v of None \<Rightarrow> J_null | Some s \<Rightarrow> J_str s)"

definition int_json :: "int option \<Rightarrow> json" where
  "int_json v = (case v of None \<Rightarrow> J_null | Some i \<Rightarrow> J_int i)"

definition col_str :: "string \<Rightarrow> json_obj \<Rightarrow> string option" where
  "col_str k data = (case jget k data of J_str s \<Rightarrow> Some s | _ \<Rightarrow> None)"

definition col_int :: "string \<Rightarrow> json_obj \<Rightarrow> int option" where
  "col_int k data = (case jget k data of J_int i \<Rightarrow> Some i | _ \<Rightarrow> None)"

text \<open>A nullable column: \<open>None\<close> is a value of the wrong type.\<close>

definition null_str :: "string \<Rightarrow> json_obj \<Rightarrow> string option option" where
  "null_str k data = (case jget k data of J_null \<Rightarrow> Some None | J_str s \<Rightarrow> Some (Some s) | _ \<Rightarrow> None)"

definition null_int :: "string \<Rightarrow> json_obj \<Rightarrow> int option option" where
  "null_int k data = (case jget k data of J_null \<Rightarrow> Some None | J_int i \<Rightarrow> Some (Some i) | _ \<Rightarrow> None)"

fun json_strings :: "json list \<Rightarrow> string list option" where
  "json_strings [] = Some []"
| "json_strings (J_str s # vs) = map_option (\<lambda>ss. s # ss) (json_strings vs)"
| "json_strings _ = None"

definition null_strings :: "string \<Rightarrow> json_obj \<Rightarrow> string list option option" where
  "null_strings k data = (case jget k data of J_null \<Rightarrow> Some None
     | J_list vs \<Rightarrow> map_option Some (json_strings vs) | _ \<Rightarrow> None)"

definition col_flag :: "string \<Rightarrow> json_obj \<Rightarrow> bool option" where
  "col_flag k data = (case jget k data of J_int i \<Rightarrow> (if i = 0 then Some False else if i = 1 then Some True else None)
     | _ \<Rightarrow> None)"

text \<open>The JSON column \<open>payload\<close>, in the shapes the services write.\<close>

fun payload_json :: "payload \<Rightarrow> json" where
  "payload_json (P_return oid) = J_obj [(''origin_op_id'', J_str oid)]"
| "payload_json (P_writeoff r n) = J_obj [(''reason_code'', J_str r), (''note'', J_str n)]"
| "payload_json (P_correction n m) = J_obj [(''note'', str_json n), (''mode'', J_str m)]"
| "payload_json (P_created c n) = J_obj [(''code'', J_str c), (''name'', J_str n)]"
| "payload_json (P_price_change f old new) =
     J_obj [(''field'', J_str f), (''old_cents'', int_json old), (''new_cents'', int_json new)]"
| "payload_json (P_edited fs) = J_obj [(''fields'', J_list (map J_str fs))]"
| "payload_json (P_other t) = (case loads t of None \<Rightarrow> J_null | Some v \<Rightarrow> v)"

definition payload_of :: "json \<Rightarrow> payload option" where
  "payload_of v = (case v of J_null \<Rightarrow> None | J_obj kvs \<Rightarrow>
     Some (case map fst kvs of
        [a] \<Rightarrow>
          if a = ''origin_op_id'' then (case col_str a kvs of Some s \<Rightarrow> P_return s | None \<Rightarrow> P_other (dumps v))
          else if a = ''fields'' then (case null_strings a kvs of Some (Some fs) \<Rightarrow> P_edited fs | _ \<Rightarrow> P_other (dumps v))
          else P_other (dumps v)
      | [a, b] \<Rightarrow>
          (case (col_str a kvs, col_str b kvs) of
             (Some x, Some y) \<Rightarrow>
               if (a, b) = (''reason_code'', ''note'') then P_writeoff x y
               else if (a, b) = (''code'', ''name'') then P_created x y
               else if (a, b) = (''note'', ''mode'') then P_correction (Some x) y
               else P_other (dumps v)
           | (None, Some y) \<Rightarrow>
               if (a, b) = (''note'', ''mode'') \<and> jget a kvs = J_null then P_correction None y else P_other (dumps v)
           | _ \<Rightarrow> P_other (dumps v))
      | [a, b, c] \<Rightarrow>
          (case (col_str a kvs, null_int b kvs, null_int c kvs) of
             (Some f, Some old, Some new) \<Rightarrow>
               if (a, b, c) = (''field'', ''old_cents'', ''new_cents'') then P_price_change f old new
               else P_other (dumps v)
           | _ \<Rightarrow> P_other (dumps v))
      | _ \<Rightarrow> P_other (dumps v))
   | _ \<Rightarrow> Some (P_other (dumps v)))"

definition known_payload :: "payload option \<Rightarrow> bool" where
  "known_payload p \<longleftrightarrow> (\<forall>t. p \<noteq> Some (P_other t))"

section \<open>From a row to a record\<close>

fun record_of :: "(string \<Rightarrow> string \<Rightarrow> string) \<Rightarrow> record_row \<Rightarrow> exchange_record" where
  "record_of upd (R_warehouse r) = \<lparr>x_kind = ''warehouse'', x_data =
     [(''id'', J_str (w_id r)), (''name'', J_str (w_name r)), (''address'', str_json (w_address r)),
      (''currency'', J_str (w_currency r)), (''created_at'', J_str (w_created_at r)),
      (''updated_at'', J_str (upd ''warehouse'' (w_id r))), (''deleted_at'', str_json (w_deleted_at r))]\<rparr>"
| "record_of upd (R_product r) = \<lparr>x_kind = ''product'', x_data =
     [(''id'', J_str (p_id r)), (''code'', str_json (p_code r)), (''name'', J_str (p_name r)),
      (''category'', str_json (p_category r)), (''cost_cents'', int_json (p_cost_cents r)),
      (''sale_cents'', int_json (p_sale_cents r)), (''min_sale_cents'', int_json (p_min_sale_cents r)),
      (''cost_uah_cents'', int_json (p_cost_uah_cents r)), (''sale_uah_cents'', int_json (p_sale_uah_cents r)),
      (''min_sale_uah_cents'', int_json (p_min_sale_uah_cents r)), (''cost_eur_cents'', int_json (p_cost_eur_cents r)),
      (''sale_eur_cents'', int_json (p_sale_eur_cents r)), (''min_sale_eur_cents'', int_json (p_min_sale_eur_cents r)),
      (''low_stock_threshold'', int_json (p_low_stock_threshold r)), (''stale_days'', int_json (p_stale_days r)),
      (''name_lc'', str_json (p_name_lc r)), (''quantity'', J_int (p_quantity r)),
      (''created_at'', J_str (p_created_at r)), (''updated_at'', J_str (upd ''product'' (p_id r))),
      (''deleted_at'', str_json (p_deleted_at r))]\<rparr>"
| "record_of upd (R_customer r) = \<lparr>x_kind = ''customer'', x_data =
     [(''id'', J_str (c_id r)), (''name'', J_str (c_name r)), (''surname'', str_json (c_surname r)),
      (''consultant_number'', str_json (c_consultant_number r)), (''address'', str_json (c_address r)),
      (''search_lc'', str_json (c_search_lc r)), (''created_at'', J_str (c_created_at r)),
      (''updated_at'', J_str (upd ''customer'' (c_id r)))]\<rparr>"
| "record_of upd (R_dictionary r) = \<lparr>x_kind = ''dictionary'', x_data =
     [(''id'', J_str (d_id r)), (''code'', J_str (d_code r)), (''name'', J_str (d_name r)),
      (''catalogs'', (case d_catalogs r of None \<Rightarrow> J_null | Some cs \<Rightarrow> J_list (map J_str cs))),
      (''name_lc'', str_json (d_name_lc r)), (''rubric'', str_json (d_rubric r)),
      (''created_at'', J_str (d_created_at r)), (''updated_at'', J_str (upd ''dictionary'' (d_id r)))]\<rparr>"
| "record_of upd (R_batch r) = \<lparr>x_kind = ''batch'', x_data =
     [(''id'', J_str (b_id r)), (''product_id'', J_str (b_product_id r)), (''warehouse_id'', J_str (b_warehouse_id r)),
      (''expiry'', str_json (b_expiry r)), (''price_cents'', int_json (b_price_cents r)),
      (''cost_cents'', int_json (b_cost_cents r)), (''location'', str_json (b_location r)),
      (''comment'', str_json (b_comment r)), (''name'', str_json (b_name r)), (''quantity'', J_int (b_quantity r)),
      (''is_legacy'', J_int (if b_is_legacy r then 1 else 0)), (''created_at'', J_str (b_created_at r)),
      (''updated_at'', J_str (upd ''batch'' (b_id r)))]\<rparr>"
| "record_of upd (R_sale r) = \<lparr>x_kind = ''sale'', x_data =
     [(''id'', J_str (s_id r)), (''customer_id'', str_json (s_customer_id r)), (''created_at'', J_str (s_created_at r)),
      (''created_by'', J_str (s_created_by r)), (''author_id'', str_json (s_author_id r)),
      (''device_id'', str_json (s_device_id r))]\<rparr>"
| "record_of upd (R_operation r) = \<lparr>x_kind = ''operation'', x_data =
     [(''id'', J_str (o_id r)), (''type'', J_str (o_type r)), (''product_id'', J_str (o_product_id r)),
      (''qty_delta'', J_int (o_qty_delta r)), (''unit_cost_cents'', int_json (o_unit_cost_cents r)),
      (''unit_price_cents'', int_json (o_unit_price_cents r)),
      (''payload'', (case o_payload r of None \<Rightarrow> J_null | Some p \<Rightarrow> payload_json p)),
      (''sale_id'', str_json (o_sale_id r)), (''batch_id'', str_json (o_batch_id r)),
      (''reverses_op_id'', str_json (o_reverses_op_id r)), (''author_id'', str_json (o_author_id r)),
      (''device_id'', J_str (o_device_id r)), (''seq'', J_int (o_seq r)), (''created_at'', J_str (o_created_at r)),
      (''business_date'', str_json (o_business_date r)), (''created_by'', J_str (o_created_by r)),
      (''synced_at'', str_json (o_synced_at r))]\<rparr>"
| "record_of upd (R_cash r) = \<lparr>x_kind = ''cash_movement'', x_data =
     [(''id'', J_str (m_id r)), (''category'', J_str (m_category r)), (''amount_cents'', J_int (m_amount_cents r)),
      (''currency'', J_str (m_currency r)), (''note'', str_json (m_note r)), (''sale_id'', str_json (m_sale_id r)),
      (''reverses_movement_id'', str_json (m_reverses_movement_id r)), (''author_id'', str_json (m_author_id r)),
      (''device_id'', J_str (m_device_id r)), (''seq'', J_int (m_seq r)), (''created_at'', J_str (m_created_at r)),
      (''business_date'', str_json (m_business_date r)), (''created_by'', J_str (m_created_by r)),
      (''synced_at'', str_json (m_synced_at r))]\<rparr>"

section \<open>From a record to a row\<close>

definition warehouse_of :: "json_obj \<Rightarrow> warehouse option" where
  "warehouse_of x = do {
     i \<leftarrow> col_str ''id'' x; n \<leftarrow> col_str ''name'' x; a \<leftarrow> null_str ''address'' x; c \<leftarrow> col_str ''currency'' x;
     t \<leftarrow> col_str ''created_at'' x; dl \<leftarrow> null_str ''deleted_at'' x;
     Some \<lparr>w_id = i, w_name = n, w_address = a, w_currency = c, w_created_at = t, w_deleted_at = dl\<rparr> }"

definition product_of :: "json_obj \<Rightarrow> product option" where
  "product_of x = do {
     i \<leftarrow> col_str ''id'' x; c \<leftarrow> null_str ''code'' x; n \<leftarrow> col_str ''name'' x; cat \<leftarrow> null_str ''category'' x;
     c1 \<leftarrow> null_int ''cost_cents'' x; s1 \<leftarrow> null_int ''sale_cents'' x; m1 \<leftarrow> null_int ''min_sale_cents'' x;
     c2 \<leftarrow> null_int ''cost_uah_cents'' x; s2 \<leftarrow> null_int ''sale_uah_cents'' x; m2 \<leftarrow> null_int ''min_sale_uah_cents'' x;
     c3 \<leftarrow> null_int ''cost_eur_cents'' x; s3 \<leftarrow> null_int ''sale_eur_cents'' x; m3 \<leftarrow> null_int ''min_sale_eur_cents'' x;
     low \<leftarrow> null_int ''low_stock_threshold'' x; st \<leftarrow> null_int ''stale_days'' x; lc \<leftarrow> null_str ''name_lc'' x;
     q \<leftarrow> col_int ''quantity'' x; t \<leftarrow> col_str ''created_at'' x; dl \<leftarrow> null_str ''deleted_at'' x;
     Some \<lparr>p_id = i, p_code = c, p_name = n, p_category = cat, p_cost_cents = c1, p_sale_cents = s1,
       p_min_sale_cents = m1, p_cost_uah_cents = c2, p_sale_uah_cents = s2, p_min_sale_uah_cents = m2,
       p_cost_eur_cents = c3, p_sale_eur_cents = s3, p_min_sale_eur_cents = m3, p_low_stock_threshold = low,
       p_stale_days = st, p_name_lc = lc, p_quantity = q, p_created_at = t, p_deleted_at = dl\<rparr> }"

definition customer_of :: "json_obj \<Rightarrow> customer option" where
  "customer_of x = do {
     i \<leftarrow> col_str ''id'' x; n \<leftarrow> col_str ''name'' x; s \<leftarrow> null_str ''surname'' x; c \<leftarrow> null_str ''consultant_number'' x;
     a \<leftarrow> null_str ''address'' x; lc \<leftarrow> null_str ''search_lc'' x; t \<leftarrow> col_str ''created_at'' x;
     Some \<lparr>c_id = i, c_name = n, c_surname = s, c_consultant_number = c, c_address = a, c_search_lc = lc,
       c_created_at = t\<rparr> }"

definition dictionary_of :: "json_obj \<Rightarrow> dict_entry option" where
  "dictionary_of x = do {
     i \<leftarrow> col_str ''id'' x; c \<leftarrow> col_str ''code'' x; n \<leftarrow> col_str ''name'' x; cs \<leftarrow> null_strings ''catalogs'' x;
     lc \<leftarrow> null_str ''name_lc'' x; r \<leftarrow> null_str ''rubric'' x; t \<leftarrow> col_str ''created_at'' x;
     Some \<lparr>d_id = i, d_code = c, d_name = n, d_name_lc = lc, d_rubric = r, d_catalogs = cs, d_created_at = t\<rparr> }"

definition batch_of :: "json_obj \<Rightarrow> batch option" where
  "batch_of x = do {
     i \<leftarrow> col_str ''id'' x; p \<leftarrow> col_str ''product_id'' x; w \<leftarrow> col_str ''warehouse_id'' x; e \<leftarrow> null_str ''expiry'' x;
     pr \<leftarrow> null_int ''price_cents'' x; co \<leftarrow> null_int ''cost_cents'' x; l \<leftarrow> null_str ''location'' x;
     cm \<leftarrow> null_str ''comment'' x; n \<leftarrow> null_str ''name'' x; q \<leftarrow> col_int ''quantity'' x; lg \<leftarrow> col_flag ''is_legacy'' x;
     t \<leftarrow> col_str ''created_at'' x;
     Some \<lparr>b_id = i, b_product_id = p, b_warehouse_id = w, b_expiry = e, b_price_cents = pr, b_cost_cents = co,
       b_location = l, b_comment = cm, b_name = n, b_quantity = q, b_is_legacy = lg, b_created_at = t\<rparr> }"

definition sale_of :: "json_obj \<Rightarrow> sale option" where
  "sale_of x = do {
     i \<leftarrow> col_str ''id'' x; c \<leftarrow> null_str ''customer_id'' x; t \<leftarrow> col_str ''created_at'' x; by \<leftarrow> col_str ''created_by'' x;
     a \<leftarrow> null_str ''author_id'' x; dv \<leftarrow> null_str ''device_id'' x;
     Some \<lparr>s_id = i, s_customer_id = c, s_created_at = t, s_created_by = by, s_author_id = a, s_device_id = dv\<rparr> }"

definition operation_of :: "json_obj \<Rightarrow> operation option" where
  "operation_of x = do {
     i \<leftarrow> col_str ''id'' x; ty \<leftarrow> col_str ''type'' x; p \<leftarrow> col_str ''product_id'' x; q \<leftarrow> col_int ''qty_delta'' x;
     uc \<leftarrow> null_int ''unit_cost_cents'' x; up \<leftarrow> null_int ''unit_price_cents'' x;
     sid \<leftarrow> null_str ''sale_id'' x; b \<leftarrow> null_str ''batch_id'' x; rv \<leftarrow> null_str ''reverses_op_id'' x;
     a \<leftarrow> null_str ''author_id'' x; dv \<leftarrow> col_str ''device_id'' x; sq \<leftarrow> col_int ''seq'' x;
     t \<leftarrow> col_str ''created_at'' x; bd \<leftarrow> null_str ''business_date'' x; by \<leftarrow> col_str ''created_by'' x;
     sy \<leftarrow> null_str ''synced_at'' x;
     Some \<lparr>o_id = i, o_type = ty, o_product_id = p, o_qty_delta = q, o_unit_cost_cents = uc, o_unit_price_cents = up,
       o_payload = payload_of (jget ''payload'' x), o_sale_id = sid, o_batch_id = b, o_reverses_op_id = rv,
       o_author_id = a, o_device_id = dv, o_seq = sq, o_created_at = t, o_business_date = bd, o_created_by = by,
       o_synced_at = sy\<rparr> }"

definition cash_of :: "json_obj \<Rightarrow> cash_movement option" where
  "cash_of x = do {
     i \<leftarrow> col_str ''id'' x; c \<leftarrow> col_str ''category'' x; am \<leftarrow> col_int ''amount_cents'' x; cu \<leftarrow> col_str ''currency'' x;
     n \<leftarrow> null_str ''note'' x; sid \<leftarrow> null_str ''sale_id'' x; rv \<leftarrow> null_str ''reverses_movement_id'' x;
     a \<leftarrow> null_str ''author_id'' x; dv \<leftarrow> col_str ''device_id'' x; sq \<leftarrow> col_int ''seq'' x;
     t \<leftarrow> col_str ''created_at'' x; bd \<leftarrow> null_str ''business_date'' x; by \<leftarrow> col_str ''created_by'' x;
     sy \<leftarrow> null_str ''synced_at'' x;
     Some \<lparr>m_id = i, m_category = c, m_amount_cents = am, m_currency = cu, m_note = n, m_sale_id = sid,
       m_reverses_movement_id = rv, m_author_id = a, m_device_id = dv, m_seq = sq, m_created_at = t,
       m_business_date = bd, m_created_by = by, m_synced_at = sy\<rparr> }"

definition row_of :: "exchange_record \<Rightarrow> record_row option" where
  "row_of r =
     (let k = x_kind r; x = x_data r in
      if k = ''warehouse'' then map_option R_warehouse (warehouse_of x)
      else if k = ''product'' then map_option R_product (product_of x)
      else if k = ''customer'' then map_option R_customer (customer_of x)
      else if k = ''dictionary'' then map_option R_dictionary (dictionary_of x)
      else if k = ''batch'' then map_option R_batch (batch_of x)
      else if k = ''sale'' then map_option R_sale (sale_of x)
      else if k = ''operation'' then map_option R_operation (operation_of x)
      else if k = ''cash_movement'' then map_option R_cash (cash_of x)
      else None)"

fun rows_of :: "exchange_record list \<Rightarrow> record_row list option" where
  "rows_of [] = Some []"
| "rows_of (r # rs) = do { x \<leftarrow> row_of r; xs \<leftarrow> rows_of rs; Some (x # xs) }"

section \<open>The projections agree\<close>

lemma json_strings_map [simp]: "json_strings (map J_str ss) = Some ss"
  by (induction ss) auto

lemma payload_round: "known_payload (Some p) \<Longrightarrow> payload_of (payload_json p) = Some p"
  by (cases p) (auto simp: payload_of_def col_str_def null_int_def null_strings_def jget_def str_json_def int_json_def
      known_payload_def split: option.splits)

lemma payload_null: "payload_of J_null = None"
  by (simp add: payload_of_def)

fun row_payload :: "record_row \<Rightarrow> payload option" where
  "row_payload (R_operation o1) = o_payload o1"
| "row_payload _ = None"

text \<open>What reads a column of a data list back, one lemma per column type.\<close>

named_theorems column_simps

lemma jget_simps [column_simps]:
  "jget k ((k', v) # x) = (if k' = k then v else jget k x)" "jget k [] = J_null"
  by (simp_all add: jget_def)

lemma column_values [column_simps]:
  "jget k x = J_str s \<Longrightarrow> col_str k x = Some s" "jget k x = J_int i \<Longrightarrow> col_int k x = Some i"
  "jget k x = str_json v \<Longrightarrow> null_str k x = Some v" "jget k x = int_json w \<Longrightarrow> null_int k x = Some w"
  by (auto simp: col_str_def col_int_def null_str_def null_int_def str_json_def int_json_def split: option.splits)

lemma column_lists [column_simps]:
  "jget k x = (case cs of None \<Rightarrow> J_null | Some ss \<Rightarrow> J_list (map J_str ss)) \<Longrightarrow> null_strings k x = Some cs"
  "jget k x = J_int (if b then 1 else 0) \<Longrightarrow> col_flag k x = Some b"
  by (auto simp: null_strings_def col_flag_def split: option.splits)

lemma payload_column:
  "known_payload p \<Longrightarrow> payload_of (case p of None \<Rightarrow> J_null | Some q \<Rightarrow> payload_json q) = p"
  using payload_round by (cases p) (auto simp: payload_null)

lemma row_of_record_of: "known_payload (row_payload r) \<Longrightarrow> row_of (record_of upd r) = Some r"
proof (cases r)
  case (R_warehouse x)
  then show ?thesis by (simp add: row_of_def warehouse_of_def column_simps)
next
  case (R_product x)
  then show ?thesis by (simp add: row_of_def product_of_def column_simps)
next
  case (R_customer x)
  then show ?thesis by (simp add: row_of_def customer_of_def column_simps)
next
  case (R_dictionary x)
  then show ?thesis by (simp add: row_of_def dictionary_of_def column_simps)
next
  case (R_batch x)
  then show ?thesis by (simp add: row_of_def batch_of_def column_simps)
next
  case (R_sale x)
  then show ?thesis by (simp add: row_of_def sale_of_def column_simps)
next
  case (R_operation x)
  moreover assume "known_payload (row_payload r)"
  ultimately show ?thesis by (simp add: row_of_def operation_of_def column_simps payload_column)
next
  case (R_cash x)
  then show ?thesis by (simp add: row_of_def cash_of_def column_simps)
qed

lemma rows_of_records:
  "list_all (\<lambda>r. known_payload (row_payload r)) rs \<Longrightarrow> rows_of (map (record_of upd) rs) = Some rs"
  by (induction rs) (auto simp: row_of_record_of)

lemma record_of_keys: "x_kind (record_of upd r) = record_kind r" "jget ''id'' (x_data (record_of upd r)) = J_str (record_id r)"
  by (cases r; simp add: column_simps)+

text \<open>The columns \<open>record_of\<close> emits are those of \<open>KIND_TO_FIELDS\<close>, each once.\<close>

lemma record_of_fields: "map fst (x_data (record_of upd r)) = fields_of (x_kind (record_of upd r))"
  by (cases r; simp add: fields_of_def KIND_TO_FIELDS_def)

end
