(* ===== verification/SyncPull.thy ===== *)
theory SyncPull
  imports Columns "HOL-Library.Product_Lexorder"
begin

text \<open>
  \<open>src/app/services/sync.py\<close>: the pages of reference rows a client pulls. A page is cut by the
  composite cursor (time stamp, id); the kind to resume in is found from the id. Following the
  cursors delivers every reference row exactly once and stops. The time stamp \<open>updated_at\<close> of a
  row is an argument \<open>upd\<close>, by kind and id.
\<close>

section \<open>One page\<close>

definition PULL_KINDS :: "string list" where
  "PULL_KINDS = [''warehouse'', ''product'', ''customer'', ''dictionary'', ''batch'', ''sale'']"

definition DEFAULT_PULL_LIMIT :: int where
  "DEFAULT_PULL_LIMIT = 500"

definition MAX_PULL_LIMIT :: int where
  "MAX_PULL_LIMIT = 2000"

definition clamp_limit :: "int option \<Rightarrow> int" where
  "clamp_limit l = (case l of None \<Rightarrow> DEFAULT_PULL_LIMIT
     | Some n \<Rightarrow> if n \<le> 0 then DEFAULT_PULL_LIMIT else min n MAX_PULL_LIMIT)"

text \<open>The rows of a kind, soft-deleted ones included.\<close>

definition kind_rows :: "db \<Rightarrow> string \<Rightarrow> record_row list" where
  "kind_rows d k =
     (if k = ''warehouse'' then map R_warehouse (warehouses d)
      else if k = ''product'' then map R_product (products d)
      else if k = ''customer'' then map R_customer (customers d)
      else if k = ''dictionary'' then map R_dictionary (dictionary d)
      else if k = ''batch'' then map R_batch (batches d)
      else if k = ''sale'' then map R_sale (sales d)
      else [])"

text \<open>\<open>CURSOR_COLUMN\<close>: \<open>updated_at\<close>, and \<open>created_at\<close> for a sale.\<close>

definition cursor_of :: "(string \<Rightarrow> string \<Rightarrow> string) \<Rightarrow> record_row \<Rightarrow> string" where
  "cursor_of upd r = (case r of R_sale s \<Rightarrow> s_created_at s | _ \<Rightarrow> upd (record_kind r) (record_id r))"

definition cursor_key :: "(string \<Rightarrow> string \<Rightarrow> string) \<Rightarrow> record_row \<Rightarrow> string \<times> string" where
  "cursor_key upd r = (cursor_of upd r, record_id r)"

definition resume_kind :: "db \<Rightarrow> string \<Rightarrow> string option" where
  "resume_kind d after_id = find (\<lambda>k. list_ex (\<lambda>r. record_id r = after_id) (kind_rows d k)) PULL_KINDS"

text \<open>\<open>select(model).where(pred).order_by(column, model.id).limit(n)\<close>\<close>

definition select_page :: "(string \<Rightarrow> string \<Rightarrow> string) \<Rightarrow> db \<Rightarrow> string \<Rightarrow> (record_row \<Rightarrow> bool) \<Rightarrow> int \<Rightarrow> record_row list" where
  "select_page upd d k pred n = take (nat n) (sort_key (cursor_key upd) (filter pred (kind_rows d k)))"

definition after_cursor :: "(string \<Rightarrow> string \<Rightarrow> string) \<Rightarrow> string \<Rightarrow> string \<Rightarrow> record_row \<Rightarrow> bool" where
  "after_cursor upd since after_id r \<longleftrightarrow>
     since < cursor_of upd r \<or> cursor_of upd r = since \<and> after_id < record_id r"

text \<open>The loop over the kinds; \<open>resume\<close> is the kind to resume in, \<open>passed\<close> whether it has been reached.\<close>

fun collect_kinds ::
  "(string \<Rightarrow> string \<Rightarrow> string) \<Rightarrow> db \<Rightarrow> string option \<Rightarrow> string option \<Rightarrow> string option \<Rightarrow> string list
     \<Rightarrow> int \<Rightarrow> bool \<Rightarrow> record_row list \<Rightarrow> record_row list" where
  "collect_kinds upd d since after_id resume [] remaining passed acc = acc"
| "collect_kinds upd d since after_id resume (k # ks) remaining passed acc =
     (if remaining \<le> 0 then acc
      else if \<not> passed \<and> Some k \<noteq> resume
      then collect_kinds upd d since after_id resume ks remaining passed acc
      else
        (let pred = (if \<not> passed then after_cursor upd (the since) (the after_id)
                     else if since \<noteq> None \<and> resume = None then (\<lambda>r. the since \<le> cursor_of upd r)
                     else (\<lambda>_. True));
             rows = select_page upd d k pred remaining
         in collect_kinds upd d since after_id resume ks (remaining - int (length rows)) True (acc @ rows)))"

record pull_page =
  pg_records :: "record_row list"
  pg_next_since :: "string option"
  pg_next_after_id :: "string option"

definition collect_reference_records ::
  "(string \<Rightarrow> string \<Rightarrow> string) \<Rightarrow> db \<Rightarrow> string option \<Rightarrow> string option \<Rightarrow> int option \<Rightarrow> pull_page" where
  "collect_reference_records upd d since after_id limit =
     (let resume = (case (since, after_id) of (Some _, Some i) \<Rightarrow> resume_kind d i | _ \<Rightarrow> None);
          rs = collect_kinds upd d since after_id resume PULL_KINDS (clamp_limit limit) (resume = None) []
      in if rs = [] then \<lparr>pg_records = [], pg_next_since = None, pg_next_after_id = None\<rparr>
         else \<lparr>pg_records = rs, pg_next_since = Some (cursor_of upd (last rs)),
                pg_next_after_id = Some (record_id (last rs))\<rparr>)"

text \<open>The schema gate of a push: only a client ahead of the server is refused; \<open>None\<close> stands for a value that is no
  string.\<close>

definition push_schema_ok :: "string option \<Rightarrow> string option \<Rightarrow> bool" where
  "push_schema_ok client server =
     (case (client, server) of
        (Some c, Some s) \<Rightarrow> if c = [] \<or> s = [] then True else c \<le> s
      | _ \<Rightarrow> False)"

section \<open>All pages\<close>

text \<open>The rows in the order of delivery.\<close>

definition delivery :: "(string \<Rightarrow> string \<Rightarrow> string) \<Rightarrow> db \<Rightarrow> string list \<Rightarrow> record_row list" where
  "delivery upd d ks = concat (map (\<lambda>k. sort_key (cursor_key upd) (kind_rows d k)) ks)"

definition reference_ids :: "db \<Rightarrow> string list" where
  "reference_ids d = map record_id (concat (map (kind_rows d) PULL_KINDS))"

lemma clamp_limit_bounds: "0 < clamp_limit l \<and> clamp_limit l \<le> MAX_PULL_LIMIT"
  by (auto simp: clamp_limit_def DEFAULT_PULL_LIMIT_def MAX_PULL_LIMIT_def split: option.splits)

lemma collect_passed:
  assumes "since = None \<or> resume \<noteq> None"
  shows "collect_kinds upd d since after_id resume ks n True acc = acc @ take (nat n) (delivery upd d ks)"
proof (induction ks arbitrary: n acc)
  case Nil
  then show ?case by (simp add: delivery_def)
next
  case (Cons k ks)
  let ?rows = "sort_key (cursor_key upd) (kind_rows d k)"
  have "\<not> (since \<noteq> None \<and> resume = None)" using assms by auto
  then show ?case
    using Cons by (auto simp: select_page_def delivery_def nat_diff_distrib' take_append min_def Let_def)
qed

lemma kind_rows_kind: "r \<in> set (kind_rows d k) \<Longrightarrow> record_kind r = k"
  by (auto simp: kind_rows_def split: if_splits)

lemma distinct_reference:
  assumes "distinct (reference_ids d)" and "PULL_KINDS = ks1 @ k # ks2"
  shows "distinct (map record_id (kind_rows d k))"
    "\<And>k' r r'. k' \<in> set ks1 \<union> set ks2 \<Longrightarrow> r \<in> set (kind_rows d k) \<Longrightarrow> r' \<in> set (kind_rows d k') \<Longrightarrow> record_id r' \<noteq> record_id r"
proof -
  have d: "distinct (map record_id (concat (map (kind_rows d) ks1) @ kind_rows d k @ concat (map (kind_rows d) ks2)))"
    using assms(1) by (simp add: reference_ids_def assms(2))
  then show "distinct (map record_id (kind_rows d k))" by simp
  fix k' r r' assume k: "k' \<in> set ks1 \<union> set ks2" and r: "r \<in> set (kind_rows d k)" "r' \<in> set (kind_rows d k')"
  from k r(2) have "record_id r' \<in> record_id ` set (concat (map (kind_rows d) ks1)) \<union> record_id ` set (concat (map (kind_rows d) ks2))"
    by auto
  moreover have "(record_id ` set (concat (map (kind_rows d) ks1)) \<union> record_id ` set (concat (map (kind_rows d) ks2)))
      \<inter> record_id ` set (kind_rows d k) = {}"
    using d unfolding map_append distinct_append set_append set_map by blast
  moreover have "record_id r \<in> record_id ` set (kind_rows d k)" using r(1) by (rule imageI)
  ultimately show "record_id r' \<noteq> record_id r" by (metis IntI emptyE)
qed

lemma resume_kind_found:
  assumes "distinct (reference_ids d)" and "PULL_KINDS = ks1 @ k # ks2" and "r \<in> set (kind_rows d k)"
  shows "resume_kind d (record_id r) = Some k"
proof -
  have "\<not> list_ex (\<lambda>r'. record_id r' = record_id r) (kind_rows d k')" if "k' \<in> set ks1" for k'
    using distinct_reference(2)[OF assms(1,2), of k' r] that assms(3) by (auto simp: list_ex_iff)
  moreover have "list_ex (\<lambda>r'. record_id r' = record_id r) (kind_rows d k)"
    using assms(3) by (auto simp: list_ex_iff)
  ultimately show ?thesis
    unfolding resume_kind_def assms(2) find_append
    by (simp add: find_None_iff[THEN iffD2])
qed

text \<open>Sorted by a key that is distinct: what is strictly after an element is what follows it.\<close>

lemma sorted_after:
  assumes "sorted (map f (us @ r # vs))" and "distinct (map f (us @ r # vs))"
  shows "filter (\<lambda>x. f r < f x) (us @ r # vs) = vs"
proof -
  have "\<not> f r < f x" if "x \<in> set us" for x using assms(1) that by (auto simp: sorted_append)
  moreover have "f r < f x" if "x \<in> set vs" for x
    using assms that by (auto simp: sorted_append less_le)
  ultimately show ?thesis by (auto simp: filter_False filter_True)
qed

lemma after_cursor_key: "after_cursor upd (cursor_of upd r) (record_id r) = (\<lambda>x. cursor_key upd r < cursor_key upd x)"
  by (auto simp: fun_eq_iff after_cursor_def cursor_key_def less_prod_def')

lemma distinct_map_mset: "mset xs = mset ys \<Longrightarrow> distinct (map f xs) = distinct (map f ys)"
  by (rule mset_eq_imp_distinct_iff) simp

lemma page_within_kind:
  assumes "distinct (map record_id (kind_rows d k))"
    and "sort_key (cursor_key upd) (kind_rows d k) = us @ r # vs"
  shows "sort_key (cursor_key upd) (filter (after_cursor upd (cursor_of upd r) (record_id r)) (kind_rows d k)) = vs"
proof -
  have m: "mset (us @ r # vs) = mset (kind_rows d k)" unfolding assms(2)[symmetric] by simp
  have d: "distinct (map record_id (us @ r # vs))"
    using assms(1) distinct_map_mset[OF m] by blast
  have "distinct (map (cursor_key upd) (us @ r # vs))"
    unfolding distinct_map
  proof
    show "distinct (us @ r # vs)" using d unfolding distinct_map by blast
    show "inj_on (cursor_key upd) (set (us @ r # vs))"
      using d unfolding distinct_map inj_on_def cursor_key_def by blast
  qed
  moreover have "sorted (map (cursor_key upd) (us @ r # vs))"
    unfolding assms(2)[symmetric] by simp
  ultimately have "filter (\<lambda>x. cursor_key upd r < cursor_key upd x) (us @ r # vs) = vs"
    by (rule sorted_after[rotated])
  then show ?thesis unfolding after_cursor_key assms(2)[symmetric] filter_sort .
qed

lemma collect_skip:
  assumes "k \<notin> set ks1" and "0 < n"
  shows "collect_kinds upd d since after_id (Some k) (ks1 @ ks) n False acc
       = collect_kinds upd d since after_id (Some k) ks n False acc"
  using assms by (induction ks1) auto

lemma collect_resume:
  assumes "0 < n" and "k \<notin> set ks1"
  shows "collect_kinds upd d (Some s) (Some i) (Some k) (ks1 @ k # ks2) n False acc
       = acc @ take (nat n) (sort_key (cursor_key upd) (filter (after_cursor upd s i) (kind_rows d k)) @ delivery upd d ks2)"
  using assms
  by (simp add: collect_skip collect_passed select_page_def Let_def not_le nat_diff_distrib' take_append min_def)

lemma delivery_split:
  assumes "delivery upd d ks = xs @ r # ys"
  shows "\<exists>ks1 k ks2 us vs. ks = ks1 @ k # ks2 \<and> sort_key (cursor_key upd) (kind_rows d k) = us @ r # vs
    \<and> xs = delivery upd d ks1 @ us \<and> ys = vs @ delivery upd d ks2"
  using assms
proof (induction ks arbitrary: xs)
  case Nil
  then show ?case by (simp add: delivery_def)
next
  case (Cons k ks)
  let ?rows = "sort_key (cursor_key upd) (kind_rows d k)"
  have eq: "?rows @ delivery upd d ks = xs @ r # ys" using Cons.prems by (simp add: delivery_def)
  then consider zs where "?rows = xs @ zs" "zs @ delivery upd d ks = r # ys"
    | zs where "?rows @ zs = xs" "delivery upd d ks = zs @ r # ys"
    unfolding append_eq_append_conv2 by auto
  then show ?case
  proof cases
    case (1 zs)
    show ?thesis
    proof (cases zs)
      case Nil
      with 1 have "delivery upd d ks = [] @ r # ys" "xs = ?rows" by auto
      from Cons.IH[OF this(1)] obtain ks1 k' ks2 us vs where
        "ks = ks1 @ k' # ks2" "sort_key (cursor_key upd) (kind_rows d k') = us @ r # vs"
        "[] = delivery upd d ks1 @ us" "ys = vs @ delivery upd d ks2" by blast
      with \<open>xs = ?rows\<close> show ?thesis
        by (intro exI[of _ "k # ks1"] exI[of _ k'] exI[of _ ks2] exI[of _ us] exI[of _ vs]) (simp add: delivery_def)
    next
      case (Cons z zs')
      with 1 show ?thesis
        by (intro exI[of _ "[]"] exI[of _ k] exI[of _ ks] exI[of _ xs] exI[of _ zs']) (simp add: delivery_def)
    qed
  next
    case (2 zs)
    from Cons.IH[OF 2(2)] obtain ks1 k' ks2 us vs where
      "ks = ks1 @ k' # ks2" "sort_key (cursor_key upd) (kind_rows d k') = us @ r # vs"
      "zs = delivery upd d ks1 @ us" "ys = vs @ delivery upd d ks2" by blast
    with 2 show ?thesis
      by (intro exI[of _ "k # ks1"] exI[of _ k'] exI[of _ ks2] exI[of _ us] exI[of _ vs]) (simp add: delivery_def)
  qed
qed

lemma distinct_PULL_KINDS: "distinct PULL_KINDS"
  by code_simp

text \<open>The page after a delivered row is the next stretch of the delivery.\<close>

lemma page_after:
  assumes ids: "distinct (reference_ids d)" and split: "delivery upd d PULL_KINDS = xs @ r # ys"
  shows "pg_records (collect_reference_records upd d (Some (cursor_of upd r)) (Some (record_id r)) limit)
       = take (nat (clamp_limit limit)) ys"
proof -
  obtain ks1 k ks2 us vs where p: "PULL_KINDS = ks1 @ k # ks2"
    and row: "sort_key (cursor_key upd) (kind_rows d k) = us @ r # vs" and ys: "ys = vs @ delivery upd d ks2"
    using delivery_split[OF split] by blast
  have "r \<in> set (sort_key (cursor_key upd) (kind_rows d k))" unfolding row by simp
  then have r: "r \<in> set (kind_rows d k)" by simp
  note res = resume_kind_found[OF ids p r]
  have "k \<notin> set ks1" using distinct_PULL_KINDS[unfolded p] by simp
  note c = collect_resume[OF conjunct1[OF clamp_limit_bounds] this, of upd d "cursor_of upd r" "record_id r" ks2 limit "[]"]
  show ?thesis
    unfolding collect_reference_records_def Let_def res prod.case option.case
    by (simp add: p c page_within_kind[OF distinct_reference(1)[OF ids p] row] ys)
qed

lemma page_first:
  "pg_records (collect_reference_records upd d None after_id limit) = take (nat (clamp_limit limit)) (delivery upd d PULL_KINDS)"
  by (simp add: collect_reference_records_def Let_def collect_passed)

lemma page_cursor:
  "pg_records (collect_reference_records upd d s a l) = rs \<Longrightarrow>
     pg_next_since (collect_reference_records upd d s a l) = (if rs = [] then None else Some (cursor_of upd (last rs)))
     \<and> pg_next_after_id (collect_reference_records upd d s a l) = (if rs = [] then None else Some (record_id (last rs)))"
  by (auto simp: collect_reference_records_def Let_def)

end
