(* ===== verification/SyncClient.thy ===== *)
theory SyncClient
  imports SyncPull
begin

text \<open>
  \<open>src/app/services/sync_client.py\<close>: the client half of a sync. It collects the ledger rows that were
  never accepted by the server together with the reference rows they point to, pushes them, stamps
  them once the server has answered 2xx, and then pulls the server's reference rows page by page.
  The network is two functions, the answers to a push and to a page request; the loop over the
  pages is a partial function, since a server that always answers full pages would never stop it.
  Result messages are constructors, one per fixed text.
\<close>

section \<open>Sync state\<close>

definition MIN_INTERVAL_SECONDS :: int where
  "MIN_INTERVAL_SECONDS = 60"

definition MAX_INTERVAL_SECONDS :: int where
  "MAX_INTERVAL_SECONDS = 3600"

definition DEFAULT_INTERVAL_SECONDS :: int where
  "DEFAULT_INTERVAL_SECONDS = 300"

definition LAST_RESULT_MAX :: nat where
  "LAST_RESULT_MAX = 300"

record sync_result =
  sr_status :: string
  sr_pushed :: nat
  sr_pushed_total :: nat
  sr_pulled :: nat

definition just :: "string \<Rightarrow> sync_result" where
  "just s = \<lparr>sr_status = s, sr_pushed = 0, sr_pushed_total = 0, sr_pulled = 0\<rparr>"

text \<open>The row with id 1, created with the role's default (\<open>sqlite\<close>: a local client) when it is missing.\<close>

definition default_sync_state :: "bool \<Rightarrow> sync_state" where
  "default_sync_state sqlite = \<lparr>ss_id = 1, ss_last_sync_at = None, ss_last_status = None, ss_last_result = None,
     ss_auto_enabled = (if sqlite then 1 else 0), ss_auto_interval_seconds = DEFAULT_INTERVAL_SECONDS\<rparr>"

definition get_or_create_sync_state :: "bool \<Rightarrow> db \<Rightarrow> sync_state \<times> db" where
  "get_or_create_sync_state sqlite d =
     (case tget ss_id 1 (sync_states d) of
        Some row \<Rightarrow> (row, d)
      | None \<Rightarrow> (default_sync_state sqlite, d\<lparr>sync_states := sync_states d @ [default_sync_state sqlite]\<rparr>))"

definition record_sync_result :: "bool \<Rightarrow> string \<Rightarrow> string \<Rightarrow> string option \<Rightarrow> db \<Rightarrow> db" where
  "record_sync_result sqlite status last_result last_sync_at d =
     (let d1 = snd (get_or_create_sync_state sqlite d)
      in d1\<lparr>sync_states := tupd ss_id 1 (\<lambda>r. r\<lparr>ss_last_status := Some status,
           ss_last_result := Some (take LAST_RESULT_MAX last_result), ss_last_sync_at := last_sync_at\<rparr>) (sync_states d1)\<rparr>)"

definition clamp_interval :: "int option \<Rightarrow> int" where
  "clamp_interval v = (case v of None \<Rightarrow> DEFAULT_INTERVAL_SECONDS
     | Some s \<Rightarrow> max MIN_INTERVAL_SECONDS (min MAX_INTERVAL_SECONDS s))"

definition read_autosync_config :: "bool \<Rightarrow> db \<Rightarrow> (bool \<times> int) \<times> db" where
  "read_autosync_config sqlite d =
     (let (row, d1) = get_or_create_sync_state sqlite d
      in ((ss_auto_enabled row \<noteq> 0, clamp_interval (Some (ss_auto_interval_seconds row))), d1))"

definition unsynced_count :: "db \<Rightarrow> nat" where
  "unsynced_count d = length (filter (\<lambda>o1. o_synced_at o1 = None) (operations d))
     + length (filter (\<lambda>m. m_synced_at m = None) (cash_movements d))"

datatype sync_message =
    M_nothing_changed
  | M_synced nat nat
  | M_partial nat nat
  | M_offline
  | M_locked
  | M_not_configured
  | M_postponed
  | M_server_error

datatype last_sync_line = Never_synced | Last_sync string

definition format_sync_message ::
  "(string \<Rightarrow> string) \<Rightarrow> sync_result \<Rightarrow> sync_state option \<Rightarrow> sync_message \<times> last_sync_line" where
  "format_sync_message iso_to_local res state =
     ((if sr_status res = ''ok'' then
         (if sr_pushed res = 0 \<and> sr_pulled res = 0 then M_nothing_changed
          else M_synced (sr_pushed res) (sr_pulled res))
       else if sr_status res = ''partial'' then M_partial (sr_pushed res) (sr_pushed_total res)
       else if sr_status res = ''offline'' then M_offline
       else if sr_status res = ''locked'' then M_locked
       else if sr_status res = ''not_configured'' then M_not_configured
       else if sr_status res = ''schema_mismatch'' then M_postponed
       else M_server_error),
      (let last_at = or_empty (Option.bind state ss_last_sync_at)
       in if last_at = [] then Never_synced else Last_sync (iso_to_local last_at)))"

section \<open>What is pushed\<close>

text \<open>A Python set of ids is a list without repetitions; its order is not specified and not used.\<close>

definition load_by_ids :: "('r \<Rightarrow> string) \<Rightarrow> string list \<Rightarrow> 'r list \<Rightarrow> 'r list" where
  "load_by_ids key ids tbl =
     concat (map (\<lambda>chunk. filter (\<lambda>r. key r \<in> set chunk) tbl) (chunks IN_CHUNK (remdups ids)))"

definition truthy_ids :: "string option list \<Rightarrow> string list" where
  "truthy_ids vs = filter (\<lambda>i. i \<noteq> []) (map or_empty vs)"

definition unsynced_ops :: "db \<Rightarrow> operation list" where
  "unsynced_ops d = filter (\<lambda>o1. o_synced_at o1 = None) (operations d)"

definition unsynced_cash :: "db \<Rightarrow> cash_movement list" where
  "unsynced_cash d = filter (\<lambda>m. m_synced_at m = None) (cash_movements d)"

definition collect_push_records :: "db \<Rightarrow> record_row list \<times> string list \<times> string list" where
  "collect_push_records d =
     (let ops = unsynced_ops d; cash = unsynced_cash d;
          sls = load_by_ids s_id (truthy_ids (map o_sale_id ops) @ truthy_ids (map m_sale_id cash)) (sales d);
          bts = load_by_ids b_id (truthy_ids (map o_batch_id ops)) (batches d);
          whs = load_by_ids w_id (map b_warehouse_id bts) (warehouses d);
          pds = load_by_ids p_id (filter (\<lambda>i. i \<noteq> []) (map o_product_id ops) @ map b_product_id bts) (products d);
          cus = load_by_ids c_id (truthy_ids (map s_customer_id sls)) (customers d)
      in (map R_warehouse whs @ map R_product pds @ map R_customer cus @ map R_batch bts @ map R_sale sls
            @ map R_operation ops @ map R_cash cash,
          map o_id ops, map m_id cash))"

section \<open>Applying a pulled page\<close>

text \<open>An UPDATE per row; a unique index or a missing parent stops it.\<close>

fun update_rows ::
  "('r \<Rightarrow> string) \<Rightarrow> 'r index list \<Rightarrow> ('r \<Rightarrow> bool) \<Rightarrow> ('r \<Rightarrow> 'r \<Rightarrow> 'r) \<Rightarrow> 'r list \<Rightarrow> 'r list \<Rightarrow> exn + 'r list" where
  "update_rows key ixs fk keep [] tbl = Inr tbl"
| "update_rows key ixs fk keep (r # rs) tbl =
     (let t = tupd key (key r) (keep r) tbl in
      if \<not> fk r \<or> \<not> list_all (\<lambda>ix. distinct (entries ix t)) ixs then Inl IntegrityError
      else update_rows key ixs fk keep rs t)"

text \<open>
  The generic branch: unknown ids are inserted (\<open>product_rows\<close> and \<open>batch_rows\<close> have dropped the cached
  quantity), known ids take the server's columns except those \<open>keep\<close> keeps.
\<close>

definition pull_kind ::
  "('r \<Rightarrow> string) \<Rightarrow> 'r index list \<Rightarrow> ('r \<Rightarrow> bool) \<Rightarrow> ('r \<Rightarrow> 'r \<Rightarrow> 'r) \<Rightarrow> 'r list \<Rightarrow> 'r list \<Rightarrow> exn + 'r list" where
  "pull_kind key ixs fk keep rows tbl =
     (let fresh = fst (partition_new key rows tbl);
          existing = filter (\<lambda>r. key r \<notin> set (map key fresh)) rows
      in case insert_rows ixs fk fresh tbl of
           Inl x \<Rightarrow> Inl x
         | Inr t \<Rightarrow> update_rows key ixs fk keep existing t)"

text \<open>The dictionary is matched by code; a known code keeps its local id.\<close>

definition pull_dictionary :: "dict_entry list \<Rightarrow> dict_entry list \<Rightarrow> exn + dict_entry list" where
  "pull_dictionary rows tbl =
     (let coded = filter (\<lambda>r. d_code r \<noteq> []) rows;
          existing = existing_ids d_code (map d_code coded) tbl;
          new_rows = filter (\<lambda>r. d_code r \<notin> set existing) coded;
          conflict_rows = filter (\<lambda>r. d_code r \<in> set existing) coded
      in case insert_rows [pk d_id, dictionary_code_index] (\<lambda>_. True) new_rows tbl of
           Inl x \<Rightarrow> Inl x
         | Inr t \<Rightarrow> update_rows d_code [pk d_id, dictionary_code_index] (\<lambda>_. True)
             (\<lambda>r old. r\<lparr>d_id := d_id old, d_code := d_code old\<rparr>) conflict_rows t)"

definition keep_product :: "product \<Rightarrow> product \<Rightarrow> product" where
  "keep_product r old = r\<lparr>p_id := p_id old, p_quantity := p_quantity old\<rparr>"

definition keep_batch :: "batch \<Rightarrow> batch \<Rightarrow> batch" where
  "keep_batch r old = r\<lparr>b_id := b_id old, b_quantity := b_quantity old\<rparr>"

definition pull_stage :: "('r list \<Rightarrow> exn + 'r list) \<Rightarrow> (db \<Rightarrow> 'r list) \<Rightarrow> ('r list \<Rightarrow> db \<Rightarrow> db) \<Rightarrow> db \<Rightarrow> exn + db" where
  "pull_stage f get put d = (case f (get d) of Inl x \<Rightarrow> Inl x | Inr t \<Rightarrow> Inr (put t d))"

definition pull_tables :: "record_row list \<Rightarrow> db \<Rightarrow> exn + db" where
  "pull_tables rs d =
     and_then (and_then (and_then (and_then (and_then
       (pull_stage (pull_kind w_id [pk w_id] (\<lambda>_. True) (\<lambda>r old. r\<lparr>w_id := w_id old\<rparr>) (warehouse_rows rs))
          warehouses (\<lambda>t d. d\<lparr>warehouses := t\<rparr>) d)
       (pull_stage (pull_kind p_id [pk p_id, active_code_index] (\<lambda>_. True) keep_product (product_rows rs))
          products (\<lambda>t d. d\<lparr>products := t\<rparr>)))
       (pull_stage (pull_kind c_id [pk c_id] (\<lambda>_. True) (\<lambda>r old. r\<lparr>c_id := c_id old\<rparr>) (customer_rows rs))
          customers (\<lambda>t d. d\<lparr>customers := t\<rparr>)))
       (pull_stage (pull_dictionary (dictionary_rows rs)) dictionary (\<lambda>t d. d\<lparr>dictionary := t\<rparr>)))
       (\<lambda>d. pull_stage (pull_kind b_id [pk b_id] (batch_fk d) keep_batch (batch_rows rs))
          batches (\<lambda>t d. d\<lparr>batches := t\<rparr>) d))
       (\<lambda>d. pull_stage (pull_kind s_id [pk s_id] (sale_fk d) (\<lambda>r old. r\<lparr>s_id := s_id old\<rparr>) (sale_rows rs))
          sales (\<lambda>t d. d\<lparr>sales := t\<rparr>) d)"

text \<open>\<open>_apply_pull_page\<close> inside \<open>with session.begin()\<close>, after \<open>session.rollback()\<close>.\<close>

definition apply_pull_page :: "record_row list \<Rightarrow> world \<Rightarrow> exn option \<times> world" where
  "apply_pull_page rs w0 =
     (let w = rollback w0 in
      case pull_tables rs (cur w) of
        Inl x \<Rightarrow> (Some x, rollback w)
      | Inr d \<Rightarrow> (case recompute_derived (w\<lparr>cur := d\<rparr>) of
          (Some x, w1) \<Rightarrow> (Some x, rollback w1)
        | (None, w1) \<Rightarrow> (case commit w1 of (Some x, w2) \<Rightarrow> (Some x, rollback w2) | (None, w2) \<Rightarrow> (None, w2))))"

section \<open>One run\<close>

text \<open>The settings and the argument functions of a run.\<close>

record sync_env =
  sync_server_url :: string
  sync_token :: string
  client_schema :: string
  source_device :: "string option"
  updated_at_of :: "string \<Rightarrow> string \<Rightarrow> string"
  sha256_of :: "string \<Rightarrow> string"

datatype push_response = Push_accepted | Push_http_error nat | Push_transport_error

text \<open>A page request: the text of the body and the two cursor headers, or an \<open>httpx\<close> error.\<close>

datatype pull_response = Pull_failed | Pull_page string "string option" "string option"

datatype pull_error = Http_error | Other_error

abbreviation LF :: string where "LF \<equiv> [char_of (10 :: nat)]"

definition falsy_none :: "string option \<Rightarrow> string option" where
  "falsy_none v = or_none (or_empty v)"

text \<open>What one response does to the client: an error, or the records applied.\<close>

definition apply_response :: "string \<Rightarrow> world \<Rightarrow> (pull_error + nat) \<times> world" where
  "apply_response body w =
     (case parse_exchange (splitlines body) of
        Inl x \<Rightarrow> (Inl Other_error, w)
      | Inr b \<Rightarrow>
          if x_records b = [] then (Inr 0, w)
          else (case rows_of (x_records b) of
             None \<Rightarrow> (Inl Other_error, rollback w)
           | Some rs \<Rightarrow> (case apply_pull_page rs w of
               (Some x, w1) \<Rightarrow> (Inl Other_error, w1)
             | (None, w1) \<Rightarrow> (Inr (length (x_records b)), w1))))"

partial_function (option) pull_all ::
  "(string option \<Rightarrow> string option \<Rightarrow> pull_response) \<Rightarrow> string option \<Rightarrow> string option \<Rightarrow> nat \<Rightarrow> world
     \<Rightarrow> ((pull_error + nat) \<times> world) option" where
  "pull_all server since after_id pulled w =
     (case server (falsy_none since) (falsy_none after_id) of
        Pull_failed \<Rightarrow> Some (Inl Http_error, w)
      | Pull_page body next_since next_after_id \<Rightarrow>
          (case apply_response body w of
             (Inl x, w1) \<Rightarrow> Some (Inl x, w1)
           | (Inr n, w1) \<Rightarrow>
               if int n < DEFAULT_PULL_LIMIT \<or> falsy_none next_since = None then Some (Inr (pulled + n), w1)
               else pull_all server next_since next_after_id (pulled + n) w1))"

text \<open>\<open>UPDATE ... SET synced_at = stamp WHERE id IN ids\<close> on both ledgers.\<close>

definition stamp_synced :: "string \<Rightarrow> string list \<Rightarrow> string list \<Rightarrow> db \<Rightarrow> db" where
  "stamp_synced stamp op_ids cash_ids d = d\<lparr>
     operations := map (\<lambda>o1. if o_id o1 \<in> set op_ids then o1\<lparr>o_synced_at := Some stamp\<rparr> else o1) (operations d),
     cash_movements := map (\<lambda>m. if m_id m \<in> set cash_ids then m\<lparr>m_synced_at := Some stamp\<rparr> else m) (cash_movements d)\<rparr>"

definition push_body :: "sync_env \<Rightarrow> record_row list \<Rightarrow> string \<Rightarrow> string" where
  "push_body s rs generated_at = join LF (serialize_exchange (sha256_of s) (map (record_of (updated_at_of s)) rs)
     (client_schema s) (source_device s) generated_at)"

definition run_sync_once ::
  "env \<Rightarrow> sync_env \<Rightarrow> (string \<Rightarrow> push_response) \<Rightarrow> (string option \<Rightarrow> string option \<Rightarrow> pull_response) \<Rightarrow> world
     \<Rightarrow> (sync_result \<times> world) option" where
  "run_sync_once e s push server w =
     (if sync_server_url s = [] \<or> sync_token s = [] then Some (just ''not_configured'', w)
      else
        (let (rs, op_ids, cash_ids) = collect_push_records (cur w);
             pushed_total = length op_ids + length cash_ids;
             (generated_at, w1) = utcnow_iso e w
         in case push (push_body s rs generated_at) of
              Push_http_error code \<Rightarrow>
                Some ((if code = 409 then (just ''schema_mismatch'')\<lparr>sr_pushed_total := pushed_total\<rparr>
                       else (just ''error'')\<lparr>sr_pushed_total := pushed_total\<rparr>), w1)
            | Push_transport_error \<Rightarrow> Some ((just ''offline'')\<lparr>sr_pushed_total := pushed_total\<rparr>, w1)
            | Push_accepted \<Rightarrow>
                (let (stamp, w2) = utcnow_iso e w1;
                     (_, w3) = commit (w2\<lparr>cur := stamp_synced stamp op_ids cash_ids (cur w2)\<rparr>);
                     partial = \<lparr>sr_status = ''partial'', sr_pushed = pushed_total, sr_pushed_total = pushed_total, sr_pulled = 0\<rparr>
                 in case pull_all server None None 0 w3 of
                      None \<Rightarrow> None
                    | Some (Inl Http_error, w4) \<Rightarrow> Some (partial, w4)
                    | Some (Inl Other_error, w4) \<Rightarrow> Some (partial, rollback w4)
                    | Some (Inr pulled, w4) \<Rightarrow>
                        Some (\<lparr>sr_status = ''ok'', sr_pushed = pushed_total, sr_pushed_total = pushed_total,
                               sr_pulled = pulled\<rparr>, w4))))"

text \<open>
  \<open>run_sync_tick\<close> with the run lock free: nothing when auto-sync is off, else one run whose result is
  recorded and committed. \<open>render\<close> is the text of a message. A run that never returns has no
  result to record.
\<close>

definition record_run :: "env \<Rightarrow> bool \<Rightarrow> (sync_message \<Rightarrow> string) \<Rightarrow> (string \<Rightarrow> string) \<Rightarrow> sync_result \<Rightarrow> world \<Rightarrow> world" where
  "record_run e sqlite render iso_to_local res w =
     (let (row, d) = get_or_create_sync_state sqlite (cur w);
          w1 = w\<lparr>cur := d\<rparr>;
          (last_at, w2) = (if sr_status res \<in> {''ok'', ''partial''}
             then (let (t, w2) = utcnow_iso e w1 in (Some t, w2)) else (ss_last_sync_at row, w1));
          message = fst (format_sync_message iso_to_local res (Some row));
          w3 = w2\<lparr>cur := record_sync_result sqlite (sr_status res) (render message) last_at (cur w2)\<rparr>
      in snd (commit w3))"

definition run_sync_tick ::
  "env \<Rightarrow> sync_env \<Rightarrow> bool \<Rightarrow> (sync_message \<Rightarrow> string) \<Rightarrow> (string \<Rightarrow> string) \<Rightarrow> (string \<Rightarrow> push_response)
     \<Rightarrow> (string option \<Rightarrow> string option \<Rightarrow> pull_response) \<Rightarrow> world \<Rightarrow> world option" where
  "run_sync_tick e s sqlite render iso_to_local push server w =
     (let ((enabled, _), d) = read_autosync_config sqlite (cur w)
      in if \<not> enabled then Some (rollback w)
         else case run_sync_once e s push server (w\<lparr>cur := d\<rparr>) of
             None \<Rightarrow> None
           | Some (res, w1) \<Rightarrow> Some (record_run e sqlite render iso_to_local res w1))"

end
