(* ===== verification/Replication.thy ===== *)
theory Replication
  imports Merge
begin

text \<open>
  What the merge engine promises. The abstraction of a database to a replica (one finite map per
  table) turns a merge into a union of maps in which the server's rows win; replays, shuffled
  files and the order in which batches arrive then do not matter. The caches of the merged database
  are the sums of the merged ledger, the unique indexes hold, and a code collision is resolved
  by a rename that fits the column.
\<close>

section \<open>A merge in one equation\<close>

definition merge_ok :: "record_row list \<Rightarrow> db \<Rightarrow> bool" where
  "merge_ok rs d \<longleftrightarrow> mergeable rs d \<and> rollup_ok (repair_caches (merged rs d))"

definition merge_result :: "record_row list \<Rightarrow> db \<Rightarrow> db" where
  "merge_result rs d = repair_caches (merged rs d)"

definition merge_exn :: "record_row list \<Rightarrow> db \<Rightarrow> exn" where
  "merge_exn rs d = (if mergeable rs d then ValueError else IntegrityError)"

lemma merge_transaction_eq:
  "merge_transaction rs w =
     (if merge_ok rs (saved w)
      then (Inr (merged_report rs (saved w)),
        w\<lparr>cur := merge_result rs (saved w), saved := merge_result rs (saved w), bad := False\<rparr>)
      else (Inl (merge_exn rs (saved w)), rollback w))"
  by (auto simp: merge_transaction_def apply_merge_def merge_tables_eq recompute_derived_def flush_def
      Let_def merge_ok_def merge_result_def merge_exn_def commit_def rollback_def)

lemma merge_transaction_Inr:
  "merge_transaction rs w = (Inr rep, w1) \<longleftrightarrow> merge_ok rs (saved w) \<and> rep = merged_report rs (saved w)
     \<and> w1 = w\<lparr>cur := merge_result rs (saved w), saved := merge_result rs (saved w), bad := False\<rparr>"
  by (auto simp: merge_transaction_eq)

section \<open>The caches of the merged database\<close>

lemma repair_frame [simp]:
  "operations (repair_caches d) = operations d" "warehouses (repair_caches d) = warehouses d"
  "sales (repair_caches d) = sales d" "cash_movements (repair_caches d) = cash_movements d"
  "customers (repair_caches d) = customers d" "dictionary (repair_caches d) = dictionary d"
  "compute_stock (repair_caches d) pid = compute_stock d pid"
  "null_bucket (repair_caches d) pid = null_bucket d pid"
  "compute_batch_stock (repair_caches d) b = compute_batch_stock d b"
  by (simp_all add: repair_caches_def compute_stock_def null_bucket_def compute_batch_stock_def)

lemma repair_products: "products (repair_caches d) = map (\<lambda>p. p\<lparr>p_quantity := compute_stock d (p_id p)\<rparr>) (products d)"
  by (simp add: repair_caches_def)

lemma repair_batches: "batches (repair_caches d) = map (\<lambda>b. b\<lparr>b_quantity := compute_batch_stock d b\<rparr>) (batches d)"
  by (simp add: repair_caches_def)

lemma repair_keys [simp]:
  "map p_id (products (repair_caches d)) = map p_id (products d)"
  "map b_id (batches (repair_caches d)) = map b_id (batches d)"
  "p_id ` set (products (repair_caches d)) = p_id ` set (products d)"
  "b_id ` set (batches (repair_caches d)) = b_id ` set (batches d)"
  by (simp_all add: repair_products repair_batches comp_def image_image)

lemma repair_cached: "stock_cached (repair_caches d)" "batches_cached (repair_caches d)"
  by (auto simp: stock_cached_def batches_cached_def repair_products repair_batches compute_batch_stock_def)

lemma repair_idem: "repair_caches (repair_caches d) = repair_caches d"
proof -
  let ?r = "repair_caches d"
  have "map (\<lambda>p. p\<lparr>p_quantity := compute_stock ?r (p_id p)\<rparr>) (products ?r) = products ?r"
    using repair_cached(1)[of d] by (auto simp: stock_cached_def intro!: map_idI)
  moreover have "map (\<lambda>b. b\<lparr>b_quantity := compute_batch_stock ?r b\<rparr>) (batches ?r) = batches ?r"
    using repair_cached(2)[of d] by (auto simp: batches_cached_def intro!: map_idI)
  ultimately show ?thesis by (simp add: repair_caches_def[of ?r])
qed

lemma active_codes_map:
  "(\<And>p. p_code (f p) = p_code p \<and> p_deleted_at (f p) = p_deleted_at p) \<Longrightarrow> active_codes (map f ps) = active_codes ps"
  by (induction ps) (simp_all add: active_codes_def)

lemma active_codes_repair [simp]: "active_codes (products (repair_caches d)) = active_codes (products d)"
  unfolding repair_products by (rule active_codes_map) simp

section \<open>Replay\<close>

lemma new_in_absorbed: "key ` set rows \<subseteq> key ` set tbl \<Longrightarrow> new_in key tbl rows = []"
  by (auto simp: new_in_def filter_empty_conv thas_iff)

lemma new_in_covered: "key ` set rows \<subseteq> key ` (set tbl \<union> set (new_in key tbl rows))"
  by (auto simp: new_in_def thas_iff)

lemma rename_row_frame [simp]:
  "p_id (rename_row rn p) = p_id p" "p_deleted_at (rename_row rn p) = p_deleted_at p"
  "p_quantity (rename_row rn p) = p_quantity p"
  by (simp_all add: rename_row_def split: option.split)

lemma resolve_ids: "map p_id (fst (resolve_code_collisions tbl rows)) = map p_id rows"
  by (simp add: resolve_code_collisions_def Let_def)

lemma new_products_ids: "map p_id (new_products d rs) = map p_id (new_in p_id (products d) (product_rows rs))"
  by (simp add: new_products_def resolve_ids)

lemma new_products_id_set: "p_id ` set (new_products d rs) = p_id ` set (new_in p_id (products d) (product_rows rs))"
  using arg_cong[OF new_products_ids, of set] by simp

lemma merged_tables [simp]:
  "warehouses (merged rs d) = warehouses d @ new_in w_id (warehouses d) (warehouse_rows rs)"
  "products (merged rs d) = products d @ new_products d rs"
  "customers (merged rs d) = customers d @ new_in c_id (customers d) (customer_rows rs)"
  "dictionary (merged rs d) = dictionary d @ new_in d_id (dictionary d) (dictionary_rows rs)"
  "batches (merged rs d) = batches d @ new_in b_id (batches d) (batch_rows rs)"
  "sales (merged rs d) = sales d @ new_in s_id (sales d) (sale_rows rs)"
  "operations (merged rs d) = operations d @ new_in o_id (operations d) (operation_rows rs)"
  "cash_movements (merged rs d) = cash_movements d @ new_in m_id (cash_movements d) (cash_rows rs)"
  by (simp_all add: merged_def)

lemma merged_absorbs:
  "new_in w_id (warehouses (merge_result rs d)) (warehouse_rows rs) = []"
  "new_in p_id (products (merge_result rs d)) (product_rows rs) = []"
  "new_in c_id (customers (merge_result rs d)) (customer_rows rs) = []"
  "new_in d_id (dictionary (merge_result rs d)) (dictionary_rows rs) = []"
  "new_in b_id (batches (merge_result rs d)) (batch_rows rs) = []"
  "new_in s_id (sales (merge_result rs d)) (sale_rows rs) = []"
  "new_in o_id (operations (merge_result rs d)) (operation_rows rs) = []"
  "new_in m_id (cash_movements (merge_result rs d)) (cash_rows rs) = []"
  using new_in_covered[of w_id "warehouse_rows rs" "warehouses d"] new_in_covered[of c_id "customer_rows rs" "customers d"]
    new_in_covered[of d_id "dictionary_rows rs" "dictionary d"] new_in_covered[of s_id "sale_rows rs" "sales d"]
    new_in_covered[of o_id "operation_rows rs" "operations d"] new_in_covered[of m_id "cash_rows rs" "cash_movements d"]
    new_in_covered[of p_id "product_rows rs" "products d"] new_in_covered[of b_id "batch_rows rs" "batches d"]
  by (auto simp: merge_result_def image_Un new_products_id_set intro!: new_in_absorbed)

lemma merged_self: "merged rs (merge_result rs d) = merge_result rs d"
proof -
  have "new_products (merge_result rs d) rs = []"
    by (simp add: new_products_def merged_absorbs)
  then show ?thesis by (simp add: merged_def merged_absorbs)
qed

lemma mergeable_self: "mergeable rs (merge_result rs d)"
  by (simp add: mergeable_def merged_absorbs insertable_def fresh_in_def new_products_def)

lemma merge_ok_again: "merge_ok rs d \<Longrightarrow> merge_ok rs (merge_result rs d)"
  by (simp add: merge_ok_def mergeable_self merged_self) (simp add: merge_result_def repair_idem)

lemma merge_result_again: "merge_result rs (merge_result rs d) = merge_result rs d"
  by (subst merge_result_def, subst merged_self) (simp add: merge_result_def repair_idem)

lemma count_into_zero [simp]: "count_into kind 0 m = m"
  by (simp add: count_into_def)

lemma counts_absorbed:
  "new_in key tbl rows = [] \<Longrightarrow> reference_inserted (counts kind key tbl rows cs rep) = reference_inserted rep"
  "conflicts (counts kind key tbl rows cs rep) = conflicts rep @ cs"
  by (simp_all add: counts_def note_counts_def)

text \<open>Sending a batch again is a no-op: after an accepted merge the same batch is accepted again, inserts
  nothing, resolves no collision and leaves the database exactly as it is.\<close>

theorem merge_replay_noop:
  assumes "merge_transaction rs w = (Inr rep, w1)"
  shows "\<exists>rep2 w2. merge_transaction rs w1 = (Inr rep2, w2) \<and> saved w2 = saved w1
     \<and> operations_inserted rep2 = 0 \<and> cash_inserted rep2 = 0
     \<and> reference_inserted rep2 = [] \<and> conflicts rep2 = []"
proof -
  let ?d = "merge_result rs (saved w)"
  have w1: "saved w1 = ?d" and ok: "merge_ok rs (saved w)"
    using assms by (auto simp: merge_transaction_Inr)
  have "new_conflicts ?d rs = []" by (simp add: new_conflicts_def merged_absorbs)
  then show ?thesis
    using merge_ok_again[OF ok]
    by (simp add: merge_transaction_eq w1 merge_result_again merged_report_def Let_def merged_absorbs
        counts_absorbed empty_report_def)
qed

section \<open>A replica is a union of maps\<close>

record replica =
  r_warehouses :: "string \<rightharpoonup> warehouse"
  r_products :: "string \<rightharpoonup> product"
  r_customers :: "string \<rightharpoonup> customer"
  r_dictionary :: "string \<rightharpoonup> dict_entry"
  r_batches :: "string \<rightharpoonup> batch"
  r_sales :: "string \<rightharpoonup> sale"
  r_operations :: "string \<rightharpoonup> operation"
  r_cash :: "string \<rightharpoonup> cash_movement"

text \<open>What two replicas share: the rows by id, without the caches, and without the code of a card, which a
  collision may rename.\<close>

definition card_of :: "product \<Rightarrow> product" where
  "card_of p = p\<lparr>p_quantity := 0, p_code := None\<rparr>"

definition lot_of :: "batch \<Rightarrow> batch" where
  "lot_of b = b\<lparr>b_quantity := 0\<rparr>"

definition rows_map :: "('r \<Rightarrow> string) \<Rightarrow> 'r list \<Rightarrow> string \<rightharpoonup> 'r" where
  "rows_map key rows = (\<lambda>k. tget key k rows)"

definition replica_of :: "db \<Rightarrow> replica" where
  "replica_of d = \<lparr>r_warehouses = rows_map w_id (warehouses d),
     r_products = rows_map p_id (map card_of (products d)),
     r_customers = rows_map c_id (customers d), r_dictionary = rows_map d_id (dictionary d),
     r_batches = rows_map b_id (map lot_of (batches d)), r_sales = rows_map s_id (sales d),
     r_operations = rows_map o_id (operations d), r_cash = rows_map m_id (cash_movements d)\<rparr>"

definition replica_of_batch :: "record_row list \<Rightarrow> replica" where
  "replica_of_batch rs = \<lparr>r_warehouses = rows_map w_id (warehouse_rows rs),
     r_products = rows_map p_id (map card_of (product_rows rs)),
     r_customers = rows_map c_id (customer_rows rs), r_dictionary = rows_map d_id (dictionary_rows rs),
     r_batches = rows_map b_id (map lot_of (batch_rows rs)), r_sales = rows_map s_id (sale_rows rs),
     r_operations = rows_map o_id (operation_rows rs), r_cash = rows_map m_id (cash_rows rs)\<rparr>"

text \<open>The union, the second replica winning.\<close>

definition replica_union :: "replica \<Rightarrow> replica \<Rightarrow> replica" where
  "replica_union a b = \<lparr>r_warehouses = r_warehouses a ++ r_warehouses b,
     r_products = r_products a ++ r_products b, r_customers = r_customers a ++ r_customers b,
     r_dictionary = r_dictionary a ++ r_dictionary b, r_batches = r_batches a ++ r_batches b,
     r_sales = r_sales a ++ r_sales b, r_operations = r_operations a ++ r_operations b,
     r_cash = r_cash a ++ r_cash b\<rparr>"

lemma tget_new_in: "tget key k tbl = None \<Longrightarrow> tget key k (new_in key tbl rows) = tget key k rows"
proof (induction rows)
  case Nil
  then show ?case by simp
next
  case (Cons r rows)
  then have "tget key k (new_in key tbl rows) = tget key k rows" by blast
  moreover have "key r = k \<Longrightarrow> \<not> thas key (key r) tbl"
    using Cons.prems by (auto simp: tget_None_iff thas_iff)
  ultimately show ?case by (auto simp: new_in_def tget_Cons)
qed

lemma rows_map_union: "rows_map key (tbl @ new_in key tbl rows) = rows_map key rows ++ rows_map key tbl"
  by (rule ext) (auto simp: rows_map_def table_simps map_add_def tget_new_in split: option.split)

lemma new_in_map:
  assumes "\<And>r. key (f r) = key r"
  shows "map f (new_in key tbl rows) = new_in key (map f tbl) (map f rows)"
  by (simp add: new_in_def filter_map comp_def thas_iff image_image assms)

lemma card_of_frame [simp]: "p_id (card_of p) = p_id p" "card_of (rename_row rn p) = card_of p"
  "card_of (p\<lparr>p_quantity := q\<rparr>) = card_of p"
  by (simp_all add: card_of_def rename_row_def split: option.split)

lemma lot_of_frame [simp]: "b_id (lot_of b) = b_id b" "lot_of (b\<lparr>b_quantity := q\<rparr>) = lot_of b"
  by (simp_all add: lot_of_def)

lemma cards_resolved: "map card_of (fst (resolve_code_collisions tbl rows)) = map card_of rows"
  by (simp add: resolve_code_collisions_def Let_def comp_def)

lemma cards_merged: "map card_of (products (merge_result rs d))
    = map card_of (products d) @ new_in p_id (map card_of (products d)) (map card_of (product_rows rs))"
  by (simp add: merge_result_def repair_products comp_def new_products_def cards_resolved new_in_map)

lemma lots_merged: "map lot_of (batches (merge_result rs d))
    = map lot_of (batches d) @ new_in b_id (map lot_of (batches d)) (map lot_of (batch_rows rs))"
  by (simp add: merge_result_def repair_batches comp_def new_in_map)

lemma replica_merge_result: "replica_of (merge_result rs d) = replica_union (replica_of_batch rs) (replica_of d)"
  by (simp add: replica_of_def replica_of_batch_def replica_union_def cards_merged lots_merged rows_map_union)
     (simp add: merge_result_def rows_map_union)

text \<open>C6: the merge refines a union of maps: seen as one map from ids to rows per table, an accepted merge
  gives exactly the batch's rows overridden by the server's own; a refused one changes nothing.
  No row is lost, none is overwritten, whatever the order of the records.\<close>

theorem merge_refines_union:
  "replica_of (saved (snd (merge_transaction rs w))) =
     (if isl (fst (merge_transaction rs w)) then replica_of (saved w)
      else replica_union (replica_of_batch rs) (replica_of (saved w)))"
  by (simp add: merge_transaction_eq replica_merge_result)

section \<open>What the union keeps\<close>

lemma entries_some: "(\<And>r. ix r = Some (f r)) \<Longrightarrow> entries ix rows = map f rows"
  by (induction rows) auto

lemma entries_op_seq [simp]: "entries op_seq_index rows = map (\<lambda>o1. (o_device_id o1, o_seq o1)) rows"
  by (rule entries_some) (simp add: op_seq_index_def)

lemma entries_cash_seq [simp]: "entries cash_seq_index rows = map (\<lambda>m. (m_device_id m, m_seq m)) rows"
  by (rule entries_some) (simp add: cash_seq_index_def)

lemma active_codes_simps [simp]:
  "active_codes [] = []"
  "active_codes (p # ps) = (if p_deleted_at p = None then (case p_code p of None \<Rightarrow> [] | Some c \<Rightarrow> [c]) else [])
     @ active_codes ps"
  by (auto simp: active_codes_def)

lemma entries_active_code [simp]: "entries active_code_index ps = map (\<lambda>c. (c, 0)) (active_codes ps)"
  by (induction ps) (auto simp: active_code_index_def split: option.splits)

lemma fresh_in_distinct: "fresh_in ix rows tbl \<Longrightarrow> distinct (entries ix tbl) \<Longrightarrow> distinct (entries ix (tbl @ rows))"
  by (auto simp: fresh_in_def)

lemma insertable_index: "insertable ixs fk rows tbl \<Longrightarrow> ix \<in> set ixs \<Longrightarrow> fresh_in ix rows tbl"
  by (simp add: insertable_def)

lemma insertable_distinct:
  "insertable ixs fk rows tbl \<Longrightarrow> ix \<in> set ixs \<Longrightarrow> distinct (entries ix tbl) \<Longrightarrow> distinct (entries ix (tbl @ rows))"
  by (rule fresh_in_distinct[OF insertable_index])

lemma distinct_pair0 [simp]: "distinct (map (\<lambda>r. (f r, 0 :: int)) rows) = distinct (map f rows)"
  by (auto simp: distinct_map inj_on_def)

lemma insertable_keys:
  assumes "insertable ixs fk rows tbl" and "pk key \<in> set ixs" and "distinct (map key tbl)"
  shows "distinct (map key (tbl @ rows))"
  using insertable_distinct[OF assms(1,2)] assms(3) by (simp only: entries_pk distinct_pair0)

definition keys_ok :: "db \<Rightarrow> bool" where
  "keys_ok d \<longleftrightarrow> distinct (map p_id (products d)) \<and> distinct (map o_id (operations d))
     \<and> distinct (map m_id (cash_movements d)) \<and> distinct (map b_id (batches d))"

lemma mergeable_inserts:
  assumes "mergeable rs d"
  shows "insertable [pk p_id, active_code_index] (\<lambda>_. True) (new_products d rs) (products d)"
    "insertable [pk b_id] (batch_fk (merged rs d)) (new_in b_id (batches d) (batch_rows rs)) (batches d)"
    "insertable [pk o_id, op_seq_index] (op_fk (merged rs d)) (new_in o_id (operations d) (operation_rows rs)) (operations d)"
    "insertable [pk m_id, cash_seq_index] (cash_fk (merged rs d)) (new_in m_id (cash_movements d) (cash_rows rs)) (cash_movements d)"
  using assms by (simp_all add: mergeable_def)

lemma merged_keys:
  assumes "mergeable rs d"
  shows "distinct (map p_id (products d)) \<Longrightarrow> distinct (map p_id (products (merged rs d)))"
    "distinct (map b_id (batches d)) \<Longrightarrow> distinct (map b_id (batches (merged rs d)))"
    "distinct (map o_id (operations d)) \<Longrightarrow> distinct (map o_id (operations (merged rs d)))"
    "distinct (map m_id (cash_movements d)) \<Longrightarrow> distinct (map m_id (cash_movements (merged rs d)))"
  unfolding merged_tables
  by (rule insertable_keys, rule mergeable_inserts[OF assms], simp, assumption)+

lemma keys_merged: "keys_ok d \<Longrightarrow> mergeable rs d \<Longrightarrow> keys_ok (merged rs d)"
  unfolding keys_ok_def using merged_keys by blast

text \<open>
  \<open>books_ok\<close>: what every replica keeps, whether its rows were written by the services or came in
  over the wire. It is weaker than \<open>ledger_ok\<close>: SQLite has no foreign key from an operation to its
  batch.
\<close>

definition books_ok :: "db \<Rightarrow> bool" where
  "books_ok d \<longleftrightarrow> distinct (map p_id (products d)) \<and> distinct (map o_id (operations d))
     \<and> (\<forall>o1 \<in> set (operations d). o_product_id o1 \<in> p_id ` set (products d))
     \<and> stock_cached d \<and> ledgers_numbered d \<and> codes_ok d"

lemma ops_parents_merged:
  assumes "mergeable rs d" and "\<forall>o1 \<in> set (operations d). o_product_id o1 \<in> p_id ` set (products d)"
  shows "\<forall>o1 \<in> set (operations (merged rs d)). o_product_id o1 \<in> p_id ` set (products (merged rs d))"
  using assms by (auto simp: mergeable_def insertable_def op_fk_def thas_iff)

lemma numbered_merged: "ledgers_numbered d \<Longrightarrow> mergeable rs d \<Longrightarrow> ledgers_numbered (merged rs d)"
  using insertable_distinct[OF mergeable_inserts(3), of rs d op_seq_index]
    insertable_distinct[OF mergeable_inserts(4), of rs d cash_seq_index]
  by (simp add: ledgers_numbered_def numbered_def del: entries_simps)

lemma codes_merged: "codes_ok d \<Longrightarrow> mergeable rs d \<Longrightarrow> codes_ok (merged rs d)"
  using insertable_distinct[OF mergeable_inserts(1), of rs d active_code_index]
  by (auto simp: codes_ok_def)

lemma books_merged: 
  assumes "books_ok d" and "mergeable rs d"
  shows "books_ok (merge_result rs d)"
proof -
  have "distinct (map p_id (products (merged rs d)))" "distinct (map o_id (operations (merged rs d)))"
    using assms merged_keys[OF assms(2)] unfolding books_ok_def by blast+
  moreover have "\<forall>o1 \<in> set (operations (merged rs d)). o_product_id o1 \<in> p_id ` set (products (merged rs d))"
    using ops_parents_merged[OF assms(2)] assms(1) unfolding books_ok_def by blast
  moreover have "ledgers_numbered (merged rs d)" "codes_ok (merged rs d)"
    using assms numbered_merged codes_merged by (simp_all add: books_ok_def)
  ultimately show ?thesis
    using repair_cached(1)[of "merged rs d"]
    by (simp only: books_ok_def merge_result_def repair_keys repair_frame codes_ok_def active_codes_repair
        ledgers_numbered_def simp_thms)
qed

lemma extends_merged: "extends d (merge_result rs d)"
  by (simp add: extends_def merge_result_def)

text \<open>An accepted merge leaves honest books: it only appends to the two ledgers, and afterwards every
  cached quantity of a product and of a batch is the sum of the merged ledger, every product's
  quantity is the sum of its batches, device numbers and active codes are distinct, whatever the
  batch claimed; and the cash balance of every currency has moved by exactly the rows inserted.\<close>

theorem merge_honest_books:
  assumes "merge_transaction rs w = (Inr rep, w1)" and "books_ok (saved w)"
  shows "(\<exists>ops cash. operations (saved w1) = operations (saved w) @ ops
      \<and> cash_movements (saved w1) = cash_movements (saved w) @ cash
      \<and> length ops = operations_inserted rep \<and> length cash = cash_inserted rep
      \<and> (\<forall>ccy. compute_balance (saved w1) ccy = compute_balance (saved w) ccy
           + sum_where (\<lambda>m. m_currency m = ccy) m_amount_cents cash))
    \<and> (\<forall>p \<in> set (products (saved w1)). p_quantity p = compute_stock (saved w1) (p_id p))
      \<and> (\<forall>b \<in> set (batches (saved w1)). b_quantity b = compute_batch_stock (saved w1) b)
      \<and> rollup_ok (saved w1) \<and> ledgers_numbered (saved w1) \<and> codes_ok (saved w1)"
  using assms books_merged[of "saved w" rs] repair_cached[of "merged rs (saved w)"]
  by (auto simp: merge_transaction_Inr merge_ok_def merge_result_def merged_report_def Let_def
      compute_balance_def sum_simps books_ok_def stock_cached_def batches_cached_def)

end
