(* ===== verification/SyncServer.thy ===== *)
theory SyncServer
  imports Devices SyncClient RateLimit Replication
begin

text \<open>
  \<open>src/app/routes/sync.py\<close>: the two ends a device talks to. A push passes the device gate, the rate limit,
  the size cap, the decoding, the parser and the schema gate before the one transaction of the
  merge; a pull passes the gate, the rate limit and the check of its cursor and only reads. The
  live schema version, SHA-256 and the limiter's clock are arguments. A body is its length in bytes
  and its text, \<open>None\<close> when it is not UTF-8.
\<close>

section \<open>Numbers and timestamps of a request\<close>

text \<open>\<open>int(s)\<close> on a header: blanks around it, a sign, digits in groups joined by single underscores.\<close>

definition int_text :: "string \<Rightarrow> exn + int" where
  "int_text s =
     (let t = strip s;
          u = (if t \<noteq> [] \<and> hd t \<in> {CHR ''+'', CHR ''-''} then tl t else t);
          ds = filter is_dig u
      in if u = [] \<or> \<not> list_all (\<lambda>c. is_dig c \<or> c = CHR ''_'') u \<or> \<not> is_dig (hd u) \<or> \<not> is_dig (last u)
            \<or> \<not> list_all (\<lambda>(a, b). is_dig a \<or> is_dig b) (zip u (tl u))
         then Inl ValueError
         else case py_int ds of Inl x \<Rightarrow> Inl x | Inr n \<Rightarrow> Inr (if hd t = CHR ''-'' then - n else n))"

text \<open>
  \<open>datetime.fromisoformat(s)\<close> does not raise: where the date part ends (the library's
  \<open>_find_isoformat_datetime_separator\<close>), then a date and a time that may be missing.
\<close>

definition dig_at :: "string \<Rightarrow> nat \<Rightarrow> bool" where
  "dig_at s i \<longleftrightarrow> i < length s \<and> is_dig (s ! i)"

definition datetime_separator :: "string \<Rightarrow> nat option" where
  "datetime_separator s =
     (if length s = 7 then Some 7
      else if s ! 4 = CHR ''-'' then
        (if s ! 5 = CHR ''W'' then
           (if length s < 8 then None
            else if 8 < length s \<and> s ! 8 = CHR ''-'' then
              (if length s = 9 then None else if dig_at s 10 then Some 8 else Some 10)
            else Some 8)
         else Some 10)
      else if s ! 4 = CHR ''W'' then
        (let i = 7 + length (takeWhile is_dig (drop 7 s))
         in Some (if i < 9 then i else if i mod 2 = 0 then 7 else 8))
      else Some 8)"

definition datetime_ok :: "string \<Rightarrow> bool" where
  "datetime_ok s \<longleftrightarrow> 7 \<le> length s \<and>
     (case datetime_separator s of None \<Rightarrow> False
      | Some n \<Rightarrow> fromisoformat (take n s) \<noteq> None \<and> (drop (Suc n) s = [] \<or> time_ok (drop (Suc n) s)))"

section \<open>Push\<close>

definition MAX_PUSH_BYTES :: int where
  "MAX_PUSH_BYTES = 32 * 1024 * 1024"

definition UNKNOWN_SCHEMA_LABEL :: string where
  "UNKNOWN_SCHEMA_LABEL = ''?''"

record push_request =
  pr_credentials :: "string option"
  pr_content_length :: "string option"
  pr_size :: nat
  pr_text :: "string option"

datatype sync_reply =
    Unauthorized
  | Too_many_requests
  | Payload_too_large
  | Malformed_batch
  | Schema_ahead string string
  | Merge_report merge_report
  | Invalid_cursor
  | Page_stream string "string option" "string option"
  | Unhandled exn

definition too_large :: "push_request \<Rightarrow> bool" where
  "too_large r \<longleftrightarrow>
     (case pr_content_length r of None \<Rightarrow> False
      | Some h \<Rightarrow> (case int_text h of Inl _ \<Rightarrow> False | Inr n \<Rightarrow> MAX_PUSH_BYTES < n))
     \<or> MAX_PUSH_BYTES < int (pr_size r)"

text \<open>What of the client's version is shown: only four ASCII digits.\<close>

definition shown_version :: "string \<Rightarrow> string" where
  "shown_version v = (if length v = 4 \<and> list_all is_dig v then v else UNKNOWN_SCHEMA_LABEL)"

definition sync_push ::
  "env \<Rightarrow> (string \<Rightarrow> string) \<Rightarrow> string \<Rightarrow> rat \<Rightarrow> push_request \<Rightarrow> buckets \<Rightarrow> world \<Rightarrow> sync_reply \<times> buckets \<times> world" where
  "sync_push e sha256 server_schema now r bs w =
     (case require_device e sha256 (pr_credentials r) w of
        (Device dev, w1) \<Rightarrow>
          (let (ok, bs1) = check_rate_limit (dt_token_prefix dev) now bs in
           if \<not> ok then (Too_many_requests, bs1, w1)
           else if too_large r then (Payload_too_large, bs1, w1)
           else case pr_text r of
               None \<Rightarrow> (Malformed_batch, bs1, w1)
             | Some text \<Rightarrow>
                (case parse_exchange (splitlines text) of
                   Inl x \<Rightarrow> (if is_value_error x then Malformed_batch else Unhandled x, bs1, w1)
                 | Inr batch \<Rightarrow>
                     if \<not> push_schema_ok (Some (x_schema_version batch)) (Some server_schema)
                     then (Schema_ahead (shown_version (x_schema_version batch)) server_schema, bs1, w1)
                     else
                       (case rows_of (x_records batch) of
                          None \<Rightarrow> (Unhandled IntegrityError, bs1, rollback w1)
                        | Some rs \<Rightarrow>
                            (case merge_transaction rs w1 of
                               (Inl x, w2) \<Rightarrow> (Unhandled x, bs1, w2)
                             | (Inr rep, w2) \<Rightarrow> (Merge_report rep, bs1, w2)))))
      | (_, w1) \<Rightarrow> (Unauthorized, bs, w1))"

section \<open>Pull\<close>

record pull_request =
  pl_credentials :: "string option"
  pl_since :: "string option"
  pl_after_id :: "string option"
  pl_limit :: int

text \<open>Each line of the stream ends with a line feed.\<close>

definition stream_text :: "string list \<Rightarrow> string" where
  "stream_text ls = concat (map (\<lambda>l. l @ LF) ls)"

text \<open>The handler behind the gate and the rate limit.\<close>

definition pull_page_reply ::
  "(string \<Rightarrow> string \<Rightarrow> string) \<Rightarrow> (string \<Rightarrow> string) \<Rightarrow> string \<Rightarrow> string option \<Rightarrow> string \<Rightarrow> db
     \<Rightarrow> string option \<Rightarrow> string option \<Rightarrow> int \<Rightarrow> sync_reply" where
  "pull_page_reply upd sha256 server_schema source generated_at d since0 after_id limit =
     (let since = falsy_none since0 in
      if (case since of None \<Rightarrow> False | Some s \<Rightarrow> \<not> datetime_ok s) then Invalid_cursor
      else (let page = collect_reference_records upd d since after_id (Some limit);
                lines = serialize_exchange sha256 (map (record_of upd) (pg_records page)) server_schema source generated_at
            in Page_stream (stream_text lines) (pg_next_since page) (pg_next_after_id page)))"

definition sync_pull ::
  "env \<Rightarrow> (string \<Rightarrow> string \<Rightarrow> string) \<Rightarrow> (string \<Rightarrow> string) \<Rightarrow> string \<Rightarrow> string option \<Rightarrow> rat \<Rightarrow> pull_request
     \<Rightarrow> buckets \<Rightarrow> world \<Rightarrow> sync_reply \<times> buckets \<times> world" where
  "sync_pull e upd sha256 server_schema source now r bs w =
     (case require_device e sha256 (pl_credentials r) w of
        (Device dev, w1) \<Rightarrow>
          (let (ok, bs1) = check_rate_limit (dt_token_prefix dev) now bs in
           if \<not> ok then (Too_many_requests, bs1, w1)
           else (let (generated_at, w2) = utcnow_iso e w1
                 in (pull_page_reply upd sha256 server_schema source generated_at (cur w2)
                       (pl_since r) (pl_after_id r) (pl_limit r), bs1, w2)))
      | (_, w1) \<Rightarrow> (Unauthorized, bs, w1))"

section \<open>The manual trigger\<close>

text \<open>The status partial: the message, the line with the last sync and the number of unsynced rows, read from the
  session, which a missing state row is staged in.\<close>

definition render_sync_status ::
  "bool \<Rightarrow> (string \<Rightarrow> string) \<Rightarrow> sync_result \<Rightarrow> world \<Rightarrow> (sync_message \<times> last_sync_line \<times> nat) \<times> world" where
  "render_sync_status sqlite iso_to_local res w =
     (let (row, d) = get_or_create_sync_state sqlite (cur w);
          (message, line) = format_sync_message iso_to_local res (Some row)
      in ((message, line, unsynced_count d), w\<lparr>cur := d\<rparr>))"

text \<open>\<open>POST /sync/run\<close>: \<open>busy\<close> when another run holds the lock; an unexpected error of the run is not modelled. \<open>None\<close> is a
  run that never returns.\<close>

definition sync_run ::
  "env \<Rightarrow> sync_env \<Rightarrow> bool \<Rightarrow> bool \<Rightarrow> (sync_message \<Rightarrow> string) \<Rightarrow> (string \<Rightarrow> string) \<Rightarrow> (string \<Rightarrow> push_response)
     \<Rightarrow> (string option \<Rightarrow> string option \<Rightarrow> pull_response) \<Rightarrow> world
     \<Rightarrow> ((sync_message \<times> last_sync_line \<times> nat) \<times> world) option" where
  "sync_run e s busy sqlite render iso_to_local push server w =
     (if busy then Some (render_sync_status sqlite iso_to_local (just ''locked'') w)
      else if sync_server_url s = [] \<or> sync_token s = []
      then Some (render_sync_status sqlite iso_to_local (just ''not_configured'') w)
      else case run_sync_once e s push server w of
          None \<Rightarrow> None
        | Some (res, w1) \<Rightarrow>
            Some (render_sync_status sqlite iso_to_local res (record_run e sqlite render iso_to_local res w1)))"

section \<open>All or nothing\<close>

text \<open>The gate only stamps the token: every table but the tokens is as before.\<close>

definition but_tokens :: "db \<Rightarrow> db" where
  "but_tokens d = d\<lparr>device_tokens := []\<rparr>"

lemma require_device_frame:
  "but_tokens (saved (snd (require_device e sha256 c (open_session d)))) = but_tokens d"
  by (auto simp: require_device_def touch_last_used_def Let_def split_beta commit_stage_saved open_session_def
      utcnow_iso_def but_tokens_def upd_token_def split: option.split)

lemma merge_but_tokens:
  assumes "but_tokens a = but_tokens b"
  shows "merge_ok rs a = merge_ok rs b" "merged_report rs a = merged_report rs b"
    "but_tokens (merge_result rs a) = but_tokens (merge_result rs b)"
proof -
  have a: "a = b\<lparr>device_tokens := device_tokens a\<rparr>" using assms unfolding but_tokens_def
    by (metis (no_types, lifting) db.surjective db.update_convs(14))
  have m: "merged rs (b\<lparr>device_tokens := ts\<rparr>) = (merged rs b)\<lparr>device_tokens := ts\<rparr>" for ts
    by (simp add: merged_def new_products_def)
  have r: "repair_caches (d\<lparr>device_tokens := ts\<rparr>) = (repair_caches d)\<lparr>device_tokens := ts\<rparr>" for d ts
    by (simp add: repair_caches_def compute_stock_def compute_batch_stock_def null_bucket_def)
  have k: "merge_ok rs (b\<lparr>device_tokens := ts\<rparr>) = merge_ok rs b" for ts
    unfolding merge_ok_def mergeable_def m r
    using fk_cong[of "(merged rs b)\<lparr>device_tokens := ts\<rparr>" "merged rs b"]
    by (simp add: new_products_def rollup_ok_def rollup_def has_legacy_def null_bucket_def)
  show "merge_ok rs a = merge_ok rs b" by (subst a) (rule k)
  show "merged_report rs a = merged_report rs b"
    by (subst a) (simp add: merged_report_def counts_def new_conflicts_def)
  show "but_tokens (merge_result rs a) = but_tokens (merge_result rs b)"
    by (subst a) (simp add: merge_result_def m r but_tokens_def)
qed

lemma require_device_Device:
  "require_device e sha256 c (open_session d) = (Device t, w1) \<Longrightarrow>
     \<exists>p. c = Some p \<and> t \<in> set (device_tokens d) \<and> dt_is_active t = 1 \<and> dt_token_hash t = sha256 p"
  by (auto simp: require_device_def open_session_def dest!: lookup_active_tokenD split: option.splits)

lemma sync_push_Report:
  assumes "sync_push e sha256 server now r bs (open_session d) = (Merge_report rep, bs1, w1)"
  obtains p t body b rs w0 where "pr_credentials r = Some p" "t \<in> set (device_tokens d)" "dt_is_active t = 1"
    "dt_token_hash t = sha256 p" "pr_text r = Some body" "parse_exchange (splitlines body) = Inr b"
    "push_schema_ok (Some (x_schema_version b)) (Some server)" "rows_of (x_records b) = Some rs"
    "but_tokens (saved w0) = but_tokens d" "merge_transaction rs w0 = (Inr rep, w1)"
proof -
  obtain g w0 where g: "require_device e sha256 (pr_credentials r) (open_session d) = (g, w0)" by force
  then obtain t where t: "g = Device t"
    using assms by (cases g) (auto simp: sync_push_def)
  from require_device_Device[OF g[unfolded t]] obtain p where p: "pr_credentials r = Some p"
    "t \<in> set (device_tokens d)" "dt_is_active t = 1" "dt_token_hash t = sha256 p" by blast
  have frame: "but_tokens (saved w0) = but_tokens d"
    using require_device_frame[of e sha256 "pr_credentials r" d] by (simp add: g)
  obtain body where body: "pr_text r = Some body"
    using assms g t by (auto simp: sync_push_def split_beta Let_def split: if_splits option.splits)
  obtain b where b: "parse_exchange (splitlines body) = Inr b"
    using assms g t body by (auto simp: sync_push_def split_beta Let_def split: if_splits sum.splits)
  have ok: "push_schema_ok (Some (x_schema_version b)) (Some server)"
    using assms g t body b by (auto simp: sync_push_def split_beta Let_def split: if_splits)
  obtain rs where rs: "rows_of (x_records b) = Some rs"
    using assms g t body b ok by (auto simp: sync_push_def split_beta Let_def split: if_splits option.splits)
  have "merge_transaction rs w0 = (Inr rep, w1)"
    using assms g t body b ok rs
    by (auto simp: sync_push_def split_beta Let_def prod_eq_iff split: if_splits sum.splits)
  with that p frame body b ok rs show ?thesis by blast
qed

lemma sync_push_refused:
  assumes "sync_push e sha256 server now r bs (open_session d) = (reply, bs1, w1)" and "\<And>rep. reply \<noteq> Merge_report rep"
  shows "but_tokens (saved w1) = but_tokens d"
proof -
  obtain g w0 where g: "require_device e sha256 (pr_credentials r) (open_session d) = (g, w0)" by force
  have frame: "but_tokens (saved w0) = but_tokens d"
    using require_device_frame[of e sha256 "pr_credentials r" d] by (simp add: g)
  have "saved w1 = saved w0"
    using assms(1) assms(2)
    by (cases g)
       (auto simp: sync_push_def g split_beta Let_def merge_transaction_eq split: if_splits option.splits sum.splits)
  with frame show ?thesis by simp
qed

lemma replica_but_tokens: "but_tokens a = but_tokens b \<Longrightarrow> replica_of a = replica_of b"
proof -
  have "replica_of (but_tokens x) = replica_of x" for x by (simp add: replica_of_def but_tokens_def)
  then show "but_tokens a = but_tokens b \<Longrightarrow> replica_of a = replica_of b" by metis
qed


end
