(* ===== verification/Convergence.thy ===== *)
theory Convergence
  imports Replication
begin

text \<open>
  Order does not matter to the merge engine: neither the order of the records in a file nor, for
  the ledgers, the order, grouping or repetition of the batches that arrive.
\<close>

section \<open>Permuted tables\<close>

lemma sum_where_mset: "mset xs = mset ys \<Longrightarrow> sum_where p v xs = sum_where p v ys"
  unfolding sum_where_def
  by (simp only: sum_mset_sum_list[symmetric] mset_map mset_filter)

lemma mset_new_in: "mset rows = mset rows' \<Longrightarrow> mset (new_in key tbl rows) = mset (new_in key tbl rows')"
  by (simp add: new_in_def)

lemma mset_entries: "mset rows = mset rows' \<Longrightarrow> mset (entries ix rows) = mset (entries ix rows')"
  unfolding entries_def map_filter_def by (simp add: mset_map)

lemma fresh_in_mset: "mset rows = mset rows' \<Longrightarrow> fresh_in ix rows tbl = fresh_in ix rows' tbl"
  using mset_entries[of rows rows' ix] mset_eq_imp_distinct_iff mset_eq_setD
  unfolding fresh_in_def by metis

lemma insertable_mset:
  "mset rows = mset rows' \<Longrightarrow> fk = fk' \<Longrightarrow> insertable ixs fk rows tbl = insertable ixs fk' rows' tbl"
  using fresh_in_mset[of rows rows'] mset_eq_setD[of rows rows'] unfolding insertable_def by metis

lemma mset_bucket: "mset rs = mset rs' \<Longrightarrow> mset (bucket sel rs) = mset (bucket sel rs')"
  unfolding bucket_def map_filter_def by (simp add: mset_map)

lemmas row_defs = warehouse_rows_def product_rows_def customer_rows_def dictionary_rows_def batch_rows_def
  sale_rows_def operation_rows_def cash_rows_def

lemma mset_rows:
  assumes "mset rs = mset rs'"
  shows "mset (warehouse_rows rs) = mset (warehouse_rows rs')" "mset (product_rows rs) = mset (product_rows rs')"
    "mset (customer_rows rs) = mset (customer_rows rs')" "mset (dictionary_rows rs) = mset (dictionary_rows rs')"
    "mset (batch_rows rs) = mset (batch_rows rs')" "mset (sale_rows rs) = mset (sale_rows rs')"
    "mset (operation_rows rs) = mset (operation_rows rs')" "mset (cash_rows rs) = mset (cash_rows rs')"
  unfolding row_defs by (rule mset_bucket[OF assms])+

lemma length_mset_cong: "mset xs = mset ys \<Longrightarrow> length xs = length ys"
  by (metis size_mset)

section \<open>Each id once\<close>

lemma bucket_simps [simp]:
  "bucket sel [] = []"
  "bucket sel (r # rs) = (case sel r of None \<Rightarrow> bucket sel rs | Some x \<Rightarrow> x # bucket sel rs)"
  by (simp_all add: bucket_def map_filter_def split: option.split)

lemma bucket_keys:
  assumes "\<And>r x. sel r = Some x \<Longrightarrow> record_kind r = kind \<and> record_id r = key x" and "ids_once rs"
  shows "distinct (map key (bucket sel rs)) \<and>
    (\<lambda>x. (kind, key x)) ` set (bucket sel rs) \<subseteq> (\<lambda>r. (record_kind r, record_id r)) ` set rs"
  using assms(2)
proof (induction rs)
  case Nil
  then show ?case by simp
next
  case (Cons r rs)
  then have once: "ids_once rs" "(record_kind r, record_id r) \<notin> (\<lambda>r. (record_kind r, record_id r)) ` set rs"
    by (auto simp: ids_once_def)
  note ih = Cons.IH[OF once(1)]
  show ?case
  proof (cases "sel r")
    case None
    with ih show ?thesis by auto
  next
    case (Some x)
    then have "(record_kind r, record_id r) = (kind, key x)" using assms(1) by blast
    with ih once(2) Some show ?thesis by auto
  qed
qed

lemma product_keys: "ids_once rs \<Longrightarrow> distinct (map p_id (product_rows rs))"
  unfolding product_rows_def
  by (rule conjunct1[OF bucket_keys[where kind = "''product''"]]) (auto split: record_row.splits elim!: reference_row.elims)

section \<open>A shuffled file\<close>

lemma resolve_mset:
  assumes "mset rows = mset rows'" and "distinct (map p_id rows)"
  shows "mset (fst (resolve_code_collisions tbl rows)) = mset (fst (resolve_code_collisions tbl rows'))"
    and "snd (resolve_code_collisions tbl rows) = snd (resolve_code_collisions tbl rows')"
proof -
  have "inj_on p_id (set rows)" using assms(2) by (simp add: distinct_map)
  then have "sort_key p_id rows = sort_key p_id rows'"
    using assms(1) by (intro sort_key_inj_key_eq) auto
  then show "mset (fst (resolve_code_collisions tbl rows)) = mset (fst (resolve_code_collisions tbl rows'))"
    and "snd (resolve_code_collisions tbl rows) = snd (resolve_code_collisions tbl rows')"
    using assms(1) by (simp_all add: resolve_code_collisions_def Let_def)
qed

text \<open>The same rows, in any order.\<close>

definition same_rows :: "db \<Rightarrow> db \<Rightarrow> bool" where
  "same_rows d d' \<longleftrightarrow> mset (warehouses d) = mset (warehouses d') \<and> mset (products d) = mset (products d')
     \<and> mset (customers d) = mset (customers d') \<and> mset (dictionary d) = mset (dictionary d')
     \<and> mset (batches d) = mset (batches d') \<and> mset (sales d) = mset (sales d')
     \<and> mset (operations d) = mset (operations d') \<and> mset (cash_movements d) = mset (cash_movements d')"

lemma new_products_mset:
  assumes "mset rs = mset rs'" and "ids_once rs"
  shows "mset (new_products d rs) = mset (new_products d rs')" and "new_conflicts d rs = new_conflicts d rs'"
proof -
  have d: "distinct (map p_id (new_in p_id (products d) (product_rows rs)))"
    using product_keys[OF assms(2)] by (simp add: new_in_def distinct_map_filter)
  note m = mset_new_in[OF mset_rows(2)[OF assms(1)], of p_id "products d"]
  show "mset (new_products d rs) = mset (new_products d rs')" "new_conflicts d rs = new_conflicts d rs'"
    unfolding new_products_def new_conflicts_def using resolve_mset[OF m d] by auto
qed

lemma merged_mset: "mset rs = mset rs' \<Longrightarrow> ids_once rs \<Longrightarrow> same_rows (merged rs d) (merged rs' d)"
  unfolding same_rows_def merged_tables mset_append
  by (intro conjI arg_cong2[of _ _ _ _ "(+)"] refl mset_new_in mset_rows new_products_mset)

lemma thas_mset: "mset xs = mset ys \<Longrightarrow> thas key k xs = thas key k ys"
  using mset_eq_setD[of xs ys] by (simp add: thas_iff)

lemma fk_same_rows:
  assumes "same_rows d d'"
  shows "batch_fk d = batch_fk d'" "sale_fk d = sale_fk d'" "op_fk d = op_fk d'" "cash_fk d = cash_fk d'"
  using assms
  by (auto simp: fun_eq_iff batch_fk_def sale_fk_def op_fk_def cash_fk_def same_rows_def
      intro!: arg_cong2[of _ _ _ _ "(\<and>)"] thas_mset split: option.split)

lemma mergeable_mset:
  assumes "mset rs = mset rs'" and "ids_once rs"
  shows "mergeable rs d = mergeable rs' d"
  unfolding mergeable_def
  by (intro arg_cong2[of _ _ _ _ "(\<and>)"] insertable_mset mset_new_in mset_rows assms new_products_mset
      fk_same_rows merged_mset refl)

lemma compute_same_rows:
  assumes "same_rows d d'"
  shows "compute_stock d pid = compute_stock d' pid" "null_bucket d pid = null_bucket d' pid"
    "compute_batch_stock d b = compute_batch_stock d' b"
proof -
  have m: "mset (operations d) = mset (operations d')" using assms by (simp add: same_rows_def)
  show n: "null_bucket d pid = null_bucket d' pid" for pid
    unfolding null_bucket_def by (rule sum_where_mset[OF m])
  show "compute_stock d pid = compute_stock d' pid"
    unfolding compute_stock_def by (rule sum_where_mset[OF m])
  show "compute_batch_stock d b = compute_batch_stock d' b"
    unfolding compute_batch_stock_def n by (simp add: sum_where_mset[OF m])
qed

lemma repair_same_rows: "same_rows d d' \<Longrightarrow> same_rows (repair_caches d) (repair_caches d')"
proof -
  assume same: "same_rows d d'"
  have "mset (products (repair_caches d)) = mset (products (repair_caches d'))"
    using same by (simp add: repair_products same_rows_def compute_same_rows[OF same])
  moreover have "mset (batches (repair_caches d)) = mset (batches (repair_caches d'))"
    using same by (simp add: repair_batches same_rows_def compute_same_rows[OF same])
  ultimately show ?thesis using same by (simp add: same_rows_def)
qed

lemma rollup_same_rows:
  assumes "same_rows d d'"
  shows "rollup_ok d = rollup_ok d'"
proof -
  have mb: "mset (batches d) = mset (batches d')" and mp: "set (products d) = set (products d')"
    using assms mset_eq_setD by (auto simp: same_rows_def)
  have l: "has_legacy d pid = has_legacy d' pid" for pid
    using mset_eq_setD[OF mb] by (simp add: has_legacy_def list_ex_iff)
  have "rollup d pid = rollup d' pid" for pid
    unfolding rollup_def l compute_same_rows(2)[OF assms] by (simp add: sum_where_mset[OF mb])
  with mp show ?thesis by (simp add: rollup_ok_def list_all_iff)
qed

lemma counts_mset:
  assumes "mset rows = mset rows'"
  shows "counts kind key tbl rows = counts kind key tbl rows'"
  using length_mset_cong[OF assms] length_mset_cong[OF mset_new_in[OF assms, of key tbl]]
  by (simp add: counts_def fun_eq_iff)

lemma report_mset:
  assumes "mset rs = mset rs'" and "ids_once rs"
  shows "merged_report rs d = merged_report rs' d"
  using length_mset_cong[OF mset_rows(7)[OF assms(1)]] length_mset_cong[OF mset_rows(8)[OF assms(1)]]
    length_mset_cong[OF mset_new_in[OF mset_rows(7)[OF assms(1)]]]
    length_mset_cong[OF mset_new_in[OF mset_rows(8)[OF assms(1)]]]
  by (simp add: merged_report_def new_products_mset(2)[OF assms] counts_mset[OF mset_rows(1)[OF assms(1)]]
      counts_mset[OF mset_rows(2)[OF assms(1)]] counts_mset[OF mset_rows(3)[OF assms(1)]]
      counts_mset[OF mset_rows(4)[OF assms(1)]] counts_mset[OF mset_rows(5)[OF assms(1)]]
      counts_mset[OF mset_rows(6)[OF assms(1)]])

text \<open>A shuffled file merges identically: for every permutation of a batch in which no id occurs twice, the
  merge gives the same answer (the same exception, or the same report with the same collisions)
  and the same rows in every table.\<close>

theorem merge_shuffled:
  assumes "mset rs' = mset rs" and "ids_once rs"
  shows "fst (merge_transaction rs' w) = fst (merge_transaction rs w)
    \<and> same_rows (saved (snd (merge_transaction rs' w))) (saved (snd (merge_transaction rs w)))"
proof -
  note m = assms(1)[symmetric]
  have r: "same_rows (repair_caches (merged rs' (saved w))) (repair_caches (merged rs (saved w)))"
    by (rule repair_same_rows) (use merged_mset[OF m assms(2)] in \<open>simp add: same_rows_def\<close>)
  then have "merge_ok rs' (saved w) = merge_ok rs (saved w)"
    by (simp add: merge_ok_def rollup_same_rows mergeable_mset[OF m assms(2), symmetric])
  with r show ?thesis
    by (simp add: merge_transaction_eq merge_exn_def mergeable_mset[OF m assms(2)]
        report_mset[OF m assms(2)] merge_result_def)
      (simp add: same_rows_def)
qed

section \<open>Batches in any order\<close>

text \<open>Batches merged one after the other; the first refusal stops.\<close>

fun merge_all :: "record_row list list \<Rightarrow> world \<Rightarrow> exn + world" where
  "merge_all [] w = Inr w"
| "merge_all (rs # rss) w = (case merge_transaction rs w of
     (Inl x, w1) \<Rightarrow> Inl x
   | (Inr rep, w1) \<Rightarrow> merge_all rss w1)"

text \<open>A ledger row as it is on every replica: without the local sync cursor.\<close>

definition op_norm :: "operation \<Rightarrow> operation" where
  "op_norm o1 = o1\<lparr>o_synced_at := None\<rparr>"

definition cash_norm :: "cash_movement \<Rightarrow> cash_movement" where
  "cash_norm m = m\<lparr>m_synced_at := None\<rparr>"

lemma norm_frame [simp]:
  "o_id (op_norm o1) = o_id o1" "o_product_id (op_norm o1) = o_product_id o1"
  "o_qty_delta (op_norm o1) = o_qty_delta o1" "m_id (cash_norm m) = m_id m"
  "m_currency (cash_norm m) = m_currency m" "m_amount_cents (cash_norm m) = m_amount_cents m"
  by (simp_all add: op_norm_def cash_norm_def)

lemma bucket_member: "x \<in> set (bucket sel rs) \<longleftrightarrow> (\<exists>r \<in> set rs. sel r = Some x)"
  by (induction rs) (auto split: option.splits)

lemma row_selectors:
  "(case r of R_operation x \<Rightarrow> Some x | _ \<Rightarrow> None) = Some o1 \<longleftrightarrow> r = R_operation o1"
  "(case r of R_cash x \<Rightarrow> Some x | _ \<Rightarrow> None) = Some m \<longleftrightarrow> r = R_cash m"
  by (cases r; simp)+

lemma set_operation_rows: "set (operation_rows rs) = {o1. R_operation o1 \<in> ledger_row ` set rs}"
  by (auto simp: operation_rows_def bucket_member row_selectors image_iff) metis

lemma set_cash_rows: "set (cash_rows rs) = {m. R_cash m \<in> ledger_row ` set rs}"
  by (auto simp: cash_rows_def bucket_member row_selectors image_iff) metis

lemma ledger_row_normal:
  "R_operation o1 = ledger_row r \<Longrightarrow> op_norm o1 = o1" "R_cash m = ledger_row r \<Longrightarrow> cash_norm m = m"
  by (cases r; simp add: op_norm_def cash_norm_def)+

lemma operation_rows_normal: "o1 \<in> set (operation_rows rs) \<Longrightarrow> op_norm o1 = o1"
  by (auto simp: set_operation_rows dest: ledger_row_normal)

lemma cash_rows_normal: "m \<in> set (cash_rows rs) \<Longrightarrow> cash_norm m = m"
  by (auto simp: set_cash_rows dest: ledger_row_normal)

lemma rows_concat:
  "set (operation_rows (concat rss)) = (\<Union>rs \<in> set rss. set (operation_rows rs))"
  "set (cash_rows (concat rss)) = (\<Union>rs \<in> set rss. set (cash_rows rs))"
  by (auto simp: set_operation_rows set_cash_rows)

text \<open>Rows that claim the same id are the same row: identity is minted once, by the device that wrote it.\<close>

definition one_per_id :: "('r \<Rightarrow> string) \<Rightarrow> 'r set \<Rightarrow> bool" where
  "one_per_id key S \<longleftrightarrow> inj_on key S"

lemma union_new_in:
  assumes "one_per_id key (norm ` set tbl \<union> set rows)" and "\<And>r. key (norm r) = key r"
    and "\<And>r. r \<in> set rows \<Longrightarrow> norm r = r"
  shows "norm ` set (tbl @ new_in key tbl rows) = norm ` set tbl \<union> set rows"
proof (rule equalityI)
  show "norm ` set (tbl @ new_in key tbl rows) \<subseteq> norm ` set tbl \<union> set rows"
    using assms(3) by (auto simp: new_in_def)
  show "norm ` set tbl \<union> set rows \<subseteq> norm ` set (tbl @ new_in key tbl rows)"
  proof
    fix x assume x: "x \<in> norm ` set tbl \<union> set rows"
    show "x \<in> norm ` set (tbl @ new_in key tbl rows)"
    proof (cases "x \<in> norm ` set tbl")
      case True
      then show ?thesis by auto
    next
      case False
      with x have row: "x \<in> set rows" by simp
      have "\<not> thas key (key x) tbl"
      proof
        assume "thas key (key x) tbl"
        then obtain t where "t \<in> set tbl" "key t = key x" by (auto simp: thas_iff)
        then have "norm t = x"
          using assms(1) row by (intro inj_onD[of key "norm ` set tbl \<union> set rows"])
            (auto simp: one_per_id_def assms(2))
        with \<open>t \<in> set tbl\<close> False show False by auto
      qed
      with row assms(3)[OF row] show ?thesis
        by (auto simp: new_in_def image_iff intro!: bexI[of _ x])
    qed
  qed
qed

definition ledger_ops :: "db \<Rightarrow> operation set" where
  "ledger_ops d = op_norm ` set (operations d)"

definition ledger_cash :: "db \<Rightarrow> cash_movement set" where
  "ledger_cash d = cash_norm ` set (cash_movements d)"

definition consistent :: "db \<Rightarrow> record_row list list \<Rightarrow> bool" where
  "consistent d rss \<longleftrightarrow> one_per_id o_id (ledger_ops d \<union> set (operation_rows (concat rss)))
     \<and> one_per_id m_id (ledger_cash d \<union> set (cash_rows (concat rss)))"

lemma one_per_id_subset: "one_per_id key S \<Longrightarrow> T \<subseteq> S \<Longrightarrow> one_per_id key T"
  by (auto simp: one_per_id_def intro: inj_on_subset)

lemma ledgers_merge_result:
  assumes "consistent d (rs # rss)"
  shows "ledger_ops (merge_result rs d) = ledger_ops d \<union> set (operation_rows rs)"
    "ledger_cash (merge_result rs d) = ledger_cash d \<union> set (cash_rows rs)"
proof -
  have "one_per_id o_id (op_norm ` set (operations d) \<union> set (operation_rows rs))"
    "one_per_id m_id (cash_norm ` set (cash_movements d) \<union> set (cash_rows rs))"
    using assms unfolding consistent_def ledger_ops_def ledger_cash_def rows_concat
    by (auto elim!: one_per_id_subset)
  then show "ledger_ops (merge_result rs d) = ledger_ops d \<union> set (operation_rows rs)"
    "ledger_cash (merge_result rs d) = ledger_cash d \<union> set (cash_rows rs)"
    using union_new_in[of o_id op_norm "operations d" "operation_rows rs"] operation_rows_normal
      union_new_in[of m_id cash_norm "cash_movements d" "cash_rows rs"] cash_rows_normal
    by (simp_all add: ledger_ops_def ledger_cash_def merge_result_def)
qed

lemma keys_merge_result: "keys_ok d \<Longrightarrow> merge_ok rs d \<Longrightarrow> keys_ok (merge_result rs d)"
  using keys_merged[of d rs]
  by (simp only: keys_ok_def merge_ok_def merge_result_def repair_keys repair_frame simp_thms)

lemma merge_all_ledgers:
  assumes "merge_all rss w = Inr w1" and "consistent (saved w) rss" and "keys_ok (saved w)"
  shows "ledger_ops (saved w1) = ledger_ops (saved w) \<union> set (operation_rows (concat rss))
    \<and> ledger_cash (saved w1) = ledger_cash (saved w) \<union> set (cash_rows (concat rss))
    \<and> keys_ok (saved w1)"
  using assms
proof (induction rss arbitrary: w)
  case Nil
  then show ?case by (simp add: set_operation_rows set_cash_rows)
next
  case (Cons rs rss)
  let ?d = "merge_result rs (saved w)"
  from Cons.prems(1) obtain rep w2 where t: "merge_transaction rs w = (Inr rep, w2)"
    and rest: "merge_all rss w2 = Inr w1"
    by (auto split: prod.splits sum.splits)
  then have ok: "merge_ok rs (saved w)" and w2: "saved w2 = ?d"
    by (auto simp: merge_transaction_Inr)
  note step = ledgers_merge_result[OF Cons.prems(2)]
  have "consistent ?d rss"
    using Cons.prems(2) unfolding consistent_def step
    unfolding rows_concat by (auto elim!: one_per_id_subset)
  with Cons.IH[OF rest] keys_merge_result[OF Cons.prems(3) ok] show ?case
    unfolding w2 step rows_concat by auto
qed

lemma sum_where_set:
  assumes "distinct (map key rows)" and "\<And>r. key (norm r) = key r"
    and "\<And>r. p (norm r) = p r" and "\<And>r. v (norm r) = v r"
  shows "sum_where p v rows = (\<Sum>r \<in> norm ` set rows. if p r then v r else 0)"
proof -
  have inj: "inj_on norm (set rows)"
    using assms(1,2) by (auto simp: distinct_map inj_on_def) (metis assms(2))
  have "sum_where p v rows = sum_list (map (\<lambda>r. if p r then v r else 0) rows)"
    by (induction rows) (auto simp: sum_simps)
  also have "\<dots> = (\<Sum>r \<in> set rows. if p r then v r else 0)"
    using assms(1) by (simp add: sum_list_distinct_conv_sum_set distinct_map)
  also have "\<dots> = (\<Sum>r \<in> norm ` set rows. if p r then v r else 0)"
    unfolding sum.reindex[OF inj] by (rule sum.cong) (simp_all add: assms(3,4))
  finally show ?thesis .
qed

lemma stock_of_ledger:
  "keys_ok d \<Longrightarrow> compute_stock d pid = (\<Sum>o1 \<in> ledger_ops d. if o_product_id o1 = pid then o_qty_delta o1 else 0)"
  unfolding compute_stock_def ledger_ops_def by (rule sum_where_set[where key = o_id]) (auto simp: keys_ok_def)

lemma balance_of_ledger:
  "keys_ok d \<Longrightarrow> compute_balance d ccy = (\<Sum>m \<in> ledger_cash d. if m_currency m = ccy then m_amount_cents m else 0)"
  unfolding compute_balance_def ledger_cash_def by (rule sum_where_set[where key = m_id]) (auto simp: keys_ok_def)

text \<open>C15: replicas converge: two servers that start from the same database and accept the same records, in any
  order, grouped into any batches and repeated any number of times, end with the same ledgers,
  the same stock of every product and the same cash balance in every currency, as long as a
  ledger id never stands for two different rows.\<close>

theorem replicas_converge:
  assumes "merge_all rss w = Inr w1" and "merge_all rss' w' = Inr w2"
    and "saved w' = saved w" and "set (concat rss') = set (concat rss)"
    and "consistent (saved w) rss" and "keys_ok (saved w)"
  shows "ledger_ops (saved w1) = ledger_ops (saved w2) \<and> ledger_cash (saved w1) = ledger_cash (saved w2)
    \<and> (\<forall>pid. compute_stock (saved w1) pid = compute_stock (saved w2) pid)
    \<and> (\<forall>ccy. compute_balance (saved w1) ccy = compute_balance (saved w2) ccy)"
proof -
  have same: "set (operation_rows (concat rss')) = set (operation_rows (concat rss))"
    "set (cash_rows (concat rss')) = set (cash_rows (concat rss))"
    unfolding set_operation_rows set_cash_rows assms(4) by (rule refl)+
  then have "consistent (saved w') rss'" using assms(3,5) by (simp add: consistent_def)
  then show ?thesis
    using merge_all_ledgers[OF assms(1,5,6)] merge_all_ledgers[OF assms(2)] assms(3,6) same
    by (simp add: stock_of_ledger balance_of_ledger)
qed

end
