(* ===== verification/SyncProps.thy ===== *)
theory SyncProps
  imports SyncServer Convergence
begin

text \<open>
  What a sync promises end to end: the pull loop stops and has received every reference row of the
  server; a sync never touches the operator's ledgers except for the stamp; and what carries the
  stamp is on the server.
\<close>

section \<open>The pages of an honest server\<close>

text \<open>The server as the client's page requests see it, with the limit the client sends.\<close>

definition pull_server ::
  "(string \<Rightarrow> string \<Rightarrow> string) \<Rightarrow> (string \<Rightarrow> string) \<Rightarrow> string \<Rightarrow> string option \<Rightarrow> string \<Rightarrow> db
     \<Rightarrow> string option \<Rightarrow> string option \<Rightarrow> pull_response" where
  "pull_server upd sha256 schema source generated_at d since after_id =
     (case pull_page_reply upd sha256 schema source generated_at d since after_id DEFAULT_PULL_LIMIT of
        Page_stream body s a \<Rightarrow> Pull_page body s a
      | _ \<Rightarrow> Pull_failed)"

text \<open>What the text format needs of the values in the header.\<close>

definition wire_ok :: "(string \<Rightarrow> string) \<Rightarrow> string \<Rightarrow> string option \<Rightarrow> string \<Rightarrow> bool" where
  "wire_ok sha256 schema source generated_at \<longleftrightarrow>
     no_nel schema \<and> no_nel generated_at \<and> (\<forall>t. no_nel (sha256 t)) \<and> (\<forall>s. source = Some s \<longrightarrow> no_nel s)"

text \<open>A server database whose reference rows can be sent: ids once, cursors that are timestamps.\<close>

definition servable :: "(string \<Rightarrow> string \<Rightarrow> string) \<Rightarrow> db \<Rightarrow> bool" where
  "servable upd d \<longleftrightarrow> distinct (reference_ids d)
     \<and> list_all (\<lambda>r. writable (record_of upd r) \<and> datetime_ok (cursor_of upd r) \<and> record_id r \<noteq> []) (delivery upd d PULL_KINDS)"

lemma delivery_kinds: "r \<in> set (delivery upd d ks) \<Longrightarrow> \<exists>k \<in> set ks. r \<in> set (kind_rows d k)"
  by (auto simp: delivery_def)

lemma reference_payload: "r \<in> set (kind_rows d k) \<Longrightarrow> known_payload (row_payload r)"
  by (auto simp: kind_rows_def known_payload_def split: if_splits)

lemma mset_delivery: "mset (delivery upd d ks) = mset (concat (map (kind_rows d) ks))"
  by (induction ks) (simp_all add: delivery_def)

lemma delivery_ids:
  assumes "distinct (reference_ids d)"
  shows "distinct (map record_id (delivery upd d PULL_KINDS))"
  using assms distinct_map_mset[OF mset_delivery] unfolding reference_ids_def by blast

lemma page_records_ok:
  assumes "servable upd d" and "delivery upd d PULL_KINDS = xs @ page @ ys"
  shows "list_all writable (map (record_of upd) page)"
    "distinct (map (\<lambda>r. (x_kind r, jget ''id'' (x_data r))) (map (record_of upd) page))"
    "rows_of (map (record_of upd) page) = Some page"
proof -
  have "distinct (map record_id (xs @ page @ ys))"
    using assms delivery_ids[of d upd] by (simp add: servable_def)
  then have "distinct (map record_id page)" by simp
  then have "distinct (map (\<lambda>r. (record_kind r, J_str (record_id r))) page)"
    by (simp add: distinct_map inj_on_def)
  then show "distinct (map (\<lambda>r. (x_kind r, jget ''id'' (x_data r))) (map (record_of upd) page))"
    by (simp add: comp_def record_of_keys)
  show "list_all writable (map (record_of upd) page)"
    using assms by (simp add: servable_def list_all_iff)
  have "known_payload (row_payload r)" if "r \<in> set page" for r
  proof -
    have "r \<in> set (delivery upd d PULL_KINDS)" using that assms(2) by simp
    then show ?thesis using delivery_kinds reference_payload by blast
  qed
  then show "rows_of (map (record_of upd) page) = Some page"
    by (intro rows_of_records) (simp add: list_all_iff)
qed

text \<open>The body of a page parses back to the page.\<close>

lemma page_parses:
  assumes "servable upd d" and "wire_ok sha256 schema source generated_at"
    and "delivery upd d PULL_KINDS = xs @ page @ ys" and "length page < DIGIT_LIMIT"
  shows "\<exists>b. parse_exchange (splitlines (stream_text
      (serialize_exchange sha256 (map (record_of upd) page) schema source generated_at))) = Inr b
    \<and> x_records b = map (record_of upd) page"
proof -
  note ok = page_records_ok[OF assms(1,3)]
  have len: "length (map (record_of upd) page) < DIGIT_LIMIT" using assms(4) by simp
  have "list_all (\<lambda>l. l \<noteq> [] \<and> list_all (\<lambda>c. \<not> is_break c) l)
      (serialize_exchange sha256 (map (record_of upd) page) schema source generated_at)"
    using assms(2) by (intro serialized_unbroken[OF ok(1) len]) (auto simp: wire_ok_def)
  then have "splitlines (stream_text (serialize_exchange sha256 (map (record_of upd) page) schema source generated_at))
      = serialize_exchange sha256 (map (record_of upd) page) schema source generated_at"
    unfolding stream_text_def by (rule splitlines_stream)
  then show ?thesis
    using parse_serialized[OF ok(1,2) len, of sha256 schema source generated_at] by auto
qed

text \<open>The server's answer to a request whose page is known.\<close>

lemma pull_server_page:
  assumes "pg_records (collect_reference_records upd d since after_id (Some DEFAULT_PULL_LIMIT)) = page"
    and "since = None \<or> (\<exists>s. since = Some s \<and> datetime_ok s)"
  shows "pull_server upd sha256 schema source generated_at d since after_id =
    Pull_page (stream_text (serialize_exchange sha256 (map (record_of upd) page) schema source generated_at))
      (if page = [] then None else Some (cursor_of upd (last page)))
      (if page = [] then None else Some (record_id (last page)))"
proof -
  have "falsy_none since = since \<and> (case since of None \<Rightarrow> True | Some s \<Rightarrow> datetime_ok s)"
    using assms(2) by (auto simp: falsy_none_def or_none_def or_empty_def datetime_ok_def)
  then show ?thesis
    using page_cursor[OF assms(1)] assms(1)
    by (auto simp: pull_server_def pull_page_reply_def Let_def split: option.splits)
qed

section \<open>The pull loop ends\<close>

lemma apply_response_page:
  assumes "parse_exchange (splitlines body) = Inr b" and "x_records b = map (record_of upd) page"
    and "rows_of (map (record_of upd) page) = Some page"
  shows "\<exists>w1. apply_response body w = (Inr (length page), w1) \<or> apply_response body w = (Inl Other_error, w1)"
  using assms by (auto simp: apply_response_def split: prod.splits option.splits)

lemma page_limit_digits: "500 < DIGIT_LIMIT"
proof -
  have "(500 :: nat) < 10 ^ 3" by simp
  also have "(10 :: nat) ^ 3 \<le> 10 ^ 4300" by (rule power_increasing) simp_all
  finally show ?thesis unfolding DIGIT_LIMIT_def .
qed

lemma pull_all_delivers:
  assumes "servable upd d" and "wire_ok sha256 schema source generated_at"
    and "delivery upd d PULL_KINDS = xs @ ys"
    and "pg_records (collect_reference_records upd d (falsy_none since) (falsy_none after_id) (Some DEFAULT_PULL_LIMIT))
      = take 500 ys"
    and "falsy_none since = None \<or> (\<exists>s. falsy_none since = Some s \<and> datetime_ok s)"
  shows "\<exists>w1. pull_all (pull_server upd sha256 schema source generated_at d) since after_id n w = Some (Inr (n + length ys), w1)
    \<or> pull_all (pull_server upd sha256 schema source generated_at d) since after_id n w = Some (Inl Other_error, w1)"
  using assms(3-5)
proof (induction "length ys" arbitrary: xs ys since after_id n w rule: less_induct)
  case less
  let ?srv = "pull_server upd sha256 schema source generated_at d"
  let ?page = "take 500 ys"
  let ?body = "stream_text (serialize_exchange sha256 (map (record_of upd) ?page) schema source generated_at)"
  have split: "delivery upd d PULL_KINDS = xs @ ?page @ drop 500 ys" using less.prems(1) by simp
  have "length ?page \<le> 500" by simp
  also note page_limit_digits
  finally have small: "length ?page < DIGIT_LIMIT" .
  obtain b where b: "parse_exchange (splitlines ?body) = Inr b" "x_records b = map (record_of upd) ?page"
    using page_parses[OF assms(1,2) split small] by blast
  note answer = pull_server_page[OF less.prems(2,3), of sha256 schema source generated_at]
  obtain w1 where "apply_response ?body w = (Inr (length ?page), w1) \<or> apply_response ?body w = (Inl Other_error, w1)"
    using apply_response_page[OF b page_records_ok(3)[OF assms(1) split]] by blast
  then consider "apply_response ?body w = (Inr (length ?page), w1)" | "apply_response ?body w = (Inl Other_error, w1)"
    by blast
  then show ?case
  proof cases
    case 2
    then show ?thesis by (subst (1 2) pull_all.simps) (simp add: answer)
  next
    case page: 1
    show ?thesis
    proof (cases "length ys < 500")
      case True
      then have "?page = ys" by simp
      with page True show ?thesis
        by (subst (1 2) pull_all.simps) (simp add: answer DEFAULT_PULL_LIMIT_def)
    next
      case False
      then have ne: "?page \<noteq> []" and full: "length ?page = 500" by auto
      let ?r = "last ?page"
      have "delivery upd d PULL_KINDS = (xs @ butlast ?page) @ ?r # drop 500 ys"
        using split append_butlast_last_id[OF ne] by (metis append.assoc append_Cons append_Nil)
      note next_split = this
      have r: "?r \<in> set (delivery upd d PULL_KINDS)" unfolding next_split by simp
      then have ok: "datetime_ok (cursor_of upd ?r)" "record_id ?r \<noteq> []"
        using assms(1) by (auto simp: servable_def list_all_iff)
      then have keep: "falsy_none (Some (cursor_of upd ?r)) = Some (cursor_of upd ?r)"
        "falsy_none (Some (record_id ?r)) = Some (record_id ?r)"
        by (auto simp: falsy_none_def or_none_def or_empty_def datetime_ok_def)
      have step: "pull_all ?srv since after_id n w
          = pull_all ?srv (Some (cursor_of upd ?r)) (Some (record_id ?r)) (n + 500) w1"
        using page ne keep full
        by (subst pull_all.simps) (simp add: answer DEFAULT_PULL_LIMIT_def)
      have ids: "distinct (reference_ids d)" using assms(1) by (simp add: servable_def)
      have "nat (clamp_limit (Some DEFAULT_PULL_LIMIT)) = 500"
        by (simp add: clamp_limit_def DEFAULT_PULL_LIMIT_def MAX_PULL_LIMIT_def)
      then have records: "pg_records (collect_reference_records upd d (falsy_none (Some (cursor_of upd ?r)))
          (falsy_none (Some (record_id ?r))) (Some DEFAULT_PULL_LIMIT)) = take 500 (drop 500 ys)"
        unfolding keep page_after[OF ids next_split] by simp
      have "length (drop 500 ys) < length ys" using False by simp
      from less.hyps[OF this _ records, of "xs @ ?page" "n + 500" w1] split ok keep
      have "\<exists>w2. pull_all ?srv (Some (cursor_of upd ?r)) (Some (record_id ?r)) (n + 500) w1
            = Some (Inr (n + 500 + length (drop 500 ys)), w2)
          \<or> pull_all ?srv (Some (cursor_of upd ?r)) (Some (record_id ?r)) (n + 500) w1 = Some (Inl Other_error, w2)"
        by auto
      moreover have "n + 500 + length (drop 500 ys) = n + length ys" using False by simp
      ultimately show ?thesis unfolding step by simp
    qed
  qed
qed

text \<open>C14: a pull ends: against a server whose rows do not change, the loop over the pages stops after finitely many
  requests, however many rows share one time stamp, and unless the client's own database refuses a
  page, as many records have been applied as the server has reference rows.\<close>

theorem pull_terminates:
  assumes "servable upd d" and "wire_ok sha256 schema source generated_at"
  shows "\<exists>w1. pull_all (pull_server upd sha256 schema source generated_at d) None None 0 w
        = Some (Inr (length (reference_ids d)), w1)
    \<or> pull_all (pull_server upd sha256 schema source generated_at d) None None 0 w = Some (Inl Other_error, w1)"
proof -
  have "nat (clamp_limit (Some DEFAULT_PULL_LIMIT)) = 500"
    by (simp add: clamp_limit_def DEFAULT_PULL_LIMIT_def MAX_PULL_LIMIT_def)
  then have "pg_records (collect_reference_records upd d (falsy_none None) (falsy_none None) (Some DEFAULT_PULL_LIMIT))
      = take 500 (delivery upd d PULL_KINDS)"
    by (simp add: page_first falsy_none_def or_none_def or_empty_def)
  moreover have "length (delivery upd d PULL_KINDS) = length (reference_ids d)"
    using mset_delivery[of upd d PULL_KINDS] unfolding reference_ids_def by (metis length_map size_mset)
  ultimately show ?thesis
    using pull_all_delivers[OF assms, of "[]" "delivery upd d PULL_KINDS" None None 0 w]
    by (simp add: falsy_none_def or_none_def or_empty_def)
qed

section \<open>A sync and the two ledgers\<close>

text \<open>What a pull leaves of the committed state: both ledgers.\<close>

definition ledgers_kept :: "world \<Rightarrow> world \<Rightarrow> bool" where
  "ledgers_kept w w1 \<longleftrightarrow> clean w1 \<and> operations (saved w1) = operations (saved w)
     \<and> cash_movements (saved w1) = cash_movements (saved w)"

lemma pull_stage_ledgers:
  assumes "pull_stage f get put d = Inr d1" and "\<And>t. operations (put t d) = operations d"
    and "\<And>t. cash_movements (put t d) = cash_movements d"
  shows "operations d1 = operations d \<and> cash_movements d1 = cash_movements d"
  using assms by (auto simp: pull_stage_def split: sum.splits)

lemma and_then_Inr: "and_then x f = Inr y \<longleftrightarrow> (\<exists>a. x = Inr a \<and> f a = Inr y)"
  by (cases x) simp_all

lemma pull_tables_ledgers:
  "pull_tables rs d = Inr d1 \<Longrightarrow> operations d1 = operations d \<and> cash_movements d1 = cash_movements d"
  unfolding pull_tables_def and_then_Inr by (elim exE conjE) (drule pull_stage_ledgers; simp)+

lemma apply_pull_page_ledgers:
  assumes "apply_pull_page rs w = (r, w1)"
  shows "ledgers_kept w w1"
proof (cases "pull_tables rs (saved w)")
  case (Inl x)
  then show ?thesis using assms by (auto simp: apply_pull_page_def ledgers_kept_def clean_def)
next
  case (Inr d)
  then show ?thesis
    using assms pull_tables_ledgers[OF Inr]
    by (auto simp: apply_pull_page_def ledgers_kept_def clean_def recompute_derived_def flush_def commit_def
        rollback_def Let_def split: prod.splits if_splits option.splits)
qed

lemma apply_response_ledgers:
  assumes "apply_response body w = (r, w1)" and "clean w"
  shows "ledgers_kept w w1"
proof -
  have "ledgers_kept w w" "ledgers_kept w (rollback w)" using assms(2) by (simp_all add: ledgers_kept_def)
  then show ?thesis using assms(1)
    by (auto simp: apply_response_def split: sum.splits if_splits option.splits prod.splits dest: apply_pull_page_ledgers)
qed

lemma ledgers_kept_trans: "ledgers_kept w w1 \<Longrightarrow> ledgers_kept w1 w2 \<Longrightarrow> ledgers_kept w w2"
  by (simp add: ledgers_kept_def)

lemma pull_all_ledgers:
  assumes "pull_all server since after_id n w = Some (r, w1)" and "clean w"
  shows "ledgers_kept w w1"
proof -
  have "clean w \<longrightarrow> ledgers_kept w (snd (r, w1))"
  proof (rule pull_all.raw_induct[where P = "\<lambda>server since after_id n w y. clean w \<longrightarrow> ledgers_kept w (snd y)", OF _ assms(1)])
    fix pull srv s a m w y
    assume IH: "\<And>srv s a m w y. pull srv s a m w = Some y \<Longrightarrow> clean w \<longrightarrow> ledgers_kept w (snd y)"
      and body: "(case srv (falsy_none s) (falsy_none a) of Pull_failed \<Rightarrow> Some (Inl Http_error, w)
      | Pull_page body next_since next_after_id \<Rightarrow>
          (case apply_response body w of
             (Inl x, w1) \<Rightarrow> Some (Inl x, w1)
           | (Inr n, w1) \<Rightarrow>
               if int n < DEFAULT_PULL_LIMIT \<or> falsy_none next_since = None then Some (Inr (m + n), w1)
               else pull srv next_since next_after_id (m + n) w1)) = Some y"
    show "clean w \<longrightarrow> ledgers_kept w (snd y)"
    proof
      assume cl: "clean w"
      show "ledgers_kept w (snd y)"
      proof (cases "srv (falsy_none s) (falsy_none a)")
        case Pull_failed
        then show ?thesis using body cl by (auto simp: ledgers_kept_def)
      next
        case (Pull_page body ns na)
        obtain q w2 where q: "apply_response body w = (q, w2)" by force
        note kept = apply_response_ledgers[OF q cl]
        show ?thesis
        proof (cases q)
          case (Inl x)
          then show ?thesis using body Pull_page q kept by auto
        next
          case (Inr k)
          show ?thesis
          proof (cases "int k < DEFAULT_PULL_LIMIT \<or> falsy_none ns = None")
            case True
            then show ?thesis using body Pull_page q kept Inr by auto
          next
            case False
            then have "pull srv ns na (m + k) w2 = Some y" using body Pull_page q Inr by auto
            from IH[OF this] kept have "ledgers_kept w2 (snd y)" by (simp add: ledgers_kept_def)
            with kept show ?thesis by (rule ledgers_kept_trans)
          qed
        qed
      qed
    qed
  qed
  with assms(2) show ?thesis by simp
qed

section \<open>A stamped row is on the server\<close>

definition push_to ::
  "env \<Rightarrow> (string \<Rightarrow> string) \<Rightarrow> string \<Rightarrow> rat \<Rightarrow> buckets \<Rightarrow> string option \<Rightarrow> (string \<Rightarrow> nat) \<Rightarrow> db \<Rightarrow> string
     \<Rightarrow> sync_reply \<times> buckets \<times> world" where
  "push_to e sha256 schema now bs credentials bytes d body =
     sync_push e sha256 schema now \<lparr>pr_credentials = credentials, pr_content_length = None, pr_size = bytes body,
       pr_text = Some body\<rparr> bs (open_session d)"

text \<open>The status of a reply, as \<open>raise_for_status\<close> sees it.\<close>

fun push_status :: "sync_reply \<Rightarrow> push_response" where
  "push_status Unauthorized = Push_http_error 401"
| "push_status Too_many_requests = Push_http_error 429"
| "push_status Payload_too_large = Push_http_error 413"
| "push_status Malformed_batch = Push_http_error 400"
| "push_status (Schema_ahead c s) = Push_http_error 409"
| "push_status (Merge_report rep) = Push_accepted"
| "push_status Invalid_cursor = Push_http_error 400"
| "push_status (Page_stream b s a) = Push_accepted"
| "push_status (Unhandled x) = Push_http_error 500"

lemma push_accepted_report:
  assumes "push_status (fst (sync_push e sha256 schema now r bs w)) = Push_accepted"
  obtains rep where "fst (sync_push e sha256 schema now r bs w) = Merge_report rep"
proof -
  have "fst (sync_push e sha256 schema now r bs w) \<noteq> Page_stream b s a" for b s a
    by (auto simp: sync_push_def split_beta Let_def split: device_gate.split option.split sum.split)
  then show ?thesis using assms that by (cases "fst (sync_push e sha256 schema now r bs w)") auto
qed

text \<open>Rows that a body can carry.\<close>

definition sendable :: "(string \<Rightarrow> string \<Rightarrow> string) \<Rightarrow> record_row list \<Rightarrow> bool" where
  "sendable upd rs \<longleftrightarrow> list_all (\<lambda>r. writable (record_of upd r) \<and> known_payload (row_payload r)) rs
     \<and> distinct (map (\<lambda>r. (record_kind r, record_id r)) rs) \<and> length rs < DIGIT_LIMIT"

lemma push_body_parses:
  assumes "sendable (updated_at_of s) rs" and "wire_ok (sha256_of s) (client_schema s) (source_device s) t"
  shows "\<exists>b. parse_exchange (splitlines (push_body s rs t)) = Inr b \<and> x_records b = map (record_of (updated_at_of s)) rs"
    "rows_of (map (record_of (updated_at_of s)) rs) = Some rs"
proof -
  let ?rs = "map (record_of (updated_at_of s)) rs"
  have w: "list_all writable ?rs" using assms(1) by (simp add: sendable_def list_all_iff)
  have len: "length ?rs < DIGIT_LIMIT" using assms(1) by (simp add: sendable_def)
  have "distinct (map (\<lambda>r. (record_kind r, J_str (record_id r))) rs)"
    using assms(1) by (auto simp: sendable_def distinct_map inj_on_def)
  then have d: "distinct (map (\<lambda>r. (x_kind r, jget ''id'' (x_data r))) ?rs)"
    by (simp add: comp_def record_of_keys)
  have "list_all (\<lambda>l. l \<noteq> [] \<and> list_all (\<lambda>c. \<not> is_break c) l)
      (serialize_exchange (sha256_of s) ?rs (client_schema s) (source_device s) t)"
    using assms(2) by (intro serialized_unbroken[OF w len]) (auto simp: wire_ok_def)
  then show "\<exists>b. parse_exchange (splitlines (push_body s rs t)) = Inr b \<and> x_records b = ?rs"
    unfolding push_body_def
    using parse_serialized[OF w d len, of "sha256_of s" "client_schema s" "source_device s" t]
    by (auto simp: splitlines_join)
  show "rows_of ?rs = Some rs"
    using assms(1) by (intro rows_of_records) (simp add: sendable_def list_all_iff)
qed

lemma merge_ledger_tables:
  "operations (merge_result rs d) = operations d @ new_in o_id (operations d) (operation_rows rs)"
  "cash_movements (merge_result rs d) = cash_movements d @ new_in m_id (cash_movements d) (cash_rows rs)"
  by (simp_all add: merge_result_def)

lemma push_stored:
  assumes "sendable (updated_at_of s) rs" and "wire_ok (sha256_of s) (client_schema s) (source_device s) t"
    and "push_to e sha256 schema now bs cred bytes d (push_body s rs t) = (Merge_report rep, bs1, w1)"
  shows "\<And>o1. R_operation o1 \<in> set rs \<Longrightarrow> o_synced_at o1 = None
      \<Longrightarrow> o_id o1 \<in> o_id ` set (operations d) \<or> o1 \<in> set (operations (saved w1))"
    "\<And>m. R_cash m \<in> set rs \<Longrightarrow> m_synced_at m = None
      \<Longrightarrow> m_id m \<in> m_id ` set (cash_movements d) \<or> m \<in> set (cash_movements (saved w1))"
proof -
  obtain w0 where w0: "but_tokens (saved w0) = but_tokens d" "merge_transaction rs w0 = (Inr rep, w1)"
    using assms(3) unfolding push_to_def
  proof (rule sync_push_Report)
    fix p tk body b rs' w0
    assume a: "pr_text \<lparr>pr_credentials = cred, pr_content_length = None, pr_size = bytes (push_body s rs t),
        pr_text = Some (push_body s rs t)\<rparr> = Some body" "parse_exchange (splitlines body) = Inr b"
      "rows_of (x_records b) = Some rs'" "but_tokens (saved w0) = but_tokens d" "merge_transaction rs' w0 = (Inr rep, w1)"
    then have "rs' = rs" using push_body_parses[OF assms(1,2)] by auto
    with a(4,5) that show ?thesis by blast
  qed
  have tables: "operations (saved w0) = operations d" "cash_movements (saved w0) = cash_movements d"
    using arg_cong[OF w0(1), of operations] arg_cong[OF w0(1), of cash_movements] by (simp_all add: but_tokens_def)
  have saved: "saved w1 = merge_result rs (saved w0)" using w0(2) by (simp add: merge_transaction_Inr)
  show "o_id o1 \<in> o_id ` set (operations d) \<or> o1 \<in> set (operations (saved w1))"
    if "R_operation o1 \<in> set rs" "o_synced_at o1 = None" for o1
  proof -
    have "R_operation o1 \<in> ledger_row ` set rs" using that by (force intro: rev_image_eqI)
    then have "o1 \<in> set (operation_rows rs)" by (simp add: set_operation_rows)
    then show ?thesis by (auto simp: saved merge_ledger_tables tables new_in_def thas_iff)
  qed
  show "m_id m \<in> m_id ` set (cash_movements d) \<or> m \<in> set (cash_movements (saved w1))"
    if "R_cash m \<in> set rs" "m_synced_at m = None" for m
  proof -
    have "R_cash m \<in> ledger_row ` set rs" using that by (force intro: rev_image_eqI)
    then have "m \<in> set (cash_rows rs)" by (simp add: set_cash_rows)
    then show ?thesis by (auto simp: saved merge_ledger_tables tables new_in_def thas_iff)
  qed
qed

lemma stamp_synced_rows:
  assumes "op_ids = map o_id (unsynced_ops d)" and "cash_ids = map m_id (unsynced_cash d)"
  shows "unsynced_count (stamp_synced stamp op_ids cash_ids d) = 0"
    "map op_norm (operations (stamp_synced stamp op_ids cash_ids d)) = map op_norm (operations d)"
    "map cash_norm (cash_movements (stamp_synced stamp op_ids cash_ids d)) = map cash_norm (cash_movements d)"
  by (auto simp: unsynced_count_def stamp_synced_def assms unsynced_ops_def unsynced_cash_def filter_empty_conv
      op_norm_def cash_norm_def)

lemma unsynced_ledgers:
  "operations a = operations b \<Longrightarrow> cash_movements a = cash_movements b \<Longrightarrow> unsynced_count a = unsynced_count b"
  by (simp add: unsynced_count_def)

text \<open>One run, by the answer to the push.\<close>

lemma run_sync_accepted:
  assumes "run_sync_once e s push server w = Some (res, w1)" and "clean w"
    and "collect_push_records (cur w) = (rs, op_ids, cash_ids)"
    and "sync_server_url s \<noteq> []" and "sync_token s \<noteq> []"
    and "push (push_body s rs (utcnow e (ticks w))) = Push_accepted"
  shows "sr_status res \<in> {''ok'', ''partial''} \<and> sr_pushed res = length op_ids + length cash_ids \<and> clean w1
    \<and> (\<exists>stamp. operations (saved w1) = operations (stamp_synced stamp op_ids cash_ids (saved w))
          \<and> cash_movements (saved w1) = cash_movements (stamp_synced stamp op_ids cash_ids (saved w)))"
proof -
  let ?stamp = "utcnow e (Suc (ticks w))"
  let ?d = "stamp_synced ?stamp op_ids cash_ids (saved w)"
  let ?w3 = "w\<lparr>ticks := Suc (Suc (ticks w)), cur := ?d, saved := ?d\<rparr>"
  have w: "cur w = saved w" "\<not> bad w" using assms(2) by (simp_all add: clean_def)
  have "clean ?w3" using w by (simp add: clean_def)
  have run: "run_sync_once e s push server w = (case pull_all server None None 0 ?w3 of
        None \<Rightarrow> None
      | Some (Inl Http_error, w4) \<Rightarrow> Some (\<lparr>sr_status = ''partial'', sr_pushed = length op_ids + length cash_ids,
          sr_pushed_total = length op_ids + length cash_ids, sr_pulled = 0\<rparr>, w4)
      | Some (Inl Other_error, w4) \<Rightarrow> Some (\<lparr>sr_status = ''partial'', sr_pushed = length op_ids + length cash_ids,
          sr_pushed_total = length op_ids + length cash_ids, sr_pulled = 0\<rparr>, rollback w4)
      | Some (Inr pulled, w4) \<Rightarrow> Some (\<lparr>sr_status = ''ok'', sr_pushed = length op_ids + length cash_ids,
          sr_pushed_total = length op_ids + length cash_ids, sr_pulled = pulled\<rparr>, w4))"
    using assms(3-6) w by (simp add: run_sync_once_def utcnow_iso_def commit_def Let_def)
  then obtain r w4 where pull: "pull_all server None None 0 ?w3 = Some (r, w4)"
    using assms(1) by (auto split: option.splits)
  from pull_all_ledgers[OF this \<open>clean ?w3\<close>] have kept: "ledgers_kept ?w3 w4" .
  then have "sr_status res \<in> {''ok'', ''partial''} \<and> sr_pushed res = length op_ids + length cash_ids
      \<and> (w1 = w4 \<or> w1 = rollback w4)"
    using assms(1) unfolding run by (auto simp: pull split: sum.splits pull_error.splits)
  with kept show ?thesis by (auto simp: ledgers_kept_def)
qed

lemma run_sync_refused:
  assumes "run_sync_once e s push server w = Some (res, w1)" and "clean w"
    and "sync_server_url s = [] \<or> sync_token s = [] \<or>
      push (push_body s (fst (collect_push_records (cur w))) (utcnow e (ticks w))) \<noteq> Push_accepted"
  shows "sr_status res \<notin> {''ok'', ''partial''} \<and> saved w1 = saved w"
  using assms
  by (auto simp: run_sync_once_def utcnow_iso_def just_def Let_def split_beta
      split: if_splits push_response.splits)

lemma collect_ledger:
  assumes "collect_push_records d = (rs, op_ids, cash_ids)"
  shows "op_ids = map o_id (unsynced_ops d)" "cash_ids = map m_id (unsynced_cash d)"
    "o1 \<in> set (unsynced_ops d) \<Longrightarrow> R_operation o1 \<in> set rs" "m \<in> set (unsynced_cash d) \<Longrightarrow> R_cash m \<in> set rs"
  using assms by (auto simp: collect_push_records_def Let_def)

text \<open>C3: nothing is marked as synced that the server does not have: run against the real push handler, a sync
  either reports success, and then every ledger row that had no stamp is on the server (row for
  row, unless the server already had one with its id), no unsynced row is left and the ledgers have
  changed in nothing but the stamp; or it reports no success and the client's database is as it
  was.\<close>

theorem synced_is_stored:
  assumes run: "run_sync_once e s (\<lambda>body. push_status (fst (push_to se sha256 schema now bs cred bytes ds body))) server w
      = Some (res, w1)"
    and "clean w" and "sendable (updated_at_of s) (fst (collect_push_records (saved w)))"
    and "wire_ok (sha256_of s) (client_schema s) (source_device s) (utcnow e (ticks w))"
  defines "ds' \<equiv> saved (snd (snd (push_to se sha256 schema now bs cred bytes ds
      (push_body s (fst (collect_push_records (saved w))) (utcnow e (ticks w))))))"
  shows "(sr_status res \<in> {''ok'', ''partial''}
      \<and> sr_pushed res = unsynced_count (saved w) \<and> unsynced_count (saved w1) = 0
      \<and> map op_norm (operations (saved w1)) = map op_norm (operations (saved w))
      \<and> map cash_norm (cash_movements (saved w1)) = map cash_norm (cash_movements (saved w))
      \<and> (\<forall>o1 \<in> set (operations (saved w)). o_synced_at o1 = None \<longrightarrow>
           o_id o1 \<in> o_id ` set (operations ds) \<or> o1 \<in> set (operations ds'))
      \<and> (\<forall>m \<in> set (cash_movements (saved w)). m_synced_at m = None \<longrightarrow>
           m_id m \<in> m_id ` set (cash_movements ds) \<or> m \<in> set (cash_movements ds')))
    \<or> (sr_status res \<notin> {''ok'', ''partial''} \<and> saved w1 = saved w)"
proof (cases "sync_server_url s \<noteq> [] \<and> sync_token s \<noteq> [] \<and>
      push_status (fst (push_to se sha256 schema now bs cred bytes ds
        (push_body s (fst (collect_push_records (saved w))) (utcnow e (ticks w))))) = Push_accepted")
  case False
  have "cur w = saved w" using assms(2) by (simp add: clean_def)
  then show ?thesis using False run_sync_refused[OF run assms(2)] by auto
next
  case True
  obtain rs op_ids cash_ids where rs: "collect_push_records (saved w) = (rs, op_ids, cash_ids)"
    by (metis surj_pair)
  have cur: "cur w = saved w" using assms(2) by (simp add: clean_def)
  let ?body = "push_body s rs (utcnow e (ticks w))"
  have ok: "push_status (fst (push_to se sha256 schema now bs cred bytes ds ?body)) = Push_accepted"
    using True rs by simp
  then obtain rep where "fst (push_to se sha256 schema now bs cred bytes ds ?body) = Merge_report rep"
    unfolding push_to_def by (rule push_accepted_report)
  then obtain bs1 wS where wS: "push_to se sha256 schema now bs cred bytes ds ?body = (Merge_report rep, bs1, wS)"
    by (metis prod.collapse)
  have ds': "ds' = saved wS" by (simp add: ds'_def rs wS)
  have send: "sendable (updated_at_of s) rs" using assms(3) rs by simp
  note stored = push_stored[OF send assms(4) wS, folded ds']
  note ids = collect_ledger[OF rs]
  from run_sync_accepted[OF run assms(2), unfolded cur, OF rs] True ok
  obtain stamp where st: "sr_status res \<in> {''ok'', ''partial''}" "sr_pushed res = length op_ids + length cash_ids"
    "operations (saved w1) = operations (stamp_synced stamp op_ids cash_ids (saved w))"
    "cash_movements (saved w1) = cash_movements (stamp_synced stamp op_ids cash_ids (saved w))" by auto
  note rows = stamp_synced_rows[OF ids(1,2), of stamp]
  have "sr_pushed res = unsynced_count (saved w)"
    by (simp add: st ids(1,2) unsynced_count_def unsynced_ops_def unsynced_cash_def)
  moreover have "unsynced_count (saved w1) = 0" using unsynced_ledgers[OF st(3,4)] rows(1) by simp
  moreover have "\<forall>o1 \<in> set (operations (saved w)). o_synced_at o1 = None \<longrightarrow>
       o_id o1 \<in> o_id ` set (operations ds) \<or> o1 \<in> set (operations ds')"
    using stored(1) ids(3) by (simp add: unsynced_ops_def)
  moreover have "\<forall>m \<in> set (cash_movements (saved w)). m_synced_at m = None \<longrightarrow>
       m_id m \<in> m_id ` set (cash_movements ds) \<or> m \<in> set (cash_movements ds')"
    using stored(2) ids(4) by (simp add: unsynced_cash_def)
  ultimately show ?thesis using st(1) rows(2,3) unfolding st(3,4) by blast
qed

end
