(* ===== verification/Network.thy ===== *)
theory Network
  imports SyncProps
begin

text \<open>
  One database among many: besides its own requests it takes part in syncs, as a server that merges
  what is pushed to it, or as a device that stamps its rows and applies pulled pages. A run is any
  sequence of these, in any order, with any clock, ids and page contents. What every such run keeps
  is weaker than what a single shop's run keeps (a merged row may name a batch that is missing):
  \<open>books_ok\<close>.
\<close>

section \<open>The books under the services\<close>

definition stock_books :: "db \<Rightarrow> bool" where
  "stock_books d \<longleftrightarrow> distinct (map p_id (products d)) \<and> distinct (map o_id (operations d))
     \<and> (\<forall>o1 \<in> set (operations d). o_product_id o1 \<in> p_id ` set (products d)) \<and> stock_cached d"

lemma books_split: "books_ok d \<longleftrightarrow> stock_books d \<and> ledgers_numbered d \<and> codes_ok d"
  by (auto simp: books_ok_def stock_books_def)

lemma stock_books_edit:
  assumes "stock_books d" and "operations d' = operations d" and "products d' = map f (products d)"
    and "\<And>p. p_id (f p) = p_id p \<and> p_quantity (f p) = p_quantity p"
  shows "stock_books d'"
  using assms by (auto simp: stock_books_def stock_cached_def compute_stock_def comp_def image_image)

lemma stock_books_append:
  assumes "stock_books d" and "op_admitted e d o1"
  shows "stock_books (append_op o1 d)"
proof -
  have "\<not> thas o_id (o_id o1) (operations d)" using assms(2) by (simp add: op_admitted_def)
  moreover have "o_product_id o1 \<in> p_id ` set (products d)"
    using op_admitted_refs[OF assms(2)] by (simp add: op_refs_ok_def)
  ultimately show ?thesis using assms(1)
    by (auto simp: stock_books_def stock_cached_def append_tables thas_iff comp_def image_image sum_simps)
qed

lemma stock_books_product:
  assumes "stock_books d" and "product_admitted d p"
  shows "stock_books (add_product_row p d)"
proof -
  have new: "p_id p \<notin> p_id ` set (products d)" "p_quantity p = 0"
    using assms(2) by (simp_all add: product_admitted_def thas_iff)
  have "o_product_id o1 \<noteq> p_id p" if "o1 \<in> set (operations d)" for o1
    using assms(1) new(1) that unfolding stock_books_def by metis
  then have "compute_stock d (p_id p) = 0" unfolding compute_stock_def
    by (intro sum_where_zero) simp
  then show ?thesis using assms(1) new
    by (auto simp: stock_books_def stock_cached_def)
qed

interpretation books: write_path e stock_books for e
proof
  fix d k f assume "stock_books d" "card_admitted d k f"
  then show "stock_books (upd_product k f d)"
    by (elim stock_books_edit[where f = "\<lambda>p. if p_id p = k then f p else p"]) (auto simp: tupd_map card_admitted_def)
next
  fix d b assume "stock_books d"
  then show "stock_books (add_batch_row b d)" by (elim stock_books_edit[where f = "\<lambda>p. p"]) auto
next
  fix d k g assume "stock_books d"
  then show "stock_books (upd_batch k g d)" by (elim stock_books_edit[where f = "\<lambda>p. p"]) auto
next
  fix d whs assume "stock_books d"
  then show "stock_books (d\<lparr>warehouses := whs\<rparr>)" by (elim stock_books_edit[where f = "\<lambda>p. p"]) auto
next
  fix d s assume "stock_books d"
  then show "stock_books (add_sale_row s d)" by (elim stock_books_edit[where f = "\<lambda>p. p"]) auto
next
  fix d m assume "stock_books d"
  then show "stock_books (add_cash_row m d)" by (elim stock_books_edit[where f = "\<lambda>p. p"]) auto
qed (fact stock_books_append stock_books_product)+

lemma books_served: "books_ok d \<Longrightarrow> books_ok (serve e r d)"
  by (simp add: books_split books.serve_keeps seqs.serve_keeps codes.serve_keeps)

section \<open>The books under a pull\<close>

lemma update_rows_Inr:
  assumes "update_rows key ixs fk keep rs tbl = Inr t" and "\<And>r old. key (keep r old) = key old"
  shows "map key t = map key tbl \<and>
    ((\<forall>ix \<in> set ixs. distinct (entries ix tbl)) \<longrightarrow> (\<forall>ix \<in> set ixs. distinct (entries ix t)))"
  using assms(1)
proof (induction rs arbitrary: tbl)
  case Nil
  then show ?case by simp
next
  case (Cons r rs)
  let ?t = "tupd key (key r) (keep r) tbl"
  have "map key ?t = map key tbl" by (rule map_key_tupd) (rule assms(2))
  moreover have "\<forall>ix \<in> set ixs. distinct (entries ix ?t)" "update_rows key ixs fk keep rs ?t = Inr t"
    using Cons.prems by (auto simp: Let_def list_all_iff split: if_splits)
  ultimately show ?case using Cons.IH[of ?t] by simp
qed

lemma pull_kind_Inr:
  assumes "pull_kind key ixs fk keep rows tbl = Inr t" and "\<And>r old. key (keep r old) = key old"
  shows "key ` set tbl \<subseteq> key ` set t"
    and "(\<forall>ix \<in> set ixs. distinct (entries ix tbl)) \<longrightarrow> (\<forall>ix \<in> set ixs. distinct (entries ix t))"
proof -
  let ?fresh = "fst (partition_new key rows tbl)"
  obtain t0 where t0: "insert_rows ixs fk ?fresh tbl = Inr t0"
    "update_rows key ixs fk keep (filter (\<lambda>r. key r \<notin> set (map key ?fresh)) rows) t0 = Inr t"
    using assms(1) by (auto simp: pull_kind_def Let_def split: sum.splits)
  have ins: "insertable ixs fk ?fresh tbl" "t0 = tbl @ ?fresh" using t0(1) by (simp_all add: insert_rows_Inr)
  have upd: "map key t = map key t0 \<and>
      ((\<forall>ix \<in> set ixs. distinct (entries ix t0)) \<longrightarrow> (\<forall>ix \<in> set ixs. distinct (entries ix t)))"
    by (rule update_rows_Inr[OF t0(2)]) (rule assms(2))
  have "key ` set t = key ` set t0" using upd by (metis set_map)
  then show "key ` set tbl \<subseteq> key ` set t" using ins(2) by auto
  show "(\<forall>ix \<in> set ixs. distinct (entries ix tbl)) \<longrightarrow> (\<forall>ix \<in> set ixs. distinct (entries ix t))"
    using upd insertable_distinct[OF ins(1)] unfolding ins(2) by blast
qed

lemma pull_stage_Inr: "pull_stage f get put d = Inr d1 \<longleftrightarrow> (\<exists>t. f (get d) = Inr t \<and> d1 = put t d)"
  by (auto simp: pull_stage_def split: sum.splits)

lemma pull_tables_products:
  assumes "pull_tables rs d = Inr d1"
  shows "pull_kind p_id [pk p_id, active_code_index] (\<lambda>_. True) keep_product (product_rows rs) (products d) = Inr (products d1)"
  using assms unfolding pull_tables_def and_then_Inr pull_stage_Inr by auto

lemma books_pulled:
  assumes "books_ok d" and "pull_tables rs d = Inr d1"
  shows "books_ok (repair_caches d1)"
proof -
  note stage = pull_tables_products[OF assms(2)]
  have keys: "p_id ` set (products d) \<subseteq> p_id ` set (products d1)"
    by (rule pull_kind_Inr(1)[OF stage]) (simp add: keep_product_def)
  have ixs: "(\<forall>ix \<in> set [pk p_id, active_code_index]. distinct (entries ix (products d)))
      \<longrightarrow> (\<forall>ix \<in> set [pk p_id, active_code_index]. distinct (entries ix (products d1)))"
    by (rule pull_kind_Inr(2)[OF stage]) (simp add: keep_product_def)
  note led = pull_tables_ledgers[OF assms(2)]
  have "distinct (entries (pk p_id) (products d))" "distinct (entries active_code_index (products d))"
    using assms(1) unfolding books_ok_def codes_ok_def entries_pk entries_active_code by simp_all
  then have "distinct (entries (pk p_id) (products d1))" "distinct (entries active_code_index (products d1))"
    using ixs by simp_all
  then have "distinct (map p_id (products d1))" "distinct (active_codes (products d1))"
    unfolding entries_pk entries_active_code by simp_all
  moreover have "\<forall>o1 \<in> set (operations d1). o_product_id o1 \<in> p_id ` set (products d1)"
    using assms(1) keys led by (auto simp: books_ok_def)
  ultimately show ?thesis
    using assms(1) led repair_cached(1)[of d1]
    by (simp only: books_ok_def repair_keys repair_frame codes_ok_def active_codes_repair ledgers_numbered_def simp_thms)
qed

lemma apply_pull_page_saved:
  "saved (snd (apply_pull_page rs w)) = saved w \<or>
    (\<exists>d1. pull_tables rs (saved w) = Inr d1 \<and> saved (snd (apply_pull_page rs w)) = repair_caches d1)"
  by (auto simp: apply_pull_page_def recompute_derived_def flush_def commit_def Let_def
      split: sum.split option.split prod.split)

section \<open>Runs with syncs\<close>

inductive net_step :: "db \<Rightarrow> db \<Rightarrow> bool" where
  local: "step d d' \<Longrightarrow> net_step d d'"
| merged_in: "net_step d (saved (snd (merge_transaction rs (open_session d))))"
| pulled_in: "net_step d (saved (snd (apply_pull_page rs (open_session d))))"
| stamped: "net_step d (stamp_synced stamp op_ids cash_ids d)"

inductive net_reachable :: "db \<Rightarrow> bool" where
  init: "fresh_db d \<Longrightarrow> net_reachable d"
| more: "net_reachable d \<Longrightarrow> net_step d d' \<Longrightarrow> net_reachable d'"

inductive_cases net_stepE: "net_step d d'"

lemma books_fresh: "fresh_db d \<Longrightarrow> books_ok d"
  using fresh_db_laws[of d] by (simp add: books_ok_def fresh_db_def stock_cached_def)

lemma books_elsewhere: "same_stock d d' \<Longrightarrow> books_ok d \<Longrightarrow> books_ok d'"
  using same_stock_laws(2,3)[of d d']
  by (auto simp: books_split same_stock_def intro: stock_books_edit[where f = "\<lambda>p. p"])

lemma books_stamped: "books_ok d \<Longrightarrow> books_ok (stamp_synced stamp op_ids cash_ids d)"
proof -
  let ?f = "\<lambda>o1. if o_id o1 \<in> set op_ids then o1\<lparr>o_synced_at := Some stamp\<rparr> else o1"
  have f: "map o_id (map ?f os) = map o_id os" "map o_product_id (map ?f os) = map o_product_id os"
    "map (\<lambda>o1. (o_device_id o1, o_seq o1)) (map ?f os) = map (\<lambda>o1. (o_device_id o1, o_seq o1)) os"
    "sum_where (\<lambda>o1. o_product_id o1 = pid) o_qty_delta (map ?f os) = sum_where (\<lambda>o1. o_product_id o1 = pid) o_qty_delta os"
    for os pid
    by (induction os) (auto simp: sum_simps)
  have g: "map (\<lambda>m. (m_device_id m, m_seq m)) (map (\<lambda>m. if m_id m \<in> set cash_ids then m\<lparr>m_synced_at := Some stamp\<rparr> else m) ms)
      = map (\<lambda>m. (m_device_id m, m_seq m)) ms" for ms
    by (induction ms) auto
  have parents: "(\<forall>o1 \<in> set (map ?f os). o_product_id o1 \<in> S) \<longleftrightarrow> (\<forall>o1 \<in> set os. o_product_id o1 \<in> S)" for os S
    by (induction os) auto
  have tables: "products (stamp_synced stamp op_ids cash_ids d) = products d"
    "operations (stamp_synced stamp op_ids cash_ids d) = map ?f (operations d)"
    "cash_movements (stamp_synced stamp op_ids cash_ids d)
      = map (\<lambda>m. if m_id m \<in> set cash_ids then m\<lparr>m_synced_at := Some stamp\<rparr> else m) (cash_movements d)"
    by (simp_all add: stamp_synced_def)
  show "books_ok d \<Longrightarrow> books_ok (stamp_synced stamp op_ids cash_ids d)"
    unfolding books_ok_def stock_cached_def compute_stock_def ledgers_numbered_def numbered_def codes_ok_def
      tables f(1,3,4) g parents .
qed

lemma books_net_step:
  assumes "net_step d d'" and "books_ok d"
  shows "books_ok d'"
  using assms(1)
proof (cases rule: net_step.cases)
  case local
  from this show ?thesis using assms(2) by (auto elim!: stepE intro: books_served books_elsewhere)
next
  case (merged_in rs)
  then show ?thesis using assms(2)
    by (simp add: merge_transaction_eq open_session_def merge_ok_def books_merged)
next
  case (pulled_in rs)
  then show ?thesis using assms(2) apply_pull_page_saved[of rs "open_session d"] books_pulled
    by (auto simp: open_session_def)
next
  case (stamped stamp op_ids cash_ids)
  then show ?thesis using assms(2) books_stamped by simp
qed

text \<open>C5: the books of every device stay honest, whatever is synced: in every state that a database reaches by its
  own requests, by merging pushed batches, by applying pulled pages and by stamping its rows, in
  any order and with any contents, every product's quantity is the sum of its ledger rows, every
  row has its product, no device reuses a sequence number in either ledger and no two active cards
  share a code.\<close>

theorem network_books:
  assumes "net_reachable d"
  shows "(\<forall>p \<in> set (products d). p_quantity p = compute_stock d (p_id p))
    \<and> (\<forall>o1 \<in> set (operations d). \<exists>p \<in> set (products d). p_id p = o_product_id o1)
    \<and> distinct (map (\<lambda>o1. (o_device_id o1, o_seq o1)) (operations d))
    \<and> distinct (map (\<lambda>m. (m_device_id m, m_seq m)) (cash_movements d))
    \<and> distinct (map o_id (operations d)) \<and> distinct (active_codes (products d))"
proof -
  have "books_ok d" using assms by (induction rule: net_reachable.induct) (auto intro: books_fresh books_net_step)
  then show ?thesis
    by (fastforce simp: books_ok_def stock_cached_def ledgers_numbered_def numbered_def codes_ok_def)
qed

section \<open>History across syncs\<close>

lemma stamp_synced_norm:
  "map op_norm (operations (stamp_synced stamp op_ids cash_ids d)) = map op_norm (operations d)"
  "map cash_norm (cash_movements (stamp_synced stamp op_ids cash_ids d)) = map cash_norm (cash_movements d)"
  by (auto simp: stamp_synced_def op_norm_def cash_norm_def)

lemma history_net_step:
  assumes "net_step d d'"
  shows "prefix (map op_norm (operations d)) (map op_norm (operations d'))
    \<and> prefix (map cash_norm (cash_movements d)) (map cash_norm (cash_movements d'))"
  using assms
proof (cases rule: net_step.cases)
  case local
  with step_laws(5)[OF local] show ?thesis by (auto simp: extends_def prefix_def)
next
  case (merged_in rs)
  then show ?thesis by (auto simp: merge_transaction_eq open_session_def merge_ledger_tables)
next
  case (pulled_in rs)
  obtain r w1 where p: "apply_pull_page rs (open_session d) = (r, w1)" by force
  with pulled_in apply_pull_page_ledgers[OF p] show ?thesis by (simp add: ledgers_kept_def open_session_def)
next
  case (stamped stamp op_ids cash_ids)
  then show ?thesis by (simp add: stamp_synced_norm)
qed

text \<open>History is append-only across syncs: whatever a database goes through from some state on, its requests,
  merges, pulls and stamps, the rows it had stay in both ledgers, in place and unchanged but for
  the sync stamp.\<close>

theorem network_history:
  assumes "net_step\<^sup>*\<^sup>* d d'"
  shows "\<exists>ops cash. map op_norm (operations d') = map op_norm (operations d) @ ops
    \<and> map cash_norm (cash_movements d') = map cash_norm (cash_movements d) @ cash"
proof -
  have "prefix (map op_norm (operations d)) (map op_norm (operations d'))
    \<and> prefix (map cash_norm (cash_movements d)) (map cash_norm (cash_movements d'))"
    using assms
  proof (induction rule: rtranclp_induct)
    case base
    show ?case by simp
  next
    case (step y z)
    note z = history_net_step[OF step(2)]
    show ?case
      using prefix_order.trans[OF conjunct1[OF step(3)] conjunct1[OF z]]
        prefix_order.trans[OF conjunct2[OF step(3)] conjunct2[OF z]] by (rule conjI)
  qed
  then show ?thesis by (simp add: prefix_def)
qed

end
