(* ===== verification/Collisions.thy ===== *)
theory Collisions
  imports Convergence
begin

text \<open>
  The renaming of product codes that collide across devices. A renamed code always fits the
  column; and as long as the marker \<open>~\<close> plus the first eight hex digits of a new card's id ends no
  code in use and no two new cards share it, every new card goes in.
\<close>

section \<open>The renamed code\<close>

definition hex_of :: "string \<Rightarrow> string" where
  "hex_of i = filter (\<lambda>c. c \<noteq> CHR ''-'') i"

lemma suffix_candidate_length: "n < CODE_MAX_LEN \<Longrightarrow> length (suffix_candidate code h n) \<le> CODE_MAX_LEN"
  by (simp add: suffix_candidate_def CODE_COLLISION_MARKER_def Let_def)

lemma suffix_loop_length:
  "stop < CODE_MAX_LEN \<Longrightarrow> length candidate \<le> CODE_MAX_LEN \<Longrightarrow>
     length (suffix_loop code h taken n stop candidate) \<le> CODE_MAX_LEN"
proof (induction code h taken n stop candidate rule: suffix_loop.induct)
  case (1 code h taken n stop candidate)
  then show ?case
    by (subst suffix_loop.simps) (auto simp: Let_def not_less suffix_candidate_length)
qed

lemma suffix_code_length: "length (suffix_code code i taken) \<le> CODE_MAX_LEN"
  unfolding suffix_code_def Let_def
  by (rule suffix_loop_length) (simp_all add: CODE_MAX_LEN_def CODE_COLLISION_MARKER_def)

text \<open>The marker of a card: the tilde and eight hex digits.\<close>

definition marker :: "string \<Rightarrow> string" where
  "marker i = CODE_COLLISION_MARKER @ take CODE_SUFFIX_HEX_LEN (hex_of i)"

lemma suffix_code_first:
  assumes "CODE_SUFFIX_HEX_LEN \<le> length (hex_of i)"
    and "suffix_candidate code (hex_of i) CODE_SUFFIX_HEX_LEN \<notin> set taken"
  shows "suffix_code code i taken = suffix_candidate code (hex_of i) CODE_SUFFIX_HEX_LEN"
  using assms
proof -
  have "CODE_SUFFIX_HEX_LEN \<le> min (length (hex_of i)) (CODE_MAX_LEN - length CODE_COLLISION_MARKER)"
    using assms(1) by (simp add: CODE_SUFFIX_HEX_LEN_def CODE_MAX_LEN_def CODE_COLLISION_MARKER_def)
  then have "\<not> min (length (hex_of i)) (CODE_MAX_LEN - length CODE_COLLISION_MARKER) < CODE_SUFFIX_HEX_LEN"
    by (rule leD)
  with assms(2) show ?thesis
    unfolding suffix_code_def Let_def hex_of_def[symmetric]
    by (subst suffix_loop.simps) (simp only: if_False if_True not_False_eq_True Let_def)
qed

lemma suffix_candidate_marker: "suffix (marker i) (suffix_candidate code (hex_of i) CODE_SUFFIX_HEX_LEN)"
  by (simp add: marker_def suffix_candidate_def Let_def suffix_def)

lemma marker_length: "CODE_SUFFIX_HEX_LEN \<le> length (hex_of i) \<Longrightarrow> length (marker i) = CODE_SUFFIX_HEX_LEN + 1"
  by (simp add: marker_def CODE_COLLISION_MARKER_def)

lemma same_length_suffix: "suffix a c \<Longrightarrow> suffix b c \<Longrightarrow> length a = length b \<Longrightarrow> a = b"
  by (auto simp: suffix_def append_eq_append_conv)

section \<open>The loop over the new cards\<close>

text \<open>What the incoming cards and the codes in use must satisfy.\<close>

definition markers_free :: "product list \<Rightarrow> product list \<Rightarrow> bool" where
  "markers_free tbl rows \<longleftrightarrow> distinct (map p_id rows) \<and> distinct (map (\<lambda>p. marker (p_id p)) rows)
     \<and> (\<forall>p \<in> set rows. CODE_SUFFIX_HEX_LEN \<le> length (hex_of (p_id p)) \<and> p_code p \<noteq> Some []
          \<and> list_all (\<lambda>c. \<not> suffix (marker (p_id p)) c) (active_codes tbl @ active_codes rows))
     \<and> (\<forall>p \<in> set tbl. p_id p \<noteq> [])"

definition resolve_inv :: "product list \<Rightarrow> product list \<Rightarrow> product list \<Rightarrow> resolve_state \<Rightarrow> bool" where
  "resolve_inv tbl rows ps s \<longleftrightarrow>
     (let codes = active_codes (map (rename_row (renames s)) ps) in
      distinct codes \<and> set codes \<inter> set (active_codes tbl) = {} \<and> fst ` set (claimed s) = set codes
      \<and> [] \<notin> snd ` set (claimed s) \<and> fst ` set (renames s) \<subseteq> p_id ` set ps
      \<and> (\<forall>c \<in> set codes. c \<in> set (active_codes rows) \<or> (\<exists>q \<in> set ps. suffix (marker (p_id q)) c))
      \<and> (\<forall>x \<in> set (found s). length (cf_resolved_code x) \<le> CODE_MAX_LEN))"

lemma resolve_invI:
  assumes "active_codes (map (rename_row (renames s)) ps) = codes"
    and "distinct codes" and "set codes \<inter> set (active_codes tbl) = {}" and "fst ` set (claimed s) = set codes"
    and "[] \<notin> snd ` set (claimed s)" and "fst ` set (renames s) \<subseteq> p_id ` set ps"
    and "\<forall>c \<in> set codes. c \<in> set (active_codes rows) \<or> (\<exists>q \<in> set ps. suffix (marker (p_id q)) c)"
    and "\<forall>x \<in> set (found s). length (cf_resolved_code x) \<le> CODE_MAX_LEN"
  shows "resolve_inv tbl rows ps s"
  using assms unfolding resolve_inv_def Let_def by simp

lemma set_dict_set_new: "k \<notin> fst ` set m \<Longrightarrow> set (dict_set k v m) = insert (k, v) (set m)"
  by (induction m) auto

lemma map_of_None_keys: "map_of m k = None \<longleftrightarrow> k \<notin> fst ` set m"
  by (simp add: map_of_eq_None_iff)

lemma rename_other:
  "i \<notin> p_id ` set ps \<Longrightarrow> map (rename_row ((i, c) # rn)) ps = map (rename_row rn) ps"
  by (auto simp: rename_row_def)

lemma rename_unknown: "p_id p \<notin> fst ` set rn \<Longrightarrow> rename_row rn p = p"
  by (simp add: rename_row_def map_of_eq_None_iff[THEN iffD2])

lemma incumbent_None:
  assumes "\<forall>p \<in> set tbl. p_id p \<noteq> []" and "[] \<notin> snd ` set m"
  shows "id_or (map_option p_id (find (is_active_code c) tbl)) (map_of m c) = None
    \<longleftrightarrow> c \<notin> set (active_codes tbl) \<and> c \<notin> fst ` set m"
proof (cases "find (is_active_code c) tbl")
  case None
  then have "c \<notin> set (active_codes tbl)"
    unfolding active_codes_iff list_ex_iff by (simp add: find_None_iff)
  with None show ?thesis by (simp add: id_or_def map_of_eq_None_iff)
next
  case (Some p)
  then have "p \<in> set tbl" "is_active_code c p" by (auto simp: find_Some_iff)
  then have "c \<in> set (active_codes tbl)" "p_id p \<noteq> []"
    using assms(1) unfolding active_codes_iff list_ex_iff by auto
  with Some show ?thesis by (simp add: id_or_def)
qed

lemma active_codes_snoc: "active_codes (ps @ [p]) = active_codes ps @ active_codes [p]"
  by simp

lemma resolve_step_inv:
  assumes free: "markers_free tbl rows" and inv: "resolve_inv tbl rows ps s"
    and p: "p \<in> set rows" "p_id p \<notin> p_id ` set ps" and ps: "set ps \<subseteq> set rows"
  shows "resolve_inv tbl rows (ps @ [p]) (resolve_step tbl p s)"
proof -
  let ?code = "or_empty (p_code p)"
  note facts = inv[unfolded resolve_inv_def Let_def]
  have fresh: "p_id p \<notin> fst ` set (renames s)" using facts p(2) by auto
  have keep: "active_codes (map (rename_row (renames s)) (ps @ [p]))
      = active_codes (map (rename_row (renames s)) ps) @ active_codes [p]"
    by (simp add: rename_unknown[OF fresh])
  show ?thesis
  proof (cases "p_deleted_at p \<noteq> None \<or> ?code = []")
    case True
    then have "active_codes [p] = []"
      using free p(1) by (auto simp: markers_free_def split: option.splits)
    moreover have "resolve_step tbl p s = s" using True by (simp add: resolve_step_def Let_def)
    ultimately show ?thesis using facts keep by (auto simp: resolve_inv_def Let_def)
  next
    case False
    then have c: "p_code p = Some ?code" "p_deleted_at p = None" "?code \<noteq> []"
      by (cases "p_code p"; simp)+
    have row_code: "?code \<in> set (active_codes rows)"
      using p(1) c by (auto simp: active_codes_def intro!: bexI[of _ p])
    show ?thesis
    proof (cases "id_or (map_option p_id (find (is_active_code ?code) tbl)) (map_of (claimed s) ?code)")
      case None
      then have new: "?code \<notin> set (active_codes tbl)" "?code \<notin> fst ` set (claimed s)"
        using incumbent_None[of tbl "claimed s" ?code] free facts by (auto simp: markers_free_def)
      have "resolve_step tbl p s = s\<lparr>claimed := dict_set ?code (p_id p) (claimed s)\<rparr>"
        using False None by (simp add: resolve_step_def Let_def)
      moreover have "active_codes [p] = [?code]" using c(1,2) by (cases "p_code p") auto
      moreover have "p_id p \<noteq> []" using free p(1) by (auto simp: markers_free_def hex_of_def CODE_SUFFIX_HEX_LEN_def)
      ultimately show ?thesis
        using facts new row_code keep by (auto simp: resolve_inv_def Let_def set_dict_set_new)
    next
      case (Some i)
      let ?r = "suffix_code ?code (p_id p) (map fst (claimed s))"
      let ?cand = "suffix_candidate ?code (hex_of (p_id p)) CODE_SUFFIX_HEX_LEN"
      have hexp: "CODE_SUFFIX_HEX_LEN \<le> length (hex_of (p_id p))"
        and pm: "\<And>x. x \<in> set (active_codes tbl) \<union> set (active_codes rows) \<Longrightarrow> \<not> suffix (marker (p_id p)) x"
        using free p(1) by (auto simp: markers_free_def list_all_iff)
      have unused: "?cand \<notin> set (active_codes (map (rename_row (renames s)) ps))"
      proof
        assume "?cand \<in> set (active_codes (map (rename_row (renames s)) ps))"
        then obtain q where q: "q \<in> set ps" "suffix (marker (p_id q)) ?cand"
          using facts pm[of ?cand] suffix_candidate_marker[of "p_id p" ?code] by auto
        then have "CODE_SUFFIX_HEX_LEN \<le> length (hex_of (p_id q))"
          using free ps by (auto simp: markers_free_def)
        then have "marker (p_id q) = marker (p_id p)"
          using same_length_suffix[OF q(2) suffix_candidate_marker] hexp by (simp add: marker_length)
        moreover have "q \<in> set rows" "q \<noteq> p" using q(1) ps p(2) by auto
        ultimately show False
          using free p(1) by (auto simp: markers_free_def distinct_map inj_on_def)
      qed
      then have r: "?r = ?cand"
        using facts by (intro suffix_code_first[OF hexp]) auto
      have free_r: "?r \<notin> set (active_codes tbl)" "?r \<notin> fst ` set (claimed s)"
        using pm[of ?cand] suffix_candidate_marker[of "p_id p" ?code] unused facts unfolding r by auto
      have st: "resolve_step tbl p s = s\<lparr>claimed := dict_set ?r (p_id p) (claimed s),
           renames := (p_id p, ?r) # renames s,
           found := found s @ [\<lparr>cf_product_id = p_id p, cf_original_code = ?code,
              cf_resolved_code = ?r, cf_incumbent_id = i\<rparr>]\<rparr>"
        using False Some by (simp add: resolve_step_def Let_def)
      have "rename_row ((p_id p, ?r) # renames s) p = p\<lparr>p_code := Some ?r\<rparr>"
        by (simp add: rename_row_def)
      then have codes: "active_codes (map (rename_row ((p_id p, ?r) # renames s)) (ps @ [p]))
          = active_codes (map (rename_row (renames s)) ps) @ [?r]"
        using c(2) by (simp add: rename_other[OF p(2)])
      have "p_id p \<noteq> []" using hexp by (auto simp: hex_of_def CODE_SUFFIX_HEX_LEN_def)
      moreover have "suffix (marker (p_id p)) ?r" unfolding r by (rule suffix_candidate_marker)
      ultimately have inv2: "fst ` set (dict_set ?r (p_id p) (claimed s)) = insert ?r (fst ` set (claimed s))"
        "[] \<notin> snd ` set (dict_set ?r (p_id p) (claimed s))"
        "\<exists>q \<in> set (ps @ [p]). suffix (marker (p_id q)) ?r"
        using facts free_r(2) by (auto simp: set_dict_set_new)
      let ?codes = "active_codes (map (rename_row (renames s)) ps)"
      have ext: "distinct (?codes @ [?r])" "set (?codes @ [?r]) \<inter> set (active_codes tbl) = {}"
        "insert ?r (fst ` set (claimed s)) = set (?codes @ [?r])"
        "insert (p_id p) (fst ` set (renames s)) \<subseteq> p_id ` set (ps @ [p])"
        "\<forall>c \<in> set (?codes @ [?r]). c \<in> set (active_codes rows) \<or> (\<exists>q \<in> set (ps @ [p]). suffix (marker (p_id q)) c)"
        using facts free_r unused inv2(3) by (auto simp: r)
      show ?thesis
      proof (rule resolve_invI)
        show "active_codes (map (rename_row (renames (resolve_step tbl p s))) (ps @ [p])) = ?codes @ [?r]"
          unfolding st using codes by simp
        show "distinct (?codes @ [?r])" "set (?codes @ [?r]) \<inter> set (active_codes tbl) = {}"
          "\<forall>c \<in> set (?codes @ [?r]). c \<in> set (active_codes rows) \<or> (\<exists>q \<in> set (ps @ [p]). suffix (marker (p_id q)) c)"
          by (fact ext)+
        show "fst ` set (claimed (resolve_step tbl p s)) = set (?codes @ [?r])"
          "[] \<notin> snd ` set (claimed (resolve_step tbl p s))"
          unfolding st using inv2(1,2) ext(3) by simp_all
        show "fst ` set (renames (resolve_step tbl p s)) \<subseteq> p_id ` set (ps @ [p])"
          unfolding st using ext(4) by simp
        show "\<forall>x \<in> set (found (resolve_step tbl p s)). length (cf_resolved_code x) \<le> CODE_MAX_LEN"
          unfolding st using facts suffix_code_length by simp
      qed
    qed
  qed
qed

lemma resolve_fold_inv:
  "markers_free tbl rows \<Longrightarrow> resolve_inv tbl rows ps s \<Longrightarrow> set (ps @ xs) \<subseteq> set rows
     \<Longrightarrow> distinct (map p_id (ps @ xs)) \<Longrightarrow> resolve_inv tbl rows (ps @ xs) (fold (resolve_step tbl) xs s)"
proof (induction xs arbitrary: ps s)
  case Nil
  then show ?case by simp
next
  case (Cons x xs)
  have "resolve_inv tbl rows (ps @ [x]) (resolve_step tbl x s)"
    using Cons.prems by (intro resolve_step_inv) auto
  from Cons.IH[OF Cons.prems(1) this] Cons.prems show ?case by simp
qed

lemma resolve_start: "resolve_inv tbl rows [] \<lparr>claimed = [], renames = [], found = []\<rparr>"
  by (simp add: resolve_inv_def)

lemma mset_pairs: "mset (map (\<lambda>c. (c, 0 :: int)) xs) = mset (map (\<lambda>c. (c, 0)) ys) \<Longrightarrow> mset xs = mset ys"
proof -
  have "mset zs = image_mset fst (mset (map (\<lambda>c. (c, 0 :: int)) zs))" for zs :: "'a list"
    by (induction zs) auto
  then show "mset (map (\<lambda>c. (c, 0 :: int)) xs) = mset (map (\<lambda>c. (c, 0)) ys) \<Longrightarrow> mset xs = mset ys"
    by metis
qed

lemma resolve_codes:
  assumes "markers_free tbl rows" and "resolve_code_collisions tbl rows = (prepared, cs)"
  shows "distinct (active_codes prepared)" "set (active_codes prepared) \<inter> set (active_codes tbl) = {}"
    "\<forall>x \<in> set cs. length (cf_resolved_code x) \<le> CODE_MAX_LEN"
proof -
  let ?s = "fold (resolve_step tbl) (sort_key p_id rows) \<lparr>claimed = [], renames = [], found = []\<rparr>"
  have "distinct (map p_id (sort_key p_id rows))"
    using assms(1) mset_eq_imp_distinct_iff[of "map p_id (sort_key p_id rows)" "map p_id rows"]
    by (simp add: markers_free_def)
  then have inv: "resolve_inv tbl rows (sort_key p_id rows) ?s"
    using resolve_fold_inv[OF assms(1) resolve_start, of "sort_key p_id rows"] by simp
  have prep: "prepared = map (rename_row (renames ?s)) rows" and cs: "cs = found ?s"
    using assms(2) by (auto simp: resolve_code_collisions_def Let_def)
  have me: "mset (entries active_code_index prepared)
      = mset (entries active_code_index (map (rename_row (renames ?s)) (sort_key p_id rows)))"
    unfolding prep by (rule mset_entries) (simp add: mset_map)
  then have m: "mset (active_codes prepared) = mset (active_codes (map (rename_row (renames ?s)) (sort_key p_id rows)))"
    unfolding entries_active_code by (rule mset_pairs)
  show "distinct (active_codes prepared)" "set (active_codes prepared) \<inter> set (active_codes tbl) = {}"
    "\<forall>x \<in> set cs. length (cf_resolved_code x) \<le> CODE_MAX_LEN"
    using inv mset_eq_imp_distinct_iff[OF m] mset_eq_setD[OF m]
    by (simp_all add: resolve_inv_def Let_def cs)
qed

text \<open>A code collision never blocks a merge: when the new cards' markers are free, the product stage accepts
  every new card under its own id, the active codes stay distinct, and every renamed code fits the
  20 characters of its column.\<close>

theorem collisions_never_block:
  assumes "markers_free (products d) (new_in p_id (products d) rows)" and "codes_ok d"
  shows "\<exists>d' rep'. merge_products rows (d, empty_report) = Inr (d', rep') \<and> codes_ok d'
    \<and> map p_id (products d') = map p_id (products d) @ map p_id (new_in p_id (products d) rows)
    \<and> (\<forall>x \<in> set (conflicts rep'). length (cf_resolved_code x) \<le> CODE_MAX_LEN)"
proof -
  obtain prepared cs where res: "resolve_code_collisions (products d) (new_in p_id (products d) rows) = (prepared, cs)"
    by (cases "resolve_code_collisions (products d) (new_in p_id (products d) rows)")
  note codes = resolve_codes[OF assms(1) res]
  have ids: "map p_id prepared = map p_id (new_in p_id (products d) rows)"
    using resolve_ids[of "products d" "new_in p_id (products d) rows"] res by simp
  have idset: "p_id ` set prepared = p_id ` set (new_in p_id (products d) rows)"
    using arg_cong[OF ids, of set] by simp
  have "p_id ` set (new_in p_id (products d) rows) \<inter> p_id ` set (products d) = {}"
    by (auto simp: new_in_def thas_iff)
  then have "fresh_in (pk p_id) prepared (products d)"
    using assms(1) ids unfolding idset[symmetric] by (auto simp: fresh_in_def markers_free_def)
  moreover have "fresh_in active_code_index prepared (products d)"
    using codes(1,2) by (auto simp: fresh_in_def distinct_map inj_on_def)
  ultimately have "insertable [pk p_id, active_code_index] (\<lambda>_. True) prepared (products d)"
    by (simp add: insertable_def)
  then show ?thesis
    using codes assms(2) ids
    by (auto simp: merge_products_eq res codes_ok_def counts_absorbed(2) empty_report_def)
qed

end
