(* ===== verification/SyncWitnesses.thy ===== *)
theory SyncWitnesses
  imports Witnesses Network Collisions
begin

text \<open>
  Concrete instances of the properties of the merge, of the wire format, of the accounts and of the
  sync: the shop of \<open>Witnesses\<close> as the server, and a device with one sale and one withdrawal to push.
\<close>

section \<open>A batch of two rows\<close>

definition bare :: db where
  "bare = shop\<lparr>products := [card0\<lparr>p_quantity := 0\<rparr>], batches := [batch0\<lparr>b_quantity := 0\<rparr>]\<rparr>"

definition op0 :: operation where
  "op0 = \<lparr>o_id = ''O1'', o_type = ''sale'', o_product_id = ''P1'', o_qty_delta = - 2, o_unit_cost_cents = Some 700,
     o_unit_price_cents = Some 1500, o_payload = None, o_sale_id = None, o_batch_id = Some ''B1'',
     o_reverses_op_id = None, o_author_id = None, o_device_id = ''T'', o_seq = 1,
     o_created_at = ''2026-01-05T10:00:00'', o_business_date = Some ''2026-01-05'', o_created_by = ''Olga'',
     o_synced_at = None\<rparr>"

definition cash0 :: cash_movement where
  "cash0 = \<lparr>m_id = ''M1'', m_category = ''withdrawal_other'', m_amount_cents = - 500, m_currency = ''RUB'', m_note = Some ''tea'',
     m_sale_id = None, m_reverses_movement_id = None, m_author_id = None, m_device_id = ''T'', m_seq = 1,
     m_created_at = ''2026-01-05T10:00:00'', m_business_date = Some ''2026-01-05'', m_created_by = ''Olga'',
     m_synced_at = None\<rparr>"

definition rows0 :: "record_row list" where
  "rows0 = [R_operation op0, R_cash cash0]"

lemma merge0: "\<not> isl (fst (merge_transaction rows0 (open_session bare)))"
  by code_simp

lemma run_merge: obtains rep w1 where "merge_transaction rows0 (open_session bare) = (Inr rep, w1)"
  using merge0 by (cases "merge_transaction rows0 (open_session bare)"; cases "fst (merge_transaction rows0 (open_session bare))") auto

lemma books_bare: "books_ok bare"
  by code_simp

lemma merge_replay_noop_witness:
  "\<exists>rep w1 rep2 w2. merge_transaction rows0 (open_session bare) = (Inr rep, w1)
     \<and> merge_transaction rows0 w1 = (Inr rep2, w2) \<and> saved w2 = saved w1"
proof -
  obtain rep w1 where r: "merge_transaction rows0 (open_session bare) = (Inr rep, w1)" by (rule run_merge)
  from merge_replay_noop[OF r] r show ?thesis by blast
qed

lemma merge_honest_books_witness:
  "\<exists>rep w1. merge_transaction rows0 (open_session bare) = (Inr rep, w1)
     \<and> (\<forall>p \<in> set (products (saved w1)). p_quantity p = compute_stock (saved w1) (p_id p))"
proof -
  obtain rep w1 where r: "merge_transaction rows0 (open_session bare) = (Inr rep, w1)" by (rule run_merge)
  have "books_ok (saved (open_session bare))" using books_bare by simp
  from merge_honest_books[OF r this] r show ?thesis by blast
qed

lemma merge_shuffled_witness:
  "fst (merge_transaction (rev rows0) (open_session bare)) = fst (merge_transaction rows0 (open_session bare))"
proof -
  have "mset (rev rows0) = mset rows0" "ids_once rows0" by (simp, code_simp)
  from merge_shuffled[OF this] show ?thesis by blast
qed

lemma replicas_converge_witness:
  "\<exists>w1 w2. merge_all [[R_operation op0], [R_cash cash0]] (open_session bare) = Inr w1
     \<and> merge_all [[R_cash cash0], [R_operation op0]] (open_session bare) = Inr w2
     \<and> ledger_ops (saved w1) = ledger_ops (saved w2)"
proof -
  have "\<not> isl (merge_all [[R_operation op0], [R_cash cash0]] (open_session bare))"
    "\<not> isl (merge_all [[R_cash cash0], [R_operation op0]] (open_session bare))"
    by code_simp+
  then obtain w1 w2 where w: "merge_all [[R_operation op0], [R_cash cash0]] (open_session bare) = Inr w1"
    "merge_all [[R_cash cash0], [R_operation op0]] (open_session bare) = Inr w2"
    by (metis sum.collapse(2))
  have "operation_rows [R_operation op0, R_cash cash0] = [op0]" "cash_rows [R_operation op0, R_cash cash0] = [cash0]"
    by (simp_all add: operation_rows_def cash_rows_def bucket_def map_filter_simps op0_def cash0_def)
  then have "consistent (saved (open_session bare)) [[R_operation op0], [R_cash cash0]]"
    by (simp add: consistent_def ledger_ops_def ledger_cash_def bare_def shop_def empty_shop_def empty_db_def one_per_id_def)
  moreover have "keys_ok (saved (open_session bare))" by code_simp
  ultimately have "ledger_ops (saved w1) = ledger_ops (saved w2)"
    using replicas_converge[OF w] by auto
  with w show ?thesis by blast
qed

definition new_card :: product where
  "new_card = (blank_product ''0123456789abcdef'' ''t0'')\<lparr>p_code := Some ''100'', p_name := ''Lotion''\<rparr>"

lemma collisions_never_block_witness:
  "\<exists>d' rep'. merge_products [new_card] (bare, empty_report) = Inr (d', rep') \<and> codes_ok d'"
proof -
  have "markers_free (products bare) (new_in p_id (products bare) [new_card])" "codes_ok bare" by code_simp+
  from collisions_never_block[OF this] show ?thesis by blast
qed

section \<open>The wire\<close>

lemma record_ok_code [code]:
  "record_ok r \<longleftrightarrow> x_kind r \<in> set RECORD_KINDS \<and> x_kind r \<noteq> ''header''
     \<and> (case jget ''id'' (x_data r) of J_str i \<Rightarrow> i \<noteq> [] | _ \<Rightarrow> False)
     \<and> ''kind'' \<notin> fst ` set (x_data r) \<and> ledger_ok_data (x_kind r) (x_data r)
     \<and> money_ok_data (x_kind r) (x_data r) \<and> date_ok_data (x_kind r) (x_data r) \<and> jget ''synced_at'' (x_data r) = J_null"
  by (auto simp: record_ok_def split: json.splits)

lemma upd0: "list_all writable (map (record_of (\<lambda>_ _. ''2026-01-05T10:00:00'')) rows0)"
  by code_simp

lemma wire_roundtrip_witness:
  "\<exists>b. parse_exchange (splitlines (join [char_of (10 :: nat)]
        (serialize_exchange (\<lambda>_. ''abc'') (map (record_of (\<lambda>_ _. ''2026-01-05T10:00:00'')) rows0) ''0032'' (Some ''T'')
          ''2026-01-05T10:00:00''))) = Inr b
     \<and> x_records b = map (record_of (\<lambda>_ _. ''2026-01-05T10:00:00'')) rows0"
proof -
  have "length (map (record_of (\<lambda>_ _. ''2026-01-05T10:00:00'')) rows0) \<le> 500" by (simp add: rows0_def)
  then have len: "length (map (record_of (\<lambda>_ _. ''2026-01-05T10:00:00'')) rows0) < DIGIT_LIMIT"
    using page_limit_digits by (rule le_less_trans)
  have d: "distinct (map (\<lambda>r. (x_kind r, jget ''id'' (x_data r))) (map (record_of (\<lambda>_ _. ''2026-01-05T10:00:00'')) rows0))"
    by code_simp
  have n: "no_nel ''0032''" "no_nel ''2026-01-05T10:00:00''" "no_nel ''abc''" "no_nel ''T''" by code_simp+
  from wire_roundtrip[OF upd0 d len n(1,2), of "\<lambda>_. ''abc''" "Some ''T''"] n(3,4) show ?thesis by auto
qed

definition lines0 :: "string list" where
  "lines0 = serialize_exchange (\<lambda>_. ''abc'') (map (record_of (\<lambda>_ _. ''2026-01-05T10:00:00'')) [R_cash cash0]) ''0032'' None ''t''"

lemma parse_exchange_typed_witness:
  "\<exists>b r. parse_exchange lines0 = Inr b \<and> r \<in> set (x_records b) \<and> x_kind r \<in> set RECORD_KINDS"
proof -
  let ?rs = "map (record_of (\<lambda>_ _. ''2026-01-05T10:00:00'')) [R_cash cash0]"
  have w: "list_all writable ?rs" "distinct (map (\<lambda>r. (x_kind r, jget ''id'' (x_data r))) ?rs)" by code_simp+
  have "length ?rs \<le> 500" by simp
  then have "length ?rs < DIGIT_LIMIT" using page_limit_digits by (rule le_less_trans)
  from parse_serialized[OF w this, of "\<lambda>_. ''abc''" "''0032''" None "''t''"]
  obtain b where b: "parse_exchange lines0 = Inr b" "x_records b = ?rs" unfolding lines0_def by blast
  have "hd ?rs \<in> set (x_records b)" using b(2) by simp
  from parse_exchange_typed[OF b(1) this] b(1) \<open>hd ?rs \<in> set (x_records b)\<close> show ?thesis by blast
qed

section \<open>Accounts and devices\<close>

definition hasher0 :: hasher where
  "hasher0 = \<lparr>ph_hash = (\<lambda>n p. ''#'' @ p), ph_verify = (\<lambda>h p. h = ''#'' @ p), ph_needs_rehash = (\<lambda>h. False)\<rparr>"

definition user0 :: "string \<Rightarrow> string \<Rightarrow> user" where
  "user0 k role = \<lparr>u_id = k, u_login = k, u_display_name = k, u_role = role, u_is_active = 1,
     u_password_hash = ''#secret'', u_created_at = ''t0''\<rparr>"

definition staffed :: db where
  "staffed = bare\<lparr>users := [user0 ''boss'' ''administrator'', user0 ''olga'' ''operator'']\<rparr>"

lemma never_locked_out_witness:
  "administered (serve_admin env0 hasher0 0 ''boss'' (Deactivate ''olga'') staffed)"
proof -
  have "administered staffed" by code_simp
  then show ?thesis by (rule never_locked_out[OF accounts_run.request[OF accounts_run.start]])
qed

lemma login_sound_witness:
  "\<exists>r s1 w1. login_submit hasher0 0 '' olga '' ''secret'' \<lparr>csrf = ''c'', session_user = None\<rparr> (open_session staffed) = (r, s1, w1)
     \<and> (s1 = \<lparr>csrf = ''c'', session_user = None\<rparr> \<or> session_user s1 = Some ''olga'')"
proof -
  obtain r s1 w1 where r: "login_submit hasher0 0 '' olga '' ''secret'' \<lparr>csrf = ''c'', session_user = None\<rparr> (open_session staffed) = (r, s1, w1)"
    by (metis prod_cases3)
  have "strip '' olga '' = ''olga''" by code_simp
  with login_sound[OF r] r show ?thesis
    by (auto simp: staffed_def user0_def bare_def shop_def empty_shop_def empty_db_def)
qed

lemma assignment_takes_effect_witness:
  "\<exists>w1. set_user_warehouses ''olga'' [''W2'', ''W9''] (open_session staffed) = (Ok (), w1)
     \<and> (\<exists>u. tget u_id ''olga'' (users staffed) = Some u \<and> u_role u \<noteq> ''administrator'')"
proof -
  have "is_Ok (fst (set_user_warehouses ''olga'' [''W2'', ''W9''] (open_session staffed)))" by code_simp
  from ok_outcome[OF this] obtain w1 where r: "set_user_warehouses ''olga'' [''W2'', ''W9''] (open_session staffed) = (Ok (), w1)"
    by auto
  from assignment_takes_effect[OF r] r show ?thesis by blast
qed

definition sha0 :: "string \<Rightarrow> string" where
  "sha0 s = ''h'' @ s"

lemma minted_token_opens_witness:
  "\<exists>row plaintext w1. mint_token env0 sha0 ''abcdefghij'' ''T'' ''Tablet'' None (open_session staffed) = (Ok (row, plaintext), w1)
     \<and> fst (require_device env0 sha0 (Some plaintext) (open_session (saved w1))) = Device row"
proof -
  let ?m = "mint_token env0 sha0 ''abcdefghij'' ''T'' ''Tablet'' None (open_session staffed)"
  have "is_Ok (fst ?m)" by code_simp
  from ok_outcome[OF this] obtain row plaintext w1 where r: "?m = (Ok (row, plaintext), w1)" by auto
  have "\<not> bad (open_session staffed)" by (simp add: open_session_def)
  from mint_cases[OF r this] have p: "plaintext = ''myos_abcdefghij''" by (simp add: TOKEN_PLAINTEXT_PREFIX_def)
  have "\<forall>t \<in> set (device_tokens staffed). dt_is_active t = 1 \<longrightarrow> dt_token_prefix t \<noteq> take TOKEN_PREFIX_LEN plaintext"
    by (simp add: staffed_def bare_def shop_def empty_shop_def empty_db_def)
  moreover have "TOKEN_PREFIX_LEN < length plaintext" "sha0 plaintext \<noteq> plaintext"
    by (simp_all add: p TOKEN_PREFIX_LEN_def sha0_def)
  ultimately show ?thesis using minted_token_opens[OF r] r by blast
qed

definition token0 :: device_token where
  "token0 = \<lparr>dt_id = ''K1'', dt_device_id = ''T'', dt_label = ''Tablet'', dt_token_prefix = ''myos_abcdefg'',
     dt_token_hash = sha0 ''myos_abcdefghij'', dt_user_id = None, dt_is_active = 1, dt_created_at = ''t0'',
     dt_last_used_at = None, dt_revoked_at = None\<rparr>"

definition server0 :: db where
  "server0 = staffed\<lparr>device_tokens := [token0]\<rparr>"

lemma revocation_final_witness:
  "\<exists>w1. revoke_token env0 ''K1'' (open_session server0) = (Ok (), w1)
     \<and> ''K1'' \<in> dt_id ` set (list_device_tokens (saved (handle_device env0 sha0 (Mint ''zyxwvutsrq'' ''T'' ''New'' None) (open_session (saved w1)))))"
proof -
  have "is_Ok (fst (revoke_token env0 ''K1'' (open_session server0)))" by code_simp
  from ok_outcome[OF this] obtain w1 where r: "revoke_token env0 ''K1'' (open_session server0) = (Ok (), w1)" by auto
  from revocation_final[OF r devices_run.request[OF devices_run.start]] r show ?thesis by blast
qed

section \<open>Sync\<close>

definition upd1 :: "string \<Rightarrow> string \<Rightarrow> string" where
  "upd1 kind i = ''2026-01-05T10:00:00''"

definition shelf :: db where
  "shelf = server0\<lparr>warehouses := [wh0 ''W1'' ''RUB''], products := [], batches := []\<rparr>"

lemma shelf_servable: "servable upd1 shelf"
  by code_simp

lemma wire0: "wire_ok (\<lambda>_. ''abc'') ''0032'' None ''t''"
proof -
  have "no_nel ''0032''" "no_nel ''t''" "no_nel ''abc''" by code_simp+
  then show ?thesis by (simp add: wire_ok_def)
qed

lemma pull_terminates_witness:
  "pull_all (pull_server upd1 (\<lambda>_. ''abc'') ''0032'' None ''t'' shelf) None None 0 (open_session bare) \<noteq> None"
  using pull_terminates[OF shelf_servable wire0, of "open_session bare"] by auto

lemma network_books_witness:
  "distinct (map (\<lambda>o1. (o_device_id o1, o_seq o1)) (operations (serve env0 (Receipt receipt0) empty_shop)))
     \<and> distinct (active_codes (products (serve env0 (Receipt receipt0) empty_shop)))"
proof -
  have "fresh_db empty_shop" by (simp add: fresh_db_def empty_shop_def empty_db_def)
  then have "net_reachable (serve env0 (Receipt receipt0) empty_shop)"
    by (rule net_reachable.more[OF net_reachable.init net_step.local[OF System.step.served]])
  from network_books[OF this] show ?thesis by blast
qed

lemma network_history_witness:
  "\<exists>ops. map op_norm (operations (saved (snd (merge_transaction rows0 (open_session bare))))) = map op_norm (operations bare) @ ops"
proof -
  have "net_step\<^sup>*\<^sup>* bare (saved (snd (merge_transaction rows0 (open_session bare))))"
    by (rule r_into_rtranclp) (rule net_step.merged_in)
  from network_history[OF this] show ?thesis by blast
qed

definition till :: db where
  "till = empty_db\<lparr>cash_movements := [cash0]\<rparr>"

definition client0 :: sync_env where
  "client0 = \<lparr>sync_server_url = ''https://shop'', sync_token = ''myos_abcdefghij'', client_schema = ''0032'',
     source_device = Some ''T'', updated_at_of = upd1, sha256_of = (\<lambda>_. ''abc'')\<rparr>"

definition body0 :: string where
  "body0 = push_body client0 (fst (collect_push_records till)) (utcnow env0 0)"

lemma ok_push: "(case fst (push_to env0 sha0 ''0032'' 0 reset_buckets (Some ''myos_abcdefghij'') length server0 body0) of
    Merge_report rep \<Rightarrow> True | _ \<Rightarrow> False)"
  by code_simp


lemma known_payload_code [code]: "known_payload p \<longleftrightarrow> (case p of Some (P_other t) \<Rightarrow> False | _ \<Rightarrow> True)"
  by (simp add: known_payload_def split: option.split payload.split)

lemma till_sendable: "sendable (updated_at_of client0) (fst (collect_push_records till))"
proof -
  have "list_all (\<lambda>r. writable (record_of (updated_at_of client0) r) \<and> known_payload (row_payload r)) (fst (collect_push_records till))
      \<and> distinct (map (\<lambda>r. (record_kind r, record_id r)) (fst (collect_push_records till)))
      \<and> length (fst (collect_push_records till)) \<le> 500"
    by code_simp
  moreover from this have "length (fst (collect_push_records till)) < DIGIT_LIMIT"
    using page_limit_digits by (blast intro: le_less_trans)
  ultimately show ?thesis by (simp add: sendable_def)
qed

lemma synced_is_stored_witness:
  "\<exists>res w1. run_sync_once env0 client0
        (\<lambda>body. push_status (fst (push_to env0 sha0 ''0032'' 0 reset_buckets (Some ''myos_abcdefghij'') length server0 body)))
        (\<lambda>_ _. Pull_failed) (open_session till) = Some (res, w1)
     \<and> sr_status res = ''partial'' \<and> unsynced_count (saved w1) = 0"
proof -
  let ?push = "\<lambda>body. push_status (fst (push_to env0 sha0 ''0032'' 0 reset_buckets (Some ''myos_abcdefghij'') length server0 body))"
  have accepted: "?push body0 = Push_accepted"
    using ok_push by (cases "fst (push_to env0 sha0 ''0032'' 0 reset_buckets (Some ''myos_abcdefghij'') length server0 body0)") simp_all
  have failed: "pull_all (\<lambda>_ _. Pull_failed) s a n w = Some (Inl Http_error, w)" for s a n w
    by (subst pull_all.simps) simp
  have on: "sync_server_url client0 \<noteq> []" "sync_token client0 \<noteq> []" by (simp_all add: client0_def)
  obtain rs op_ids cash_ids where cp: "collect_push_records till = (rs, op_ids, cash_ids)" by (metis prod_cases3)
  then have "body0 = push_body client0 rs (utcnow env0 0)" by (simp add: body0_def)
  then have "\<exists>res w1. run_sync_once env0 client0 ?push (\<lambda>_ _. Pull_failed) (open_session till) = Some (res, w1)
      \<and> sr_status res = ''partial''"
    using accepted on cp
    by (simp add: run_sync_once_def utcnow_iso_def open_session_def Let_def failed split_beta)
  then obtain res w1 where run: "run_sync_once env0 client0 ?push (\<lambda>_ _. Pull_failed) (open_session till) = Some (res, w1)"
    "sr_status res = ''partial''" by blast
  have "clean (open_session till)" by (simp add: clean_def open_session_def)
  moreover have "sendable (updated_at_of client0) (fst (collect_push_records (saved (open_session till))))"
    using till_sendable by simp
  moreover have "no_nel ''0032''" "no_nel ''2026-01-05T10:00:00''" "no_nel ''abc''" "no_nel ''T''" by code_simp+
  then have "wire_ok (sha256_of client0) (client_schema client0) (source_device client0) (utcnow env0 (ticks (open_session till)))"
    by (simp add: wire_ok_def client0_def env0_def)
  ultimately have "unsynced_count (saved w1) = 0"
    using synced_is_stored[OF run(1)] run(2) by auto
  with run show ?thesis by blast
qed

end
