(* ===== verification/Offline.thy ===== *)
theory Offline
  imports SyncProps Accounts
begin

text \<open>
  The upload without a device: \<open>src/app/services/offline.py\<close> and \<open>src/app/routes/offline.py\<close>. An
  administrator saves one HTML file that holds the unsynced rows as text inside a script element; on
  another computer the file's own script restores the text, signs the user in for a short-lived
  token and posts both. The token library (itsdangerous) is a parameter, as are SHA-256, the live
  schema version and the clocks. The template's script and the newlines a browser puts into a form
  field are modelled as the two functions the text passes through on its way. A JSON integer of
  more than 4300 digits in the header, which raises, counts as text that is not JSON.
\<close>

section \<open>Tokens\<close>

definition OFFLINE_TOKEN_TTL :: int where
  "OFFLINE_TOKEN_TTL = 300"

definition OFFLINE_TOKEN_SCOPE :: string where
  "OFFLINE_TOKEN_SCOPE = ''offline_upload''"

text \<open>\<open>URLSafeTimedSerializer(secret_key, salt)\<close> at an instant: \<open>None\<close> is a bad or an expired signature.\<close>

type_synonym claims = "(string \<times> string) list"

record signer =
  sg_dumps :: "int \<Rightarrow> claims \<Rightarrow> string"
  sg_loads :: "int \<Rightarrow> int \<Rightarrow> string \<Rightarrow> claims option"

definition mint_offline_token :: "signer \<Rightarrow> int \<Rightarrow> string \<Rightarrow> string" where
  "mint_offline_token sg now user_id = sg_dumps sg now [(''scope'', OFFLINE_TOKEN_SCOPE), (''sub'', user_id)]"

definition verify_offline_token :: "signer \<Rightarrow> int \<Rightarrow> string \<Rightarrow> claims option" where
  "verify_offline_token sg now token =
     (case sg_loads sg now OFFLINE_TOKEN_TTL token of
        None \<Rightarrow> None
      | Some c \<Rightarrow> if map_of c ''scope'' \<noteq> Some OFFLINE_TOKEN_SCOPE then None else Some c)"

definition schema_version_ok :: "json \<Rightarrow> string \<Rightarrow> bool" where
  "schema_version_ok header_schema server_schema \<longleftrightarrow> server_schema = [] \<or> header_schema = J_str server_schema"

datatype token_reply = Login_limited | Login_refused | Login_token string

text \<open>\<open>POST /api/offline/login\<close>; \<open>now\<close> is the limiter's clock, \<open>at_time\<close> the signer's.\<close>

definition offline_login ::
  "hasher \<Rightarrow> nat \<Rightarrow> signer \<Rightarrow> int \<Rightarrow> rat \<Rightarrow> string \<Rightarrow> string \<Rightarrow> buckets \<Rightarrow> world \<Rightarrow> token_reply \<times> buckets \<times> world" where
  "offline_login h salt sg at_time now login password bs w =
     (let l = strip login; (ok, bs1) = check_rate_limit (''offline-login:'' @ l) now bs in
      if \<not> ok then (Login_limited, bs1, w)
      else case find_login (cur w) l of
          None \<Rightarrow> (Login_refused, bs1, w)
        | Some u \<Rightarrow>
            (let (verified, w1) = verify_password h salt u password w in
             if \<not> verified \<or> u_is_active u \<noteq> 1 then (Login_refused, bs1, w1)
             else (Login_token (mint_offline_token sg at_time (u_id u)), bs1, w1)))"

section \<open>Text inside a script element\<close>

text \<open>Case-insensitive matching of a lower-case pattern at the head of a text, and \<open>re.sub\<close> with it.\<close>

definition starts_ci :: "string \<Rightarrow> string \<Rightarrow> bool" where
  "starts_ci p s \<longleftrightarrow> lower (take (length p) s) = p"

fun occurs_ci :: "string \<Rightarrow> string \<Rightarrow> bool" where
  "occurs_ci p [] = starts_ci p []"
| "occurs_ci p (c # s) = (starts_ci p (c # s) \<or> occurs_ci p s)"

function sub_ci :: "string \<Rightarrow> (string \<Rightarrow> string) \<Rightarrow> string \<Rightarrow> string" where
  "sub_ci p f [] = []"
| "sub_ci p f (c # s) =
     (if p \<noteq> [] \<and> starts_ci p (c # s) then f (take (length p) (c # s)) @ sub_ci p f (drop (length p) (c # s))
      else c # sub_ci p f s)"
  by pat_completeness auto
termination by (relation "measure (\<lambda>(p, f, s). length s)") auto

definition CLOSE_TAG :: string where
  "CLOSE_TAG = ''</script''"

definition ESCAPED_TAG :: string where
  "ESCAPED_TAG = [CHR ''<'', BACKSLASH] @ ''/script''"

definition embedded :: "string \<Rightarrow> string" where
  "embedded body = sub_ci CLOSE_TAG (\<lambda>m. [CHR ''<'', BACKSLASH, CHR ''/''] @ drop 2 m) body"

text \<open>\<open>raw.replace(/<\\\/(script)/gi, "</$1")\<close> of the saved file.\<close>

definition restored :: "string \<Rightarrow> string" where
  "restored raw = sub_ci ESCAPED_TAG (\<lambda>m. ''</'' @ drop 3 m) raw"

datatype export_reply = Export_forbidden | Export_unconfigured | Export_file string

definition offline_export ::
  "env \<Rightarrow> sync_env \<Rightarrow> user option \<Rightarrow> world \<Rightarrow> export_reply \<times> world" where
  "offline_export e s u w =
     (if \<not> require_role ''administrator'' u then (Export_forbidden, w)
      else if sync_server_url s = [] then (Export_unconfigured, w)
      else (let (rs, _) = collect_push_records (cur w); (generated_at, w1) = utcnow_iso e w
            in (Export_file (embedded (push_body s rs generated_at)), w1)))"

section \<open>Upload\<close>

definition MAX_OFFLINE_BYTES :: nat where
  "MAX_OFFLINE_BYTES = 32 * 1024 * 1024"

definition utf8_length :: "string \<Rightarrow> nat" where
  "utf8_length s = sum_list (map (\<lambda>c. if ord_of c < 128 then 1 else 2) s)"

abbreviation lf :: char where "lf \<equiv> char_of (10 :: nat)"
abbreviation cr :: char where "cr \<equiv> char_of (13 :: nat)"

text \<open>\<open>payload.replace("\r\n", "\n").replace("\r", "\n").split("\n")\<close>\<close>

fun drop_crlf :: "string \<Rightarrow> string" where
  "drop_crlf [] = []"
| "drop_crlf (c # s) = (if c = cr \<and> s \<noteq> [] \<and> hd s = lf then drop_crlf s else c # drop_crlf s)"

fun split_lf :: "string \<Rightarrow> string list" where
  "split_lf [] = [[]]"
| "split_lf (c # s) = (if c = lf then [] # split_lf s else (c # hd (split_lf s)) # tl (split_lf s))"

definition canonical_lines :: "string \<Rightarrow> string list" where
  "canonical_lines payload = split_lf (map (\<lambda>c. if c = cr then lf else c) (drop_crlf payload))"

datatype offline_reply =
    Expired_page
  | Corrupted_page nat
  | Incompatible_page json string
  | Success_page nat nat nat
  | Offline_error exn

definition offline_upload ::
  "signer \<Rightarrow> (string \<Rightarrow> string) \<Rightarrow> string \<Rightarrow> int \<Rightarrow> string \<Rightarrow> string \<Rightarrow> world \<Rightarrow> offline_reply \<times> world" where
  "offline_upload sg sha256 server_schema at_time token payload w =
     (if verify_offline_token sg at_time token = None then (Expired_page, w)
      else if MAX_OFFLINE_BYTES < utf8_length payload then (Corrupted_page 413, w)
      else
        (let lines = canonical_lines payload in
         case loads (hd lines) of
           Some (J_obj header) \<Rightarrow>
             if J_str (payload_digest sha256 (tl lines)) \<noteq> jget ''payload_sha256'' header then (Corrupted_page 400, w)
             else
               (let file_schema = (case map_of header ''schema_version'' of None \<Rightarrow> J_str [] | Some v \<Rightarrow> v) in
                if \<not> schema_version_ok file_schema server_schema then (Incompatible_page file_schema server_schema, w)
                else case parse_exchange lines of
                    Inl x \<Rightarrow> (if is_value_error x then Corrupted_page 400 else Offline_error x, w)
                  | Inr batch \<Rightarrow>
                      (case rows_of (x_records batch) of
                         None \<Rightarrow> (Offline_error IntegrityError, rollback w)
                       | Some rs \<Rightarrow>
                           (case merge_transaction rs (rollback w) of
                              (Inl x, w1) \<Rightarrow> (Offline_error x, w1)
                            | (Inr rep, w1) \<Rightarrow>
                                (Success_page (operations_inserted rep + cash_inserted rep
                                     + sum_list (map snd (reference_inserted rep)))
                                   (operations_inserted rep) (cash_inserted rep), w1))))
         | _ \<Rightarrow> (Corrupted_page 400, w)))"

text \<open>A browser submits a form field with every newline as carriage return and line feed.\<close>

fun form_newlines :: "string \<Rightarrow> string" where
  "form_newlines [] = []"
| "form_newlines (c # s) =
     (if c = lf then cr # lf # form_newlines s
      else if c = cr then cr # lf # form_newlines (if s \<noteq> [] \<and> hd s = lf then tl s else s)
      else c # form_newlines s)"

section \<open>The embedding cannot be broken out of, and comes back\<close>

lemma starts_ci_Nil [simp]: "starts_ci [] s"
  by (simp add: starts_ci_def lower_def)

lemma starts_ci_Cons: "starts_ci (p # ps) s \<longleftrightarrow> (\<exists>c r. s = c # r \<and> lower [c] = [p] \<and> starts_ci ps r)"
  by (cases s) (auto simp: starts_ci_def lower_def)

text \<open>The characters that only match themselves: no letter is lowered to them.\<close>

lemma lower_fixed:
  assumes "ord_of d < 97"
  shows "lower [c] = [d] \<longleftrightarrow> c = d \<and> lower [d] = [d]"
proof -
  have "ord_of (char_of (ord_of c + 32)) = ord_of c + 32" if "ord_of c \<le> 222"
    using that by (simp add: ord_of_def)
  then show ?thesis using assms
    by (auto simp: lower_def ord_of_inject[symmetric] split: if_splits)
qed

lemma lower_marks:
  "lower [c] = [CHR ''<''] \<longleftrightarrow> c = CHR ''<''" "lower [c] = [CHR ''/''] \<longleftrightarrow> c = CHR ''/''"
  "lower [c] = [BACKSLASH] \<longleftrightarrow> c = BACKSLASH"
  by (subst lower_fixed; simp add: ord_of_def lower_def)+

lemma starts_tag: "starts_ci CLOSE_TAG s \<longleftrightarrow> (\<exists>r. s = CHR ''<'' # CHR ''/'' # r \<and> starts_ci ''script'' r)"
  "starts_ci ESCAPED_TAG s \<longleftrightarrow> (\<exists>r. s = CHR ''<'' # BACKSLASH # CHR ''/'' # r \<and> starts_ci ''script'' r)"
  by (auto simp: CLOSE_TAG_def ESCAPED_TAG_def starts_ci_Cons lower_marks)

lemma length_tags: "length CLOSE_TAG = 8" "length ESCAPED_TAG = 9" "CLOSE_TAG \<noteq> []" "ESCAPED_TAG \<noteq> []"
  by (simp_all add: CLOSE_TAG_def ESCAPED_TAG_def)

lemma embedded_simps:
  "embedded [] = []"
  "\<not> starts_ci CLOSE_TAG (c # s) \<Longrightarrow> embedded (c # s) = c # embedded s"
  "length t = 6 \<Longrightarrow> starts_ci ''script'' t
     \<Longrightarrow> embedded (CHR ''<'' # CHR ''/'' # t @ s) = CHR ''<'' # BACKSLASH # CHR ''/'' # t @ embedded s"
proof -
  show "embedded [] = []" "\<not> starts_ci CLOSE_TAG (c # s) \<Longrightarrow> embedded (c # s) = c # embedded s"
    by (simp_all add: embedded_def)
  assume t: "length t = 6" "starts_ci ''script'' t"
  then have "starts_ci ''script'' (t @ s)" by (simp add: starts_ci_def)
  then have "starts_ci CLOSE_TAG (CHR ''<'' # CHR ''/'' # t @ s)" by (simp add: starts_tag)
  with t show "embedded (CHR ''<'' # CHR ''/'' # t @ s) = CHR ''<'' # BACKSLASH # CHR ''/'' # t @ embedded s"
    by (simp add: embedded_def length_tags)
qed

lemma restored_simps:
  "restored [] = []"
  "\<not> starts_ci ESCAPED_TAG (c # s) \<Longrightarrow> restored (c # s) = c # restored s"
  "length t = 6 \<Longrightarrow> starts_ci ''script'' t
     \<Longrightarrow> restored (CHR ''<'' # BACKSLASH # CHR ''/'' # t @ s) = CHR ''<'' # CHR ''/'' # t @ restored s"
proof -
  show "restored [] = []" "\<not> starts_ci ESCAPED_TAG (c # s) \<Longrightarrow> restored (c # s) = c # restored s"
    by (simp_all add: restored_def)
  assume t: "length t = 6" "starts_ci ''script'' t"
  then have "starts_ci ''script'' (t @ s)" by (simp add: starts_ci_def)
  then have "starts_ci ESCAPED_TAG (CHR ''<'' # BACKSLASH # CHR ''/'' # t @ s)" by (simp add: starts_tag)
  with t show "restored (CHR ''<'' # BACKSLASH # CHR ''/'' # t @ s) = CHR ''<'' # CHR ''/'' # t @ restored s"
    by (simp add: restored_def length_tags)
qed

lemma starts_word: "starts_ci ''script'' s \<Longrightarrow> \<exists>t r. s = t @ r \<and> length t = 6 \<and> starts_ci ''script'' t \<and> CHR ''<'' \<notin> set t"
proof -
  assume a: "starts_ci ''script'' s"
  have n: "length ''script'' = 6" by simp
  from a have len: "length (take 6 s) = 6" by (auto simp: starts_ci_def lower_def dest!: arg_cong[where f = length])
  have low: "lower (take 6 s) = ''script''" using a unfolding starts_ci_def n .
  have "CHR ''<'' \<notin> set (take 6 s)"
  proof
    assume "CHR ''<'' \<in> set (take 6 s)"
    moreover have "CHR ''<'' \<in> set u \<Longrightarrow> CHR ''<'' \<in> set (lower u)" for u
      by (force simp: lower_def ord_of_def)
    ultimately show False using low by force
  qed
  moreover have "starts_ci ''script'' (take 6 s)" using low unfolding starts_ci_def n by simp
  ultimately show ?thesis using len by (intro exI[of _ "take 6 s"] exI[of _ "drop 6 s"]) simp
qed

text \<open>A text is walked through tag by tag and character by character.\<close>

lemma tag_cases:
  obtains "s = []" | t r where "s = CHR ''<'' # CHR ''/'' # t @ r" "length t = 6" "starts_ci ''script'' t" "CHR ''<'' \<notin> set t"
  | c r where "s = c # r" "\<not> starts_ci CLOSE_TAG s"
proof (cases s)
  case (Cons c r)
  show ?thesis
  proof (cases "starts_ci CLOSE_TAG s")
    case True
    with starts_word that(2) show ?thesis unfolding starts_tag by blast
  qed (use Cons that(3) in blast)
qed (use that(1) in blast)

lemma starts_embedded: "CHR ''<'' \<notin> set p \<Longrightarrow> starts_ci p (embedded s) \<Longrightarrow> starts_ci p s"
proof (induction p arbitrary: s)
  case (Cons x p)
  show ?case
  proof (cases rule: tag_cases[of s])
    case (2 t r)
    then have "lower [CHR ''<''] = [x]" using Cons.prems(2) by (simp add: embedded_simps(3) starts_ci_Cons)
    then have "x = CHR ''<''" by (simp add: lower_def ord_of_def)
    then show ?thesis using Cons.prems(1) by simp
  next
    case (3 c r)
    then show ?thesis using Cons.IH[of r] Cons.prems by (auto simp: embedded_simps(2) starts_ci_Cons)
  qed (use Cons.prems in \<open>simp add: embedded_simps\<close>)
qed simp

lemma occurs_skip: "CHR ''<'' \<notin> set t \<Longrightarrow> occurs_ci CLOSE_TAG (t @ s) = occurs_ci CLOSE_TAG s"
  by (induction t) (auto simp: starts_tag)

lemma occurs_Nil [simp]: "\<not> occurs_ci CLOSE_TAG []" "\<not> occurs_ci ESCAPED_TAG []"
  by (simp_all add: starts_tag)

lemma embedded_no_tag: "\<not> occurs_ci CLOSE_TAG (embedded s)"
proof (induction "length s" arbitrary: s rule: less_induct)
  case less
  show ?case
  proof (cases rule: tag_cases[of s])
    case (2 t r)
    then have "\<not> occurs_ci CLOSE_TAG (embedded r)" using less by simp
    with 2 show ?thesis by (simp add: embedded_simps(3) occurs_skip starts_tag)
  next
    case (3 c r)
    then have "\<not> occurs_ci CLOSE_TAG (embedded r)" using less by simp
    moreover have "\<not> starts_ci CLOSE_TAG (c # embedded r)"
    proof
      assume "starts_ci CLOSE_TAG (c # embedded r)"
      then have c: "c = CHR ''<''" "starts_ci ''/script'' (embedded r)"
        by (auto simp: starts_tag starts_ci_Cons lower_marks)
      from starts_embedded[OF _ c(2)] have "starts_ci ''/script'' r" by simp
      with c 3 show False by (auto simp: starts_tag starts_ci_Cons lower_marks)
    qed
    ultimately show ?thesis using 3 by (simp add: embedded_simps(2))
  qed (simp add: embedded_simps starts_tag)
qed

lemma restored_skip: "CHR ''<'' \<notin> set t \<Longrightarrow> restored (t @ s) = t @ restored s"
  by (induction t) (auto simp: restored_simps starts_tag)

lemma occurs_append: "occurs_ci ESCAPED_TAG s \<Longrightarrow> occurs_ci ESCAPED_TAG (t @ s)"
  by (induction t) auto

lemma restored_embedded: "\<not> occurs_ci ESCAPED_TAG s \<Longrightarrow> restored (embedded s) = s"
proof (induction "length s" arbitrary: s rule: less_induct)
  case less
  show ?case
  proof (cases rule: tag_cases[of s])
    case (2 t r)
    then have "\<not> occurs_ci ESCAPED_TAG r" using less.prems occurs_append[of r t] by auto
    then have "restored (embedded r) = r" using less 2 by simp
    with 2 show ?thesis by (simp add: embedded_simps(3) restored_simps(3))
  next
    case (3 c r)
    then have "restored (embedded r) = r" using less by simp
    moreover have "\<not> starts_ci ESCAPED_TAG (c # embedded r)"
    proof
      assume "starts_ci ESCAPED_TAG (c # embedded r)"
      then have c: "c = CHR ''<''" "starts_ci (BACKSLASH # ''/script'') (embedded r)"
        by (auto simp: starts_tag starts_ci_Cons lower_marks)
      from starts_embedded[OF _ c(2)] have "starts_ci (BACKSLASH # ''/script'') r" by simp
      with c 3 less.prems show False by (auto simp: starts_tag starts_ci_Cons lower_marks)
    qed
    ultimately show ?thesis using 3 by (simp add: embedded_simps(2) restored_simps(2))
  qed (simp add: embedded_simps restored_simps)
qed

section \<open>What is exported never looks escaped\<close>

text \<open>JSON never writes a backslash before a slash; a backslash of the data is doubled.\<close>

definition ESC :: string where
  "ESC = [CHR ''<'', BACKSLASH, CHR ''/'']"

definition unescaped :: "string \<Rightarrow> bool" where
  "unescaped s \<longleftrightarrow> \<not> occurs_ci ESC s \<and> (s = [] \<or> last s \<notin> {CHR ''<'', BACKSLASH})"

lemma starts_ESC: "starts_ci ESC s \<longleftrightarrow> (\<exists>r. s = CHR ''<'' # BACKSLASH # CHR ''/'' # r)"
  by (auto simp: ESC_def starts_ci_Cons lower_marks)

lemma occurs_tag_ESC: "occurs_ci ESCAPED_TAG s \<Longrightarrow> occurs_ci ESC s"
  by (induction s) (auto simp: starts_tag starts_ESC)

lemma unescaped_Nil [simp]: "unescaped []"
  by (simp add: unescaped_def starts_ESC)

lemma unescaped_append: "unescaped s \<Longrightarrow> unescaped t \<Longrightarrow> unescaped (s @ t)"
proof (induction s)
  case (Cons c s)
  then have s: "unescaped s" by (cases s) (auto simp: unescaped_def starts_ESC)
  have "\<not> starts_ci ESC (c # s @ t)"
  proof
    assume "starts_ci ESC (c # s @ t)"
    then have c: "c = CHR ''<''" "\<exists>r. s @ t = BACKSLASH # CHR ''/'' # r" by (auto simp: starts_ESC)
    with Cons.prems(1) show False
      by (cases s; cases "tl s") (auto simp: unescaped_def starts_ESC)
  qed
  with Cons.IH[OF s Cons.prems(2)] Cons.prems show ?case by (auto simp: unescaped_def)
qed simp

lemma unescaped_plain: "CHR ''<'' \<notin> set s \<Longrightarrow> BACKSLASH \<notin> set s \<Longrightarrow> unescaped s"
proof -
  have "CHR ''<'' \<notin> set s \<Longrightarrow> \<not> occurs_ci ESC s" by (induction s) (auto simp: starts_ESC)
  then show "CHR ''<'' \<notin> set s \<Longrightarrow> BACKSLASH \<notin> set s \<Longrightarrow> unescaped s"
    by (auto simp: unescaped_def dest: last_in_set)
qed

lemma unescaped_digs: "list_all is_dig s \<Longrightarrow> unescaped s"
  by (rule unescaped_plain) (auto simp: list_all_iff is_dig_def ord_of_def)

lemma unescaped_concat: "list_all unescaped ss \<Longrightarrow> unescaped (concat ss)"
  by (induction ss) (auto intro: unescaped_append)

lemma unescaped_join: "unescaped sep \<Longrightarrow> list_all unescaped ss \<Longrightarrow> unescaped (join sep ss)"
  by (cases ss) (auto simp: join_def list_all_iff intro!: unescaped_append unescaped_concat)

lemma escape_head: "escape c @ r = BACKSLASH # x # u \<Longrightarrow> x \<noteq> CHR ''/''"
  by (auto simp: escape_def split: if_splits)

lemma escape_lt: "CHR ''<'' \<in> set (escape c) \<Longrightarrow> escape c = [CHR ''<'']"
proof -
  have "CHR ''<'' \<noteq> hex_digit n" if "n < 16" for n
  proof
    assume "CHR ''<'' = hex_digit n"
    then have "hex_val (CHR ''<'') = Some n" using hex_val_digit[OF that] by metis
    then show False by (simp add: hex_val_def ord_of_def)
  qed
  then have "CHR ''<'' \<noteq> hex_digit (ord_of c div 16)" "CHR ''<'' \<noteq> hex_digit (ord_of c mod 16)" if "ord_of c < 32"
    using that by auto
  then show "CHR ''<'' \<in> set (escape c) \<Longrightarrow> escape c = [CHR ''<'']"
    by (auto simp: escape_def split: if_splits)
qed

lemma occurs_ESC_skip: "CHR ''<'' \<notin> set t \<Longrightarrow> occurs_ci ESC (t @ s) = occurs_ci ESC s"
  by (induction t) (auto simp: starts_ESC)

lemma unescaped_dump_str: "unescaped (dump_str s)"
proof -
  have "\<not> occurs_ci ESC (concat (map escape s) @ [QUOTE])"
  proof (induction s)
    case Nil
    then show ?case by (simp add: starts_ESC)
  next
    case (Cons c s)
    show ?case
    proof (cases "CHR ''<'' \<in> set (escape c)")
      case True
      have "concat (map escape s) @ [QUOTE] \<noteq> BACKSLASH # CHR ''/'' # r" for r
        using escape_head by (cases s) auto
      with escape_lt[OF True] Cons.IH show ?thesis by (simp add: starts_ESC)
    next
      case False
      with Cons.IH show ?thesis by (simp add: occurs_ESC_skip)
    qed
  qed
  then show ?thesis by (simp add: dump_str_def unescaped_def starts_ESC)
qed

lemma unescaped_dumps: "plain v \<Longrightarrow> unescaped (dumps v)"
proof (induction v)
  case (J_int i)
  have "unescaped (CHR ''-'' # show_nat n)" for n
    using unescaped_append[of "[CHR ''-'']" "show_nat n"] by (simp add: unescaped_plain unescaped_digs)
  then show ?case by (simp add: show_int_def unescaped_digs)
next
  case (J_list vs)
  then have j: "unescaped (join '', '' (map dumps vs))"
    by (intro unescaped_join) (auto simp: list_all_iff intro: unescaped_plain)
  have "unescaped ''[''" "unescaped '']''" by (auto intro: unescaped_plain)
  then have "unescaped (''['' @ join '', '' (map dumps vs) @ '']'')" using j by (intro unescaped_append)
  then show ?case by simp
next
  case (J_obj kvs)
  have "unescaped (dump_str k @ '': '' @ dumps v)" if "(k, v) \<in> set kvs" for k v
    using J_obj(1)[of "(k, v)" v] J_obj(2) that
    by (intro unescaped_append) (auto simp: list_all_iff unescaped_dump_str intro: unescaped_plain)
  then have j: "unescaped (join '', '' (map (\<lambda>(k, v). dump_str k @ '': '' @ dumps v) kvs))"
    by (intro unescaped_join) (auto simp: list_all_iff intro: unescaped_plain)
  have "unescaped ''{''" "unescaped ''}''" by (auto intro: unescaped_plain)
  then have "unescaped (''{'' @ join '', '' (map (\<lambda>(k, v). dump_str k @ '': '' @ dumps v) kvs) @ ''}'')"
    using j by (intro unescaped_append)
  then show ?case by simp
qed (auto simp: unescaped_dump_str intro: unescaped_plain)

section \<open>The way of the text\<close>

text \<open>Lines without breaks, joined by line feeds, sent as a form field: the upload sees the same lines.\<close>

definition flat_line :: "string \<Rightarrow> bool" where
  "flat_line l \<longleftrightarrow> lf \<notin> set l \<and> cr \<notin> set l"

lemma lf_cr [simp]: "lf \<noteq> cr" "cr \<noteq> lf"
  by simp_all

text \<open>With no carriage return before, the field's newlines are the line feeds, and they come back.\<close>

lemma form_newlines_back:
  "cr \<notin> set s \<Longrightarrow> map (\<lambda>c. if c = cr then lf else c) (drop_crlf (form_newlines s)) = s"
  by (induction s) (auto simp del: char_of_eq_iff)

lemma split_lf_nonempty [simp]: "split_lf s \<noteq> []"
  by (cases s) auto

lemma split_lf_line: "lf \<notin> set l \<Longrightarrow> split_lf l = [l]"
  by (induction l) auto

lemma split_lf_append: "lf \<notin> set l \<Longrightarrow> split_lf (l @ lf # s) = l # split_lf s"
  by (induction l) auto

lemma split_lf_join: "ls \<noteq> [] \<Longrightarrow> list_all (\<lambda>l. lf \<notin> set l) ls \<Longrightarrow> split_lf (join LF ls) = ls"
proof (induction ls)
  case (Cons l ls)
  then show ?case
  proof (cases "ls = []")
    case True
    with Cons.prems show ?thesis by (simp add: split_lf_line)
  next
    case False
    with Cons show ?thesis using split_lf_append[of l "join LF ls"] by (simp add: join_Cons)
  qed
qed simp

lemma flat_join: "list_all flat_line ls \<Longrightarrow> cr \<notin> set (join LF ls)"
  by (cases ls) (auto simp: join_def list_all_iff flat_line_def)

lemma field_lines:
  assumes "ls \<noteq> []" and "list_all flat_line ls"
  shows "canonical_lines (form_newlines (join LF ls)) = ls" "canonical_lines (join LF ls) = ls"
proof -
  have s: "split_lf (join LF ls) = ls"
    using assms by (intro split_lf_join) (auto simp: list_all_iff flat_line_def)
  have c: "cr \<notin> set (join LF ls)" using flat_join[OF assms(2)] .
  show "canonical_lines (form_newlines (join LF ls)) = ls"
    unfolding canonical_lines_def form_newlines_back[OF c] by (rule s)
  have "cr \<notin> set t \<Longrightarrow> map (\<lambda>c. if c = cr then lf else c) (drop_crlf t) = t" for t
    by (induction t) auto
  from this[OF c] show "canonical_lines (join LF ls) = ls" unfolding canonical_lines_def by (simp only: s)
qed

section \<open>What is exported\<close>

lemma exported_lines:
  assumes "sendable (updated_at_of s) rs" and "wire_ok (sha256_of s) (client_schema s) (source_device s) t"
  defines "ls \<equiv> serialize_exchange (sha256_of s) (map (record_of (updated_at_of s)) rs) (client_schema s) (source_device s) t"
  shows "list_all flat_line ls" "list_all unescaped ls" "push_body s rs t = join LF ls"
    "\<exists>b. parse_exchange ls = Inr b \<and> x_records b = map (record_of (updated_at_of s)) rs"
    "rows_of (map (record_of (updated_at_of s)) rs) = Some rs"
proof -
  let ?rs = "map (record_of (updated_at_of s)) rs"
  have w: "list_all writable ?rs" using assms(1) by (simp add: sendable_def list_all_iff)
  have len: "length ?rs < DIGIT_LIMIT" using assms(1) by (simp add: sendable_def)
  have "distinct (map (\<lambda>r. (record_kind r, J_str (record_id r))) rs)"
    using assms(1) by (auto simp: sendable_def distinct_map inj_on_def)
  then have d: "distinct (map (\<lambda>r. (x_kind r, jget ''id'' (x_data r))) ?rs)"
    by (simp add: comp_def record_of_keys)
  have "list_all (\<lambda>l. l \<noteq> [] \<and> list_all (\<lambda>c. \<not> is_break c) l) ls"
    unfolding ls_def using assms(2) by (intro serialized_unbroken[OF w len]) (auto simp: wire_ok_def)
  moreover have "is_break lf" "is_break cr" by (simp_all add: is_break_def ord_of_def)
  ultimately show "list_all flat_line ls"
    by (auto simp: list_all_iff flat_line_def)
  have "unescaped (record_line r)" if "writable r" for r
    unfolding record_line_def by (rule unescaped_dumps[OF record_object[OF that]])
  then show "list_all unescaped ls"
    using w unescaped_dumps[OF header_plain[OF len]]
    unfolding ls_def serialize_exchange_def header_line_object by (simp add: list_all_iff)
  show "push_body s rs t = join LF ls" unfolding push_body_def ls_def ..
  show "\<exists>b. parse_exchange ls = Inr b \<and> x_records b = ?rs"
    unfolding ls_def using parse_serialized[OF w d len] by blast
  show "rows_of ?rs = Some rs"
    using assms(1) by (intro rows_of_records) (simp add: sendable_def list_all_iff)
qed

lemma header_read:
  assumes "length rs < DIGIT_LIMIT"
  shows "loads (hd (serialize_exchange sha256 rs schema source t)) = Some (J_obj (header_object sha256 schema source t rs))"
    "tl (serialize_exchange sha256 rs schema source t) = map record_line rs"
    "jget ''payload_sha256'' (header_object sha256 schema source t rs) = J_str (payload_digest sha256 (map record_line rs))"
    "map_of (header_object sha256 schema source t rs) ''schema_version'' = Some (J_str schema)"
proof -
  show "loads (hd (serialize_exchange sha256 rs schema source t)) = Some (J_obj (header_object sha256 schema source t rs))"
    using loads_dumps[OF header_plain[OF assms]] by (simp add: serialize_exchange_def header_line_object del: dumps.simps)
qed (simp_all add: serialize_exchange_def header_object_def jget_def)

text \<open>The upload of a field that carries a batch: it is the merge of the batch.\<close>

lemma upload_merges:
  assumes "verify_offline_token sg now token \<noteq> None" and "utf8_length payload \<le> MAX_OFFLINE_BYTES"
    and "canonical_lines payload = serialize_exchange sha256 xs schema source t" and "length xs < DIGIT_LIMIT"
    and "parse_exchange (serialize_exchange sha256 xs schema source t) = Inr b" and "rows_of (x_records b) = Some rs"
    and "server = [] \<or> schema = server"
  shows "offline_upload sg sha256 server now token payload w =
    (case merge_transaction rs (rollback w) of
       (Inl x, w1) \<Rightarrow> (Offline_error x, w1)
     | (Inr rep, w1) \<Rightarrow> (Success_page (operations_inserted rep + cash_inserted rep + sum_list (map snd (reference_inserted rep)))
          (operations_inserted rep) (cash_inserted rep), w1))"
  using assms header_read[OF assms(4), of sha256 schema source t]
  by (auto simp: offline_upload_def schema_version_ok_def Let_def)

text \<open>C17: the offline file delivers: its text contains no closing script tag in any case, so the data stays data;
  building it stamps nothing; and when it is uploaded unchanged with a valid token to a server of the
  same schema, whatever the browser did to its newlines, the server ends up exactly as if it had
  merged the exported rows directly, and answers with the counts of what it inserted.\<close>

theorem offline_file_delivered:
  assumes "offline_export e s u w = (Export_file html, w1)" and "rs = fst (collect_push_records (cur w))"
    and "sendable (updated_at_of s) rs" and "wire_ok (sha256_of s) (client_schema s) (source_device s) (utcnow e (ticks w))"
    and "verify_offline_token sg now token \<noteq> None" and "server = [] \<or> client_schema s = server"
    and "payload \<in> {restored html, form_newlines (restored html)}" and "utf8_length payload \<le> MAX_OFFLINE_BYTES"
    and "merge_ok rs (saved v)"
  shows "\<not> occurs_ci CLOSE_TAG html \<and> cur w1 = cur w \<and> saved w1 = saved w
    \<and> (\<exists>v1. offline_upload sg (sha256_of s) server now token payload v
         = (Success_page (operations_inserted (merged_report rs (saved v)) + cash_inserted (merged_report rs (saved v))
              + sum_list (map snd (reference_inserted (merged_report rs (saved v)))))
            (operations_inserted (merged_report rs (saved v))) (cash_inserted (merged_report rs (saved v))), v1)
       \<and> saved v1 = merge_result rs (saved v))"
proof -
  have html: "html = embedded (push_body s rs (utcnow e (ticks w)))" and idle: "cur w1 = cur w \<and> saved w1 = saved w"
    using assms(1,2) by (auto simp: offline_export_def utcnow_iso_def split_beta split: if_splits)
  let ?xs = "map (record_of (updated_at_of s)) rs"
  let ?ls = "serialize_exchange (sha256_of s) ?xs (client_schema s) (source_device s) (utcnow e (ticks w))"
  note l = exported_lines[OF assms(3,4)]
  have "unescaped LF" by code_simp
  then have "unescaped (push_body s rs (utcnow e (ticks w)))"
    unfolding l(3) using l(2) by (rule unescaped_join)
  then have "\<not> occurs_ci ESCAPED_TAG (push_body s rs (utcnow e (ticks w)))"
    using occurs_tag_ESC by (auto simp: unescaped_def)
  then have came_back: "restored html = join LF ?ls" unfolding html using l(3) restored_embedded by simp
  have "?ls \<noteq> []" by (simp add: serialize_exchange_def)
  from field_lines[OF this l(1)] have lns: "canonical_lines payload = ?ls" using assms(7) came_back by auto
  obtain b where b: "parse_exchange ?ls = Inr b" "x_records b = ?xs" using l(4) by blast
  have len: "length ?xs < DIGIT_LIMIT" using assms(3) by (simp add: sendable_def)
  have rows: "rows_of (x_records b) = Some rs" using b(2) l(5) by simp
  have "saved (rollback v) = saved v" by (simp add: rollback_def)
  with assms(9) have "\<exists>v1. offline_upload sg (sha256_of s) server now token payload v
         = (Success_page (operations_inserted (merged_report rs (saved v)) + cash_inserted (merged_report rs (saved v))
              + sum_list (map snd (reference_inserted (merged_report rs (saved v)))))
            (operations_inserted (merged_report rs (saved v))) (cash_inserted (merged_report rs (saved v))), v1)
       \<and> saved v1 = merge_result rs (saved v)"
    unfolding upload_merges[OF assms(5,8) lns len b(1) rows assms(6)] merge_transaction_eq by simp
  with idle html embedded_no_tag show ?thesis by blast
qed

section \<open>The gates of the upload\<close>

text \<open>The upload is all or nothing: only a body whose token was minted for uploads, whose digest is that of its
  record lines, whose schema is the server's and that parses is merged, and then the tables are the
  union of the stored rows and the body's; every other answer leaves the database as it was.\<close>

theorem offline_all_or_nothing:
  assumes "offline_upload sg sha256 server now token payload w = (reply, w1)"
  shows "(\<forall>n o1 c. reply \<noteq> Success_page n o1 c) \<and> saved w1 = saved w
    \<or> (\<exists>c b rs header. sg_loads sg now OFFLINE_TOKEN_TTL token = Some c \<and> map_of c ''scope'' = Some OFFLINE_TOKEN_SCOPE
         \<and> loads (hd (canonical_lines payload)) = Some (J_obj header)
         \<and> jget ''payload_sha256'' header = J_str (payload_digest sha256 (tl (canonical_lines payload)))
         \<and> (server = [] \<or> map_of header ''schema_version'' = Some (J_str server))
         \<and> parse_exchange (canonical_lines payload) = Inr b \<and> rows_of (x_records b) = Some rs
         \<and> replica_of (saved w1) = replica_union (replica_of_batch rs) (replica_of (saved w)))"
proof (cases "\<exists>n o1 c. reply = Success_page n o1 c")
  case True
  have roll: "saved (rollback w) = saved w" by (simp add: rollback_def)
  from True assms show ?thesis
    by (auto simp: offline_upload_def verify_offline_token_def schema_version_ok_def Let_def merge_transaction_Inr roll
        replica_merge_result split: if_splits option.splits json.splits sum.splits prod.splits)
next
  case False
  then have "saved w1 = saved w"
    using assms by (auto simp: offline_upload_def Let_def merge_transaction_eq rollback_def
        split: if_splits option.splits json.splits sum.splits)
  with False show ?thesis by blast
qed

end
