(* ===== verification/Calendar.thy ===== *)
theory Calendar
  imports Session "HOL-Library.Product_Lexorder"
begin

text \<open>
  Day arithmetic and instants, as the services use \<open>datetime.date\<close>, \<open>timedelta\<close> and aware UTC
  \<open>datetime\<close> values: proleptic Gregorian ordinals are the inverse of \<open>ord2ymd\<close> and grow with the
  date; an instant is a count of microseconds, and its ISO text sorts as the instants do, also
  across the second where \<open>isoformat\<close> drops the fraction. The list pages and the contact rows rely
  on that order.
\<close>

section \<open>Ordinals\<close>

text \<open>\<open>date.max.toordinal()\<close>.\<close>

definition MAX_ORDINAL :: nat where
  "MAX_ORDINAL = 3652059"

lemma year_split:
  assumes "b < 4" "c < 25" "d < 4"
  shows "days_before_year (400 * a + 100 * b + 4 * c + d + 1) = 146097 * a + 36524 * b + 1461 * c + 365 * d"
proof -
  let ?z = "400 * a + 100 * b + 4 * c + d"
  have "4 * c + d < 100" using assms by linarith
  moreover have "100 * b + 4 * c + d < 400" using assms by linarith
  ultimately have h: "?z div 4 = 100 * a + 25 * b + c" "?z div 100 = 4 * a + b" "?z div 400 = a"
    using assms by linarith+
  have s: "?z + 1 - 1 = ?z" by simp
  have "?z * 365 + ?z div 4 - ?z div 100 + ?z div 400 = 146097 * a + 36524 * b + 1461 * c + 365 * d"
    unfolding h by (simp add: algebra_simps)
  then show ?thesis unfolding days_before_year_def Let_def s .
qed

lemma mod_top: "0 < x \<Longrightarrow> x \<le> n \<Longrightarrow> x mod n = 0 \<longleftrightarrow> x = (n :: nat)"
  by (cases "x = n") auto

lemma leap_split:
  assumes "b < 4" "c < 25" "d < 4"
  shows "is_leap (400 * a + 100 * b + 4 * c + d + 1) \<longleftrightarrow> d = 3 \<and> (c = 24 \<longrightarrow> b = 3)"
proof -
  let ?y = "400 * a + 100 * b + 4 * c + d + 1"
  have "?y = (d + 1) + 4 * (100 * a + 25 * b + c)" by simp
  then have "?y mod 4 = (d + 1) mod 4" by (metis mod_mult_self2)
  then have m4: "?y mod 4 = 0 \<longleftrightarrow> d = 3" using assms mod_top[of "d + 1" 4] by simp
  have "?y = (4 * c + d + 1) + 100 * (4 * a + b)" by simp
  then have "?y mod 100 = (4 * c + d + 1) mod 100" by (metis mod_mult_self2)
  moreover have "4 * c + d + 1 = 100 \<longleftrightarrow> c = 24 \<and> d = 3" using assms by (intro iffI conjI) linarith+
  ultimately have m100: "?y mod 100 = 0 \<longleftrightarrow> c = 24 \<and> d = 3"
    using assms mod_top[of "4 * c + d + 1" 100] by simp
  have "?y = (100 * b + 4 * c + d + 1) + 400 * a" by simp
  then have "?y mod 400 = (100 * b + 4 * c + d + 1) mod 400" by (metis mod_mult_self2)
  moreover have "100 * b + 4 * c + d + 1 = 400 \<longleftrightarrow> b = 3 \<and> c = 24 \<and> d = 3" using assms by (intro iffI conjI) linarith+
  ultimately have m400: "?y mod 400 = 0 \<longleftrightarrow> b = 3 \<and> c = 24 \<and> d = 3"
    using assms mod_top[of "100 * b + 4 * c + d + 1" 400] by simp
  show ?thesis unfolding is_leap_def m4 m100 m400 using assms by blast
qed

text \<open>A number of years, or of days, in its 400-, 100-, 4- and 1-year parts.\<close>

lemma parts_of:
  fixes z :: nat
  obtains a b c d where "z = 400 * a + 100 * b + 4 * c + d" "b < 4" "c < 25" "d < 4"
proof
  show "z = 400 * (z div 400) + 100 * (z mod 400 div 100) + 4 * (z mod 400 mod 100 div 4) + z mod 400 mod 100 mod 4"
    by (simp only: add.assoc mult_div_mod_eq)
  show "z mod 400 div 100 < 4" "z mod 400 mod 100 div 4 < 25" "z mod 400 mod 100 mod 4 < 4"
    by (simp_all add: less_mult_imp_div_less)
qed

definition year_days :: "nat \<Rightarrow> nat" where
  "year_days y = (if is_leap y then 366 else 365)"

lemma month_sums:
  "days_before_month y 1 = 0" "days_before_month y 13 = year_days y"
  by (simp_all add: numeral_eq_Suc year_days_def days_in_month_def)

lemma days_before_step: "1 \<le> m \<Longrightarrow> days_before_month y (Suc m) = days_before_month y m + days_in_month y m"
  by simp

lemma month_day_spec:
  "1 \<le> m \<Longrightarrow> m \<le> 12 \<Longrightarrow> days_before_month y m + n < year_days y \<Longrightarrow>
     (case month_day y m n of (k, d) \<Rightarrow> m \<le> k \<and> k \<le> 12 \<and> 1 \<le> d \<and> d \<le> days_in_month y k
        \<and> days_before_month y k + d = days_before_month y m + n + 1)"
proof (induction y m n rule: month_day.induct)
  case (1 y m n)
  show ?case
  proof (cases "n < days_in_month y m")
    case True
    then show ?thesis using 1(2,3) by (subst month_day.simps) simp
  next
    case False
    have "m \<noteq> 12"
    proof
      assume "m = 12"
      with False 1(4) month_sums(2)[of y] days_before_step[of 12 y] show False by simp
    qed
    with 1(3) have m: "m + 1 \<le> 12" by simp
    have st: "days_before_month y (m + 1) = days_before_month y m + days_in_month y m"
      using 1(2) days_before_step[of m y] by simp
    from False m have c: "\<not> (12 \<le> m \<or> n < days_in_month y m)" by simp
    have "case month_day y (m + 1) (n - days_in_month y m) of (k, d) \<Rightarrow> m + 1 \<le> k \<and> k \<le> 12 \<and> 1 \<le> d
        \<and> d \<le> days_in_month y k
        \<and> days_before_month y k + d = days_before_month y (m + 1) + (n - days_in_month y m) + 1"
      using 1(1)[OF c] m 1(4) False st by simp
    moreover have "month_day y m n = month_day y (m + 1) (n - days_in_month y m)"
      using c by (subst month_day.simps) simp
    ultimately show ?thesis using st False by (auto split: prod.splits)
  qed
qed

lemma days_before_year_Suc: "1 \<le> y \<Longrightarrow> days_before_year (Suc y) = days_before_year y + year_days y"
proof -
  assume "1 \<le> y"
  then obtain z where y: "y = z + 1" by (metis le_iff_add add.commute)
  obtain a b c d where z: "z = 400 * a + 100 * b + 4 * c + d" and r: "b < 4" "c < 25" "d < 4"
    by (rule parts_of)
  have y1: "y = 400 * a + 100 * b + 4 * c + d + 1" using y z by simp
  note here = year_split[OF r, of a, folded y1] leap_split[OF r, of a, folded y1]
  consider "d < 3" | "d = 3" "c < 24" | "d = 3" "c = 24" "b < 3" | "d = 3" "c = 24" "b = 3"
    using r by linarith
  then show ?thesis
  proof cases
    case 1
    then have "Suc y = 400 * a + 100 * b + 4 * c + (d + 1) + 1" using y1 by simp
    with year_split[of b c "d + 1" a] r 1 here show ?thesis by (simp add: year_days_def)
  next
    case 2
    then have "Suc y = 400 * a + 100 * b + 4 * (c + 1) + 0 + 1" using y1 by simp
    with year_split[of b "c + 1" 0 a] r 2 here show ?thesis by (simp add: year_days_def)
  next
    case 3
    then have "Suc y = 400 * a + 100 * (b + 1) + 4 * 0 + 0 + 1" using y1 by simp
    with year_split[of "b + 1" 0 0 a] r 3 here show ?thesis by (simp add: year_days_def)
  next
    case 4
    then have "Suc y = 400 * (a + 1) + 100 * 0 + 4 * 0 + 0 + 1" using y1 by simp
    with year_split[of 0 0 0 "a + 1"] r 4 here show ?thesis by (simp add: year_days_def)
  qed
qed

text \<open>A date of the proleptic calendar, whatever its year.\<close>

definition month_ok :: "date \<Rightarrow> bool" where
  "month_ok g \<longleftrightarrow> 1 \<le> dyear g \<and> 1 \<le> dmonth g \<and> dmonth g \<le> 12 \<and> 1 \<le> dday g
     \<and> dday g \<le> days_in_month (dyear g) (dmonth g)"

lemma valid_date_month_ok: "valid_date g \<longleftrightarrow> month_ok g \<and> dyear g \<le> 9999"
  by (auto simp: valid_date_def month_ok_def)

lemma december: "ymd2ord (Date y 12 31) = days_before_year y + year_days y"
  using month_sums(2)[of y] days_before_step[of 12 y] by (simp add: ymd2ord_def days_in_month_def)

lemma ord2ymd_spec:
  assumes "1 \<le> k"
  shows "month_ok (ord2ymd k) \<and> ymd2ord (ord2ymd k) = k"
proof -
  define a where "a = (k - 1) div 146097"
  define ra where "ra = (k - 1) mod 146097"
  define b where "b = ra div 36524"
  define rb where "rb = ra mod 36524"
  define c where "c = rb div 1461"
  define rc where "rc = rb mod 1461"
  define d where "d = rc div 365"
  define n where "n = rc mod 365"
  define y where "y = a * 400 + 1 + b * 100 + c * 4 + d"
  have k: "k = 146097 * a + ra + 1" using assms by (simp add: a_def ra_def)
  have ra: "ra = 36524 * b + rb" "ra < 146097" by (simp_all add: b_def rb_def ra_def)
  have rb: "rb = 1461 * c + rc" "rb < 36524" by (simp_all add: c_def rc_def rb_def)
  have rc: "rc = 365 * d + n" "rc < 1461" "n < 365" by (simp_all add: d_def n_def rc_def)
  have o: "ord2ymd k = (if d = 4 \<or> b = 4 then Date (y - 1) 12 31
      else (let (m, dd) = month_day y 1 n in Date y m dd))"
    unfolding ord2ymd_def Let_def y_def n_def d_def rc_def c_def rb_def b_def ra_def a_def ..
  have bounds: "b \<le> 4" "c < 25" "d \<le> 4" using ra rb rc by linarith+
  consider (century) "b = 4" | (leap) "b < 4" "d = 4" | (plain) "b < 4" "d < 4" using bounds by linarith
  then show ?thesis
  proof cases
    case century
    then have z: "rb = 0" "c = 0" "rc = 0" "d = 0" "n = 0" using ra rb rc by linarith+
    have y: "y = Suc (400 * a + 400)" using century z by (simp add: y_def)
    have "days_before_year y = 146097 * (a + 1)" using year_split[of 0 0 0 "a + 1"] by (simp add: y)
    moreover have "days_before_year y = days_before_year (y - 1) + year_days (y - 1)"
      using days_before_year_Suc[of "y - 1"] by (simp add: y)
    ultimately have "ymd2ord (Date (y - 1) 12 31) = k" using k ra century z by (simp add: december)
    then show ?thesis using o century by (simp add: month_ok_def y days_in_month_def)
  next
    case leap
    then have z: "rc = 1460" "n = 0" using rc by linarith+
    with rb have c: "c + 1 < 25" by linarith
    have y: "y = Suc (400 * a + 100 * b + 4 * (c + 1))" using leap by (simp add: y_def)
    have "days_before_year y = 146097 * a + 36524 * b + 1461 * (c + 1)"
      using year_split[of b "c + 1" 0 a] c leap by (simp add: y)
    moreover have "days_before_year y = days_before_year (y - 1) + year_days (y - 1)"
      using days_before_year_Suc[of "y - 1"] by (simp add: y)
    ultimately have "ymd2ord (Date (y - 1) 12 31) = k" using k ra rb z by (simp add: december)
    then show ?thesis using o leap by (simp add: month_ok_def y days_in_month_def)
  next
    case plain
    have y: "y = 400 * a + 100 * b + 4 * c + d + 1" by (simp add: y_def)
    have dy: "days_before_year y = 146097 * a + 36524 * b + 1461 * c + 365 * d"
      using year_split[of b c d a] plain bounds by (simp add: y)
    have "days_before_month y 1 + n < year_days y" using rc(3) by (simp add: year_days_def)
    from month_day_spec[OF _ _ this] obtain m dd where md: "month_day y 1 n = (m, dd)"
      "1 \<le> m" "m \<le> 12" "1 \<le> dd" "dd \<le> days_in_month y m" "days_before_month y m + dd = n + 1"
      by (auto split: prod.splits)
    then have "ord2ymd k = Date y m dd" using o plain by simp
    moreover have "ymd2ord (Date y m dd) = k" using md(6) dy k ra rb rc by (simp add: ymd2ord_def)
    ultimately show ?thesis using md by (simp add: month_ok_def y)
  qed
qed

lemma days_before_month_mono:
  "1 \<le> m \<Longrightarrow> m < m' \<Longrightarrow> d \<le> days_in_month y m \<Longrightarrow> days_before_month y m + d \<le> days_before_month y m'"
proof (induction m')
  case 0
  then show ?case by simp
next
  case (Suc k)
  then show ?case using days_before_step[of k y] days_before_step[of m y] by (cases "m = k") auto
qed

lemma day_in_year: "month_ok g \<Longrightarrow> days_before_month (dyear g) (dmonth g) + dday g \<le> year_days (dyear g)"
  using days_before_month_mono[of "dmonth g" 13 "dday g" "dyear g"] month_sums(2)[of "dyear g"]
  by (auto simp: month_ok_def)

lemma days_before_year_mono: "1 \<le> y \<Longrightarrow> y \<le> y' \<Longrightarrow> days_before_year y \<le> days_before_year y'"
proof (induction y')
  case 0
  then show ?case by simp
next
  case (Suc k)
  then show ?case using days_before_year_Suc[of k] by (cases "y = Suc k") auto
qed

lemma ymd2ord_step:
  assumes "month_ok a" "month_ok b" "a < b"
  shows "ymd2ord a < ymd2ord b"
proof -
  consider "dyear a < dyear b" | "dyear a = dyear b" "dmonth a < dmonth b"
    | "dyear a = dyear b" "dmonth a = dmonth b" "dday a < dday b"
    using assms(3) by (auto simp: less_date_def)
  then show ?thesis
  proof cases
    case 1
    have "ymd2ord a \<le> days_before_year (dyear a) + year_days (dyear a)"
      using day_in_year[OF assms(1)] by (simp add: ymd2ord_def)
    also have "\<dots> = days_before_year (Suc (dyear a))"
      using days_before_year_Suc assms(1) by (simp add: month_ok_def)
    also have "\<dots> \<le> days_before_year (dyear b)" using 1 by (intro days_before_year_mono) auto
    also have "\<dots> < ymd2ord b" using assms(2) by (simp add: ymd2ord_def month_ok_def)
    finally show ?thesis .
  next
    case 2
    then show ?thesis
      using days_before_month_mono[of "dmonth a" "dmonth b" "dday a" "dyear a"] assms(1,2)
      by (simp add: ymd2ord_def month_ok_def)
  qed (simp add: ymd2ord_def)
qed

text \<open>Ordinals and dates are in order-preserving bijection.\<close>

lemma ymd2ord_less: "month_ok a \<Longrightarrow> month_ok b \<Longrightarrow> ymd2ord a < ymd2ord b \<longleftrightarrow> a < b"
  using ymd2ord_step by (metis not_less_iff_gr_or_eq)

lemma ymd2ord_inject: "month_ok a \<Longrightarrow> month_ok b \<Longrightarrow> ymd2ord a = ymd2ord b \<longleftrightarrow> a = b"
  using ymd2ord_step by (metis less_irrefl linorder_neqE)

lemma ymd2ord_pos: "month_ok g \<Longrightarrow> 1 \<le> ymd2ord g"
  by (simp add: ymd2ord_def month_ok_def)

lemma ord2ymd_ymd2ord: "month_ok g \<Longrightarrow> ord2ymd (ymd2ord g) = g"
  using ord2ymd_spec[of "ymd2ord g"] ymd2ord_pos ymd2ord_inject by blast

lemma ord2ymd_less: "1 \<le> j \<Longrightarrow> 1 \<le> k \<Longrightarrow> ord2ymd j < ord2ymd k \<longleftrightarrow> j < k"
  using ord2ymd_spec ymd2ord_less by metis

lemma ord2ymd_valid:
  assumes "1 \<le> k" "k \<le> MAX_ORDINAL"
  shows "valid_date (ord2ymd k)"
proof -
  have m: "month_ok (ord2ymd k)" "ymd2ord (ord2ymd k) = k" using ord2ymd_spec assms(1) by auto
  have "dyear (ord2ymd k) \<le> 9999"
  proof (rule ccontr)
    assume "\<not> ?thesis"
    then have "days_before_year 10000 \<le> days_before_year (dyear (ord2ymd k))"
      by (intro days_before_year_mono) auto
    moreover have "days_before_year 10000 = MAX_ORDINAL" by (simp add: days_before_year_def MAX_ORDINAL_def)
    ultimately show False using m assms(2) by (simp add: ymd2ord_def month_ok_def)
  qed
  with m show ?thesis by (simp add: valid_date_month_ok)
qed

lemma valid_ordinal:
  assumes "valid_date g"
  shows "1 \<le> ymd2ord g" "ymd2ord g \<le> MAX_ORDINAL"
proof -
  have m: "month_ok g" "dyear g \<le> 9999" using assms by (auto simp: valid_date_month_ok)
  show "1 \<le> ymd2ord g" by (rule ymd2ord_pos) (rule m)
  have "month_ok (Date 9999 12 31)" by (simp add: month_ok_def days_in_month_def)
  moreover have "ymd2ord (Date 9999 12 31) = MAX_ORDINAL"
    by (simp add: december days_before_year_def year_days_def is_leap_def MAX_ORDINAL_def)
  moreover have "g \<le> Date 9999 12 31"
    using m days_in_month_le[of "dyear g" "dmonth g"] by (auto simp: less_eq_date_def month_ok_def)
  ultimately show "ymd2ord g \<le> MAX_ORDINAL" using ymd2ord_less[OF _ m(1)] by (metis not_le)
qed

section \<open>Instants\<close>

text \<open>
  An aware \<open>datetime\<close> in UTC is the count of microseconds since the day before ordinal 1. \<open>in_range\<close>
  are the instants Python can represent; arithmetic that leaves them raises \<open>OverflowError\<close>.
\<close>

definition DAY_US :: int where
  "DAY_US = 86400000000"

definition in_range :: "int \<Rightarrow> bool" where
  "in_range t \<longleftrightarrow> DAY_US \<le> t \<and> t < DAY_US * (int MAX_ORDINAL + 1)"

definition day_of :: "int \<Rightarrow> date" where
  "day_of t = ord2ymd (nat (t div DAY_US))"

definition time_of_day :: "int \<Rightarrow> nat" where
  "time_of_day t = nat (t mod DAY_US)"

definition instant :: "date \<Rightarrow> nat \<Rightarrow> int" where
  "instant g us = int (ymd2ord g) * DAY_US + int us"

text \<open>Whole seconds of the day as \<open>HH:MM:SS\<close>.\<close>

definition hh_mm_ss :: "nat \<Rightarrow> string" where
  "hh_mm_ss s = zfill 2 (s div 3600) @ '':'' @ zfill 2 (s div 60 mod 60) @ '':'' @ zfill 2 (s mod 60)"

text \<open>\<open>isoformat()\<close> shows the microseconds only when there are any; \<open>timespec="seconds"\<close> never does.\<close>

definition utc_iso :: "int \<Rightarrow> string" where
  "utc_iso t = isoformat (day_of t) @ ''T'' @ hh_mm_ss (time_of_day t div 1000000)
     @ (if time_of_day t mod 1000000 = 0 then [] else ''.'' @ zfill 6 (time_of_day t mod 1000000))
     @ ''+00:00''"

definition utc_iso_seconds :: "int \<Rightarrow> string" where
  "utc_iso_seconds t = isoformat (day_of t) @ ''T'' @ hh_mm_ss (time_of_day t div 1000000) @ ''+00:00''"

lemma in_range_day: "in_range t \<Longrightarrow> 1 \<le> nat (t div DAY_US) \<and> nat (t div DAY_US) \<le> MAX_ORDINAL"
proof -
  assume "in_range t"
  then have "1 \<le> t div DAY_US" "t div DAY_US < int MAX_ORDINAL + 1"
    by (auto simp: in_range_def DAY_US_def pos_imp_zdiv_pos_iff div_less_iff_less_mult MAX_ORDINAL_def)
  then show ?thesis by linarith
qed

lemma day_of_valid: "in_range t \<Longrightarrow> valid_date (day_of t)"
  using in_range_day ord2ymd_valid by (simp add: day_of_def)

lemma time_of_day_less: "time_of_day t < 86400000000"
proof -
  have "t mod DAY_US < 86400000000" "0 \<le> t mod DAY_US" by (simp_all add: DAY_US_def)
  then show ?thesis unfolding time_of_day_def by linarith
qed

lemma instant_split: "0 \<le> t \<Longrightarrow> t = int (nat (t div DAY_US)) * DAY_US + int (time_of_day t)"
  using pos_imp_zdiv_nonneg_iff[of DAY_US t] by (simp add: time_of_day_def DAY_US_def)

text \<open>An instant is its day and its time of day, ordered lexicographically.\<close>

lemma instant_less:
  assumes "in_range s" "in_range t"
  shows "s < t \<longleftrightarrow> day_of s < day_of t \<or> day_of s = day_of t \<and> time_of_day s < time_of_day t"
proof -
  let ?j = "nat (s div DAY_US)" and ?k = "nat (t div DAY_US)"
  have "0 \<le> s" "0 \<le> t" using assms by (auto simp: in_range_def DAY_US_def)
  then have st: "s = int ?j * 86400000000 + int (time_of_day s)" "t = int ?k * 86400000000 + int (time_of_day t)"
    using instant_split by (simp_all add: DAY_US_def)
  have d: "day_of s < day_of t \<longleftrightarrow> ?j < ?k" "day_of s = day_of t \<longleftrightarrow> ?j = ?k"
    using in_range_day[OF assms(1)] in_range_day[OF assms(2)] ord2ymd_less ord2ymd_spec
    by (auto simp: day_of_def) (metis)
  show ?thesis unfolding d using st time_of_day_less[of s] time_of_day_less[of t] by linarith
qed

lemma clock_widths:
  "n < 86400 \<Longrightarrow> length (zfill 2 (n div 3600)) = 2" "length (zfill 2 (n div 60 mod 60)) = 2"
  "length (zfill 2 (n mod 60)) = 2" "length (zfill 6 (n mod 1000000)) = 6"
proof -
  assume "n < 86400"
  then have "n div 3600 < 24" by (simp add: div_less_iff_less_mult)
  then show "length (zfill 2 (n div 3600)) = 2" by simp
next
  have "n div 60 mod 60 < 60" "n mod 60 < 60" "n mod 1000000 < 1000000" by simp_all
  then show "length (zfill 2 (n div 60 mod 60)) = 2" "length (zfill 2 (n mod 60)) = 2"
    "length (zfill 6 (n mod 1000000)) = 6" by simp_all
qed

lemma hh_mm_ss_order:
  assumes "m < 86400" "n < 86400"
  shows "hh_mm_ss m < hh_mm_ss n \<longleftrightarrow> m < n" "hh_mm_ss m = hh_mm_ss n \<longleftrightarrow> m = n"
    "length (hh_mm_ss m) = length (hh_mm_ss n)"
proof -
  have parts: "k = 3600 * (k div 3600) + 60 * (k div 60 mod 60) + k mod 60 \<and> k div 60 mod 60 < 60 \<and> k mod 60 < 60"
    for k :: nat
  proof -
    have "k = 60 * (k div 60) + k mod 60" "k div 60 = 60 * (k div 60 div 60) + k div 60 mod 60"
      by simp_all
    moreover have "k div 60 div 60 = k div 3600" by (simp add: div_mult2_eq[symmetric])
    moreover have "k div 60 mod 60 < 60 \<and> k mod 60 < 60" by simp
    ultimately show ?thesis by linarith
  qed
  have w: "hh_mm_ss m < hh_mm_ss n \<longleftrightarrow> m div 3600 < n div 3600 \<or> m div 3600 = n div 3600 \<and>
      (m div 60 mod 60 < n div 60 mod 60 \<or> m div 60 mod 60 = n div 60 mod 60 \<and> m mod 60 < n mod 60)"
    using assms by (simp add: hh_mm_ss_def less_append zfill_less zfill_eq clock_widths)
  show "hh_mm_ss m < hh_mm_ss n \<longleftrightarrow> m < n" unfolding w using parts[of m] parts[of n] by linarith
  have e: "hh_mm_ss m = hh_mm_ss n \<longleftrightarrow> m div 3600 = n div 3600 \<and> m div 60 mod 60 = n div 60 mod 60 \<and> m mod 60 = n mod 60"
    using assms by (simp add: hh_mm_ss_def zfill_eq clock_widths)
  show "hh_mm_ss m = hh_mm_ss n \<longleftrightarrow> m = n" unfolding e using parts[of m] parts[of n] by metis
  show "length (hh_mm_ss m) = length (hh_mm_ss n)" using assms by (simp add: hh_mm_ss_def clock_widths)
qed

lemma plus_before_dot: "CHR ''+'' < CHR ''.''" "\<not> CHR ''.'' < CHR ''+''"
  by (simp_all add: less_char_def)

lemma fraction_order:
  assumes "m < 1000000" "n < 1000000"
  shows "(if m = 0 then [] else ''.'' @ zfill 6 m) @ ''+00:00'' < (if n = 0 then [] else ''.'' @ zfill 6 n) @ ''+00:00''
    \<longleftrightarrow> m < n"
proof (cases "m = 0 \<or> n = 0")
  case True
  then show ?thesis using plus_before_dot by (cases "m = 0"; cases "n = 0") (simp_all add: Cons_less_Cons)
next
  case False
  have l: "length (zfill 6 m) = length (zfill 6 n)"
    using clock_widths(4)[of m] clock_widths(4)[of n] assms by (simp only: mod_less)
  have "(if m = 0 then [] else ''.'' @ zfill 6 m) @ ''+00:00'' = CHR ''.'' # zfill 6 m @ ''+00:00''"
    "(if n = 0 then [] else ''.'' @ zfill 6 n) @ ''+00:00'' = CHR ''.'' # zfill 6 n @ ''+00:00''"
    using False by simp_all
  then show ?thesis
    by (simp only: Cons_less_Cons less_append[OF l] zfill_less[OF l] less_irrefl simp_thms)
qed

text \<open>
  The ISO texts of two instants compare as the instants do. The text without a fraction is a prefix
  followed by \<open>+\<close>, which sorts before the \<open>.\<close> of every text with a fraction.
\<close>

lemma utc_iso_less:
  assumes "in_range s" "in_range t"
  shows "utc_iso s < utc_iso t \<longleftrightarrow> s < t"
proof -
  let ?d = "\<lambda>x. isoformat (day_of x)" and ?h = "\<lambda>x. hh_mm_ss (time_of_day x div 1000000)"
    and ?f = "\<lambda>x. time_of_day x mod 1000000"
  have v: "valid_date (day_of s)" "valid_date (day_of t)" using assms by (simp_all add: day_of_valid)
  have sec: "time_of_day x div 1000000 < 86400" for x
    using time_of_day_less[of x] by (simp add: div_less_iff_less_mult)
  let ?g = "\<lambda>n. (if n = 0 then [] else ''.'' @ zfill 6 n) @ ''+00:00''"
  have e: "utc_iso x = ?d x @ ''T'' @ ?h x @ ?g (?f x)" for x by (simp add: utc_iso_def)
  have g: "?g (?f s) < ?g (?f t) \<longleftrightarrow> ?f s < ?f t" by (rule fraction_order) simp_all
  have l: "length (?d s) = length (?d t)" "length (?h s) = length (?h t)"
    by (simp_all only: length_isoformat[OF v(1)] length_isoformat[OF v(2)] hh_mm_ss_order(3)[OF sec sec])
  have "utc_iso s < utc_iso t \<longleftrightarrow> ?d s < ?d t \<or> ?d s = ?d t \<and> (?h s < ?h t \<or> ?h s = ?h t \<and> ?f s < ?f t)"
    unfolding e less_append[OF l(1)] less_append[OF refl[of "length ''T''"]] less_append[OF l(2)] g by simp
  also have "\<dots> \<longleftrightarrow> day_of s < day_of t \<or> day_of s = day_of t \<and>
      (time_of_day s div 1000000 < time_of_day t div 1000000
        \<or> time_of_day s div 1000000 = time_of_day t div 1000000 \<and> ?f s < ?f t)"
    by (simp only: isoformat_less[OF v] isoformat_inject[OF v] hh_mm_ss_order(1,2)[OF sec sec])
  also have "\<dots> \<longleftrightarrow> day_of s < day_of t \<or> day_of s = day_of t \<and> time_of_day s < time_of_day t"
  proof -
    have "time_of_day x = 1000000 * (time_of_day x div 1000000) + ?f x \<and> ?f x < 1000000" for x by simp
    from this[of s] this[of t] show ?thesis by linarith
  qed
  also have "\<dots> \<longleftrightarrow> s < t" using instant_less[OF assms] by simp
  finally show ?thesis .
qed

section \<open>Weeks and months\<close>

text \<open>\<open>date.weekday()\<close>: Monday is 0.\<close>

definition weekday :: "date \<Rightarrow> nat" where
  "weekday g = (ymd2ord g + 6) mod 7"

text \<open>\<open>g + timedelta(days=n)\<close>; \<open>None\<close> is the \<open>OverflowError\<close>.\<close>

definition add_days :: "date \<Rightarrow> int \<Rightarrow> date option" where
  "add_days g n = (let k = int (ymd2ord g) + n
     in if 1 \<le> k \<and> k \<le> int MAX_ORDINAL then Some (ord2ymd (nat k)) else None)"

lemma add_days_order:
  assumes "valid_date g" "add_days g n = Some h"
  shows "valid_date h" "h < g \<longleftrightarrow> n < 0" "h = g \<longleftrightarrow> n = 0" "int (ymd2ord h) = int (ymd2ord g) + n"
proof -
  have k: "1 \<le> int (ymd2ord g) + n" "int (ymd2ord g) + n \<le> int MAX_ORDINAL" "h = ord2ymd (nat (int (ymd2ord g) + n))"
    using assms(2) by (auto simp: add_days_def Let_def split: if_splits)
  then have n: "1 \<le> nat (int (ymd2ord g) + n)" "nat (int (ymd2ord g) + n) \<le> MAX_ORDINAL" by linarith+
  show v: "valid_date h" using n ord2ymd_valid k(3) by simp
  show o: "int (ymd2ord h) = int (ymd2ord g) + n" using ord2ymd_spec[OF n(1)] k by simp
  have m: "month_ok g" "month_ok h" using assms(1) v by (auto simp: valid_date_month_ok)
  show "h < g \<longleftrightarrow> n < 0" using ymd2ord_less[OF m(2,1)] o by linarith
  show "h = g \<longleftrightarrow> n = 0" using ymd2ord_inject[OF m(2,1)] o by linarith
qed

end
