(* ===== verification/Clock.thy ===== *)
theory Clock
  imports Calendar SyncServer
begin

text \<open>
  The time-zone helpers of \<open>src/app/core.py\<close>: a stored UTC timestamp as a local day or a local display
  text. \<open>datetime.fromisoformat\<close> is modelled with the values of its parts; the time-zone database is the
  parameter \<open>tz\<close>, the offset from UTC in microseconds at an instant. The theorem: a timestamp the
  program wrote reads back as the instant it was taken at.
\<close>

section \<open>Reading a timestamp\<close>

text \<open>The first six digits after the point or comma; later ones are cut off.\<close>

definition fraction_us :: "string \<Rightarrow> nat" where
  "fraction_us s = (case dropWhile (\<lambda>c. c \<notin> {CHR ''.'', CHR '',''}) s of [] \<Rightarrow> 0
     | _ # ds \<Rightarrow> digits_val (take 6 (ds @ replicate 6 (CHR ''0''))))"

definition clock_us :: "string \<Rightarrow> nat" where
  "clock_us s = (case hh_mm_ss_ff s of None \<Rightarrow> 0
     | Some (h, m, sec) \<Rightarrow> (h * 3600 + m * 60 + sec) * 1000000 + fraction_us s)"

text \<open>The offset of the zone part; \<open>None\<close> for a naive timestamp.\<close>

definition zone_offset :: "string \<Rightarrow> int option" where
  "zone_offset z = (if z = [] then None else if z = ''Z'' then Some 0
     else Some (if hd z = CHR ''-'' then - int (clock_us (tl z)) else int (clock_us (tl z))))"

text \<open>\<open>datetime.fromisoformat\<close>: the wall-clock instant and its offset; \<open>None\<close> is the \<open>ValueError\<close>.\<close>

definition parse_datetime :: "string \<Rightarrow> (int \<times> int option) option" where
  "parse_datetime s =
     (if \<not> datetime_ok s then None
      else case datetime_separator s of None \<Rightarrow> None
      | Some n \<Rightarrow> (case fromisoformat (take n s) of None \<Rightarrow> None
          | Some g \<Rightarrow> (let t = drop (Suc n) s;
                          clock = takeWhile (\<lambda>c. c \<notin> {CHR ''+'', CHR ''-'', CHR ''Z''}) t
                      in Some (instant g (clock_us clock), zone_offset (drop (length clock) t)))))"

text \<open>\<open>moment.replace(tzinfo=UTC)\<close> when naive, then \<open>astimezone\<close>; both steps may leave the range.\<close>

definition to_local :: "(int \<Rightarrow> int) \<Rightarrow> int \<times> int option \<Rightarrow> exn + int" where
  "to_local tz m =
     (let utc = fst m - (case snd m of None \<Rightarrow> 0 | Some off \<Rightarrow> off)
      in if \<not> in_range utc \<or> \<not> in_range (utc + tz utc) then Inl OverflowError else Inr (utc + tz utc))"

definition hh_mm :: "int \<Rightarrow> string" where
  "hh_mm t = take 5 (hh_mm_ss (time_of_day t div 1000000))"

definition iso_to_local :: "(int \<Rightarrow> int) \<Rightarrow> string option \<Rightarrow> exn + string" where
  "iso_to_local tz stamp =
     (if or_empty stamp = [] then Inr []
      else case parse_datetime (or_empty stamp) of None \<Rightarrow> Inr (or_empty stamp)
      | Some m \<Rightarrow> (case to_local tz m of Inl x \<Rightarrow> Inl x
          | Inr t \<Rightarrow> Inr (ru_format (day_of t) @ '' '' @ hh_mm t)))"

definition local_day_of :: "(int \<Rightarrow> int) \<Rightarrow> string option \<Rightarrow> exn + date option" where
  "local_day_of tz stamp =
     (if or_empty stamp = [] then Inr None
      else case parse_datetime (or_empty stamp) of None \<Rightarrow> Inr None
      | Some m \<Rightarrow> (case to_local tz m of Inl x \<Rightarrow> Inl x | Inr t \<Rightarrow> Inr (Some (day_of t))))"

section \<open>Written timestamps read back\<close>

lemma two_digits_zfill: "n < 100 \<Longrightarrow> two_digits (zfill 2 n @ r) = Some (n, r)"
proof -
  assume "n < 100"
  then have "length (zfill 2 n) = 2" by simp
  then show ?thesis by (simp add: two_digits_def)
qed

lemma hms_parts: "s < 86400 \<Longrightarrow> s div 3600 < 24" "s div 60 mod 60 < (60::nat)" "s mod 60 < (60::nat)"
  by (simp_all add: div_less_iff_less_mult)

lemma hms_value: "(s div 3600) * 3600 + (s div 60 mod 60) * 60 + s mod 60 = (s::nat)"
proof -
  have "s div 60 div 60 = s div 3600" by (simp add: div_mult2_eq[symmetric])
  moreover have "s = 60 * (s div 60) + s mod 60" "s div 60 = 60 * (s div 60 div 60) + s div 60 mod 60" by simp_all
  ultimately show ?thesis by linarith
qed

lemma read_hms:
  assumes "s < 86400" "r = [] \<or> (\<exists>ds. r = CHR ''.'' # ds \<and> ds \<noteq> [] \<and> list_all is_dig ds)"
  shows "hh_mm_ss_ff (hh_mm_ss s @ r) = Some (s div 3600, s div 60 mod 60, s mod 60)"
proof -
  have b: "s div 3600 < 100" "s div 60 mod 60 < 100" "s mod 60 < 100"
    using hms_parts[of s] assms(1) by linarith+
  have e: "hh_mm_ss s @ r = zfill 2 (s div 3600) @ CHR '':'' # zfill 2 (s div 60 mod 60) @ CHR '':'' # zfill 2 (s mod 60) @ r"
    by (simp add: hh_mm_ss_def)
  show ?thesis unfolding e hh_mm_ss_ff_def two_digits_zfill[OF b(1)]
    using assms(2) two_digits_zfill[OF b(2)] two_digits_zfill[OF b(3)] by (auto simp: Let_def)
qed

lemma hms_no_zone:
  assumes "s < 86400"
  shows "\<forall>c\<in>set (hh_mm_ss s). c \<notin> {CHR ''+'', CHR ''-'', CHR ''Z''} \<and> c \<notin> {CHR ''.'', CHR '',''}"
proof -
  have d: "is_dig c \<or> c = CHR '':'' \<Longrightarrow> c \<notin> {CHR ''+'', CHR ''-'', CHR ''Z''} \<and> c \<notin> {CHR ''.'', CHR '',''}" for c
    by (auto simp: is_dig_def ord_of_def)
  have z: "c \<in> set (zfill w n) \<Longrightarrow> is_dig c" for c w n using zfill_digs by (metis list_all_iff)
  have "is_dig c \<or> c = CHR '':''" if "c \<in> set (hh_mm_ss s)" for c
    using that unfolding hh_mm_ss_def set_append using z by auto
  then show ?thesis using d by blast
qed

definition fraction_text :: "nat \<Rightarrow> string" where
  "fraction_text f = (if f = 0 then [] else ''.'' @ zfill 6 f)"

lemma fraction_clock:
  assumes "s < 86400" "f < 1000000"
  shows "clock_us (hh_mm_ss s @ fraction_text f) = s * 1000000 + f"
    "takeWhile (\<lambda>c. c \<notin> {CHR ''+'', CHR ''-'', CHR ''Z''}) (hh_mm_ss s @ fraction_text f @ ''+00:00'')
       = hh_mm_ss s @ fraction_text f"
proof -
  let ?P = "\<lambda>c. c \<notin> {CHR ''.'', CHR '',''}" and ?Q = "\<lambda>c. c \<notin> {CHR ''+'', CHR ''-'', CHR ''Z''}"
  have l: "length (zfill 6 f) = 6" using assms(2) by simp
  have digs: "\<forall>c\<in>set (zfill 6 f). is_dig c" using zfill_digs by (simp add: list_all_iff)
  have skip: "dropWhile ?P (hh_mm_ss s @ r) = dropWhile ?P r" for r
    using hms_no_zone[OF assms(1)] by (intro dropWhile_append2) auto
  have fr: "fraction_us (hh_mm_ss s @ fraction_text f) = f"
    unfolding fraction_us_def skip using l by (simp add: fraction_text_def)
  have "fraction_text f = [] \<or> (\<exists>ds. fraction_text f = CHR ''.'' # ds \<and> ds \<noteq> [] \<and> list_all is_dig ds)"
    by (simp add: fraction_text_def)
  from read_hms[OF assms(1) this] show "clock_us (hh_mm_ss s @ fraction_text f) = s * 1000000 + f"
    by (simp only: clock_us_def option.case prod.case fr hms_value)
  have "\<forall>c\<in>set (fraction_text f). ?Q c" using digs by (auto simp: fraction_text_def is_dig_def ord_of_def)
  then have "\<forall>c\<in>set (hh_mm_ss s @ fraction_text f). ?Q c" using hms_no_zone[OF assms(1)] by auto
  then show "takeWhile ?Q (hh_mm_ss s @ fraction_text f @ ''+00:00'') = hh_mm_ss s @ fraction_text f"
    unfolding append_assoc[symmetric] by (subst takeWhile_append2) auto
qed

lemma utc_zone: "zone_ok ''+00:00''" "zone_offset ''+00:00'' = Some 0"
  by (simp_all add: zone_ok_def zone_offset_def clock_us_def fraction_us_def hh_mm_ss_ff_def two_digits_def
      digits_opt_def is_dig_def digit_val_def ord_of_def)

lemma parse_utc:
  assumes "valid_date g" "s < 86400" "f < 1000000"
  shows "parse_datetime (isoformat g @ ''T'' @ hh_mm_ss s @ fraction_text f @ ''+00:00'')
    = Some (instant g (s * 1000000 + f), Some 0)"
proof -
  let ?t = "hh_mm_ss s @ fraction_text f @ ''+00:00''"
  let ?s = "isoformat g @ ''T'' @ ?t"
  have l: "length (isoformat g) = 10" using assms(1) by (rule length_isoformat)
  have w: "length (zfill 4 (dyear g)) = 4" using valid_date_widths[OF assms(1)] by simp
  have dash: "?s ! 4 = CHR ''-''" "?s ! 5 \<noteq> CHR ''W''"
  proof -
    show "?s ! 4 = CHR ''-''" using w by (simp add: isoformat_def nth_append)
    have m: "length (zfill 2 (dmonth g)) = 2" using valid_date_widths[OF assms(1)] by simp
    then have "?s ! 5 = zfill 2 (dmonth g) ! 0" using w by (simp add: isoformat_def nth_append)
    also have "\<dots> \<in> set (zfill 2 (dmonth g))" using m by simp
    finally have "is_dig (?s ! 5)" using zfill_digs[of 2 "dmonth g"] by (auto simp: list_all_iff)
    then show "?s ! 5 \<noteq> CHR ''W''" by (auto simp: is_dig_def ord_of_def)
  qed
  have sep: "datetime_separator ?s = Some 10" using dash l by (simp add: datetime_separator_def)
  have tk: "take 10 ?s = isoformat g" "drop (Suc 10) ?s = ?t" using l by simp_all
  note clock = fraction_clock[OF assms(2,3)]
  have "fraction_text f = [] \<or> (\<exists>ds. fraction_text f = CHR ''.'' # ds \<and> ds \<noteq> [] \<and> list_all is_dig ds)"
    by (simp add: fraction_text_def)
  note hms = read_hms[OF assms(2) this]
  have rest: "drop (length (hh_mm_ss s @ fraction_text f)) ?t = ''+00:00''" by simp
  have "2 \<le> length ?t" by simp
  then have "time_ok ?t" unfolding time_ok_def Let_def clock(2) hms rest
    using utc_zone(1) hms_parts[of s] assms(2) by simp
  then have "datetime_ok ?s"
    unfolding datetime_ok_def sep using tk l fromisoformat_isoformat[OF assms(1)] by simp
  then show ?thesis unfolding parse_datetime_def sep Let_def using tk fromisoformat_isoformat[OF assms(1)]
    by (simp only: option.case clock rest utc_zone simp_thms if_False)
qed

lemma instant_of_parts: "in_range t \<Longrightarrow> instant (day_of t) (time_of_day t) = t"
proof -
  assume r: "in_range t"
  then have "ymd2ord (day_of t) = nat (t div DAY_US)" using ord2ymd_spec in_range_day by (simp add: day_of_def)
  moreover have "0 \<le> t" using r by (auto simp: in_range_def DAY_US_def)
  ultimately show ?thesis using instant_split[of t] by (simp add: instant_def)
qed

text \<open>A timestamp the program writes reads back as the instant it was taken at, to the microsecond.\<close>

lemma timestamp_roundtrip: "in_range t \<Longrightarrow> parse_datetime (utc_iso t) = Some (t, Some 0)"
proof -
  assume r: "in_range t"
  let ?s = "time_of_day t div 1000000" and ?f = "time_of_day t mod 1000000"
  have s: "?s < 86400" using time_of_day_less[of t] by (simp add: div_less_iff_less_mult)
  have e: "utc_iso t = isoformat (day_of t) @ ''T'' @ hh_mm_ss ?s @ fraction_text ?f @ ''+00:00''"
    by (simp add: utc_iso_def fraction_text_def)
  have "?s * 1000000 + ?f = time_of_day t" by simp
  then show ?thesis
    unfolding e using parse_utc[OF day_of_valid[OF r] s, of ?f] instant_of_parts[OF r] by simp
qed

text \<open>\<open>utcnow_iso\<close> cuts the reading to whole seconds.\<close>

lemma seconds_text: "utc_iso_seconds t = utc_iso (t - t mod 1000000)"
proof -
  let ?u = "t - t mod 1000000"
  have u: "?u = 1000000 * (t div 1000000)" by (simp add: minus_mod_eq_mult_div)
  have d: "?u div DAY_US = t div DAY_US"
  proof -
    have "?u div DAY_US = t div 1000000 div 86400" unfolding u DAY_US_def
      using zdiv_zmult2_eq[of 86400 "1000000 * (t div 1000000)" 1000000] by simp
    also have "\<dots> = t div DAY_US" using zdiv_zmult2_eq[of 86400 t 1000000] by (simp add: DAY_US_def)
    finally show ?thesis .
  qed
  have m: "?u mod DAY_US = t mod DAY_US - t mod 1000000"
    using d by (simp add: minus_div_mult_eq_mod[symmetric])
  have k: "t mod DAY_US mod 1000000 = t mod 1000000" by (rule mod_mod_cancel) (simp add: DAY_US_def)
  let ?r = "t mod DAY_US"
  have nn: "0 \<le> ?r" by (simp add: DAY_US_def)
  have "?u mod DAY_US = 1000000 * (?r div 1000000)" using m k by (simp add: minus_mod_eq_mult_div[symmetric])
  then have tu: "time_of_day ?u = 1000000 * (time_of_day t div 1000000)"
    unfolding time_of_day_def using nn by (simp add: nat_mult_distrib nat_div_distrib pos_imp_zdiv_nonneg_iff)
  show ?thesis by (simp add: utc_iso_seconds_def utc_iso_def day_of_def d tu)
qed

lemma in_range_seconds: "in_range t \<Longrightarrow> in_range (t - t mod 1000000)"
proof -
  assume "in_range t"
  moreover have "0 \<le> t mod 1000000" "t - t mod 1000000 = 1000000 * (t div 1000000)"
    by (simp_all add: minus_mod_eq_mult_div)
  moreover have "86400 \<le> t div 1000000" if "86400000000 \<le> t" using that by linarith
  ultimately show ?thesis by (auto simp: in_range_def DAY_US_def)
qed

lemma local_day_of_written:
  assumes "in_range t" "in_range (t + tz t)"
  shows "local_day_of tz (Some (utc_iso t)) = Inr (Some (day_of (t + tz t)))"
proof -
  have "utc_iso t \<noteq> []" by (simp add: utc_iso_def)
  then show ?thesis using assms by (simp add: local_day_of_def timestamp_roundtrip to_local_def)
qed

end
