(* ===== verification/Search.thy ===== *)
theory Search
  imports Catalog Paging Moves "HOL-Library.Product_Lexorder"
begin

text \<open>
  Finding product cards: the list and search functions of \<open>src/app/services/catalog.py\<close> and
  \<open>src/app/services/active_catalog.py\<close> apart. \<open>LIKE\<close> is modelled as SQLite runs it (ASCII letters fold,
  \<open>%\<close>, \<open>_\<close> and the escape character), so the lemmas can show that the escaping of the search box
  makes every character of the query literal.
\<close>

section \<open>LIKE\<close>

text \<open>SQLite's \<open>lower()\<close> and the case folding of its \<open>LIKE\<close>: the ASCII letters only.\<close>

definition fold_char :: "char \<Rightarrow> char" where
  "fold_char c = (if 65 \<le> ord_of c \<and> ord_of c \<le> 90 then char_of (ord_of c + 32) else c)"

definition sql_lower :: "string \<Rightarrow> string" where
  "sql_lower s = map fold_char s"

text \<open>\<open>s LIKE pattern ESCAPE esc\<close>; an escape character at the end of the pattern matches nothing.\<close>

fun like :: "char \<Rightarrow> string \<Rightarrow> string \<Rightarrow> bool" where
  "like esc [] s \<longleftrightarrow> s = []"
| "like esc (p # ps) [] \<longleftrightarrow> p \<noteq> esc \<and> p = CHR ''%'' \<and> like esc ps []"
| "like esc (p # ps) (c # s) \<longleftrightarrow>
     (if p = esc then (case ps of [] \<Rightarrow> False | q # qs \<Rightarrow> fold_char q = fold_char c \<and> like esc qs s)
      else if p = CHR ''%'' then like esc ps (c # s) \<or> like esc (p # ps) s
      else (p = CHR ''_'' \<or> fold_char p = fold_char c) \<and> like esc ps s)"

text \<open>Every special character of the query preceded by the escape character: \<open>_escape_like\<close> with a
  backslash, \<open>contains(..., autoescape=True)\<close> with a slash.\<close>

definition escape_like :: "char \<Rightarrow> string \<Rightarrow> string" where
  "escape_like esc q = concat (map (\<lambda>c. if c = esc \<or> c = CHR ''%'' \<or> c = CHR ''_'' then [esc, c] else [c]) q)"

definition like_contains :: "string option \<Rightarrow> string \<Rightarrow> bool" where
  "like_contains col q = (case col of None \<Rightarrow> False
     | Some s \<Rightarrow> like (CHR ''/'') (''%'' @ escape_like (CHR ''/'') q @ ''%'') s)"

definition code_prefix :: "string option \<Rightarrow> string \<Rightarrow> bool" where
  "code_prefix col q = (case col of None \<Rightarrow> False
     | Some s \<Rightarrow> like (CHR 0x5C) (escape_like (CHR 0x5C) q @ ''%'') (sql_lower s))"

lemma like_percent: "esc \<noteq> CHR ''%'' \<Longrightarrow> like esc ''%'' s"
  by (induction s) auto

lemma like_literal:
  assumes "esc \<noteq> CHR ''%''" "esc \<noteq> CHR ''_''"
  shows "like esc (escape_like esc q @ pat) s \<longleftrightarrow>
    length q \<le> length s \<and> sql_lower (take (length q) s) = sql_lower q \<and> like esc pat (drop (length q) s)"
proof (induction q arbitrary: s)
  case Nil
  then show ?case by (simp add: escape_like_def sql_lower_def)
next
  case (Cons c q)
  have e: "escape_like esc (c # q) = (if c = esc \<or> c = CHR ''%'' \<or> c = CHR ''_'' then [esc, c] else [c]) @ escape_like esc q"
    by (simp add: escape_like_def)
  show ?case using Cons assms by (cases s) (auto simp: e sql_lower_def)
qed

text \<open>The prefix search is a prefix test: no character of the query acts as a wildcard.\<close>

lemma code_prefix_iff:
  "code_prefix (Some s) q \<longleftrightarrow> length q \<le> length s \<and> take (length q) (sql_lower s) = sql_lower q"
proof -
  have idem: "sql_lower (sql_lower t) = sql_lower t" for t
    by (auto simp: sql_lower_def fold_char_def ord_of_def of_char_of)
  show ?thesis
    by (simp add: code_prefix_def like_literal like_percent)
       (metis idem length_map sql_lower_def take_map)
qed

lemma like_anywhere:
  assumes "esc \<noteq> CHR ''%''"
  shows "like esc (CHR ''%'' # pat) s \<longleftrightarrow> (\<exists>u v. s = u @ v \<and> like esc pat v)"
proof (induction s)
  case Nil
  then show ?case using assms by simp
next
  case (Cons c s)
  have "(\<exists>u v. c # s = u @ v \<and> like esc pat v) \<longleftrightarrow> like esc pat (c # s) \<or> (\<exists>u v. s = u @ v \<and> like esc pat v)"
    by (metis Cons_eq_append_conv append_Cons append_Nil)
  then show ?case using Cons assms by simp
qed

text \<open>The substring search is a substring test up to the case of ASCII letters.\<close>

lemma like_contains_iff: "like_contains (Some s) q \<longleftrightarrow> sublist (sql_lower q) (sql_lower s)"
proof -
  have "like_contains (Some s) q \<longleftrightarrow>
      (\<exists>u v. s = u @ v \<and> length q \<le> length v \<and> sql_lower (take (length q) v) = sql_lower q)"
    by (simp add: like_contains_def like_anywhere like_literal like_percent del: like.simps(2,3))
  also have "\<dots> \<longleftrightarrow> sublist (sql_lower q) (sql_lower s)"
  proof
    assume "\<exists>u v. s = u @ v \<and> length q \<le> length v \<and> sql_lower (take (length q) v) = sql_lower q"
    then obtain u v where "s = u @ v" "sql_lower (take (length q) v) = sql_lower q" by blast
    then have "sql_lower s = sql_lower u @ sql_lower q @ sql_lower (drop (length q) v)"
      by (metis append_take_drop_id map_append sql_lower_def)
    then show "sublist (sql_lower q) (sql_lower s)" by (auto simp: sublist_def)
  next
    assume "sublist (sql_lower q) (sql_lower s)"
    then obtain xs ys where e: "map fold_char s = xs @ map fold_char q @ ys" by (auto simp: sublist_def sql_lower_def)
    let ?v = "drop (length xs) s"
    have "map fold_char ?v = map fold_char q @ ys" using e by (simp add: drop_map[symmetric])
    then have "map fold_char (take (length q) ?v) = map fold_char q"
      by (metis append_eq_conv_conj length_map take_map)
    moreover from this have "length q \<le> length ?v" by (metis length_map length_take min.cobounded1)
    ultimately show "\<exists>u v. s = u @ v \<and> length q \<le> length v \<and> sql_lower (take (length q) v) = sql_lower q"
      by (metis append_take_drop_id sql_lower_def)
  qed
  finally show ?thesis .
qed

section \<open>Search box and lists\<close>

text \<open>\<open>ORDER BY\<close> a nullable text column: NULL sorts first.\<close>

definition nulls_first :: "string option \<Rightarrow> bool \<times> string" where
  "nulls_first s = (s \<noteq> None, or_empty s)"

definition is_active :: "product \<Rightarrow> bool" where
  "is_active p \<longleftrightarrow> p_deleted_at p = None"

definition SEARCH_LIMIT :: nat where
  "SEARCH_LIMIT = 20"

definition list_products :: "db \<Rightarrow> product list" where
  "list_products d = take SEARCH_LIMIT (sort_key p_name (filter is_active (products d)))"

definition search_rank :: "string \<Rightarrow> product \<Rightarrow> nat" where
  "search_rank q_lc p = (if map_option sql_lower (p_code p) = Some q_lc then 0
     else if code_prefix (p_code p) q_lc then 1 else 2)"

definition search_hit :: "string \<Rightarrow> product \<Rightarrow> bool" where
  "search_hit q_lc p \<longleftrightarrow> is_active p \<and> (code_prefix (p_code p) q_lc \<or> like_contains (p_name_lc p) q_lc)"

definition search_products :: "db \<Rightarrow> string \<Rightarrow> product list" where
  "search_products d q =
     (let q_lc = lower (strip q)
      in if q_lc = [] then take SEARCH_LIMIT (sort_key p_name (filter is_active (products d)))
         else take SEARCH_LIMIT (sort_key (\<lambda>p. (search_rank q_lc p, nulls_first (p_name_lc p)))
                (filter (search_hit q_lc) (products d))))"

text \<open>\<open>str.find\<close>: the first index at which the needle starts.\<close>

definition find_sub :: "string \<Rightarrow> string \<Rightarrow> nat option" where
  "find_sub hay needle = find (\<lambda>i. take (length needle) (drop i hay) = needle) [0..<Suc (length hay)]"

definition split_match :: "string \<Rightarrow> string \<Rightarrow> string \<times> string \<times> string" where
  "split_match s q_lc = (case (if q_lc = [] then None else find_sub (lower s) q_lc) of
     None \<Rightarrow> (s, [], [])
   | Some i \<Rightarrow> (take i s, take (length q_lc) (drop i s), drop (i + length q_lc) s))"

definition search_view :: "db \<Rightarrow> string \<Rightarrow> (product \<times> (string \<times> string \<times> string) \<times> string \<times> string \<times> string) list" where
  "search_view d q = map (\<lambda>p. (p, split_match (or_empty (p_code p)) (lower (strip q)),
     split_match (p_name p) (lower (strip q)))) (search_products d q)"

text \<open>A Python filter on a lowered column: \<open>q in col\<close>, skipped for an empty query.\<close>

definition narrow :: "string \<Rightarrow> ('r \<Rightarrow> string) \<Rightarrow> 'r list \<Rightarrow> 'r list" where
  "narrow q col rows = (if q = [] then rows else filter (\<lambda>r. sublist q (col r)) rows)"

text \<open>\<open>rows.sort(key=k, reverse=True)\<close> keeps the order of rows with equal keys.\<close>

definition sort_reverse :: "('r \<Rightarrow> 'k::linorder) \<Rightarrow> 'r list \<Rightarrow> 'r list" where
  "sort_reverse k rows = rev (sort_key k (rev rows))"

definition product_matches :: "db \<Rightarrow> string \<Rightarrow> string \<Rightarrow> string \<Rightarrow> product list" where
  "product_matches d code0 name category =
     narrow (lower (strip category)) (\<lambda>p. lower (or_empty (p_category p)))
       (narrow (lower (strip name)) (\<lambda>p. or_empty (p_name_lc p))
         (narrow (lower (strip code0)) (\<lambda>p. lower (or_empty (p_code p))) (filter is_active (products d))))"

definition list_products_view ::
  "db \<Rightarrow> string \<Rightarrow> string \<Rightarrow> string \<Rightarrow> string \<Rightarrow> int \<Rightarrow> product list \<times> int \<times> int" where
  "list_products_view d code0 name category sort_by page =
     (let rows = product_matches d code0 name category
      in paginate (if sort_by = ''name_desc'' then sort_reverse (\<lambda>p. or_empty (p_name_lc p)) rows
                   else if sort_by = ''code'' then sort_key (\<lambda>p. lower (or_empty (p_code p))) rows
                   else sort_key (\<lambda>p. or_empty (p_name_lc p)) rows) page)"

definition price_history :: "db \<Rightarrow> string \<Rightarrow> operation list" where
  "price_history d k = newest_first
     (filter (\<lambda>o1. o_product_id o1 = k \<and> o_type o1 = ''price_change'') (operations d))"

definition category_options :: "db \<Rightarrow> string list" where
  "category_options d = sort (remdups (map (\<lambda>p. or_empty (p_category p))
     (filter (\<lambda>p. is_active p \<and> or_empty (p_category p) \<noteq> []) (products d))))"

text \<open>\<open>by_category.setdefault(p.category or "", []).append(p)\<close> over the active products.\<close>

fun group_products :: "product list \<Rightarrow> (string \<times> product list) list \<Rightarrow> (string \<times> product list) list" where
  "group_products [] acc = acc"
| "group_products (p # ps) acc = (let k = or_empty (p_category p)
     in group_products ps (dict_set k ((case map_of acc k of None \<Rightarrow> [] | Some qs \<Rightarrow> qs) @ [p]) acc))"

text \<open>The label \<open>None\<close> is the group without a category, shown last.\<close>

definition products_by_category :: "db \<Rightarrow> (string option \<times> product list) list" where
  "products_by_category d =
     (let by_category = group_products (sort_key (\<lambda>p. nulls_first (p_name_lc p)) (filter is_active (products d))) [];
          named = sort (filter (\<lambda>k. k \<noteq> []) (map fst by_category))
      in map (\<lambda>k. (Some k, the (map_of by_category k))) named
         @ (case map_of by_category [] of None \<Rightarrow> [] | Some ps \<Rightarrow> [(None, ps)]))"

section \<open>What the search shows\<close>

lemma sql_lower_idem: "sql_lower (sql_lower t) = sql_lower t"
  by (auto simp: sql_lower_def fold_char_def ord_of_def of_char_of)

lemma exact_code_is_hit:
  assumes "is_active p" "map_option sql_lower (p_code p) = Some q"
  shows "search_hit q p" "search_rank q p = 0"
  using assms sql_lower_idem
  by (auto simp: search_hit_def search_rank_def code_prefix_iff sql_lower_def)

lemma search_products_ranked:
  assumes "lower (strip q) \<noteq> []"
  shows "search_products d q = take SEARCH_LIMIT (sort_key (\<lambda>p. (search_rank (lower (strip q)) p, nulls_first (p_name_lc p)))
     (filter (search_hit (lower (strip q))) (products d)))"
  using assms by (simp add: search_products_def Let_def)

lemma hd_sort_key_least:
  assumes "x \<in> set xs"
  shows "\<exists>y ys. sort_key k xs = y # ys \<and> k y \<le> k x"
proof -
  have m: "x \<in> set (sort_key k xs)" using assms by simp
  then obtain y ys where e: "sort_key k xs = y # ys" by (cases "sort_key k xs") auto
  have "sorted (map k (sort_key k xs))" by simp
  with m show ?thesis by (auto simp: e)
qed

text \<open>Whoever types a code finds that code first: when an active card carries exactly the query (up to
  the case of ASCII letters), the first hit is a card with that code.\<close>

theorem search_exact_first:
  assumes "lower (strip q) \<noteq> []" "p \<in> set (products d)" "p_deleted_at p = None"
    "map_option sql_lower (p_code p) = Some (lower (strip q))"
  shows "\<exists>p' rest. search_products d q = p' # rest \<and> p_deleted_at p' = None
    \<and> map_option sql_lower (p_code p') = Some (lower (strip q))"
proof -
  let ?q = "lower (strip q)" and ?k = "\<lambda>p. (search_rank (lower (strip q)) p, nulls_first (p_name_lc p))"
  have h: "p \<in> set (filter (search_hit ?q) (products d))" and r: "search_rank ?q p = 0"
    using assms exact_code_is_hit by (auto simp: is_active_def)
  from hd_sort_key_least[OF h, of ?k] obtain y ys where
    e: "sort_key ?k (filter (search_hit ?q) (products d)) = y # ys" and y: "?k y \<le> ?k p" by blast
  from y r have "search_rank ?q y = 0" by (simp add: less_eq_prod_def)
  then have c: "map_option sql_lower (p_code y) = Some ?q" by (simp add: search_rank_def split: if_splits)
  have "y \<in> set (sort_key ?k (filter (search_hit ?q) (products d)))" unfolding e by simp
  then have "is_active y" by (simp add: search_hit_def)
  moreover have "search_products d q = y # take 19 ys"
    using assms(1) e by (simp add: search_products_ranked SEARCH_LIMIT_def)
  ultimately show ?thesis using c by (simp add: is_active_def)
qed

text \<open>Every hit is an active card whose code starts with the query or whose name contains it, the hits are
  in rank order, and when at most twenty cards match none is missing.\<close>

lemma search_sound:
  assumes "lower (strip q) \<noteq> []"
  shows "set (search_products d q) \<subseteq> set (filter (search_hit (lower (strip q))) (products d))"
    "sorted (map (search_rank (lower (strip q))) (search_products d q))"
    "length (filter (search_hit (lower (strip q))) (products d)) \<le> SEARCH_LIMIT \<Longrightarrow>
       set (search_products d q) = set (filter (search_hit (lower (strip q))) (products d))"
proof -
  let ?k = "\<lambda>p. (search_rank (lower (strip q)) p, nulls_first (p_name_lc p))"
    and ?m = "filter (search_hit (lower (strip q))) (products d)"
  note e = search_products_ranked[OF assms, of d]
  show "set (search_products d q) \<subseteq> set ?m" unfolding e using set_take_subset[of SEARCH_LIMIT "sort_key ?k ?m"] by simp
  have "sorted (map ?k (sort_key ?k ?m))" by simp
  then have "sorted (map (fst \<circ> ?k) (sort_key ?k ?m))"
    by (auto simp: sorted_map sorted_wrt_map less_eq_prod_def elim!: sorted_wrt_mono_rel[rotated])
  then have "sorted (map (search_rank (lower (strip q))) (sort_key ?k ?m))" by (simp add: comp_def)
  then show "sorted (map (search_rank (lower (strip q))) (search_products d q))"
    unfolding e take_map[symmetric] by (rule sorted_wrt_take)
  show "set (search_products d q) = set ?m" if "length ?m \<le> SEARCH_LIMIT"
    unfolding e using that by simp
qed

lemma find_sub_Some:
  assumes "find_sub hay needle = Some i"
  shows "i \<le> length hay" "take (length needle) (drop i hay) = needle"
  using assms by (auto simp: find_sub_def find_Some_iff simp del: upt_Suc)

text \<open>The three segments of a highlighted name are the name, and the marked one is the query up to case.\<close>

lemma split_match_parts:
  assumes "split_match s q = (a, m, b)"
  shows "a @ m @ b = s" "m \<noteq> [] \<Longrightarrow> lower m = q"
proof -
  have c: "take n (drop i s) @ drop (i + n) s = drop i s" for i n
    by (metis add.commute append_take_drop_id drop_drop)
  show "a @ m @ b = s" using assms c by (auto simp: split_match_def split: option.splits if_splits)
  assume "m \<noteq> []"
  then obtain i where f: "find_sub (lower s) q = Some i" and m: "m = take (length q) (drop i s)"
    using assms by (auto simp: split_match_def split: option.splits if_splits)
  have "lower m = take (length q) (drop i (lower s))" by (simp add: m lower_def take_map drop_map)
  then show "lower m = q" using find_sub_Some(2)[OF f] by simp
qed

section \<open>Products by category\<close>

lemma group_products_entry:
  assumes "distinct (map fst acc)"
  shows "distinct (map fst (group_products ps acc))"
    "map_of (group_products ps acc) k =
       (let qs = filter (\<lambda>p. or_empty (p_category p) = k) ps
        in if qs = [] then map_of acc k else Some ((case map_of acc k of None \<Rightarrow> [] | Some rs \<Rightarrow> rs) @ qs))"
proof -
  have "distinct (map fst (group_products ps acc)) \<and> map_of (group_products ps acc) k =
       (let qs = filter (\<lambda>p. or_empty (p_category p) = k) ps
        in if qs = [] then map_of acc k else Some ((case map_of acc k of None \<Rightarrow> [] | Some rs \<Rightarrow> rs) @ qs))"
    using assms
  proof (induction ps acc rule: group_products.induct)
    case (1 acc)
    then show ?case by simp
  next
    case (2 p ps acc)
    let ?k = "or_empty (p_category p)"
    let ?acc = "dict_set ?k ((case map_of acc ?k of None \<Rightarrow> [] | Some qs \<Rightarrow> qs) @ [p]) acc"
    have "distinct (map fst ?acc)" using 2(2) by (rule distinct_update)
    from 2(1)[OF refl this] show ?case
      by (auto simp: Let_def update_conv' split: option.split)
  qed
  then show "distinct (map fst (group_products ps acc))" "map_of (group_products ps acc) k =
       (let qs = filter (\<lambda>p. or_empty (p_category p) = k) ps
        in if qs = [] then map_of acc k else Some ((case map_of acc k of None \<Rightarrow> [] | Some rs \<Rightarrow> rs) @ qs))" by auto
qed

lemma group_of:
  "map_of (group_products ps []) k =
     (let qs = filter (\<lambda>p. or_empty (p_category p) = k) ps in if qs = [] then None else Some qs)"
  by (simp add: group_products_entry(2) Let_def)

text \<open>Each group holds exactly the active cards of its category, the labels are in order without
  repetition, and the cards without a category come last.\<close>

lemma products_by_category_spec:
  "(Some k, ps) \<in> set (products_by_category d) \<Longrightarrow>
     k \<noteq> [] \<and> ps = filter (\<lambda>p. or_empty (p_category p) = k) (sort_key (\<lambda>p. nulls_first (p_name_lc p)) (filter is_active (products d)))"
  "(None, ps) \<in> set (products_by_category d) \<Longrightarrow>
     ps = filter (\<lambda>p. or_empty (p_category p) = []) (sort_key (\<lambda>p. nulls_first (p_name_lc p)) (filter is_active (products d)))"
proof -
  let ?ps = "sort_key (\<lambda>p. nulls_first (p_name_lc p)) (filter is_active (products d))"
  have m: "k \<in> fst ` set (group_products ?ps []) \<longleftrightarrow> filter (\<lambda>p. or_empty (p_category p) = k) ?ps \<noteq> []" for k
    using group_of[of ?ps k] map_of_eq_None_iff[of "group_products ?ps []" k] by (auto simp: Let_def)
  show "(Some k, ps) \<in> set (products_by_category d) \<Longrightarrow>
     k \<noteq> [] \<and> ps = filter (\<lambda>p. or_empty (p_category p) = k) ?ps"
    using m[of k] group_of[of ?ps k] by (auto simp: products_by_category_def Let_def split: option.splits)
  show "(None, ps) \<in> set (products_by_category d) \<Longrightarrow> ps = filter (\<lambda>p. or_empty (p_category p) = []) ?ps"
    using group_of[of ?ps "[]"] by (auto simp: products_by_category_def Let_def split: option.splits if_splits)
qed

lemma products_by_category_complete:
  assumes "p \<in> set (products d)" "p_deleted_at p = None"
  shows "\<exists>lab ps. (lab, ps) \<in> set (products_by_category d) \<and> p \<in> set ps"
proof -
  let ?ps = "sort_key (\<lambda>p. nulls_first (p_name_lc p)) (filter is_active (products d))"
  let ?k = "or_empty (p_category p)"
  have p: "p \<in> set (filter (\<lambda>p. or_empty (p_category p) = ?k) ?ps)" using assms by (simp add: is_active_def)
  then have g: "map_of (group_products ?ps []) ?k = Some (filter (\<lambda>p. or_empty (p_category p) = ?k) ?ps)"
    unfolding group_of Let_def by (metis list.set(1) empty_iff)
  then have k: "?k \<in> set (map fst (group_products ?ps []))"
    by (metis image_set map_of_eq_None_iff option.distinct(1))
  show ?thesis
  proof (cases "?k = []")
    case True
    then have "(None, filter (\<lambda>p. or_empty (p_category p) = ?k) ?ps) \<in> set (products_by_category d)"
      using g by (simp add: products_by_category_def Let_def)
    with p show ?thesis by blast
  next
    case False
    with k have "?k \<in> set (sort (filter (\<lambda>k. k \<noteq> []) (map fst (group_products ?ps []))))"
      by (simp only: set_sort set_filter mem_Collect_eq simp_thms)
    then have "(Some ?k, the (map_of (group_products ?ps []) ?k)) \<in> set (products_by_category d)"
      unfolding products_by_category_def Let_def set_append set_map by (rule UnI1[OF imageI])
    with g p show ?thesis by (metis option.sel)
  qed
qed

end
