(* ===== verification/Customers.thy ===== *)
theory Customers
  imports Search Warehouses Reports Calendar
begin

text \<open>
  The customer book of \<open>src/app/services/customers.py\<close>: cards with their contacts, the lower-cased
  shadow the search uses, purchase history, spend per calendar period, favourite products and the
  last order. The clock \<open>clk\<close> gives the microsecond readings of \<open>datetime.now(UTC)\<close>; rows of one
  save get consecutive microseconds, so that reading them back keeps the order they were typed in.
\<close>

section \<open>Rows\<close>

definition add_customer_row :: "customer \<Rightarrow> db \<Rightarrow> db" where
  "add_customer_row c d = d\<lparr>customers := customers d @ [c]\<rparr>"

definition upd_customer :: "string \<Rightarrow> (customer \<Rightarrow> customer) \<Rightarrow> db \<Rightarrow> db" where
  "upd_customer k f d = d\<lparr>customers := tupd c_id k f (customers d)\<rparr>"

definition add_contact_row :: "contact \<Rightarrow> db \<Rightarrow> db" where
  "add_contact_row k d = d\<lparr>contacts := contacts d @ [k]\<rparr>"

definition delete_contacts :: "string \<Rightarrow> db \<Rightarrow> db" where
  "delete_contacts cid d = d\<lparr>contacts := filter (\<lambda>k. k_customer_id k \<noteq> cid) (contacts d)\<rparr>"

abbreviation get_customer :: "db \<Rightarrow> string \<Rightarrow> customer option" where
  "get_customer d k \<equiv> tget c_id k (customers d)"

section \<open>Saving a card\<close>

text \<open>A submitted dict of contacts: kinds in the order of the form, each with its values.\<close>

type_synonym contact_dict = "(string \<times> string list) list"

record customer_form =
  cf_name :: string
  cf_surname :: string
  cf_consultant_number :: string
  cf_address :: string
  cf_contacts :: "contact_dict option"

text \<open>\<open>" ".join(ps)\<close>.\<close>

fun join_words :: "string list \<Rightarrow> string" where
  "join_words [] = []"
| "join_words [p] = p"
| "join_words (p # q # ps) = p @ '' '' @ join_words (q # ps)"

definition search_lc :: "string \<Rightarrow> string \<Rightarrow> string \<Rightarrow> string" where
  "search_lc name surname consultant_number =
     lower (strip (join_words (filter (\<lambda>p. p \<noteq> []) [name, surname, consultant_number])))"

definition NAME_MAX_LEN :: nat where "NAME_MAX_LEN = 200"
definition SURNAME_MAX_LEN :: nat where "SURNAME_MAX_LEN = 200"
definition CONSULTANT_NUMBER_MAX_LEN :: nat where "CONSULTANT_NUMBER_MAX_LEN = 50"
definition ADDRESS_MAX_LEN :: nat where "ADDRESS_MAX_LEN = 300"
definition CONTACT_VALUE_MAX_LEN :: nat where "CONTACT_VALUE_MAX_LEN = 300"

definition validate_lengths :: "string \<Rightarrow> string \<Rightarrow> string \<Rightarrow> string \<Rightarrow> errors \<Rightarrow> errors" where
  "validate_lengths name surname consultant_number address es0 =
     (let es1 = (if length name > NAME_MAX_LEN then dict_set ''name'' CustomerNameTooLong es0 else es0);
          es2 = (if length surname > SURNAME_MAX_LEN then dict_set ''surname'' SurnameTooLong es1 else es1);
          es3 = (if length consultant_number > CONSULTANT_NUMBER_MAX_LEN
                 then dict_set ''consultant_number'' ConsultantNumberTooLong es2 else es2)
      in if length address > ADDRESS_MAX_LEN then dict_set ''address'' AddressTooLong es3 else es3)"

text \<open>An unknown kind raises; blank values are skipped, so only a long value is an error of its kind.\<close>

fun validate_contacts :: "contact_dict \<Rightarrow> errors \<Rightarrow> exn + errors" where
  "validate_contacts [] es = Inr es"
| "validate_contacts ((kind, vs) # rest) es =
     (if kind \<notin> set CONTACT_KINDS then Inl ValueError
      else validate_contacts rest
        (if list_ex (\<lambda>v. length (strip v) > CONTACT_VALUE_MAX_LEN) vs then dict_set kind ContactTooLong es else es))"

text \<open>The non-blank values in the order the loops visit them.\<close>

definition contact_values :: "contact_dict \<Rightarrow> (string \<times> string) list" where
  "contact_values cs = concat (map (\<lambda>(kind, vs). map (\<lambda>v. (kind, strip v)) (filter (\<lambda>v. strip v \<noteq> []) vs)) cs)"

definition contact_row :: "string \<Rightarrow> string \<Rightarrow> string \<times> string \<Rightarrow> int \<Rightarrow> contact" where
  "contact_row cid i kv at = \<lparr>k_id = i, k_customer_id = cid, k_kind = fst kv, k_value = snd kv,
     k_label = None, k_created_at = utc_iso at\<rparr>"

text \<open>The insert loop; \<open>base + timedelta(microseconds=offset)\<close> past year 9999 raises \<open>OverflowError\<close>.\<close>

fun insert_contacts :: "env \<Rightarrow> string \<Rightarrow> int \<Rightarrow> (string \<times> string) list \<Rightarrow> world \<Rightarrow> exn option \<times> world" where
  "insert_contacts e cid at [] w = (None, w)"
| "insert_contacts e cid at (kv # kvs) w =
     (let (i, w1) = new_id e w
      in if \<not> in_range at then (Some OverflowError, w1)
         else insert_contacts e cid (at + 1) kvs
           (stage (add_contact_row (contact_row cid i kv at)) (thas k_id i (contacts (cur w1))) w1))"

definition read_clock :: "(nat \<Rightarrow> int) \<Rightarrow> world \<Rightarrow> int \<times> world" where
  "read_clock clk w = (clk (ticks w), w\<lparr>ticks := ticks w + 1\<rparr>)"

definition replace_contacts :: "env \<Rightarrow> (nat \<Rightarrow> int) \<Rightarrow> string \<Rightarrow> contact_dict \<Rightarrow> world \<Rightarrow> exn option \<times> world" where
  "replace_contacts e clk cid cs w =
     (case flush w of Some x \<Rightarrow> (Some x, w)
      | None \<Rightarrow> let (base, w1) = read_clock clk (stage (delete_contacts cid) False w)
                in insert_contacts e cid base (contact_values cs) w1)"

text \<open>The checks that both handlers run on the stripped fields.\<close>

definition customer_errors :: "customer_form \<Rightarrow> exn + errors" where
  "customer_errors f =
     (if strip (cf_name f) = [] then Inr [(''name'', CustomerNameRequired)]
      else let es = validate_lengths (strip (cf_name f)) (strip (cf_surname f))
                      (strip (cf_consultant_number f)) (strip (cf_address f)) []
           in case cf_contacts f of None \<Rightarrow> Inr es | Some cs \<Rightarrow> validate_contacts cs es)"

definition set_fields :: "customer_form \<Rightarrow> customer \<Rightarrow> customer" where
  "set_fields f c = c\<lparr>c_name := strip (cf_name f), c_surname := or_none (strip (cf_surname f)),
     c_consultant_number := or_none (strip (cf_consultant_number f)), c_address := or_none (strip (cf_address f)),
     c_search_lc := Some (search_lc (strip (cf_name f)) (strip (cf_surname f)) (strip (cf_consultant_number f)))\<rparr>"

definition blank_customer :: "string \<Rightarrow> string \<Rightarrow> customer" where
  "blank_customer i now = \<lparr>c_id = i, c_name = [], c_surname = None, c_consultant_number = None,
     c_address = None, c_search_lc = None, c_created_at = now\<rparr>"

definition save_contacts ::
  "env \<Rightarrow> (nat \<Rightarrow> int) \<Rightarrow> customer_form \<Rightarrow> customer \<Rightarrow> world \<Rightarrow> (customer, unit) outcome \<times> world" where
  "save_contacts e clk f c w =
     (case cf_contacts f of None \<Rightarrow> commit_result c w
      | Some cs \<Rightarrow> (case replace_contacts e clk (c_id c) cs w of
          (Some x, w1) \<Rightarrow> (Raised x, w1) | (None, w1) \<Rightarrow> commit_result c w1))"

definition create_customer ::
  "env \<Rightarrow> (nat \<Rightarrow> int) \<Rightarrow> customer_form \<Rightarrow> world \<Rightarrow> (customer, unit) outcome \<times> world" where
  "create_customer e clk f w =
     (case customer_errors f of Inl x \<Rightarrow> (Raised x, w)
      | Inr es \<Rightarrow> if es \<noteq> [] then (Errors es, w)
          else let (i, w1) = new_id e w; (now, w2) = utcnow_iso e w1; c = set_fields f (blank_customer i now)
               in save_contacts e clk f c
                    (stage (add_customer_row c) (thas c_id i (customers (cur w2))) w2))"

definition update_customer ::
  "env \<Rightarrow> (nat \<Rightarrow> int) \<Rightarrow> string \<Rightarrow> customer_form \<Rightarrow> world \<Rightarrow> (customer, unit) outcome \<times> world" where
  "update_customer e clk k f w =
     (case get_customer (cur w) k of None \<Rightarrow> (Errors [(''customer'', CustomerMissing)], w)
      | Some c \<Rightarrow> (case customer_errors f of Inl x \<Rightarrow> (Raised x, w)
          | Inr es \<Rightarrow> if es \<noteq> [] then (Errors es, w)
              else save_contacts e clk f (set_fields f c) (stage (upd_customer k (set_fields f)) False w)))"

section \<open>Reading back\<close>

text \<open>Rows of one customer by kind, every kind present; a row of another kind is a \<open>KeyError\<close>, \<open>None\<close>.\<close>

definition contacts_by_kind :: "db \<Rightarrow> string \<Rightarrow> (string \<times> contact list) list option" where
  "contacts_by_kind d cid =
     (let rows = sort_key (\<lambda>k. (k_created_at k, k_id k)) (filter (\<lambda>k. k_customer_id k = cid) (contacts d))
      in if list_all (\<lambda>k. k_kind k \<in> set CONTACT_KINDS) rows
         then Some (map (\<lambda>kind. (kind, filter (\<lambda>k. k_kind k = kind) rows)) CONTACT_KINDS) else None)"

definition search_customers :: "db \<Rightarrow> string \<Rightarrow> customer list" where
  "search_customers d q =
     (let q_lc = lower (strip q)
      in take 20 (sort_key (\<lambda>c. nulls_first (c_search_lc c))
           (if q_lc = [] then customers d else filter (\<lambda>c. like_contains (c_search_lc c) q_lc) (customers d))))"

definition customer_search_view ::
  "db \<Rightarrow> string \<Rightarrow> (customer \<times> (string \<times> string \<times> string) \<times> string \<times> string \<times> string) list" where
  "customer_search_view d q = map (\<lambda>c. (c, split_match (strip (c_name c @ '' '' @ or_empty (c_surname c))) (lower (strip q)),
     split_match (or_empty (c_consultant_number c)) (lower (strip q)))) (search_customers d q)"

definition list_customers_view ::
  "db \<Rightarrow> string \<Rightarrow> string \<Rightarrow> string \<Rightarrow> string \<Rightarrow> int \<Rightarrow> customer list \<times> int \<times> int" where
  "list_customers_view d name surname consultant_number sort_by page =
     (let rows = narrow (lower (strip consultant_number)) (\<lambda>c. lower (or_empty (c_consultant_number c)))
                   (narrow (lower (strip surname)) (\<lambda>c. lower (or_empty (c_surname c)))
                     (narrow (lower (strip name)) (\<lambda>c. lower (c_name c)) (customers d)))
      in paginate (sort_key (if sort_by = ''surname'' then (\<lambda>c. lower (or_empty (c_surname c)))
                    else if sort_by = ''consultant_number'' then (\<lambda>c. lower (or_empty (c_consultant_number c)))
                    else (\<lambda>c. lower (c_name c))) rows) page)"

section \<open>Purchases\<close>

text \<open>The customer of an operation through its sale; an operation without a sale has none.\<close>

definition op_customer :: "db \<Rightarrow> operation \<Rightarrow> string option" where
  "op_customer d o1 = (case o_sale_id o1 of None \<Rightarrow> None
     | Some k \<Rightarrow> (case tget s_id k (sales d) of None \<Rightarrow> None | Some s \<Rightarrow> s_customer_id s))"

definition bought :: "env \<Rightarrow> db \<Rightarrow> string \<Rightarrow> operation \<Rightarrow> bool" where
  "bought e d cid o1 \<longleftrightarrow> op_customer d o1 = Some cid \<and> o_type o1 = ''sale'' \<and> warehouse_scope e (op_warehouse d o1)"

definition purchase_history :: "env \<Rightarrow> db \<Rightarrow> string \<Rightarrow> (operation \<times> product) list" where
  "purchase_history e d cid = concat (map (join_product d) (newest_first (filter (bought e d cid) (operations d))))"

text \<open>The first days of the month, quarter and year of a day.\<close>

definition period_starts :: "date \<Rightarrow> (string \<times> date) list" where
  "period_starts today =
     [(''month'', Date (dyear today) (dmonth today) 1),
      (''quarter'', Date (dyear today) (3 * ((dmonth today - 1) div 3) + 1) 1),
      (''year'', Date (dyear today) 1 1)]"

definition spend_window :: "env \<Rightarrow> db \<Rightarrow> string \<Rightarrow> string \<Rightarrow> string \<Rightarrow> int" where
  "spend_window e d cid start_day end_day =
     sum_where (\<lambda>o1. op_customer d o1 = Some cid \<and> (o_type o1 = ''sale'' \<or> o_type o1 = ''return'')
        \<and> warehouse_scope e (op_warehouse d o1) \<and> op_in_period start_day end_day o1) row_revenue (operations d)"

definition spend_totals :: "env \<Rightarrow> db \<Rightarrow> string \<Rightarrow> date \<Rightarrow> (string \<times> int) list" where
  "spend_totals e d cid today = map (\<lambda>(name, start).
     case business_date_bounds start today of (start_day, end_day) \<Rightarrow> (name, spend_window e d cid start_day end_day))
     (period_starts today)"

definition spend_view :: "env \<Rightarrow> db \<Rightarrow> string \<Rightarrow> date \<Rightarrow> (string \<times> int \<times> string) list" where
  "spend_view e d cid today = map (\<lambda>(name, start).
     case business_date_bounds start today of (start_day, end_day) \<Rightarrow>
       (name, spend_window e d cid start_day end_day, isoformat start)) (period_starts today)"

text \<open>Orders that contain a product, and its total quantity.\<close>

definition order_freq :: "operation list \<Rightarrow> product \<Rightarrow> nat" where
  "order_freq ops p = length (remdups (map o_sale_id (filter (\<lambda>o1. o_product_id o1 = p_id p) ops)))"

definition order_qty :: "operation list \<Rightarrow> product \<Rightarrow> int" where
  "order_qty ops p = sum_where (\<lambda>o1. o_product_id o1 = p_id p) (\<lambda>o1. - o_qty_delta o1) ops"

definition favorite_products :: "env \<Rightarrow> db \<Rightarrow> string \<Rightarrow> nat \<Rightarrow> (product \<times> nat \<times> int) list" where
  "favorite_products e d cid limit =
     (let ops = filter (bought e d cid) (operations d)
      in take limit (map (\<lambda>p. (p, order_freq ops p, order_qty ops p))
           (sort_key (\<lambda>p. (- int (order_freq ops p), - order_qty ops p, p_name p))
              (filter (\<lambda>p. list_ex (\<lambda>o1. o_product_id o1 = p_id p) ops) (products d)))))"

definition last_order_date :: "env \<Rightarrow> db \<Rightarrow> string \<Rightarrow> string option" where
  "last_order_date e d cid =
     (case map (\<lambda>o1. business_day (o_business_date o1) (o_created_at o1)) (filter (bought e d cid) (operations d)) of
        [] \<Rightarrow> None | x # xs \<Rightarrow> Some (fold max xs x))"

section \<open>Contacts come back as they were typed\<close>

text \<open>The rows a successful insert loop adds: the values in order, stamped with growing times.\<close>

lemma insert_contacts_rows:
  "insert_contacts e cid at kvs w = (None, w') \<Longrightarrow>
     \<exists>rows. cur w' = (cur w)\<lparr>contacts := contacts (cur w) @ rows\<rparr> \<and> saved w' = saved w \<and> (bad w \<longrightarrow> bad w')
       \<and> map (\<lambda>k. (k_kind k, k_value k)) rows = kvs \<and> (\<forall>k\<in>set rows. k_customer_id k = cid)
       \<and> sorted_wrt (<) (map k_created_at rows) \<and> (\<forall>k\<in>set rows. utc_iso at \<le> k_created_at k)
       \<and> (kvs \<noteq> [] \<longrightarrow> in_range at)"
proof (induction e cid at kvs w rule: insert_contacts.induct)
  case (1 e cid at w)
  then show ?case by (intro exI[of _ "[]"]) simp
next
  case (2 e cid at kv kvs w)
  obtain i w1 where i: "new_id e w = (i, w1)" by fastforce
  let ?row = "contact_row cid i kv at"
  let ?w2 = "stage (add_contact_row ?row) (thas k_id i (contacts (cur w1))) w1"
  have r: "in_range at" and rest: "insert_contacts e cid (at + 1) kvs ?w2 = (None, w')"
    using 2(2) by (auto simp: i split: if_splits)
  from 2(1)[OF i[symmetric] refl _ rest] r obtain rows where
    c: "cur w' = (cur ?w2)\<lparr>contacts := contacts (cur ?w2) @ rows\<rparr>" and s: "saved w' = saved ?w2"
    and b: "bad ?w2 \<longrightarrow> bad w'" and kv: "map (\<lambda>k. (k_kind k, k_value k)) rows = kvs"
    and cid: "\<forall>k\<in>set rows. k_customer_id k = cid" and srt: "sorted_wrt (<) (map k_created_at rows)"
    and ge: "\<forall>k\<in>set rows. utc_iso (at + 1) \<le> k_created_at k" and rng: "kvs \<noteq> [] \<longrightarrow> in_range (at + 1)"
    by auto
  have less: "utc_iso at < k_created_at k" if "k \<in> set rows" for k
  proof -
    have "kvs \<noteq> []" using that kv by auto
    then have "utc_iso at < utc_iso (at + 1)" using rng r by (simp add: utc_iso_less)
    then show ?thesis using ge that by fastforce
  qed
  have w1: "w1 = snd (new_id e w)" by (simp add: i)
  show ?case
    using c s b kv cid srt less r
    by (intro exI[of _ "?row # rows"])
       (auto simp: w1 add_contact_row_def contact_row_def less_imp_le)
qed

lemma replace_contacts_rows:
  assumes "replace_contacts e clk cid cs w = (None, w')"
  shows "\<exists>rows. cur w' = (cur w)\<lparr>contacts := filter (\<lambda>k. k_customer_id k \<noteq> cid) (contacts (cur w)) @ rows\<rparr>
    \<and> saved w' = saved w \<and> \<not> bad w \<and> map (\<lambda>k. (k_kind k, k_value k)) rows = contact_values cs
    \<and> (\<forall>k\<in>set rows. k_customer_id k = cid) \<and> sorted_wrt (<) (map k_created_at rows)"
proof -
  let ?w1 = "stage (delete_contacts cid) False w"
  from assms have nb: "\<not> bad w" and
    "insert_contacts e cid (clk (ticks ?w1)) (contact_values cs) (?w1\<lparr>ticks := ticks ?w1 + 1\<rparr>) = (None, w')"
    by (auto simp: replace_contacts_def flush_def read_clock_def split: if_splits)
  from insert_contacts_rows[OF this(2)] nb show ?thesis
    by (auto simp: delete_contacts_def)
qed

lemma validate_contacts_kinds:
  "validate_contacts cs es = Inr es' \<Longrightarrow> fst ` set cs \<subseteq> set CONTACT_KINDS"
  by (induction cs es rule: validate_contacts.induct) (auto split: if_splits)

text \<open>\<open>cs.get(kind, [])\<close>.\<close>

definition values_of :: "contact_dict \<Rightarrow> string \<Rightarrow> string list" where
  "values_of cs kind = (case map_of cs kind of None \<Rightarrow> [] | Some vs \<Rightarrow> vs)"

lemma contact_values_of_kind:
  "distinct (map fst cs) \<Longrightarrow> map snd (filter (\<lambda>kv. fst kv = kind) (contact_values cs))
     = filter (\<lambda>v. v \<noteq> []) (map strip (values_of cs kind))"
proof (induction cs)
  case Nil
  then show ?case by (simp add: contact_values_def values_of_def)
next
  case (Cons x cs)
  obtain kd vs where x: "x = (kd, vs)" by fastforce
  have this_kind: "filter (\<lambda>kv. fst kv = kind) (map (\<lambda>v. (kd, strip v)) us) = (if kd = kind then map (\<lambda>v. (kd, strip v)) us else [])"
    for us by (induction us) auto
  have strips: "map strip (filter (\<lambda>v. strip v \<noteq> []) vs) = filter (\<lambda>v. v \<noteq> []) (map strip vs)"
    by (simp add: filter_map comp_def)
  have none: "kd = kind \<Longrightarrow> map_of cs kind = None" using Cons.prems by (auto simp: x map_of_eq_None_iff)
  have "map snd (filter (\<lambda>kv. fst kv = kind) (contact_values (x # cs)))
      = (if kd = kind then filter (\<lambda>v. v \<noteq> []) (map strip vs) else [])
        @ map snd (filter (\<lambda>kv. fst kv = kind) (contact_values cs))"
    by (simp add: contact_values_def x this_kind comp_def strips)
  also have "\<dots> = filter (\<lambda>v. v \<noteq> []) (map strip (values_of (x # cs) kind))"
    using Cons none by (auto simp: values_of_def x)
  finally show ?case .
qed

lemma created_order:
  assumes "sorted_wrt (<) (map k_created_at rows)"
  shows "sort_key (\<lambda>k. (k_created_at k, k_id k)) rows = rows"
proof (rule sort_key_id_if_sorted)
  have "sorted_wrt (\<lambda>a b. k_created_at a < k_created_at b) rows" using assms by (simp add: sorted_wrt_map)
  then show "sorted (map (\<lambda>k. (k_created_at k, k_id k)) rows)"
    unfolding sorted_map by (rule sorted_wrt_mono_rel[rotated]) (simp add: less_eq_prod_def)
qed

lemma contacts_by_kind_rows:
  assumes "contacts d = others @ rows" "\<forall>k\<in>set others. k_customer_id k \<noteq> cid" "\<forall>k\<in>set rows. k_customer_id k = cid"
    and "map (\<lambda>k. (k_kind k, k_value k)) rows = contact_values cs" "sorted_wrt (<) (map k_created_at rows)"
    and "fst ` set cs \<subseteq> set CONTACT_KINDS" "distinct (map fst cs)"
  shows "map_option (map (\<lambda>(kind, ks). (kind, map k_value ks))) (contacts_by_kind d cid)
    = Some (map (\<lambda>kind. (kind, filter (\<lambda>v. v \<noteq> []) (map strip (values_of cs kind)))) CONTACT_KINDS)"
proof -
  have "filter (\<lambda>k. k_customer_id k = cid) (contacts d) = rows"
    using assms(1-3) by (auto simp: filter_empty_conv filter_id_conv)
  then have rows: "sort_key (\<lambda>k. (k_created_at k, k_id k)) (filter (\<lambda>k. k_customer_id k = cid) (contacts d)) = rows"
    using created_order[OF assms(5)] by simp
  have vals: "map k_value (filter (\<lambda>k. k_kind k = kind) rows) = filter (\<lambda>v. v \<noteq> []) (map strip (values_of cs kind))" for kind
  proof -
    have "map k_value (filter (\<lambda>k. k_kind k = kind) rows)
        = map snd (filter (\<lambda>kv. fst kv = kind) (map (\<lambda>k. (k_kind k, k_value k)) rows))"
      by (simp add: filter_map comp_def)
    then show ?thesis unfolding assms(4) contact_values_of_kind[OF assms(7)] .
  qed
  have "k_kind k \<in> set CONTACT_KINDS" if "k \<in> set rows" for k
  proof -
    have "(k_kind k, k_value k) \<in> set (map (\<lambda>k. (k_kind k, k_value k)) rows)" using that by force
    then have "k_kind k \<in> fst ` set cs" unfolding assms(4) by (force simp: contact_values_def)
    with assms(6) show ?thesis by blast
  qed
  then have "list_all (\<lambda>k. k_kind k \<in> set CONTACT_KINDS) rows" by (simp add: list_all_iff)
  then show ?thesis unfolding contacts_by_kind_def Let_def rows by (simp add: vals comp_def)
qed

lemma commit_result_saved:
  "commit_result a w = (Ok c, w') \<Longrightarrow> c = a \<and> \<not> bad w \<and> saved w' = cur w"
  by (auto simp: commit_result_def commit_def split: if_splits)

lemma validated:
  assumes "customer_errors f = Inr []" "cf_contacts f = Some cs"
  shows "fst ` set cs \<subseteq> set CONTACT_KINDS"
  using assms validate_contacts_kinds by (auto simp: customer_errors_def Let_def split: if_splits)

text \<open>What a successful save with contacts leaves in the contact table.\<close>

lemma save_contacts_saved:
  assumes "save_contacts e clk f c w = (Ok c', w')" "cf_contacts f = Some cs"
  shows "c' = c \<and> \<not> bad w \<and> (\<exists>rows. saved w' = (cur w)\<lparr>contacts := filter (\<lambda>k. k_customer_id k \<noteq> c_id c) (contacts (cur w)) @ rows\<rparr>
    \<and> map (\<lambda>k. (k_kind k, k_value k)) rows = contact_values cs
    \<and> (\<forall>k\<in>set rows. k_customer_id k = c_id c) \<and> sorted_wrt (<) (map k_created_at rows))"
proof -
  obtain x w1 where r: "replace_contacts e clk (c_id c) cs w = (x, w1)" by fastforce
  with assms have w1: "replace_contacts e clk (c_id c) cs w = (None, w1)" and "commit_result c w1 = ((Ok c', w') :: (customer, unit) outcome \<times> world)"
    by (auto simp: save_contacts_def split: option.splits)
  with commit_result_saved replace_contacts_rows[OF w1] show ?thesis by fastforce
qed

lemma create_customer_Ok:
  assumes "create_customer e clk f w = (Ok c, w')"
  shows "customer_errors f = Inr [] \<and> (\<exists>w2 i now. contacts (cur w2) = contacts (cur w)
    \<and> customers (cur w2) = customers (cur w) @ [set_fields f (blank_customer i now)]
    \<and> save_contacts e clk f (set_fields f (blank_customer i now)) w2 = (Ok c, w'))"
proof -
  obtain i w1 where i: "new_id e w = (i, w1)" by fastforce
  obtain now w2 where t: "utcnow_iso e w1 = (now, w2)" by fastforce
  have w2: "cur w2 = cur w" by (metis clock_frame(1,7) i t snd_conv)
  from assms have ok: "customer_errors f = Inr []"
    by (auto simp: create_customer_def split: sum.splits if_splits prod.splits)
  with assms have "save_contacts e clk f (set_fields f (blank_customer i now))
      (stage (add_customer_row (set_fields f (blank_customer i now))) (thas c_id i (customers (cur w2))) w2) = (Ok c, w')"
    by (simp add: create_customer_def i t Let_def)
  with ok w2 show ?thesis by (intro conjI exI) (auto simp: add_customer_row_def)
qed

lemma update_customer_Ok:
  assumes "update_customer e clk k f w = (Ok c, w')"
  shows "customer_errors f = Inr [] \<and> (\<exists>c0. get_customer (cur w) k = Some c0
    \<and> save_contacts e clk f (set_fields f c0) (stage (upd_customer k (set_fields f)) False w) = (Ok c, w'))"
  using assms by (auto simp: update_customer_def split: option.splits sum.splits if_splits)

text \<open>C28: the contacts of a card come back as they were typed: after a successful create or update with
  contacts, reading them gives for each of the four kinds the stripped non-blank values in the order
  they were submitted, whatever was stored before and however many rows one save writes; and no
  contact of another customer changes.\<close>

theorem contacts_roundtrip:
  assumes "create_customer e clk f w = (Ok c, w') \<or> update_customer e clk k f w = (Ok c, w')"
    and "cf_contacts f = Some cs" "distinct (map fst cs)"
  shows "map_option (map (\<lambda>(kind, ks). (kind, map k_value ks))) (contacts_by_kind (saved w') (c_id c))
      = Some (map (\<lambda>kind. (kind, filter (\<lambda>v. v \<noteq> []) (map strip (values_of cs kind)))) CONTACT_KINDS)
    \<and> filter (\<lambda>x. k_customer_id x \<noteq> c_id c) (contacts (saved w')) = filter (\<lambda>x. k_customer_id x \<noteq> c_id c) (contacts (cur w))"
proof -
  from assms(1) obtain w2 c0 where ok: "customer_errors f = Inr []" and w2: "contacts (cur w2) = contacts (cur w)"
    and s: "save_contacts e clk f c0 w2 = (Ok c, w')"
  proof
    assume "create_customer e clk f w = (Ok c, w')"
    from create_customer_Ok[OF this] that show thesis by blast
  next
    assume "update_customer e clk k f w = (Ok c, w')"
    from update_customer_Ok[OF this] obtain c0 where "customer_errors f = Inr []"
      "save_contacts e clk f (set_fields f c0) (stage (upd_customer k (set_fields f)) False w) = (Ok c, w')" by blast
    then show thesis by (intro that) (simp_all add: upd_customer_def)
  qed
  from save_contacts_saved[OF s assms(2)] obtain rows where c: "c = c0"
    and sv: "contacts (saved w') = filter (\<lambda>x. k_customer_id x \<noteq> c_id c0) (contacts (cur w)) @ rows"
    and rows: "map (\<lambda>k. (k_kind k, k_value k)) rows = contact_values cs" "\<forall>k\<in>set rows. k_customer_id k = c_id c0"
      "sorted_wrt (<) (map k_created_at rows)"
    using w2 by auto
  have "\<forall>x\<in>set (filter (\<lambda>x. k_customer_id x \<noteq> c_id c0) (contacts (cur w))). k_customer_id x \<noteq> c_id c0" by simp
  from contacts_by_kind_rows[OF sv this rows(2,1,3) validated[OF ok assms(2)] assms(3)]
  show ?thesis using rows(2) by (simp add: c sv filter_empty_conv)
qed

text \<open>A refused form, or one whose handler raises, writes nothing.\<close>

lemma insert_contacts_saved: "saved (snd (insert_contacts e cid at kvs w)) = saved w"
proof (induction e cid at kvs w rule: insert_contacts.induct)
  case (2 e cid at kv kvs w)
  obtain i w1 where i: "new_id e w = (i, w1)" by fastforce
  have "saved w1 = saved w" by (metis clock_frame(8) i snd_conv)
  then show ?case using 2[OF i[symmetric] refl] by (auto simp: i)
qed simp

lemma save_contacts_refused:
  "\<not> is_Ok (fst (save_contacts e clk f c w)) \<Longrightarrow> saved (snd (save_contacts e clk f c w)) = saved w"
proof -
  assume a: "\<not> is_Ok (fst (save_contacts e clk f c w))"
  have cr: "\<not> is_Ok (fst (commit_result c v)) \<Longrightarrow> saved (snd (commit_result c v)) = saved v" for v :: world
    by (auto simp: commit_result_def commit_def)
  have rc: "saved (snd (replace_contacts e clk (c_id c) cs w)) = saved w" for cs
    by (simp add: replace_contacts_def read_clock_def insert_contacts_saved split: option.split)
  show ?thesis
  proof (cases "cf_contacts f")
    case None
    with a cr show ?thesis by (simp add: save_contacts_def)
  next
    case (Some cs)
    obtain x w1 where r: "replace_contacts e clk (c_id c) cs w = (x, w1)" by fastforce
    with rc[of cs] have "saved w1 = saved w" by simp
    with a cr[of w1] show ?thesis by (cases x) (auto simp: save_contacts_def Some r)
  qed
qed

lemma customer_refused:
  "\<not> is_Ok (fst (create_customer e clk f w)) \<Longrightarrow> saved (snd (create_customer e clk f w)) = saved w"
  "\<not> is_Ok (fst (update_customer e clk k f w)) \<Longrightarrow> saved (snd (update_customer e clk k f w)) = saved w"
  by (auto simp: create_customer_def update_customer_def Let_def split_beta
      split: sum.splits option.splits if_splits dest!: save_contacts_refused)

section \<open>The search shadow\<close>

text \<open>Every card carries the shadow of its own name, surname and consultant number.\<close>

definition shadow_ok :: "customer \<Rightarrow> bool" where
  "shadow_ok c \<longleftrightarrow> c_search_lc c = Some (search_lc (c_name c) (or_empty (c_surname c)) (or_empty (c_consultant_number c)))"

lemma or_empty_or_none [simp]: "or_empty (or_none s) = s"
  by (simp add: or_none_def)

lemma set_fields_shadow: "shadow_ok (set_fields f c)"
  by (simp add: shadow_ok_def set_fields_def)

lemma save_contacts_customers:
  assumes "save_contacts e clk f c w = (Ok c', w')"
  shows "customers (saved w') = customers (cur w)"
proof (cases "cf_contacts f")
  case None
  with assms have "commit_result c w = ((Ok c', w') :: (customer, unit) outcome \<times> world)" by (simp add: save_contacts_def)
  then show ?thesis using commit_result_saved by metis
next
  case (Some cs)
  with save_contacts_saved[OF assms] show ?thesis by auto
qed

lemma saved_shadows:
  assumes "create_customer e clk f w = (Ok c, w') \<or> update_customer e clk k f w = (Ok c, w')"
    and "list_all shadow_ok (customers (cur w))"
  shows "list_all shadow_ok (customers (saved w'))"
  using assms(1)
proof
  assume "create_customer e clk f w = (Ok c, w')"
  from create_customer_Ok[OF this] obtain w2 i now where
    "customers (cur w2) = customers (cur w) @ [set_fields f (blank_customer i now)]"
    "save_contacts e clk f (set_fields f (blank_customer i now)) w2 = (Ok c, w')" by blast
  then show ?thesis using save_contacts_customers assms(2) set_fields_shadow by simp
next
  assume "update_customer e clk k f w = (Ok c, w')"
  from update_customer_Ok[OF this] obtain c0 where
    "save_contacts e clk f (set_fields f c0) (stage (upd_customer k (set_fields f)) False w) = (Ok c, w')" by blast
  from save_contacts_customers[OF this] show ?thesis
    using assms(2) set_fields_shadow by (auto simp: upd_customer_def tupd_def list_all_iff)
qed

lemma lower_append: "lower (s @ t) = lower s @ lower t"
  by (simp add: lower_def)

lemma join_words_sublist: "p \<in> set ps \<Longrightarrow> sublist p (join_words ps)"
proof (induction ps rule: join_words.induct)
  case (3 p' q ps)
  then show ?case
    by (auto intro: sublist_appendI sublist_append_leftI simp: sublist_append)
       (metis append.assoc append_Cons append_Nil sublist_def)+
qed auto

lemma strip_ends:
  assumes "strip s \<noteq> []"
  shows "\<not> is_space (hd (strip s))" "\<not> is_space (last (strip s))"
proof -
  let ?t = "dropWhile is_space s"
  have e: "strip s = rev (dropWhile is_space (rev ?t))" by (simp add: strip_def)
  then have n: "dropWhile is_space (rev ?t) \<noteq> []" using assms by auto
  then show "\<not> is_space (last (strip s))" unfolding e last_rev by (rule hd_dropWhile)
  have "rev ?t = takeWhile is_space (rev ?t) @ dropWhile is_space (rev ?t)" by simp
  then have t: "?t = strip s @ rev (takeWhile is_space (rev ?t))"
    unfolding e by (metis rev_append rev_rev_ident)
  then have "hd ?t = hd (strip s)" using assms by (metis hd_append2)
  moreover have "?t \<noteq> []" using t assms by (metis append_is_Nil_conv)
  ultimately show "\<not> is_space (hd (strip s))" using hd_dropWhile by metis
qed

lemma join_words_ends:
  assumes "\<forall>p\<in>set ps. p \<noteq> [] \<and> \<not> is_space (hd p) \<and> \<not> is_space (last p)" "ps \<noteq> []"
  shows "join_words ps \<noteq> [] \<and> \<not> is_space (hd (join_words ps)) \<and> \<not> is_space (last (join_words ps))"
  using assms by (induction ps rule: join_words.induct) auto

text \<open>The shadow of stripped fields is the lower-cased join itself.\<close>

lemma search_lc_stripped:
  "search_lc (strip a) (strip b) (strip c) = lower (join_words (filter (\<lambda>p. p \<noteq> []) [strip a, strip b, strip c]))"
proof -
  let ?ps = "filter (\<lambda>p. p \<noteq> []) [strip a, strip b, strip c]"
  have "\<forall>p\<in>set ?ps. p \<noteq> [] \<and> \<not> is_space (hd p) \<and> \<not> is_space (last p)" using strip_ends by auto
  note ends = join_words_ends[OF this]
  have "strip (join_words ps) = join_words ps" if "ps = [] \<or> join_words ps \<noteq> [] \<and> \<not> is_space (hd (join_words ps))
      \<and> \<not> is_space (last (join_words ps))" for ps
    using that strip_id by (auto simp: strip_def[of "[]"])
  then have "strip (join_words ?ps) = join_words ?ps" using ends by blast
  then show ?thesis unfolding search_lc_def by (rule arg_cong)
qed

lemma sublist_map: "sublist xs ys \<Longrightarrow> sublist (map f xs) (map f ys)"
  unfolding sublist_def by (metis map_append)

lemma shadow_contains:
  assumes "q \<noteq> []" "sublist q (lower (strip a)) \<or> sublist q (lower (strip b)) \<or> sublist q (lower (strip c))"
  shows "like_contains (Some (search_lc (strip a) (strip b) (strip c))) q"
proof -
  obtain p where p: "p \<in> {strip a, strip b, strip c}" "sublist q (lower p)" using assms(2) by blast
  then have "p \<in> set (filter (\<lambda>p. p \<noteq> []) [strip a, strip b, strip c])" using assms(1) by (auto simp: lower_def)
  from sublist_map[OF join_words_sublist[OF this]] p(2)
  have "sublist q (search_lc (strip a) (strip b) (strip c))"
    unfolding search_lc_stripped lower_def by (rule sublist_order.order_trans[rotated])
  then show ?thesis unfolding like_contains_iff sql_lower_def by (rule sublist_map)
qed

text \<open>A card is found by any piece of what was saved in it: after a successful create or update, a query
  that occurs, whatever its case and the blanks around it, in the name, the surname or the consultant
  number matches the saved card, and the search shows the card when at most twenty cards match.\<close>

theorem saved_customer_found:
  assumes "create_customer e clk f w = (Ok c, w') \<or> update_customer e clk k f w = (Ok c, w')"
    and "lower (strip q) \<noteq> []"
    and "sublist (lower (strip q)) (lower (strip (cf_name f))) \<or> sublist (lower (strip q)) (lower (strip (cf_surname f)))
      \<or> sublist (lower (strip q)) (lower (strip (cf_consultant_number f)))"
    and "length (filter (\<lambda>c. like_contains (c_search_lc c) (lower (strip q))) (customers (saved w'))) \<le> 20"
  shows "c \<in> set (search_customers (saved w') q)"
proof -
  from assms(1) have "c \<in> set (customers (saved w')) \<and> (\<exists>c0. c = set_fields f c0)"
  proof
    assume "create_customer e clk f w = (Ok c, w')"
    from create_customer_Ok[OF this] obtain w2 i now where
      r: "customers (cur w2) = customers (cur w) @ [set_fields f (blank_customer i now)]"
      and s: "save_contacts e clk f (set_fields f (blank_customer i now)) w2 = (Ok c, w')" by blast
    have "c = set_fields f (blank_customer i now)"
      using s save_contacts_saved[OF s] commit_result_saved[of _ w2 c w', where 'b = unit]
      by (cases "cf_contacts f") (auto simp: save_contacts_def)
    then show ?thesis using r save_contacts_customers[OF s] by auto
  next
    assume "update_customer e clk k f w = (Ok c, w')"
    from update_customer_Ok[OF this] obtain c0 where g: "get_customer (cur w) k = Some c0"
      and s: "save_contacts e clk f (set_fields f c0) (stage (upd_customer k (set_fields f)) False w) = (Ok c, w')" by blast
    have "c = set_fields f c0"
      using s save_contacts_saved[OF s] commit_result_saved[of _ _ c w', where 'b = unit]
      by (cases "cf_contacts f") (auto simp: save_contacts_def)
    moreover have "set_fields f c0 \<in> set (customers (saved w'))"
      using tget_SomeD[OF g] unfolding save_contacts_customers[OF s] stage_frame upd_customer_def
      by (auto simp: set_tupd image_iff intro!: bexI[of _ c0])
    ultimately show ?thesis by blast
  qed
  then have "c \<in> set (filter (\<lambda>c. like_contains (c_search_lc c) (lower (strip q))) (customers (saved w')))"
    using shadow_contains[OF assms(2,3)] by (auto simp: set_fields_def)
  moreover have "search_customers (saved w') q = sort_key (\<lambda>c. nulls_first (c_search_lc c))
      (filter (\<lambda>c. like_contains (c_search_lc c) (lower (strip q))) (customers (saved w')))"
    using assms(2,4) by (simp add: search_customers_def Let_def)
  ultimately show ?thesis by (simp del: set_filter)
qed

section \<open>Spend\<close>

text \<open>The windows nest: the year, the quarter and the month of a day all start on or before it.\<close>

lemma period_starts_nested:
  assumes "valid_date today"
  shows "Date (dyear today) 1 1 \<le> Date (dyear today) (3 * ((dmonth today - 1) div 3) + 1) 1"
    "Date (dyear today) (3 * ((dmonth today - 1) div 3) + 1) 1 \<le> Date (dyear today) (dmonth today) 1"
    "Date (dyear today) (dmonth today) 1 \<le> today"
    "\<forall>x\<in>set (period_starts today). valid_date (snd x)"
proof -
  have m: "1 \<le> dmonth today" "dmonth today \<le> 12" "1 \<le> dday today" "1 \<le> dyear today" "dyear today \<le> 9999"
    using assms by (simp_all add: valid_date_def)
  have "3 * ((dmonth today - 1) div 3) \<le> dmonth today - 1" by simp
  then have q: "3 * ((dmonth today - 1) div 3) + 1 \<le> dmonth today" using m(1) by linarith
  show "Date (dyear today) 1 1 \<le> Date (dyear today) (3 * ((dmonth today - 1) div 3) + 1) 1"
    by (auto simp: less_eq_date_def)
  show "Date (dyear today) (3 * ((dmonth today - 1) div 3) + 1) 1 \<le> Date (dyear today) (dmonth today) 1"
    using q by (auto simp: less_eq_date_def)
  show "Date (dyear today) (dmonth today) 1 \<le> today" using m by (auto simp: less_eq_date_def)
  have "1 \<le> days_in_month y n" for y n by (simp add: days_in_month_def)
  then show "\<forall>x\<in>set (period_starts today). valid_date (snd x)"
    using m q by (simp add: period_starts_def valid_date_def)
qed

text \<open>\<open>spend_view\<close> and \<open>spend_totals\<close> give the same amounts.\<close>

lemma spend_surfaces_agree:
  "map (\<lambda>(name, cents, start). (name, cents)) (spend_view e d cid today) = spend_totals e d cid today"
  by (auto simp: spend_view_def spend_totals_def business_date_bounds_def)

text \<open>A ledger whose business days are calendar days, as the write path and the exchange gate keep it.\<close>

definition dated_ledger :: "operation list \<Rightarrow> bool" where
  "dated_ledger ops \<longleftrightarrow> list_all (\<lambda>o1. \<exists>g. valid_date g \<and> business_day (o_business_date o1) (o_created_at o1) = isoformat g) ops"

text \<open>Two adjoining windows add up to the window they cover.\<close>

lemma period_split:
  assumes "valid_date a" "valid_date c" "valid_date b" "add_days c 1 = Some c'" "a \<le> c" "c < b"
    and "\<exists>g. valid_date g \<and> business_day (o_business_date o1) (o_created_at o1) = isoformat g"
  shows "op_in_period (isoformat a) (isoformat b) o1 \<longleftrightarrow>
      op_in_period (isoformat a) (isoformat c) o1 \<or> op_in_period (isoformat c') (isoformat b) o1"
    "\<not> (op_in_period (isoformat a) (isoformat c) o1 \<and> op_in_period (isoformat c') (isoformat b) o1)"
proof -
  obtain g where g: "valid_date g" "business_day (o_business_date o1) (o_created_at o1) = isoformat g"
    using assms(7) by blast
  note s = add_days_order[OF assms(2,4)]
  have le: "isoformat x \<le> isoformat y \<longleftrightarrow> x \<le> y" if "valid_date x" "valid_date y" for x y
    using isoformat_less[OF that(2,1)] by (metis not_le)
  have o: "x \<le> y \<longleftrightarrow> ymd2ord x \<le> ymd2ord y" if "valid_date x" "valid_date y" for x y
    using ymd2ord_less[of y x] that by (metis not_le valid_date_month_ok)
  have k: "int (ymd2ord c') = int (ymd2ord c) + 1" by (rule s(4))
  have ac: "ymd2ord a \<le> ymd2ord c" using assms(5) o[OF assms(1,2)] by simp
  have cb: "ymd2ord c < ymd2ord b" using assms(6) o[OF assms(3,2)] by (metis not_le)
  show "op_in_period (isoformat a) (isoformat b) o1 \<longleftrightarrow>
      op_in_period (isoformat a) (isoformat c) o1 \<or> op_in_period (isoformat c') (isoformat b) o1"
    "\<not> (op_in_period (isoformat a) (isoformat c) o1 \<and> op_in_period (isoformat c') (isoformat b) o1)"
    using k ac cb
    by (auto simp: op_in_period_def g(2) le[OF assms(1) g(1)] le[OF g(1) assms(3)] le[OF g(1) assms(2)]
        le[OF s(1) g(1)] o[OF assms(1) g(1)] o[OF g(1) assms(3)] o[OF g(1) assms(2)] o[OF s(1) g(1)])
qed

theorem spend_windows_add:
  assumes "valid_date a" "valid_date c" "valid_date b" "add_days c 1 = Some c'" "a \<le> c" "c < b" "dated_ledger (operations d)"
  shows "spend_window e d cid (isoformat a) (isoformat b)
    = spend_window e d cid (isoformat a) (isoformat c) + spend_window e d cid (isoformat c') (isoformat b)"
proof -
  have g: "\<exists>g. valid_date g \<and> business_day (o_business_date o1) (o_created_at o1) = isoformat g"
    if "o1 \<in> set (operations d)" for o1
    using that assms(7) by (auto simp: dated_ledger_def list_all_iff)
  let ?p = "\<lambda>o1. op_customer d o1 = Some cid \<and> (o_type o1 = ''sale'' \<or> o_type o1 = ''return'')
        \<and> warehouse_scope e (op_warehouse d o1)"
  have "spend_window e d cid (isoformat a) (isoformat b)
      = sum_where (\<lambda>o1. (?p o1 \<and> op_in_period (isoformat a) (isoformat b) o1) \<and> op_in_period (isoformat a) (isoformat c) o1) row_revenue (operations d)
      + sum_where (\<lambda>o1. (?p o1 \<and> op_in_period (isoformat a) (isoformat b) o1) \<and> \<not> op_in_period (isoformat a) (isoformat c) o1) row_revenue (operations d)"
    unfolding spend_window_def
    by (subst sum_where_split[where q = "op_in_period (isoformat a) (isoformat c)"]) (simp only: conj_assoc)
  also have "\<dots> = spend_window e d cid (isoformat a) (isoformat c) + spend_window e d cid (isoformat c') (isoformat b)"
    unfolding spend_window_def
    using period_split[OF assms(1-6) g] by (intro arg_cong2[where f = "(+)"] sum_where_cong) blast+
  finally show ?thesis .
qed

section \<open>Favourites and the last order\<close>

text \<open>A purchase split over several batches of one sale counts as one order.\<close>

lemma order_freq_card: "order_freq ops p = card (o_sale_id ` {o1 \<in> set ops. o_product_id o1 = p_id p})"
proof -
  have "o_sale_id ` {o1 \<in> set ops. o_product_id o1 = p_id p}
      = set (remdups (map o_sale_id (filter (\<lambda>o1. o_product_id o1 = p_id p) ops)))" by auto
  then show ?thesis unfolding order_freq_def by (metis distinct_card distinct_remdups)
qed

lemma favorites_sorted:
  "sorted (map (\<lambda>(p, freq, qty). (- int freq, - qty, p_name p)) (favorite_products e d cid limit))"
proof -
  let ?ops = "filter (bought e d cid) (operations d)"
  let ?k = "\<lambda>p. (- int (order_freq ?ops p), - order_qty ?ops p, p_name p)"
    and ?ps = "filter (\<lambda>p. list_ex (\<lambda>o1. o_product_id o1 = p_id p) ?ops) (products d)"
  have "map (\<lambda>(p, freq, qty). (- int freq, - qty, p_name p)) (favorite_products e d cid limit)
      = take limit (map ?k (sort_key ?k ?ps))"
    by (simp add: favorite_products_def Let_def take_map comp_def)
  moreover have "sorted (map ?k (sort_key ?k ?ps))" by simp
  ultimately show ?thesis by (simp add: sorted_wrt_take)
qed

lemma fold_max_mem: "fold max xs (a :: string) \<in> set (a # xs) \<and> (\<forall>x\<in>set (a # xs). x \<le> fold max xs a)"
proof (induction xs arbitrary: a)
  case Nil
  then show ?case by simp
next
  case (Cons x xs)
  from Cons[of "max x a"] show ?case by (auto simp: max_def split: if_splits) 
qed

text \<open>The last order is the latest business day of a purchase, whenever it was entered.\<close>

lemma last_order_latest:
  "last_order_date e d cid = None \<longleftrightarrow> filter (bought e d cid) (operations d) = []"
  "last_order_date e d cid = Some day \<Longrightarrow>
     (\<exists>o1\<in>set (operations d). bought e d cid o1 \<and> business_day (o_business_date o1) (o_created_at o1) = day)
     \<and> (\<forall>o1\<in>set (operations d). bought e d cid o1 \<longrightarrow> business_day (o_business_date o1) (o_created_at o1) \<le> day)"
proof -
  let ?days = "map (\<lambda>o1. business_day (o_business_date o1) (o_created_at o1)) (filter (bought e d cid) (operations d))"
  show "last_order_date e d cid = None \<longleftrightarrow> filter (bought e d cid) (operations d) = []"
    by (auto simp: last_order_date_def split: list.splits)
  assume a: "last_order_date e d cid = Some day"
  then obtain x xs where x: "?days = x # xs" and day: "day = fold max xs x"
    by (auto simp: last_order_date_def split: list.splits)
  have "day \<in> set ?days \<and> (\<forall>y\<in>set ?days. y \<le> day)" using fold_max_mem[of xs x] unfolding x day .
  then show "(\<exists>o1\<in>set (operations d). bought e d cid o1 \<and> business_day (o_business_date o1) (o_created_at o1) = day)
     \<and> (\<forall>o1\<in>set (operations d). bought e d cid o1 \<longrightarrow> business_day (o_business_date o1) (o_created_at o1) \<le> day)"
    by auto
qed

end
