(* ===== verification/History.thy ===== *)
theory History
  imports Clock Customers Finance "HOL-Library.Multiset"
begin

text \<open>
  The browsing pages over the two ledgers: \<open>src/app/services/operations.py\<close> (the operation history with
  its filters), \<open>cash_history_view\<close> of \<open>finance.py\<close> and \<open>ledger_view\<close> of \<open>ledger.py\<close>. A page is a slice of the
  joined, filtered and sorted rows; the total comes from a count query of its own. The theorems: the
  pages are exactly the matching rows, with the total the pager shows, and an operation entered for
  the current local day is never marked as back-dated.
\<close>

section \<open>The back-dating marker\<close>

definition is_backdated :: "(int \<Rightarrow> int) \<Rightarrow> string option \<Rightarrow> string option \<Rightarrow> exn + bool" where
  "is_backdated tz business_date created_at =
     (case business_date of None \<Rightarrow> Inr False
      | Some bd \<Rightarrow> (case local_day_of tz created_at of Inl x \<Rightarrow> Inl x
          | Inr None \<Rightarrow> Inr (bd \<noteq> take 10 (case created_at of None \<Rightarrow> ''None'' | Some s \<Rightarrow> s))
          | Inr (Some day) \<Rightarrow> Inr (bd \<noteq> isoformat day)))"

text \<open>A list of results, or the first exception.\<close>

fun all_ok :: "(exn + 'a) list \<Rightarrow> exn + 'a list" where
  "all_ok [] = Inr []"
| "all_ok (r # rs) = (case r of Inl x \<Rightarrow> Inl x
     | Inr a \<Rightarrow> (case all_ok rs of Inl x \<Rightarrow> Inl x | Inr as \<Rightarrow> Inr (a # as)))"

section \<open>Page slices\<close>

text \<open>\<open>max(1, -(-total // page_size))\<close>, the clamped page, and \<open>LIMIT page_size OFFSET page * page_size\<close>.\<close>

definition pages_of :: "nat \<Rightarrow> nat \<Rightarrow> int" where
  "pages_of page_size tot = max 1 (- ((- int tot) div int page_size))"

definition clamp_page :: "nat \<Rightarrow> nat \<Rightarrow> int \<Rightarrow> int" where
  "clamp_page page_size tot page = max 0 (min page (pages_of page_size tot - 1))"

definition page_slice :: "nat \<Rightarrow> int \<Rightarrow> 'r list \<Rightarrow> 'r list" where
  "page_slice page_size page rows = take page_size (drop (nat page * page_size) rows)"

section \<open>The operation history\<close>

definition HISTORY_TYPE_COLUMNS :: "(string \<times> string list) list" where
  "HISTORY_TYPE_COLUMNS =
     [(''receipt'', [''expiry'', ''qty'', ''cost'']),
      (''sale'', [''expiry'', ''qty'', ''price'', ''cost'', ''profit'', ''customer'']),
      (''return'', [''expiry'', ''qty'', ''price'', ''cost'', ''profit'', ''customer'']),
      (''writeoff'', [''expiry'', ''qty'', ''cost'', ''reason'']),
      (''correction'', [''expiry'', ''qty'', ''reason'']),
      (''transfer'', [''expiry'', ''qty'', ''warehouse''])]"

definition DATED_FILTERS :: "string list" where
  "DATED_FILTERS = [''backdated'', ''same_day'']"

record history_query =
  hq_type :: "string option"
  hq_product :: "string option"
  hq_customer :: "string option"
  hq_category :: "string option"
  hq_start :: "string option"
  hq_end :: "string option"
  hq_author :: "string option"
  hq_dated :: string
  hq_sort :: string
  hq_page :: int
  hq_page_size :: nat

record history_row =
  hr_op :: operation
  hr_product :: product
  hr_batch :: "batch option"
  hr_warehouse :: "warehouse option"
  hr_customer :: "customer option"
  hr_author :: "user option"
  hr_business_day :: "string option"
  hr_backdated :: bool

record history_page =
  hp_rows :: "history_row list"
  hp_page :: int
  hp_total :: nat
  hp_total_pages :: int
  hp_dated :: string
  hp_columns :: "string list option"

definition period_matches :: "history_query \<Rightarrow> operation \<Rightarrow> bool" where
  "period_matches q o1 = (case (hq_start q, hq_end q) of (Some a, Some b) \<Rightarrow> op_in_period a b o1 | _ \<Rightarrow> True)"

definition dated_key :: "string \<Rightarrow> string" where
  "dated_key dated = (if dated \<in> set DATED_FILTERS then dated else [])"

text \<open>The filter compares with the UTC day, the first ten characters of the timestamp.\<close>

definition dated_matches :: "string \<Rightarrow> operation \<Rightarrow> bool" where
  "dated_matches dated o1 =
     (if dated_key dated = ''backdated'' then o_business_date o1 \<noteq> None \<and> o_business_date o1 \<noteq> Some (take 10 (o_created_at o1))
      else if dated_key dated = ''same_day'' then o_business_date o1 = None \<or> o_business_date o1 = Some (take 10 (o_created_at o1))
      else True)"

definition category_matches :: "db \<Rightarrow> history_query \<Rightarrow> product \<Rightarrow> bool" where
  "category_matches d q p =
     (let category_q = lower (strip (or_empty (hq_category q)))
      in category_q = [] \<or> p_category p \<in> Some ` set (filter (\<lambda>c. sublist category_q (lower c)) (category_options d)))"

definition customer_matches :: "db \<Rightarrow> history_query \<Rightarrow> operation \<Rightarrow> bool" where
  "customer_matches d q o1 =
     (let customer_q = strip (or_empty (hq_customer q))
      in customer_q = [] \<or> hq_type q \<notin> {Some ''sale'', Some ''return''}
         \<or> op_customer d o1 \<in> Some ` set (map c_id (search_customers d customer_q)))"

text \<open>The conditions of both queries, on an operation joined to its product.\<close>

definition history_matches :: "env \<Rightarrow> db \<Rightarrow> history_query \<Rightarrow> operation \<times> product \<Rightarrow> bool" where
  "history_matches e d q op =
     (let (o1, p) = op in
      (allowed_warehouse_ids e = None \<or> warehouse_scope e (op_warehouse d o1) \<or> o_type o1 \<notin> set STOCK_AFFECTING_TYPES)
      \<and> (or_empty (hq_type q) = [] \<or> or_empty (hq_type q) \<notin> set OPERATION_TYPES \<or> o_type o1 = or_empty (hq_type q))
      \<and> (or_empty (hq_product q) = [] \<or> o_product_id o1 = or_empty (hq_product q))
      \<and> category_matches d q p \<and> customer_matches d q o1 \<and> period_matches q o1
      \<and> (or_empty (hq_author q) = [] \<or> o_author_id o1 = hq_author q)
      \<and> dated_matches (hq_dated q) o1)"

definition history_order :: "string \<Rightarrow> operation list \<Rightarrow> operation list" where
  "history_order sort_by ops = (if sort_by = ''oldest'' then sort_key (\<lambda>o1. (o_created_at o1, o_seq o1)) ops else newest_first ops)"

text \<open>\<open>stmt\<close> without its page, and the count query.\<close>

definition history_rows :: "env \<Rightarrow> db \<Rightarrow> history_query \<Rightarrow> (operation \<times> product) list" where
  "history_rows e d q = filter (history_matches e d q) (concat (map (join_product d) (history_order (hq_sort q) (operations d))))"

definition history_count :: "env \<Rightarrow> db \<Rightarrow> history_query \<Rightarrow> nat" where
  "history_count e d q = length (filter (history_matches e d q) (concat (map (join_product d) (operations d))))"

text \<open>The outer joins of one row.\<close>

definition history_row_of :: "(int \<Rightarrow> int) \<Rightarrow> db \<Rightarrow> operation \<times> product \<Rightarrow> exn + history_row" where
  "history_row_of tz d op =
     (case is_backdated tz (o_business_date (fst op)) (Some (o_created_at (fst op))) of Inl x \<Rightarrow> Inl x
      | Inr mark \<Rightarrow> Inr \<lparr>hr_op = fst op, hr_product = snd op,
          hr_batch = Option.bind (o_batch_id (fst op)) (get_batch d),
          hr_warehouse = Option.bind (op_warehouse d (fst op)) (get_warehouse d),
          hr_customer = Option.bind (op_customer d (fst op)) (get_customer d),
          hr_author = Option.bind (o_author_id (fst op)) (\<lambda>k. tget u_id k (users d)),
          hr_business_day = o_business_date (fst op), hr_backdated = mark\<rparr>)"

definition history_view :: "env \<Rightarrow> (int \<Rightarrow> int) \<Rightarrow> db \<Rightarrow> history_query \<Rightarrow> exn + history_page" where
  "history_view e tz d q =
     (let tot = history_count e d q; page = clamp_page (hq_page_size q) tot (hq_page q)
      in case all_ok (map (history_row_of tz d) (page_slice (hq_page_size q) page (history_rows e d q))) of
           Inl x \<Rightarrow> Inl x
         | Inr rows \<Rightarrow> Inr \<lparr>hp_rows = rows, hp_page = page, hp_total = tot,
             hp_total_pages = pages_of (hq_page_size q) tot, hp_dated = dated_key (hq_dated q),
             hp_columns = Option.bind (hq_type q) (map_of HISTORY_TYPE_COLUMNS)\<rparr>)"

definition filter_products :: "db \<Rightarrow> product list" where
  "filter_products d = sort_key (\<lambda>p. nulls_first (p_name_lc p)) (filter is_active (products d))"

section \<open>The cash history and the ledger page\<close>

record cash_page =
  cpg_rows :: "(cash_movement \<times> string option \<times> bool) list"
  cpg_page :: int
  cpg_total :: nat
  cpg_total_pages :: int

definition cash_matches :: "string \<Rightarrow> string option \<Rightarrow> cash_movement \<Rightarrow> bool" where
  "cash_matches currency bkt m \<longleftrightarrow> m_currency m = currency \<and>
     (case (if or_empty bkt = [] then None else map_of CASH_BUCKETS (or_empty bkt)) of None \<Rightarrow> True
      | Some cats \<Rightarrow> cats = [] \<or> m_category m \<in> set cats)"

definition newest_movements :: "cash_movement list \<Rightarrow> cash_movement list" where
  "newest_movements ms = rev (sort_key m_created_at (sort_key m_seq ms))"

definition cash_history_view ::
  "(int \<Rightarrow> int) \<Rightarrow> db \<Rightarrow> string \<Rightarrow> string option \<Rightarrow> int \<Rightarrow> nat \<Rightarrow> exn + cash_page" where
  "cash_history_view tz d currency bkt page0 page_size =
     (let tot = length (filter (cash_matches currency bkt) (cash_movements d));
          page = clamp_page page_size tot page0;
          rows = page_slice page_size page (newest_movements (filter (cash_matches currency bkt) (cash_movements d)))
      in case all_ok (map (\<lambda>m. case is_backdated tz (m_business_date m) (Some (m_created_at m)) of Inl x \<Rightarrow> Inl x
             | Inr mark \<Rightarrow> Inr (m, m_business_date m, mark)) rows) of
           Inl x \<Rightarrow> Inl x
         | Inr rs \<Rightarrow> Inr \<lparr>cpg_rows = rs, cpg_page = page, cpg_total = tot, cpg_total_pages = pages_of page_size tot\<rparr>)"

definition ledger_view :: "db \<Rightarrow> product option \<times> operation list \<times> int option" where
  "ledger_view d =
     (let prod = (case sort_key p_created_at (filter is_active (products d)) of [] \<Rightarrow> None | p # _ \<Rightarrow> Some p)
      in (prod, take 50 (newest_first (operations d)), map_option (\<lambda>p. compute_stock d (p_id p)) prod))"

section \<open>The pages are the matching rows\<close>

lemma slices_cover:
  "length rows \<le> k * n \<Longrightarrow> concat (map (\<lambda>i. page_slice k (int i) rows) [0..<n]) = rows"
proof (induction n arbitrary: rows)
  case 0
  then show ?case by simp
next
  case (Suc n)
  have "concat (map (\<lambda>i. page_slice k (int i) rows) [0..<Suc n])
      = take k rows @ concat (map (\<lambda>i. page_slice k (int i) (drop k rows)) [0..<n])"
    by (simp add: upt_conv_Cons map_Suc_upt[symmetric] comp_def page_slice_def add.commute del: upt_Suc)
  also have "\<dots> = take k rows @ drop k rows" using Suc by (subst Suc.IH) auto
  finally show ?case by simp
qed

lemma pages_of_bounds:
  assumes "0 < k"
  shows "1 \<le> pages_of k n" "int n \<le> int k * pages_of k n" "0 < n \<Longrightarrow> int k * (pages_of k n - 1) < int n"
proof -
  let ?q = "- ((- int n) div int k)"
  have d: "- int n = int k * ((- int n) div int k) + (- int n) mod int k" by simp
  have m: "0 \<le> (- int n) mod int k" "(- int n) mod int k < int k" using assms by simp_all
  have q: "int k * ?q = int n + (- int n) mod int k" 
  proof -
    have "int k * ?q = - (int k * ((- int n) div int k))" by simp
    with d show ?thesis by linarith
  qed
  show "1 \<le> pages_of k n" by (simp add: pages_of_def)
  have "int k * ?q \<le> int k * pages_of k n" by (intro mult_left_mono) (simp_all add: pages_of_def)
  with q m show "int n \<le> int k * pages_of k n" by linarith
  assume n: "0 < n"
  have "1 \<le> ?q"
  proof (rule ccontr)
    assume "\<not> 1 \<le> ?q"
    then have "int k * ?q \<le> 0" by (intro mult_nonneg_nonpos) simp_all
    with q m n show False by linarith
  qed
  then have "pages_of k n = ?q" by (simp add: pages_of_def)
  then show "int k * (pages_of k n - 1) < int n" using q m by (simp add: right_diff_distrib)
qed

lemma clamp_page_bounds: "0 < k \<Longrightarrow> 0 \<le> clamp_page k n page \<and> clamp_page k n page < pages_of k n"
  using pages_of_bounds(1)[of k n] by (simp add: clamp_page_def)

lemma page_not_empty:
  assumes "0 < k" "rows \<noteq> []"
  shows "page_slice k (clamp_page k (length rows) page) rows \<noteq> []"
proof -
  let ?p = "clamp_page k (length rows) page"
  have p: "0 \<le> ?p" "?p \<le> pages_of k (length rows) - 1" using clamp_page_bounds[OF assms(1), of "length rows" page] by linarith+
  have "int k * ?p \<le> int k * (pages_of k (length rows) - 1)" using p(2) by (intro mult_left_mono) simp_all
  also have "\<dots> < int (length rows)" using pages_of_bounds(3)[OF assms(1)] assms(2) by simp
  finally have "int k * ?p < int (length rows)" .
  moreover have "int (nat ?p * k) = int k * ?p" using p(1) by (simp only: of_nat_mult nat_0_le mult.commute)
  ultimately have "nat ?p * k < length rows" by (metis of_nat_less_iff)
  then show ?thesis using assms(1) by (simp add: page_slice_def)
qed

lemma joined_length:
  assumes "mset xs = mset ys"
  shows "length (filter P (concat (map f xs))) = length (filter P (concat (map f ys)))"
proof -
  have "mset (concat (map f zs)) = (\<Sum>z\<in>#mset zs. mset (f z))" for zs
    by (induction zs) auto
  then have "mset (concat (map f xs)) = mset (concat (map f ys))" using assms by simp
  then show ?thesis by (metis mset_filter size_mset)
qed

lemma history_total: "history_count e d q = length (history_rows e d q)"
  unfolding history_count_def history_rows_def
  by (rule joined_length) (simp add: history_order_def newest_first_def)

lemma all_ok_Inr: "all_ok rs = Inr as \<Longrightarrow> rs = map Inr as"
  by (induction rs arbitrary: as) (auto split: sum.splits)

text \<open>C27: the history page and its pager agree: the total is the number of rows that match the query, the
  page shown is a real page, its rows are that slice of the matching rows in order, it is empty only
  when nothing matches, and the slices of the pages the pager offers, one after another, are all the
  matching rows, none twice.\<close>

theorem history_pages:
  assumes "history_view e tz d q = Inr pg" "0 < hq_page_size q"
  shows "hp_total pg = length (history_rows e d q)
    \<and> map (\<lambda>r. (hr_op r, hr_product r)) (hp_rows pg) = page_slice (hq_page_size q) (hp_page pg) (history_rows e d q)
    \<and> 0 \<le> hp_page pg \<and> hp_page pg < hp_total_pages pg
    \<and> (hp_rows pg = [] \<longleftrightarrow> history_rows e d q = [])
    \<and> concat (map (\<lambda>i. page_slice (hq_page_size q) (int i) (history_rows e d q)) [0..<nat (hp_total_pages pg)])
      = history_rows e d q"
proof -
  let ?k = "hq_page_size q" and ?rows = "history_rows e d q"
  let ?page = "clamp_page ?k (length ?rows) (hq_page q)"
  from assms(1) obtain rs where rs: "all_ok (map (history_row_of tz d) (page_slice ?k ?page ?rows)) = Inr rs"
    and pg: "hp_rows pg = rs" "hp_page pg = ?page" "hp_total pg = length ?rows" "hp_total_pages pg = pages_of ?k (length ?rows)"
    by (auto simp: history_view_def history_total Let_def split: sum.splits)
  have one: "history_row_of tz d op = Inr r \<Longrightarrow> (hr_op r, hr_product r) = op" for op r
    by (auto simp: history_row_of_def split: sum.splits)
  from all_ok_Inr[OF rs] have m: "map (history_row_of tz d) (page_slice ?k ?page ?rows) = map Inr rs" .
  have "map (\<lambda>r. (hr_op r, hr_product r)) rs = page_slice ?k ?page ?rows"
  proof (rule nth_equalityI)
    show l: "length (map (\<lambda>r. (hr_op r, hr_product r)) rs) = length (page_slice ?k ?page ?rows)"
      using arg_cong[OF m, of length] by simp
    fix i assume i: "i < length (map (\<lambda>r. (hr_op r, hr_product r)) rs)"
    then have "history_row_of tz d (page_slice ?k ?page ?rows ! i) = Inr (rs ! i)"
      using arg_cong[OF m, of "\<lambda>l. l ! i"] l by simp
    from one[OF this] i show "map (\<lambda>r. (hr_op r, hr_product r)) rs ! i = page_slice ?k ?page ?rows ! i" by simp
  qed
  then have s: "map (\<lambda>r. (hr_op r, hr_product r)) (hp_rows pg) = page_slice ?k (hp_page pg) ?rows" using pg by simp
  then have e: "hp_rows pg = [] \<longleftrightarrow> page_slice ?k ?page ?rows = []" using pg by (metis list.map_disc_iff)
  have empty: "hp_rows pg = [] \<longleftrightarrow> ?rows = []"
    using page_not_empty[OF assms(2), of ?rows "hq_page q"] e assms(2) by (auto simp: page_slice_def)
  have "int (length ?rows) \<le> int (?k * nat (pages_of ?k (length ?rows)))"
    using pages_of_bounds(1,2)[OF assms(2), of "length ?rows"] by simp
  then have "length ?rows \<le> ?k * nat (pages_of ?k (length ?rows))" by (simp only: of_nat_le_iff)
  then have "concat (map (\<lambda>i. page_slice ?k (int i) ?rows) [0..<nat (pages_of ?k (length ?rows))]) = ?rows"
    by (rule slices_cover)
  then show ?thesis using s empty pg clamp_page_bounds[OF assms(2), of "length ?rows" "hq_page q"] by simp
qed

text \<open>The only exception of the page is an overflow of a timestamp at the edge of the calendar.\<close>

lemma local_day_of_raises: "local_day_of tz s = Inl x \<Longrightarrow> x = OverflowError"
  by (auto simp: local_day_of_def to_local_def Let_def split: option.splits if_splits sum.splits)

lemma is_backdated_raises: "is_backdated tz bd s = Inl x \<Longrightarrow> x = OverflowError"
  using local_day_of_raises by (auto simp: is_backdated_def split: option.splits sum.splits)

lemma all_ok_Inl: "all_ok rs = Inl x \<Longrightarrow> Inl x \<in> set rs"
  by (induction rs) (auto split: sum.splits)

lemma history_row_raises: "history_row_of tz d op = Inl x \<Longrightarrow> x = OverflowError"
  using is_backdated_raises by (auto simp: history_row_of_def split: sum.splits)

lemma history_raises: "history_view e tz d q = Inl x \<Longrightarrow> x = OverflowError"
  by (auto simp: history_view_def Let_def split: sum.splits dest!: all_ok_Inl intro: history_row_raises[OF sym])

text \<open>An operation entered now is marked as back-dated exactly when its business date is not the local day
  of the clock, in any time zone and at any second of the day; with the date field left to today it
  is never marked.\<close>

theorem marker_exact:
  assumes "in_range t" "in_range (t - t mod 1000000 + tz (t - t mod 1000000))"
  shows "is_backdated tz (Some bd) (Some (utc_iso_seconds t))
    = Inr (bd \<noteq> isoformat (day_of (t - t mod 1000000 + tz (t - t mod 1000000))))"
  unfolding seconds_text is_backdated_def
  using local_day_of_written[of "t - t mod 1000000" tz, OF in_range_seconds[OF assms(1)] assms(2)] by simp

section \<open>The cash page\<close>

lemma cash_history_pages:
  assumes "cash_history_view tz d currency bkt page page_size = Inr pg" "0 < page_size"
  shows "cpg_total pg = length (filter (cash_matches currency bkt) (cash_movements d))"
    "map fst (cpg_rows pg) = page_slice page_size (cpg_page pg) (newest_movements (filter (cash_matches currency bkt) (cash_movements d)))"
    "0 \<le> cpg_page pg \<and> cpg_page pg < cpg_total_pages pg"
proof -
  let ?ms = "filter (cash_matches currency bkt) (cash_movements d)"
  let ?page = "clamp_page page_size (length ?ms) page"
  let ?f = "\<lambda>m. case is_backdated tz (m_business_date m) (Some (m_created_at m)) of Inl x \<Rightarrow> Inl x
             | Inr mark \<Rightarrow> Inr (m, m_business_date m, mark)"
  from assms(1) obtain rs where rs: "all_ok (map ?f (page_slice page_size ?page (newest_movements ?ms))) = Inr rs"
    and pg: "cpg_rows pg = rs" "cpg_page pg = ?page" "cpg_total pg = length ?ms" "cpg_total_pages pg = pages_of page_size (length ?ms)"
    by (auto simp: cash_history_view_def Let_def split: sum.splits)
  have one: "map ?f xs = map Inr ys \<Longrightarrow> map fst ys = xs" for xs ys
    by (induction xs arbitrary: ys) (auto split: sum.splits)
  from one[OF all_ok_Inr[OF rs]] pg
  show "map fst (cpg_rows pg) = page_slice page_size (cpg_page pg) (newest_movements ?ms)" by simp
  show "cpg_total pg = length ?ms" by (rule pg(3))
  show "0 \<le> cpg_page pg \<and> cpg_page pg < cpg_total_pages pg" using clamp_page_bounds[OF assms(2)] pg by simp
qed

end
