(* ===== verification/DictEntries.thy ===== *)
theory DictEntries
  imports History Prefill
begin

text \<open>
  \<open>src/app/services/dictionary.py\<close>: the code-to-name dictionary that the prefills consult. Editing
  checks the code against every other row first, so a commit only fails on a clash of ids, which the
  service reports as a duplicate. The column \<open>updated_at\<close> is not modelled.
\<close>

section \<open>Operations\<close>

definition add_dict_row :: "dict_entry \<Rightarrow> db \<Rightarrow> db" where
  "add_dict_row r d = d\<lparr>dictionary := dictionary d @ [r]\<rparr>"

definition upd_dict :: "string \<Rightarrow> (dict_entry \<Rightarrow> dict_entry) \<Rightarrow> db \<Rightarrow> db" where
  "upd_dict k f d = d\<lparr>dictionary := tupd d_id k f (dictionary d)\<rparr>"

definition code_taken :: "db \<Rightarrow> string \<Rightarrow> string option \<Rightarrow> bool" where
  "code_taken d code exclude_id \<longleftrightarrow> list_ex (\<lambda>r. d_code r = code \<and> Some (d_id r) \<noteq> exclude_id) (dictionary d)"

definition validate_entry :: "db \<Rightarrow> string \<Rightarrow> string \<Rightarrow> string option \<Rightarrow> errors" where
  "validate_entry d code name exclude_id =
     (let es1 = (if code = [] then [(''code'', EntryCodeRequired)] else []);
          es2 = (if name = [] then dict_set ''name'' EntryNameRequired es1 else es1)
      in if code \<noteq> [] \<and> code_taken d code exclude_id then dict_set ''code'' EntryDuplicate es2 else es2)"

text \<open>A failed commit is rolled back and shown as the duplicate error.\<close>

definition commit_entry :: "dict_entry \<Rightarrow> world \<Rightarrow> (dict_entry, unit) outcome \<times> world" where
  "commit_entry r w =
     (case commit w of
        (None, w1) \<Rightarrow> (Ok r, w1)
      | (Some _, w1) \<Rightarrow> (Errors [(''code'', EntryDuplicate)], rollback w1))"

definition add_entry :: "env \<Rightarrow> string \<Rightarrow> string \<Rightarrow> world \<Rightarrow> (dict_entry, unit) outcome \<times> world" where
  "add_entry e code name w =
     (let c = strip code; n = strip name; es = validate_entry (cur w) c n None
      in if es \<noteq> [] then (Errors es, w)
         else (let (i, w1) = new_id e w; (now, w2) = utcnow_iso e w1;
                   r = \<lparr>d_id = i, d_code = c, d_name = n, d_name_lc = Some (lower n), d_rubric = None,
                        d_catalogs = None, d_created_at = now\<rparr>
               in commit_entry r (stage (add_dict_row r) (thas d_id i (dictionary (cur w))) w2)))"

definition set_entry :: "string \<Rightarrow> string \<Rightarrow> dict_entry \<Rightarrow> dict_entry" where
  "set_entry c n r = r\<lparr>d_code := c, d_name := n, d_name_lc := Some (lower n)\<rparr>"

definition update_entry :: "string \<Rightarrow> string \<Rightarrow> string \<Rightarrow> world \<Rightarrow> (dict_entry, unit) outcome \<times> world" where
  "update_entry k code name w =
     (case tget d_id k (dictionary (cur w)) of
        None \<Rightarrow> (Errors [(''entry'', EntryMissing)], w)
      | Some r \<Rightarrow>
          (let c = strip code; n = strip name; es = validate_entry (cur w) c n (Some k)
           in if es \<noteq> [] then (Errors es, w)
              else commit_entry (set_entry c n r) (stage (upd_dict k (set_entry c n)) False w)))"

record 'r list_page =
  lg_rows :: "'r list"
  lg_total :: nat
  lg_total_pages :: int
  lg_page :: int

definition page_of :: "'r list \<Rightarrow> int \<Rightarrow> 'r list_page" where
  "page_of rows page0 =
     (let n = length rows; page = clamp_page (nat LIST_PAGE_SIZE) n page0
      in \<lparr>lg_rows = page_slice (nat LIST_PAGE_SIZE) page rows, lg_total = n,
          lg_total_pages = pages_of (nat LIST_PAGE_SIZE) n, lg_page = page\<rparr>)"

definition entry_matches :: "string \<Rightarrow> string \<Rightarrow> string \<Rightarrow> dict_entry \<Rightarrow> bool" where
  "entry_matches code name category r \<longleftrightarrow>
     (code = [] \<or> like_contains (Some (sql_lower (d_code r))) (lower code))
     \<and> (name = [] \<or> like_contains (d_name_lc r) (lower name))
     \<and> (category = [] \<or> d_rubric r = Some category)"

definition list_entries :: "db \<Rightarrow> string \<Rightarrow> string \<Rightarrow> string \<Rightarrow> string \<Rightarrow> int \<Rightarrow> dict_entry list_page" where
  "list_entries d code name category sort_by page =
     (let rows = filter (entry_matches (strip code) (strip name) (strip category)) (dictionary d)
      in page_of (if sort_by = ''name'' then sort_key (\<lambda>r. nulls_first (d_name_lc r)) rows else sort_key d_code rows) page)"

definition missing_in_dictionary :: "db \<Rightarrow> product \<Rightarrow> bool" where
  "missing_in_dictionary d p \<longleftrightarrow> is_active p \<and> p_code p \<noteq> None \<and> p_code p \<noteq> Some []
     \<and> \<not> list_ex (\<lambda>r. p_code p = Some (d_code r)) (dictionary d)"

definition list_missing_products :: "db \<Rightarrow> int \<Rightarrow> product list_page" where
  "list_missing_products d page =
     page_of (sort_key (\<lambda>p. nulls_first (p_name_lc p)) (filter (missing_in_dictionary d) (products d))) page"

definition add_entry_from_product :: "env \<Rightarrow> string \<Rightarrow> world \<Rightarrow> (dict_entry, unit) outcome \<times> world" where
  "add_entry_from_product e k w =
     (case get_product (cur w) k of
        None \<Rightarrow> (Errors [(''product'', ProductMissing)], w)
      | Some p \<Rightarrow>
          (let c = strip (or_empty (p_code p))
           in if c = [] then (Errors [(''code'', ProductCodeMissing)], w) else add_entry e c (p_name p) w))"

section \<open>One row per code\<close>

definition codes_unique :: "db \<Rightarrow> bool" where
  "codes_unique d \<longleftrightarrow> distinct (map d_code (dictionary d)) \<and> distinct (map d_id (dictionary d))"

lemma commit_entry_Ok: "commit_entry r w = (Ok r', w') \<Longrightarrow> r' = r \<and> \<not> bad w \<and> saved w' = cur w \<and> cur w' = cur w"
  by (auto simp: commit_entry_def commit_def split: if_splits)

lemma commit_entry_fail: "\<not> is_Ok (fst (commit_entry r w)) \<Longrightarrow> saved (snd (commit_entry r w)) = saved w"
  by (auto simp: commit_entry_def commit_def rollback_def split: if_splits)

lemma validate_entry_Nil:
  "validate_entry d c n x = [] \<longleftrightarrow> c \<noteq> [] \<and> n \<noteq> [] \<and> \<not> code_taken d c x"
  by (auto simp: validate_entry_def Let_def)

lemma add_entry_Ok:
  assumes "add_entry e code name w = (Ok r, w1)"
  shows "strip code \<noteq> []" "strip name \<noteq> []" "\<not> code_taken (cur w) (strip code) None"
    "d_code r = strip code" "d_name r = strip name" "d_name_lc r = Some (lower (strip name))"
    "d_id r \<notin> d_id ` set (dictionary (cur w))" "saved w1 = add_dict_row r (cur w)"
  using assms
  by (auto simp: add_entry_def Let_def split_beta validate_entry_Nil stage_def new_id_def utcnow_iso_def thas_def list_ex_iff
      dest!: commit_entry_Ok split: if_splits)

lemma update_entry_Ok:
  assumes "update_entry k code name w = (Ok r, w1)"
  shows "\<exists>r0. tget d_id k (dictionary (cur w)) = Some r0 \<and> r = set_entry (strip code) (strip name) r0
    \<and> strip code \<noteq> [] \<and> strip name \<noteq> [] \<and> \<not> code_taken (cur w) (strip code) (Some k)
    \<and> saved w1 = upd_dict k (set_entry (strip code) (strip name)) (cur w)"
  using assms
  by (auto simp: update_entry_def Let_def validate_entry_Nil stage_def
      dest!: commit_entry_Ok split: if_splits option.splits)

lemma code_taken_iff: "code_taken d c x \<longleftrightarrow> (\<exists>r \<in> set (dictionary d). d_code r = c \<and> Some (d_id r) \<noteq> x)"
  by (simp add: code_taken_def list_ex_iff)

lemma set_entry_id [simp]: "d_id (set_entry c n r) = d_id r" "d_code (set_entry c n r) = c" "d_name (set_entry c n r) = n"
  by (simp_all add: set_entry_def)

text \<open>A new code in one row keeps the codes apart when no other row has it.\<close>

lemma distinct_tupd_code:
  assumes "distinct (map d_code rows)" and "\<forall>r \<in> set rows. d_code r = c \<longrightarrow> d_id r = k" and "distinct (map d_id rows)"
  shows "distinct (map d_code (tupd d_id k (set_entry c n) rows))"
  using assms
proof (induction rows)
  case (Cons r rows)
  let ?rows = "tupd d_id k (set_entry c n) rows"
  have ids: "d_id x \<noteq> d_id r" if "x \<in> set rows" for x using Cons.prems(3) that by (metis distinct.simps(2) image_eqI list.set_map list.simps(9))
  have codes: "d_code x \<noteq> d_code r" if "x \<in> set rows" for x using Cons.prems(1) that by (metis distinct.simps(2) image_eqI list.set_map list.simps(9))
  show ?case
  proof (cases "d_id r = k")
    case True
    then have "d_id x \<noteq> k" if "x \<in> set rows" for x using ids[OF that] by simp
    then have "?rows = rows" by (simp add: tupd_def map_idI)
    moreover have "d_code x \<noteq> c" if "x \<in> set rows" for x
      using Cons.prems(2) ids[OF that] True that by auto
    ultimately show ?thesis using True Cons.prems(1) by (auto simp: tupd_def)
  next
    case False
    then have "d_code r \<noteq> c" using Cons.prems(2) by simp
    then have "d_code r \<notin> d_code ` set ?rows" using codes[symmetric] by (auto simp: tupd_def image_iff)
    moreover have "distinct (map d_code ?rows)" using Cons by simp
    moreover have "tupd d_id k (set_entry c n) (r # rows) = r # ?rows" using False by (simp add: tupd_def)
    ultimately show ?thesis by simp
  qed
qed (simp add: tupd_def)

lemma dictionary_lookup_unique:
  assumes "codes_unique d" and "r \<in> set (dictionary d)" and "d_code r = strip code" and "strip code \<noteq> []"
  shows "dictionary_lookup d code = Some r"
proof -
  have "\<exists>x. find (\<lambda>r. d_code r = strip code) (dictionary d) = Some x"
    using assms(2,3) by (metis (mono_tags, lifting) find_None_iff2 option.exhaust)
  then obtain x where x: "find (\<lambda>r. d_code r = strip code) (dictionary d) = Some x" by blast
  then have "x \<in> set (dictionary d)" "d_code x = strip code" by (auto simp: find_Some_iff)
  moreover have "inj_on d_code (set (dictionary d))" using assms(1) by (simp add: codes_unique_def distinct_map)
  ultimately have "x = r" using assms(2,3) by (metis inj_onD)
  with x assms(4) show ?thesis by (simp add: dictionary_lookup_def)
qed

lemma dictionary_lookup_absent:
  "dictionary_lookup d code = None \<longleftrightarrow> strip code = [] \<or> (\<forall>r \<in> set (dictionary d). d_code r \<noteq> strip code)"
  by (auto simp: dictionary_lookup_def find_None_iff)

lemma add_entry_unique: "add_entry e code name w = (Ok r, w1) \<Longrightarrow> codes_unique (cur w) \<Longrightarrow> codes_unique (saved w1)"
  using add_entry_Ok[of e code name w r w1]
  by (force simp: codes_unique_def add_dict_row_def code_taken_iff)

lemma update_entry_unique:
  assumes "update_entry k code name w = (Ok r, w1)" and "codes_unique (cur w)"
  shows "codes_unique (saved w1)"
proof -
  obtain r0 where u: "\<not> code_taken (cur w) (strip code) (Some k)"
    "saved w1 = upd_dict k (set_entry (strip code) (strip name)) (cur w)"
    using update_entry_Ok[OF assms(1)] by blast
  have "distinct (map d_code (tupd d_id k (set_entry (strip code) (strip name)) (dictionary (cur w))))"
    using assms(2) u(1) by (intro distinct_tupd_code) (auto simp: codes_unique_def code_taken_iff)
  then show ?thesis using assms(2) u(2) by (simp add: codes_unique_def upd_dict_def map_key_tupd)
qed

lemma refused_entry:
  "\<not> is_Ok (fst (add_entry e code name w)) \<Longrightarrow> saved (snd (add_entry e code name w)) = saved w"
  "\<not> is_Ok (fst (update_entry k code name w)) \<Longrightarrow> saved (snd (update_entry k code name w)) = saved w"
  by (auto simp: add_entry_def update_entry_def Let_def split_beta commit_entry_fail stage_def new_id_def utcnow_iso_def
      is_Ok_def split: option.splits)

text \<open>Saving a dictionary row is a map update: after adding or editing, looking the new code up gives the saved
  row, every other code gives what it gave before except the one the edited row had, codes stay
  unique, and nothing but the dictionary has changed.\<close>

theorem dictionary_saved:
  assumes "add_entry e code name w = (Ok r, w1) \<or> update_entry k code name w = (Ok r, w1)"
    and "codes_unique (cur w)"
  shows "codes_unique (saved w1) \<and> dictionary_lookup (saved w1) code = Some r \<and> d_name r = strip name
    \<and> (saved w1)\<lparr>dictionary := []\<rparr> = (cur w)\<lparr>dictionary := []\<rparr>
    \<and> (\<forall>other. strip other \<noteq> strip code \<and> map_option d_id (dictionary_lookup (cur w) other) \<noteq> Some (d_id r)
         \<longrightarrow> dictionary_lookup (saved w1) other = dictionary_lookup (cur w) other)"
  using assms(1)
proof
  assume a: "add_entry e code name w = (Ok r, w1)"
  note ok = add_entry_Ok[OF a] and uniq = add_entry_unique[OF a assms(2)]
  have "dictionary_lookup (saved w1) code = Some r"
    using ok by (intro dictionary_lookup_unique[OF uniq]) (auto simp: add_dict_row_def)
  moreover have "dictionary_lookup (saved w1) other = dictionary_lookup (cur w) other" if "strip other \<noteq> strip code" for other
    using ok(4,8) that by (simp add: dictionary_lookup_def add_dict_row_def find_append split: option.split)
  ultimately show ?thesis using ok(5,8) uniq by (simp add: add_dict_row_def)
next
  assume a: "update_entry k code name w = (Ok r, w1)"
  obtain r0 where r0: "tget d_id k (dictionary (cur w)) = Some r0" "r = set_entry (strip code) (strip name) r0"
    "strip code \<noteq> []" "saved w1 = upd_dict k (set_entry (strip code) (strip name)) (cur w)"
    using update_entry_Ok[OF a] by blast
  note uniq = update_entry_unique[OF a assms(2)]
  have k: "r0 \<in> set (dictionary (cur w))" "d_id r0 = k" using tget_SomeD[OF r0(1)] by auto
  have "r \<in> set (dictionary (saved w1))" using k r0(2,4) by (auto simp: upd_dict_def tupd_def)
  then have "dictionary_lookup (saved w1) code = Some r"
    using r0(2,3) by (intro dictionary_lookup_unique[OF uniq]) auto
  moreover have "dictionary_lookup (saved w1) other = dictionary_lookup (cur w) other"
    if o: "strip other \<noteq> strip code" "map_option d_id (dictionary_lookup (cur w) other) \<noteq> Some (d_id r)" for other
  proof (cases "dictionary_lookup (cur w) other")
    case None
    then have "dictionary_lookup (saved w1) other = None"
      using o(1) unfolding dictionary_lookup_absent r0(4) by (auto simp: upd_dict_def tupd_def)
    with None show ?thesis by simp
  next
    case (Some x)
    then have x: "x \<in> set (dictionary (cur w))" "d_code x = strip other" "strip other \<noteq> []"
      by (auto simp: dictionary_lookup_def find_Some_iff split: if_splits)
    have "d_id x \<noteq> k" using o(2) Some r0(2) k(2) by simp
    then have "x \<in> set (dictionary (saved w1))" using x(1) r0(4) by (force simp: upd_dict_def tupd_def)
    then show ?thesis using Some x(2,3) dictionary_lookup_unique[OF uniq] by simp
  qed
  ultimately show ?thesis using r0(2,4) uniq by (simp add: upd_dict_def)
qed

text \<open>Adding a card to the dictionary takes exactly the cards of its code off the list of missing ones, whatever
  page is shown, provided the card's code carries no blanks around it; the cards themselves are untouched.\<close>

theorem missing_product_resolved:
  assumes "add_entry_from_product e k w = (Ok r, w1)" and "get_product (cur w) k = Some p" and "p_code p = Some c" "strip c = c"
  shows "products (saved w1) = products (cur w)
    \<and> filter (missing_in_dictionary (saved w1)) (products (cur w))
      = filter (\<lambda>q. missing_in_dictionary (cur w) q \<and> p_code q \<noteq> Some c) (products (cur w))
    \<and> dictionary_lookup (saved w1) c = Some r \<and> d_name r = strip (p_name p)"
proof -
  have a: "add_entry e c (p_name p) w = (Ok r, w1)"
    using assms by (auto simp: add_entry_from_product_def or_empty_def Let_def split: if_splits)
  note ok = add_entry_Ok[OF a]
  have "find (\<lambda>r. d_code r = c) (dictionary (cur w)) = None"
    using ok(3) assms(4) by (auto simp: code_taken_iff find_None_iff)
  then have "dictionary_lookup (saved w1) c = Some r"
    using ok(1,4,8) assms(4) by (simp add: dictionary_lookup_def add_dict_row_def find_append)
  moreover have "missing_in_dictionary (saved w1) = (\<lambda>q. missing_in_dictionary (cur w) q \<and> p_code q \<noteq> Some c)"
    using ok(4,8) assms(4) by (auto simp: missing_in_dictionary_def add_dict_row_def)
  moreover have "products (saved w1) = products (cur w)" using ok(8) by (simp add: add_dict_row_def)
  ultimately show ?thesis using ok(5) by simp
qed

end
