(* ===== verification/CatalogIssues.thy ===== *)
theory CatalogIssues
  imports Search Prefill "HOL-Library.Multiset"
begin

text \<open>
  The published catalogs of \<open>src/app/services/catalogs.py\<close> and the shade names of
  \<open>src/app/services/rubrics.py\<close>. A catalog is a PDF in a folder, whose listing is an argument (\<open>None\<close>: no
  such folder); membership is the list of codes on a dictionary row. Three texts name an issue: the
  stored code \<open>MM_YY\<close>, the address \<open>YYYY-MM\<close> and the file name. The keyword tables of the rubrics, which
  are Cyrillic, are arguments too.
\<close>

section \<open>The three codes\<close>

type_synonym issue = "nat \<times> nat"

definition parse_json_code :: "string \<Rightarrow> issue option" where
  "parse_json_code code =
     (let t = strip code; m = takeWhile is_dig t; r = dropWhile is_dig t
      in if (length m = 1 \<or> length m = 2) \<and> length r = 3 \<and> hd r = CHR ''_'' \<and> list_all is_dig (tl r)
         then Some (2000 + digits_val (tl r), digits_val m) else None)"

definition parse_url_code :: "string \<Rightarrow> issue option" where
  "parse_url_code code =
     (let t = strip code; y = takeWhile is_dig t; r = dropWhile is_dig t
      in if length y = 4 \<and> (length r = 2 \<or> length r = 3) \<and> hd r = CHR ''-'' \<and> list_all is_dig (tl r)
         then Some (digits_val y, digits_val (tl r)) else None)"

definition to_json_code :: "issue \<Rightarrow> string" where
  "to_json_code k = zfill 2 (snd k) @ ''_'' @ zfill 2 (fst k mod 100)"

definition to_url_code :: "issue \<Rightarrow> string" where
  "to_url_code k = show_nat (fst k) @ ''-'' @ zfill 2 (snd k)"

text \<open>\<open>Path(filename).stem\<close>: without the last suffix, which needs a character on both sides of its dot.\<close>

definition stem :: "string \<Rightarrow> string" where
  "stem name = (let ext = takeWhile (\<lambda>c. c \<noteq> CHR ''.'') (rev name)
     in if ext \<noteq> [] \<and> length ext + 1 < length name then take (length name - length ext - 1) name else name)"

definition file_key :: "string \<Rightarrow> issue option" where
  "file_key filename = (let digits = filter is_dig (stem filename)
     in if length digits < 5 then None else Some (digits_val (take 4 digits), digits_val (drop 4 digits)))"

text \<open>The names of \<open>folder.glob("*.pdf")\<close> in the order the folder gives them; the first file of an issue wins.\<close>

fun scan_files :: "string list \<Rightarrow> (issue \<times> string) list \<Rightarrow> (issue \<times> string) list" where
  "scan_files [] m = m"
| "scan_files (f # fs) m = scan_files fs (case file_key f of None \<Rightarrow> m
     | Some k \<Rightarrow> if map_of m k = None then m @ [(k, f)] else m)"

definition scan_catalog_files :: "string list option \<Rightarrow> (issue \<times> string) list" where
  "scan_catalog_files folder = (case folder of None \<Rightarrow> [] | Some fs \<Rightarrow> scan_files fs [])"

section \<open>Lists\<close>

definition or_nil :: "'a list option \<Rightarrow> 'a list" where
  "or_nil x = (case x of None \<Rightarrow> [] | Some xs \<Rightarrow> xs)"

definition bump :: "'k \<Rightarrow> ('k \<times> nat) list \<Rightarrow> ('k \<times> nat) list" where
  "bump k m = dict_set k ((case map_of m k of None \<Rightarrow> 0 | Some n \<Rightarrow> n) + 1) m"

definition membership_counts :: "db \<Rightarrow> (issue \<times> nat) list" where
  "membership_counts d = fold (\<lambda>code m. case parse_json_code code of None \<Rightarrow> m | Some k \<Rightarrow> bump k m)
     (concat (map (\<lambda>r. or_nil (d_catalogs r)) (dictionary d))) []"

record catalog_line =
  cl_key :: issue
  cl_filename :: string
  cl_url_code :: string
  cl_product_count :: nat

definition count_of :: "(issue \<times> nat) list \<Rightarrow> issue \<Rightarrow> nat" where
  "count_of m k = (case map_of m k of None \<Rightarrow> 0 | Some n \<Rightarrow> n)"

definition catalog_rows :: "string list option \<Rightarrow> db \<Rightarrow> catalog_line list" where
  "catalog_rows folder d =
     (let counts = membership_counts d
      in map (\<lambda>(k, f). \<lparr>cl_key = k, cl_filename = f, cl_url_code = to_url_code k, cl_product_count = count_of counts k\<rparr>)
           (scan_catalog_files folder))"

text \<open>The year filter runs \<open>int()\<close> for each catalog when \<open>str.isdigit\<close> accepts the text.\<close>

definition list_catalogs :: "string list option \<Rightarrow> db \<Rightarrow> string \<Rightarrow> string \<Rightarrow> int \<Rightarrow> exn + catalog_line list \<times> int \<times> int" where
  "list_catalogs folder d year sort_by page =
     (let rows = catalog_rows folder d; t = strip year;
          chosen = (if isdigit t \<and> rows \<noteq> []
                    then (if \<not> list_all is_dig t then Inl ValueError
                          else case py_int t of Inl x \<Rightarrow> Inl x
                            | Inr y \<Rightarrow> Inr (filter (\<lambda>c. int (fst (cl_key c)) = y) rows))
                    else Inr rows)
      in case chosen of Inl x \<Rightarrow> Inl x
         | Inr cs \<Rightarrow> Inr (paginate (if sort_by \<noteq> ''oldest'' then sort_reverse cl_key cs else sort_key cl_key cs) page))"

definition catalog_year_options :: "string list option \<Rightarrow> nat list" where
  "catalog_year_options folder = rev (sort (remdups (map (\<lambda>(k, f). fst k) (scan_catalog_files folder))))"

definition get_catalog :: "string list option \<Rightarrow> string \<Rightarrow> (issue \<times> string) option" where
  "get_catalog folder url_code =
     (case parse_url_code url_code of None \<Rightarrow> None
      | Some k \<Rightarrow> map_option (\<lambda>f. (k, f)) (map_of (scan_catalog_files folder) k))"

definition products_in_catalog :: "db \<Rightarrow> string \<Rightarrow> dict_entry list" where
  "products_in_catalog d url_code =
     (case parse_url_code url_code of None \<Rightarrow> []
      | Some k \<Rightarrow> sort_key (\<lambda>r. lower (d_name r))
          (filter (\<lambda>r. to_json_code k \<in> set (or_nil (d_catalogs r))) (dictionary d)))"

definition catalogs_for_code :: "string list option \<Rightarrow> db \<Rightarrow> string option \<Rightarrow> issue list" where
  "catalogs_for_code folder d code =
     (case dictionary_lookup d (or_empty code) of None \<Rightarrow> []
      | Some r \<Rightarrow> sort_reverse id
          (concat (map (\<lambda>c. case parse_json_code c of None \<Rightarrow> []
                | Some k \<Rightarrow> if map_of (scan_catalog_files folder) k = None then [] else [k]) (or_nil (d_catalogs r)))))"

section \<open>Shade names\<close>

text \<open>\<open>classify_rubric_by_name\<close>: the first rule with a keyword in the lower-cased name, else the shade
  fallback. \<open>letter\<close> tells the letters of a word.\<close>

fun words_of :: "(char \<Rightarrow> bool) \<Rightarrow> string \<Rightarrow> string \<Rightarrow> string list" where
  "words_of letter acc [] = (if acc = [] then [] else [rev acc])"
| "words_of letter acc (c # s) =
     (if letter c then words_of letter (c # acc) s
      else if acc = [] then words_of letter [] s else rev acc # words_of letter [] s)"

definition classify_rubric_by_name ::
  "(string \<times> string list) list \<Rightarrow> (char \<Rightarrow> bool) \<Rightarrow> string list \<Rightarrow> string \<Rightarrow> string \<Rightarrow> string \<Rightarrow> string" where
  "classify_rubric_by_name rules letter colors makeup others name =
     (let n = lower name in
      case find (\<lambda>(rubric, kws). list_ex (\<lambda>kw. sublist kw n) kws) rules of
        Some (rubric, _) \<Rightarrow> rubric
      | None \<Rightarrow> (let ws = words_of letter [] n
                 in if ws \<noteq> [] \<and> length ws \<le> 5 \<and> list_ex (\<lambda>w. w \<in> set colors) ws then makeup else others))"

record rubric_override =
  ro_rubric :: "string option"
  ro_name :: "string option"

definition resolve_rubric ::
  "(string \<rightharpoonup> rubric_override) \<Rightarrow> string list \<Rightarrow> (string \<Rightarrow> string) \<Rightarrow> string \<Rightarrow> string \<Rightarrow> string" where
  "resolve_rubric overrides rubrics by_name code name =
     (case Option.bind (overrides code) ro_rubric of
        Some r \<Rightarrow> if r \<in> set rubrics then r else by_name name
      | None \<Rightarrow> by_name name)"

definition resolve_name :: "(string \<rightharpoonup> rubric_override) \<Rightarrow> string \<Rightarrow> string \<Rightarrow> string" where
  "resolve_name overrides code name =
     (case overrides code of None \<Rightarrow> name
      | Some ov \<Rightarrow> let better = strip (or_empty (ro_name ov)) in if better \<noteq> [] then better else name)"

text \<open>The one dash below character 256.\<close>

definition rstrip_with :: "(char \<Rightarrow> bool) \<Rightarrow> string \<Rightarrow> string" where
  "rstrip_with P s = rev (dropWhile P (rev s))"

definition is_shade_tail :: "string option \<Rightarrow> string option \<Rightarrow> bool" where
  "is_shade_tail current restored =
     (let cur = strip (or_empty current); full = strip (or_empty restored);
          n = length full - length cur
      in if cur = [] \<or> length full \<le> length cur then False
         else if lower (drop n full) \<noteq> lower cur then False
         else let prefix = rstrip_with is_space (take n full)
              in if prefix = [] \<or> last prefix \<noteq> CHR ''-'' then False
                 else strip (rstrip_with (\<lambda>c. c \<in> {CHR ''-'', CHR '' '', char_of (9 :: nat)}) prefix) \<noteq> [])"

section \<open>The codes are one another's inverse\<close>

lemma digits_not_space: "list_all is_dig s \<Longrightarrow> list_all (\<lambda>c. \<not> is_space c) s"
  by (auto simp: list_all_iff dest: dig_not_space)

lemma takeWhile_digits_sep:
  "list_all is_dig ds \<Longrightarrow> \<not> is_dig c \<Longrightarrow> takeWhile is_dig (ds @ c # r) = ds \<and> dropWhile is_dig (ds @ c # r) = c # r"
  by (induction ds) auto

lemma separators: "\<not> is_dig (CHR ''_'')" "\<not> is_dig (CHR ''-'')" "\<not> is_space (CHR ''_'')" "\<not> is_space (CHR ''-'')"
  by (simp_all add: is_dig_def is_space_def ord_of_def)

lemma length_show_nat_ge: "10 ^ v \<le> n \<Longrightarrow> v < length (show_nat n)"
proof (induction v arbitrary: n)
  case (Suc v)
  then have "10 ^ v \<le> n div 10" by (simp add: less_eq_div_iff_mult_less_eq mult.commute)
  then have "v < length (show_nat (n div 10))" by (rule Suc.IH)
  moreover have "\<not> n < 10"
  proof -
    have "(10 :: nat) \<le> 10 ^ Suc v" by simp
    with Suc.prems show ?thesis by linarith
  qed
  ultimately show ?case by (subst show_nat.simps) simp
qed (simp add: show_nat_nonempty)

lemma parse_json_to_json:
  assumes "2000 \<le> y" "y < 2100" "n < 100"
  shows "parse_json_code (to_json_code (y, n)) = Some (y, n)"
proof -
  let ?t = "zfill 2 n @ CHR ''_'' # zfill 2 (y mod 100)"
  have "strip ?t = ?t" using digits_not_space[OF zfill_digs] by (intro strip_noop) (simp add: separators list_all_append)
  moreover have "length (zfill 2 n) = 2" "length (zfill 2 (y mod 100)) = 2" using assms(3) by simp_all
  moreover have "2000 + y mod 100 = y"
  proof -
    have "y div 100 = 20" using assms(1,2) by simp
    with div_mult_mod_eq[of y 100] show ?thesis by simp
  qed
  ultimately show ?thesis
    using takeWhile_digits_sep[OF zfill_digs separators(1), of 2 n "zfill 2 (y mod 100)"]
    by (simp add: parse_json_code_def to_json_code_def)
qed

lemma parse_url_to_url:
  assumes "1000 \<le> y" "y < 10000" "n < 100"
  shows "parse_url_code (to_url_code (y, n)) = Some (y, n)"
proof -
  let ?t = "show_nat y @ CHR ''-'' # zfill 2 n"
  have "strip ?t = ?t" using digits_not_space[OF zfill_digs] digits_not_space[OF show_nat_digs]
    by (intro strip_noop) (simp add: separators list_all_append)
  moreover have "length (zfill 2 n) = 2" using assms(3) by simp
  moreover have "length (show_nat y) = 4"
    using length_show_nat_le[of y 4] length_show_nat_ge[of 3 y] assms by simp
  ultimately show ?thesis
    using takeWhile_digits_sep[OF show_nat_digs separators(2), of y "zfill 2 n"]
    by (simp add: parse_url_code_def to_url_code_def)
qed

lemma parse_json_range: "parse_json_code c = Some (y, n) \<Longrightarrow> 2000 \<le> y \<and> y < 2100 \<and> n < 100"
proof -
  assume a: "parse_json_code c = Some (y, n)"
  let ?t = "strip c"
  have m: "length (takeWhile is_dig ?t) \<le> 2" "n = digits_val (takeWhile is_dig ?t)"
    and r: "length (tl (dropWhile is_dig ?t)) = 2" "list_all is_dig (tl (dropWhile is_dig ?t))"
      "y = 2000 + digits_val (tl (dropWhile is_dig ?t))"
    using a by (auto simp: parse_json_code_def Let_def split: if_splits)
  have "list_all is_dig (takeWhile is_dig ?t)" by (auto simp: list_all_iff dest: set_takeWhileD)
  then have "n < 10 ^ length (takeWhile is_dig ?t)" unfolding m(2) by (rule digits_val_less)
  also have "\<dots> \<le> (10 :: nat) ^ 2" using m(1) by (intro power_increasing) auto
  finally have "n < 100" by simp
  moreover have "digits_val (tl (dropWhile is_dig ?t)) < 100" using digits_val_less[OF r(2)] r(1) by simp
  ultimately show ?thesis using r(3) by simp
qed

section \<open>The scan\<close>

lemma scan_files_keys: "distinct (map fst m) \<Longrightarrow> distinct (map fst (scan_files fs m))"
proof (induction fs arbitrary: m)
  case (Cons f fs)
  then show ?case
    by (cases "file_key f") (auto simp: map_of_eq_None_iff)
qed simp

lemma scan_distinct: "distinct (map fst (scan_catalog_files folder))"
  by (cases folder) (auto simp: scan_catalog_files_def scan_files_keys)

lemma scan_files_sound: "(k, f) \<in> set (scan_files fs m) \<Longrightarrow> (k, f) \<in> set m \<or> f \<in> set fs \<and> file_key f = Some k"
  by (induction fs arbitrary: m) (auto split: option.splits if_splits, (force split: option.splits if_splits)+)

section \<open>Counts and membership\<close>

lemma count_bump: "count_of (bump k m) j = (if j = k then Suc (count_of m k) else count_of m j)"
  by (auto simp: count_of_def bump_def update_conv)

lemma count_fold:
  "count_of (fold (\<lambda>code m. case parse_json_code code of None \<Rightarrow> m | Some k \<Rightarrow> bump k m) cs m) k
     = count_of m k + length (filter (\<lambda>c. parse_json_code c = Some k) cs)"
  by (induction cs arbitrary: m) (auto simp: count_bump split: option.split)

lemma membership_count:
  "count_of (membership_counts d) k
     = sum_list (map (\<lambda>r. length (filter (\<lambda>c. parse_json_code c = Some k) (or_nil (d_catalogs r)))) (dictionary d))"
  unfolding membership_counts_def count_fold
  by (simp add: count_of_def filter_concat length_concat comp_def)

text \<open>As the import writes them: two digits on both sides, no code twice.\<close>

definition canonical_membership :: "dict_entry \<Rightarrow> bool" where
  "canonical_membership r \<longleftrightarrow> distinct (or_nil (d_catalogs r))
     \<and> list_all (\<lambda>c. map_option to_json_code (parse_json_code c) = Some c) (or_nil (d_catalogs r))"

lemma canonical_count:
  assumes "canonical_membership r" and "2000 \<le> y" "y < 2100" "n < 100"
  shows "length (filter (\<lambda>c. parse_json_code c = Some (y, n)) (or_nil (d_catalogs r)))
    = (if to_json_code (y, n) \<in> set (or_nil (d_catalogs r)) then 1 else 0)"
proof -
  have "parse_json_code c = Some (y, n) \<longleftrightarrow> c = to_json_code (y, n)" if "c \<in> set (or_nil (d_catalogs r))" for c
    using assms(1) that parse_json_to_json[OF assms(2-4)] by (auto simp: canonical_membership_def list_all_iff)
  then have "filter (\<lambda>c. parse_json_code c = Some (y, n)) (or_nil (d_catalogs r))
      = filter (\<lambda>c. c = to_json_code (y, n)) (or_nil (d_catalogs r))"
    by (intro filter_cong) auto
  then show ?thesis
    using assms(1) distinct_length_filter[of "or_nil (d_catalogs r)" "\<lambda>c. c = to_json_code (y, n)"]
    by (auto simp: canonical_membership_def Collect_conv_if)
qed

lemma sum_indicator: "sum_list (map (\<lambda>r. if P r then 1 else 0) rs) = length (filter P rs)" for rs :: "'r list"
  by (induction rs) auto

lemma catalog_rows_keys: "map cl_key (catalog_rows folder d) = map fst (scan_catalog_files folder)"
  by (simp add: catalog_rows_def comp_def split_beta)

lemma paginate_part: "\<exists>a b. fst (paginate xs page) = take a (drop b xs)"
  unfolding paginate_def Let_def fst_conv by blast

lemma list_catalogs_rows:
  assumes "list_catalogs folder d year sort_by page = Inr res"
  shows "\<exists>P. res = paginate (if sort_by \<noteq> ''oldest'' then sort_reverse cl_key (filter P (catalog_rows folder d))
    else sort_key cl_key (filter P (catalog_rows folder d))) page"
proof -
  have all: "filter (\<lambda>_. True) xs = xs" for xs :: "catalog_line list" by simp
  show ?thesis
  proof (cases "isdigit (strip year) \<and> catalog_rows folder d \<noteq> []")
    case True
    then obtain y where "res = paginate (if sort_by \<noteq> ''oldest''
        then sort_reverse cl_key (filter (\<lambda>c. int (fst (cl_key c)) = y) (catalog_rows folder d))
        else sort_key cl_key (filter (\<lambda>c. int (fst (cl_key c)) = y) (catalog_rows folder d))) page"
      using assms by (auto simp: list_catalogs_def Let_def split: if_splits sum.splits)
    then show ?thesis by blast
  next
    case False
    then show ?thesis using assms by (intro exI[of _ "\<lambda>_. True"]) (auto simp: list_catalogs_def Let_def)
  qed
qed

text \<open>The number beside a catalog is the number of products its page lists: for a dictionary whose membership
  codes are in the form the import writes, each row of the catalog list counts exactly the entries that
  its own address opens, the address opens the row's own file, and no issue is listed twice.\<close>

theorem catalog_counts_agree:
  assumes "list_all canonical_membership (dictionary d)" and "list_catalogs folder d year sort_by page = Inr (rows, n, pages)"
    and "c \<in> set rows" and "2000 \<le> fst (cl_key c)" "fst (cl_key c) < 2100" "snd (cl_key c) < 100"
  shows "cl_product_count c = length (products_in_catalog d (cl_url_code c))
    \<and> get_catalog folder (cl_url_code c) = Some (cl_key c, cl_filename c)
    \<and> distinct (map cl_key rows)"
proof -
  let ?rows = "catalog_rows folder d"
  obtain P where "(rows, n, pages) = paginate (if sort_by \<noteq> ''oldest'' then sort_reverse cl_key (filter P ?rows)
      else sort_key cl_key (filter P ?rows)) page"
    using list_catalogs_rows[OF assms(2)] by blast
  then have rows: "rows = fst (paginate (if sort_by \<noteq> ''oldest'' then sort_reverse cl_key (filter P ?rows)
      else sort_key cl_key (filter P ?rows)) page)"
    by (metis fst_conv)
  let ?cs = "filter P ?rows"
  have d: "distinct (map cl_key ?cs)"
    using scan_distinct[of folder] by (simp add: distinct_map_filter catalog_rows_keys)
  have perm: "mset (sort_reverse cl_key ?cs) = mset ?cs" "mset (sort_key cl_key ?cs) = mset ?cs"
    by (simp_all add: sort_reverse_def)
  let ?sorted = "if sort_by \<noteq> ''oldest'' then sort_reverse cl_key ?cs else sort_key cl_key ?cs"
  have sorted: "mset ?sorted = mset ?cs" using perm by simp
  then have "mset (map cl_key ?sorted) = mset (map cl_key ?cs)" by (metis mset_map)
  with d have ds: "distinct (map cl_key ?sorted)" by (metis mset_eq_imp_distinct_iff)
  obtain a b where "rows = take a (drop b ?sorted)"
    unfolding rows using paginate_part by blast
  note rows = this
  have dr: "distinct (map cl_key rows)"
    unfolding rows take_map[symmetric] drop_map[symmetric] using ds by (intro distinct_take distinct_drop)
  have "set rows \<subseteq> set ?cs"
    unfolding rows mset_eq_setD[OF sorted, symmetric] by (meson in_set_dropD in_set_takeD subsetI)
  then have "c \<in> set ?rows" using assms(3) by auto
  then obtain k f where kf: "(k, f) \<in> set (scan_catalog_files folder)" "c = \<lparr>cl_key = k, cl_filename = f, cl_url_code = to_url_code k,
      cl_product_count = count_of (membership_counts d) k\<rparr>" by (auto simp: catalog_rows_def)
  obtain y m where k: "k = (y, m)" by (cases k)
  have range: "2000 \<le> y" "y < 2100" "m < 100" using assms(4-6) kf(2) k by simp_all
  have "parse_url_code (cl_url_code c) = Some k"
    using parse_url_to_url[of y m] range kf(2) k by simp
  moreover have "map_of (scan_catalog_files folder) k = Some f"
    using kf(1) scan_distinct by (simp add: map_of_is_SomeI)
  moreover have "cl_product_count c = length (filter (\<lambda>r. to_json_code k \<in> set (or_nil (d_catalogs r))) (dictionary d))"
    using assms(1) kf(2) canonical_count[OF _ range]
    by (simp add: k membership_count sum_indicator[symmetric] list_all_iff cong: map_cong)
  ultimately show ?thesis
    using dr kf(2) by (simp add: products_in_catalog_def get_catalog_def)
qed

end
