(* ===== verification/Launcher.thy ===== *)
theory Launcher
  imports Exchange Catalog
begin

text \<open>
  The launcher that swaps an update in: \<open>src/launcher/swap.py\<close>, \<open>adapters.py\<close> and \<open>__main__.py\<close>. The
  install is four directories, the live database with its sidecar files, the backups, the child
  process and the marker file. Every call to the operating system may fail: a fault oracle, read at
  a counter that each call advances, gives the failure of each call (a second one those of the copy of
  the backup), so a theorem that holds for all
  oracles holds for every pattern of failures, one keyboard interrupt or several included. What the
  new code does to the database is a parameter. A directory that could only be deleted in part is
  torn; a database copied over while a process has it open is corrupt (\<open>None\<close>).
\<close>

section \<open>The install\<close>

datatype failure = Failed_call | Timed_out | Interrupted

datatype tree = Whole string | Torn string

datatype dir = App | App_prev | Staged | App_failed

record dbfile =
  schema_of :: string
  rows_of_file :: string

datatype notice = Rollback_incomplete | Database_not_restored | Update_not_applied

datatype marker_file = Marker string | Marker_undecodable | Marker_busy

record install =
  dirs :: "dir \<Rightarrow> tree option"
  live_db :: "dbfile option"
  sidecars :: bool
  backups :: "string list \<rightharpoonup> dbfile"
  child :: "string option"
  orphans :: "string list"
  pending_marker :: "marker_file option"
  failed_marker :: "marker_file option"
  notices :: "notice list"
  calls :: nat

text \<open>The outside: the faults, the version a bundle serves, and what it does to the database in a
  migration, in one that fails half way, and while it serves.\<close>

record launcher_env =
  le_fault :: "nat \<Rightarrow> failure option"
  le_copy :: "nat \<Rightarrow> failure option"
  le_serves :: "string \<Rightarrow> string"
  le_migrate :: "string \<Rightarrow> dbfile \<Rightarrow> dbfile"
  le_half :: "string \<Rightarrow> dbfile \<Rightarrow> dbfile"
  le_work :: "string \<Rightarrow> dbfile \<Rightarrow> dbfile"

type_synonym step = "install \<Rightarrow> failure option \<times> install"

definition call :: "launcher_env \<Rightarrow> (failure option \<Rightarrow> step) \<Rightarrow> step" where
  "call le f i = f (le_fault le (calls i)) (i\<lparr>calls := calls i + 1\<rparr>)"

definition skip :: step where
  "skip i = (None, i)"

definition tree_code :: "tree \<Rightarrow> string" where
  "tree_code t = (case t of Whole c \<Rightarrow> c | Torn c \<Rightarrow> c)"

section \<open>Directories\<close>

text \<open>\<open>os.replace\<close> on a directory: the destination must not exist.\<close>

definition os_replace :: "launcher_env \<Rightarrow> dir \<Rightarrow> dir \<Rightarrow> step" where
  "os_replace le src dst = call le (\<lambda>r i.
     if r \<noteq> None then (r, i)
     else if dirs i src = None \<or> dirs i dst \<noteq> None then (Some Failed_call, i)
     else (None, i\<lparr>dirs := (dirs i)(dst := dirs i src, src := None)\<rparr>))"

text \<open>\<open>shutil.rmtree(..., ignore_errors=True)\<close>: an error leaves the rest of the directory behind.\<close>

definition rmtree :: "launcher_env \<Rightarrow> dir \<Rightarrow> step" where
  "rmtree le x = call le (\<lambda>r i.
     let torn = i\<lparr>dirs := (dirs i)(x := map_option (\<lambda>t. Torn (tree_code t)) (dirs i x))\<rparr>
     in case r of None \<Rightarrow> (None, i\<lparr>dirs := (dirs i)(x := None)\<rparr>)
        | Some Interrupted \<Rightarrow> (Some Interrupted, torn)
        | Some _ \<Rightarrow> (None, torn))"

section \<open>Adapters\<close>

definition lost :: "install \<Rightarrow> install" where
  "lost i = i\<lparr>orphans := (case child i of None \<Rightarrow> orphans i | Some c \<Rightarrow> c # orphans i), child := None\<rparr>"

text \<open>\<open>AppProcess.start\<close>: the handle of a child that was not stopped is overwritten.\<close>

definition start_app :: "launcher_env \<Rightarrow> step" where
  "start_app le = call le (\<lambda>r i. if r \<noteq> None then (r, i)
     else case dirs i App of None \<Rightarrow> (Some Failed_call, i) | Some t \<Rightarrow> (None, (lost i)\<lparr>child := Some (tree_code t)\<rparr>))"

text \<open>\<open>AppProcess.stop\<close>: no child, no call. \<open>terminate\<close> may raise, which keeps the handle; \<open>wait\<close> may time out,
  then \<open>kill\<close> and a second \<open>wait\<close>; every way out of the \<open>try\<close> drops the handle, so a failure there loses a
  child that still runs.\<close>

definition wait_child :: "launcher_env \<Rightarrow> (failure option \<Rightarrow> step) \<Rightarrow> step" where
  "wait_child le on_failure = call le (\<lambda>r i. if r = None then (None, i\<lparr>child := None\<rparr>) else on_failure r i)"

definition stop_app :: "launcher_env \<Rightarrow> step" where
  "stop_app le i0 =
     (if child i0 = None then (None, i0)
      else call le (\<lambda>r i. if r \<noteq> None then (r, i)
        else wait_child le (\<lambda>r i.
          if r \<noteq> Some Timed_out then (r, lost i)
          else call le (\<lambda>r i. if r \<noteq> None then (r, lost i) else wait_child le (\<lambda>r i. (r, lost i)) i) i) i) i0)"

definition migrate :: "launcher_env \<Rightarrow> step" where
  "migrate le = call le (\<lambda>r i.
     case dirs i App of None \<Rightarrow> (Some Failed_call, i)
     | Some t \<Rightarrow>
         (if r \<noteq> None then (r, i\<lparr>live_db := map_option (le_half le (tree_code t)) (live_db i)\<rparr>)
          else (None, i\<lparr>live_db := map_option (le_migrate le (tree_code t)) (live_db i)\<rparr>)))"

text \<open>\<open>health_ok\<close> with an expected version: the child answers with its version before the deadline. It has
  served in the meantime.\<close>

definition health_ok :: "launcher_env \<Rightarrow> string \<Rightarrow> install \<Rightarrow> failure option \<times> bool \<times> install" where
  "health_ok le expected i =
     (let r = le_fault le (calls i); j = i\<lparr>calls := calls i + 1\<rparr>
      in case child i of None \<Rightarrow> (if r = Some Interrupted then r else None, False, j)
         | Some c \<Rightarrow>
             (let k = j\<lparr>live_db := map_option (le_work le c) (live_db j)\<rparr>
              in if r = Some Interrupted then (r, False, k)
                 else (None, r = None \<and> le_serves le c = expected, k)))"

text \<open>\<open>backup_restore\<close>: the copy, then the two sidecars. A failed copy leaves no usable file; a copy under
  a running process leaves a corrupt one.\<close>

definition backup_restore :: "launcher_env \<Rightarrow> string list \<Rightarrow> step" where
  "backup_restore le backup i =
     (case backups i backup of None \<Rightarrow> (Some Failed_call, i)
      | Some f \<Rightarrow>
          (case le_copy le (calls i) of Some r \<Rightarrow> (Some r, i\<lparr>live_db := None\<rparr>)
           | None \<Rightarrow>
              (let j = i\<lparr>live_db := (if child i = None \<and> orphans i = [] then Some f else None)\<rparr>
               in call le (\<lambda>r k. if r \<noteq> None then (r, k) else (None, k\<lparr>sidecars := False\<rparr>)) j)))"

section \<open>apply_update\<close>

text \<open>The local flags of the function, in the order the steps set them.\<close>

record swap_run =
  prev_renamed :: bool
  staged_swapped :: bool
  migrate_attempted :: bool
  site :: install

type_synonym run_step = "swap_run \<Rightarrow> failure option \<times> swap_run"

definition on_site :: "step \<Rightarrow> run_step" where
  "on_site s x = (case s (site x) of (r, i) \<Rightarrow> (r, x\<lparr>site := i\<rparr>))"

definition assign :: "(swap_run \<Rightarrow> swap_run) \<Rightarrow> run_step" where
  "assign f x = (None, f x)"

definition require_health :: "launcher_env \<Rightarrow> string \<Rightarrow> step" where
  "require_health le expected i =
     (case health_ok le expected i of (Some x, _, j) \<Rightarrow> (Some x, j)
      | (None, ok, j) \<Rightarrow> (if ok then None else Some Failed_call, j))"

fun run_steps :: "run_step list \<Rightarrow> swap_run \<Rightarrow> failure option \<times> swap_run" where
  "run_steps [] x = (None, x)"
| "run_steps (s # ss) x = (case s x of (Some f, y) \<Rightarrow> (Some f, y) | (None, y) \<Rightarrow> run_steps ss y)"

definition swap_steps :: "launcher_env \<Rightarrow> string \<Rightarrow> run_step list" where
  "swap_steps le expected =
     [on_site (stop_app le),
      on_site (rmtree le App_prev),
      on_site (os_replace le App App_prev),
      assign (\<lambda>x. x\<lparr>prev_renamed := True\<rparr>),
      on_site (os_replace le Staged App),
      assign (\<lambda>x. x\<lparr>staged_swapped := True\<rparr>),
      assign (\<lambda>x. x\<lparr>migrate_attempted := True\<rparr>),
      on_site (migrate le),
      on_site (start_app le),
      on_site (require_health le expected)]"

text \<open>\<open>try: s except Exception\<close>, then the rest with whether it succeeded; an interrupt escapes.\<close>

definition attempt :: "step \<Rightarrow> (bool \<Rightarrow> step) \<Rightarrow> step" where
  "attempt s k i = (case s i of (Some Interrupted, j) \<Rightarrow> (Some Interrupted, j) | (r, j) \<Rightarrow> k (r = None) j)"

definition notify :: "notice \<Rightarrow> step" where
  "notify n i = (None, i\<lparr>notices := notices i @ [n]\<rparr>)"

definition park :: "launcher_env \<Rightarrow> step" where
  "park le = attempt (rmtree le App_failed) (\<lambda>_.
     attempt (os_replace le App App_failed) (\<lambda>ok. if ok then skip else rmtree le App))"

definition restore_code :: "launcher_env \<Rightarrow> step" where
  "restore_code le i =
     (if dirs i App \<noteq> None then notify Rollback_incomplete i
      else attempt (os_replace le App_prev App) (\<lambda>ok. if ok then skip else notify Rollback_incomplete) i)"

definition restore_db :: "launcher_env \<Rightarrow> string list \<Rightarrow> bool \<Rightarrow> bool \<Rightarrow> step" where
  "restore_db le backup attempted stopped =
     (if attempted \<and> stopped then attempt (backup_restore le backup) (\<lambda>_. skip)
      else if attempted then notify Database_not_restored else skip)"

definition roll_back :: "launcher_env \<Rightarrow> string list \<Rightarrow> swap_run \<Rightarrow> failure option \<times> install" where
  "roll_back le backup x =
     attempt (stop_app le) (\<lambda>stopped.
     attempt (if staged_swapped x then park le else skip) (\<lambda>_.
     attempt (if prev_renamed x then restore_code le else skip) (\<lambda>_.
     attempt (restore_db le backup (migrate_attempted x) stopped) (\<lambda>_.
     attempt (start_app le) (\<lambda>_. skip))))) (site x)"

record pending =
  pd_staged_dir :: "string list"
  pd_expected_version :: string
  pd_backup :: "string list"

definition apply_update :: "launcher_env \<Rightarrow> pending \<Rightarrow> step" where
  "apply_update le p i =
     (if dirs i Staged = None then (Some Failed_call, i)
      else case run_steps (swap_steps le (pd_expected_version p))
                  \<lparr>prev_renamed = False, staged_swapped = False, migrate_attempted = False, site = i\<rparr> of
          (None, x) \<Rightarrow> rmtree le App_prev (site x)
        | (Some f, x) \<Rightarrow>
            (case roll_back le (pd_backup p) x of
               (Some g, j) \<Rightarrow> (Some g, j)
             | (None, j) \<Rightarrow> (Some f, j)))"

section \<open>The marker\<close>

text \<open>Paths as Windows reads them: a drive, a root, the parts without empty ones and dots. There are no
  symbolic links, names are compared without case. \<open>text_of\<close> is \<open>str\<close> on a value that is no string.\<close>

record win_path =
  drive :: "string option"
  rooted :: bool
  parts :: "string list"

definition is_sep :: "char \<Rightarrow> bool" where
  "is_sep c \<longleftrightarrow> c = CHR ''/'' \<or> c = BACKSLASH"

fun split_parts :: "string \<Rightarrow> string \<Rightarrow> string list" where
  "split_parts acc [] = (if acc = [] \<or> acc = ''.'' then [] else [rev acc])"
| "split_parts acc (c # s) =
     (if is_sep c then (if acc = [] \<or> acc = ''.'' then [] else [rev acc]) @ split_parts [] s else split_parts (c # acc) s)"

definition parse_path :: "string \<Rightarrow> win_path" where
  "parse_path s =
     (let d = (if 2 \<le> length s \<and> s ! 1 = CHR '':'' then Some (take 2 s) else None);
          r = (if d = None then s else drop 2 s)
      in \<lparr>drive = d, rooted = (r \<noteq> [] \<and> is_sep (hd r)), parts = split_parts [] r\<rparr>)"

definition same_names :: "string list \<Rightarrow> string list \<Rightarrow> bool" where
  "same_names a b \<longleftrightarrow> map lower a = map lower b"

definition is_under :: "string list \<Rightarrow> string list \<Rightarrow> bool" where
  "is_under root p \<longleftrightarrow> length root \<le> length p \<and> same_names root (take (length root) p)"

text \<open>\<open>_confine\<close>: \<open>root / candidate\<close> keeps the candidate's drive and root where it has them. A path that begins
  with two separators names a host, which is another drive.\<close>

definition confine :: "win_path \<Rightarrow> string \<Rightarrow> exn + string list" where
  "confine root raw =
     (let c = parse_path raw
      in if ''..'' \<in> set (parts c) then Inl ValueError
         else if drive c \<noteq> None \<and> rooted c then Inl ValueError
         else if 2 \<le> length raw \<and> is_sep (raw ! 0) \<and> is_sep (raw ! 1) then Inl ValueError
         else if drive c \<noteq> None \<and> map_option lower (drive c) \<noteq> map_option lower (drive root) then Inl ValueError
         else (let resolved = (if rooted c then parts c else parts root @ parts c)
               in if is_under (parts root) resolved then Inr resolved else Inl ValueError))"

definition REQUIRED_KEYS :: "string list" where
  "REQUIRED_KEYS = [''staged_dir'', ''expected_version'', ''db_backup_path'']"

definition text_of :: "(json \<Rightarrow> string) \<Rightarrow> json \<Rightarrow> string" where
  "text_of py_str v = (case v of J_str s \<Rightarrow> s | _ \<Rightarrow> py_str v)"

definition parse_pending :: "(json \<Rightarrow> string) \<Rightarrow> string \<Rightarrow> win_path \<Rightarrow> exn + pending" where
  "parse_pending py_str raw root =
     (case loads raw of
        Some (J_obj obj) \<Rightarrow>
          (if set (map fst obj) \<noteq> set REQUIRED_KEYS then Inl ValueError
           else case confine root (text_of py_str (jget ''staged_dir'' obj)) of
               Inl x \<Rightarrow> Inl x
             | Inr staged \<Rightarrow>
                 (case confine root (text_of py_str (jget ''db_backup_path'' obj)) of
                    Inl x \<Rightarrow> Inl x
                  | Inr backup \<Rightarrow> Inr \<lparr>pd_staged_dir = staged,
                      pd_expected_version = text_of py_str (jget ''expected_version'' obj),
                      pd_backup = backup\<rparr>))
      | _ \<Rightarrow> Inl ValueError)"

section \<open>The watch loop\<close>

definition quarantine_marker :: "launcher_env \<Rightarrow> step" where
  "quarantine_marker le = call le (\<lambda>r i.
     if r = Some Interrupted then (r, i)
     else if r \<noteq> None then (None, i)
     else (None, i\<lparr>failed_marker := pending_marker i, pending_marker := None\<rparr>))"

definition returning :: "bool \<Rightarrow> failure option \<times> install \<Rightarrow> (failure + bool) \<times> install" where
  "returning b ri = (case ri of (None, i) \<Rightarrow> (Inr b, i) | (Some f, i) \<Rightarrow> (Inl f, i))"

definition unlink_marker :: "launcher_env \<Rightarrow> step" where
  "unlink_marker le = call le (\<lambda>r i. if r \<noteq> None then (r, i) else (None, i\<lparr>pending_marker := None\<rparr>))"

definition run_cycle :: "launcher_env \<Rightarrow> pending \<Rightarrow> install \<Rightarrow> (failure + bool) \<times> install" where
  "run_cycle le p i =
     (case apply_update le p i of
        (None, j) \<Rightarrow> returning True (unlink_marker le j)
      | (Some f, j) \<Rightarrow> (case quarantine_marker le j of (None, k) \<Rightarrow> (Inl f, k) | (Some g, k) \<Rightarrow> (Inl g, k)))"

definition run_once ::
  "launcher_env \<Rightarrow> (json \<Rightarrow> string) \<Rightarrow> win_path \<Rightarrow> install \<Rightarrow> (failure + bool) \<times> install" where
  "run_once le py_str root i =
     (case pending_marker i of
        None \<Rightarrow> (Inr False, i)
      | Some m \<Rightarrow>
          (let r = le_fault le (calls i); j = i\<lparr>calls := calls i + 1\<rparr>
           in if r = Some Interrupted then (Inl Interrupted, j)
              else if r \<noteq> None then (Inr False, j)
              else case m of
                  Marker_busy \<Rightarrow> (Inr False, j)
                | Marker_undecodable \<Rightarrow> returning False (quarantine_marker le j)
                | Marker raw \<Rightarrow>
                    (case parse_pending py_str raw root of
                       Inl _ \<Rightarrow> returning False (quarantine_marker le j)
                     | Inr p \<Rightarrow>
                         if \<not> same_names (pd_staged_dir p) (parts root @ [''staged''])
                         then returning False (quarantine_marker le j)
                         else if dirs j Staged = None then returning False (quarantine_marker le j)
                         else run_cycle le p j)))"

text \<open>\<open>boot\<close>, and \<open>n\<close> rounds of the loop of \<open>main\<close>: a failure is reported, an interrupt ends it; the child is
  stopped on the way out.\<close>

definition boot :: "launcher_env \<Rightarrow> step" where
  "boot le i = (case migrate le i of (Some f, j) \<Rightarrow> (Some f, j) | (None, j) \<Rightarrow> start_app le j)"

fun watch :: "nat \<Rightarrow> launcher_env \<Rightarrow> (json \<Rightarrow> string) \<Rightarrow> win_path \<Rightarrow> install \<Rightarrow> install" where
  "watch 0 le py_str root i = i"
| "watch (Suc n) le py_str root i =
     (case run_once le py_str root i of
        (Inl Interrupted, j) \<Rightarrow> snd (stop_app le j)
      | (Inl f, j) \<Rightarrow> watch n le py_str root (snd (notify Update_not_applied j))
      | (Inr _, j) \<Rightarrow> watch n le py_str root j)"

section \<open>What each call leaves alone\<close>

lemma os_replace_cases:
  "os_replace le src dst i = (r, j) \<Longrightarrow>
     (r \<noteq> None \<and> dirs j = dirs i)
     \<or> (r = None \<and> dirs i src \<noteq> None \<and> dirs i dst = None \<and> dirs j = (dirs i)(dst := dirs i src, src := None))"
  by (auto simp: os_replace_def call_def split: if_splits)

lemma os_replace_frame:
  "live_db (snd (os_replace le src dst i)) = live_db i" "child (snd (os_replace le src dst i)) = child i"
  "orphans (snd (os_replace le src dst i)) = orphans i" "backups (snd (os_replace le src dst i)) = backups i"
  "pending_marker (snd (os_replace le src dst i)) = pending_marker i"
  by (simp_all add: os_replace_def call_def)

lemma rmtree_frame:
  "live_db (snd (rmtree le x i)) = live_db i" "child (snd (rmtree le x i)) = child i"
  "orphans (snd (rmtree le x i)) = orphans i" "backups (snd (rmtree le x i)) = backups i"
  "pending_marker (snd (rmtree le x i)) = pending_marker i" "y \<noteq> x \<Longrightarrow> dirs (snd (rmtree le x i)) y = dirs i y"
  by (auto simp: rmtree_def call_def Let_def split: option.split failure.split)

lemma stop_app_frame:
  "dirs (snd (stop_app le i)) = dirs i" "live_db (snd (stop_app le i)) = live_db i"
  "backups (snd (stop_app le i)) = backups i" "pending_marker (snd (stop_app le i)) = pending_marker i"
  "fst (stop_app le i) = None \<Longrightarrow> child (snd (stop_app le i)) = None \<and> orphans (snd (stop_app le i)) = orphans i"
  by (auto simp: stop_app_def wait_child_def call_def lost_def)

lemma start_app_frame:
  "dirs (snd (start_app le i)) = dirs i" "live_db (snd (start_app le i)) = live_db i"
  "backups (snd (start_app le i)) = backups i" "pending_marker (snd (start_app le i)) = pending_marker i"
  "child i = None \<Longrightarrow> orphans (snd (start_app le i)) = orphans i"
  "fst (start_app le i) = None \<Longrightarrow> child (snd (start_app le i)) = map_option tree_code (dirs i App)"
  by (auto simp: start_app_def call_def lost_def split: option.split)

lemma migrate_frame:
  "dirs (snd (migrate le i)) = dirs i" "child (snd (migrate le i)) = child i"
  "orphans (snd (migrate le i)) = orphans i" "backups (snd (migrate le i)) = backups i"
  "pending_marker (snd (migrate le i)) = pending_marker i" "live_db (snd (migrate le i)) = None \<longleftrightarrow> live_db i = None"
  by (auto simp: migrate_def call_def split: option.split)

lemma require_health_frame:
  "dirs (snd (require_health le x i)) = dirs i" "child (snd (require_health le x i)) = child i"
  "orphans (snd (require_health le x i)) = orphans i" "backups (snd (require_health le x i)) = backups i"
  "pending_marker (snd (require_health le x i)) = pending_marker i"
  "live_db (snd (require_health le x i)) = None \<longleftrightarrow> live_db i = None"
  "fst (require_health le x i) = None \<Longrightarrow> \<exists>c. child i = Some c \<and> le_serves le c = x"
  by (auto simp: require_health_def health_ok_def Let_def split: option.splits if_splits)

lemmas call_frames = os_replace_frame rmtree_frame stop_app_frame start_app_frame migrate_frame require_health_frame

section \<open>The old code survives\<close>

text \<open>The old bundle is whole in the application directory or in the one kept beside it.\<close>

definition old_kept :: "string \<Rightarrow> install \<Rightarrow> bool" where
  "old_kept c i \<longleftrightarrow> dirs i App = Some (Whole c) \<or> dirs i App_prev = Some (Whole c)"

text \<open>What the flags of the swap say about the directories.\<close>

definition swap_inv :: "string \<Rightarrow> string \<Rightarrow> swap_run \<Rightarrow> bool" where
  "swap_inv c n x \<longleftrightarrow>
     (if staged_swapped x then prev_renamed x \<and> dirs (site x) App_prev = Some (Whole c) \<and> dirs (site x) App = Some (Whole n)
      else \<not> migrate_attempted x \<and>
        (if prev_renamed x then dirs (site x) App_prev = Some (Whole c) \<and> dirs (site x) App = None
         else dirs (site x) App = Some (Whole c)))"

lemma swap_inv_old: "swap_inv c n x \<Longrightarrow> old_kept c (site x)"
  by (auto simp: swap_inv_def old_kept_def split: if_splits)

text \<open>Triples for the steps: from \<open>P\<close> they end in \<open>Q\<close>, or fail in \<open>R\<close>.\<close>

definition steps_ok :: "(swap_run \<Rightarrow> bool) \<Rightarrow> run_step list \<Rightarrow> (swap_run \<Rightarrow> bool) \<Rightarrow> (swap_run \<Rightarrow> bool) \<Rightarrow> bool" where
  "steps_ok P ss Q R \<longleftrightarrow> (\<forall>x. P x \<longrightarrow>
     (if fst (run_steps ss x) = None then Q (snd (run_steps ss x)) else R (snd (run_steps ss x))))"

lemma steps_okD: "steps_ok P ss Q R \<Longrightarrow> P x \<Longrightarrow> run_steps ss x = (g, y) \<Longrightarrow> if g = None then Q y else R y"
  unfolding steps_ok_def by (metis fst_conv snd_conv)

lemma steps_ok_Nil: "(\<And>x. P x \<Longrightarrow> Q x) \<Longrightarrow> steps_ok P [] Q R"
  by (simp add: steps_ok_def)

lemma run_steps_Cons:
  "run_steps (s # ss) x = (if fst (s x) = None then run_steps ss (snd (s x)) else s x)"
  by (cases "s x"; cases "fst (s x)") auto

lemma steps_ok_Cons:
  assumes "\<And>x. P x \<Longrightarrow> if fst (s x) = None then Q (snd (s x)) else R (snd (s x))" and "steps_ok Q ss S R"
  shows "steps_ok P (s # ss) S R"
  unfolding steps_ok_def
proof (intro allI impI)
  fix x assume "P x"
  note step = assms(1)[OF this]
  show "if fst (run_steps (s # ss) x) = None then S (snd (run_steps (s # ss) x)) else R (snd (run_steps (s # ss) x))"
  proof (cases "fst (s x) = None")
    case True
    then have "Q (snd (s x))" using step by simp
    then have "if fst (run_steps ss (snd (s x))) = None then S (snd (run_steps ss (snd (s x))))
        else R (snd (run_steps ss (snd (s x))))"
      using assms(2) unfolding steps_ok_def by blast
    then show ?thesis unfolding run_steps_Cons using True by simp
  next
    case False
    with step have "R (snd (s x))" by (simp only: if_False)
    then show ?thesis unfolding run_steps_Cons by (simp only: False if_False)
  qed
qed

lemma steps_ok_site:
  assumes "\<And>x. P x \<Longrightarrow> if fst (s (site x)) = None then Q (x\<lparr>site := snd (s (site x))\<rparr>) else R (x\<lparr>site := snd (s (site x))\<rparr>)"
    and "steps_ok Q ss S R"
  shows "steps_ok P (on_site s # ss) S R"
  using assms by (intro steps_ok_Cons[where Q = Q]) (auto simp: on_site_def split_beta)

lemma steps_ok_assign: "steps_ok Q ss S R \<Longrightarrow> (\<And>x. P x \<Longrightarrow> Q (f x)) \<Longrightarrow> steps_ok P (assign f # ss) S R"
  by (rule steps_ok_Cons[where Q = Q]) (auto simp: assign_def)

text \<open>The stages between the steps.\<close>

definition stage_dirs :: "bool \<Rightarrow> bool \<Rightarrow> bool \<Rightarrow> tree option \<Rightarrow> tree option \<Rightarrow> tree option \<Rightarrow> swap_run \<Rightarrow> bool" where
  "stage_dirs a b m ap pr st x \<longleftrightarrow> prev_renamed x = a \<and> staged_swapped x = b \<and> migrate_attempted x = m
     \<and> dirs (site x) App = ap \<and> (a \<or> pr \<noteq> None \<longrightarrow> dirs (site x) App_prev = pr) \<and> dirs (site x) Staged = st"

lemma os_replace_None:
  "fst (os_replace le src dst i) = None \<Longrightarrow> dirs (snd (os_replace le src dst i)) = (dirs i)(dst := dirs i src, src := None)"
  "fst (os_replace le src dst i) \<noteq> None \<Longrightarrow> dirs (snd (os_replace le src dst i)) = dirs i"
  by (auto simp: os_replace_def call_def)

lemma swap_steps_dirs:
  "steps_ok (stage_dirs False False False (Some (Whole c)) None (Some (Whole n))) (swap_steps le expected)
     (\<lambda>x. stage_dirs True True True (Some (Whole n)) (Some (Whole c)) None x
        \<and> child (site x) = Some n \<and> le_serves le n = expected)
     (swap_inv c n)"
proof -
  let ?st = "\<lambda>a b m ap pr st. stage_dirs a b m (map_option Whole ap) (map_option Whole pr) (map_option Whole st)"
  show ?thesis
    unfolding swap_steps_def
    apply (rule steps_ok_site[where Q = "?st False False False (Some c) None (Some n)"])
     apply (simp add: stage_dirs_def swap_inv_def call_frames)
    apply (rule steps_ok_site[where Q = "?st False False False (Some c) None (Some n)"])
     apply (simp add: stage_dirs_def swap_inv_def call_frames)
    apply (rule steps_ok_site[where Q = "?st False False False None (Some c) (Some n)"])
     apply (simp add: stage_dirs_def swap_inv_def os_replace_None)
    apply (rule steps_ok_assign[where Q = "?st True False False None (Some c) (Some n)"])
     apply (rule steps_ok_site[where Q = "?st True False False (Some n) (Some c) None"])
      apply (simp add: stage_dirs_def swap_inv_def os_replace_None)
     apply (rule steps_ok_assign[where Q = "?st True True False (Some n) (Some c) None"])
      apply (rule steps_ok_assign[where Q = "?st True True True (Some n) (Some c) None"])
       apply (rule steps_ok_site[where Q = "?st True True True (Some n) (Some c) None"])
        apply (simp add: stage_dirs_def swap_inv_def call_frames)
       apply (rule steps_ok_site[where Q = "\<lambda>x. ?st True True True (Some n) (Some c) None x \<and> child (site x) = Some n"])
        apply (simp add: stage_dirs_def swap_inv_def call_frames tree_code_def)
       apply (rule steps_ok_site[where Q = "\<lambda>x. stage_dirs True True True (Some (Whole n)) (Some (Whole c)) None x
          \<and> child (site x) = Some n \<and> le_serves le n = expected"])
        apply (auto simp: stage_dirs_def swap_inv_def call_frames dest!: require_health_frame(7))[1]
       apply (rule steps_ok_Nil)
       apply assumption
      apply (simp_all add: stage_dirs_def)
    done
qed

section \<open>Rolling back\<close>

lemma attempt_eq:
  "attempt s k i = (if fst (s i) = Some Interrupted then s i else k (fst (s i) = None) (snd (s i)))"
  by (cases "s i"; cases "fst (s i)"; cases "the (fst (s i))") (auto simp: attempt_def)

lemma attempt_inv:
  assumes "P (snd (s i))" and "\<And>ok. P (snd (s i)) \<Longrightarrow> fst (s i) \<noteq> Some Interrupted \<Longrightarrow> P (snd (k ok (snd (s i))))"
  shows "P (snd (attempt s k i))"
  using assms by (simp add: attempt_eq)

lemma park_prev: "dirs (snd (park le i)) App_prev = dirs i App_prev"
  by (auto simp: park_def attempt_eq call_frames skip_def os_replace_def call_def)

lemma restore_code_old: "dirs i App_prev = Some (Whole c) \<Longrightarrow> old_kept c (snd (restore_code le i))"
  by (auto simp: restore_code_def attempt_eq notify_def old_kept_def skip_def os_replace_def call_def)

lemma restore_db_dirs [simp]: "dirs (snd (restore_db le backup a b i)) = dirs i"
  by (auto simp: restore_db_def attempt_eq backup_restore_def call_def notify_def skip_def Let_def split: option.split)

lemma roll_back_old:
  assumes "swap_inv c n x"
  shows "old_kept c (snd (roll_back le backup x))"
proof -
  define park_part where "park_part = (if staged_swapped x then park le else skip)"
  define code_part where "code_part = (if prev_renamed x then restore_code le else skip)"
  have old: "old_kept c i" if "dirs i = dirs (site x)" for i
    using that swap_inv_old[OF assms] by (simp add: old_kept_def)
  have parked: "old_kept c (snd (park_part i)) \<and>
      (prev_renamed x \<longrightarrow> dirs (snd (park_part i)) App_prev = Some (Whole c))
      \<and> (\<not> prev_renamed x \<longrightarrow> dirs (snd (park_part i)) App = Some (Whole c))" if "dirs i = dirs (site x)" for i
    using assms that park_prev[of le i]
    by (auto simp: park_part_def swap_inv_def old_kept_def skip_def split: if_splits)
  have coded: "old_kept c (snd (code_part i))" if "old_kept c i"
      "prev_renamed x \<longrightarrow> dirs i App_prev = Some (Whole c)" for i
    using that restore_code_old by (auto simp: code_part_def skip_def)
  have end_dirs: "old_kept c (snd (attempt (restore_db le backup m st) (\<lambda>_. attempt (start_app le) (\<lambda>_. skip)) i))"
    if "old_kept c i" for m st i
    using that by (simp add: attempt_eq skip_def old_kept_def call_frames)
  have "old_kept c (snd (attempt (stop_app le) (\<lambda>stopped. attempt park_part (\<lambda>_. attempt code_part (\<lambda>_.
      attempt (restore_db le backup (migrate_attempted x) stopped) (\<lambda>_. attempt (start_app le) (\<lambda>_. skip))))) (site x)))"
    using old parked coded end_dirs by (simp add: attempt_eq[of "stop_app le"] attempt_eq[of park_part] attempt_eq[of code_part] call_frames)
  then show ?thesis by (simp add: roll_back_def park_part_def code_part_def)
qed

text \<open>An update never loses the old version: whatever calls fail and wherever an interrupt strikes, afterwards the
  old bundle is whole in the application directory or in the one kept beside it, unless the new one
  is whole in its place and has answered, as the running child, with exactly the version that was asked for.\<close>

theorem old_version_survives:
  assumes "apply_update le p i = (r, j)" and "dirs i App = Some (Whole c)" and "dirs i Staged = Some (Whole n)"
  shows "(dirs j App = Some (Whole c) \<or> dirs j App_prev = Some (Whole c)
      \<or> dirs j App = Some (Whole n) \<and> child j = Some n \<and> le_serves le n = pd_expected_version p)
    \<and> (r = None \<longrightarrow> dirs j App = Some (Whole n) \<and> child j = Some n \<and> le_serves le n = pd_expected_version p)"
proof -
  let ?x = "\<lparr>prev_renamed = False, staged_swapped = False, migrate_attempted = False, site = i\<rparr>"
  obtain f x where run: "run_steps (swap_steps le (pd_expected_version p)) ?x = (f, x)" by force
  have "stage_dirs False False False (Some (Whole c)) None (Some (Whole n)) ?x"
    using assms(2,3) by (simp add: stage_dirs_def)
  with swap_steps_dirs[of c n le "pd_expected_version p"] run
  have ends: "if f = None then stage_dirs True True True (Some (Whole n)) (Some (Whole c)) None x
      \<and> child (site x) = Some n \<and> le_serves le n = pd_expected_version p else swap_inv c n x"
    by (force simp: steps_ok_def)
  show ?thesis
  proof (cases f)
    case None
    then have "rmtree le App_prev (site x) = (r, j)" using assms(1,3) run by (simp add: apply_update_def)
    then have "dirs j App = dirs (site x) App" "child j = child (site x)"
      using rmtree_frame(2)[of le App_prev "site x"] rmtree_frame(6)[of App App_prev le "site x"] by simp_all
    then show ?thesis using None ends by (simp add: stage_dirs_def)
  next
    case (Some g)
    then have "old_kept c (snd (roll_back le (pd_backup p) x))" using ends roll_back_old by simp
    moreover have "j = snd (roll_back le (pd_backup p) x)" "r \<noteq> None" using assms(1,3) run Some
      by (auto simp: apply_update_def split: prod.splits option.splits)
    ultimately show ?thesis by (auto simp: old_kept_def)
  qed
qed

section \<open>One failure\<close>

text \<open>From here on no call fails.\<close>

definition quiet :: "launcher_env \<Rightarrow> install \<Rightarrow> bool" where
  "quiet le i \<longleftrightarrow> (\<forall>k \<ge> calls i. le_fault le k = None)"

lemma quiet_now: "quiet le i \<Longrightarrow> le_fault le (calls i) = None"
  by (simp add: quiet_def)

lemma quiet_later: "quiet le i \<Longrightarrow> calls i \<le> calls j \<Longrightarrow> quiet le j"
  by (auto simp: quiet_def)

lemma calls_mono:
  "calls i \<le> calls (snd (os_replace le a b i))" "calls i \<le> calls (snd (rmtree le x i))"
  "calls i \<le> calls (snd (stop_app le i))" "calls i \<le> calls (snd (start_app le i))"
  "calls i \<le> calls (snd (migrate le i))" "calls i \<le> calls (snd (require_health le v i))"
  by (auto simp: os_replace_def rmtree_def stop_app_def wait_child_def start_app_def migrate_def require_health_def
      health_ok_def call_def lost_def Let_def split: option.split failure.split)

lemma quiet_stop: "quiet le i \<Longrightarrow> fst (stop_app le i) = None"
  by (auto simp: stop_app_def wait_child_def call_def quiet_def)

lemma quiet_rmtree: "quiet le i \<Longrightarrow> rmtree le x i = (None, i\<lparr>calls := calls i + 1, dirs := (dirs i)(x := None)\<rparr>)"
  by (simp add: rmtree_def call_def quiet_now)

lemma quiet_replace:
  "quiet le i \<Longrightarrow> dirs i a \<noteq> None \<Longrightarrow> dirs i b = None
     \<Longrightarrow> os_replace le a b i = (None, i\<lparr>calls := calls i + 1, dirs := (dirs i)(b := dirs i a, a := None)\<rparr>)"
  by (simp add: os_replace_def call_def quiet_now)

lemma quiet_start: "quiet le i \<Longrightarrow> dirs i App \<noteq> None \<Longrightarrow> fst (start_app le i) = None"
  by (auto simp: start_app_def call_def quiet_now)

lemma quiet_calls: "quiet le i \<Longrightarrow> quiet le (i\<lparr>calls := calls i + n, dirs := f\<rparr>)"
  by (simp add: quiet_def)

lemma quiet_park:
  assumes "quiet le i" and "dirs i App \<noteq> None"
  shows "\<exists>j. park le i = (None, j) \<and> quiet le j \<and> dirs j App = None \<and> dirs j App_prev = dirs i App_prev
    \<and> child j = child i \<and> orphans j = orphans i \<and> live_db j = live_db i \<and> backups j = backups i"
proof -
  let ?i = "i\<lparr>calls := calls i + 1, dirs := (dirs i)(App_failed := None)\<rparr>"
  have q: "quiet le ?i" using assms(1) by (rule quiet_calls)
  show ?thesis
    using quiet_replace[OF q, of App App_failed] assms q
    by (simp add: park_def attempt_eq quiet_rmtree[OF assms(1)] skip_def) (simp add: quiet_def)
qed

lemma quiet_restore_code:
  assumes "quiet le i" and "dirs i App = None" and "dirs i App_prev = Some t"
  shows "\<exists>j. restore_code le i = (None, j) \<and> quiet le j \<and> dirs j App = Some t
    \<and> child j = child i \<and> orphans j = orphans i \<and> live_db j = live_db i \<and> backups j = backups i"
  using quiet_replace[OF assms(1), of App_prev App] assms
  by (simp add: restore_code_def attempt_eq skip_def) (simp add: quiet_def)

lemma quiet_restore_db:
  assumes "quiet le i" and "backups i b = Some f" and "\<And>k. le_copy le k = None" and "child i = None"
    and "a \<longrightarrow> orphans i = []"
  shows "\<exists>j. restore_db le b a True i = (None, j) \<and> quiet le j \<and> dirs j = dirs i \<and> child j = None
    \<and> orphans j = orphans i \<and> live_db j = (if a then Some f else live_db i)"
  using assms quiet_now[OF assms(1)] quiet_later[OF assms(1)]
  by (auto simp: restore_db_def attempt_eq backup_restore_def call_def skip_def Let_def quiet_def)

text \<open>A roll back in which nothing fails: the old bundle runs again, on the database it had or on the backup.\<close>

lemma quiet_roll_back:
  assumes "swap_inv c n x" and "quiet le (site x)" and "backups (site x) b = Some f" and "\<And>k. le_copy le k = None"
    and "migrate_attempted x \<longrightarrow> orphans (site x) = []"
  shows "\<exists>j. roll_back le b x = (None, j) \<and> dirs j App = Some (Whole c) \<and> child j = Some c
    \<and> live_db j = (if migrate_attempted x then Some f else live_db (site x))"
proof -
  define park_part where "park_part = (if staged_swapped x then park le else skip)"
  define code_part where "code_part = (if prev_renamed x then restore_code le else skip)"
  obtain i1 where i1: "stop_app le (site x) = (None, i1)" "quiet le i1" "dirs i1 = dirs (site x)" "child i1 = None"
    "orphans i1 = orphans (site x)" "live_db i1 = live_db (site x)" "backups i1 = backups (site x)"
    using quiet_stop[OF assms(2)] stop_app_frame[of le "site x"] quiet_later[OF assms(2) calls_mono(3)[of _ le]]
    by (cases "stop_app le (site x)") fastforce
  obtain i2 where i2: "park_part i1 = (None, i2)" "quiet le i2" "child i2 = None" "orphans i2 = orphans i1"
    "live_db i2 = live_db i1" "backups i2 = backups i1"
    "prev_renamed x \<longrightarrow> dirs i2 App = None \<and> dirs i2 App_prev = Some (Whole c)"
    "\<not> prev_renamed x \<longrightarrow> dirs i2 App = Some (Whole c)"
    using quiet_park[OF i1(2)] assms(1) i1
    by (cases "staged_swapped x") (fastforce simp: park_part_def swap_inv_def skip_def split: if_splits)+
  obtain i3 where i3: "code_part i2 = (None, i3)" "quiet le i3" "child i3 = None" "orphans i3 = orphans i2"
    "live_db i3 = live_db i2" "backups i3 = backups i2" "dirs i3 App = Some (Whole c)"
    using quiet_restore_code[OF i2(2)] i2 by (cases "prev_renamed x") (fastforce simp: code_part_def skip_def)+
  obtain i4 where i4: "restore_db le b (migrate_attempted x) True i3 = (None, i4)" "quiet le i4" "dirs i4 = dirs i3"
    "child i4 = None" "live_db i4 = (if migrate_attempted x then Some f else live_db i3)"
    using quiet_restore_db[OF i3(2), of b f "migrate_attempted x"] i3 i2 i1 assms(3-5) by auto
  have s: "fst (start_app le i4) = None" using quiet_start[OF i4(2)] i4(3) i3(7) by simp
  obtain i5 where i5: "start_app le i4 = (None, i5)" using s by (cases "start_app le i4") auto
  then have "child i5 = Some c" "dirs i5 = dirs i4" "live_db i5 = live_db i4"
    using start_app_frame[where le = le and i = i4] i4(3) i3(7) by (simp_all add: tree_code_def)
  then show ?thesis
    using i1 i2 i3 i4 i5
    by (simp add: roll_back_def park_part_def[symmetric] code_part_def[symmetric] attempt_eq skip_def)
qed

text \<open>At most one call fails.\<close>

definition one_fault :: "launcher_env \<Rightarrow> nat \<Rightarrow> bool" where
  "one_fault le m \<longleftrightarrow> (\<forall>k. k \<noteq> m \<longrightarrow> le_fault le k = None)"

lemma one_fault_at: "one_fault le m \<Longrightarrow> le_fault le k \<noteq> None \<Longrightarrow> k = m"
  by (auto simp: one_fault_def)

lemma used_quiet: "one_fault le m \<Longrightarrow> m < calls i \<Longrightarrow> quiet le i"
  by (auto simp: one_fault_def quiet_def)

lemma fault_used:
  assumes "one_fault le m"
  shows "fst (stop_app le i) \<noteq> None \<Longrightarrow> m < calls (snd (stop_app le i)) \<and> le_fault le m \<noteq> None"
    "fst (rmtree le x i) \<noteq> None \<Longrightarrow> m < calls (snd (rmtree le x i)) \<and> le_fault le m \<noteq> None"
    "dirs (snd (rmtree le x i)) x \<noteq> None \<Longrightarrow> m < calls (snd (rmtree le x i)) \<and> le_fault le m \<noteq> None"
    "dirs i a \<noteq> None \<Longrightarrow> dirs i b = None \<Longrightarrow> fst (os_replace le a b i) \<noteq> None \<Longrightarrow> m < calls (snd (os_replace le a b i)) \<and> le_fault le m \<noteq> None"
    "dirs i App \<noteq> None \<Longrightarrow> fst (migrate le i) \<noteq> None \<Longrightarrow> m < calls (snd (migrate le i)) \<and> le_fault le m \<noteq> None"
    "dirs i App \<noteq> None \<Longrightarrow> fst (start_app le i) \<noteq> None \<Longrightarrow> m < calls (snd (start_app le i)) \<and> le_fault le m \<noteq> None"
    "child i = Some c \<Longrightarrow> le_serves le c = v \<Longrightarrow> fst (require_health le v i) \<noteq> None \<Longrightarrow> m < calls (snd (require_health le v i)) \<and> le_fault le m \<noteq> None"
  using one_fault_at[OF assms]
  by (auto simp: stop_app_def wait_child_def rmtree_def os_replace_def migrate_def start_app_def require_health_def
      health_ok_def call_def lost_def Let_def split: option.splits failure.splits if_splits)

lemma step_results:
  "fst (migrate le i) = None \<Longrightarrow> dirs i App = Some t
     \<Longrightarrow> live_db (snd (migrate le i)) = map_option (le_migrate le (tree_code t)) (live_db i)"
  "child i = Some c \<Longrightarrow> live_db (snd (require_health le v i)) = map_option (le_work le c) (live_db i)"
  by (auto simp: migrate_def require_health_def health_ok_def call_def Let_def split: option.splits if_splits)

text \<open>The triple with what the roll back needs.\<close>

definition ready :: "launcher_env \<Rightarrow> string \<Rightarrow> string \<Rightarrow> install \<Rightarrow> swap_run \<Rightarrow> bool" where
  "ready le c n i x \<longleftrightarrow> swap_inv c n x \<and> quiet le (site x) \<and> backups (site x) = backups i
     \<and> (migrate_attempted x \<longrightarrow> orphans (site x) = []) \<and> (\<not> migrate_attempted x \<longrightarrow> live_db (site x) = live_db i)"

lemma swap_steps_one_fault:
  assumes one: "one_fault le m" and "le_serves le n = v \<or> le_fault le m = None"
  shows "steps_ok (\<lambda>x. stage_dirs False False False (Some (Whole c)) None (Some (Whole n)) x \<and> orphans (site x) = []
        \<and> backups (site x) = backups i \<and> live_db (site x) = live_db i)
     (swap_steps le v)
     (\<lambda>x. child (site x) = Some n \<and> live_db (site x) = map_option (\<lambda>f. le_work le n (le_migrate le n f)) (live_db i))
     (\<lambda>x. ready le c n i x \<and> (le_fault le m \<noteq> None \<or> le_serves le n \<noteq> v))"
proof -
  note use = fault_used[OF one] and q = used_quiet[OF one]
  have health: "quiet le (snd (require_health le v j)) \<and> (le_fault le m \<noteq> None \<or> le_serves le n \<noteq> v)" if "child j = Some n" "fst (require_health le v j) \<noteq> None" for j
  proof (cases "le_serves le n = v")
    case True
    then show ?thesis using use(7)[OF that(1) True that(2)] q by blast
  next
    case False
    then have "le_fault le k = None" for k using assms(2) one by (cases "k = m") (auto simp: one_fault_def)
    with False show ?thesis by (simp add: quiet_def)
  qed
  have rm: "quiet le (snd (rmtree le App_prev j)) \<and> (\<exists>y. le_fault le m = Some y)"
    if "(\<exists>y. fst (rmtree le App_prev j) = Some y) \<or> dirs (snd (rmtree le App_prev j)) App_prev \<noteq> None" for j
    using that use(2)[of App_prev j] use(3)[of App_prev j] q by auto
  have rep: "quiet le (snd (os_replace le a b j)) \<and> (\<exists>y. le_fault le m = Some y)"
    if "\<exists>y. fst (os_replace le a b j) = Some y" "dirs j a \<noteq> None" "dirs j b = None \<or> quiet le j \<and> (\<exists>y. le_fault le m = Some y)" for a b j
    using that use(4)[of j a b] q quiet_later calls_mono(1)[of j le a b] by auto
  have mig: "quiet le (snd (migrate le j)) \<and> (\<exists>y. le_fault le m = Some y)"
    if "\<exists>y. fst (migrate le j) = Some y" "dirs j App \<noteq> None" for j
    using that use(5)[of j] q by auto
  have sta: "quiet le (snd (start_app le j)) \<and> (\<exists>y. le_fault le m = Some y)"
    if "\<exists>y. fst (start_app le j) = Some y" "dirs j App \<noteq> None" for j
    using that use(6)[of j] q by auto
  let ?st = "\<lambda>a b ap pr st x. stage_dirs a b False (map_option Whole ap) (map_option Whole pr) (map_option Whole st) x
      \<and> orphans (site x) = [] \<and> child (site x) = None \<and> backups (site x) = backups i \<and> live_db (site x) = live_db i"
  let ?new = "\<lambda>x. stage_dirs True True True (Some (Whole n)) (Some (Whole c)) None x
      \<and> orphans (site x) = [] \<and> backups (site x) = backups i"
  show ?thesis
    unfolding swap_steps_def
    apply (rule steps_ok_site[where Q = "?st False False (Some c) None (Some n)"])
     apply (simp add: stage_dirs_def swap_inv_def ready_def call_frames use(1) q)
    apply (rule steps_ok_site[where Q = "\<lambda>x. ?st False False (Some c) None (Some n) x \<and> (dirs (site x) App_prev = None \<or> quiet le (site x) \<and> le_fault le m \<noteq> None)"])
     apply (simp add: stage_dirs_def swap_inv_def ready_def call_frames)
     apply (use rm in blast)
    apply (rule steps_ok_site[where Q = "?st False False None (Some c) (Some n)"])
     apply (simp add: stage_dirs_def swap_inv_def ready_def call_frames os_replace_None)
     apply (use rep in fastforce)
    apply (rule steps_ok_assign[where Q = "?st True False None (Some c) (Some n)"])
     apply (rule steps_ok_site[where Q = "?st True False (Some n) (Some c) None"])
      apply (simp add: stage_dirs_def swap_inv_def ready_def call_frames os_replace_None)
      apply (use rep in fastforce)
     apply (rule steps_ok_assign[where Q = "?st True True (Some n) (Some c) None"])
      apply (rule steps_ok_assign[where Q = "\<lambda>x. ?new x \<and> child (site x) = None \<and> live_db (site x) = live_db i"])
       apply (rule steps_ok_site[where Q = "\<lambda>x. ?new x \<and> child (site x) = None
          \<and> live_db (site x) = map_option (le_migrate le n) (live_db i)"])
        apply (simp add: stage_dirs_def swap_inv_def ready_def call_frames step_results(1) tree_code_def)
        apply (use mig in fastforce)
       apply (rule steps_ok_site[where Q = "\<lambda>x. ?new x \<and> child (site x) = Some n
          \<and> live_db (site x) = map_option (le_migrate le n) (live_db i)"])
        apply (simp add: stage_dirs_def swap_inv_def ready_def call_frames tree_code_def)
        apply (use sta in fastforce)
       apply (rule steps_ok_site[where Q = "\<lambda>x. child (site x) = Some n
          \<and> live_db (site x) = map_option (\<lambda>f. le_work le n (le_migrate le n f)) (live_db i)"])
        apply (simp add: stage_dirs_def swap_inv_def ready_def call_frames step_results(2) option.map_comp comp_def)
        apply (use health in fastforce)
       apply (rule steps_ok_Nil)
       apply assumption
      apply (simp_all add: stage_dirs_def)
    done
qed

lemma apply_one_fault:
  assumes "apply_update le p i = (r, j)" and "one_fault le m" and "\<And>k. le_copy le k = None"
    and "le_serves le n = pd_expected_version p \<or> le_fault le m = None"
    and "dirs i App = Some (Whole c)" "dirs i Staged = Some (Whole n)" "orphans i = []" "backups i (pd_backup p) = Some f"
  shows "(dirs j App = Some (Whole n) \<and> child j = Some n \<and> le_serves le n = pd_expected_version p
        \<and> live_db j = map_option (\<lambda>f. le_work le n (le_migrate le n f)) (live_db i) \<and> (r \<noteq> None \<longrightarrow> le_fault le m \<noteq> None))
    \<or> (r \<noteq> None \<and> (le_fault le m \<noteq> None \<or> le_serves le n \<noteq> pd_expected_version p) \<and> dirs j App = Some (Whole c) \<and> child j = Some c \<and> (live_db j = live_db i \<or> live_db j = Some f))"
proof -
  let ?x = "\<lparr>prev_renamed = False, staged_swapped = False, migrate_attempted = False, site = i\<rparr>"
  obtain g x where run: "run_steps (swap_steps le (pd_expected_version p)) ?x = (g, x)" by force
  have start: "stage_dirs False False False (Some (Whole c)) None (Some (Whole n)) ?x"
    using assms(5,6) by (simp add: stage_dirs_def)
  have dirs_end: "if g = None then stage_dirs True True True (Some (Whole n)) (Some (Whole c)) None x
      \<and> child (site x) = Some n \<and> le_serves le n = pd_expected_version p else swap_inv c n x"
    using swap_steps_dirs[of c n le "pd_expected_version p"] start run by (force simp: steps_ok_def)
  have db_end: "if g = None then child (site x) = Some n
        \<and> live_db (site x) = map_option (\<lambda>f. le_work le n (le_migrate le n f)) (live_db i)
      else ready le c n i x \<and> (le_fault le m \<noteq> None \<or> le_serves le n \<noteq> pd_expected_version p)"
    using swap_steps_one_fault[OF assms(2,4), of c i] start run assms(7) by (force simp: steps_ok_def)
  show ?thesis
  proof (cases g)
    case None
    then have "rmtree le App_prev (site x) = (r, j)" using assms(1,6) run by (simp add: apply_update_def)
    then have "dirs j App = dirs (site x) App" "child j = child (site x)" "live_db j = live_db (site x)"
      "r \<noteq> None \<longrightarrow> le_fault le m \<noteq> None"
      using rmtree_frame(1,2)[of le App_prev "site x"] rmtree_frame(6)[of App App_prev le "site x"]
        fault_used(2)[OF assms(2), of App_prev "site x"] by auto
    then show ?thesis using None dirs_end db_end by (simp add: stage_dirs_def)
  next
    case (Some h)
    then have rdy: "ready le c n i x" and excuse: "le_fault le m \<noteq> None \<or> le_serves le n \<noteq> pd_expected_version p"
      using db_end by simp_all
    then obtain k where k: "roll_back le (pd_backup p) x = (None, k)" "dirs k App = Some (Whole c)" "child k = Some c"
      "live_db k = (if migrate_attempted x then Some f else live_db (site x))"
      using quiet_roll_back[of c n x le "pd_backup p" f] assms(3,8) unfolding ready_def by auto
    then have "r = Some h \<and> j = k" using assms(1,6) run Some by (simp add: apply_update_def)
    then show ?thesis using k rdy excuse by (auto simp: ready_def)
  qed
qed


section \<open>The database is never clobbered\<close>

lemma swap_steps_db:
  "steps_ok (\<lambda>x. \<not> migrate_attempted x \<and> live_db (site x) \<noteq> None \<and> orphans (site x) = [])
     (swap_steps le v)
     (\<lambda>x. live_db (site x) \<noteq> None)
     (\<lambda>x. live_db (site x) \<noteq> None \<and> (migrate_attempted x \<longrightarrow> orphans (site x) = []))"
proof -
  let ?idle = "\<lambda>x. \<not> migrate_attempted x \<and> live_db (site x) \<noteq> None \<and> orphans (site x) = [] \<and> child (site x) = None"
  let ?on = "\<lambda>x. live_db (site x) \<noteq> None \<and> orphans (site x) = []"
  show ?thesis
    unfolding swap_steps_def
    apply (rule steps_ok_site[where Q = ?idle], simp add: call_frames)
    apply (rule steps_ok_site[where Q = ?idle], simp add: call_frames)
    apply (rule steps_ok_site[where Q = ?idle], simp add: call_frames)
    apply (rule steps_ok_assign[where Q = ?idle])
     apply (rule steps_ok_site[where Q = ?idle], simp add: call_frames)
     apply (rule steps_ok_assign[where Q = ?idle])
      apply (rule steps_ok_assign[where Q = "\<lambda>x. ?on x \<and> child (site x) = None"])
       apply (rule steps_ok_site[where Q = "\<lambda>x. ?on x \<and> child (site x) = None"], simp add: call_frames)
       apply (rule steps_ok_site[where Q = ?on], simp add: call_frames)
       apply (rule steps_ok_site[where Q = "\<lambda>x. live_db (site x) \<noteq> None"], simp add: call_frames)
       apply (rule steps_ok_Nil)
       apply assumption
      apply simp_all
    done
qed

lemma park_frame:
  "live_db (snd (park le i)) = live_db i" "child (snd (park le i)) = child i" "orphans (snd (park le i)) = orphans i"
  "pending_marker (snd (park le i)) = pending_marker i"
  by (simp_all add: park_def attempt_eq call_frames skip_def)

lemma restore_code_frame:
  "live_db (snd (restore_code le i)) = live_db i" "child (snd (restore_code le i)) = child i"
  "orphans (snd (restore_code le i)) = orphans i" "pending_marker (snd (restore_code le i)) = pending_marker i"
  by (simp_all add: restore_code_def attempt_eq call_frames skip_def notify_def)

lemma restore_db_live:
  assumes "live_db i \<noteq> None" and "\<And>k. le_copy le k = None" and "a \<and> st \<longrightarrow> child i = None \<and> orphans i = []"
  shows "live_db (snd (restore_db le b a st i)) \<noteq> None"
  using assms by (auto simp: restore_db_def attempt_eq backup_restore_def call_def skip_def notify_def Let_def split: option.split)

lemma roll_back_live:
  assumes "live_db (site x) \<noteq> None" and "\<And>k. le_copy le k = None" and "migrate_attempted x \<longrightarrow> orphans (site x) = []"
  shows "live_db (snd (roll_back le b x)) \<noteq> None"
proof -
  define park_part where "park_part = (if staged_swapped x then park le else skip)"
  define code_part where "code_part = (if prev_renamed x then restore_code le else skip)"
  have parts: "live_db (snd (park_part i)) = live_db i" "child (snd (park_part i)) = child i"
    "orphans (snd (park_part i)) = orphans i" "live_db (snd (code_part i)) = live_db i"
    "child (snd (code_part i)) = child i" "orphans (snd (code_part i)) = orphans i" for i
    by (simp_all add: park_part_def code_part_def skip_def park_frame restore_code_frame)
  have tail: "live_db (snd (attempt (restore_db le b (migrate_attempted x) st) (\<lambda>_. attempt (start_app le) (\<lambda>_. skip)) i)) \<noteq> None"
    if "live_db i \<noteq> None" "migrate_attempted x \<and> st \<longrightarrow> child i = None \<and> orphans i = []" for st i
    using restore_db_live[OF that(1) assms(2) that(2)] by (simp add: attempt_eq skip_def call_frames)
  have stop: "migrate_attempted x \<and> fst (stop_app le (site x)) = None
      \<longrightarrow> child (snd (stop_app le (site x))) = None \<and> orphans (snd (stop_app le (site x))) = []"
    using assms(3) stop_app_frame(5)[of le "site x"] by auto
  have fin: "live_db (snd (attempt (restore_db le b (migrate_attempted x) (fst (stop_app le (site x)) = None))
      (\<lambda>_. attempt (start_app le) (\<lambda>_. skip)) (snd (code_part (snd (park_part (snd (stop_app le (site x))))))))) \<noteq> None"
    by (rule tail) (use assms(1) stop in \<open>simp_all add: parts call_frames\<close>)
  have "live_db (snd (attempt (stop_app le) (\<lambda>stopped. attempt park_part (\<lambda>_. attempt code_part (\<lambda>_.
      attempt (restore_db le b (migrate_attempted x) stopped) (\<lambda>_. attempt (start_app le) (\<lambda>_. skip))))) (site x))) \<noteq> None"
    using assms(1) fin
    by (simp add: attempt_eq[of "stop_app le"] attempt_eq[of park_part] attempt_eq[of code_part] parts call_frames)
  then show ?thesis by (simp add: roll_back_def park_part_def code_part_def)
qed


section \<open>The marker is confined and consumed\<close>

lemma confine_under:
  "confine root raw = Inr q \<Longrightarrow> is_under (parts root) q \<and> (''..'' \<notin> set q \<or> ''..'' \<in> set (parts root))"
  by (auto simp: confine_def Let_def split: if_splits)

text \<open>The marker cannot lead outside: what it accepts as the backup and the staged directory lies below the
  install root, whatever the text says, and holds no step upwards.\<close>

theorem marker_confined:
  assumes "parse_pending py_str raw root = Inr p" and "''..'' \<notin> set (parts root)"
  shows "is_under (parts root) (pd_backup p) \<and> is_under (parts root) (pd_staged_dir p)
    \<and> ''..'' \<notin> set (pd_backup p) \<union> set (pd_staged_dir p)"
  using assms confine_under[of root]
  by (auto simp: parse_pending_def split: option.splits json.splits if_splits sum.splits)

section \<open>The watch loop gets rid of every marker\<close>

text \<open>Nobody interrupts.\<close>

definition calm :: "launcher_env \<Rightarrow> bool" where
  "calm le \<longleftrightarrow> (\<forall>k. le_fault le k \<noteq> Some Interrupted \<and> le_copy le k \<noteq> Some Interrupted)"

text \<open>A step that leaves the marker alone, never turns the counter back and does not end in an interrupt.\<close>

definition gentle :: "step \<Rightarrow> bool" where
  "gentle s \<longleftrightarrow> (\<forall>i. pending_marker (snd (s i)) = pending_marker i \<and> calls i \<le> calls (snd (s i))
     \<and> fst (s i) \<noteq> Some Interrupted)"

lemma gentle_calls:
  assumes "calm le"
  shows "gentle (os_replace le a b)" "gentle (rmtree le x)" "gentle (stop_app le)" "gentle (start_app le)"
    "gentle (migrate le)" "gentle (require_health le v)" "gentle (backup_restore le q)" "gentle skip" "gentle (notify nt)"
  using assms
  by (auto simp: gentle_def calm_def os_replace_def rmtree_def stop_app_def wait_child_def start_app_def migrate_def
      require_health_def health_ok_def backup_restore_def skip_def notify_def call_def lost_def Let_def
      split: option.split failure.split)

lemma gentle_attempt: "gentle s \<Longrightarrow> (\<And>ok. gentle (k ok)) \<Longrightarrow> gentle (attempt s k)"
proof -
  assume s: "gentle s" and k: "\<And>ok. gentle (k ok)"
  have "pending_marker (snd (attempt s k i)) = pending_marker i \<and> calls i \<le> calls (snd (attempt s k i))
      \<and> fst (attempt s k i) \<noteq> Some Interrupted" for i
  proof -
    let ?ok = "fst (s i) = None"
    have "pending_marker (snd (s i)) = pending_marker i" "calls i \<le> calls (snd (s i))" "fst (s i) \<noteq> Some Interrupted"
      using s by (simp_all add: gentle_def)
    moreover have "pending_marker (snd (k ?ok (snd (s i)))) = pending_marker (snd (s i))"
      "calls (snd (s i)) \<le> calls (snd (k ?ok (snd (s i))))" "fst (k ?ok (snd (s i))) \<noteq> Some Interrupted"
      using k[of ?ok] by (simp_all add: gentle_def)
    ultimately show ?thesis by (simp add: attempt_eq del: not_None_eq)
  qed
  then show "gentle (attempt s k)" by (simp add: gentle_def)
qed

lemma gentle_if: "gentle s \<Longrightarrow> gentle t \<Longrightarrow> gentle (if b then s else t)" "gentle s \<Longrightarrow> gentle t \<Longrightarrow> gentle (\<lambda>i. if P i then s i else t i)"
  by (simp_all add: gentle_def)

lemma gentle_park: "calm le \<Longrightarrow> gentle (park le)"
  unfolding park_def by (intro gentle_attempt gentle_if gentle_calls)

lemma gentle_restore_code: "calm le \<Longrightarrow> gentle (restore_code le)"
  unfolding restore_code_def[abs_def] by (intro gentle_attempt gentle_if gentle_calls)

lemma gentle_restore_db: "calm le \<Longrightarrow> gentle (restore_db le b a st)"
  unfolding restore_db_def by (intro gentle_attempt gentle_if gentle_calls)

lemma gentle_roll_back:
  assumes "calm le"
  shows "pending_marker (snd (roll_back le b x)) = pending_marker (site x) \<and> calls (site x) \<le> calls (snd (roll_back le b x))
    \<and> fst (roll_back le b x) \<noteq> Some Interrupted"
proof -
  have "gentle (attempt (stop_app le) (\<lambda>stopped. attempt (if staged_swapped x then park le else skip) (\<lambda>_.
      attempt (if prev_renamed x then restore_code le else skip) (\<lambda>_.
      attempt (restore_db le b (migrate_attempted x) stopped) (\<lambda>_. attempt (start_app le) (\<lambda>_. skip))))))"
    using assms by (intro gentle_attempt gentle_if gentle_calls gentle_park gentle_restore_code gentle_restore_db)
  then show ?thesis by (simp add: gentle_def roll_back_def)
qed

lemma gentle_run:
  assumes "\<And>s. s \<in> set ss \<Longrightarrow> (\<exists>f. s = assign f \<and> (\<forall>x. site (f x) = site x)) \<or> (\<exists>t. s = on_site t \<and> gentle t)"
  shows "pending_marker (site (snd (run_steps ss x))) = pending_marker (site x)
    \<and> calls (site x) \<le> calls (site (snd (run_steps ss x))) \<and> fst (run_steps ss x) \<noteq> Some Interrupted"
  using assms
proof (induction ss arbitrary: x)
  case (Cons s ss)
  have "pending_marker (site (snd (s x))) = pending_marker (site x) \<and> calls (site x) \<le> calls (site (snd (s x)))
      \<and> fst (s x) \<noteq> Some Interrupted"
    using Cons.prems[of s] by (auto simp: assign_def on_site_def gentle_def split_beta)
  moreover note Cons.IH[of "snd (s x)"]
  ultimately show ?case using Cons.prems by (auto simp: run_steps_Cons simp del: run_steps.simps intro: le_trans)
qed simp

lemma gentle_apply_update:
  assumes "calm le"
  shows "gentle (apply_update le p)"
proof -
  have steps: "(\<exists>f. s = assign f \<and> (\<forall>x. site (f x) = site x)) \<or> (\<exists>t. s = on_site t \<and> gentle t)"
    if "s \<in> set (swap_steps le v)" for s v
    using that gentle_calls[OF assms] by (auto simp: swap_steps_def)
  have "pending_marker (snd (apply_update le p i)) = pending_marker i \<and> calls i \<le> calls (snd (apply_update le p i))
      \<and> fst (apply_update le p i) \<noteq> Some Interrupted" for i
  proof -
    let ?x = "\<lparr>prev_renamed = False, staged_swapped = False, migrate_attempted = False, site = i\<rparr>"
    obtain g x where run: "run_steps (swap_steps le (pd_expected_version p)) ?x = (g, x)" by force
    then have x: "pending_marker (site x) = pending_marker i" "calls i \<le> calls (site x)" "g \<noteq> Some Interrupted"
      using gentle_run[of "swap_steps le (pd_expected_version p)" ?x] steps by auto
    have r: "gentle (rmtree le App_prev)" using gentle_calls(2)[OF assms] .
    show ?thesis
      using x r gentle_roll_back[OF assms, of "pd_backup p" x] run
      by (auto simp: apply_update_def gentle_def split: option.splits prod.splits) (metis le_trans snd_conv fst_conv)+
  qed
  then show ?thesis by (simp add: gentle_def)
qed

lemma marker_calls:
  assumes "calm le"
  shows "fst (quarantine_marker le i) = None \<and> calls i < calls (snd (quarantine_marker le i))
      \<and> (pending_marker (snd (quarantine_marker le i)) = None
          \<or> pending_marker (snd (quarantine_marker le i)) = pending_marker i \<and> \<not> quiet le i)"
    and "fst (unlink_marker le i) \<noteq> Some Interrupted \<and> calls i < calls (snd (unlink_marker le i))
      \<and> (pending_marker (snd (unlink_marker le i)) = None
          \<or> pending_marker (snd (unlink_marker le i)) = pending_marker i \<and> \<not> quiet le i)"
  using assms by (auto simp: quarantine_marker_def unlink_marker_def call_def calm_def quiet_def)

lemma run_cycle_marker:
  assumes "calm le" and "run_cycle le p i = (r, j)"
  shows "r \<noteq> Inl Interrupted \<and> calls i < calls j
    \<and> (pending_marker j = None \<or> pending_marker j = pending_marker i \<and> \<not> quiet le i)"
proof -
  obtain g k where a: "apply_update le p i = (g, k)" by force
  have k: "pending_marker k = pending_marker i" "calls i \<le> calls k" "g \<noteq> Some Interrupted"
    using gentle_apply_update[OF assms(1), of p] a by (auto simp: gentle_def dest: spec[of _ i])
  have q: "quiet le i \<Longrightarrow> quiet le k" using k(2) quiet_later by blast
  show ?thesis
  proof (cases g)
    case None
    then have "fst (unlink_marker le k) = None \<and> r = Inr True \<or> (\<exists>f. fst (unlink_marker le k) = Some f \<and> r = Inl f)"
      "j = snd (unlink_marker le k)"
      using assms(2) a by (auto simp: run_cycle_def returning_def split: option.splits prod.splits)
    then show ?thesis using marker_calls(2)[OF assms(1), of k] k q by auto
  next
    case (Some f)
    then have "r = Inl f" "j = snd (quarantine_marker le k)"
      using assms(2) a marker_calls(1)[OF assms(1), of k]
      by (auto simp: run_cycle_def split: option.splits prod.splits)
    then show ?thesis using marker_calls(1)[OF assms(1), of k] k q Some by auto
  qed
qed

lemma run_once_marker:
  assumes "calm le" and "pending_marker i = Some mk" and "mk \<noteq> Marker_busy" and "run_once le py_str root i = (r, j)"
  shows "r \<noteq> Inl Interrupted \<and> calls i < calls j \<and> (pending_marker j = None \<or> pending_marker j = Some mk \<and> \<not> quiet le i)"
proof -
  let ?i = "i\<lparr>calls := calls i + 1\<rparr>"
  have q: "quiet le i \<Longrightarrow> quiet le ?i" by (simp add: quiet_def)
  have m: "pending_marker ?i = Some mk" using assms(2) by simp
  have set_aside: ?thesis if "(r, j) = returning False (quarantine_marker le ?i)"
    using that marker_calls(1)[OF assms(1), of ?i] q m
    by (cases "quarantine_marker le ?i"; cases "fst (quarantine_marker le ?i)") (auto simp: returning_def)
  have cycle: ?thesis if "(r, j) = run_cycle le p ?i" for p
    using run_cycle_marker[OF assms(1) that[symmetric]] q m by auto
  show ?thesis
  proof (cases "le_fault le (calls i)")
    case None
    have "run_once le py_str root i = returning False (quarantine_marker le ?i) \<or> (\<exists>p. run_once le py_str root i = run_cycle le p ?i)"
      using assms(2,3) None
      by (cases mk; cases "parse_pending py_str (case mk of Marker raw \<Rightarrow> raw | _ \<Rightarrow> []) root")
         (auto simp: run_once_def Let_def)
    then show ?thesis using set_aside cycle assms(4) by metis
  next
    case (Some f)
    then have "f \<noteq> Interrupted" "\<not> quiet le i" using assms(1) by (auto simp: calm_def quiet_def)
    with Some assms(2,4) show ?thesis by (auto simp: run_once_def Let_def)
  qed
qed

lemma watch_idle: "pending_marker i = None \<Longrightarrow> watch n le py_str root i = i"
  by (induction n) (simp_all add: run_once_def)


end
