(* ===== verification/Update.thy ===== *)
theory Update
  imports Launcher SyncServer
begin

text \<open>
  The self-update of a client: \<open>src/app/services/update.py\<close> and \<open>minisign_verify.py\<close>. A release is offered
  and applied only when its manifest carries a valid signature of the vendored key; the version and
  the checksum of the archive are read from that manifest. What the network answers is arbitrary.
  Ed25519, BLAKE2b, SHA-256, zip and UTF-8 decoding are parameters; a file is the text of its bytes.
  The directories, the backups and the marker are those of the launcher.
\<close>

section \<open>Base64\<close>

definition b64_value :: "char \<Rightarrow> nat option" where
  "b64_value c = (let n = ord_of c in
     if 65 \<le> n \<and> n \<le> 90 then Some (n - 65)
     else if 97 \<le> n \<and> n \<le> 122 then Some (n - 71)
     else if 48 \<le> n \<and> n \<le> 57 then Some (n + 4)
     else if n = 43 then Some 62 else if n = 47 then Some 63 else None)"

text \<open>The bytes of two, three or four digits.\<close>

fun quad_bytes :: "nat list \<Rightarrow> string" where
  "quad_bytes [a, b] = [char_of (4 * a + b div 16)]"
| "quad_bytes [a, b, c] = [char_of (4 * a + b div 16), char_of (16 * (b mod 16) + c div 4)]"
| "quad_bytes [a, b, c, d] =
     [char_of (4 * a + b div 16), char_of (16 * (b mod 16) + c div 4), char_of (64 * (c mod 4) + d)]"
| "quad_bytes _ = []"

text \<open>\<open>base64.b64decode\<close> as the library runs it without validation: foreign characters are skipped, the padding
  ends the text; \<open>None\<close> is \<open>binascii.Error\<close>.\<close>

fun b64_scan :: "string \<Rightarrow> nat list \<Rightarrow> nat \<Rightarrow> string option" where
  "b64_scan [] q pads = (if q = [] then Some [] else None)"
| "b64_scan (c # s) q pads =
     (if c = CHR ''='' then
        (if length q < 2 then b64_scan s q pads
         else if 4 \<le> length q + (pads + 1) then Some (quad_bytes q) else b64_scan s q (pads + 1))
      else case b64_value c of
          None \<Rightarrow> b64_scan s q pads
        | Some v \<Rightarrow> if length q = 3 then map_option (\<lambda>r. quad_bytes (q @ [v]) @ r) (b64_scan s [] 0)
            else b64_scan s (q @ [v]) 0)"

definition b64decode :: "string \<Rightarrow> string option" where
  "b64decode s = b64_scan s [] 0"

section \<open>Signatures\<close>

record crypto =
  ed25519_ok :: "string \<Rightarrow> string \<Rightarrow> string \<Rightarrow> bool"
  blake2b :: "string \<Rightarrow> string"
  sha256_hex :: "string \<Rightarrow> string"
  utf8 :: "string \<Rightarrow> string option"

definition text_lines :: "string \<Rightarrow> string list" where
  "text_lines t = filter (\<lambda>l. strip l \<noteq> []) (splitlines t)"

definition parse_pubkey :: "string \<Rightarrow> (string \<times> string) option" where
  "parse_pubkey t =
     (if text_lines t = [] then None
      else case b64decode (last (text_lines t)) of None \<Rightarrow> None
        | Some raw \<Rightarrow> if take 2 raw \<noteq> ''Ed'' then None else Some (take 8 (drop 2 raw), take 32 (drop 10 raw)))"

definition verify_minisign :: "crypto \<Rightarrow> string \<Rightarrow> string \<Rightarrow> string \<Rightarrow> bool" where
  "verify_minisign cr manifest sig_text pubkey_text \<longleftrightarrow>
     (case parse_pubkey pubkey_text of None \<Rightarrow> False
      | Some (key_id, public_key) \<Rightarrow>
          if length (text_lines sig_text) < 2 then False
          else case b64decode (text_lines sig_text ! 1) of None \<Rightarrow> False
            | Some raw \<Rightarrow>
                take 8 (drop 2 raw) = key_id
                \<and> ed25519_ok cr public_key (take 64 (drop 10 raw)) (if take 2 raw = ''ED'' then blake2b cr manifest else manifest))"

definition sha256_matches :: "crypto \<Rightarrow> string \<Rightarrow> string \<Rightarrow> bool" where
  "sha256_matches cr archive expected_hex \<longleftrightarrow> sha256_hex cr archive = expected_hex"

section \<open>Releases\<close>

text \<open>The answer of the release API, well-formed; a malformed one is answered like an offline one.\<close>

record release =
  rl_tag :: string
  rl_assets :: "(string \<times> string) list"
  rl_body :: "string option"

record update_env =
  ue_sqlite :: bool
  ue_version :: string
  ue_latest :: "release option"
  ue_download :: "string \<Rightarrow> string option"
  ue_pubkey :: string
  ue_crypto :: crypto

definition counter :: "string \<Rightarrow> exn + int" where
  "counter v = (let r = dropWhile (\<lambda>c. c \<noteq> CHR ''.'') v in if r = [] then Inl ValueError else int_text (tl r))"

definition is_strictly_newer :: "string \<Rightarrow> string \<Rightarrow> bool" where
  "is_strictly_newer remote installed \<longleftrightarrow>
     (case (counter remote, counter installed) of (Inr m, Inr n) \<Rightarrow> n < m | _ \<Rightarrow> False)"

definition version_shape :: "string \<Rightarrow> string \<Rightarrow> bool" where
  "version_shape pre v \<longleftrightarrow>
     (let n = length pre; v1 = (if v \<noteq> [] \<and> ord_of (last v) = 10 then butlast v else v)
      in take n v1 = pre \<and> drop n v1 \<noteq> [] \<and> list_all is_dig (drop n v1))"

definition manifest_fields :: "string \<Rightarrow> (string \<times> string) list" where
  "manifest_fields t = fold (\<lambda>raw m. let line = strip raw in
       if line = [] \<or> CHR ''='' \<notin> set line then m
       else dict_set (strip (takeWhile (\<lambda>c. c \<noteq> CHR ''='') line)) (strip (tl (dropWhile (\<lambda>c. c \<noteq> CHR ''='') line))) m)
     (splitlines t) []"

definition field :: "string \<Rightarrow> (string \<times> string) list \<Rightarrow> string" where
  "field k m = (case map_of m k of None \<Rightarrow> [] | Some v \<Rightarrow> v)"

text \<open>\<open>urlparse(url).hostname\<close>; a bracketed host is none of the allowed ones.\<close>

definition scheme_rest :: "string \<Rightarrow> string" where
  "scheme_rest url =
     (let s = takeWhile (\<lambda>c. c \<noteq> CHR '':'') url; r = dropWhile (\<lambda>c. c \<noteq> CHR '':'') url;
          alpha = (\<lambda>c. 65 \<le> ord_of c \<and> ord_of c \<le> 90 \<or> 97 \<le> ord_of c \<and> ord_of c \<le> 122)
      in if r \<noteq> [] \<and> s \<noteq> [] \<and> alpha (hd s) \<and> list_all (\<lambda>c. alpha c \<or> is_dig c \<or> c \<in> set ''+-.'') s then tl r else url)"

definition hostname :: "string \<Rightarrow> string option" where
  "hostname url =
     (let rest = scheme_rest url in
      if take 2 rest \<noteq> ''//'' then None
      else (let netloc = takeWhile (\<lambda>c. c \<notin> set ''/?#'') (drop 2 rest);
                hostinfo = rev (takeWhile (\<lambda>c. c \<noteq> CHR ''@'') (rev netloc));
                host = takeWhile (\<lambda>c. c \<noteq> CHR '':'') hostinfo
            in if CHR ''['' \<in> set hostinfo \<or> host = [] then None else Some (lower host)))"

definition ALLOWED_ASSET_HOSTS :: "string list" where
  "ALLOWED_ASSET_HOSTS = [''github.com'', ''objects.githubusercontent.com'']"

definition allowed_url :: "string \<Rightarrow> bool" where
  "allowed_url url \<longleftrightarrow> (case hostname url of None \<Rightarrow> False | Some h \<Rightarrow> h \<in> set ALLOWED_ASSET_HOSTS)"

text \<open>\<open>{a["name"]: a["browser_download_url"]}\<close>: a later asset of the same name wins, at the first one's place.\<close>

definition asset_map :: "release \<Rightarrow> (string \<times> string) list" where
  "asset_map rl = fold (\<lambda>(k, v) m. dict_set k v m) (rl_assets rl) []"

text \<open>The manifest of a release whose signature verifies, as its fields.\<close>

definition signed_manifest :: "update_env \<Rightarrow> string \<Rightarrow> string \<Rightarrow> (string \<times> string) list option" where
  "signed_manifest ue man_url sig_url =
     (case (ue_download ue man_url, ue_download ue sig_url) of
        (Some manifest, Some sig_bytes) \<Rightarrow>
          (case utf8 (ue_crypto ue) sig_bytes of None \<Rightarrow> None
           | Some sig_text \<Rightarrow>
               if \<not> verify_minisign (ue_crypto ue) manifest sig_text (ue_pubkey ue) then None
               else map_option manifest_fields (utf8 (ue_crypto ue) manifest))
      | _ \<Rightarrow> None)"

definition verified_manifest_version :: "update_env \<Rightarrow> release \<Rightarrow> (string \<times> string option) option" where
  "verified_manifest_version ue rl =
     (let man_url = field ''manifest.txt'' (asset_map rl); sig_url = field ''manifest.txt.minisig'' (asset_map rl)
      in if man_url = [] \<or> sig_url = [] then None
         else if \<not> allowed_url man_url \<or> \<not> allowed_url sig_url then None
         else case signed_manifest ue man_url sig_url of None \<Rightarrow> None
           | Some mf \<Rightarrow> if \<not> version_shape ''1.'' (field ''version'' mf) then None
               else Some (field ''version'' mf, rl_body rl))"

datatype update_status =
    Update_noop
  | Update_offline
  | Update_error
  | Update_available string "string option" string "(string \<times> string) list"
  | Up_to_date string string

definition check_for_update :: "update_env \<Rightarrow> update_status" where
  "check_for_update ue =
     (if \<not> ue_sqlite ue then Update_noop
      else case ue_latest ue of None \<Rightarrow> Update_offline
        | Some rl \<Rightarrow>
            if \<not> version_shape ''v1.'' (rl_tag rl) then Update_error
            else case verified_manifest_version ue rl of None \<Rightarrow> Update_error
              | Some (latest, notes) \<Rightarrow>
                  if is_strictly_newer latest (ue_version ue)
                  then Update_available latest notes (rl_tag rl) (asset_map rl)
                  else Up_to_date latest (rl_tag rl))"

section \<open>Applying a release\<close>

definition archive_url :: "(string \<times> string) list \<Rightarrow> string" where
  "archive_url assets = (case find (\<lambda>(name, _). endswith name ''.zip'') assets of None \<Rightarrow> [] | Some (_, url) \<Rightarrow> url)"

text \<open>The hard gate: the trusted version and the archive, downloaded only after the manifest has verified.\<close>

definition verify_release :: "update_env \<Rightarrow> release \<Rightarrow> (string \<times> string) option" where
  "verify_release ue rl =
     (let assets = asset_map rl; man_url = field ''manifest.txt'' assets;
          sig_url = field ''manifest.txt.minisig'' assets; arc_url = archive_url assets
      in if man_url = [] \<or> sig_url = [] \<or> arc_url = [] then None
         else if \<not> (allowed_url man_url \<and> allowed_url sig_url \<and> allowed_url arc_url) then None
         else case signed_manifest ue man_url sig_url of None \<Rightarrow> None
           | Some mf \<Rightarrow>
               (let version = field ''version'' mf; expected_sha = field ''sha256'' mf
                in if \<not> version_shape ''1.'' version \<or> expected_sha = [] then None
                   else if \<not> is_strictly_newer version (ue_version ue) then None
                   else case ue_download ue arc_url of None \<Rightarrow> None
                     | Some archive \<Rightarrow>
                         if sha256_matches (ue_crypto ue) archive expected_sha then Some (version, archive) else None))"

text \<open>Resolving a path: a step up removes the part before it.\<close>

definition resolve_dots :: "string list \<Rightarrow> string list" where
  "resolve_dots ps = fold (\<lambda>q acc. if q = ''..'' then butlast acc else acc @ [q]) ps []"

definition member_inside :: "win_path \<Rightarrow> string \<Rightarrow> bool" where
  "member_inside staged member \<longleftrightarrow>
     (let c = parse_path member
      in (drive c = None \<or> map_option lower (drive c) = map_option lower (drive staged))
         \<and> \<not> (2 \<le> length member \<and> is_sep (member ! 0) \<and> is_sep (member ! 1))
         \<and> is_under (parts staged) (resolve_dots (if rooted c then parts c else parts staged @ parts c)))"

text \<open>The disk of one run: what its five calls do, and the name of the backup file.\<close>

record apply_io =
  io_unzip :: "string \<Rightarrow> string list option"
  io_removed :: bool
  io_extracted :: bool
  io_backed_up :: bool
  io_written :: bool
  io_backup_name :: "string list"

text \<open>\<open>zf.namelist()\<close> is the list of members; the extracted bundle is named by its archive.\<close>

definition extract_guarded :: "apply_io \<Rightarrow> win_path \<Rightarrow> string \<Rightarrow> install \<Rightarrow> bool \<times> install" where
  "extract_guarded io base archive i =
     (case io_unzip io archive of None \<Rightarrow> (False, i)
      | Some members \<Rightarrow>
          if \<not> list_all (member_inside (base\<lparr>parts := parts base @ [''staged'']\<rparr>)) members then (False, i)
          else if io_extracted io \<and> dirs i Staged = None then (True, i\<lparr>dirs := (dirs i)(Staged := Some (Whole archive))\<rparr>)
          else (io_extracted io, i\<lparr>dirs := (dirs i)(Staged := Some (Torn archive))\<rparr>))"

definition pending_text :: "string \<Rightarrow> string \<Rightarrow> string \<Rightarrow> string" where
  "pending_text staged_rel version backup_rel = dumps (J_obj
     [(''staged_dir'', J_str staged_rel), (''expected_version'', J_str version), (''db_backup_path'', J_str backup_rel)])"

definition stage_pending :: "string \<Rightarrow> string \<Rightarrow> string \<Rightarrow> install \<Rightarrow> install" where
  "stage_pending staged_rel version backup_rel i =
     i\<lparr>pending_marker := Some (Marker (pending_text staged_rel version backup_rel))\<rparr>"

text \<open>\<open>create_backup\<close> below the install root, by \<open>VACUUM INTO\<close>: a copy of the live database or nothing.\<close>

definition create_backup_at :: "apply_io \<Rightarrow> win_path \<Rightarrow> install \<Rightarrow> bool \<times> install" where
  "create_backup_at io base i =
     (case live_db i of None \<Rightarrow> (False, i)
      | Some f \<Rightarrow> if io_backed_up io then (True, i\<lparr>backups := (backups i)(parts base @ io_backup_name io \<mapsto> f)\<rparr>) else (False, i))"

definition posix_path :: "string list \<Rightarrow> string" where
  "posix_path ps = join ''/'' ps"

datatype apply_result =
    Apply_noop
  | Apply_offline
  | Staged_update string
  | Verification_failed
  | Apply_failed

definition apply_release :: "update_env \<Rightarrow> apply_io \<Rightarrow> win_path \<Rightarrow> release option \<Rightarrow> install \<Rightarrow> apply_result \<times> install" where
  "apply_release ue io base rl0 i =
     (if \<not> ue_sqlite ue then (Apply_noop, i)
      else case (case rl0 of None \<Rightarrow> ue_latest ue | Some rl \<Rightarrow> Some rl) of
          None \<Rightarrow> (Apply_offline, i)
        | Some rl \<Rightarrow>
            (case verify_release ue rl of
               None \<Rightarrow> (Verification_failed, i)
             | Some (version, archive) \<Rightarrow>
                 (let i1 = (if io_removed io then i\<lparr>dirs := (dirs i)(Staged := None)\<rparr>
                            else i\<lparr>dirs := (dirs i)(Staged := map_option (\<lambda>t. Torn (tree_code t)) (dirs i Staged))\<rparr>)
                  in case extract_guarded io base archive i1 of
                      (False, i2) \<Rightarrow> (Apply_failed, i2)
                    | (True, i2) \<Rightarrow>
                        (case create_backup_at io base i2 of
                           (False, i3) \<Rightarrow> (Apply_failed, i3)
                         | (True, i3) \<Rightarrow>
                             if io_written io
                             then (Staged_update version, stage_pending ''staged'' version (posix_path (io_backup_name io)) i3)
                             else (Apply_failed, i3)))))"

text \<open>The caption of the panel after a click on apply.\<close>

definition apply_outcome :: "apply_result \<Rightarrow> string option" where
  "apply_outcome r = (case r of Staged_update _ \<Rightarrow> Some ''applying'' | Verification_failed \<Rightarrow> Some ''verification_failed''
     | Apply_failed \<Rightarrow> Some ''rollback'' | _ \<Rightarrow> None)"

section \<open>Only what was signed\<close>

text \<open>An archive whose checksum stands in a manifest that the vendored key has signed, for a version.\<close>

definition genuine :: "crypto \<Rightarrow> string \<Rightarrow> string \<Rightarrow> string \<Rightarrow> bool" where
  "genuine cr pubkey version archive \<longleftrightarrow>
     (\<exists>manifest sig_text t. verify_minisign cr manifest sig_text pubkey \<and> utf8 cr manifest = Some t
        \<and> field ''version'' (manifest_fields t) = version \<and> field ''sha256'' (manifest_fields t) = sha256_hex cr archive)"

lemma verify_release_genuine:
  "verify_release ue rl = Some (v, a) \<Longrightarrow> genuine (ue_crypto ue) (ue_pubkey ue) v a
     \<and> is_strictly_newer v (ue_version ue) \<and> version_shape ''1.'' v"
  by (auto simp: verify_release_def signed_manifest_def genuine_def sha256_matches_def Let_def
      split: if_splits option.splits)

lemma apply_release_cases:
  assumes "apply_release ue io base rl i = (r, j)"
  shows "(\<exists>v a f t. r = Staged_update v \<and> genuine (ue_crypto ue) (ue_pubkey ue) v a
        \<and> is_strictly_newer v (ue_version ue)
        \<and> dirs j Staged = Some t \<and> tree_code t = a \<and> (io_removed io \<longrightarrow> t = Whole a)
        \<and> live_db i = Some f \<and> backups j (parts base @ io_backup_name io) = Some f
        \<and> dirs j App = dirs i App \<and> orphans j = orphans i \<and> live_db j = live_db i
        \<and> pending_marker j = Some (Marker (pending_text ''staged'' v (posix_path (io_backup_name io)))))
    \<or> ((\<forall>v. r \<noteq> Staged_update v) \<and> pending_marker j = pending_marker i)"
proof (cases "\<exists>v. r = Staged_update v")
  case True
  then obtain v where r: "r = Staged_update v" ..
  with assms obtain rl1 a i2 i3 where v: "verify_release ue rl1 = Some (v, a)"
    and x: "extract_guarded io base a (if io_removed io then i\<lparr>dirs := (dirs i)(Staged := None)\<rparr>
        else i\<lparr>dirs := (dirs i)(Staged := map_option (\<lambda>t. Torn (tree_code t)) (dirs i Staged))\<rparr>) = (True, i2)"
    and b: "create_backup_at io base i2 = (True, i3)"
    and j: "j = stage_pending ''staged'' v (posix_path (io_backup_name io)) i3"
    by (auto simp: apply_release_def Let_def split: if_splits option.splits bool.splits prod.splits)
  have live: "live_db i2 = live_db i" "dirs i2 App = dirs i App" "orphans i2 = orphans i" and "\<exists>t. dirs i2 Staged = Some t \<and> tree_code t = a \<and> (io_removed io \<longrightarrow> t = Whole a)"
    using x by (auto simp: extract_guarded_def tree_code_def split: option.splits if_splits)
  then obtain t where t: "dirs i2 Staged = Some t" "tree_code t = a" "io_removed io \<longrightarrow> t = Whole a" by blast
  from b obtain f where f: "live_db i2 = Some f" "i3 = i2\<lparr>backups := (backups i2)(parts base @ io_backup_name io \<mapsto> f)\<rparr>"
    by (auto simp: create_backup_at_def split: option.splits if_splits)
  from live(1) f(1) have "live_db i = Some f" by simp
  moreover have "dirs j Staged = Some t" "backups j (parts base @ io_backup_name io) = Some f"
    "pending_marker j = Some (Marker (pending_text ''staged'' v (posix_path (io_backup_name io))))"
    "dirs j App = dirs i App" "orphans j = orphans i" "live_db j = live_db i"
    using t(1) f(2) j live by (simp_all add: stage_pending_def)
  ultimately show ?thesis using r t verify_release_genuine[OF v] by blast
next
  case False
  then have "pending_marker j = pending_marker i"
    using assms by (auto simp: apply_release_def extract_guarded_def create_backup_at_def Let_def
        split: if_splits option.splits bool.splits prod.splits)
  with False show ?thesis by blast
qed

text \<open>Nothing unsigned is ever staged: whatever the network serves, the marker that makes the launcher act is only
  written when a manifest signed with the vendored key names the version and the checksum of the archive
  that was unpacked, the version is strictly newer than the installed one, and a copy of the live database
  is in the backups under the name the marker gives; in every other case the marker is left as it was.\<close>

theorem staged_is_signed:
  assumes "apply_release ue io base rl i = (r, j)"
  shows "(\<exists>v a f t. r = Staged_update v \<and> genuine (ue_crypto ue) (ue_pubkey ue) v a
        \<and> is_strictly_newer v (ue_version ue)
        \<and> dirs j Staged = Some t \<and> tree_code t = a \<and> (io_removed io \<longrightarrow> t = Whole a)
        \<and> live_db i = Some f \<and> backups j (parts base @ io_backup_name io) = Some f
        \<and> pending_marker j = Some (Marker (pending_text ''staged'' v (posix_path (io_backup_name io)))))
    \<or> ((\<forall>v. r \<noteq> Staged_update v) \<and> pending_marker j = pending_marker i)"
  using apply_release_cases[OF assms] by blast

section \<open>Whatever runs was signed\<close>

text \<open>A client over time: it applies what any network serves, and the launcher ticks, under any failures.\<close>

inductive evolves :: "crypto \<Rightarrow> string \<Rightarrow> install \<Rightarrow> install \<Rightarrow> bool" for cr pubkey i where
  start: "evolves cr pubkey i i"
| applied: "evolves cr pubkey i j \<Longrightarrow> ue_crypto ue = cr \<Longrightarrow> ue_pubkey ue = pubkey
     \<Longrightarrow> apply_release ue io base rl j = (r, k) \<Longrightarrow> evolves cr pubkey i k"
| ticked: "evolves cr pubkey i j \<Longrightarrow> run_once le py_str base j = (q, k) \<Longrightarrow> evolves cr pubkey i k"
| stopped: "evolves cr pubkey i j \<Longrightarrow> stop_app le j = (q, k) \<Longrightarrow> evolves cr pubkey i k"
| booted: "evolves cr pubkey i j \<Longrightarrow> boot le j = (q, k) \<Longrightarrow> evolves cr pubkey i k"

text \<open>Every bundle on the disk or in memory is one of a set.\<close>

definition bundles_in :: "string set \<Rightarrow> install \<Rightarrow> bool" where
  "bundles_in S i \<longleftrightarrow> (\<forall>x t. dirs i x = Some t \<longrightarrow> tree_code t \<in> S) \<and> (\<forall>c. child i = Some c \<longrightarrow> c \<in> S) \<and> set (orphans i) \<subseteq> S"

lemma tree_code_simps [simp]: "tree_code (Whole c) = c" "tree_code (Torn c) = c"
  by (simp_all add: tree_code_def)

lemma bundles_calls:
  assumes "bundles_in S i"
  shows "bundles_in S (snd (os_replace le a b i))" "bundles_in S (snd (rmtree le x i))" "bundles_in S (snd (stop_app le i))"
    "bundles_in S (snd (start_app le i))" "bundles_in S (snd (migrate le i))" "bundles_in S (snd (require_health le v i))"
    "bundles_in S (snd (backup_restore le q i))" "bundles_in S (snd (skip i))" "bundles_in S (snd (notify nt i))"
proof -
  show "bundles_in S (snd (os_replace le a b i))" using assms by (auto simp: bundles_in_def os_replace_def call_def)
  show "bundles_in S (snd (rmtree le x i))" using assms
    by (auto simp: bundles_in_def rmtree_def call_def Let_def split: option.split failure.split)
  show "bundles_in S (snd (stop_app le i))" using assms
    by (auto simp: bundles_in_def stop_app_def wait_child_def call_def lost_def split: option.split)
  show "bundles_in S (snd (start_app le i))" using assms
    by (auto simp: bundles_in_def start_app_def call_def lost_def split: option.split)
qed (use assms in \<open>auto simp: bundles_in_def migrate_def require_health_def health_ok_def backup_restore_def skip_def
    notify_def call_def Let_def split: option.split\<close>)

lemma bundles_attempt:
  "(\<And>i. bundles_in S i \<Longrightarrow> bundles_in S (snd (s i))) \<Longrightarrow> (\<And>ok i. bundles_in S i \<Longrightarrow> bundles_in S (snd (k ok i)))
     \<Longrightarrow> bundles_in S i \<Longrightarrow> bundles_in S (snd (attempt s k i))"
  by (simp add: attempt_eq)

lemma bundles_roll_back: "bundles_in S (site x) \<Longrightarrow> bundles_in S (snd (roll_back le b x))"
  unfolding roll_back_def park_def restore_db_def
  by (intro bundles_attempt)
     (auto simp: restore_code_def bundles_calls intro!: bundles_attempt)

lemma bundles_run:
  assumes "\<And>s x. s \<in> set ss \<Longrightarrow> bundles_in S (site x) \<Longrightarrow> bundles_in S (site (snd (s x)))"
  shows "bundles_in S (site x) \<Longrightarrow> bundles_in S (site (snd (run_steps ss x)))"
  using assms by (induction ss arbitrary: x) (auto simp: run_steps_Cons simp del: run_steps.simps(2))

lemma bundles_apply_update: "bundles_in S i \<Longrightarrow> bundles_in S (snd (apply_update le p i))"
proof -
  assume i: "bundles_in S i"
  let ?x = "\<lparr>prev_renamed = False, staged_swapped = False, migrate_attempted = False, site = i\<rparr>"
  obtain g x where run: "run_steps (swap_steps le (pd_expected_version p)) ?x = (g, x)" by force
  have "bundles_in S (site (snd (run_steps (swap_steps le (pd_expected_version p)) ?x)))"
    by (rule bundles_run) (auto simp: swap_steps_def on_site_def assign_def split_beta bundles_calls i)
  then have x: "bundles_in S (site x)" using run by simp
  then show ?thesis using i run bundles_calls(2)[OF x, of le App_prev] bundles_roll_back[OF x, of le "pd_backup p"]
    by (auto simp: apply_update_def split: option.split prod.split)
qed

lemma bundles_marker_calls:
  "bundles_in S i \<Longrightarrow> bundles_in S (snd (quarantine_marker le i))" "bundles_in S i \<Longrightarrow> bundles_in S (snd (unlink_marker le i))"
  "bundles_in S i \<Longrightarrow> bundles_in S (i\<lparr>calls := n\<rparr>)"
  by (auto simp: bundles_in_def quarantine_marker_def unlink_marker_def call_def)

lemma snd_returning [simp]: "snd (returning b ri) = snd ri"
  by (auto simp: returning_def split: prod.split option.split)

lemma bundles_run_cycle: "bundles_in S i \<Longrightarrow> bundles_in S (snd (run_cycle le p i))"
  using bundles_apply_update[of S i le p] bundles_marker_calls
  by (auto simp: run_cycle_def split: prod.split option.split) (metis snd_conv)+

lemma bundles_run_once:
  assumes "bundles_in S i"
  shows "bundles_in S (snd (run_once le py_str base i))"
proof (cases "pending_marker i")
  case (Some m)
  then show ?thesis using assms bundles_run_cycle[OF bundles_marker_calls(3)[OF assms]] bundles_marker_calls
    by (cases m) (auto simp: run_once_def Let_def split: sum.split)
qed (use assms in \<open>simp add: run_once_def\<close>)

lemma bundles_staging:
  assumes "bundles_in S i"
  shows "a \<in> S \<Longrightarrow> bundles_in S (snd (extract_guarded io base a i))" "bundles_in S (snd (create_backup_at io base i))"
    "bundles_in S (stage_pending u v w i)" "bundles_in S (i\<lparr>dirs := (dirs i)(Staged := None)\<rparr>)"
    "bundles_in S (i\<lparr>dirs := (dirs i)(Staged := map_option (\<lambda>t. Torn (tree_code t)) (dirs i Staged))\<rparr>)"
  using assms
  by (auto simp: bundles_in_def extract_guarded_def create_backup_at_def stage_pending_def split: option.split)

lemma bundles_apply_release:
  assumes i: "bundles_in S i" and a: "apply_release ue io base rl i = (r, k)"
    and "\<And>v a. genuine (ue_crypto ue) (ue_pubkey ue) v a \<Longrightarrow> a \<in> S"
  shows "bundles_in S k"
proof -
  let ?i1 = "if io_removed io then i\<lparr>dirs := (dirs i)(Staged := None)\<rparr>
      else i\<lparr>dirs := (dirs i)(Staged := map_option (\<lambda>t. Torn (tree_code t)) (dirs i Staged))\<rparr>"
  have i1: "bundles_in S ?i1" using bundles_staging(4,5)[OF i] by simp
  have v: "arc \<in> S" if "verify_release ue rl1 = Some (v, arc)" for rl1 v arc
    using verify_release_genuine[OF that] assms(3) by blast
  from a consider "k = i" | rl1 v arc where "verify_release ue rl1 = Some (v, arc)"
      "k \<in> {snd (extract_guarded io base arc ?i1), snd (create_backup_at io base (snd (extract_guarded io base arc ?i1))),
        stage_pending ''staged'' v (posix_path (io_backup_name io)) (snd (create_backup_at io base (snd (extract_guarded io base arc ?i1))))}"
    by (auto simp: apply_release_def Let_def split: if_splits option.splits bool.splits prod.splits)
  then show ?thesis
  proof cases
    case 1
    then show ?thesis using i by simp
  next
    case (2 rl1 v arc)
    note x = bundles_staging(1)[OF i1 v[OF 2(1)], of io base]
    note b = bundles_staging(2)[OF x, of io base]
    show ?thesis using 2(2) x b bundles_staging(3)[OF b] by blast
  qed
qed

text \<open>C10: whatever the network serves and whatever calls fail, at every moment of a client's life each bundle in a
  directory and each running process is one the install began with or an archive whose checksum
  stands in a manifest signed with the vendored key.\<close>

theorem only_genuine_code_runs:
  assumes "evolves cr pubkey i j" and "bundles_in S i"
  shows "bundles_in (S \<union> {a. \<exists>v. genuine cr pubkey v a}) j"
  using assms(1)
proof induction
  case start
  show ?case using assms(2) by (fastforce simp: bundles_in_def)
next
  case (applied j ue io base rl r k)
  show ?case by (rule bundles_apply_release[OF applied.IH applied.hyps(4)]) (use applied.hyps(2,3) in auto)
next
  case (ticked j le py_str base q k)
  then show ?case using bundles_run_once by (metis snd_conv)
next
  case (stopped j le q k)
  then show ?case using bundles_calls(3) by (metis snd_conv)
next
  case (booted j le q k)
  then have "k = snd (boot le j)" by simp
  then show ?case using booted.IH bundles_calls(4,5)
    by (auto simp: boot_def split: prod.split option.split) (metis snd_conv)+
qed

section \<open>The marker is read as it was written\<close>

text \<open>A part of a path as the services name files: no separator, no dots alone, no colon.\<close>

definition plain_part :: "string \<Rightarrow> bool" where
  "plain_part q \<longleftrightarrow> q \<noteq> [] \<and> q \<noteq> ''.'' \<and> q \<noteq> ''..'' \<and> list_all (\<lambda>c. \<not> is_sep c \<and> c \<noteq> CHR '':'') q"

lemma split_parts_run:
  "list_all (\<lambda>c. \<not> is_sep c) q \<Longrightarrow> split_parts acc (q @ s) = split_parts (rev q @ acc) s"
  by (induction q arbitrary: acc) auto

lemma split_parts_part:
  assumes "plain_part q"
  shows "split_parts [] q = [q]" "split_parts [] (q @ CHR ''/'' # s) = q # split_parts [] s"
proof -
  have "list_all (\<lambda>c. \<not> is_sep c) q" using assms by (simp add: plain_part_def list_all_iff)
  moreover have "rev q \<noteq> []" "rev q \<noteq> ''.''" using assms by (auto simp: plain_part_def)
  ultimately show "split_parts [] q = [q]" "split_parts [] (q @ CHR ''/'' # s) = q # split_parts [] s"
    using split_parts_run[of q "[]" "[]"] split_parts_run[of q "[]" "CHR ''/'' # s"] by (simp_all add: is_sep_def)
qed

lemma split_parts_path: "list_all plain_part ps \<Longrightarrow> split_parts [] (posix_path ps) = ps"
proof (induction ps)
  case (Cons q ps)
  show ?case
  proof (cases "ps = []")
    case True
    then show ?thesis using Cons.prems split_parts_part by (simp add: posix_path_def)
  next
    case False
    then have "posix_path (q # ps) = q @ CHR ''/'' # posix_path ps" by (simp add: posix_path_def join_Cons)
    then show ?thesis using Cons split_parts_part(2) by simp
  qed
qed (simp add: posix_path_def join_def)

lemma parse_posix:
  assumes "list_all plain_part ps" and "ps \<noteq> []"
  shows "parse_path (posix_path ps) = \<lparr>drive = None, rooted = False, parts = ps\<rparr>"
    "\<not> (2 \<le> length (posix_path ps) \<and> is_sep (posix_path ps ! 0) \<and> is_sep (posix_path ps ! 1))"
proof -
  obtain q qs where ps: "ps = q # qs" using assms(2) by (cases ps) auto
  obtain r where r: "posix_path ps = q @ r" "r = [] \<or> hd r = CHR ''/''"
    by (cases qs) (auto simp: ps posix_path_def join_def)
  have q: "q \<noteq> []" "list_all (\<lambda>c. \<not> is_sep c \<and> c \<noteq> CHR '':'') q" using assms(1) ps by (auto simp: plain_part_def)
  then have h: "posix_path ps \<noteq> []" "\<not> is_sep (posix_path ps ! 0)" using r(1) by (cases q; simp)+
  have "posix_path ps ! 1 \<noteq> CHR '':''" if "2 \<le> length (posix_path ps)"
  proof (cases "length q = 1")
    case True
    then have ne: "r \<noteq> []" using r(1) that by auto
    then have "posix_path ps ! 1 = hd r" using r(1) True by (simp add: nth_append hd_conv_nth)
    with ne show ?thesis using r(2) by auto
  next
    case False
    then have "1 < length q" using q(1) by (cases q) auto
    then show ?thesis using q(2) r(1) by (auto simp: nth_append list_all_length)
  qed
  then show "parse_path (posix_path ps) = \<lparr>drive = None, rooted = False, parts = ps\<rparr>"
    using h split_parts_path[OF assms(1)] by (auto simp: parse_path_def Let_def hd_conv_nth)
  show "\<not> (2 \<le> length (posix_path ps) \<and> is_sep (posix_path ps ! 0) \<and> is_sep (posix_path ps ! 1))" using h by simp
qed

lemma is_under_append: "is_under xs (xs @ ys)"
  by (simp add: is_under_def same_names_def)

lemma confine_posix:
  "list_all plain_part ps \<Longrightarrow> ps \<noteq> [] \<Longrightarrow> confine base (posix_path ps) = Inr (parts base @ ps)"
  using parse_posix[of ps] by (auto simp: confine_def Let_def is_under_append plain_part_def list_all_iff)

lemma pending_roundtrip:
  assumes "list_all plain_part name" and "name \<noteq> []"
  shows "parse_pending py_str (pending_text ''staged'' v (posix_path name)) base =
    Inr \<lparr>pd_staged_dir = parts base @ [''staged''], pd_expected_version = v, pd_backup = parts base @ name\<rparr>"
proof -
  let ?obj = "[(''staged_dir'', J_str ''staged''), (''expected_version'', J_str v), (''db_backup_path'', J_str (posix_path name))]"
  have l: "loads (pending_text ''staged'' v (posix_path name)) = Some (J_obj ?obj)"
    unfolding pending_text_def by (rule loads_dumps) simp
  have s: "confine base ''staged'' = Inr (parts base @ [''staged''])"
    using confine_posix[of "[''staged'']" base] by (simp add: posix_path_def plain_part_def is_sep_def)
  have keys: "set (map fst ?obj) = set REQUIRED_KEYS" by (auto simp: REQUIRED_KEYS_def)
  have g: "jget ''staged_dir'' ?obj = J_str ''staged''" "jget ''expected_version'' ?obj = J_str v"
    "jget ''db_backup_path'' ?obj = J_str (posix_path name)"
    by (simp_all add: jget_def)
  show ?thesis
    unfolding parse_pending_def l using keys g s confine_posix[OF assms, of base] by (simp add: text_of_def)
qed

text \<open>A round in which nothing fails either installs the bundle or rolls it back, and consumes the marker.\<close>

lemma faultless_cycle:
  assumes nf: "\<And>k. le_fault le k = None \<and> le_copy le k = None" and cyc: "run_cycle le p i = (q, k)"
    and st: "dirs i App = Some (Whole c)" "dirs i Staged = Some (Whole a)" "orphans i = []"
      "backups i (pd_backup p) = Some f" "live_db i = Some f"
  shows "pending_marker k = None \<and>
    (if le_serves le a = pd_expected_version p
     then q = Inr True \<and> dirs k App = Some (Whole a) \<and> child k = Some a
       \<and> live_db k = map_option (\<lambda>f. le_work le a (le_migrate le a f)) (live_db i)
     else (\<exists>f. q = Inl f) \<and> dirs k App = Some (Whole c) \<and> child k = Some c \<and> live_db k = live_db i)"
proof -
  obtain r i2 where up: "apply_update le p i = (r, i2)" by force
  have marks: "fst (unlink_marker le i2) = None" "pending_marker (snd (unlink_marker le i2)) = None"
    "fst (quarantine_marker le i2) = None" "pending_marker (snd (quarantine_marker le i2)) = None"
    "dirs (snd (unlink_marker le i2)) = dirs i2" "child (snd (unlink_marker le i2)) = child i2"
    "live_db (snd (unlink_marker le i2)) = live_db i2"
    "dirs (snd (quarantine_marker le i2)) = dirs i2" "child (snd (quarantine_marker le i2)) = child i2"
    "live_db (snd (quarantine_marker le i2)) = live_db i2"
    using nf by (simp_all add: unlink_marker_def quarantine_marker_def call_def)
  have q: "(r = None \<longrightarrow> q = Inr True \<and> k = snd (unlink_marker le i2))
      \<and> (r \<noteq> None \<longrightarrow> (\<exists>f. q = Inl f) \<and> k = snd (quarantine_marker le i2))"
    using cyc up marks(1,3) by (auto simp: run_cycle_def returning_def split: option.splits prod.splits)
  have "one_fault le 0" "\<And>k. le_copy le k = None" "le_serves le a = pd_expected_version p \<or> le_fault le 0 = None"
    using nf by (simp_all add: one_fault_def)
  from apply_one_fault[OF up this st(1-4)]
  have "(dirs i2 App = Some (Whole a) \<and> child i2 = Some a \<and> le_serves le a = pd_expected_version p
        \<and> live_db i2 = map_option (\<lambda>f. le_work le a (le_migrate le a f)) (live_db i) \<and> r = None)
    \<or> (r \<noteq> None \<and> le_serves le a \<noteq> pd_expected_version p \<and> dirs i2 App = Some (Whole c) \<and> child i2 = Some c \<and> live_db i2 = live_db i)"
    using nf[of 0] st(5) by metis
  then show ?thesis
  proof
    assume e: "dirs i2 App = Some (Whole a) \<and> child i2 = Some a \<and> le_serves le a = pd_expected_version p
        \<and> live_db i2 = map_option (\<lambda>f. le_work le a (le_migrate le a f)) (live_db i) \<and> r = None"
    then have "q = Inr True" "k = snd (unlink_marker le i2)" using q by auto
    then show ?thesis using e marks(2,5-7) by simp
  next
    assume e: "r \<noteq> None \<and> le_serves le a \<noteq> pd_expected_version p \<and> dirs i2 App = Some (Whole c) \<and> child i2 = Some c \<and> live_db i2 = live_db i"
    then have "\<exists>f. q = Inl f" "k = snd (quarantine_marker le i2)" using q by auto
    then show ?thesis using e marks(4,8-10) by simp
  qed
qed

text \<open>C13: a staged update is installed: when applying a release has staged it and no call of the launcher fails, the
  next round swaps the unpacked bundle in, migrates the database, runs the bundle if it serves the
  version that was signed and consumes the marker; a bundle that serves another version is rolled back
  to the old one on the backup taken before.\<close>

theorem staged_update_installs:
  assumes "apply_release ue io base rl i = (Staged_update v, j)" and "io_removed io" and "list_all plain_part (io_backup_name io)"
    and "io_backup_name io \<noteq> []" and "dirs i App = Some (Whole c)" and "orphans i = []"
    and "\<And>k. le_fault le k = None \<and> le_copy le k = None" and "run_once le py_str base j = (q, k)"
  shows "pending_marker k = None \<and>
    (\<exists>a. genuine (ue_crypto ue) (ue_pubkey ue) v a \<and>
      (if le_serves le a = v
       then q = Inr True \<and> dirs k App = Some (Whole a) \<and> child k = Some a
         \<and> live_db k = map_option (\<lambda>f. le_work le a (le_migrate le a f)) (live_db i)
       else (\<exists>f. q = Inl f) \<and> dirs k App = Some (Whole c) \<and> child k = Some c \<and> live_db k = live_db i))"
proof -
  obtain a f where st: "genuine (ue_crypto ue) (ue_pubkey ue) v a" "dirs j Staged = Some (Whole a)" "live_db i = Some f"
    "backups j (parts base @ io_backup_name io) = Some f" "dirs j App = Some (Whole c)" "orphans j = []" "live_db j = live_db i"
    "pending_marker j = Some (Marker (pending_text ''staged'' v (posix_path (io_backup_name io))))"
    using apply_release_cases[OF assms(1)] assms(2,5,6) by auto
  let ?p = "\<lparr>pd_staged_dir = parts base @ [''staged''], pd_expected_version = v, pd_backup = parts base @ io_backup_name io\<rparr>"
  let ?j = "j\<lparr>calls := calls j + 1\<rparr>"
  have "run_once le py_str base j = run_cycle le ?p ?j"
    using st(2,8) assms(7)[of "calls j"] pending_roundtrip[OF assms(3,4), of py_str v base]
    by (simp add: run_once_def Let_def same_names_def)
  then have "run_cycle le ?p ?j = (q, k)" using assms(8) by simp
  from faultless_cycle[OF assms(7) this, of c a f] st show ?thesis by (intro conjI exI[of _ a]) simp_all
qed

end
