(* ===== verification/Backups.thy ===== *)
theory Backups
  imports Customers Warehouses SyncServer "HOL-Library.Multiset"
begin

text \<open>
  The snapshot folder of \<open>src/app/services/backup.py\<close> and the settings page of
  \<open>src/app/services/settings.py\<close> and \<open>src/app/routes/settings.py\<close>. A folder is the list of its files in
  the order the system lists them; a modification time is in microseconds. \<open>VACUUM INTO\<close> is a flag
  that tells whether it succeeded. The unit of a size label is transliterated.
\<close>

section \<open>The folder\<close>

record backup_file =
  bk_name :: string
  bk_mtime :: int
  bk_size :: nat

definition is_backup :: "backup_file \<Rightarrow> bool" where
  "is_backup f \<longleftrightarrow> startswith (bk_name f) ''myorishop-'' \<and> endswith (bk_name f) ''.db'' \<and> 13 \<le> length (bk_name f)"

text \<open>The name with the counter of the loop; 1 is the name without a suffix.\<close>

definition backup_name :: "string \<Rightarrow> nat \<Rightarrow> string" where
  "backup_name stamp k = ''myorishop-'' @ stamp @ (if k < 2 then [] else ''-'' @ show_nat k) @ ''.db''"

text \<open>\<open>while target.exists()\<close>; one round for each file of the folder and one more is enough.\<close>

fun free_name :: "nat \<Rightarrow> string set \<Rightarrow> string \<Rightarrow> nat \<Rightarrow> string option" where
  "free_name 0 names stamp k = None"
| "free_name (Suc n) names stamp k =
     (if backup_name stamp k \<in> names then free_name n names stamp (k + 1) else Some (backup_name stamp k))"

definition target_name :: "backup_file list \<Rightarrow> string \<Rightarrow> string option" where
  "target_name folder stamp = free_name (length folder + 1) (bk_name ` set folder) stamp 1"

text \<open>A failed copy is unlinked again.\<close>

definition create_backup :: "bool \<Rightarrow> string \<Rightarrow> int \<Rightarrow> nat \<Rightarrow> backup_file list \<Rightarrow> string option \<times> backup_file list" where
  "create_backup vacuumed stamp mtime size_bytes folder =
     (case target_name folder stamp of
        None \<Rightarrow> (None, folder)
      | Some target \<Rightarrow>
          if vacuumed then (Some target, folder @ [\<lparr>bk_name = target, bk_mtime = mtime, bk_size = size_bytes\<rparr>])
          else (None, folder))"

definition oldest_first :: "backup_file list \<Rightarrow> backup_file list" where
  "oldest_first folder = sort_key bk_mtime (filter is_backup folder)"

definition doomed :: "int \<Rightarrow> backup_file list \<Rightarrow> backup_file list" where
  "doomed keep folder =
     (let files = oldest_first folder in if 0 < keep then take (length files - nat keep) files else files)"

definition prune_backups :: "int \<Rightarrow> backup_file list \<Rightarrow> backup_file list" where
  "prune_backups keep folder = filter (\<lambda>f. bk_name f \<notin> bk_name ` set (doomed keep folder)) folder"

text \<open>\<open>f"{size / 2 ** 20:.1f}"\<close> with a comma: the quotient is exact, the tie goes to the even digit.\<close>

definition size_label :: "nat \<Rightarrow> string" where
  "size_label n =
     (if n < 1024 * 1024 then show_nat (max 1 (n div 1024)) @ '' KB''
      else (let m = 1024 * 1024; q = 10 * n div m; r = 10 * n mod m;
                t = (if m < 2 * r \<or> m = 2 * r \<and> odd q then q + 1 else q)
            in show_nat (t div 10) @ '','' @ show_nat (t mod 10) @ '' MB''))"

definition list_backups :: "backup_file list \<Rightarrow> (string \<times> string \<times> string) list" where
  "list_backups folder = map (\<lambda>f. (bk_name f, utc_iso_seconds (bk_mtime f), size_label (bk_size f)))
     (sort_reverse bk_mtime (filter is_backup folder))"

record backup_settings =
  bs_on_startup :: bool
  bs_db_exists :: bool
  bs_sqlite :: bool
  bs_keep :: int

definition db_has_data :: "db \<Rightarrow> bool" where
  "db_has_data d \<longleftrightarrow> products d \<noteq> [] \<or> operations d \<noteq> []"

text \<open>\<open>None\<close> for the database is one whose tables cannot be read.\<close>

definition startup_backup ::
  "backup_settings \<Rightarrow> db option \<Rightarrow> bool \<Rightarrow> string \<Rightarrow> int \<Rightarrow> nat \<Rightarrow> backup_file list \<Rightarrow> string option \<times> backup_file list" where
  "startup_backup s d vacuumed stamp mtime size_bytes folder =
     (if \<not> bs_on_startup s \<or> \<not> bs_db_exists s \<or> \<not> bs_sqlite s then (None, folder)
      else if (case d of None \<Rightarrow> True | Some x \<Rightarrow> \<not> db_has_data x) then (None, folder)
      else case create_backup vacuumed stamp mtime size_bytes folder of
          (None, f1) \<Rightarrow> (None, f1)
        | (Some p, f1) \<Rightarrow> (Some p, prune_backups (bs_keep s) f1))"

section \<open>The settings page\<close>

record summary =
  sm_warehouses :: int
  sm_last_backup :: "string option"
  sm_auto_enabled :: bool
  sm_auto_interval :: int
  sm_server_url :: string

definition settings_summary :: "bool \<Rightarrow> string \<Rightarrow> backup_file list \<Rightarrow> world \<Rightarrow> summary \<times> world" where
  "settings_summary sqlite server_url folder w =
     (let n = fst (snd (list_warehouses (cur w) [] [] [] [] 0));
          last_iso = (case list_backups folder of [] \<Rightarrow> None | (_, created, _) # _ \<Rightarrow> Some created);
          ((enabled, interval), d) = read_autosync_config sqlite (cur w)
      in (\<lparr>sm_warehouses = n, sm_last_backup = last_iso, sm_auto_enabled = enabled, sm_auto_interval = interval,
           sm_server_url = server_url\<rparr>, w\<lparr>cur := d\<rparr>))"

definition save_autosync_config :: "bool \<Rightarrow> bool \<Rightarrow> int \<Rightarrow> world \<Rightarrow> exn option \<times> world" where
  "save_autosync_config sqlite enabled interval w =
     (let (row, d) = get_or_create_sync_state sqlite (cur w)
      in commit (w\<lparr>cur := d\<lparr>sync_states := tupd ss_id 1 (\<lambda>r. r\<lparr>ss_auto_enabled := (if enabled then 1 else 0),
           ss_auto_interval_seconds := clamp_interval (Some interval)\<rparr>) (sync_states d)\<rparr>\<rparr>))"

text \<open>\<open>POST /settings/sync\<close>: an interval that is no number is the default.\<close>

definition settings_save_sync ::
  "bool \<Rightarrow> string \<Rightarrow> backup_file list \<Rightarrow> string \<Rightarrow> string \<Rightarrow> world \<Rightarrow> summary \<times> world" where
  "settings_save_sync sqlite server_url folder auto_enabled auto_interval w =
     (let enabled = lower (strip auto_enabled) \<in> {''on'', ''true'', ''1'', ''yes''};
          interval = (case int_text auto_interval of Inl _ \<Rightarrow> DEFAULT_INTERVAL_SECONDS | Inr n \<Rightarrow> n);
          w1 = snd (save_autosync_config sqlite enabled interval w)
      in settings_summary sqlite server_url folder w1)"

section \<open>Retention\<close>

lemma show_nat_inject: "show_nat m = show_nat n \<Longrightarrow> m = n"
  by (metis show_nat_val)

lemma backup_name_inject: "1 \<le> j \<Longrightarrow> 1 \<le> k \<Longrightarrow> backup_name stamp j = backup_name stamp k \<Longrightarrow> j = k"
  by (auto simp: backup_name_def split: if_splits dest: show_nat_inject)

lemma free_name_Some: "free_name n names stamp k = Some t \<Longrightarrow> t \<notin> names \<and> (\<exists>j \<ge> k. t = backup_name stamp j)"
proof (induction n arbitrary: k)
  case (Suc n)
  show ?case
  proof (cases "backup_name stamp k \<in> names")
    case True
    with Suc.IH[of "k + 1"] Suc.prems show ?thesis by (auto dest: Suc_leD)
  next
    case False
    with Suc.prems show ?thesis by auto
  qed
qed simp

text \<open>Out of fuel, every candidate so far is a name of the folder: more names than there are files.\<close>

lemma free_name_None: "free_name n names stamp k = None \<Longrightarrow> backup_name stamp ` {k..<k + n} \<subseteq> names"
proof (induction n arbitrary: k)
  case (Suc n)
  then have b: "backup_name stamp k \<in> names" and "free_name n names stamp (k + 1) = None"
    by (auto split: if_splits)
  then have r: "backup_name stamp ` {k + 1..<k + 1 + n} \<subseteq> names" using Suc.IH[of "k + 1"] by blast
  have "{k..<k + Suc n} = insert k {k + 1..<k + 1 + n}" by auto
  with b r show ?case by (metis image_insert insert_subset)
qed simp

lemma target_name_exists: "\<exists>t. target_name folder stamp = Some t \<and> t \<notin> bk_name ` set folder"
proof (cases "target_name folder stamp")
  case None
  let ?n = "length folder + 1"
  have "backup_name stamp ` {1..<1 + ?n} \<subseteq> bk_name ` set folder"
    using None free_name_None unfolding target_name_def by blast
  then have "card (backup_name stamp ` {1..<1 + ?n}) \<le> card (bk_name ` set folder)" by (intro card_mono) auto
  moreover have "inj_on (backup_name stamp) {1..<1 + ?n}" by (rule inj_onI) (rule backup_name_inject[of _ _ stamp], auto)
  ultimately have "?n \<le> card (bk_name ` set folder)" by (simp add: card_image)
  also have "\<dots> \<le> length folder" by (metis card_length length_map list.set_map)
  finally show ?thesis by simp
next
  case (Some t)
  then show ?thesis using free_name_Some unfolding target_name_def by blast
qed

lemma insort_key_last: "k a \<le> k x \<Longrightarrow> insort_key k a (ys @ [x]) = insort_key k a ys @ [x]"
  by (induction ys) auto

lemma sort_key_last: "\<forall>y \<in> set xs. k y \<le> k x \<Longrightarrow> sort_key k (xs @ [x]) = sort_key k xs @ [x]"
  by (induction xs) (simp_all add: insort_key_last)

text \<open>The files are told apart by their names.\<close>

lemma prune_by_file:
  assumes "distinct (map bk_name folder)"
  shows "prune_backups keep folder = filter (\<lambda>f. f \<notin> set (doomed keep folder)) folder"
proof -
  have "set (doomed keep folder) \<subseteq> set folder"
    by (auto simp: doomed_def oldest_first_def Let_def dest!: in_set_takeD split: if_splits)
  moreover have "inj_on bk_name (set folder)" using assms by (simp add: distinct_map)
  ultimately show ?thesis
    unfolding prune_backups_def by (intro filter_cong) (auto dest: inj_onD)
qed

lemma kept_backups:
  assumes "distinct (map bk_name folder)" and "0 < keep"
  defines "files \<equiv> oldest_first folder"
  shows "set (filter is_backup (prune_backups keep folder)) = set (drop (length files - nat keep) files)"
    "length (filter is_backup (prune_backups keep folder)) = min (nat keep) (length files)"
    "filter (\<lambda>f. \<not> is_backup f) (prune_backups keep folder) = filter (\<lambda>f. \<not> is_backup f) folder"
proof -
  let ?n = "length files - nat keep"
  have d: "distinct folder" using assms(1) by (simp add: distinct_map)
  then have df: "distinct files" by (simp add: files_def oldest_first_def)
  have files: "set files = {f \<in> set folder. is_backup f}" by (auto simp: files_def oldest_first_def)
  have dm: "doomed keep folder = take ?n files" using assms(2) by (simp add: doomed_def files_def Let_def)
  have split: "set files = set (take ?n files) \<union> set (drop ?n files)" by (metis append_take_drop_id set_append)
  have disj: "set (take ?n files) \<inter> set (drop ?n files) = {}" using df by (simp add: set_take_disj_set_drop_if_distinct)
  have pr: "prune_backups keep folder = filter (\<lambda>f. f \<notin> set (take ?n files)) folder"
    unfolding prune_by_file[OF assms(1)] dm ..
  show e: "set (filter is_backup (prune_backups keep folder)) = set (drop ?n files)"
    unfolding pr using files split disj by auto
  have "distinct (filter is_backup (prune_backups keep folder))" using d by (simp add: pr)
  then have "length (filter is_backup (prune_backups keep folder)) = card (set (drop ?n files))"
    using distinct_card[of "filter is_backup (prune_backups keep folder)"] e by simp
  also have "\<dots> = length (drop ?n files)" using df by (intro distinct_card) simp
  finally show "length (filter is_backup (prune_backups keep folder)) = min (nat keep) (length files)" by simp
  have "f \<notin> set (take ?n files)" if "\<not> is_backup f" for f
    using that files by (auto dest: in_set_takeD)
  then show "filter (\<lambda>f. \<not> is_backup f) (prune_backups keep folder) = filter (\<lambda>f. \<not> is_backup f) folder"
    unfolding pr filter_filter by (intro filter_cong) auto
qed

text \<open>C39: a start-up snapshot is kept and the folder stays bounded: the new file has a name no file had and survives
  its own pruning; afterwards there are exactly as many snapshots as the setting allows, or fewer; no
  snapshot that was deleted is newer than one that is left; and other files are not touched.\<close>

theorem startup_backup_retained:
  assumes "startup_backup s d vacuumed stamp mtime size_bytes folder = (Some p, kept)" and "0 < bs_keep s"
    and "distinct (map bk_name folder)" and "\<forall>f \<in> set folder. bk_mtime f \<le> mtime"
  shows "p \<notin> bk_name ` set folder \<and> p \<in> bk_name ` set kept
    \<and> length (filter is_backup kept) = min (nat (bs_keep s)) (length (filter is_backup folder) + 1)
    \<and> filter (\<lambda>f. \<not> is_backup f) kept = filter (\<lambda>f. \<not> is_backup f) folder
    \<and> (\<forall>x \<in> set folder - set kept. \<forall>y \<in> set kept. is_backup y \<longrightarrow> bk_mtime x \<le> bk_mtime y)"
proof -
  let ?new = "\<lparr>bk_name = p, bk_mtime = mtime, bk_size = size_bytes\<rparr>"
  let ?f1 = "folder @ [?new]"
  have p: "target_name folder stamp = Some p" and kept: "kept = prune_backups (bs_keep s) ?f1"
    using assms(1) by (auto simp: startup_backup_def create_backup_def split: if_splits option.splits)
  have fresh: "p \<notin> bk_name ` set folder" using target_name_exists[of folder stamp] p by simp
  obtain j where j: "p = backup_name stamp j" using p free_name_Some unfolding target_name_def by blast
  have new: "is_backup ?new"
    unfolding j is_backup_def by (simp add: backup_name_def startswith_def endswith_def)
  have d1: "distinct (map bk_name ?f1)" using assms(3) fresh by simp
  let ?files = "oldest_first ?f1"
  let ?n = "length ?files - nat (bs_keep s)"
  note k = kept_backups[OF d1 assms(2), folded kept]
  have files: "?files = oldest_first folder @ [?new]"
    using sort_key_last[of "filter is_backup folder" bk_mtime ?new] assms(4) new by (simp add: oldest_first_def)
  have len: "length ?files = length (filter is_backup folder) + 1" by (simp add: files) (simp add: oldest_first_def)
  have "?n \<le> length (oldest_first folder)" using assms(2) files by simp
  then have "?new \<in> set (drop ?n ?files)" by (simp add: files)
  then have "?new \<in> set kept" using k(1) by auto
  then have "p \<in> bk_name ` set kept" by force
  moreover have "filter (\<lambda>f. \<not> is_backup f) kept = filter (\<lambda>f. \<not> is_backup f) folder" using k(3) new by simp
  moreover have "bk_mtime x \<le> bk_mtime y" if "x \<in> set folder - set kept" "y \<in> set kept" "is_backup y" for x y
  proof -
    have "x \<in> set ?f1" "x \<notin> set kept" using that(1) by auto
    moreover from this(2) have "\<not> (x \<in> set ?f1 \<and> x \<notin> set (doomed (bs_keep s) ?f1))"
      unfolding kept prune_by_file[OF d1] set_filter mem_Collect_eq .
    ultimately have "x \<in> set (doomed (bs_keep s) ?f1)" by blast
    then have x: "x \<in> set (take ?n ?files)" using assms(2) by (simp add: doomed_def Let_def)
    have y: "y \<in> set (drop ?n ?files)" using k(1) that(2,3) by auto
    have "sorted (map bk_mtime ?files)" by (simp add: oldest_first_def)
    then have "sorted (map bk_mtime (take ?n ?files) @ map bk_mtime (drop ?n ?files))" by (metis append_take_drop_id map_append)
    then have "\<forall>a \<in> set (map bk_mtime (take ?n ?files)). \<forall>b \<in> set (map bk_mtime (drop ?n ?files)). a \<le> b"
      by (rule sorted_append[THEN iffD1, THEN conjunct2, THEN conjunct2])
    with x y show ?thesis by (metis image_eqI list.set_map)
  qed
  moreover have "length (filter is_backup kept) = min (nat (bs_keep s)) (length (filter is_backup folder) + 1)"
    unfolding k(2) len ..
  ultimately show ?thesis using fresh by blast
qed

section \<open>What the page shows is what the loop reads\<close>

lemma stored_sync_state:
  assumes "\<not> bad w"
  obtains d row w1 where "save_autosync_config sqlite enabled interval w = (None, w1)" "saved w1 = d" "cur w1 = d"
    "tget ss_id 1 (sync_states d) = Some row" "ss_auto_enabled row = (if enabled then 1 else 0)"
    "ss_auto_interval_seconds row = clamp_interval (Some interval)"
proof -
  let ?g = "\<lambda>r. r\<lparr>ss_auto_enabled := (if enabled then 1 else 0), ss_auto_interval_seconds := clamp_interval (Some interval)\<rparr>"
  obtain row0 d0 where g: "get_or_create_sync_state sqlite (cur w) = (row0, d0)" by force
  then have row0: "tget ss_id 1 (sync_states d0) = Some row0"
    by (auto simp: get_or_create_sync_state_def tget_append tget_Cons default_sync_state_def split: option.splits)
  let ?d = "d0\<lparr>sync_states := tupd ss_id 1 ?g (sync_states d0)\<rparr>"
  have "tget ss_id 1 (sync_states ?d) = Some (?g row0)" using row0 by (simp add: tget_tupd)
  moreover have "save_autosync_config sqlite enabled interval w = (None, w\<lparr>cur := ?d, saved := ?d\<rparr>)"
    using assms g by (simp add: save_autosync_config_def commit_def)
  ultimately show ?thesis by (intro that) auto
qed

text \<open>Saving the auto-sync settings takes effect: whatever the two fields hold, the stored toggle is what was
  asked for and the interval lies within the bounds, the page shows both, and so does every later read.\<close>

theorem autosync_saved:
  assumes "\<not> bad w"
  shows "(let w1 = snd (settings_save_sync sqlite url folder auto_enabled auto_interval w);
              sm = fst (settings_save_sync sqlite url folder auto_enabled auto_interval w)
          in MIN_INTERVAL_SECONDS \<le> sm_auto_interval sm \<and> sm_auto_interval sm \<le> MAX_INTERVAL_SECONDS
             \<and> sm_auto_enabled sm = (lower (strip auto_enabled) \<in> {''on'', ''true'', ''1'', ''yes''})
             \<and> fst (read_autosync_config sqlite (saved w1)) = (sm_auto_enabled sm, sm_auto_interval sm))"
proof -
  let ?on = "lower (strip auto_enabled) \<in> {''on'', ''true'', ''1'', ''yes''}"
  let ?n = "case int_text auto_interval of Inl _ \<Rightarrow> DEFAULT_INTERVAL_SECONDS | Inr n \<Rightarrow> n"
  obtain d row w1 where w1: "save_autosync_config sqlite ?on ?n w = (None, w1)" "saved w1 = d" "cur w1 = d"
    "tget ss_id 1 (sync_states d) = Some row" "ss_auto_enabled row = (if ?on then 1 else 0)"
    "ss_auto_interval_seconds row = clamp_interval (Some ?n)"
    using stored_sync_state[OF assms] by metis
  have r: "read_autosync_config sqlite d = ((?on, clamp_interval (Some (clamp_interval (Some ?n)))), d)"
    using w1(4-6) by (simp add: read_autosync_config_def get_or_create_sync_state_def)
  have b: "MIN_INTERVAL_SECONDS \<le> clamp_interval (Some x)" "clamp_interval (Some x) \<le> MAX_INTERVAL_SECONDS" for x
    by (auto simp: clamp_interval_def MIN_INTERVAL_SECONDS_def MAX_INTERVAL_SECONDS_def)
  show ?thesis
    using w1(1-3) r b by (simp add: settings_save_sync_def settings_summary_def Let_def split_beta)
qed

end
