(* ===== verification/Dashboard.thy ===== *)
theory Dashboard
  imports History
begin

text \<open>
  The home page and the period reports around it: \<open>src/app/services/dashboard.py\<close>,
  \<open>src/app/services/active_catalog.py\<close>, \<open>stale_products\<close> of \<open>reports.py\<close>, and the period selection the
  routes of \<open>reports.py\<close>, \<open>history.py\<close>, \<open>finance.py\<close> and \<open>home.py\<close> share. The local day \<open>today\<close> is an
  argument: the code reads the clock once per function.
\<close>

section \<open>Periods\<close>

definition week_start :: "date \<Rightarrow> date option" where
  "week_start today = add_days today (- int (weekday today))"

definition week_end :: "date \<Rightarrow> date option" where
  "week_end today = Option.bind (week_start today) (\<lambda>g. add_days g 6)"

definition month_start :: "date \<Rightarrow> date" where
  "month_start today = Date (dyear today) (dmonth today) 1"

text \<open>\<open>(month_start.replace(day=28) + timedelta(days=4)).replace(day=1) - timedelta(days=1)\<close>.\<close>

definition month_end :: "date \<Rightarrow> date option" where
  "month_end today = Option.bind (add_days (Date (dyear today) (dmonth today) 28) 4)
     (\<lambda>g. add_days (Date (dyear g) (dmonth g) 1) (- 1))"

text \<open>\<open>None\<close>: the arithmetic leaves the calendar, an \<open>OverflowError\<close>.\<close>

definition period_presets :: "date \<Rightarrow> (string \<times> date \<times> date) list option" where
  "period_presets today =
     (case (week_start today, week_end today, month_end today) of
        (Some ws, Some we, Some me) \<Rightarrow>
          Some [(''today'', today, today), (''week'', ws, we), (''month'', month_start today, me)]
      | _ \<Rightarrow> None)"

datatype period_error = Invalid_date | Inverted_range

record period =
  pd_range :: "(date \<times> date) option"
  pd_preset :: "string option"
  pd_error :: "period_error option"

text \<open>Two raw query values: both days, or the error. The values are parsed as they are, without strip.\<close>

definition parse_range :: "string \<Rightarrow> string \<Rightarrow> period_error + date \<times> date" where
  "parse_range from_raw to_raw =
     (case (fromisoformat from_raw, fromisoformat to_raw) of
        (Some a, Some b) \<Rightarrow> if b < a then Inl Inverted_range else Inr (a, b)
      | _ \<Rightarrow> Inl Invalid_date)"

text \<open>The shared shape; \<open>dflt\<close> is the range when both values are blank.\<close>

definition resolve_range :: "(date \<times> date) option \<Rightarrow> date \<Rightarrow> string \<Rightarrow> string \<Rightarrow> period option" where
  "resolve_range dflt today from_raw to_raw =
     (case period_presets today of None \<Rightarrow> None
      | Some ps \<Rightarrow>
          (let (range, err) = (if strip from_raw = [] \<and> strip to_raw = [] then (dflt, None)
                 else case parse_range from_raw to_raw of Inl x \<Rightarrow> (Some (today, today), Some x)
                      | Inr r \<Rightarrow> (Some r, None))
           in Some \<lparr>pd_range = range,
                pd_preset = Option.bind range (\<lambda>r. map_option fst (find (\<lambda>(k, b). b = r) ps)),
                pd_error = err\<rparr>))"

definition resolve_period :: "date \<Rightarrow> string \<Rightarrow> string \<Rightarrow> period option" where
  "resolve_period today = resolve_range (Some (today, today)) today"

definition resolve_history_period :: "date \<Rightarrow> string \<Rightarrow> string \<Rightarrow> period option" where
  "resolve_history_period today = resolve_range None today"

definition clean_query_currency :: "string \<Rightarrow> string" where
  "clean_query_currency raw = (if known_currency raw then raw else DEFAULT_CURRENCY)"

section \<open>The active catalog\<close>

definition get_active_catalog :: "db \<Rightarrow> active_catalog option" where
  "get_active_catalog d = (case sort_key ac_created_at (active_catalogs d) of [] \<Rightarrow> None | r # _ \<Rightarrow> Some r)"

definition NUMBER_MAX_LEN :: nat where "NUMBER_MAX_LEN = 20"

definition catalog_errors :: "string \<Rightarrow> string \<Rightarrow> errors" where
  "catalog_errors number close_date =
     (if length number > NUMBER_MAX_LEN then [(''number'', CatalogNumberTooLong)] else [])
     @ (if close_date \<noteq> [] \<and> fromisoformat close_date = None then [(''close_date'', CloseDateMsg)] else [])"

definition upd_catalog :: "string \<Rightarrow> (active_catalog \<Rightarrow> active_catalog) \<Rightarrow> db \<Rightarrow> db" where
  "upd_catalog k f d = d\<lparr>active_catalogs := tupd ac_id k f (active_catalogs d)\<rparr>"

definition add_catalog_row :: "active_catalog \<Rightarrow> db \<Rightarrow> db" where
  "add_catalog_row r d = d\<lparr>active_catalogs := active_catalogs d @ [r]\<rparr>"

definition set_active_catalog ::
  "env \<Rightarrow> string \<Rightarrow> string \<Rightarrow> world \<Rightarrow> (active_catalog, unit) outcome \<times> world" where
  "set_active_catalog e number0 close0 w =
     (let number = strip number0; close_date = strip close0; es = catalog_errors number close_date;
          fill = (\<lambda>r. r\<lparr>ac_number := or_none number, ac_close_date := or_none close_date\<rparr>)
      in if es \<noteq> [] then (Errors es, w)
         else case get_active_catalog (cur w) of
           Some r \<Rightarrow> (let (_, w1) = utcnow_iso e w
                      in commit_result (fill r) (stage (upd_catalog (ac_id r) fill) False w1))
         | None \<Rightarrow> (let (i, w1) = new_id e w; (now, w2) = utcnow_iso e w1; (_, w3) = utcnow_iso e w2;
                        r = fill \<lparr>ac_id = i, ac_number = None, ac_close_date = None, ac_created_at = now\<rparr>
                    in commit_result r (stage (add_catalog_row r) (thas ac_id i (active_catalogs (cur w3))) w3)))"

record catalog_view =
  cs_number :: "string option"
  cs_close_date :: "string option"
  cs_days_left :: "int option"
  cs_closed :: bool

text \<open>\<open>Inl ValueError\<close>: a close date that \<open>fromisoformat\<close> cannot read.\<close>

definition catalog_status :: "active_catalog option \<Rightarrow> date \<Rightarrow> exn + catalog_view option" where
  "catalog_status cat today =
     (case cat of None \<Rightarrow> Inr None
      | Some r \<Rightarrow>
          if or_empty (ac_number r) = [] \<and> or_empty (ac_close_date r) = [] then Inr None
          else if or_empty (ac_close_date r) = []
            then Inr (Some \<lparr>cs_number = ac_number r, cs_close_date = ac_close_date r, cs_days_left = None, cs_closed = False\<rparr>)
          else case fromisoformat (or_empty (ac_close_date r)) of None \<Rightarrow> Inl ValueError
            | Some g \<Rightarrow> (let left = int (ymd2ord g) - int (ymd2ord today)
                in Inr (Some \<lparr>cs_number = ac_number r, cs_close_date = ac_close_date r, cs_days_left = Some left,
                     cs_closed = (left < 0)\<rparr>)))"

section \<open>Metrics\<close>

record metrics =
  mt_revenue :: int
  mt_profit :: int
  mt_expense :: "int option"

definition period_metrics :: "env \<Rightarrow> db \<Rightarrow> date \<Rightarrow> date \<Rightarrow> string \<Rightarrow> metrics" where
  "period_metrics e d start_day end_day currency =
     (let (start, stop) = business_date_bounds start_day end_day;
          gross = fst (sales_profit_report e d start stop None currency)
      in if allowed_warehouse_ids e \<noteq> None
         then \<lparr>mt_revenue = t_revenue gross, mt_profit = t_profit gross, mt_expense = None\<rparr>
         else let expense = cash_expense_total d start stop currency
              in \<lparr>mt_revenue = t_revenue gross, mt_profit = t_profit gross + expense, mt_expense = Some expense\<rparr>)"

definition dashboard_metrics :: "env \<Rightarrow> db \<Rightarrow> date \<Rightarrow> string \<Rightarrow> (string \<times> metrics) list option" where
  "dashboard_metrics e d today currency =
     map_option (map (\<lambda>(k, a, b). (k, period_metrics e d a b currency))) (period_presets today)"

definition stock_summary :: "env \<Rightarrow> db \<Rightarrow> string \<Rightarrow> valuation \<times> nat" where
  "stock_summary e d currency =
     (stock_valuation e d currency,
      if allowed_warehouse_ids e = None
      then length (filter (\<lambda>p. p_deleted_at p = None \<and> 0 < p_quantity p) (products d))
      else length (remdups (map b_product_id (filter (\<lambda>b. (case get_product d (b_product_id b) of None \<Rightarrow> False
             | Some p \<Rightarrow> p_deleted_at p = None) \<and> 0 < b_quantity b \<and> warehouse_scope e (Some (b_warehouse_id b))) (batches d)))))"

text \<open>The feed: each operation with its product, its batch and its customer.\<close>

definition recent_operations ::
  "env \<Rightarrow> db \<Rightarrow> nat \<Rightarrow> ((operation \<times> product) \<times> batch option \<times> customer option) list" where
  "recent_operations e d limit =
     map (\<lambda>op. (op, Option.bind (o_batch_id (fst op)) (get_batch d), Option.bind (op_customer d (fst op)) (get_customer d)))
       (recent_of e d (\<lambda>o1. o_type o1 \<in> set STOCK_AFFECTING_TYPES) limit)"

record dashboard =
  da_catalog :: "catalog_view option"
  da_metrics :: "(string \<times> metrics) list"
  da_stock :: "valuation \<times> nat"
  da_feed :: "((operation \<times> product) \<times> batch option \<times> customer option) list"

definition dashboard_context :: "env \<Rightarrow> db \<Rightarrow> date \<Rightarrow> string \<Rightarrow> exn + dashboard" where
  "dashboard_context e d today currency =
     (case catalog_status (get_active_catalog d) today of Inl x \<Rightarrow> Inl x
      | Inr cat \<Rightarrow> (case dashboard_metrics e d today currency of None \<Rightarrow> Inl OverflowError
          | Some ms \<Rightarrow> Inr \<lparr>da_catalog = cat, da_metrics = ms, da_stock = stock_summary e d currency,
              da_feed = recent_operations e d 10\<rparr>))"

text \<open>The tiles of the finance page; \<open>None\<close> when the period is refused.\<close>

definition metrics_context ::
  "env \<Rightarrow> db \<Rightarrow> date \<Rightarrow> string \<Rightarrow> string \<Rightarrow> string \<Rightarrow> ((int \<times> nat \<times> int) option \<times> valuation) option" where
  "metrics_context e d today from_raw to_raw currency =
     (case resolve_period today from_raw to_raw of None \<Rightarrow> None
      | Some pd \<Rightarrow> Some
          (if pd_error pd \<noteq> None then None
           else case pd_range pd of None \<Rightarrow> None
           | Some (a, b) \<Rightarrow> (let (start, stop) = business_date_bounds a b;
                 gross = fst (sales_profit_report e d start stop None currency);
                 expense = cash_expense_total d start stop currency
               in Some (t_profit gross, t_cost_unknown gross, t_profit gross + expense)),
           stock_valuation e d currency))"

section \<open>Stale products\<close>

record stale_row =
  st_product :: product
  st_last_sale :: "string option"
  st_days_since :: "int option"

definition effective_stale_days :: "int \<Rightarrow> product \<Rightarrow> int" where
  "effective_stale_days dflt p = (case p_stale_days p of Some n \<Rightarrow> n | None \<Rightarrow> dflt)"

text \<open>The sale rows the outer join keeps, and the products in scope.\<close>

definition stale_sale :: "env \<Rightarrow> db \<Rightarrow> product \<Rightarrow> operation \<Rightarrow> bool" where
  "stale_sale e d p o1 \<longleftrightarrow> o_product_id o1 = p_id p \<and> o_type o1 = ''sale'' \<and>
     (allowed_warehouse_ids e = None \<or> warehouse_scope e (op_warehouse d o1))"

definition stale_scope :: "env \<Rightarrow> db \<Rightarrow> product \<Rightarrow> bool" where
  "stale_scope e d p \<longleftrightarrow> p_deleted_at p = None \<and> (allowed_warehouse_ids e = None \<or>
     list_ex (\<lambda>b. b_product_id b = p_id p \<and> 0 < b_quantity b \<and> warehouse_scope e (Some (b_warehouse_id b))) (batches d))"

definition last_sale :: "env \<Rightarrow> db \<Rightarrow> product \<Rightarrow> string option" where
  "last_sale e d p = (case map o_created_at (filter (stale_sale e d p) (operations d)) of
     [] \<Rightarrow> None | x # xs \<Rightarrow> Some (fold max xs x))"

text \<open>One product with a sale: a row when it is stale, nothing otherwise or when the time is unreadable.\<close>

definition stale_one :: "(int \<Rightarrow> int) \<Rightarrow> date \<Rightarrow> int \<Rightarrow> product \<Rightarrow> string \<Rightarrow> exn + stale_row list" where
  "stale_one tz today dflt p s =
     (case local_day_of tz (Some s) of Inl x \<Rightarrow> Inl x
      | Inr None \<Rightarrow> Inr []
      | Inr (Some day) \<Rightarrow> (let n = int (ymd2ord today) - int (ymd2ord day)
          in Inr (if n > effective_stale_days dflt p
               then [\<lparr>st_product = p, st_last_sale = Some s, st_days_since = Some n\<rparr>] else [])))"

definition stale_products :: "env \<Rightarrow> (int \<Rightarrow> int) \<Rightarrow> date \<Rightarrow> int \<Rightarrow> db \<Rightarrow> exn + stale_row list" where
  "stale_products e tz today dflt d =
     (let ps = filter (stale_scope e d) (products d);
          never = map (\<lambda>p. \<lparr>st_product = p, st_last_sale = None, st_days_since = None\<rparr>) (filter (\<lambda>p. last_sale e d p = None) ps)
      in case all_ok (map (\<lambda>p. stale_one tz today dflt p (or_empty (last_sale e d p))) (filter (\<lambda>p. last_sale e d p \<noteq> None) ps)) of
           Inl x \<Rightarrow> Inl x
         | Inr rss \<Rightarrow> Inr (never @ sort_reverse (\<lambda>r. the (st_days_since r)) (concat rss)))"

section \<open>The calendar of the presets\<close>

text \<open>The days whose week and month lie inside the calendar.\<close>

definition inner_day :: "date \<Rightarrow> bool" where
  "inner_day g \<longleftrightarrow> valid_date g \<and> 2 \<le> dyear g \<and> dyear g \<le> 9998"

lemma days_before_year_2: "days_before_year 2 = 365"
  by (simp add: days_before_year_def)

lemma inner_ordinal:
  assumes "inner_day g"
  shows "365 < ymd2ord g" "ymd2ord g + 365 \<le> MAX_ORDINAL"
proof -
  have m: "month_ok g" "2 \<le> dyear g" "dyear g \<le> 9998" using assms by (auto simp: inner_day_def valid_date_month_ok)
  have "days_before_year 2 \<le> days_before_year (dyear g)" using m by (intro days_before_year_mono) auto
  then show "365 < ymd2ord g" using m(1) by (simp add: ymd2ord_def month_ok_def days_before_year_2)
  have "ymd2ord g \<le> days_before_year (Suc (dyear g))"
    using day_in_year[OF m(1)] days_before_year_Suc[of "dyear g"] m by (simp add: ymd2ord_def)
  also have "\<dots> \<le> days_before_year 9999" using m by (intro days_before_year_mono) auto
  also have "\<dots> + 365 = MAX_ORDINAL" by (simp add: days_before_year_def MAX_ORDINAL_def)
  finally show "ymd2ord g + 365 \<le> MAX_ORDINAL" by linarith
qed

lemma weekday_less: "weekday g < 7"
  by (simp add: weekday_def)

lemma weekday_monday: "7 < ymd2ord g \<Longrightarrow> ymd2ord h = ymd2ord g - weekday g \<Longrightarrow> weekday h = 0"
proof -
  assume a: "7 < ymd2ord g" "ymd2ord h = ymd2ord g - weekday g"
  have "(ymd2ord g + 6 - weekday g) mod 7 = 0" unfolding weekday_def by (rule mod_0_imp_dvd[THEN dvd_imp_mod_0]) (simp add: minus_mod_eq_mult_div)
  moreover have "ymd2ord h + 6 = ymd2ord g + 6 - weekday g" using a weekday_less[of g] by linarith
  ultimately show ?thesis by (simp add: weekday_def)
qed

lemma week_of:
  assumes "inner_day today"
  obtains ws we where "week_start today = Some ws" "week_end today = Some we" "valid_date ws" "valid_date we"
    "weekday ws = 0" "int (ymd2ord we) = int (ymd2ord ws) + 6" "ws \<le> today" "today \<le> we"
proof -
  note b = inner_ordinal[OF assms]
  have v: "valid_date today" using assms by (simp add: inner_day_def)
  have "week_start today \<noteq> None" using b weekday_less[of today] by (simp add: week_start_def add_days_def Let_def)
  then obtain ws where ws: "week_start today = Some ws" by blast
  note s = add_days_order[OF v ws[unfolded week_start_def]]
  have "add_days ws 6 \<noteq> None" using b s(4) by (simp add: add_days_def Let_def)
  then obtain we where we: "add_days ws 6 = Some we" by blast
  note t = add_days_order[OF s(1) we]
  have o: "ymd2ord ws = ymd2ord today - weekday today" using s(4) by linarith
  have "weekday ws = 0" using weekday_monday[OF _ o] b by simp
  moreover have "ws \<le> today" using s(2,3) by (cases "weekday today = 0") auto
  moreover have "int (ymd2ord today) \<le> int (ymd2ord we)" using s(4) t(4) weekday_less[of today] by linarith
  then have "today \<le> we" using ymd2ord_less[of we today] v t(1) by (simp add: valid_date_month_ok not_less[symmetric])
  moreover have "week_end today = Some we" by (simp add: week_end_def ws we)
  ultimately show thesis using that ws s(1) t(1,4) by blast
qed

text \<open>The detour over the 28th plus four days ends on the last day of the month.\<close>

lemma month_end_last:
  assumes "inner_day today"
  shows "month_end today = Some (Date (dyear today) (dmonth today) (days_in_month (dyear today) (dmonth today)))"
proof -
  let ?y = "dyear today" and ?m = "dmonth today"
  let ?n = "days_in_month ?y ?m"
  have t: "month_ok today" "2 \<le> ?y" "?y \<le> 9998" using assms by (auto simp: inner_day_def valid_date_month_ok)
  have n: "28 \<le> ?n" "?n \<le> 31" by (auto simp: days_in_month_def)
  let ?g = "Date ?y ?m 28" and ?l = "Date ?y ?m ?n"
  define f where "f = (if ?m = 12 then Date (Suc ?y) 1 1 else Date ?y (Suc ?m) 1)"
  have ok: "month_ok ?g" "month_ok ?l" "month_ok f" using t n by (auto simp: month_ok_def f_def days_in_month_def)
  have fo: "ymd2ord f = ymd2ord ?l + 1"
  proof (cases "?m = 12")
    case True
    then have "ymd2ord ?l = days_before_year ?y + year_days ?y" using december[of ?y] by (simp add: days_in_month_def)
    then show ?thesis using True days_before_year_Suc[of ?y] t by (simp add: f_def ymd2ord_def)
  next
    case False
    then show ?thesis using t by (simp add: f_def ymd2ord_def month_ok_def)
  qed
  have gl: "ymd2ord ?g + ?n = ymd2ord ?l + 28" by (simp add: ymd2ord_def)
  define h where "h = Date (dyear f) (dmonth f) (1 + (32 - Suc ?n))"
  have ho: "month_ok h" "ymd2ord h = ymd2ord ?g + 4"
  proof -
    show "month_ok h" using ok(3) n by (auto simp: month_ok_def h_def f_def days_in_month_def)
    have "ymd2ord (Date y k (1 + j)) = ymd2ord (Date y k 1) + j" for y k j by (simp add: ymd2ord_def)
    then have "ymd2ord h = ymd2ord (Date (dyear f) (dmonth f) 1) + (32 - Suc ?n)" unfolding h_def .
    moreover have "Date (dyear f) (dmonth f) 1 = f" by (simp add: f_def)
    ultimately have "ymd2ord h = ymd2ord f + (31 - ?n)" by simp
    then show "ymd2ord h = ymd2ord ?g + 4" using fo gl n by linarith
  qed
  have "inner_day ?l" using ok(2) t by (simp add: inner_day_def valid_date_month_ok)
  note b = inner_ordinal[OF this]
  have "add_days ?g 4 = Some h"
    using b gl n ho ord2ymd_ymd2ord[OF ho(1)] by (simp add: add_days_def Let_def nat_add_distrib)
  moreover have "Date (dyear h) (dmonth h) 1 = f" by (simp add: h_def f_def)
  moreover have "add_days f (- 1) = Some ?l"
    using b fo ord2ymd_ymd2ord[OF ok(2)] by (simp add: add_days_def Let_def)
  ultimately show ?thesis by (simp add: month_end_def)
qed

lemma presets_of:
  assumes "inner_day today"
  obtains ws we where "period_presets today = Some [(''today'', today, today), (''week'', ws, we),
      (''month'', month_start today, Date (dyear today) (dmonth today) (days_in_month (dyear today) (dmonth today)))]"
    "week_start today = Some ws" "week_end today = Some we" "valid_date ws" "valid_date we"
    "weekday ws = 0" "int (ymd2ord we) = int (ymd2ord ws) + 6" "ws \<le> today" "today \<le> we"
  using week_of[OF assms] month_end_last[OF assms] that by (fastforce simp: period_presets_def)

section \<open>Period selection\<close>

lemma find_preset: "map_option fst (find (\<lambda>(k, b). b = r) ps) = Some k \<Longrightarrow> (k, r) \<in> set ps"
  by (auto simp: find_Some_iff in_set_conv_nth)

lemma parse_range_Inr: "parse_range a b = Inr (x, y) \<Longrightarrow> valid_date x \<and> valid_date y \<and> x \<le> y"
  by (auto simp: parse_range_def fromisoformat_valid not_less[symmetric] split: option.splits if_splits)

text \<open>The period of a report page is always usable: whatever the two query values are, the resolver
  answers with two real days in order; a malformed or inverted range falls back to today with an
  error, an empty one is today without; the week preset runs from Monday to Sunday around today and
  the month preset from the first to the last day of the month.\<close>

theorem period_total:
  assumes "inner_day today"
  shows "\<exists>pd a b. resolve_period today from_raw to_raw = Some pd \<and> pd_range pd = Some (a, b)
    \<and> valid_date a \<and> valid_date b \<and> a \<le> b
    \<and> (pd_error pd = None \<or> a = today \<and> b = today)
    \<and> (pd_preset pd = Some ''week'' \<longrightarrow> weekday a = 0 \<and> int (ymd2ord b) = int (ymd2ord a) + 6 \<and> a \<le> today \<and> today \<le> b)
    \<and> (pd_preset pd = Some ''month'' \<longrightarrow> a = Date (dyear today) (dmonth today) 1
        \<and> b = Date (dyear today) (dmonth today) (days_in_month (dyear today) (dmonth today)))"
proof -
  obtain ws we where ps: "period_presets today = Some [(''today'', today, today), (''week'', ws, we),
      (''month'', month_start today, Date (dyear today) (dmonth today) (days_in_month (dyear today) (dmonth today)))]"
    and w: "weekday ws = 0" "int (ymd2ord we) = int (ymd2ord ws) + 6" "ws \<le> today" "today \<le> we"
    by (rule presets_of[OF assms])
  have v: "valid_date today" using assms by (simp add: inner_day_def)
  obtain a b err where r: "(if strip from_raw = [] \<and> strip to_raw = [] then (Some (today, today), None)
                 else case parse_range from_raw to_raw of Inl x \<Rightarrow> (Some (today, today), Some x)
                      | Inr r \<Rightarrow> (Some r, None)) = (Some (a, b), err)"
    and ab: "valid_date a" "valid_date b" "a \<le> b" "err = None \<or> a = today \<and> b = today"
  proof (cases "strip from_raw = [] \<and> strip to_raw = []")
    case True
    with v show thesis by (intro that[of today today None]) simp_all
  next
    case blank: False
    show thesis
    proof (cases "parse_range from_raw to_raw")
      case (Inl x)
      then show thesis using blank v by (intro that[of today today "Some x"]) simp_all
    next
      case (Inr r)
      then show thesis using blank parse_range_Inr[of from_raw to_raw "fst r" "snd r"]
        by (intro that[of "fst r" "snd r" None]) auto
    qed
  qed
  let ?pd = "\<lparr>pd_range = Some (a, b), pd_preset = map_option fst (find (\<lambda>(k, bd). bd = (a, b)) (the (period_presets today))), pd_error = err\<rparr>"
  have e: "resolve_period today from_raw to_raw = Some ?pd"
    unfolding resolve_period_def resolve_range_def ps option.case r by simp
  have "pd_preset ?pd = Some k \<Longrightarrow> (k, a, b) \<in> set (the (period_presets today))" for k
    by (simp only: period.simps) (rule find_preset)
  from this[of "''week''"] this[of "''month''"] show ?thesis
    using e ab w by (intro exI[of _ ?pd] exI[of _ a] exI[of _ b]) (auto simp: ps month_start_def)
qed

section \<open>One figure on two pages\<close>

text \<open>The home page and the finance page agree: for any range that the finance page accepts, its net profit
  is the profit tile of that range, its gross profit is the tile before the cash expenses, and both
  pages show the same stock value.\<close>

theorem tiles_agree:
  assumes "valid_date a" "valid_date b" "a \<le> b" "inner_day today" "allowed_warehouses e = None"
  shows "\<exists>unknown. metrics_context e d today (isoformat a) (isoformat b) currency
    = Some (Some (mt_profit (period_metrics e d a b currency) - the (mt_expense (period_metrics e d a b currency)),
              unknown, mt_profit (period_metrics e d a b currency)),
            fst (stock_summary e d currency))"
proof -
  obtain ws we where ps: "period_presets today = Some [(''today'', today, today), (''week'', ws, we),
      (''month'', month_start today, Date (dyear today) (dmonth today) (days_in_month (dyear today) (dmonth today)))]"
    by (rule presets_of[OF assms(4)])
  have dg: "is_dig (hd (isoformat g))" for g
  proof -
    have "zfill 4 (dyear g) \<noteq> []" by simp
    then have "hd (zfill 4 (dyear g)) \<in> set (zfill 4 (dyear g))" by (rule hd_in_set)
    then show ?thesis using zfill_digs[of 4 "dyear g"] by (simp add: isoformat_def list_all_iff)
  qed
  have ne: "strip (isoformat a) \<noteq> []"
  proof -
    have "dropWhile is_space (isoformat a) = isoformat a"
      using dig_not_space[OF dg] by (simp add: dropWhile_eq_self_iff)
    moreover have "dropWhile is_space (rev (isoformat a)) \<noteq> []"
      using dig_not_space[OF dg[of a]] by (auto simp: dropWhile_eq_Nil_conv)
    ultimately show ?thesis by (simp add: strip_def)
  qed
  have "parse_range (isoformat a) (isoformat b) = Inr (a, b)"
    using assms(1-3) by (simp add: parse_range_def fromisoformat_isoformat not_less)
  then obtain pd where "resolve_period today (isoformat a) (isoformat b) = Some pd" "pd_range pd = Some (a, b)" "pd_error pd = None"
    using ne by (simp add: resolve_period_def resolve_range_def ps)
  then show ?thesis using assms(5)
    by (simp add: metrics_context_def period_metrics_def business_date_bounds_def stock_summary_def Let_def allowed_warehouse_ids_def)
qed

section \<open>The home page opens\<close>

definition catalog_ok :: "active_catalog \<Rightarrow> bool" where
  "catalog_ok r \<longleftrightarrow> or_empty (ac_close_date r) = [] \<or> fromisoformat (or_empty (ac_close_date r)) \<noteq> None"

lemma get_active_catalog_mem: "get_active_catalog d = Some r \<Longrightarrow> r \<in> set (active_catalogs d)"
  by (auto simp: get_active_catalog_def split: list.splits)
     (metis list.set_intros(1) set_sort)

lemma commit_stage_Ok:
  "commit_result a (stage f c w) = (Ok r, w') \<Longrightarrow> r = a \<and> saved w' = f (cur w)"
  using commit_result_saved by fastforce

text \<open>Saving the active catalog keeps one row, with a close date that can be read back.\<close>

lemma set_active_catalog_saved:
  assumes "set_active_catalog e number close0 w = (Ok r, w')"
  shows "catalog_ok r \<and> ac_number r = or_none (strip number) \<and> ac_close_date r = or_none (strip close0)
    \<and> (list_all catalog_ok (active_catalogs (cur w)) \<longrightarrow> list_all catalog_ok (active_catalogs (saved w')))
    \<and> length (active_catalogs (saved w')) = max 1 (length (active_catalogs (cur w)))"
proof -
  let ?fill = "\<lambda>r. r\<lparr>ac_number := or_none (strip number), ac_close_date := or_none (strip close0)\<rparr>"
  from assms have ok: "catalog_errors (strip number) (strip close0) = []"
    by (auto simp: set_active_catalog_def Let_def split: if_splits)
  then have good: "catalog_ok (?fill x)" for x
    by (auto simp: catalog_errors_def catalog_ok_def or_none_def split: if_splits)
  show ?thesis
  proof (cases "get_active_catalog (cur w)")
    case (Some x)
    then have "commit_result (?fill x) (stage (upd_catalog (ac_id x) ?fill) False (snd (utcnow_iso e w)))
        = ((Ok r, w') :: (active_catalog, unit) outcome \<times> world)"
      using assms ok by (simp add: set_active_catalog_def Let_def split_beta)
    note s = commit_stage_Ok[OF this]
    have "active_catalogs (cur w) \<noteq> []" using get_active_catalog_mem[OF Some] by auto
    then have "1 \<le> length (active_catalogs (cur w))" by (cases "active_catalogs (cur w)") auto
    with s good show ?thesis by (auto simp: upd_catalog_def tupd_def list_all_iff)
  next
    case None
    then have e: "active_catalogs (cur w) = []"
      by (auto simp: get_active_catalog_def split: list.splits) (metis set_empty2 set_sort)
    obtain i w1 where i: "new_id e w = (i, w1)" by fastforce
    obtain now w2 where t: "utcnow_iso e w1 = (now, w2)" by fastforce
    have w1: "cur w1 = cur w" by (metis clock_frame(7) i snd_conv)
    have w2: "cur w2 = cur w" by (metis clock_frame(1) t w1 snd_conv)
    have c: "cur (snd (utcnow_iso e w2)) = cur w" by (simp add: w2)
    let ?r = "?fill \<lparr>ac_id = i, ac_number = None, ac_close_date = None, ac_created_at = now\<rparr>"
    have "commit_result ?r (stage (add_catalog_row ?r) (thas ac_id i (active_catalogs (cur (snd (utcnow_iso e w2)))))
        (snd (utcnow_iso e w2))) = ((Ok r, w') :: (active_catalog, unit) outcome \<times> world)"
      using assms ok None by (simp add: set_active_catalog_def Let_def split_beta i t w1 w2)
    from commit_stage_Ok[OF this] good[of "\<lparr>ac_id = i, ac_number = None, ac_close_date = None, ac_created_at = now\<rparr>"]
    show ?thesis unfolding c by (auto simp: add_catalog_row_def e)
  qed
qed

text \<open>The home page always opens: with a readable catalog row, which every save of the catalog form keeps,
  or with none, the dashboard is computed for every user, day and currency.\<close>

theorem dashboard_opens:
  assumes "inner_day today" "list_all catalog_ok (active_catalogs d)"
  shows "\<exists>page. dashboard_context e d today currency = Inr page \<and> map fst (da_metrics page) = [''today'', ''week'', ''month'']
    \<and> length (da_feed page) \<le> 10"
proof -
  obtain ws we where ps: "period_presets today = Some [(''today'', today, today), (''week'', ws, we),
      (''month'', month_start today, Date (dyear today) (dmonth today) (days_in_month (dyear today) (dmonth today)))]"
    by (rule presets_of[OF assms(1)])
  have "catalog_status (get_active_catalog d) today \<noteq> Inl x" for x
    using get_active_catalog_mem[of d] assms(2)
    by (auto simp: catalog_status_def catalog_ok_def list_all_iff Let_def split: option.splits)
  then obtain cat where "catalog_status (get_active_catalog d) today = Inr cat" by (cases "catalog_status (get_active_catalog d) today") auto
  then show ?thesis
    by (simp add: dashboard_context_def dashboard_metrics_def ps recent_operations_def recent_of_def)
qed

end
