(* ===== verification/Locations.thy ===== *)
theory Locations
  imports History
begin

text \<open>
  Where the goods lie: \<open>src/app/services/locations.py\<close>. The place of an open batch is its location tag,
  else its comment, else an \<open>unknown\<close> label (transliterated here); places sort in natural order, numbers
  by value. The sort key runs \<open>int()\<close> on every run that \<open>str.isdigit\<close> accepts, which includes the
  superscript digits that \<open>int\<close> refuses, so the key may raise; the lemmas say when the page opens.
\<close>

section \<open>Natural order\<close>

datatype key_part = Num int | Txt string

text \<open>Keys alternate text and number, so two keys never compare a number with a text; the order between
  the constructors is arbitrary.\<close>

instantiation key_part :: linorder
begin

definition less_eq_key_part :: "key_part \<Rightarrow> key_part \<Rightarrow> bool" where
  "less_eq_key_part a b = (case (a, b) of (Num m, Num n) \<Rightarrow> m \<le> n | (Num _, Txt _) \<Rightarrow> True
     | (Txt _, Num _) \<Rightarrow> False | (Txt s, Txt t) \<Rightarrow> s \<le> t)"

definition less_key_part :: "key_part \<Rightarrow> key_part \<Rightarrow> bool" where
  "less_key_part a b = (case (a, b) of (Num m, Num n) \<Rightarrow> m < n | (Num _, Txt _) \<Rightarrow> True
     | (Txt _, Num _) \<Rightarrow> False | (Txt s, Txt t) \<Rightarrow> s < t)"

instance
  by standard (auto simp: less_eq_key_part_def less_key_part_def split: key_part.splits)

end

definition UNKNOWN_PLACE :: string where
  "UNKNOWN_PLACE = ''Mesto ne ukazano''"

text \<open>\<open>re.compile(r"(\d+)").split\<close>: texts at the even positions, digit runs at the odd ones.\<close>

function split_digits :: "string \<Rightarrow> string list" where
  "split_digits s = (let t = takeWhile (\<lambda>c. \<not> is_dig c) s; r = dropWhile (\<lambda>c. \<not> is_dig c) s
     in if r = [] then [t] else t # takeWhile is_dig r # split_digits (dropWhile is_dig r))"
  by pat_completeness auto
termination
proof (relation "measure length")
  fix s :: string and t r
  assume r: "r = dropWhile (\<lambda>c. \<not> is_dig c) s" "r \<noteq> []"
  then have "is_dig (hd r)" using hd_dropWhile[of "\<lambda>c. \<not> is_dig c" s] by simp
  then have "length (dropWhile is_dig r) < length r" using r(2) by (cases r) (auto simp: length_dropWhile_le le_imp_less_Suc)
  also have "\<dots> \<le> length s" using r(1) by (simp add: length_dropWhile_le)
  finally show "(dropWhile is_dig r, s) \<in> measure length" by simp
qed simp

declare split_digits.simps [simp del]

definition key_of_part :: "string \<Rightarrow> exn + key_part" where
  "key_of_part p = (if isdigit p
     then (if list_all is_dig p then (case py_int p of Inl x \<Rightarrow> Inl x | Inr n \<Rightarrow> Inr (Num n)) else Inl ValueError)
     else Inr (Txt (lower p)))"

definition place_sort_key :: "string \<Rightarrow> exn + bool \<times> key_part list" where
  "place_sort_key place = (case all_ok (map key_of_part (split_digits place)) of Inl x \<Rightarrow> Inl x
     | Inr ps \<Rightarrow> Inr (place = UNKNOWN_PLACE, ps))"

section \<open>The page\<close>

definition batch_place :: "batch \<Rightarrow> string" where
  "batch_place b = (if strip (or_empty (b_location b)) \<noteq> [] then strip (or_empty (b_location b))
     else if strip (or_empty (b_comment b)) \<noteq> [] then strip (or_empty (b_comment b)) else UNKNOWN_PLACE)"

record place_row =
  pl_batch :: batch
  pl_product :: product
  pl_warehouse :: warehouse
  pl_place :: string

definition open_rows :: "env \<Rightarrow> db \<Rightarrow> place_row list" where
  "open_rows e d = concat (map (\<lambda>b. case (get_product d (b_product_id b), get_warehouse d (b_warehouse_id b)) of
       (Some p, Some wh) \<Rightarrow> if 0 < b_quantity b \<and> warehouse_scope e (Some (b_warehouse_id b))
          then [\<lparr>pl_batch = b, pl_product = p, pl_warehouse = wh, pl_place = batch_place b\<rparr>] else []
     | _ \<Rightarrow> []) (batches d))"

fun place_totals :: "place_row list \<Rightarrow> (string \<times> nat \<times> int) list \<Rightarrow> (string \<times> nat \<times> int) list" where
  "place_totals [] acc = acc"
| "place_totals (r # rs) acc = (let (n, q) = (case map_of acc (pl_place r) of None \<Rightarrow> (0, 0) | Some e \<Rightarrow> e)
     in place_totals rs (dict_set (pl_place r) (n + 1, q + b_quantity (pl_batch r)) acc))"

text \<open>\<open>sorted\<close> by a key that may raise: the keys of all elements are computed first.\<close>

definition sort_keyed :: "('a \<Rightarrow> exn + 'k::linorder) \<Rightarrow> 'a list \<Rightarrow> exn + 'a list" where
  "sort_keyed k xs = (case all_ok (map k xs) of Inl x \<Rightarrow> Inl x
     | Inr ks \<Rightarrow> Inr (map snd (sort_key fst (zip ks xs))))"

definition place_summary :: "place_row list \<Rightarrow> exn + (string \<times> nat \<times> int) list" where
  "place_summary rows = sort_keyed (\<lambda>e. place_sort_key (fst e)) (place_totals rows [])"

definition row_name :: "place_row \<Rightarrow> string" where
  "row_name r = (if or_empty (p_name_lc (pl_product r)) = [] then lower (p_name (pl_product r))
     else or_empty (p_name_lc (pl_product r)))"

definition place_row_key :: "place_row \<Rightarrow> exn + (bool \<times> key_part list) \<times> string \<times> string" where
  "place_row_key r = (case place_sort_key (pl_place r) of Inl x \<Rightarrow> Inl x
     | Inr k \<Rightarrow> Inr (k, row_name r, or_empty (b_expiry (pl_batch r))))"

definition place_matches :: "string \<Rightarrow> string \<Rightarrow> place_row \<Rightarrow> bool" where
  "place_matches q_lc place_q r \<longleftrightarrow> (place_q = [] \<or> pl_place r = place_q) \<and>
     (q_lc = [] \<or> sublist q_lc (row_name r) \<or> sublist q_lc (lower (or_empty (p_code (pl_product r)))))"

datatype locations_listing = Rows "place_row list" | Places "(string \<times> nat \<times> int) list"

record locations_page =
  lo_listing :: locations_listing
  lo_places :: "(string \<times> nat \<times> int) list"
  lo_page :: int
  lo_total :: nat
  lo_total_pages :: int

definition list_locations_view :: "env \<Rightarrow> db \<Rightarrow> string \<Rightarrow> string \<Rightarrow> int \<Rightarrow> exn + locations_page" where
  "list_locations_view e d q place page0 =
     (let rows = open_rows e d; place_q = strip place; q_lc = lower (strip q);
          page = (\<lambda>listing places n. \<lparr>lo_listing = listing, lo_places = places,
             lo_page = clamp_page (nat LIST_PAGE_SIZE) n page0, lo_total = n, lo_total_pages = pages_of (nat LIST_PAGE_SIZE) n\<rparr>)
      in case place_summary rows of Inl x \<Rightarrow> Inl x
         | Inr places \<Rightarrow>
             if q_lc = [] \<and> place_q = [] then Inr (page (Places (page_slice (nat LIST_PAGE_SIZE)
                 (clamp_page (nat LIST_PAGE_SIZE) (length places) page0) places)) places (length places))
             else (case sort_keyed place_row_key (filter (place_matches q_lc place_q) rows) of Inl x \<Rightarrow> Inl x
               | Inr sorted_rows \<Rightarrow> Inr (page (Rows (page_slice (nat LIST_PAGE_SIZE)
                   (clamp_page (nat LIST_PAGE_SIZE) (length sorted_rows) page0) sorted_rows)) places (length sorted_rows))))"

section \<open>Order and totals\<close>

lemma all_ok_map: "(\<And>x. x \<in> set xs \<Longrightarrow> f x = Inr (g x)) \<Longrightarrow> all_ok (map f xs) = Inr (map g xs)"
  by (induction xs) auto

lemma all_ok_raises: "x \<in> set xs \<Longrightarrow> f x = Inl err \<Longrightarrow> \<exists>err'. all_ok (map f xs) = Inl err'"
  by (induction xs) (auto split: sum.splits)

lemma split_number:
  assumes "list_all (\<lambda>c. \<not> is_dig c) t" "ds \<noteq> []" "list_all is_dig ds"
  shows "split_digits (t @ ds) = [t, ds, []]"
proof -
  have nt: "takeWhile (\<lambda>c. \<not> is_dig c) (t @ ds) = t" "dropWhile (\<lambda>c. \<not> is_dig c) (t @ ds) = ds"
    using assms by (cases ds; auto simp: takeWhile_append list_all_iff dropWhile_append)+
  have d: "takeWhile is_dig ds = ds" "dropWhile is_dig ds = []" using assms(3) by (auto simp: list_all_iff)
  have "split_digits [] = [[]]" by (subst split_digits.simps) simp
  then show ?thesis using assms(2) by (subst split_digits.simps) (simp add: nt d Let_def)
qed

lemma key_of_digits: "ds \<noteq> [] \<Longrightarrow> list_all is_dig ds \<Longrightarrow> length ds \<le> 4300 \<Longrightarrow> key_of_part ds = Inr (Num (int (digits_val ds)))"
  by (auto simp: key_of_part_def isdigit_def py_int_def list_all_iff)

text \<open>Shelves sort by number: two places with the same text before their number compare as the numbers,
  so shelf 5 stands before shelf 39, which plain text order would reverse.\<close>

theorem places_natural_order:
  assumes "list_all (\<lambda>c. \<not> is_dig c) t" "\<not> isdigit t" "length (show_nat m) \<le> 4300" "length (show_nat n) \<le> 4300"
  shows "\<exists>j k. place_sort_key (t @ show_nat m) = Inr j \<and> place_sort_key (t @ show_nat n) = Inr k \<and> (j < k \<longleftrightarrow> m < n)"
proof -
  have nd: "\<not> list_ex is_dig UNKNOWN_PLACE" by (simp add: UNKNOWN_PLACE_def is_dig_def ord_of_def)
  have k: "place_sort_key (t @ show_nat i) = Inr (False, [Txt (lower t), Num (int i), Txt []])"
    if "length (show_nat i) \<le> 4300" for i
  proof -
    have "list_ex is_dig (t @ show_nat i)" using show_nat_digs[of i] show_nat_nonempty[of i]
      by (cases "show_nat i") auto
    then have "t @ show_nat i \<noteq> UNKNOWN_PLACE" using nd by metis
    moreover have "key_of_part t = Inr (Txt (lower t))" using assms(2) by (simp add: key_of_part_def)
    moreover have "key_of_part [] = Inr (Txt [])" by (simp add: key_of_part_def isdigit_def lower_def)
    ultimately show ?thesis
      using split_number[OF assms(1) show_nat_nonempty show_nat_digs, of i] key_of_digits[OF show_nat_nonempty show_nat_digs that]
      by (simp add: place_sort_key_def)
  qed
  have "((False, [Txt (lower t), Num (int m), Txt []]) < (False, [Txt (lower t), Num (int n), Txt []])) \<longleftrightarrow> m < n"
    by (auto simp: less_prod_def less_le_not_le Cons_less_Cons less_key_part_def less_eq_key_part_def)
  then show ?thesis using k[OF assms(3)] k[OF assms(4)] by blast
qed

lemma sort_keyed_Inr:
  assumes "sort_keyed k xs = Inr ys"
  shows "mset ys = mset xs" "x \<in> set xs \<Longrightarrow> k x \<noteq> Inl err"
proof -
  from assms obtain ks where ks: "all_ok (map k xs) = Inr ks" and ys: "ys = map snd (sort_key fst (zip ks xs))"
    by (auto simp: sort_keyed_def split: sum.splits)
  have l: "length ks = length xs" using all_ok_Inr[OF ks] by (metis length_map)
  have "mset ys = mset (map snd (zip ks xs))" unfolding ys by simp
  then show "mset ys = mset xs" using l by simp
  show "x \<in> set xs \<Longrightarrow> k x \<noteq> Inl err" using all_ok_raises[of x xs k err] ks by auto
qed

lemma place_totals_sums:
  assumes "distinct (map fst acc)"
  shows "distinct (map fst (place_totals rows acc))"
    "sum_list (map (\<lambda>(pl, n, q). q) (place_totals rows acc))
       = sum_list (map (\<lambda>(pl, n, q). q) acc) + sum_list (map (\<lambda>r. b_quantity (pl_batch r)) rows)"
    "sum_list (map (\<lambda>(pl, n, q). int n) (place_totals rows acc))
       = sum_list (map (\<lambda>(pl, n, q). int n) acc) + int (length rows)"
proof -
  have upd: "sum_list (map (\<lambda>(pl, e). f e) (dict_set k v acc))
      = sum_list (map (\<lambda>(pl, e). f e) acc) - (case map_of acc k of None \<Rightarrow> 0 | Some u \<Rightarrow> f u) + f v"
    if "distinct (map fst acc)" for f :: "nat \<times> int \<Rightarrow> int" and k v and acc :: "(string \<times> nat \<times> int) list"
    using sum_dict_set[OF that, of f k v] by (simp add: comp_def split_def)
  have "distinct (map fst (place_totals rows acc)) \<and>
    sum_list (map (\<lambda>(pl, n, q). q) (place_totals rows acc))
       = sum_list (map (\<lambda>(pl, n, q). q) acc) + sum_list (map (\<lambda>r. b_quantity (pl_batch r)) rows) \<and>
    sum_list (map (\<lambda>(pl, n, q). int n) (place_totals rows acc))
       = sum_list (map (\<lambda>(pl, n, q). int n) acc) + int (length rows)"
    using assms
  proof (induction rows acc rule: place_totals.induct)
    case (1 acc)
    then show ?case by simp
  next
    case (2 r rs acc)
    obtain n q where nq: "(case map_of acc (pl_place r) of None \<Rightarrow> (0, 0) | Some e \<Rightarrow> e) = (n, q)" by fastforce
    have "distinct (map fst (dict_set (pl_place r) (n + 1, q + b_quantity (pl_batch r)) acc))"
      using 2(2) by (rule distinct_update)
    from 2(1)[OF nq[symmetric] refl this] show ?case
      using upd[OF 2(2), of "\<lambda>(n, q). q" "pl_place r"] upd[OF 2(2), of "\<lambda>(n, q). int n" "pl_place r"] nq
      by (auto simp: split_def split: option.splits)
  qed
  then show "distinct (map fst (place_totals rows acc))"
    "sum_list (map (\<lambda>(pl, n, q). q) (place_totals rows acc))
       = sum_list (map (\<lambda>(pl, n, q). q) acc) + sum_list (map (\<lambda>r. b_quantity (pl_batch r)) rows)"
    "sum_list (map (\<lambda>(pl, n, q). int n) (place_totals rows acc))
       = sum_list (map (\<lambda>(pl, n, q). int n) acc) + int (length rows)" by auto
qed

text \<open>The map of places hides nothing: its places are distinct, and their batches and pieces add up to the
  open batches in scope.\<close>

lemma place_summary_complete:
  assumes "place_summary rows = Inr places"
  shows "distinct (map fst places)" "sum_list (map (\<lambda>(pl, n, q). q) places) = sum_list (map (\<lambda>r. b_quantity (pl_batch r)) rows)"
    "sum_list (map (\<lambda>(pl, n, q). int n) places) = int (length rows)"
proof -
  have m: "mset places = mset (place_totals rows [])" using sort_keyed_Inr(1)[OF assms[unfolded place_summary_def]] .
  have s: "sum_list (map f places) = sum_list (map f (place_totals rows []))" for f :: "string \<times> nat \<times> int \<Rightarrow> int"
    using m by (metis mset_map sum_mset_sum_list)
  have "mset (map fst places) = mset (map fst (place_totals rows []))" using m by simp
  then show "distinct (map fst places)" using place_totals_sums(1)[of "[]" rows] by (metis distinct.simps(1) list.map(1) mset_eq_imp_distinct_iff)
  show "sum_list (map (\<lambda>(pl, n, q). q) places) = sum_list (map (\<lambda>r. b_quantity (pl_batch r)) rows)"
    using s place_totals_sums(2)[of "[]" rows] by simp
  show "sum_list (map (\<lambda>(pl, n, q). int n) places) = int (length rows)"
    using s place_totals_sums(3)[of "[]" rows] by simp
qed

text \<open>One place whose key raises closes the page, whatever is asked of it.\<close>

lemma place_totals_keys: "fst ` set (place_totals rows acc) = pl_place ` set rows \<union> fst ` set acc"
proof (induction rows acc rule: place_totals.induct)
  case (1 acc)
  then show ?case by simp
next
  case (2 r rs acc)
  obtain n q where nq: "(case map_of acc (pl_place r) of None \<Rightarrow> (0, 0) | Some e \<Rightarrow> e) = (n, q)" by fastforce
  have "fst ` set (dict_set k v acc) = insert k (fst ` set acc)" for k :: string and v :: "nat \<times> int"
    by (simp add: dom_update)
  then show ?case using 2[OF nq[symmetric] refl] nq by simp
qed

lemma bad_place_closes_page:
  assumes "r \<in> set (open_rows e d)" "place_sort_key (pl_place r) = Inl x"
  shows "\<exists>y. list_locations_view e d q place page = Inl y"
proof -
  have "pl_place r \<in> fst ` set (place_totals (open_rows e d) [])" using assms(1) by (auto simp: place_totals_keys)
  then obtain en where "en \<in> set (place_totals (open_rows e d) [])" "place_sort_key (fst en) = Inl x" using assms(2) by auto
  from all_ok_raises[OF this(1), of "\<lambda>en. place_sort_key (fst en)", OF this(2)]
  obtain y where "place_summary (open_rows e d) = Inl y" by (auto simp: place_summary_def sort_keyed_def)
  then show ?thesis by (simp add: list_locations_view_def Let_def)
qed

end
