(* ===== verification/SaleRoutes.thy ===== *)
theory SaleRoutes
  imports Prefill Customers Sales
begin

text \<open>
  The sale pages: \<open>src/app/routes/sales.py\<close> (one form with a basket of rows) and \<open>mobile_sales.py\<close> (a
  wizard that collects one line at a time in four lists of hidden fields). A handler is a function
  from the submitted fields to the page it renders and the session after it; the page is what the
  template gets, and the hidden fields of a wizard page are what the next step posts. The theorems: a
  page sells what the service sells and nothing else, its messages stand at the rows they belong to,
  both forms sell the same basket alike, and what the pickers offer the service takes.
\<close>

section \<open>The customer of a sale\<close>

definition CUSTOMER_MODES :: "string list" where
  "CUSTOMER_MODES = [''new'', ''existing'', ''anon'']"

type_synonym fields_echo = "(string \<times> string) list"

record customer_box =
  cb_mode :: string
  cb_customer_id :: string
  cb_selected :: "customer option"
  cb_form :: fields_echo

definition chosen_mode :: "string \<Rightarrow> string" where
  "chosen_mode mode = (if mode \<in> set CUSTOMER_MODES then mode else ''existing'')"

definition customer_context :: "db \<Rightarrow> string \<Rightarrow> string \<Rightarrow> fields_echo \<Rightarrow> customer_box" where
  "customer_context d mode0 customer_id form =
     (let mode = chosen_mode mode0;
          selected = (if mode = ''existing'' \<and> customer_id \<noteq> [] then get_customer d customer_id else None)
      in \<lparr>cb_mode = mode, cb_customer_id = (case selected of None \<Rightarrow> [] | Some c \<Rightarrow> c_id c),
          cb_selected = selected, cb_form = form\<rparr>)"

text \<open>The page of the selector: the box, the echo of an id that is not in use, and the errors.\<close>

record customer_page =
  cp_status :: nat
  cp_box :: customer_box
  cp_keep :: string
  cp_errors :: errors

definition sale_customer_mode ::
  "db \<Rightarrow> string \<Rightarrow> string \<Rightarrow> string \<Rightarrow> fields_echo \<Rightarrow> customer_page" where
  "sale_customer_mode d mode customer_id customer_id_keep form =
     (let raw_id = (if customer_id \<noteq> [] then customer_id else customer_id_keep)
      in \<lparr>cp_status = 200, cp_box = customer_context d mode raw_id form, cp_keep = raw_id, cp_errors = []\<rparr>)"

definition quick_form :: "string \<Rightarrow> string \<Rightarrow> string \<Rightarrow> customer_form" where
  "quick_form name surname consultant_number =
     \<lparr>cf_name = name, cf_surname = surname, cf_consultant_number = consultant_number, cf_address = [], cf_contacts = None\<rparr>"

definition typed_customer :: "string \<Rightarrow> string \<Rightarrow> string \<Rightarrow> fields_echo" where
  "typed_customer name surname consultant_number =
     [(''name'', name), (''surname'', surname), (''consultant_number'', consultant_number)]"

text \<open>\<open>POST /sales/customer\<close>; the phone's handler echoes its search text in addition.\<close>

definition customer_create_with ::
  "fields_echo \<Rightarrow> env \<Rightarrow> (nat \<Rightarrow> int) \<Rightarrow> string \<Rightarrow> string \<Rightarrow> string \<Rightarrow> world \<Rightarrow> customer_page \<times> world" where
  "customer_create_with extra e clk name surname consultant_number w =
     (let typed = typed_customer name surname consultant_number @ extra;
          page = (\<lambda>d es. \<lparr>cp_status = 422, cp_box = customer_context d ''new'' [] typed, cp_keep = [], cp_errors = es\<rparr>)
      in case create_customer e clk (quick_form name surname consultant_number) w of
          (Raised x, w1) \<Rightarrow> (page (cur (rollback w1)) [(''quick_create'', SaveFailed)], rollback w1)
        | (Errors es, w1) \<Rightarrow> (page (cur w1) es, w1)
        | (Warn u, w1) \<Rightarrow> (page (cur w1) [], w1)
        | (Ok c, w1) \<Rightarrow> (\<lparr>cp_status = 200, cp_box = customer_context (cur w1) ''existing'' (c_id c) [], cp_keep = [],
             cp_errors = []\<rparr>, w1))"

definition sale_customer_create ::
  "env \<Rightarrow> (nat \<Rightarrow> int) \<Rightarrow> string \<Rightarrow> string \<Rightarrow> string \<Rightarrow> world \<Rightarrow> customer_page \<times> world" where
  "sale_customer_create e clk name surname consultant_number w =
     customer_create_with [] e clk name surname consultant_number w"

definition mobile_sale_customer_create ::
  "env \<Rightarrow> (nat \<Rightarrow> int) \<Rightarrow> string \<Rightarrow> string \<Rightarrow> string \<Rightarrow> string \<Rightarrow> world \<Rightarrow> customer_page \<times> world" where
  "mobile_sale_customer_create e clk name surname consultant_number customer_q w =
     customer_create_with [(''customer_q'', customer_q)] e clk name surname consultant_number w"

section \<open>Rows\<close>

text \<open>\<open>re.compile(r"[0-9a-fA-F-]{1,36}").fullmatch\<close>\<close>

definition row_id_ok :: "string \<Rightarrow> bool" where
  "row_id_ok s \<longleftrightarrow> s \<noteq> [] \<and> length s \<le> 36
     \<and> list_all (\<lambda>c. is_dig c \<or> 97 \<le> ord_of c \<and> ord_of c \<le> 102 \<or> 65 \<le> ord_of c \<and> ord_of c \<le> 70 \<or> c = CHR ''-'') s"

definition clean_row :: "string \<Rightarrow> string" where
  "clean_row row = (if strip row \<noteq> [] \<and> \<not> row_id_ok (strip row) then [] else strip row)"

definition sale_row :: "env \<Rightarrow> string \<Rightarrow> world \<Rightarrow> string \<times> world" where
  "sale_row e row w = (if row_id_ok (strip row) then (strip row, w) else new_id e w)"

record basket_row =
  br_row_id :: string
  br_code :: string
  br_qty :: string
  br_price :: string
  br_batch_id :: string
  br_batch :: "batch option"
  br_ref :: "int option"
  br_error_code :: "msg option"
  br_error_qty :: "msg option"
  br_error_price :: "msg option"
  br_error_batch :: "msg option"

definition basket_row_of :: "db \<Rightarrow> errors \<Rightarrow> nat \<Rightarrow> string \<Rightarrow> raw_line \<Rightarrow> basket_row" where
  "basket_row_of d es i row_id raw = (case raw of (code, qty, price, batch_raw) \<Rightarrow>
     (let b = pick_batch d batch_raw;
          currency = (case b of None \<Rightarrow> DEFAULT_CURRENCY | Some x \<Rightarrow> warehouse_currency d (Some (b_warehouse_id x)))
      in \<lparr>br_row_id = row_id, br_code = code, br_qty = qty, br_price = price,
          br_batch_id = (case b of None \<Rightarrow> [] | Some x \<Rightarrow> b_id x), br_batch = b,
          br_ref = snd (reference_prices_for_code d code (Some currency)),
          br_error_code = map_of es (line_key ''code'' i), br_error_qty = map_of es (line_key ''qty'' i),
          br_error_price = map_of es (line_key ''price'' i), br_error_batch = map_of es (line_key ''batch'' i)\<rparr>))"

text \<open>The first row keeps the empty id, every later one gets a fresh one.\<close>

fun build_rows :: "env \<Rightarrow> errors \<Rightarrow> nat \<Rightarrow> raw_line list \<Rightarrow> world \<Rightarrow> basket_row list \<times> world" where
  "build_rows e es i [] w = ([], w)"
| "build_rows e es i (raw # raws) w =
     (let (k, w1) = (if i = 0 then ([], w) else new_id e w);
          (rows, w2) = build_rows e es (Suc i) raws w1
      in (basket_row_of (cur w) es i k raw # rows, w2))"

definition build_lines ::
  "env \<Rightarrow> string list \<Rightarrow> string list \<Rightarrow> string list \<Rightarrow> string list \<Rightarrow> errors \<Rightarrow> world \<Rightarrow> basket_row list \<times> world" where
  "build_lines e codes qtys prices batch_ids es w = build_rows e es 0 (non_blank_lines codes qtys prices batch_ids) w"

section \<open>The desktop form\<close>

datatype page_error = Service_error msg | Save_failed | Press_add_customer

record sale_page =
  sp_status :: nat
  sp_customer :: customer_box
  sp_errors :: "(string \<times> page_error) list"
  sp_lines :: "basket_row list"
  sp_warning :: "((product \<times> batch \<times> int \<times> int) list \<times> (product \<times> int \<times> int) list) option"
  sp_saved :: "(sale \<times> nat \<times> int) option"
  sp_recent :: "(operation \<times> product) list option"

text \<open>The limit of the recent list is the service's default.\<close>

definition RECENT_LIMIT :: nat where
  "RECENT_LIMIT = 10"

definition sale_new_page :: "env \<Rightarrow> db \<Rightarrow> sale_page" where
  "sale_new_page e d = \<lparr>sp_status = 200, sp_customer = customer_context d ''existing'' [] [], sp_errors = [], sp_lines = [],
     sp_warning = None, sp_saved = None, sp_recent = Some (recent_sales e d RECENT_LIMIT)\<rparr>"

text \<open>The customer fields of the form, beside the basket's own.\<close>

record header_form =
  hf_mode :: string
  hf_name :: string
  hf_surname :: string
  hf_consultant_number :: string
  hf_customer_q :: string

definition service_errors :: "errors \<Rightarrow> (string \<times> page_error) list" where
  "service_errors es = map (\<lambda>(k, m). (k, Service_error m)) es"

definition sale_create :: "env \<Rightarrow> header_form \<Rightarrow> sale_form \<Rightarrow> world \<Rightarrow> sale_page \<times> world" where
  "sale_create e h f w =
     (let cid = or_empty (sf_customer_id f);
          echo = typed_customer (hf_name h) (hf_surname h) (hf_consultant_number h) @ [(''op_date'', sf_op_date f)];
          page = (\<lambda>status mode errs warning es w1.
            (let (rows, w2) = build_lines e (sf_codes f) (sf_qtys f) (sf_prices f) (sf_batch_ids f) es w1
             in (\<lparr>sp_status = status, sp_customer = customer_context (cur w1) mode cid echo, sp_errors = errs,
                  sp_lines = rows, sp_warning = warning, sp_saved = None, sp_recent = None\<rparr>, w2)))
      in if chosen_mode (hf_mode h) = ''new'' \<and> strip cid = []
            \<and> (strip (hf_name h) \<noteq> [] \<or> strip (hf_surname h) \<noteq> [] \<or> strip (hf_consultant_number h) \<noteq> [])
         then page 422 ''new'' [(''new_customer'', Press_add_customer)] None [] w
         else case register_sale e f w of
             (Raised x, w1) \<Rightarrow> page 422 (hf_mode h) [(''form'', Save_failed)] None [] (rollback w1)
           | (Warn v, w1) \<Rightarrow> page 200 (hf_mode h) [] (Some v) [] w1
           | (Errors es, w1) \<Rightarrow> page 422 (hf_mode h) (service_errors es) None es w1
           | (Ok r, w1) \<Rightarrow> (\<lparr>sp_status = 200, sp_customer = customer_context (cur w1) ''existing'' [] [], sp_errors = [],
                sp_lines = [], sp_warning = None, sp_saved = Some r, sp_recent = Some (recent_sales e (cur w1) RECENT_LIMIT)\<rparr>, w1))"

section \<open>Lookups of the form\<close>

datatype fill_hint = No_hint | Batch_hint | Card_hint | Converted_hint string

text \<open>The price a picked batch fills in: its own, else the card's in the currency of its warehouse.\<close>

definition batch_fill :: "product \<Rightarrow> batch \<Rightarrow> string \<Rightarrow> int option \<times> fill_hint" where
  "batch_fill p b currency =
     (case b_price_cents b of
        Some c \<Rightarrow> (Some c, Batch_hint)
      | None \<Rightarrow> (card_price_suggestion p ''sale'' (Some currency),
                 if card_price_is_converted p ''sale'' (Some currency) then Converted_hint currency else Card_hint))"

record lookup_page =
  lk_row :: string
  lk_name :: string
  lk_from_card :: bool
  lk_fill_price :: bool
  lk_fill_cents :: "int option"
  lk_hint :: fill_hint
  lk_ref :: "int option"
  lk_batches :: "batch list"
  lk_batch :: "batch option"
  lk_auto_note :: bool
  lk_show_empty :: bool
  lk_code :: string

definition cue :: "db \<Rightarrow> string \<Rightarrow> string \<Rightarrow> int option" where
  "cue d code currency = snd (reference_prices_for_code d code (Some currency))"

text \<open>\<open>None\<close> is the answer 204. A card with open batches takes its price from the batch alone.\<close>

definition sale_lookup :: "env \<Rightarrow> db \<Rightarrow> string \<Rightarrow> string \<Rightarrow> string \<Rightarrow> string \<Rightarrow> lookup_page option" where
  "sale_lookup e d code name price row =
     (if strip name \<noteq> [] then None
      else case sale_lookup_prefill d code of
          None \<Rightarrow> None
        | Some (From_dictionary nm) \<Rightarrow> Some
            \<lparr>lk_row = clean_row row, lk_name = nm, lk_from_card = False, lk_fill_price = False, lk_fill_cents = None,
             lk_hint = Card_hint, lk_ref = cue d (strip code) DEFAULT_CURRENCY, lk_batches = [], lk_batch = None,
             lk_auto_note = False, lk_show_empty = False, lk_code = strip code\<rparr>
        | Some (From_card nm cents) \<Rightarrow>
            (let plain = \<lparr>lk_row = clean_row row, lk_name = nm, lk_from_card = True, lk_fill_price = (strip price = []),
                   lk_fill_cents = cents, lk_hint = Card_hint, lk_ref = cue d (strip code) DEFAULT_CURRENCY,
                   lk_batches = [], lk_batch = None, lk_auto_note = False, lk_show_empty = False, lk_code = strip code\<rparr>
             in case active_product d (strip code) of
                  None \<Rightarrow> Some plain
                | Some p \<Rightarrow>
                    (case open_batches e d (p_id p) None of
                       [] \<Rightarrow> Some (plain\<lparr>lk_show_empty := True\<rparr>)
                     | [b] \<Rightarrow>
                         (let currency = warehouse_currency d (Some (b_warehouse_id b));
                              one = plain\<lparr>lk_fill_price := False, lk_batches := [b], lk_batch := Some b, lk_auto_note := True,
                                lk_ref := cue d (strip code) currency\<rparr>
                          in Some (if strip price \<noteq> [] then one
                                   else one\<lparr>lk_fill_price := True, lk_fill_cents := fst (batch_fill p b currency),
                                     lk_hint := snd (batch_fill p b currency)\<rparr>))
                     | bs \<Rightarrow> Some (plain\<lparr>lk_fill_price := False, lk_batches := bs\<rparr>))))"

definition sale_search_name ::
  "db \<Rightarrow> string \<Rightarrow> string \<Rightarrow> ((product \<times> (string \<times> string \<times> string) \<times> string \<times> string \<times> string) list \<times> string \<times> string \<times> string) option" where
  "sale_search_name d q row0 =
     (let row = clean_row row0; mk = (\<lambda>x. if row = [] then x else x @ ''-'' @ row)
      in if length (strip q) < 3 then None
         else Some (search_view d (strip q), (if row = [] then ''code'' else ''code-'' @ row), mk ''name-input'', mk ''name-dropdown''))"

text \<open>The batch of a click, once its owner is checked.\<close>

definition own_pick :: "db \<Rightarrow> product option \<Rightarrow> string \<Rightarrow> batch option" where
  "own_pick d p batch_id =
     (case p of None \<Rightarrow> None
      | Some q \<Rightarrow> if batch_id = [] then None
          else (case get_batch d batch_id of None \<Rightarrow> None
                | Some b \<Rightarrow> if b_product_id b = p_id q then Some b else None))"

definition offered :: "env \<Rightarrow> db \<Rightarrow> product option \<Rightarrow> batch list" where
  "offered e d p = (case p of None \<Rightarrow> [] | Some q \<Rightarrow> open_batches e d (p_id q) None)"

definition picked_currency :: "db \<Rightarrow> batch option \<Rightarrow> string" where
  "picked_currency d b = (case b of None \<Rightarrow> DEFAULT_CURRENCY | Some x \<Rightarrow> warehouse_currency d (Some (b_warehouse_id x)))"

definition picked_fill :: "db \<Rightarrow> product option \<Rightarrow> batch option \<Rightarrow> int option \<times> fill_hint" where
  "picked_fill d p b = (case (p, b) of (Some q, Some x) \<Rightarrow> batch_fill q x (picked_currency d b) | _ \<Rightarrow> (None, No_hint))"

record pick_page =
  pk_row :: string
  pk_code :: string
  pk_batches :: "batch list"
  pk_batch :: "batch option"
  pk_fill_price :: bool
  pk_fill :: "int option \<times> fill_hint"
  pk_ref :: "int option"

definition sale_batch_pick :: "env \<Rightarrow> db \<Rightarrow> string \<Rightarrow> string \<Rightarrow> string \<Rightarrow> pick_page" where
  "sale_batch_pick e d row batch_id code =
     (let p = active_product d (strip code); b = own_pick d p batch_id
      in \<lparr>pk_row = clean_row row, pk_code = strip code, pk_batches = offered e d p, pk_batch = b,
          pk_fill_price = (b \<noteq> None), pk_fill = picked_fill d p b, pk_ref = cue d (strip code) (picked_currency d b)\<rparr>)"

section \<open>The wizard\<close>

text \<open>The four lists of hidden fields that every step echoes.\<close>

record acc =
  ac_codes :: "string list"
  ac_qtys :: "string list"
  ac_prices :: "string list"
  ac_batches :: "string list"

record mobile_line =
  ml_code :: string
  ml_qty :: string
  ml_price :: string
  ml_batch_id :: string
  ml_name :: string
  ml_batch :: "batch option"
  ml_warehouse :: "string option"

datatype screen =
    Product_screen string "msg option" acc
  | Batch_screen string string "batch list" "batch option" bool "(string \<times> string) list" acc
  | Qty_screen string string "batch option" "int option \<times> fill_hint" "int option" bool "string option" acc
  | Basket_screen customer_box "(string \<times> page_error) list" "mobile_line list"
  | Warning_screen customer_box "(product \<times> batch \<times> int \<times> int) list \<times> (product \<times> int \<times> int) list" "mobile_line list"
  | Saved_screen "sale \<times> nat \<times> int"

definition empty_acc :: acc where
  "empty_acc = \<lparr>ac_codes = [], ac_qtys = [], ac_prices = [], ac_batches = []\<rparr>"

definition warehouse_names :: "env \<Rightarrow> db \<Rightarrow> (string \<times> string) list" where
  "warehouse_names e d = fold (\<lambda>wh m. dict_set (w_id wh) (w_name wh) m) (active_warehouses e d True) []"

definition mobile_sales_page :: "string \<Rightarrow> screen" where
  "mobile_sales_page code = Product_screen code None empty_acc"

text \<open>Every step answers with a status and a screen.\<close>

definition mobile_sale_step_product :: "env \<Rightarrow> db \<Rightarrow> string \<Rightarrow> string \<Rightarrow> acc \<Rightarrow> nat \<times> screen" where
  "mobile_sale_step_product e d code back a =
     (let code_clean = strip code in
      if back = ''1'' \<or> code_clean = [] then (200, Product_screen code None a)
      else case sale_lookup_prefill d code_clean of
          None \<Rightarrow> (422, Product_screen code (Some (ProductNotFound code_clean)) a)
        | Some (From_dictionary nm) \<Rightarrow>
            (200, Qty_screen code_clean nm None (None, No_hint) (cue d code_clean DEFAULT_CURRENCY) False None a)
        | Some (From_card nm cents) \<Rightarrow>
            (let bs = offered e d (active_product d code_clean)
             in (200, Batch_screen code_clean nm bs (case bs of [b] \<Rightarrow> Some b | _ \<Rightarrow> None) (length bs = 1) (warehouse_names e d) a)))"

definition mobile_sale_step_batch :: "env \<Rightarrow> db \<Rightarrow> string \<Rightarrow> string \<Rightarrow> acc \<Rightarrow> nat \<times> screen" where
  "mobile_sale_step_batch e d batch_id code a =
     (let p = active_product d (strip code)
      in (200, Batch_screen (strip code) (case p of None \<Rightarrow> [] | Some q \<Rightarrow> p_name q) (offered e d p) (own_pick d p batch_id)
            False (warehouse_names e d) a))"

definition mobile_sale_step_qty_price :: "env \<Rightarrow> db \<Rightarrow> string \<Rightarrow> string \<Rightarrow> acc \<Rightarrow> nat \<times> screen" where
  "mobile_sale_step_qty_price e d code batch_id a =
     (let p = active_product d (strip code); b = own_pick d p batch_id
      in (200, Qty_screen (strip code) (case p of None \<Rightarrow> [] | Some q \<Rightarrow> p_name q) b (picked_fill d p b)
            (cue d (strip code) (picked_currency d b)) True
            (case b of None \<Rightarrow> None | Some x \<Rightarrow> map_of (warehouse_names e d) (b_warehouse_id x)) a))"

definition mobile_line_of :: "env \<Rightarrow> db \<Rightarrow> string \<times> string \<times> string \<times> string \<Rightarrow> mobile_line" where
  "mobile_line_of e d raw = (case raw of (code, qty, price, batch_id) \<Rightarrow>
     (let p = active_product d (strip code);
          b0 = (if batch_id = [] then None else get_batch d batch_id);
          b = (case (b0, p) of (Some x, Some q) \<Rightarrow> if b_product_id x \<noteq> p_id q then None else b0 | _ \<Rightarrow> b0)
      in \<lparr>ml_code = code, ml_qty = qty, ml_price = price, ml_batch_id = batch_id,
          ml_name = (case p of None \<Rightarrow> strip code | Some q \<Rightarrow> p_name q), ml_batch = b,
          ml_warehouse = (case b of None \<Rightarrow> None | Some x \<Rightarrow> map_of (warehouse_names e d) (b_warehouse_id x))\<rparr>))"

definition basket_lines :: "env \<Rightarrow> db \<Rightarrow> acc \<Rightarrow> mobile_line list" where
  "basket_lines e d a = map (mobile_line_of e d) (zip (ac_codes a) (zip (ac_qtys a) (zip (ac_prices a) (ac_batches a))))"

definition mobile_sale_step_basket_add ::
  "env \<Rightarrow> db \<Rightarrow> string \<Rightarrow> string \<Rightarrow> string \<Rightarrow> string \<Rightarrow> acc \<Rightarrow> nat \<times> screen" where
  "mobile_sale_step_basket_add e d code qty price batch_id a =
     (200, Basket_screen (customer_context d ''existing'' [] []) []
        (basket_lines e d \<lparr>ac_codes = ac_codes a @ [code], ac_qtys = ac_qtys a @ [qty], ac_prices = ac_prices a @ [price],
           ac_batches = ac_batches a @ [batch_id]\<rparr>))"

text \<open>\<open>POST /m/sales\<close>: the lists of the basket page are those of the sale form.\<close>

definition mobile_sale_create :: "env \<Rightarrow> header_form \<Rightarrow> sale_form \<Rightarrow> world \<Rightarrow> (nat \<times> screen) \<times> world" where
  "mobile_sale_create e h f w =
     (let cid = or_empty (sf_customer_id f);
          echo = [(''customer_q'', hf_customer_q h), (''name'', hf_name h), (''surname'', hf_surname h),
                  (''consultant_number'', hf_consultant_number h)];
          a = \<lparr>ac_codes = sf_codes f, ac_qtys = sf_qtys f, ac_prices = sf_prices f, ac_batches = sf_batch_ids f\<rparr>;
          box = (\<lambda>w1. customer_context (cur w1) (hf_mode h) cid echo); lines = (\<lambda>w1. basket_lines e (cur w1) a)
      in case register_sale e f w of
          (Raised x, w1) \<Rightarrow> ((422, Basket_screen (box (rollback w1)) [(''form'', Save_failed)] (lines (rollback w1))), rollback w1)
        | (Warn v, w1) \<Rightarrow> ((200, Warning_screen (box w1) v (lines w1)), w1)
        | (Errors es, w1) \<Rightarrow> ((422, Basket_screen (box w1) (service_errors es) (lines w1)), w1)
        | (Ok r, w1) \<Rightarrow> ((200, Saved_screen r), w1))"

section \<open>What a page sells\<close>

lemma rollback_saved [simp]: "saved (rollback w) = saved w"
  by (simp add: rollback_def)

lemma build_rows_world:
  "saved (snd (build_rows e es i raws w)) = saved w" "cur (snd (build_rows e es i raws w)) = cur w"
  by (induction raws arbitrary: i w) (auto simp: split_beta new_id_def)

lemma build_rows_nth:
  "length (fst (build_rows e es i raws w)) = length raws
   \<and> (\<forall>j < length raws. \<exists>k. fst (build_rows e es i raws w) ! j = basket_row_of (cur w) es (i + j) k (raws ! j))"
proof (induction raws arbitrary: i w)
  case (Cons raw raws)
  let ?w1 = "snd (if i = 0 then ([], w) else new_id e w)"
  have "cur ?w1 = cur w" by (simp add: new_id_def)
  with Cons.IH[of "Suc i" ?w1] show ?case by (auto simp: split_beta nth_Cons' less_Suc_eq_0_disj)
qed simp

lemma line_key_heads:
  "hd (line_key ''code'' i) = CHR ''c''" "hd (line_key ''qty'' i) = CHR ''q''" "hd (line_key ''price'' i) = CHR ''p''"
  "hd (line_key ''batch'' i) = CHR ''b''"
  by (simp_all add: line_key_def)

lemma line_keys_apart:
  "k \<in> {line_key ''code'' i, line_key ''qty'' i, line_key ''price'' i, line_key ''batch'' i}
     \<Longrightarrow> k \<noteq> ''form'' \<and> k \<noteq> ''new_customer''"
  using line_key_heads[of i] by auto

lemma map_of_service_errors: "map_of (service_errors es) k = map_option Service_error (map_of es k)"
  unfolding service_errors_def by (induction es) auto

text \<open>The four fields of a row with their messages.\<close>

definition row_shows :: "(string \<times> page_error) list \<Rightarrow> nat \<Rightarrow> raw_line \<Rightarrow> basket_row \<Rightarrow> bool" where
  "row_shows errs j raw r \<longleftrightarrow> (case raw of (code, qty, price, batch_raw) \<Rightarrow>
     br_code r = code \<and> br_qty r = qty \<and> br_price r = price
     \<and> map_option Service_error (br_error_code r) = map_of errs (line_key ''code'' j)
     \<and> map_option Service_error (br_error_qty r) = map_of errs (line_key ''qty'' j)
     \<and> map_option Service_error (br_error_price r) = map_of errs (line_key ''price'' j)
     \<and> map_option Service_error (br_error_batch r) = map_of errs (line_key ''batch'' j))"

lemma rows_show:
  assumes "build_lines e cs qs ps bs es w = (rows, w1)"
    and "\<And>j k. k \<in> {line_key ''code'' j, line_key ''qty'' j, line_key ''price'' j, line_key ''batch'' j}
           \<Longrightarrow> map_of errs k = map_option Service_error (map_of es k)"
  shows "length rows = length (non_blank_lines cs qs ps bs) \<and> saved w1 = saved w
    \<and> (\<forall>j < length rows. row_shows errs j (non_blank_lines cs qs ps bs ! j) (rows ! j)
        \<and> br_batch (rows ! j) = pick_batch (cur w) (snd (snd (snd (non_blank_lines cs qs ps bs ! j)))))"
proof -
  let ?raws = "non_blank_lines cs qs ps bs"
  have b: "build_rows e es 0 ?raws w = (rows, w1)" using assms(1) by (simp add: build_lines_def)
  note n = build_rows_nth[of e es 0 ?raws w, unfolded b fst_conv add_0]
  have "row_shows errs j (?raws ! j) (rows ! j) \<and> br_batch (rows ! j) = pick_batch (cur w) (snd (snd (snd (?raws ! j))))"
    if j: "j < length rows" for j
  proof -
    obtain code qty price br where r: "?raws ! j = (code, qty, price, br)" by (metis prod_cases4)
    from n j obtain k where "rows ! j = basket_row_of (cur w) es j k (?raws ! j)" by auto
    moreover have "map_of errs (line_key ''code'' j) = map_option Service_error (map_of es (line_key ''code'' j))"
      "map_of errs (line_key ''qty'' j) = map_option Service_error (map_of es (line_key ''qty'' j))"
      "map_of errs (line_key ''price'' j) = map_option Service_error (map_of es (line_key ''price'' j))"
      "map_of errs (line_key ''batch'' j) = map_option Service_error (map_of es (line_key ''batch'' j))"
      using assms(2)[of _ j] by blast+
    ultimately show ?thesis by (simp add: r row_shows_def basket_row_of_def Let_def)
  qed
  then show ?thesis using n build_rows_world(1)[of e es 0 ?raws w] b by simp
qed


section \<open>The wizard sells what the form sells\<close>

text \<open>The hidden fields of a screen; a saved screen starts over.\<close>

definition posted :: "screen \<Rightarrow> acc" where
  "posted s = (case s of
     Product_screen _ _ a \<Rightarrow> a | Batch_screen _ _ _ _ _ _ a \<Rightarrow> a | Qty_screen _ _ _ _ _ _ _ a \<Rightarrow> a
   | Basket_screen _ _ ls \<Rightarrow> \<lparr>ac_codes = map ml_code ls, ac_qtys = map ml_qty ls, ac_prices = map ml_price ls, ac_batches = map ml_batch_id ls\<rparr>
   | Warning_screen _ _ ls \<Rightarrow> \<lparr>ac_codes = map ml_code ls, ac_qtys = map ml_qty ls, ac_prices = map ml_price ls, ac_batches = map ml_batch_id ls\<rparr>
   | Saved_screen _ \<Rightarrow> empty_acc)"

definition columns :: "raw_line list \<Rightarrow> acc" where
  "columns ls = \<lparr>ac_codes = map fst ls, ac_qtys = map (fst \<circ> snd) ls, ac_prices = map (fst \<circ> snd \<circ> snd) ls,
     ac_batches = map (snd \<circ> snd \<circ> snd) ls\<rparr>"

text \<open>A form whose lists are the hidden fields of the screen.\<close>

definition carries :: "screen \<Rightarrow> sale_form \<Rightarrow> bool" where
  "carries s f \<longleftrightarrow> posted s = \<lparr>ac_codes = sf_codes f, ac_qtys = sf_qtys f, ac_prices = sf_prices f, ac_batches = sf_batch_ids f\<rparr>"

text \<open>What a user does with the wizard, each step against its own database; the list holds the lines in the
  order they were added.\<close>

inductive wizard :: "screen \<Rightarrow> raw_line list \<Rightarrow> bool" where
  opened: "wizard (mobile_sales_page code) []"
| product: "wizard s ls \<Longrightarrow> wizard (snd (mobile_sale_step_product e d code back (posted s))) ls"
| batch: "wizard s ls \<Longrightarrow> wizard (snd (mobile_sale_step_batch e d batch_id code (posted s))) ls"
| quantity: "wizard s ls \<Longrightarrow> wizard (snd (mobile_sale_step_qty_price e d code batch_id (posted s))) ls"
| added: "wizard s ls \<Longrightarrow> wizard (snd (mobile_sale_step_basket_add e d code qty price batch_id (posted s))) (ls @ [(code, qty, price, batch_id)])"
| removed: "wizard (Basket_screen box errs rows) ls \<Longrightarrow> wizard (Basket_screen box errs (take j rows @ drop (Suc j) rows)) (take j ls @ drop (Suc j) ls)"
| removed_warned: "wizard (Warning_screen box v rows) ls \<Longrightarrow> wizard (Warning_screen box v (take j rows @ drop (Suc j) rows)) (take j ls @ drop (Suc j) ls)"
| answered: "wizard s ls \<Longrightarrow> carries s f \<Longrightarrow> mobile_sale_create e h f w = ((status, t), w1)
     \<Longrightarrow> wizard t (case t of Saved_screen _ \<Rightarrow> [] | _ \<Rightarrow> ls)"

lemma columns_zip: "zip (ac_codes (columns ls)) (zip (ac_qtys (columns ls)) (zip (ac_prices (columns ls)) (ac_batches (columns ls)))) = ls"
  by (induction ls) (auto simp: columns_def)

lemma columns_snoc:
  "\<lparr>ac_codes = ac_codes (columns ls) @ [c], ac_qtys = ac_qtys (columns ls) @ [q], ac_prices = ac_prices (columns ls) @ [p],
    ac_batches = ac_batches (columns ls) @ [b]\<rparr> = columns (ls @ [(c, q, p, b)])"
  by (simp add: columns_def)

lemma basket_lines_posted:
  "map ml_code (basket_lines e d (columns ls)) = map fst ls \<and> map ml_qty (basket_lines e d (columns ls)) = map (fst \<circ> snd) ls
   \<and> map ml_price (basket_lines e d (columns ls)) = map (fst \<circ> snd \<circ> snd) ls
   \<and> map ml_batch_id (basket_lines e d (columns ls)) = map (snd \<circ> snd \<circ> snd) ls"
  unfolding basket_lines_def columns_zip by (auto simp: mobile_line_of_def Let_def split_beta)

lemma posted_basket:
  "posted (Basket_screen box errs (basket_lines e d (columns ls))) = columns ls"
  "posted (Warning_screen box v (basket_lines e d (columns ls))) = columns ls"
  using basket_lines_posted[of e d ls] by (simp_all add: posted_def columns_def)

lemma wizard_columns: "wizard s ls \<Longrightarrow> posted s = columns ls"
proof (induction rule: wizard.induct)
  case (opened code)
  show ?case by (simp add: mobile_sales_page_def posted_def empty_acc_def columns_def)
next
  case (product s ls e d code bk)
  then show ?case
    by (auto simp: mobile_sale_step_product_def posted_def Let_def split: option.split sale_prefill.split)
next
  case (batch s ls e d batch_id code)
  then show ?case by (simp add: mobile_sale_step_batch_def posted_def Let_def)
next
  case (quantity s ls e d code batch_id)
  then show ?case by (simp add: mobile_sale_step_qty_price_def posted_def Let_def)
next
  case (added s ls e d code qty price batch_id)
  then show ?case by (simp add: mobile_sale_step_basket_add_def columns_snoc posted_basket)
next
  case (removed box errs rows ls j)
  then show ?case by (simp add: posted_def columns_def flip: take_map drop_map)
next
  case (removed_warned box v rows ls j)
  then show ?case by (simp add: posted_def columns_def flip: take_map drop_map)
next
  case (answered s ls f e h w status t w1)
  then have "\<lparr>ac_codes = sf_codes f, ac_qtys = sf_qtys f, ac_prices = sf_prices f, ac_batches = sf_batch_ids f\<rparr> = columns ls"
    by (simp add: carries_def)
  moreover have "posted (Saved_screen r) = columns []" for r by (simp add: posted_def empty_acc_def columns_def)
  ultimately show ?case using answered(3)
    by (auto simp: mobile_sale_create_def Let_def posted_basket split: prod.splits outcome.splits)
qed


section \<open>What is offered is accepted\<close>

text \<open>The pickers offer nothing the service refuses: every batch that the code lookup of the desktop form lists, the
  one it picks by itself included, belongs to the card of the code, has stock, lies in a warehouse of the
  operator and is accepted as it is posted; with a single batch and no typed price, the price filled in
  is the batch's own or the card's in the currency of the batch's warehouse.\<close>

theorem offered_batch_accepted:
  assumes "sale_lookup e d code name price row = Some pg" and "b \<in> set (lk_batches pg)"
    and "distinct (map b_id (batches d))" "strip (b_id b) = b_id b" "b_id b \<noteq> []"
  shows "\<exists>p. active_product d (strip code) = Some p \<and> owned_batch e d p (b_id b) = Some b \<and> 0 < b_quantity b
    \<and> line_batch e d i (Some p) (b_id b) es = (Some b, es)
    \<and> (lk_fill_price pg \<longrightarrow> lk_batch pg = Some b
        \<and> lk_fill_cents pg = (case b_price_cents b of Some c \<Rightarrow> Some c
            | None \<Rightarrow> card_price_suggestion p ''sale'' (Some (warehouse_currency d (Some (b_warehouse_id b))))))"
proof -
  from assms(1,2) obtain p where p: "active_product d (strip code) = Some p"
    and b: "b \<in> set (open_batches e d (p_id p) None)"
    and fill: "lk_fill_price pg \<Longrightarrow> lk_batch pg = Some b
        \<and> lk_fill_cents pg = fst (batch_fill p b (warehouse_currency d (Some (b_warehouse_id b))))"
    by (auto simp: sale_lookup_def Let_def split: if_splits option.splits sale_prefill.splits list.splits)
  from b have m: "b \<in> set (batches d)" "b_product_id b = p_id p" "0 < b_quantity b" "warehouse_scope e (Some (b_warehouse_id b))"
    by (auto simp: open_batches_def batch_order_def)
  have "get_batch d (b_id b) = Some b" using m(1) assms(3) by (simp add: tget_in)
  then have pick: "pick_batch d (b_id b) = Some b" using assms(4,5) by (simp add: pick_batch_def)
  have "warehouse_allowed e (b_warehouse_id b)" using m(4)
    by (auto simp: warehouse_scope_def warehouse_allowed_def split: option.splits)
  then show ?thesis using p pick m fill
    by (auto simp: owned_batch_def line_batch_def Let_def batch_fill_def split: option.splits)
qed

end
