(* ===== verification/ViewWitnesses.thy ===== *)
theory ViewWitnesses
  imports SyncWitnesses Offline DictEntries CatalogIssues Update Backups Dashboard Export Locations SaleRoutes
begin

text \<open>
  Concrete instances of the properties of the update and the launcher, of the offline file and of the
  pages: one install with a staged bundle, one signed release, one customer card, one catalog.
\<close>

section \<open>One install\<close>

definition base0 :: win_path where
  "base0 = \<lparr>drive = Some ''C:'', rooted = True, parts = [''shop'']\<rparr>"

definition file0 :: dbfile where
  "file0 = \<lparr>schema_of = ''0031'', rows_of_file = ''rows''\<rparr>"

definition pending0 :: pending where
  "pending0 = \<lparr>pd_staged_dir = [''shop'', ''staged''], pd_expected_version = ''1.2'', pd_backup = [''shop'', ''data'', ''b.db'']\<rparr>"

definition install0 :: install where
  "install0 = \<lparr>dirs = (\<lambda>_. None)(App := Some (Whole ''old''), Staged := Some (Whole ''new'')), live_db = Some file0,
     sidecars = True, backups = [[''shop'', ''data'', ''b.db''] \<mapsto> file0], child = Some ''old'', orphans = [],
     pending_marker = Some (Marker (pending_text ''staged'' ''1.2'' ''data/b.db'')), failed_marker = None, notices = [], calls = 0\<rparr>"

definition outside0 :: launcher_env where
  "outside0 = \<lparr>le_fault = (\<lambda>_. None), le_copy = (\<lambda>_. None), le_serves = (\<lambda>c. if c = ''old'' then ''1.1'' else ''1.2''),
     le_migrate = (\<lambda>c f. f\<lparr>schema_of := ''0032''\<rparr>), le_half = (\<lambda>c f. f\<lparr>schema_of := ''half''\<rparr>), le_work = (\<lambda>c f. f)\<rparr>"

text \<open>The sixth call, the migration, fails.\<close>

definition outside1 :: launcher_env where
  "outside1 = outside0\<lparr>le_fault := (\<lambda>k. if k = 5 then Some Failed_call else None)\<rparr>"




section \<open>One signed release\<close>

definition pubkey0 :: string where
  "pubkey0 = ''untrusted comment'' @ [lf] @ ''RWRra2tra2tra3BwcHBwcHBwcHBwcHBwcHBwcHBwcHBwcHBwcHBwcHBw''"

definition signature0 :: string where
  "signature0 = ''untrusted comment'' @ [lf] @
     ''RWRra2tra2tra3Nzc3Nzc3Nzc3Nzc3Nzc3Nzc3Nzc3Nzc3Nzc3Nzc3Nzc3Nzc3Nzc3Nzc3Nzc3Nzc3Nzc3Nzc3Nzc3Nzc3Nzc3M=''"

definition manifest0 :: string where
  "manifest0 = ''version=1.2'' @ [lf] @ ''sha256=abc''"

definition crypto0 :: crypto where
  "crypto0 = \<lparr>ed25519_ok = (\<lambda>key sig msg. key = replicate 32 (CHR ''p'') \<and> sig = replicate 64 (CHR ''s'') \<and> msg = manifest0),
     blake2b = (\<lambda>s. s), sha256_hex = (\<lambda>s. ''abc''), utf8 = Some\<rparr>"

definition release0 :: release where
  "release0 = \<lparr>rl_tag = ''v1.2'', rl_assets = [(''app.zip'', ''https://github.com/a''),
     (''manifest.txt'', ''https://github.com/m''), (''manifest.txt.minisig'', ''https://github.com/s'')], rl_body = None\<rparr>"

definition client_env0 :: update_env where
  "client_env0 = \<lparr>ue_sqlite = True, ue_version = ''1.1'', ue_latest = Some release0,
     ue_download = (\<lambda>u. if u = ''https://github.com/m'' then Some manifest0
        else if u = ''https://github.com/s'' then Some signature0 else Some ''new''),
     ue_pubkey = pubkey0, ue_crypto = crypto0\<rparr>"

definition io0 :: apply_io where
  "io0 = \<lparr>io_unzip = (\<lambda>_. Some [''myorishop.exe'']), io_removed = True, io_extracted = True, io_backed_up = True,
     io_written = True, io_backup_name = [''data'', ''b.db'']\<rparr>"

definition before0 :: install where
  "before0 = install0\<lparr>dirs := (\<lambda>_. None)(App := Some (Whole ''old'')), pending_marker := None\<rparr>"

lemma signature_verifies: "verify_minisign crypto0 manifest0 signature0 pubkey0"
  by code_simp

lemma manifest_read: "manifest_fields manifest0 = [(''version'', ''1.2''), (''sha256'', ''abc'')]"
  by code_simp

lemma assets_read:
  "field ''manifest.txt'' (asset_map release0) = ''https://github.com/m'' \<and> field ''manifest.txt.minisig'' (asset_map release0) = ''https://github.com/s''
   \<and> archive_url (asset_map release0) = ''https://github.com/a''"
  by code_simp

lemma urls_allowed:
  "allowed_url ''https://github.com/m'' \<and> allowed_url ''https://github.com/s'' \<and> allowed_url ''https://github.com/a''"
  by code_simp

lemma version_newer: "version_shape ''1.'' ''1.2'' \<and> is_strictly_newer ''1.2'' ''1.1''"
  by code_simp

lemma downloads:
  "ue_download client_env0 ''https://github.com/m'' = Some manifest0" "ue_download client_env0 ''https://github.com/s'' = Some signature0"
  "ue_download client_env0 ''https://github.com/a'' = Some ''new''" "ue_crypto client_env0 = crypto0"
  "ue_pubkey client_env0 = pubkey0" "ue_version client_env0 = ''1.1''" "utf8 crypto0 = Some" "sha256_hex crypto0 t = ''abc''"
  by (simp_all add: client_env0_def crypto0_def)

lemma release_verifies: "verify_release client_env0 release0 = Some (''1.2'', ''new'')"
proof -
  have "signed_manifest client_env0 ''https://github.com/m'' ''https://github.com/s'' = Some [(''version'', ''1.2''), (''sha256'', ''abc'')]"
    unfolding signed_manifest_def using signature_verifies manifest_read by (simp add: downloads)
  then show ?thesis
    using assets_read urls_allowed version_newer
    by (simp add: verify_release_def downloads sha256_matches_def field_def)
qed

lemma release_staged: "fst (apply_release client_env0 io0 base0 None before0) = Staged_update ''1.2''"
proof -
  have e: "ue_sqlite client_env0" "ue_latest client_env0 = Some release0" by (simp_all add: client_env0_def)
  have "member_inside (base0\<lparr>parts := parts base0 @ [''staged'']\<rparr>) ''myorishop.exe''" by code_simp
  then show ?thesis using e release_verifies
    by (simp add: apply_release_def extract_guarded_def create_backup_at_def io0_def before0_def install0_def)
qed

lemma run_release: obtains j where "apply_release client_env0 io0 base0 None before0 = (Staged_update ''1.2'', j)"
  using release_staged by (metis fst_conv surj_pair)

lemma staged_update_installs_witness:
  "\<exists>j k a. apply_release client_env0 io0 base0 None before0 = (Staged_update ''1.2'', j)
     \<and> run_once outside0 (\<lambda>_. []) base0 j = (Inr True, k) \<and> pending_marker k = None
     \<and> child k = Some a \<and> le_serves outside0 a = ''1.2''"
proof -
  obtain j where j: "apply_release client_env0 io0 base0 None before0 = (Staged_update ''1.2'', j)" by (rule run_release)
  obtain q k where k: "run_once outside0 (\<lambda>_. []) base0 j = (q, k)" by force
  have io: "io_removed io0" "list_all plain_part (io_backup_name io0)" "io_backup_name io0 \<noteq> []" by code_simp+
  have i: "dirs before0 App = Some (Whole ''old'')" "orphans before0 = []" by (simp_all add: before0_def install0_def)
  have le: "le_fault outside0 n = None \<and> le_copy outside0 n = None" for n by (simp add: outside0_def)
  from staged_update_installs[OF j io i le k] have "pending_marker k = None" and
    "\<exists>a. genuine crypto0 pubkey0 ''1.2'' a \<and> (if le_serves outside0 a = ''1.2'' then q = Inr True \<and> child k = Some a
        else (\<exists>f. q = Inl f) \<and> child k = Some ''old'')"
    by (auto simp: client_env0_def)
  moreover have "child (snd (run_once outside0 (\<lambda>_. []) base0 (snd (apply_release client_env0 io0 base0 None before0)))) = Some ''new''"
    by code_simp
  then have "child k = Some ''new''" using j k by simp
  ultimately show ?thesis using j k by (auto split: if_splits)
qed

lemma only_genuine_code_runs_witness:
  "\<exists>j k q. apply_release client_env0 io0 base0 None before0 = (Staged_update ''1.2'', j)
     \<and> run_once outside1 (\<lambda>_. []) base0 j = (q, k) \<and> bundles_in ({''old''} \<union> {a. \<exists>v. genuine crypto0 pubkey0 v a}) k"
proof -
  obtain j where j: "apply_release client_env0 io0 base0 None before0 = (Staged_update ''1.2'', j)" by (rule run_release)
  obtain q k where k: "run_once outside1 (\<lambda>_. []) base0 j = (q, k)" by force
  have "ue_crypto client_env0 = crypto0" "ue_pubkey client_env0 = pubkey0" by (simp_all add: client_env0_def)
  from evolves.ticked[OF evolves.applied[OF evolves.start this j] k]
  have "evolves crypto0 pubkey0 before0 k" .
  moreover have "bundles_in {''old''} before0" by (simp add: bundles_in_def before0_def install0_def split: if_splits)
  ultimately have "bundles_in ({''old''} \<union> {a. \<exists>v. genuine crypto0 pubkey0 v a}) k" by (rule only_genuine_code_runs)
  with j k show ?thesis by blast
qed

section \<open>Pages\<close>

definition owner0 :: env where
  "owner0 = env0\<lparr>allowed_warehouses := None\<rparr>"

definition query0 :: history_query where
  "query0 = \<lparr>hq_type = Some ''sale'', hq_product = None, hq_customer = None, hq_category = None, hq_start = None, hq_end = None,
     hq_author = None, hq_dated = [], hq_sort = ''newest'', hq_page = 7, hq_page_size = 1\<rparr>"

definition kept_ops :: db where
  "kept_ops = shop\<lparr>operations := [op0\<lparr>o_id := ''O0'', o_seq := 0\<rparr>, op0, op0\<lparr>o_id := ''O2'', o_type := ''receipt'', o_seq := 2\<rparr>]\<rparr>"

lemma history_pages_witness:
  "\<exists>pg. history_view owner0 (\<lambda>_. 0) kept_ops query0 = Inr pg \<and> hp_page pg < hp_total_pages pg
     \<and> hp_total pg = length (history_rows owner0 kept_ops query0) \<and> hp_total pg = 2"
proof -
  have "map_sum (\<lambda>_. ()) hp_total (history_view owner0 (\<lambda>_. 0) kept_ops query0) = Inr 2" by code_simp
  then obtain pg where pg: "history_view owner0 (\<lambda>_. 0) kept_ops query0 = Inr pg" "hp_total pg = 2"
    by (cases "history_view owner0 (\<lambda>_. 0) kept_ops query0") auto
  have "0 < hq_page_size query0" by (simp add: query0_def)
  from history_pages[OF pg(1) this] pg show ?thesis by blast
qed

lemma tiles_agree_witness:
  "\<exists>unknown. metrics_context owner0 sold (Date 2026 1 5) (isoformat (Date 2026 1 1)) (isoformat (Date 2026 1 31)) ''RUB''
    = Some (Some (mt_profit (period_metrics owner0 sold (Date 2026 1 1) (Date 2026 1 31) ''RUB'')
          - the (mt_expense (period_metrics owner0 sold (Date 2026 1 1) (Date 2026 1 31) ''RUB'')),
        unknown, mt_profit (period_metrics owner0 sold (Date 2026 1 1) (Date 2026 1 31) ''RUB'')),
      fst (stock_summary owner0 sold ''RUB''))"
proof (rule tiles_agree)
  show "valid_date (Date 2026 1 1)" "valid_date (Date 2026 1 31)" "Date 2026 1 1 \<le> Date 2026 1 31" "inner_day (Date 2026 1 5)"
    by code_simp+
  show "allowed_warehouses owner0 = None" by (simp add: owner0_def)
qed

lemma csv_roundtrip_witness:
  "csv_read Start [] [] (concat (csv_rows [''code'', ''name''] [[''100'', ''say \"hi\"; ok''], [''200'', [lf]]]))
   = [[''code'', ''name''], [''100'', ''say \"hi\"; ok''], [''200'', [lf]]]"
  by (rule csv_roundtrip) simp_all


section \<open>Cards, catalogs, snapshots\<close>

definition clock0 :: "nat \<Rightarrow> int" where
  "clock0 n = 63900000000000000 + int n"

definition form0 :: customer_form where
  "form0 = \<lparr>cf_name = '' Olga '', cf_surname = ''Ivanova'', cf_consultant_number = ''77'', cf_address = [],
     cf_contacts = Some [(''phone'', [''+49 30 1'', '' '']), (''email'', [''o@x.de''])]\<rparr>"

lemma contacts_roundtrip_witness:
  "\<exists>c w'. create_customer env0 clock0 form0 (open_session shop) = (Ok c, w')
     \<and> map_option (map (\<lambda>(kind, ks). (kind, map k_value ks))) (contacts_by_kind (saved w') (c_id c))
       = Some (map (\<lambda>kind. (kind, filter (\<lambda>v. v \<noteq> [])
           (map strip (values_of [(''phone'', [''+49 30 1'', '' '']), (''email'', [''o@x.de''])] kind)))) CONTACT_KINDS)"
proof -
  have "is_Ok (fst (create_customer env0 clock0 form0 (open_session shop)))" by code_simp
  from ok_outcome[OF this] obtain c w' where r: "create_customer env0 clock0 form0 (open_session shop) = (Ok c, w')" by blast
  have "cf_contacts form0 = Some [(''phone'', [''+49 30 1'', '' '']), (''email'', [''o@x.de''])]"
    "distinct (map fst [(''phone'', [''+49 30 1'', '' '']), (''email'', [''o@x.de''])])"
    by (simp_all add: form0_def)
  from contacts_roundtrip[OF disjI1[OF r] this] r show ?thesis by blast
qed

definition listed :: db where
  "listed = shop\<lparr>dictionary := [\<lparr>d_id = ''D1'', d_code = ''100'', d_name = ''Cream'', d_name_lc = None, d_rubric = None,
     d_catalogs = Some [''01_26'', ''02_26''], d_created_at = ''t0''\<rparr>]\<rparr>"

lemma catalog_counts_agree_witness:
  "\<exists>rows n pages c. list_catalogs (Some [''2026-01.pdf'', ''notes.txt'']) listed [] ''newest'' 1 = Inr (rows, n, pages) \<and> c \<in> set rows
     \<and> cl_product_count c = length (products_in_catalog listed (cl_url_code c)) \<and> cl_product_count c = 1"
proof -
  let ?l = "list_catalogs (Some [''2026-01.pdf'', ''notes.txt'']) listed [] ''newest'' 1"
  have l: "map_sum (\<lambda>_. ()) (map (\<lambda>c. (cl_key c, cl_product_count c)) \<circ> fst) ?l = Inr [((2026, 1), 1)]" by code_simp
  then obtain rows n pages where r: "?l = Inr (rows, n, pages)" by (cases ?l) auto
  with l obtain c where c: "c \<in> set rows" "cl_key c = (2026, 1)" "cl_product_count c = 1" by auto
  have "list_all canonical_membership (dictionary listed)" by code_simp
  from catalog_counts_agree[OF this r c(1)] c r show ?thesis by auto
qed

definition snapshots0 :: "backup_file list" where
  "snapshots0 = [\<lparr>bk_name = ''myorishop-20260101-080000.db'', bk_mtime = 1, bk_size = 10\<rparr>,
     \<lparr>bk_name = ''readme.txt'', bk_mtime = 0, bk_size = 1\<rparr>, \<lparr>bk_name = ''myorishop-20260102-080000.db'', bk_mtime = 2, bk_size = 10\<rparr>]"

lemma startup_backup_retained_witness:
  "\<exists>p kept. startup_backup \<lparr>bs_on_startup = True, bs_db_exists = True, bs_sqlite = True, bs_keep = 2\<rparr> (Some shop) True
        ''20260103-080000'' 3 10 snapshots0 = (Some p, kept)
     \<and> p \<in> bk_name ` set kept \<and> length (filter is_backup kept) = 2"
proof -
  let ?s = "\<lparr>bs_on_startup = True, bs_db_exists = True, bs_sqlite = True, bs_keep = 2\<rparr>"
  let ?b = "startup_backup ?s (Some shop) True ''20260103-080000'' 3 10 snapshots0"
  have "fst ?b \<noteq> None" by code_simp
  then obtain p kept where b: "?b = (Some p, kept)" by (cases ?b) auto
  have "0 < bs_keep ?s" "distinct (map bk_name snapshots0)" by (simp, code_simp)
  moreover have "\<forall>f \<in> set snapshots0. bk_mtime f \<le> 3" by (simp add: snapshots0_def)
  moreover have "length (filter is_backup snapshots0) = 2" by code_simp
  ultimately show ?thesis using startup_backup_retained[OF b] b by auto
qed

section \<open>The offline file\<close>

definition boss0 :: user where
  "boss0 = user0 ''boss'' ''administrator''"

definition signer0 :: signer where
  "signer0 = \<lparr>sg_dumps = (\<lambda>now c. ''tok''), sg_loads = (\<lambda>now ttl t. if t = ''tok'' then Some [(''scope'', OFFLINE_TOKEN_SCOPE), (''sub'', ''boss'')] else None)\<rparr>"

lemma till_merges: "merge_ok (fst (collect_push_records till)) server0"
proof -
  have "\<not> isl (fst (merge_transaction (fst (collect_push_records till)) (open_session server0)))" by code_simp
  then show ?thesis by (simp add: merge_transaction_eq open_session_def split: if_splits)
qed

lemma utf8_length_bound: "length s \<le> n \<Longrightarrow> utf8_length s \<le> 2 * n"
proof -
  have "utf8_length s \<le> 2 * length s" by (induction s) (auto simp: utf8_length_def)
  then show "length s \<le> n \<Longrightarrow> utf8_length s \<le> 2 * n" by simp
qed

lemma file_small: "length (embedded body0) \<le> 5000"
  by code_simp

lemma starts_ci_length: "starts_ci p s \<Longrightarrow> length p \<le> length s"
  by (auto simp: starts_ci_def lower_def dest!: arg_cong[where f = length])

lemma restored_length: "length (restored s) \<le> length s"
  unfolding restored_def
proof (induction ESCAPED_TAG "\<lambda>m :: string. ''</'' @ drop 3 m" s rule: sub_ci.induct)
  case (2 c s)
  then show ?case using starts_ci_length[of ESCAPED_TAG "c # s"] by (auto simp: length_tags)
qed simp

lemma offline_file_delivered_witness:
  "\<exists>html w1 n v1. offline_export env0 client0 (Some boss0) (open_session till) = (Export_file html, w1)
     \<and> \<not> occurs_ci CLOSE_TAG html
     \<and> offline_upload signer0 (sha256_of client0) ''0032'' 0 ''tok'' (restored html) (open_session server0)
       = (Success_page n (operations_inserted (merged_report (fst (collect_push_records till)) server0))
            (cash_inserted (merged_report (fst (collect_push_records till)) server0)), v1)"
proof -
  let ?rs = "fst (collect_push_records till)"
  have u: "require_role ''administrator'' (Some boss0)" "sync_server_url client0 \<noteq> []" by code_simp+
  have "offline_export env0 client0 (Some boss0) (open_session till)
      = (Export_file (embedded body0), snd (utcnow_iso env0 (open_session till)))"
    using u by (simp add: offline_export_def body0_def utcnow_iso_def open_session_def split_beta)
  then obtain w1 where x: "offline_export env0 client0 (Some boss0) (open_session till) = (Export_file (embedded body0), w1)" by blast
  have rs: "?rs = fst (collect_push_records (cur (open_session till)))" by simp
  have "no_nel ''0032''" "no_nel ''2026-01-05T10:00:00''" "no_nel ''abc''" "no_nel ''T''" by code_simp+
  then have wire: "wire_ok (sha256_of client0) (client_schema client0) (source_device client0) (utcnow env0 (ticks (open_session till)))"
    by (simp add: wire_ok_def client0_def env0_def)
  have tok: "verify_offline_token signer0 0 ''tok'' \<noteq> None" by (simp add: verify_offline_token_def signer0_def)
  have sch: "''0032'' = [] \<or> client_schema client0 = ''0032''" by (simp add: client0_def)
  have "length (restored (embedded body0)) \<le> 5000" using restored_length file_small by (rule le_trans)
  from utf8_length_bound[OF this] have small: "utf8_length (restored (embedded body0)) \<le> MAX_OFFLINE_BYTES"
    by (simp add: MAX_OFFLINE_BYTES_def)
  have m: "merge_ok ?rs (saved (open_session server0))" using till_merges by simp
  from offline_file_delivered[OF x rs till_sendable wire tok sch insertI1 small m] x show ?thesis by simp blast
qed

section \<open>The sale pages\<close>

definition header0 :: header_form where
  "header0 = \<lparr>hf_mode = ''anon'', hf_name = [], hf_surname = [], hf_consultant_number = [], hf_customer_q = []\<rparr>"


definition basket0 :: screen where
  "basket0 = snd (mobile_sale_step_basket_add env0 shop ''100'' ''3'' ''15'' ''B1''
     (posted (snd (mobile_sale_step_basket_add env0 shop ''100'' ''2'' ''12,50'' ''B1'' (posted (mobile_sales_page ''100''))))))"


lemma offered_batch_accepted_witness:
  "\<exists>pg p. sale_lookup env0 shop ''100'' [] [] [] = Some pg \<and> active_product shop ''100'' = Some p
     \<and> owned_batch env0 shop p ''B1'' = Some batch0 \<and> lk_fill_cents pg = Some 1500"
proof -
  have "sale_lookup env0 shop ''100'' [] [] [] \<noteq> None
      \<and> lk_batches (the (sale_lookup env0 shop ''100'' [] [] [])) = [batch0]
      \<and> lk_fill_price (the (sale_lookup env0 shop ''100'' [] [] []))"
    by code_simp
  then obtain pg where r: "sale_lookup env0 shop ''100'' [] [] [] = Some pg" "batch0 \<in> set (lk_batches pg)" "lk_fill_price pg"
    by force
  have "distinct (map b_id (batches shop))" "strip (b_id batch0) = b_id batch0" "b_id batch0 \<noteq> []" "strip ''100'' = ''100''"
    by code_simp+
  then show ?thesis using offered_batch_accepted[OF r(1,2)] r by (auto simp: batch0_def)
qed

end
