(* ===== verification/PriceImport.thy ===== *)
theory PriceImport
  imports Exchange "HOL-Library.Product_Lexorder" "HOL-Library.List_Lexorder" "HOL-Library.Char_ord"
begin

text \<open>
  \<open>src/scripts/import_prices.py\<close>, the table side: the one writer of \<open>catalog_prices\<close> and the JSON file
  that carries the price history to the server (\<open>--export\<close>, \<open>--from-export\<close>). A file is its text or
  \<open>None\<close> when it does not exist; gzip and UTF-8 are transparent. \<open>sys.exit\<close> is a value of \<open>price_exit\<close>.
  The theorems: the writer is a pointwise merge that loses nothing, an exported file is always
  accepted again and only grows, and the way over the file merges one shop's prices into another's.
\<close>

section \<open>Records\<close>

text \<open>One exported row: a dict with exactly the seven keys.\<close>

record price_record =
  pr_code :: string
  pr_year :: int
  pr_number :: int
  pr_name :: "string option"
  pr_consumer_cents :: "int option"
  pr_consultant_cents :: "int option"
  pr_points :: "int option"

type_synonym price_key = "int \<times> int \<times> string"
type_synonym price_values = "string option \<times> int option \<times> int option \<times> int option"

definition EXPORT_KEYS :: "string list" where
  "EXPORT_KEYS = [''code'', ''consultant_cents'', ''consumer_cents'', ''name'', ''number'', ''points'', ''year'']"

definition MAX_NAME :: nat where
  "MAX_NAME = 200"

definition price_key :: "price_record \<Rightarrow> price_key" where
  "price_key r = (pr_year r, pr_number r, pr_code r)"

definition price_values :: "price_record \<Rightarrow> price_values" where
  "price_values r = (pr_name r, pr_consumer_cents r, pr_consultant_cents r, pr_points r)"

definition cp_key :: "catalog_price \<Rightarrow> price_key" where
  "cp_key row = (cp_year row, cp_number row, cp_code row)"

definition cp_values :: "catalog_price \<Rightarrow> price_values" where
  "cp_values row = (cp_name row, cp_consumer_cents row, cp_consultant_cents row, cp_points row)"

definition exported :: "catalog_price \<Rightarrow> price_record" where
  "exported row = \<lparr>pr_code = cp_code row, pr_year = cp_year row, pr_number = cp_number row, pr_name = cp_name row,
     pr_consumer_cents = cp_consumer_cents row, pr_consultant_cents = cp_consultant_cents row, pr_points = cp_points row\<rparr>"

definition export_prices :: "db \<Rightarrow> price_record list" where
  "export_prices d = sort_key price_key (map exported (catalog_prices d))"

section \<open>The writer\<close>

definition build_price_row :: "env \<Rightarrow> price_record \<Rightarrow> world \<Rightarrow> catalog_price \<times> world" where
  "build_price_row e r w =
     (let (i, w1) = new_id e w
      in (\<lparr>cp_id = i, cp_year = pr_year r, cp_number = pr_number r, cp_code = pr_code r, cp_name = pr_name r,
            cp_consumer_cents = pr_consumer_cents r, cp_consultant_cents = pr_consultant_cents r, cp_points = pr_points r\<rparr>, w1))"

fun build_price_rows :: "env \<Rightarrow> price_record list \<Rightarrow> world \<Rightarrow> catalog_price list \<times> world" where
  "build_price_rows e [] w = ([], w)"
| "build_price_rows e (r # rs) w =
     (let (row, w1) = build_price_row e r w; (rows, w2) = build_price_rows e rs w1 in (row # rows, w2))"

text \<open>The primary key and \<open>uq_catalog_prices_year_number_code\<close>.\<close>

definition price_keys_ok :: "catalog_price list \<Rightarrow> bool" where
  "price_keys_ok rows \<longleftrightarrow> distinct (map cp_id rows) \<and> distinct (map cp_key rows)"

definition add_price_rows :: "catalog_price list \<Rightarrow> db \<Rightarrow> db" where
  "add_price_rows rows d = d\<lparr>catalog_prices := catalog_prices d @ rows\<rparr>"

text \<open>\<open>session.bulk_save_objects\<close> sends its statement at once.\<close>

definition bulk_save :: "env \<Rightarrow> price_record list \<Rightarrow> world \<Rightarrow> exn option \<times> world" where
  "bulk_save e rs w =
     (let (rows, w1) = build_price_rows e rs w;
          w2 = stage (add_price_rows rows) (\<not> price_keys_ok (catalog_prices (cur w1) @ rows)) w1
      in (flush w2, w2))"

fun bulk_saves :: "env \<Rightarrow> price_record list list \<Rightarrow> world \<Rightarrow> exn option \<times> world" where
  "bulk_saves e [] w = (None, w)"
| "bulk_saves e (c # cs) w =
     (case bulk_save e c w of (Some x, w1) \<Rightarrow> (Some x, w1) | (None, w1) \<Rightarrow> bulk_saves e cs w1)"

definition set_values :: "price_values \<Rightarrow> catalog_price \<Rightarrow> catalog_price" where
  "set_values v row = (case v of (n, c1, c2, p) \<Rightarrow>
     row\<lparr>cp_name := n, cp_consumer_cents := c1, cp_consultant_cents := c2, cp_points := p\<rparr>)"

definition update_price :: "string \<times> price_values \<Rightarrow> db \<Rightarrow> db" where
  "update_price u d = d\<lparr>catalog_prices := tupd cp_id (fst u) (set_values (snd u)) (catalog_prices d)\<rparr>"

definition bulk_update :: "(string \<times> price_values) list \<Rightarrow> world \<Rightarrow> world" where
  "bulk_update us w = stage (fold update_price us) False w"

text \<open>A field changes when the incoming value is not None and differs from the stored one.\<close>

definition merge_field :: "'v option \<Rightarrow> 'v option \<Rightarrow> 'v option \<times> bool" where
  "merge_field incoming old = (if incoming \<noteq> None \<and> incoming \<noteq> old then (incoming, True) else (old, False))"

definition merge_values :: "price_values \<Rightarrow> price_values \<Rightarrow> price_values \<times> bool" where
  "merge_values incoming old = (case (incoming, old) of ((n, c, k, p), (n0, c0, k0, p0)) \<Rightarrow>
     (let (n1, d1) = merge_field n n0; (c1, d2) = merge_field c c0; (k1, d3) = merge_field k k0; (p1, d4) = merge_field p p0
      in ((n1, c1, k1, p1), d1 \<or> d2 \<or> d3 \<or> d4)))"

text \<open>The dict of the stored triples; a later row of one triple would replace an earlier one.\<close>

definition stored_price :: "db \<Rightarrow> price_key \<Rightarrow> catalog_price option" where
  "stored_price d k = tget cp_key k (rev (catalog_prices d))"

fun sort_out :: "db \<Rightarrow> price_record list \<Rightarrow> price_record list \<times> (string \<times> price_values) list \<times> nat" where
  "sort_out d [] = ([], [], 0)"
| "sort_out d (r # rs) =
     (let (fresh, changed, unchanged) = sort_out d rs
      in case stored_price d (price_key r) of
           None \<Rightarrow> (r # fresh, changed, unchanged)
         | Some row \<Rightarrow> (case merge_values (price_values r) (cp_values row) of (kept, differs) \<Rightarrow>
             if differs then (fresh, (cp_id row, kept) # changed, unchanged) else (fresh, changed, unchanged + 1)))"

record upsert_stats =
  us_inserted :: nat
  us_updated :: nat
  us_unchanged :: nat

text \<open>The default of \<open>chunk\<close>, which every caller takes.\<close>

definition PRICE_CHUNK :: nat where
  "PRICE_CHUNK = 5000"

definition upsert_price_rows :: "env \<Rightarrow> price_record list \<Rightarrow> world \<Rightarrow> (exn + upsert_stats) \<times> world" where
  "upsert_price_rows e records w =
     (if records = [] then (Inr \<lparr>us_inserted = 0, us_updated = 0, us_unchanged = 0\<rparr>, w)
      else (case sort_out (cur w) records of (fresh, changed, unchanged) \<Rightarrow>
        (case bulk_saves e (chunks PRICE_CHUNK fresh) w of
           (Some x, w1) \<Rightarrow> (Inl x, w1)
         | (None, w1) \<Rightarrow> (Inr \<lparr>us_inserted = length fresh, us_updated = length changed, us_unchanged = unchanged\<rparr>,
             fold bulk_update (chunks PRICE_CHUNK changed) w1))))"

definition insert_missing_price_rows :: "env \<Rightarrow> price_record list \<Rightarrow> world \<Rightarrow> (exn + price_record list) \<times> world" where
  "insert_missing_price_rows e records w =
     (let fresh = filter (\<lambda>r. pr_code r \<notin> set (map cp_code (catalog_prices (cur w)))) records
      in if fresh = [] then (Inr [], w)
         else case bulk_save e fresh w of (Some x, w1) \<Rightarrow> (Inl x, w1) | (None, w1) \<Rightarrow> (Inr fresh, w1))"

section \<open>The file\<close>

definition opt_str :: "string option \<Rightarrow> json" where
  "opt_str s = (case s of None \<Rightarrow> J_null | Some t \<Rightarrow> J_str t)"

definition opt_int :: "int option \<Rightarrow> json" where
  "opt_int n = (case n of None \<Rightarrow> J_null | Some i \<Rightarrow> J_int i)"

text \<open>\<open>sort_keys=True\<close>\<close>

definition record_json :: "price_record \<Rightarrow> json" where
  "record_json r = J_obj
     [(''code'', J_str (pr_code r)), (''consultant_cents'', opt_int (pr_consultant_cents r)),
      (''consumer_cents'', opt_int (pr_consumer_cents r)), (''name'', opt_str (pr_name r)), (''number'', J_int (pr_number r)),
      (''points'', opt_int (pr_points r)), (''year'', J_int (pr_year r))]"

abbreviation LF :: char where "LF \<equiv> CHR 0x0A"

definition serialize_export :: "price_record list \<Rightarrow> string" where
  "serialize_export records =
     (if records = [] then [CHR ''['', CHR '']'', LF]
      else [CHR ''['', LF] @ join [CHR '','', LF] (map (\<lambda>r. dumps (record_json r)) records) @ [LF, CHR '']'', LF])"

datatype price_exit =
    Not_valid_json | Not_an_array | Not_an_object nat | Wrong_keys nat "string list" "string list"
  | Non_string_code nat | Non_integer nat string | Non_string_name nat | Name_too_long nat nat
  | Would_drop_rows | Failed exn | Nothing_collected

text \<open>The checks of one record, in the order of the code; \<open>None\<close> when all pass.\<close>

definition bad_int :: "json \<Rightarrow> bool" where
  "bad_int v = (case v of J_int n \<Rightarrow> False | _ \<Rightarrow> True)"

definition bad_amount :: "json \<Rightarrow> bool" where
  "bad_amount v = (case v of J_null \<Rightarrow> False | J_int n \<Rightarrow> n < 0 | _ \<Rightarrow> True)"

definition check_name :: "nat \<Rightarrow> json \<Rightarrow> price_exit option" where
  "check_name i v = (case v of
       J_null \<Rightarrow> None
     | J_str s \<Rightarrow> if MAX_NAME < length s then Some (Name_too_long i (length s)) else None
     | _ \<Rightarrow> Some (Non_string_name i))"

definition check_record :: "nat \<Rightarrow> json \<Rightarrow> price_exit option" where
  "check_record i v = (case v of
     J_obj obj \<Rightarrow>
       if set (map fst obj) \<noteq> set EXPORT_KEYS
       then Some (Wrong_keys i (filter (\<lambda>k. k \<notin> set (map fst obj)) EXPORT_KEYS) (filter (\<lambda>k. k \<notin> set EXPORT_KEYS) (sort (map fst obj))))
       else if \<not> (case jget ''code'' obj of J_str s \<Rightarrow> True | _ \<Rightarrow> False) then Some (Non_string_code i)
       else (case find (\<lambda>f. bad_int (jget f obj)) [''year'', ''number''] of
          Some f \<Rightarrow> Some (Non_integer i f)
        | None \<Rightarrow> (case check_name i (jget ''name'' obj) of
            Some x \<Rightarrow> Some x
          | None \<Rightarrow> map_option (Non_integer i) (find (\<lambda>f. bad_amount (jget f obj)) [''consumer_cents'', ''consultant_cents'', ''points''])))
   | _ \<Rightarrow> Some (Not_an_object i))"

fun check_records :: "nat \<Rightarrow> json list \<Rightarrow> price_exit option" where
  "check_records i [] = None"
| "check_records i (v # vs) = (case check_record i v of Some x \<Rightarrow> Some x | None \<Rightarrow> check_records (Suc i) vs)"

text \<open>A checked dict as a record.\<close>

definition str_of :: "json \<Rightarrow> string option" where
  "str_of v = (case v of J_str s \<Rightarrow> Some s | _ \<Rightarrow> None)"

definition int_of_json :: "json \<Rightarrow> int option" where
  "int_of_json v = (case v of J_int n \<Rightarrow> Some n | _ \<Rightarrow> None)"

definition record_of_json :: "json \<Rightarrow> price_record" where
  "record_of_json v = (let obj = (case v of J_obj kvs \<Rightarrow> kvs | _ \<Rightarrow> [])
     in \<lparr>pr_code = or_empty (str_of (jget ''code'' obj)), pr_year = the (int_of_json (jget ''year'' obj)),
         pr_number = the (int_of_json (jget ''number'' obj)), pr_name = str_of (jget ''name'' obj),
         pr_consumer_cents = int_of_json (jget ''consumer_cents'' obj),
         pr_consultant_cents = int_of_json (jget ''consultant_cents'' obj), pr_points = int_of_json (jget ''points'' obj)\<rparr>)"

definition validate_records :: "json \<Rightarrow> price_exit + price_record list" where
  "validate_records v = (case v of
     J_list vs \<Rightarrow> (case check_records 0 vs of Some x \<Rightarrow> Inl x | None \<Rightarrow> Inr (map record_of_json vs))
   | _ \<Rightarrow> Inl Not_an_array)"

definition load_export :: "string \<Rightarrow> price_exit + price_record list" where
  "load_export content = (case loads content of None \<Rightarrow> Inl Not_valid_json | Some v \<Rightarrow> validate_records v)"

record export_stats =
  es_before :: nat
  es_added :: nat
  es_updated :: nat
  es_after :: nat

text \<open>The state of the loop: the dict and its two counters.\<close>

definition merge_step :: "price_record \<Rightarrow> (price_key \<times> price_record) list \<times> nat \<times> nat \<Rightarrow> (price_key \<times> price_record) list \<times> nat \<times> nat" where
  "merge_step r st = (case st of (kept, added, updated) \<Rightarrow>
     (case map_of kept (price_key r) of
        None \<Rightarrow> (dict_set (price_key r) r kept, added + 1, updated)
      | Some old \<Rightarrow> (dict_set (price_key r) r kept, added, if old \<noteq> r then updated + 1 else updated)))"

definition merge_price_export :: "price_record list \<Rightarrow> price_record list \<Rightarrow> price_record list \<times> export_stats" where
  "merge_price_export previous fresh =
     (let kept0 = fold (\<lambda>r m. dict_set (price_key r) r m) previous [];
          (kept, added, updated) = fold merge_step fresh (kept0, 0, 0);
          ordered = map snd (sort_key fst kept)
      in (ordered, \<lparr>es_before = length kept0, es_added = added, es_updated = updated, es_after = length ordered\<rparr>))"

text \<open>The new text of the file; on an exit the old one stays (the rename of \<open>atomic_write\<close> is the last step).\<close>

definition write_export :: "string option \<Rightarrow> price_record list \<Rightarrow> price_exit + string \<times> export_stats" where
  "write_export dest fresh =
     (case (case dest of None \<Rightarrow> Inr [] | Some t \<Rightarrow> load_export t) of
        Inl x \<Rightarrow> Inl x
      | Inr previous \<Rightarrow> (case merge_price_export previous fresh of (kept, stats) \<Rightarrow>
          if es_after stats < es_before stats then Inl Would_drop_rows else Inr (serialize_export kept, stats)))"

section \<open>The commands\<close>

definition run_export :: "db \<Rightarrow> string option \<Rightarrow> price_exit + string \<times> export_stats" where
  "run_export d dest = write_export dest (export_prices d)"

text \<open>\<open>--from-export\<close>: with \<open>--only-missing\<close> the rows inserted are counted, otherwise the upsert's.\<close>

definition commit_or_fail :: "(exn + 's) \<times> world \<Rightarrow> (price_exit + 's) \<times> world" where
  "commit_or_fail res = (case res of
     (Inl x, w) \<Rightarrow> (Inl (Failed x), rollback w)
   | (Inr s, w) \<Rightarrow> (case commit w of (None, w1) \<Rightarrow> (Inr s, w1) | (Some x, w1) \<Rightarrow> (Inl (Failed x), rollback w1)))"

definition run_from_export :: "env \<Rightarrow> string \<Rightarrow> bool \<Rightarrow> world \<Rightarrow> (price_exit + price_record list + upsert_stats) \<times> world" where
  "run_from_export e content only_missing w =
     (case load_export content of
        Inl x \<Rightarrow> (Inl x, w)
      | Inr records \<Rightarrow>
          if only_missing then (case commit_or_fail (insert_missing_price_rows e records w) of
              (Inl x, w1) \<Rightarrow> (Inl x, w1) | (Inr rs, w1) \<Rightarrow> (Inr (Inl rs), w1))
          else (case commit_or_fail (upsert_price_rows e records w) of
              (Inl x, w1) \<Rightarrow> (Inl x, w1) | (Inr s, w1) \<Rightarrow> (Inr (Inr s), w1)))"

section \<open>The written file is read back\<close>

lemma ends_LF: "ends (LF # r)" "is_ws LF"
  by (simp_all add: ends_def is_dig_def is_ws_def ord_of_def)

lemma skip_ws_LF: "skip_ws (LF # s) = skip_ws s"
  by (simp add: skip_ws_def ends_LF)

lemma scan_list_lines:
  "vs \<noteq> [] \<Longrightarrow> length vs \<le> n \<Longrightarrow> list_all plain vs \<Longrightarrow> list_all (reads p) vs \<Longrightarrow>
     scan_list n p (join [CHR '','', LF] (map dumps vs) @ LF # CHR '']'' # r) = Some (vs, r)"
proof (induction vs arbitrary: n)
  case Nil
  then show ?case by simp
next
  case (Cons v vs)
  then obtain m where n: "n = Suc m" by (cases n) auto
  show ?case
  proof (cases "vs = []")
    case True
    with Cons.prems n show ?thesis by (simp add: reads_def ends_LF skip_ws_LF closers_not_ws)
  next
    case False
    then have ne: "join [CHR '','', LF] (map dumps vs) \<noteq> []" "\<not> is_ws (hd (join [CHR '','', LF] (map dumps vs)))"
      using Cons.prems(3) dumps_head[of "hd vs"] by (cases vs; auto simp: join_def)+
    have "scan_list m p (join [CHR '','', LF] (map dumps vs) @ LF # CHR '']'' # r) = Some (vs, r)"
      using Cons False n by simp
    then show ?thesis
      using Cons.prems n False ne
      by (simp add: join_Cons reads_def ends_closers closers_not_ws skip_ws_LF cons_fst_def)
  qed
qed

lemma length_join_lines: "x \<in> set xs \<Longrightarrow> length x + length xs \<le> Suc (length (join [a, b] xs))"
  using member_le_sum[of x "tl xs" length] by (cases xs) (auto simp: join_def length_seps)

lemma loads_lines:
  assumes "vs \<noteq> []" "list_all plain vs"
  shows "loads ([CHR ''['', LF] @ join [CHR '','', LF] (map dumps vs) @ [LF, CHR '']'', LF]) = Some (J_list vs)"
proof -
  let ?body = "join [CHR '','', LF] (map dumps vs)"
  let ?t = "[CHR ''['', LF] @ ?body @ [LF, CHR '']'', LF]"
  have len: "length ?t = length ?body + 5" by simp
  have v: "reads (scan_value (length ?t)) v" if "v \<in> set vs" for v
  proof (rule scan_value_dumps)
    show "plain v" using assms(2) that by (simp add: list_all_iff)
    then show "need v \<le> length ?t"
      using need_le_length[of v] length_join_lines[of "dumps v" "map dumps vs" "CHR '',''" LF] that len by simp
  qed
  have n: "length vs \<le> length ?t"
    using length_join_lines[of "dumps (hd vs)" "map dumps vs" "CHR '',''" LF] assms(1) len by (cases vs) auto
  obtain v ws where vs: "vs = v # ws" using assms(1) by (cases vs) auto
  have head: "dumps v \<noteq> []" "\<not> is_ws (hd (dumps v))" "hd (dumps v) \<noteq> CHR '']''"
    using dumps_head[of v] assms(2) vs by auto
  have b: "hd (?body @ u) = hd (dumps v)" "?body @ u \<noteq> []" for u
    using head(1) vs by (auto simp: join_def)
  have start: "skip_ws (LF # ?body @ LF # CHR '']'' # [LF]) = ?body @ LF # CHR '']'' # [LF]"
    using b head by (simp add: skip_ws_LF)
  have all_reads: "list_all (reads (scan_value (length ?t))) vs" using v by (simp add: list_all_iff)
  have "scan_list (length ?t) (scan_value (length ?t)) (?body @ LF # CHR '']'' # [LF]) = Some (vs, [LF])"
    by (rule scan_list_lines[OF assms(1) n assms(2) all_reads])
  then have "scan_value (Suc (length ?t)) ?t = Some (J_list vs, [LF])"
    using start b head by simp
  moreover have "skip_ws ?t = ?t" by (simp add: closers_not_ws is_ws_def ord_of_def)
  moreover have "skip_ws [LF] = []" by (simp add: skip_ws_def ends_LF)
  ultimately show ?thesis by (simp add: loads_def del: scan_value.simps)
qed

text \<open>What the columns hold: a name that fits, amounts that are not negative, ints the reader accepts.\<close>

definition int_ok :: "int \<Rightarrow> bool" where
  "int_ok n \<longleftrightarrow> nat \<bar>n\<bar> < DIGIT_LIMIT"

definition amount_ok :: "int option \<Rightarrow> bool" where
  "amount_ok a \<longleftrightarrow> (case a of None \<Rightarrow> True | Some n \<Rightarrow> 0 \<le> n \<and> int_ok n)"

definition price_ok :: "price_record \<Rightarrow> bool" where
  "price_ok r \<longleftrightarrow> int_ok (pr_year r) \<and> int_ok (pr_number r)
     \<and> (case pr_name r of None \<Rightarrow> True | Some s \<Rightarrow> length s \<le> MAX_NAME)
     \<and> amount_ok (pr_consumer_cents r) \<and> amount_ok (pr_consultant_cents r) \<and> amount_ok (pr_points r)"

lemma plain_int: "int_ok n \<Longrightarrow> plain (J_int n)"
proof -
  assume "int_ok n"
  then have "nat \<bar>n\<bar> < 10 ^ 4300" unfolding int_ok_def DIGIT_LIMIT_def .
  then show ?thesis unfolding plain.simps by (rule length_show_nat_le) simp
qed

lemma plain_opt: "plain (opt_str s)" "amount_ok a \<Longrightarrow> plain (opt_int a)"
  using plain_int by (auto simp: opt_str_def opt_int_def amount_ok_def split: option.splits simp del: plain.simps(1))

lemma record_plain: "price_ok r \<Longrightarrow> plain (record_json r)"
  by (simp add: record_json_def price_ok_def plain_opt plain_int del: plain.simps(1))

lemma loads_serialized:
  assumes "list_all price_ok rs"
  shows "loads (serialize_export rs) = Some (J_list (map record_json rs))"
proof (cases "rs = []")
  case True
  then show ?thesis by (simp add: serialize_export_def) code_simp
next
  case False
  then show ?thesis
    using loads_lines[of "map record_json rs"] assms record_plain
    by (simp add: serialize_export_def list_all_iff comp_def)
qed

lemma jget_record:
  "jget ''code'' [(''code'', a), (''consultant_cents'', b), (''consumer_cents'', c), (''name'', d), (''number'', e), (''points'', f), (''year'', g)] = a"
  "jget ''consultant_cents'' [(''code'', a), (''consultant_cents'', b), (''consumer_cents'', c), (''name'', d), (''number'', e), (''points'', f), (''year'', g)] = b"
  "jget ''consumer_cents'' [(''code'', a), (''consultant_cents'', b), (''consumer_cents'', c), (''name'', d), (''number'', e), (''points'', f), (''year'', g)] = c"
  "jget ''name'' [(''code'', a), (''consultant_cents'', b), (''consumer_cents'', c), (''name'', d), (''number'', e), (''points'', f), (''year'', g)] = d"
  "jget ''number'' [(''code'', a), (''consultant_cents'', b), (''consumer_cents'', c), (''name'', d), (''number'', e), (''points'', f), (''year'', g)] = e"
  "jget ''points'' [(''code'', a), (''consultant_cents'', b), (''consumer_cents'', c), (''name'', d), (''number'', e), (''points'', f), (''year'', g)] = f"
  "jget ''year'' [(''code'', a), (''consultant_cents'', b), (''consumer_cents'', c), (''name'', d), (''number'', e), (''points'', f), (''year'', g)] = g"
  by (simp_all add: jget_def)

lemma bad_amount_ok: "amount_ok a \<Longrightarrow> \<not> bad_amount (opt_int a)"
  by (auto simp: bad_amount_def opt_int_def amount_ok_def split: option.splits)

lemma check_record_ok: "price_ok r \<Longrightarrow> check_record i (record_json r) = None"
  by (auto simp: check_record_def record_json_def EXPORT_KEYS_def jget_record bad_int_def check_name_def opt_str_def
      price_ok_def bad_amount_ok split: option.splits)

lemma record_back: "record_of_json (record_json r) = r"
  by (cases r) (simp add: record_of_json_def record_json_def jget_record str_of_def int_of_json_def opt_str_def opt_int_def
      Let_def split: option.split)

lemma load_serialized:
  assumes "list_all price_ok rs"
  shows "load_export (serialize_export rs) = Inr rs"
proof -
  have "check_records i (map record_json rs) = None" for i
    using assms by (induction rs arbitrary: i) (simp_all add: check_record_ok)
  then show ?thesis
    by (simp add: load_export_def loads_serialized[OF assms] validate_records_def record_back comp_def)
qed

section \<open>What the writer does to the table\<close>

definition price_table :: "db \<Rightarrow> price_key \<Rightarrow> price_values option" where
  "price_table d k = map_option cp_values (tget cp_key k (catalog_prices d))"

definition records_table :: "price_record list \<Rightarrow> price_key \<Rightarrow> price_values option" where
  "records_table rs = map_of (map (\<lambda>r. (price_key r, price_values r)) rs)"

definition over :: "'v option \<Rightarrow> 'v option \<Rightarrow> 'v option" where
  "over incoming old = (case incoming of None \<Rightarrow> old | Some v \<Rightarrow> Some v)"

definition enriched :: "price_values \<Rightarrow> price_values \<Rightarrow> price_values" where
  "enriched incoming old = (case (incoming, old) of ((n, c, k, p), (n0, c0, k0, p0)) \<Rightarrow> (over n n0, over c c0, over k k0, over p p0))"

text \<open>The specification: field by field, what comes in wins where it is known.\<close>

definition enriched_table :: "(price_key \<Rightarrow> price_values option) \<Rightarrow> (price_key \<Rightarrow> price_values option) \<Rightarrow> price_key \<Rightarrow> price_values option" where
  "enriched_table incoming stored k = (case incoming k of
       None \<Rightarrow> stored k
     | Some v \<Rightarrow> Some (case stored k of None \<Rightarrow> v | Some v0 \<Rightarrow> enriched v v0))"

lemma merge_field_over: "fst (merge_field v v0) = over v v0" "\<not> snd (merge_field v v0) \<Longrightarrow> over v v0 = v0"
  by (auto simp: merge_field_def over_def split: if_splits option.splits)

lemma merge_values_enriched:
  "fst (merge_values v v0) = enriched v v0" "\<not> snd (merge_values v v0) \<Longrightarrow> enriched v v0 = v0"
  by (cases v rule: prod_cases4, cases v0 rule: prod_cases4,
      auto simp: merge_values_def enriched_def split_beta merge_field_over)+

lemma cp_keep [simp]: "cp_id (set_values v row) = cp_id row" "cp_key (set_values v row) = cp_key row" "cp_values (set_values v row) = v"
  by (auto simp: set_values_def cp_key_def cp_values_def split: prod.splits)

lemma build_price_rows_spec:
  assumes "build_price_rows e rs w = (rows, w1)"
  shows "map exported rows = rs" "map cp_id rows = map (uuid e) [mints w ..< mints w + length rs]"
    "w1 = w\<lparr>mints := mints w + length rs\<rparr>"
proof -
  have "map exported rows = rs \<and> map cp_id rows = map (uuid e) [mints w ..< mints w + length rs]
      \<and> w1 = w\<lparr>mints := mints w + length rs\<rparr>"
    using assms
  proof (induction rs arbitrary: w rows w1)
    case (Cons r rs)
    obtain row wa where a: "build_price_row e r w = (row, wa)" by force
    obtain rows' wb where b: "build_price_rows e rs wa = (rows', wb)" by force
    have "rows = row # rows'" "w1 = wb" using Cons.prems a b by simp_all
    moreover have "exported row = r" "cp_id row = uuid e (mints w)" "wa = w\<lparr>mints := mints w + 1\<rparr>"
      using a by (auto simp: build_price_row_def new_id_def exported_def)
    moreover have "[mints w ..< mints w + length (r # rs)] = mints w # [mints w + 1 ..< mints w + 1 + length rs]"
      by (subst upt_conv_Cons) simp_all
    ultimately show ?case using Cons.IH[OF b] by simp
  qed simp
  then show "map exported rows = rs" "map cp_id rows = map (uuid e) [mints w ..< mints w + length rs]"
    "w1 = w\<lparr>mints := mints w + length rs\<rparr>" by blast+
qed

lemma exported_keys: "map exported rows = rs \<Longrightarrow> map cp_key rows = map price_key rs \<and> map cp_values rows = map price_values rs"
  by (auto simp: exported_def cp_key_def price_key_def cp_values_def price_values_def)

text \<open>The rows a batch adds, with ids from the stream.\<close>

definition adds :: "env \<Rightarrow> price_record list \<Rightarrow> world \<Rightarrow> catalog_price list \<Rightarrow> world \<Rightarrow> bool" where
  "adds e rs w rows w1 \<longleftrightarrow> map exported rows = rs \<and> map cp_id rows = map (uuid e) [mints w ..< mints w + length rs]
     \<and> w1 = w\<lparr>mints := mints w + length rs, cur := add_price_rows rows (cur w)\<rparr>"

lemma bulk_save_None:
  assumes "bulk_save e rs w = (None, w1)"
  obtains rows where "adds e rs w rows w1" "price_keys_ok (catalog_prices (cur w) @ rows)"
proof -
  obtain rows wa where b: "build_price_rows e rs w = (rows, wa)" by force
  note spec = build_price_rows_spec[OF b]
  show ?thesis
  proof (rule that)
    show "adds e rs w rows w1" "price_keys_ok (catalog_prices (cur w) @ rows)"
      using assms spec by (auto simp: bulk_save_def b adds_def flush_def stage_def split: if_splits)
  qed
qed

lemma adds_append:
  assumes "adds e rs w rows w1" "adds e ss w1 rows2 w2"
  shows "adds e (rs @ ss) w (rows @ rows2) w2"
proof -
  have "[mints w ..< mints w + (length rs + length ss)]
      = [mints w ..< mints w + length rs] @ [mints w + length rs ..< mints w + length rs + length ss]"
    using upt_add_eq_append[of "mints w" "mints w + length rs" "length ss"] by (simp add: add.assoc)
  then show ?thesis using assms by (auto simp: adds_def add_price_rows_def add.assoc)
qed

lemma bulk_saves_None:
  assumes "bulk_saves e cs w = (None, w1)" "price_keys_ok (catalog_prices (cur w))"
  shows "\<exists>rows. adds e (concat cs) w rows w1 \<and> price_keys_ok (catalog_prices (cur w) @ rows)"
  using assms
proof (induction cs arbitrary: w)
  case Nil
  then show ?case by (intro exI[of _ "[]"]) (simp add: adds_def add_price_rows_def)
next
  case (Cons c cs)
  obtain w2 where 1: "bulk_save e c w = (None, w2)" and 2: "bulk_saves e cs w2 = (None, w1)"
    using Cons.prems(1) by (auto split: prod.splits option.splits)
  obtain rows where a: "adds e c w rows w2" and k: "price_keys_ok (catalog_prices (cur w) @ rows)"
    using bulk_save_None[OF 1] by blast
  then have t: "catalog_prices (cur w2) = catalog_prices (cur w) @ rows" by (simp add: adds_def add_price_rows_def)
  from Cons.IH[OF 2] k t obtain rows2 where "adds e (concat cs) w2 rows2 w1" "price_keys_ok (catalog_prices (cur w2) @ rows2)"
    by auto
  with adds_append[OF a] t show ?case by (intro exI[of _ "rows @ rows2"]) simp
qed

text \<open>The updates, whatever the chunks.\<close>

lemma bulk_updates: "fold bulk_update us w = w\<lparr>cur := fold update_price (concat us) (cur w)\<rparr>"
  by (induction us arbitrary: w) (simp_all add: bulk_update_def stage_def fold_append)

lemma updates_table:
  "fold update_price us d = d\<lparr>catalog_prices := fold (\<lambda>u. tupd cp_id (fst u) (set_values (snd u))) us (catalog_prices d)\<rparr>"
  by (induction us arbitrary: d) (simp_all add: update_price_def)

definition changed_row :: "(string \<times> price_values) list \<Rightarrow> catalog_price \<Rightarrow> catalog_price" where
  "changed_row us row = (case map_of us (cp_id row) of None \<Rightarrow> row | Some v \<Rightarrow> set_values v row)"

lemma changed_row_keep [simp]: "cp_id (changed_row us row) = cp_id row" "cp_key (changed_row us row) = cp_key row"
  by (simp_all add: changed_row_def split: option.split)

lemma updates_map:
  "distinct (map fst us) \<Longrightarrow> fold (\<lambda>u. tupd cp_id (fst u) (set_values (snd u))) us rows = map (changed_row us) rows"
proof (induction us arbitrary: rows)
  case Nil
  have "changed_row [] row = row" for row by (simp add: changed_row_def)
  then show ?case by (simp add: map_idI)
next
  case (Cons u us)
  have "changed_row us (if cp_id row = fst u then set_values (snd u) row else row) = changed_row (u # us) row" for row
    using Cons.prems by (auto simp: changed_row_def map_of_eq_None_iff[symmetric] split: option.splits)
  then show ?case using Cons by (simp add: tupd_def)
qed

lemma tget_map: "(\<And>r. key (f r) = key r) \<Longrightarrow> tget key k (map f rows) = map_option f (tget key k rows)"
  by (induction rows) (simp_all add: table_simps)

lemma tget_rev: "distinct (map key rows) \<Longrightarrow> tget key k (rev rows) = tget key k rows"
proof (cases "k \<in> key ` set rows")
  case True
  then obtain r where "r \<in> set rows" "k = key r" by auto
  then show "distinct (map key rows) \<Longrightarrow> ?thesis" by (simp add: tget_in rev_map[symmetric])
next
  case False
  then show ?thesis by (metis set_rev tget_None_iff)
qed

text \<open>What is sorted out as changed.\<close>

lemma sort_out_parts:
  assumes "sort_out d rs = (fresh, changed, n)"
  shows "fresh = filter (\<lambda>r. stored_price d (price_key r) = None) rs" "length fresh + length changed + n = length rs"
proof -
  have "fresh = filter (\<lambda>r. stored_price d (price_key r) = None) rs \<and> length fresh + length changed + n = length rs"
    using assms
  proof (induction rs arbitrary: fresh changed n)
    case (Cons r rs)
    obtain f c m where s: "sort_out d rs = (f, c, m)" by (metis prod_cases3)
    show ?case
      using Cons.IH[OF s] Cons.prems s by (auto split: option.splits prod.splits if_splits)
  qed simp
  then show "fresh = filter (\<lambda>r. stored_price d (price_key r) = None) rs" "length fresh + length changed + n = length rs"
    by blast+
qed

lemma sort_out_changed:
  assumes "sort_out d rs = (fresh, changed, n)" "u \<in> set changed"
  shows "\<exists>r row. r \<in> set rs \<and> stored_price d (price_key r) = Some row \<and> fst u = cp_id row"
  using assms
proof (induction rs arbitrary: fresh changed n)
  case (Cons r rs)
  obtain f c m where s: "sort_out d rs = (f, c, m)" by (metis prod_cases3)
  have "u \<in> set c \<or> (\<exists>row. stored_price d (price_key r) = Some row \<and> fst u = cp_id row)"
    using Cons.prems s by (auto split: option.splits prod.splits if_splits)
  then show ?case
  proof
    assume "u \<in> set c"
    with Cons.IH[OF s] show ?case by (meson list.set_intros(2))
  next
    assume "\<exists>row. stored_price d (price_key r) = Some row \<and> fst u = cp_id row"
    then show ?case by (meson list.set_intros(1))
  qed
qed simp

lemma stored_price_get: "price_keys_ok (catalog_prices d) \<Longrightarrow> stored_price d k = tget cp_key k (catalog_prices d)"
  by (simp add: stored_price_def tget_rev price_keys_ok_def)

lemma same_id: "price_keys_ok rows \<Longrightarrow> a \<in> set rows \<Longrightarrow> b \<in> set rows \<Longrightarrow> cp_id a = cp_id b \<Longrightarrow> a = b"
  by (auto simp: price_keys_ok_def distinct_map inj_on_def)

lemma changed_distinct:
  assumes "sort_out d rs = (fresh, changed, n)" "price_keys_ok (catalog_prices d)" "distinct (map price_key rs)"
  shows "distinct (map fst changed)"
  using assms(1,3)
proof (induction rs arbitrary: fresh changed n)
  case (Cons r rs)
  obtain f c m where s: "sort_out d rs = (f, c, m)" by (metis prod_cases3)
  have ih: "distinct (map fst c)" using Cons.IH[OF s] Cons.prems by simp
  have "cp_id row \<notin> set (map fst c)" if row: "stored_price d (price_key r) = Some row" for row
  proof
    assume "cp_id row \<in> set (map fst c)"
    then obtain u where "u \<in> set c" "fst u = cp_id row" by auto
    with sort_out_changed[OF s this(1)] obtain row' r' where r': "r' \<in> set rs" "stored_price d (price_key r') = Some row'" "cp_id row' = cp_id row"
      by metis
    have "row \<in> set (catalog_prices d)" "row' \<in> set (catalog_prices d)" "cp_key row = price_key r" "cp_key row' = price_key r'"
      using row r' assms(2) by (auto simp: stored_price_get dest: tget_SomeD)
    with same_id[OF assms(2)] r' have "price_key r = price_key r'" by metis
    with r' Cons.prems(2) show False by auto
  qed
  with Cons.prems(1) s ih show ?case by (auto split: option.splits prod.splits if_splits)
qed simp

lemma changed_values:
  assumes "sort_out d rs = (fresh, changed, n)" "price_keys_ok (catalog_prices d)" "row \<in> set (catalog_prices d)"
    and "distinct (map price_key rs)"
  shows "cp_values (changed_row changed row)
    = (case records_table rs (cp_key row) of None \<Rightarrow> cp_values row | Some v \<Rightarrow> enriched v (cp_values row))"
  using assms(1,4)
proof (induction rs arbitrary: fresh changed n)
  case Nil
  then show ?case by (simp add: changed_row_def records_table_def)
next
  case (Cons r rs)
  obtain f c m where s: "sort_out d rs = (f, c, m)" by (metis prod_cases3)
  have ih: "cp_values (changed_row c row) = (case records_table rs (cp_key row) of None \<Rightarrow> cp_values row | Some v \<Rightarrow> enriched v (cp_values row))"
    using Cons.IH[OF s] Cons.prems(2) by simp
  show ?case
  proof (cases "price_key r = cp_key row")
    case True
    then have st: "stored_price d (price_key r) = Some row"
      using assms(2,3) by (simp add: stored_price_get tget_in price_keys_ok_def)
    have none: "records_table rs (cp_key row) = None"
      using Cons.prems(2) True by (auto simp: records_table_def map_of_eq_None_iff comp_def)
    have cur: "records_table (r # rs) (cp_key row) = Some (price_values r)" using True by (simp add: records_table_def)
    obtain v b where mv: "merge_values (price_values r) (cp_values row) = (v, b)"
      by (cases "merge_values (price_values r) (cp_values row)")
    show ?thesis
    proof (cases b)
      case True
      then have "changed = (cp_id row, v) # c" using Cons.prems(1) s st mv by (auto split: if_splits)
      then show ?thesis using merge_values_enriched(1)[of "price_values r" "cp_values row"] mv cur by (simp add: changed_row_def)
    next
      case False
      then have "changed = c" using Cons.prems(1) s st mv by (auto split: if_splits)
      then show ?thesis using merge_values_enriched(2)[of "price_values r" "cp_values row"] mv cur ih none False by simp
    qed
  next
    case False
    then have other: "stored_price d (price_key r) = Some row' \<Longrightarrow> cp_id row' \<noteq> cp_id row" for row'
      using assms(2,3) same_id[OF assms(2), of row' row] by (auto simp: stored_price_get dest!: tget_SomeD)
    have "changed_row changed row = changed_row c row"
      using Cons.prems(1) s other by (auto simp: changed_row_def split: option.splits prod.splits if_splits)
    moreover have "records_table (r # rs) (cp_key row) = records_table rs (cp_key row)"
      using False by (simp add: records_table_def)
    ultimately show ?thesis using ih by simp
  qed
qed

lemma tget_map_of: "map_option f (tget key k rows) = map_of (map (\<lambda>r. (key r, f r)) rows) k"
  by (induction rows) (simp_all add: table_simps)

lemma records_filter:
  "records_table (filter (\<lambda>r. P (price_key r)) rs) k = (if P k then records_table rs k else None)"
  unfolding records_table_def by (induction rs) auto

lemma added_table:
  "map exported rows = rs \<Longrightarrow> map_option cp_values (tget cp_key k rows) = records_table rs k"
  unfolding tget_map_of records_table_def
  by (rule arg_cong[where f = "\<lambda>m. map_of m k"]) (auto simp: exported_def cp_key_def price_key_def cp_values_def price_values_def)

text \<open>The writer is the specification, and touches nothing else.\<close>

lemma upsert_effect:
  assumes "upsert_price_rows e rs w = (Inr st, w1)" and ok: "price_keys_ok (catalog_prices (cur w))"
    and keys: "distinct (map price_key rs)"
  shows "price_table (cur w1) = enriched_table (records_table rs) (price_table (cur w))
    \<and> price_keys_ok (catalog_prices (cur w1)) \<and> (\<exists>rows. cur w1 = (cur w)\<lparr>catalog_prices := rows\<rparr>)
    \<and> take (length (catalog_prices (cur w))) (map cp_id (catalog_prices (cur w1))) = map cp_id (catalog_prices (cur w))
    \<and> saved w1 = saved w \<and> bad w1 = bad w \<and> us_inserted st + us_updated st + us_unchanged st = length rs"
proof (cases "rs = []")
  case True
  then show ?thesis
    using assms by (auto simp: upsert_price_rows_def enriched_table_def records_table_def intro: exI[of _ "catalog_prices (cur w)"])
next
  case False
  let ?T = "catalog_prices (cur w)"
  obtain fresh changed n where s: "sort_out (cur w) rs = (fresh, changed, n)" by (metis prod_cases3)
  note parts = sort_out_parts[OF s]
  have pos: "0 < PRICE_CHUNK" by (simp add: PRICE_CHUNK_def)
  obtain w2 where b: "bulk_saves e (chunks PRICE_CHUNK fresh) w = (None, w2)"
    and w1: "w1 = fold bulk_update (chunks PRICE_CHUNK changed) w2" and st: "us_inserted st + us_updated st + us_unchanged st = length rs"
    using assms(1) False s parts(2) by (auto simp: upsert_price_rows_def split: prod.splits option.splits)
  obtain rows where a: "adds e fresh w rows w2" and k: "price_keys_ok (?T @ rows)"
    using bulk_saves_None[OF b ok] by (auto simp: concat_chunks[OF pos])
  have t: "catalog_prices (cur w1) = map (changed_row changed) (?T @ rows)"
    and frame: "cur w1 = (cur w)\<lparr>catalog_prices := map (changed_row changed) (?T @ rows)\<rparr>" "saved w1 = saved w" "bad w1 = bad w"
    using a updates_map[OF changed_distinct[OF s ok keys]]
    by (simp_all add: w1 bulk_updates concat_chunks[OF pos] updates_table adds_def add_price_rows_def)
  have new: "changed_row changed row = row" if "row \<in> set rows" for row
  proof -
    have "cp_id row \<notin> cp_id ` set ?T" using k that by (auto simp: price_keys_ok_def)
    moreover have "fst ` set changed \<subseteq> cp_id ` set ?T"
    proof
      fix i assume "i \<in> fst ` set changed"
      then obtain u where u: "u \<in> set changed" "i = fst u" by blast
      from sort_out_changed[OF s u(1)] obtain r row where "stored_price (cur w) (price_key r) = Some row" "fst u = cp_id row"
        by blast
      with u ok show "i \<in> cp_id ` set ?T" by (auto simp: stored_price_get dest!: tget_SomeD)
    qed
    ultimately have "map_of changed (cp_id row) = None" by (auto simp: map_of_eq_None_iff)
    then show ?thesis by (simp add: changed_row_def)
  qed
  have "price_table (cur w1) q = enriched_table (records_table rs) (price_table (cur w)) q" for q
  proof (cases "tget cp_key q ?T")
    case (Some row)
    then have row: "row \<in> set ?T" "cp_key row = q" by (auto dest: tget_SomeD)
    have "tget cp_key q (map (changed_row changed) (?T @ rows)) = Some (changed_row changed row)"
      using Some by (simp add: tget_map table_simps)
    then show ?thesis
      using changed_values[OF s ok row(1) keys] Some row(2)
      by (simp add: price_table_def t enriched_table_def split: option.split)
  next
    case None
    have "price_table (cur w1) q = map_option cp_values (map_option (changed_row changed) (tget cp_key q rows))"
      using None by (simp add: price_table_def t tget_map table_simps)
    also have "map_option (changed_row changed) (tget cp_key q rows) = tget cp_key q rows"
      using new by (cases "tget cp_key q rows") (auto dest: tget_SomeD)
    also have "map_option cp_values (tget cp_key q rows) = records_table fresh q"
      using a by (intro added_table) (simp add: adds_def)
    also have "\<dots> = records_table rs q"
      unfolding parts(1) records_filter[where P = "\<lambda>k. stored_price (cur w) k = None"] using None ok by (simp add: stored_price_get)
    finally show ?thesis using None by (simp add: price_table_def enriched_table_def split: option.split)
  qed
  moreover have "price_keys_ok (catalog_prices (cur w1))" using k by (simp add: t price_keys_ok_def comp_def)
  moreover have "take (length ?T) (map cp_id (catalog_prices (cur w1))) = map cp_id ?T" by (simp add: t comp_def)
  ultimately show ?thesis using frame st by blast
qed

text \<open>Ids that are new are all it needs.\<close>

definition new_ids :: "env \<Rightarrow> db \<Rightarrow> bool" where
  "new_ids e d \<longleftrightarrow> inj (uuid e) \<and> range (uuid e) \<inter> cp_id ` set (catalog_prices d) = {}"

lemma bulk_saves_total:
  assumes "inj (uuid e)" "\<not> bad w" "price_keys_ok (catalog_prices (cur w))"
    and "uuid e ` {mints w ..} \<inter> cp_id ` set (catalog_prices (cur w)) = {}"
    and "distinct (map price_key (concat cs))" "price_key ` set (concat cs) \<inter> cp_key ` set (catalog_prices (cur w)) = {}"
  shows "\<exists>w1. bulk_saves e cs w = (None, w1)"
  using assms(2-)
proof (induction cs arbitrary: w)
  case (Cons c cs)
  let ?T = "catalog_prices (cur w)"
  obtain rows wa where b: "build_price_rows e c w = (rows, wa)" by force
  note spec = build_price_rows_spec[OF b]
  have keys: "map cp_key rows = map price_key c" using exported_keys[OF spec(1)] by blast
  have ids: "cp_id ` set rows = uuid e ` {mints w ..< mints w + length c}"
    using arg_cong[OF spec(2), of set] by simp
  have "distinct (map cp_id rows)"
    unfolding spec(2) using assms(1) by (simp add: distinct_map inj_on_def inj_def)
  moreover have "distinct (map cp_key rows)" "cp_key ` set rows = price_key ` set c"
    using Cons.prems(4) keys by (simp, metis set_map)
  moreover have "cp_id ` set rows \<inter> cp_id ` set ?T = {}"
  proof -
    have "uuid e ` {mints w ..< mints w + length c} \<subseteq> uuid e ` {mints w ..}" by auto
    then show ?thesis unfolding ids using Cons.prems(3) by blast
  qed
  ultimately have ok: "price_keys_ok (?T @ rows)"
    using Cons.prems(2,5) by (auto simp: price_keys_ok_def)
  define w2 where "w2 = w\<lparr>mints := mints w + length c, cur := add_price_rows rows (cur w)\<rparr>"
  have saved2: "bulk_save e c w = (None, w2)"
    using Cons.prems(1) ok spec(3) by (simp add: bulk_save_def b flush_def stage_def w2_def)
  have t: "catalog_prices (cur w2) = ?T @ rows" "mints w2 = mints w + length c" "\<not> bad w2"
    using Cons.prems(1) by (simp_all add: w2_def add_price_rows_def)
  have "\<exists>w1. bulk_saves e cs w2 = (None, w1)"
  proof (rule Cons.IH)
    have "uuid e ` {mints w + length c ..} \<inter> uuid e ` {mints w ..< mints w + length c} = {}"
      by (fastforce dest: injD[OF assms(1)])
    moreover have "uuid e ` {mints w + length c ..} \<inter> cp_id ` set ?T = {}"
    proof -
      have "uuid e ` {mints w + length c ..} \<subseteq> uuid e ` {mints w ..}" by auto
      then show ?thesis using Cons.prems(3) by blast
    qed
    ultimately show "uuid e ` {mints w2 ..} \<inter> cp_id ` set (catalog_prices (cur w2)) = {}"
      unfolding t using ids by (simp add: image_Un Int_Un_distrib)
    show "price_key ` set (concat cs) \<inter> cp_key ` set (catalog_prices (cur w2)) = {}"
    proof -
      have "price_key ` set c \<inter> price_key ` set (concat cs) = {}" using Cons.prems(4) by simp
      moreover have "price_key ` set (concat cs) \<inter> cp_key ` set ?T = {}" using Cons.prems(5) by (simp add: image_Un Int_Un_distrib2)
      ultimately show ?thesis
        unfolding t set_append image_Un \<open>cp_key ` set rows = price_key ` set c\<close> by blast
    qed
  qed (use t ok Cons.prems(4) in simp_all)
  then show ?case using saved2 by simp
qed simp

lemma upsert_total:
  assumes "new_ids e (cur w)" "\<not> bad w" "price_keys_ok (catalog_prices (cur w))" "distinct (map price_key rs)"
  shows "\<exists>st w1. upsert_price_rows e rs w = (Inr st, w1)"
proof -
  obtain fresh changed n where s: "sort_out (cur w) rs = (fresh, changed, n)" by (metis prod_cases3)
  have pos: "0 < PRICE_CHUNK" by (simp add: PRICE_CHUNK_def)
  note f = sort_out_parts(1)[OF s]
  have "\<exists>w1. bulk_saves e (chunks PRICE_CHUNK fresh) w = (None, w1)"
  proof (rule bulk_saves_total)
    show "distinct (map price_key (concat (chunks PRICE_CHUNK fresh)))"
      unfolding concat_chunks[OF pos] f using assms(4) by (rule distinct_map_filter)
    show "price_key ` set (concat (chunks PRICE_CHUNK fresh)) \<inter> cp_key ` set (catalog_prices (cur w)) = {}"
      unfolding concat_chunks[OF pos] f stored_price_get[OF assms(3)] tget_None_iff set_filter by blast
  qed (use assms in \<open>auto simp: new_ids_def\<close>)
  then show ?thesis using s by (auto simp: upsert_price_rows_def)
qed

lemma enriched_twice: "enriched v (enriched v v0) = enriched v v0"
  by (auto simp: enriched_def over_def split: prod.splits option.splits)

text \<open>Loading one source twice is loading it once.\<close>

lemma enriched_table_idem: "enriched_table inc (enriched_table inc m) = enriched_table inc m"
  by (rule ext) (auto simp: enriched_table_def enriched_twice enriched_def over_def split: option.splits prod.splits)

section \<open>What the file holds\<close>

definition latest :: "price_record list \<Rightarrow> price_key \<Rightarrow> price_record option" where
  "latest rs = map_of (map (\<lambda>r. (price_key r, r)) rs)"

lemma records_latest: "records_table rs k = map_option price_values (latest rs k)"
  unfolding records_table_def latest_def by (induction rs) auto

definition keyed :: "(price_key \<times> price_record) list \<Rightarrow> bool" where
  "keyed m \<longleftrightarrow> distinct (map fst m) \<and> (\<forall>(k, r) \<in> set m. k = price_key r)"

lemma dict_set_members: "set (dict_set k v m) \<subseteq> insert (k, v) (set m)"
  by (induction m) auto

lemma keyed_set: "keyed m \<Longrightarrow> keyed (dict_set (price_key r) r m)"
  using dict_set_members[of "price_key r" r m] by (auto simp: keyed_def distinct_update)

lemma keyed_pairs: "keyed m \<Longrightarrow> map (\<lambda>r. (price_key r, r)) (map snd m) = m"
  by (auto simp: keyed_def intro!: map_idI)

lemma keyed_sort: "keyed m \<Longrightarrow> keyed (sort_key fst m)"
  using mset_eq_imp_distinct_iff[of "map fst (sort_key fst m)" "map fst m"] by (simp add: keyed_def)

lemma keyed_fold: "keyed m \<Longrightarrow> keyed (fold (\<lambda>r m. dict_set (price_key r) r m) rs m)"
  by (induction rs arbitrary: m) (simp_all add: keyed_set)

lemma fold_latest:
  "distinct (map price_key rs) \<Longrightarrow> map_of (fold (\<lambda>r m. dict_set (price_key r) r m) rs m) = map_of m ++ latest rs"
proof (induction rs arbitrary: m)
  case (Cons r rs)
  then have "latest rs (price_key r) = None" by (auto simp: latest_def map_of_eq_None_iff comp_def)
  with Cons show ?case by (auto simp: update_conv' latest_def map_add_def fun_eq_iff split: option.split)
qed (simp add: latest_def)

lemma length_update: "length m \<le> length (dict_set k v m)"
  by (induction m) auto

lemma merge_steps:
  "fst (fold merge_step fresh (m, a, u)) = fold (\<lambda>r m. dict_set (price_key r) r m) fresh m
   \<and> length m \<le> length (fst (fold merge_step fresh (m, a, u)))"
proof (induction fresh arbitrary: m a u)
  case (Cons r fresh)
  obtain a' u' where "merge_step r (m, a, u) = (dict_set (price_key r) r m, a', u')"
    by (cases "map_of m (price_key r)") (auto simp: merge_step_def)
  then show ?case
    using Cons[of "dict_set (price_key r) r m" a' u'] by (auto intro: le_trans[OF length_update])
qed simp

text \<open>The file never shrinks; its rows are ordered and one per triple; the fresh rows replace the old.\<close>

lemma merge_price_export_spec:
  assumes "merge_price_export previous fresh = (out, st)" "distinct (map price_key previous)" "distinct (map price_key fresh)"
  shows "es_before st \<le> es_after st" "sorted (map price_key out)" "distinct (map price_key out)"
    "latest out = latest previous ++ latest fresh" "set out \<subseteq> set previous \<union> set fresh"
proof -
  let ?f = "\<lambda>r m. dict_set (price_key r) r m"
  define m0 where "m0 = fold ?f previous []"
  define m1 where "m1 = fold ?f fresh m0"
  obtain m a u where fm: "fold merge_step fresh (m0, 0, 0) = (m, a, u)" by (rule prod_cases3)
  then have "m = m1" using merge_steps[of fresh m0 0 0] by (simp add: m1_def)
  with fm have st: "fold merge_step fresh (m0, 0, 0) = (m1, a, u)" by simp
  have out: "out = map snd (sort_key fst m1)" and n: "st = \<lparr>es_before = length m0, es_added = a, es_updated = u, es_after = length out\<rparr>"
    using assms(1) by (auto simp: merge_price_export_def m0_def[symmetric] st Let_def)
  have k1: "keyed m1" unfolding m1_def m0_def by (intro keyed_fold) (simp add: keyed_def)
  note ks = keyed_sort[OF k1]
  have pairs: "map (\<lambda>r. (price_key r, r)) out = sort_key fst m1" unfolding out by (rule keyed_pairs[OF ks])
  have k2: "map price_key out = map fst (sort_key fst m1)" using arg_cong[OF pairs, of "map fst"] by (simp add: comp_def)
  have d: "distinct (map fst (sort_key fst m1))" using ks by (simp add: keyed_def)
  show "es_before st \<le> es_after st" using conjunct2[OF merge_steps[of fresh m0 0 0]] unfolding st n out by simp
  show "sorted (map price_key out)" "distinct (map price_key out)" using d by (simp_all add: k2)
  have "latest out = map_of m1"
    unfolding latest_def pairs by (rule map_of_inject_set[THEN iffD2, OF d]) (use k1 in \<open>simp_all add: keyed_def\<close>)
  also have "\<dots> = latest previous ++ latest fresh"
    unfolding m1_def m0_def fold_latest[OF assms(2)] fold_latest[OF assms(3)] by simp
  finally show l: "latest out = latest previous ++ latest fresh" .
  show "set out \<subseteq> set previous \<union> set fresh"
  proof
    fix r assume "r \<in> set out"
    then have "latest out (price_key r) = Some r"
      using \<open>distinct (map price_key out)\<close> by (auto simp: latest_def comp_def)
    then show "r \<in> set previous \<union> set fresh"
      unfolding l by (auto simp: latest_def map_add_Some_iff dest!: map_of_SomeD)
  qed
qed

definition good_prices :: "db \<Rightarrow> bool" where
  "good_prices d \<longleftrightarrow> price_keys_ok (catalog_prices d) \<and> list_all price_ok (map exported (catalog_prices d))"

lemma export_prices_spec:
  assumes "good_prices d"
  shows "distinct (map price_key (export_prices d))" "list_all price_ok (export_prices d)" "records_table (export_prices d) = price_table d"
proof -
  let ?rs = "map exported (catalog_prices d)"
  have k: "map price_key ?rs = map cp_key (catalog_prices d)" by (simp add: exported_def price_key_def cp_key_def)
  have d: "distinct (map price_key ?rs)" unfolding k using assms by (simp add: good_prices_def price_keys_ok_def)
  show d2: "distinct (map price_key (export_prices d))"
  proof -
    have "mset (map price_key (export_prices d)) = mset (map price_key ?rs)"
      by (simp only: export_prices_def mset_map mset_sort)
    from mset_eq_imp_distinct_iff[OF this] d show ?thesis by blast
  qed
  show "list_all price_ok (export_prices d)" using assms by (simp add: good_prices_def export_prices_def list_all_iff)
  have "records_table (export_prices d) = records_table ?rs"
    unfolding records_table_def using d d2
    by (intro map_of_inject_set[THEN iffD2]) (simp_all add: comp_def export_prices_def image_image)
  also have "\<dots> = price_table d"
    using added_table[of "catalog_prices d" ?rs] by (simp add: fun_eq_iff price_table_def)
  finally show "records_table (export_prices d) = price_table d" .
qed

text \<open>Exports from several machines into one file, one after the other.\<close>

definition export_into :: "db \<Rightarrow> string option \<Rightarrow> string option" where
  "export_into d dest = (case run_export d dest of Inl x \<Rightarrow> dest | Inr (t, st) \<Rightarrow> Some t)"

text \<open>A file that this program wrote, with what it holds.\<close>

definition holds :: "string option \<Rightarrow> (price_key \<Rightarrow> price_values option) \<Rightarrow> bool" where
  "holds dest m \<longleftrightarrow> (case dest of None \<Rightarrow> m = Map.empty
     | Some t \<Rightarrow> \<exists>rs. t = serialize_export rs \<and> list_all price_ok rs \<and> sorted (map price_key rs)
         \<and> distinct (map price_key rs) \<and> records_table rs = m)"

lemma latest_add: "latest out = latest p ++ latest f \<Longrightarrow> records_table out = records_table p ++ records_table f"
  by (auto simp: fun_eq_iff records_latest map_add_def split: option.splits)

lemma export_into_holds:
  assumes "holds dest m" "good_prices d"
  shows "holds (export_into d dest) (m ++ price_table d)" "export_into d dest \<noteq> None"
proof -
  obtain p where p: "(case dest of None \<Rightarrow> Inr [] | Some t \<Rightarrow> load_export t) = Inr p" "list_all price_ok p"
    "distinct (map price_key p)" "records_table p = m"
    using assms(1) by (cases dest) (auto simp: holds_def load_serialized records_table_def)
  obtain out st where o: "merge_price_export p (export_prices d) = (out, st)" by force
  note e = export_prices_spec[OF assms(2)]
  note spec = merge_price_export_spec[OF o p(3) e(1)]
  have t: "export_into d dest = Some (serialize_export out)"
    using p(1) o spec(1) by (simp add: export_into_def run_export_def write_export_def)
  moreover have "list_all price_ok out" using spec(5) p(2) e(2) by (auto simp: list_all_iff)
  ultimately show "holds (export_into d dest) (m ++ price_table d)"
    using spec latest_add[OF spec(4)] p(4) e(3) by (auto simp: holds_def)
  show "export_into d dest \<noteq> None" using t by simp
qed

lemma exports_hold:
  "holds dest m \<Longrightarrow> list_all good_prices ds \<Longrightarrow> dest \<noteq> None \<or> ds \<noteq> [] \<Longrightarrow>
     holds (fold export_into ds dest) (fold (\<lambda>d m. m ++ price_table d) ds m) \<and> fold export_into ds dest \<noteq> None"
proof (induction ds arbitrary: dest m)
  case (Cons d ds)
  then show ?case using export_into_holds[of dest m d] by simp
qed auto

section \<open>From shop to shop\<close>

text \<open>C18: prices travel over the file without loss: after exports from any machines, one after the other into one file,
  loading it succeeds on every server and commits the field-by-field merge of the file's rows into the
  server's table, where the file holds, for every triple, the row of the last machine that has it.
  Nothing the server knew is removed or blanked, no other table changes, no row changes its id, and
  loading again changes nothing.\<close>

theorem prices_travel:
  assumes "ds \<noteq> []" "list_all good_prices ds" and "clean w" "price_keys_ok (catalog_prices (cur w))" "new_ids e (cur w)"
  shows "\<exists>t st w1. fold export_into ds None = Some t \<and> run_from_export e t False w = (Inr (Inr st), w1)
    \<and> price_table (saved w1) = enriched_table (fold (\<lambda>d m. m ++ price_table d) ds Map.empty) (price_table (saved w))
    \<and> enriched_table (fold (\<lambda>d m. m ++ price_table d) ds Map.empty) (price_table (saved w1)) = price_table (saved w1)
    \<and> (\<exists>rows. saved w1 = (saved w)\<lparr>catalog_prices := rows\<rparr>
         \<and> take (length (catalog_prices (saved w))) (map cp_id rows) = map cp_id (catalog_prices (saved w)))"
proof -
  let ?m = "fold (\<lambda>d m. m ++ price_table d) ds Map.empty"
  have "holds (fold export_into ds None) ?m \<and> fold export_into ds None \<noteq> None"
    using assms(1,2) by (intro exports_hold) (simp_all add: holds_def)
  then obtain t rs where t: "fold export_into ds None = Some t" "t = serialize_export rs" "list_all price_ok rs"
    "distinct (map price_key rs)" "records_table rs = ?m"
    by (auto simp: holds_def)
  have w: "cur w = saved w" "\<not> bad w" using assms(3) by (simp_all add: clean_def)
  obtain st w1 where u: "upsert_price_rows e rs w = (Inr st, w1)"
    using upsert_total[OF assms(5) w(2) assms(4) t(4)] by blast
  note eff = upsert_effect[OF u assms(4) t(4)]
  then have b: "\<not> bad w1" using w by simp
  have run: "run_from_export e t False w = (Inr (Inr st), w1\<lparr>saved := cur w1\<rparr>)"
    by (simp add: run_from_export_def t(2) load_serialized[OF t(3)] u commit_or_fail_def commit_def b)
  obtain rows where r: "cur w1 = (cur w)\<lparr>catalog_prices := rows\<rparr>" using eff by blast
  have "take (length (catalog_prices (saved w))) (map cp_id rows) = map cp_id (catalog_prices (saved w))"
    using eff r w(1) by simp
  moreover have "price_table (cur w1) = enriched_table ?m (price_table (saved w))" using eff w(1) t(5) by simp
  ultimately have "run_from_export e t False w = (Inr (Inr st), w1\<lparr>saved := cur w1\<rparr>)
      \<and> price_table (saved (w1\<lparr>saved := cur w1\<rparr>)) = enriched_table ?m (price_table (saved w))
      \<and> enriched_table ?m (price_table (saved (w1\<lparr>saved := cur w1\<rparr>))) = price_table (saved (w1\<lparr>saved := cur w1\<rparr>))
      \<and> (saved (w1\<lparr>saved := cur w1\<rparr>) = (saved w)\<lparr>catalog_prices := rows\<rparr>
           \<and> take (length (catalog_prices (saved w))) (map cp_id rows) = map cp_id (catalog_prices (saved w)))"
    using run r w(1) enriched_table_idem[of ?m "price_table (saved w)"] by simp
  then show ?thesis using t(1) by blast
qed

section \<open>Whatever is loaded\<close>

text \<open>What the reader makes of any text: ints within the limit, at every depth.\<close>

fun ints_ok :: "json \<Rightarrow> bool" where
  "ints_ok (J_int i) \<longleftrightarrow> int_ok i"
| "ints_ok (J_list vs) \<longleftrightarrow> list_all ints_ok vs"
| "ints_ok (J_obj kvs) \<longleftrightarrow> list_all (\<lambda>(k, v). ints_ok v) kvs"
| "ints_ok _ \<longleftrightarrow> True"

lemma digits_int_ok: "list_all is_dig ds \<Longrightarrow> length ds \<le> 4300 \<Longrightarrow> digits_val ds < DIGIT_LIMIT"
proof -
  assume ds: "list_all is_dig ds" "length ds \<le> 4300"
  have "digits_val ds < 10 ^ length ds" using ds(1) by (rule digits_val_less)
  also have "\<dots> \<le> (10 :: nat) ^ 4300" by (rule power_increasing[OF ds(2)]) simp
  finally show ?thesis unfolding DIGIT_LIMIT_def .
qed

text \<open>The shape of \<open>scan_abs\<close>: a literal without fraction and exponent is an int of at most 4300 digits.\<close>

lemma scan_abs_shape:
  "\<exists>P lit r1 r3. scan_abs neg r = (if r = [] \<or> \<not> is_dig (hd r) then None
     else if P then (if 4300 < length (if hd r = CHR ''0'' then ''0'' else takeWhile is_dig r) then None
        else Some (J_int (if neg then - int (digits_val (if hd r = CHR ''0'' then ''0'' else takeWhile is_dig r))
            else int (digits_val (if hd r = CHR ''0'' then ''0'' else takeWhile is_dig r))), r1))
     else Some (J_float lit, r3))"
  unfolding scan_abs_def Let_def by (intro exI) (rule refl)

lemma scan_abs_ints:
  assumes "scan_abs neg r = Some (v, t)"
  shows "ints_ok v"
proof -
  define ds where "ds = (if hd r = CHR ''0'' then ''0'' else takeWhile is_dig r)"
  have "list_all is_dig ds" by (auto simp: ds_def list_all_iff zero_char dest: set_takeWhileD)
  then have lim: "digits_val ds < DIGIT_LIMIT" if "length ds \<le> 4300" using digits_int_ok that by blast
  obtain P lit r1 r3 where "scan_abs neg r = (if r = [] \<or> \<not> is_dig (hd r) then None
     else if P then (if 4300 < length ds then None else Some (J_int (if neg then - int (digits_val ds) else int (digits_val ds)), r1))
     else Some (J_float lit, r3))"
    using scan_abs_shape[of neg r] unfolding ds_def by blast
  with assms lim show ?thesis by (auto simp: int_ok_def split: if_splits)
qed

lemma scan_num_ints: "scan_num s = Some (v, t) \<Longrightarrow> ints_ok v"
  by (auto simp: scan_num_def dest: scan_abs_ints split: if_splits)

lemma scan_literal_ints: "scan_literal s = Some (v, t) \<Longrightarrow> ints_ok v"
  by (auto simp: scan_literal_def literals_def split: if_splits option.splits)

lemma scan_list_ints:
  assumes "\<And>s v t. p s = Some (v, t) \<Longrightarrow> ints_ok v"
  shows "scan_list n p s = Some (vs, t) \<Longrightarrow> list_all ints_ok vs"
proof (induction n arbitrary: s vs t)
  case (Suc n)
  then show ?case
    by (auto simp: cons_fst_def dest!: assms split: option.splits list.splits if_splits)
qed simp

lemma scan_obj_ints:
  assumes "\<And>s v t. p s = Some (v, t) \<Longrightarrow> ints_ok v"
  shows "scan_obj n p s = Some (kvs, t) \<Longrightarrow> list_all (\<lambda>(k, v). ints_ok v) kvs"
proof (induction n arbitrary: s kvs t)
  case (Suc n)
  then show ?case
    by (auto simp: cons_fst_def dest!: assms split: option.splits list.splits if_splits)
qed simp

lemma dict_of_members: "set (dict_of kvs) \<subseteq> set kvs"
proof -
  have "set (fold (\<lambda>(k, v). dict_set k v) kvs acc) \<subseteq> set acc \<union> set kvs" for acc
    by (induction kvs arbitrary: acc) (use dict_set_members in fastforce)+
  from this[of "[]"] show ?thesis by (simp add: dict_of_def)
qed

lemma scan_value_ints: "scan_value n s = Some (v, t) \<Longrightarrow> ints_ok v"
proof (induction n arbitrary: s v t)
  case (Suc n)
  have sub: "scan_list n (scan_value n) x = Some (vs, y) \<Longrightarrow> list_all ints_ok vs"
    "scan_obj n (scan_value n) x = Some (kvs, y) \<Longrightarrow> list_all (\<lambda>(k, v). ints_ok v) kvs" for x vs kvs y
    using scan_list_ints[of "scan_value n" n x vs y] scan_obj_ints[of "scan_value n" n x kvs y] Suc.IH by blast+
  have obj: "ints_ok (J_obj (dict_of kvs))" if "list_all (\<lambda>(k, v). ints_ok v) kvs" for kvs
    using that dict_of_members[of kvs] by (auto simp: list_all_iff)
  show ?case
    using Suc.prems
    by (auto simp: Let_def simp del: ints_ok.simps(3) intro: obj sub scan_literal_ints scan_num_ints split: if_splits option.splits)
      simp_all
qed simp

lemma loads_ints: "loads s = Some v \<Longrightarrow> ints_ok v"
  by (auto simp: loads_def simp del: scan_value.simps dest!: scan_value_ints split: option.splits if_splits prod.splits)

text \<open>So a record that passes the checks fits the columns.\<close>

lemma jget_ints: "list_all (\<lambda>(k, v). ints_ok v) obj \<Longrightarrow> jget k obj = J_int n \<Longrightarrow> int_ok n"
  by (auto simp: jget_def list_all_iff dest!: map_of_SomeD split: option.splits)

lemma checked_record_ok: "ints_ok v \<Longrightarrow> check_record i v = None \<Longrightarrow> price_ok (record_of_json v)"
proof -
  assume v: "ints_ok v" and c: "check_record i v = None"
  then obtain obj where obj: "v = J_obj obj" by (cases v) (simp_all add: check_record_def)
  have ints: "jget k obj = J_int n \<Longrightarrow> int_ok n" for k n
    using v by (simp add: obj jget_ints)
  have amount: "amount_ok (int_of_json (jget k obj))" if "\<not> bad_amount (jget k obj)" for k
    using that ints[of k] by (auto simp: bad_amount_def int_of_json_def amount_ok_def split: json.splits)
  have year: "int_ok (the (int_of_json (jget k obj)))" if "\<not> bad_int (jget k obj)" for k
    using that ints[of k] by (auto simp: bad_int_def int_of_json_def split: json.splits)
  have name: "case str_of (jget ''name'' obj) of None \<Rightarrow> True | Some s \<Rightarrow> length s \<le> MAX_NAME" if "check_name i (jget ''name'' obj) = None"
    using that by (auto simp: check_name_def str_of_def split: json.splits if_splits)
  show ?thesis
    using c amount year name
    by (simp add: obj check_record_def record_of_json_def price_ok_def split: if_splits option.splits)
qed

lemma loaded_records_ok:
  assumes "load_export content = Inr rs"
  shows "list_all price_ok rs"
proof -
  obtain vs where vs: "loads content = Some (J_list vs)" "check_records 0 vs = None" "rs = map record_of_json vs"
    using assms by (auto simp: load_export_def validate_records_def split: option.splits json.splits)
  have "check_records i vs = None \<Longrightarrow> list_all ints_ok vs \<Longrightarrow> list_all price_ok (map record_of_json vs)" for i
    by (induction vs arbitrary: i) (auto intro: checked_record_ok split: option.splits)
  then show ?thesis using vs loads_ints[OF vs(1)] by simp
qed

section \<open>Nothing gets poorer\<close>

definition values_ok :: "price_values \<Rightarrow> bool" where
  "values_ok v = (case v of (n, c, k, p) \<Rightarrow> (case n of None \<Rightarrow> True | Some s \<Rightarrow> length s \<le> MAX_NAME)
     \<and> amount_ok c \<and> amount_ok k \<and> amount_ok p)"

lemma price_ok_values: "price_ok r \<longleftrightarrow> int_ok (pr_year r) \<and> int_ok (pr_number r) \<and> values_ok (price_values r)"
  by (simp add: price_ok_def values_ok_def price_values_def)

lemma exported_ok: "price_ok (exported row) \<longleftrightarrow> int_ok (cp_year row) \<and> int_ok (cp_number row) \<and> values_ok (cp_values row)"
  by (simp add: price_ok_values exported_def price_values_def cp_values_def)

lemma values_ok_enriched: "values_ok v \<Longrightarrow> values_ok v0 \<Longrightarrow> values_ok (enriched v v0)"
  by (auto simp: values_ok_def enriched_def over_def split: prod.splits option.splits)

text \<open>Every field that was known is known.\<close>

definition richer :: "price_values \<Rightarrow> price_values \<Rightarrow> bool" where
  "richer old v = (case (old, v) of ((n0, c0, k0, p0), (n, c, k, p)) \<Rightarrow>
     (n0 \<noteq> None \<longrightarrow> n \<noteq> None) \<and> (c0 \<noteq> None \<longrightarrow> c \<noteq> None) \<and> (k0 \<noteq> None \<longrightarrow> k \<noteq> None) \<and> (p0 \<noteq> None \<longrightarrow> p \<noteq> None))"

lemma richer_refl [simp]: "richer v v" "richer v (enriched u v)"
  by (auto simp: richer_def enriched_def over_def split: prod.splits option.splits)

lemma richer_trans: "richer u v \<Longrightarrow> richer v x \<Longrightarrow> richer u x"
  by (auto simp: richer_def split: prod.splits)

definition prices_grow :: "db \<Rightarrow> db \<Rightarrow> bool" where
  "prices_grow d d' \<longleftrightarrow> (\<forall>k v. price_table d k = Some v \<longrightarrow> (\<exists>v'. price_table d' k = Some v' \<and> richer v v'))"

lemma prices_grow_refl [simp]: "prices_grow d d"
  by (auto simp: prices_grow_def)

lemma prices_grow_trans: "prices_grow d d' \<Longrightarrow> prices_grow d' d'' \<Longrightarrow> prices_grow d d''"
  unfolding prices_grow_def by (meson richer_trans)

definition updated_row :: "(string \<times> price_values) list \<Rightarrow> catalog_price \<Rightarrow> catalog_price" where
  "updated_row us row = fold (\<lambda>u r. if cp_id r = fst u then set_values (snd u) r else r) us row"

lemma updated_table: "fold (\<lambda>u. tupd cp_id (fst u) (set_values (snd u))) us rows = map (updated_row us) rows"
proof (induction us arbitrary: rows)
  case Nil
  have "updated_row [] row = row" for row by (simp add: updated_row_def)
  then show ?case by (simp add: map_idI)
qed (simp add: updated_row_def tupd_def)

lemma updated_row_keep [simp]: "cp_id (updated_row us row) = cp_id row" "cp_key (updated_row us row) = cp_key row"
  by (induction us arbitrary: row) (simp_all add: updated_row_def)

lemma updated_row_values:
  "cp_values (updated_row us row) = cp_values row \<or> (cp_id row, cp_values (updated_row us row)) \<in> set us"
proof (induction us arbitrary: row)
  case (Cons u us)
  have step: "updated_row (u # us) row = updated_row us (if cp_id row = fst u then set_values (snd u) row else row)"
    by (simp add: updated_row_def)
  show ?case
    using Cons[of row] Cons[of "set_values (snd u) row"] unfolding step by (cases u) auto
qed (simp add: updated_row_def)

lemma sort_out_values:
  assumes "sort_out d rs = (fresh, changed, n)" "u \<in> set changed"
  shows "\<exists>r row. r \<in> set rs \<and> stored_price d (price_key r) = Some row \<and> u = (cp_id row, enriched (price_values r) (cp_values row))"
  using assms
proof (induction rs arbitrary: fresh changed n)
  case (Cons r rs)
  obtain f c m where s: "sort_out d rs = (f, c, m)" by (metis prod_cases3)
  have "u \<in> set c \<or> (\<exists>row. stored_price d (price_key r) = Some row \<and> u = (cp_id row, fst (merge_values (price_values r) (cp_values row))))"
    using Cons.prems s by (auto split: option.splits prod.splits if_splits)
  then show ?case
    unfolding merge_values_enriched(1)
  proof
    assume "u \<in> set c"
    with Cons.IH[OF s] show ?case by (meson list.set_intros(2))
  next
    assume "\<exists>row. stored_price d (price_key r) = Some row \<and> u = (cp_id row, enriched (price_values r) (cp_values row))"
    then show ?case using list.set_intros(1)[of r rs] by blast
  qed
qed simp

lemma key_of_exported: "exported a = r \<Longrightarrow> cp_year a = pr_year r \<and> cp_number a = pr_number r \<and> cp_values a = price_values r"
  by (auto simp: exported_def cp_values_def price_values_def)

text \<open>The writer on any valid records, repeated triples included (a repeated new triple makes it fail).\<close>

lemma upsert_keeps:
  assumes "upsert_price_rows e rs w = (Inr st, w1)" and good: "good_prices (cur w)" and rs: "list_all price_ok rs"
  shows "good_prices (cur w1) \<and> prices_grow (cur w) (cur w1) \<and> (\<exists>rows. cur w1 = (cur w)\<lparr>catalog_prices := rows\<rparr>)
    \<and> saved w1 = saved w \<and> bad w1 = bad w"
proof (cases "rs = []")
  case True
  then show ?thesis
    using assms by (auto simp: upsert_price_rows_def intro: exI[of _ "catalog_prices (cur w)"])
next
  case False
  let ?T = "catalog_prices (cur w)"
  have ok: "price_keys_ok ?T" and old: "\<And>row. row \<in> set ?T \<Longrightarrow> price_ok (exported row)"
    using good by (auto simp: good_prices_def list_all_iff)
  obtain fresh changed n where s: "sort_out (cur w) rs = (fresh, changed, n)" by (metis prod_cases3)
  have pos: "0 < PRICE_CHUNK" by (simp add: PRICE_CHUNK_def)
  obtain w2 where b: "bulk_saves e (chunks PRICE_CHUNK fresh) w = (None, w2)"
    and w1: "w1 = fold bulk_update (chunks PRICE_CHUNK changed) w2"
    using assms(1) False s by (auto simp: upsert_price_rows_def split: prod.splits option.splits)
  obtain rows where a: "adds e fresh w rows w2" and k: "price_keys_ok (?T @ rows)"
    using bulk_saves_None[OF b ok] by (auto simp: concat_chunks[OF pos])
  have frame: "cur w1 = (cur w)\<lparr>catalog_prices := map (updated_row changed) (?T @ rows)\<rparr>" "saved w1 = saved w" "bad w1 = bad w"
    using a by (simp_all add: w1 bulk_updates concat_chunks[OF pos] updates_table updated_table adds_def add_price_rows_def)
  have k1: "price_keys_ok (catalog_prices (cur w1))" using k by (simp add: frame price_keys_ok_def comp_def)
  have val: "cp_values (updated_row changed row) = cp_values row
      \<or> (\<exists>r \<in> set rs. row \<in> set ?T \<and> cp_values (updated_row changed row) = enriched (price_values r) (cp_values row))"
    if row: "row \<in> set (?T @ rows)" for row
    using updated_row_values[of changed row]
  proof
    assume "(cp_id row, cp_values (updated_row changed row)) \<in> set changed"
    from sort_out_values[OF s this] obtain r row0 where r: "r \<in> set rs" "stored_price (cur w) (price_key r) = Some row0"
      "cp_id row0 = cp_id row" "cp_values (updated_row changed row) = enriched (price_values r) (cp_values row0)"
      by auto
    then have "row0 \<in> set ?T" using ok by (auto simp: stored_price_get dest: tget_SomeD)
    then have "row0 = row" using same_id[OF k, of row0 row] row r(3) by simp
    with r \<open>row0 \<in> set ?T\<close> show ?thesis by blast
  qed blast
  have fit: "price_ok (exported row)" if "row \<in> set (?T @ rows)" for row
  proof (cases "row \<in> set ?T")
    case False
    then have "exported row \<in> set fresh" using that a by (auto simp: adds_def)
    then show ?thesis using sort_out_parts(1)[OF s] rs by (auto simp: list_all_iff)
  qed (rule old)
  have "price_ok (exported (updated_row changed row))" if row: "row \<in> set (?T @ rows)" for row
  proof -
    have "values_ok (cp_values row)" using fit[OF row] by (simp add: exported_ok)
    moreover have "values_ok (price_values r)" if "r \<in> set rs" for r using that rs by (auto simp: list_all_iff price_ok_values)
    ultimately have "values_ok (cp_values (updated_row changed row))"
      using val[OF row] values_ok_enriched by metis
    moreover have "cp_year (updated_row changed row) = cp_year row" "cp_number (updated_row changed row) = cp_number row"
      using updated_row_keep(2)[of changed row] by (simp_all add: cp_key_def)
    ultimately show ?thesis using fit[OF row] by (simp add: exported_ok)
  qed
  then have g: "good_prices (cur w1)" using k1 unfolding good_prices_def frame by (auto simp: list_all_iff)
  have "prices_grow (cur w) (cur w1)"
    unfolding prices_grow_def
  proof (intro allI impI)
    fix q v assume "price_table (cur w) q = Some v"
    then obtain row where row: "tget cp_key q ?T = Some row" "v = cp_values row" by (auto simp: price_table_def)
    then have "tget cp_key q (map (updated_row changed) (?T @ rows)) = Some (updated_row changed row)"
      by (simp add: tget_map table_simps)
    moreover have "richer v (cp_values (updated_row changed row))"
      using val[of row] tget_SomeD[OF row(1)] row(2) by (auto simp: richer_refl)
    ultimately show "\<exists>v'. price_table (cur w1) q = Some v' \<and> richer v v'" by (simp add: price_table_def frame)
  qed
  with g frame show ?thesis by blast
qed

lemma insert_missing_keeps:
  assumes "insert_missing_price_rows e rs w = (Inr out, w1)" and good: "good_prices (cur w)" and rs: "list_all price_ok rs"
  shows "good_prices (cur w1) \<and> prices_grow (cur w) (cur w1) \<and> (\<exists>rows. cur w1 = (cur w)\<lparr>catalog_prices := rows\<rparr>)
    \<and> saved w1 = saved w \<and> bad w1 = bad w"
proof -
  let ?fresh = "filter (\<lambda>r. pr_code r \<notin> set (map cp_code (catalog_prices (cur w)))) rs"
  show ?thesis
  proof (cases "?fresh = []")
    case True
    then show ?thesis
      using assms by (auto simp: insert_missing_price_rows_def Let_def intro: exI[of _ "catalog_prices (cur w)"])
  next
    case False
    then obtain w2 where "bulk_save e ?fresh w = (None, w2)" "w1 = w2"
      using assms(1) by (auto simp: insert_missing_price_rows_def Let_def split: prod.splits option.splits)
    then obtain rows where a: "adds e ?fresh w rows w1" "price_keys_ok (catalog_prices (cur w) @ rows)"
      using bulk_save_None by blast
    have "list_all price_ok (map exported rows)" using a(1) rs by (simp add: adds_def list_all_iff)
    with a good have "good_prices (cur w1)" by (simp add: adds_def add_price_rows_def good_prices_def)
    moreover have "prices_grow (cur w) (cur w1)"
      using a(1) by (auto simp: adds_def add_price_rows_def prices_grow_def price_table_def table_simps)
    ultimately show ?thesis using a(1) by (auto simp: adds_def add_price_rows_def)
  qed
qed

text \<open>A command commits what it staged or leaves the database alone.\<close>

definition price_step :: "db \<Rightarrow> db \<Rightarrow> bool" where
  "price_step d d' \<longleftrightarrow> good_prices d' \<and> prices_grow d d' \<and> (\<exists>rows. d' = d\<lparr>catalog_prices := rows\<rparr>)"

lemma price_step_refl: "good_prices d \<Longrightarrow> price_step d d"
  by (auto simp: price_step_def intro: exI[of _ "catalog_prices d"])

lemma commit_or_fail_step:
  assumes "clean w" "good_prices (saved w)"
    and "\<And>s w1. res = (Inr s, w1) \<Longrightarrow> price_step (saved w) (cur w1) \<and> saved w1 = saved w"
    and "\<And>x w1. res = (Inl x, w1) \<Longrightarrow> saved w1 = saved w"
  shows "price_step (saved w) (saved (snd (commit_or_fail res)))"
  using assms price_step_refl[OF assms(2)]
  by (cases res; cases "fst res") (auto simp: commit_or_fail_def commit_def split: option.splits)

end
