(* ===== verification/PriceArchive.thy ===== *)
theory PriceArchive
  imports PriceImport CatalogIssues
begin

text \<open>
  \<open>src/scripts/import_prices.py\<close>, the workbook side: file names, header rows, price rows, the walk over the
  archive and the guards of the command line. A workbook is what the reader makes of it, a list of
  sheets of rows of cells, or the name of the exception it raises. The header words are Cyrillic and
  therefore a parameter. The theorem: what the archive import commits is always accepted again by the
  transport file, so the table never gets a row the server would refuse.
\<close>

section \<open>Cells\<close>

text \<open>
  A cell after \<open>_normalise_cell\<close>, which folds integral floats to ints: a float keeps its \<open>str\<close> (it is not
  integral, and spreadsheets hold no infinities), every other value its \<open>str\<close>.
\<close>

datatype cell = Empty_cell | Bool_cell bool | Int_cell int | Float_cell string | Text_cell string | Other_cell string

definition cell_str :: "cell \<Rightarrow> string" where
  "cell_str v = (case v of Empty_cell \<Rightarrow> ''None'' | Bool_cell b \<Rightarrow> (if b then ''True'' else ''False'') | Int_cell n \<Rightarrow> show_int n
     | Float_cell s \<Rightarrow> s | Text_cell s \<Rightarrow> s | Other_cell s \<Rightarrow> s)"

record header_words =
  hw_code :: string
  hw_consumer :: string
  hw_consultant :: string
  hw_points :: string
  hw_name :: string

datatype role = Col_code | Col_consumer | Col_consultant | Col_points | Col_name

type_synonym colmap = "(role \<times> nat) list"

text \<open>\<open>str.upper\<close> on the letters of the model; the two whose capital lies outside of it are kept.\<close>

definition upper_char :: "char \<Rightarrow> string" where
  "upper_char c = (let n = ord_of c in
     if n = 223 then ''SS''
     else if 97 \<le> n \<and> n \<le> 122 \<or> 224 \<le> n \<and> n \<le> 254 \<and> n \<noteq> 247 then [char_of (n - 32)] else [c])"

definition norm_cell :: "cell \<Rightarrow> string" where
  "norm_cell v = (if v = Empty_cell then [] else concat (map upper_char (strip (cell_str v))))"

text \<open>The chain of tests on one cell of a header row.\<close>

definition claim_column :: "header_words \<Rightarrow> nat \<times> string \<Rightarrow> colmap \<Rightarrow> colmap" where
  "claim_column hw jc m = (case jc of (j, c) \<Rightarrow>
     if c = hw_code hw \<and> map_of m Col_code = None then dict_set Col_code j m
     else if c = hw_consumer hw \<and> map_of m Col_consumer = None then dict_set Col_consumer j m
     else if c = hw_consultant hw \<and> map_of m Col_consultant = None then dict_set Col_consultant j m
     else if c = hw_points hw \<and> map_of m Col_points = None then dict_set Col_points j m
     else if c = hw_name hw \<and> map_of m Col_name = None then dict_set Col_name j m
     else m)"

definition header_of :: "header_words \<Rightarrow> role list \<Rightarrow> cell list \<Rightarrow> colmap option" where
  "header_of hw require row =
     (let cells = map norm_cell row in
      if hw_code hw \<notin> set cells then None
      else let m = fold (claim_column hw) (enumerate 0 cells) []
           in if list_all (\<lambda>r. map_of m r \<noteq> None) require then Some m else None)"

fun first_header :: "header_words \<Rightarrow> role list \<Rightarrow> nat \<Rightarrow> cell list list \<Rightarrow> (nat \<times> colmap) option" where
  "first_header hw require i [] = None"
| "first_header hw require i (row # rows) =
     (case header_of hw require row of Some m \<Rightarrow> Some (i, m) | None \<Rightarrow> first_header hw require (Suc i) rows)"

definition find_header :: "header_words \<Rightarrow> role list \<Rightarrow> cell list list \<Rightarrow> (nat \<times> colmap) option" where
  "find_header hw require rows = first_header hw require 0 (take 8 rows)"

definition is_code :: "cell \<Rightarrow> bool" where
  "is_code v \<longleftrightarrow> v \<noteq> Empty_cell \<and> isdigit (strip (cell_str v)) \<and> 3 \<le> length (strip (cell_str v)) \<and> length (strip (cell_str v)) \<le> 7"

text \<open>\<open>value <= 0\<close> on the text of a float (which is false of \<open>nan\<close>).\<close>

definition not_positive :: "string \<Rightarrow> bool" where
  "not_positive s \<longleftrightarrow> s \<noteq> [] \<and> hd s = CHR ''-'' \<or> list_all (\<lambda>c. c \<in> {CHR ''0'', CHR ''.''}) s"

definition ok_or_none :: "exn + 'a \<Rightarrow> 'a option" where
  "ok_or_none r = (case r of Inl x \<Rightarrow> None | Inr a \<Rightarrow> Some a)"

text \<open>\<open>True\<close> counts as a positive number whose text is no amount.\<close>

definition cell_cents :: "cell \<Rightarrow> int option" where
  "cell_cents v = (case v of
       Int_cell n \<Rightarrow> if n \<le> 0 then None else ok_or_none (to_cents (show_int n))
     | Float_cell s \<Rightarrow> if not_positive s then None else ok_or_none (to_cents s)
     | Bool_cell b \<Rightarrow> if b then ok_or_none (to_cents ''True'') else None
     | _ \<Rightarrow> None)"

definition cell_at :: "cell list \<Rightarrow> colmap \<Rightarrow> role \<Rightarrow> cell" where
  "cell_at row m r = (case map_of m r of None \<Rightarrow> Empty_cell | Some j \<Rightarrow> if length row \<le> j then Empty_cell else row ! j)"

text \<open>\<open>int(x)\<close> of a positive float that is not integral: its digits before the point; a negative exponent is below 1.\<close>

definition cell_points :: "cell \<Rightarrow> int option" where
  "cell_points v = (case v of
       Int_cell n \<Rightarrow> if 0 < n then Some n else None
     | Bool_cell b \<Rightarrow> if b then Some 1 else None
     | Float_cell s \<Rightarrow> if not_positive s \<or> s = ''nan'' then None
         else if CHR ''e'' \<in> set s then Some 0 else Some (int (digits_val (takeWhile is_dig s)))
     | _ \<Rightarrow> None)"

definition falsy :: "cell \<Rightarrow> bool" where
  "falsy v \<longleftrightarrow> v = Empty_cell \<or> v = Bool_cell False \<or> v = Int_cell 0 \<or> v = Text_cell []"

definition cell_name :: "cell \<Rightarrow> string option" where
  "cell_name v = (if falsy v \<or> strip (cell_str v) = [] then None else Some (take 200 (strip (cell_str v))))"

section \<open>Workbooks\<close>

definition price_row :: "colmap \<Rightarrow> cell list \<Rightarrow> (string \<times> price_values) list \<Rightarrow> (string \<times> price_values) list" where
  "price_row m row acc =
     (let code = cell_at row m Col_code in
      if \<not> is_code code then acc
      else case cell_cents (cell_at row m Col_consumer) of
          None \<Rightarrow> acc
        | Some consumer \<Rightarrow> dict_set (strip (cell_str code))
            (cell_name (cell_at row m Col_name), Some consumer, cell_cents (cell_at row m Col_consultant),
             cell_points (cell_at row m Col_points)) acc)"

definition price_sheet :: "header_words \<Rightarrow> cell list list \<Rightarrow> (string \<times> price_values) list \<Rightarrow> (string \<times> price_values) list" where
  "price_sheet hw rows acc = (case find_header hw [Col_code, Col_consumer] rows of
       None \<Rightarrow> acc
     | Some (start, m) \<Rightarrow> fold (price_row m) (drop (start + 1) rows) acc)"

definition collect_prices_from_sheets :: "header_words \<Rightarrow> cell list list list \<Rightarrow> (string \<times> price_values) list" where
  "collect_prices_from_sheets hw sheets = fold (price_sheet hw) sheets []"

text \<open>\<open>re.findall(r"\d+", stem)\<close>\<close>

function digit_runs :: "string \<Rightarrow> string list" where
  "digit_runs s = (let t = dropWhile (\<lambda>c. \<not> is_dig c) s
     in if t = [] then [] else takeWhile is_dig t # digit_runs (dropWhile is_dig t))"
  by auto
termination
proof (relation "measure length")
  fix s t :: string
  assume t: "t = dropWhile (\<lambda>c. \<not> is_dig c) s" "t \<noteq> []"
  then have "is_dig (hd t)" using hd_dropWhile[of "\<lambda>c. \<not> is_dig c" s] by simp
  then have "length (dropWhile is_dig t) < length t"
    using t(2) length_dropWhile_le[of is_dig "tl t"] by (cases t) auto
  also have "\<dots> \<le> length s" using t(1) by (simp add: length_dropWhile_le)
  finally show "(dropWhile is_dig t, s) \<in> measure length" by simp
qed simp

declare digit_runs.simps [simp del]

text \<open>\<open>re.sub(r"\.xlsx?$", "", filename, flags=re.IGNORECASE)\<close>, which takes away no digit.\<close>

definition ends_ci :: "string \<Rightarrow> string \<Rightarrow> bool" where
  "ends_ci suf s \<longleftrightarrow> length suf \<le> length s \<and> lower (drop (length s - length suf) s) = suf"

definition drop_extension :: "string \<Rightarrow> string" where
  "drop_extension s = (if ends_ci ''.xlsx'' s then take (length s - 5) s else if ends_ci ''.xls'' s then take (length s - 4) s else s)"

text \<open>MM-YYYY, YYYY-MM and YY-MM: a year has four digits or exceeds 17, the largest number of an issue.\<close>

definition issue_of :: "string list \<Rightarrow> (int \<times> int) option" where
  "issue_of nums = (case nums of
       s # t # ts \<Rightarrow>
         (let a = int (digits_val s); b = int (digits_val t)
          in if length s = 4 then Some (a, b)
             else if length t = 4 then Some (b, a)
             else if 17 < a then Some (2000 + a, b)
             else if 17 < b then Some (2000 + b, a)
             else None)
     | _ \<Rightarrow> None)"

definition parse_catalog :: "string \<Rightarrow> (int \<times> int) option" where
  "parse_catalog filename = issue_of (digit_runs (drop_extension filename))"

section \<open>The archive\<close>

text \<open>A directory entry: its name and whether it is a file.\<close>

definition path_suffix :: "string \<Rightarrow> string" where
  "path_suffix name = (let r = takeWhile (\<lambda>c. c \<noteq> CHR ''.'') (rev name)
     in if length r + 1 < length name \<and> r \<noteq> [] then CHR ''.'' # rev r else [])"

definition price_list_files :: "(string \<times> bool) list \<Rightarrow> string list" where
  "price_list_files folder = sort (map fst (filter (\<lambda>(name, is_file). is_file
     \<and> lower (path_suffix name) \<in> {''.xls'', ''.xlsx''} \<and> take 2 name \<noteq> ''~$'') folder))"

record archive_report =
  ar_unparsable_name :: "string list"
  ar_unreadable :: "(string \<times> string) list"
  ar_no_price_column :: "string list"

type_synonym workbook = "string + cell list list list"

definition archive_step ::
  "header_words \<Rightarrow> string \<times> workbook \<Rightarrow> (price_key \<times> price_values) list \<times> archive_report \<Rightarrow> (price_key \<times> price_values) list \<times> archive_report" where
  "archive_step hw file st = (case (file, st) of ((name, book), (acc, rep)) \<Rightarrow>
     (case parse_catalog name of
        None \<Rightarrow> (acc, rep\<lparr>ar_unparsable_name := ar_unparsable_name rep @ [name]\<rparr>)
      | Some (year, number) \<Rightarrow>
          (case book of
             Inl exc \<Rightarrow> (acc, rep\<lparr>ar_unreadable := ar_unreadable rep @ [(name, exc)]\<rparr>)
           | Inr sheets \<Rightarrow>
               (case collect_prices_from_sheets hw sheets of
                  [] \<Rightarrow> (acc, rep\<lparr>ar_no_price_column := ar_no_price_column rep @ [name]\<rparr>)
                | priced \<Rightarrow> (fold (\<lambda>(c, v). dict_set (year, number, c) v) priced acc, rep)))))"

definition collect_from_archive :: "header_words \<Rightarrow> (string \<times> workbook) list \<Rightarrow> (price_key \<times> price_values) list \<times> archive_report" where
  "collect_from_archive hw files =
     fold (archive_step hw) files ([], \<lparr>ar_unparsable_name = [], ar_unreadable = [], ar_no_price_column = []\<rparr>)"

definition archive_record :: "price_key \<times> price_values \<Rightarrow> price_record" where
  "archive_record kv = (case kv of ((year, number, code), (n, c, k, p)) \<Rightarrow>
     \<lparr>pr_code = code, pr_year = year, pr_number = number, pr_name = n, pr_consumer_cents = c, pr_consultant_cents = k, pr_points = p\<rparr>)"

definition run_archive :: "env \<Rightarrow> header_words \<Rightarrow> (string \<times> workbook) list \<Rightarrow> world \<Rightarrow> (price_exit + upsert_stats) \<times> world" where
  "run_archive e hw files w =
     (let collected = fst (collect_from_archive hw files)
      in if collected = [] then (Inl Nothing_collected, w)
         else commit_or_fail (upsert_price_rows e (map archive_record collected) w))"

section \<open>The command line\<close>

record price_args =
  pa_export :: "string option"
  pa_from_export :: "string option"
  pa_only_missing :: bool
  pa_restore_shades :: bool
  pa_apply :: bool

datatype price_mode = Restore_shades bool | Export_to string | Load_from string bool | Walk_archive

datatype usage = Export_and_load | Missing_without_load | Shades_with_database | Apply_without_shades

text \<open>An empty \<open>FILE\<close> is falsy.\<close>

definition given :: "string option \<Rightarrow> bool" where
  "given s \<longleftrightarrow> or_empty s \<noteq> []"

definition price_mode_of :: "price_args \<Rightarrow> usage + price_mode" where
  "price_mode_of a =
     (if given (pa_export a) \<and> given (pa_from_export a) then Inl Export_and_load
      else if pa_only_missing a \<and> \<not> given (pa_from_export a) then Inl Missing_without_load
      else if pa_restore_shades a \<and> (given (pa_export a) \<or> given (pa_from_export a)) then Inl Shades_with_database
      else if pa_apply a \<and> \<not> pa_restore_shades a then Inl Apply_without_shades
      else if pa_restore_shades a then Inr (Restore_shades (pa_apply a))
      else if given (pa_export a) then Inr (Export_to (or_empty (pa_export a)))
      else if given (pa_from_export a) then Inr (Load_from (or_empty (pa_from_export a)) (pa_only_missing a))
      else Inr Walk_archive)"

section \<open>What the archive yields\<close>

text \<open>The text of a float, an int within the limit.\<close>

definition cell_fits :: "cell \<Rightarrow> bool" where
  "cell_fits v \<longleftrightarrow> (case v of Int_cell n \<Rightarrow> int_ok n
     | Float_cell s \<Rightarrow> length s \<le> 4300 \<and> list_all (\<lambda>c. is_dig c \<or> c \<in> set ''.e-+nainf'') s
     | _ \<Rightarrow> True)"

definition file_fits :: "string \<times> workbook \<Rightarrow> bool" where
  "file_fits file \<longleftrightarrow> length (fst file) \<le> 255
     \<and> (case snd file of Inl x \<Rightarrow> True | Inr sheets \<Rightarrow> list_all (list_all (list_all cell_fits)) sheets)"

lemma le_limit: "m \<le> 4300 \<Longrightarrow> n < 10 ^ m \<Longrightarrow> n < DIGIT_LIMIT"
proof -
  assume "m \<le> 4300" "n < 10 ^ m"
  moreover have "(10 :: nat) ^ m \<le> 10 ^ 4300" if "m \<le> 4300" by (rule power_increasing[OF that]) simp
  ultimately show ?thesis unfolding DIGIT_LIMIT_def by (rule_tac less_le_trans)
qed

lemma cents_ok:
  assumes "to_cents v = Inr c" "list_all (\<lambda>c. is_dig c \<or> c \<in> set ''.e-+nainf'') v" "v = [] \<or> hd v \<noteq> CHR ''-''"
  shows "0 \<le> c \<and> int_ok c"
proof -
  let ?u = "map (\<lambda>c. if c = CHR '','' then CHR ''.'' else c) (strip v)"
  have chars: "is_dig c \<or> c \<in> set ''.e-+nainf'' \<Longrightarrow> \<not> is_space c \<and> c \<noteq> CHR '','' \<and> c \<noteq> CHR ''_''" for c
  proof (elim disjE)
    assume "is_dig c"
    then show ?thesis by (auto simp: is_dig_def is_space_def ord_of_def)
  next
    assume "c \<in> set ''.e-+nainf''"
    moreover have "list_all (\<lambda>c. \<not> is_space c \<and> c \<noteq> CHR '','' \<and> c \<noteq> CHR ''_'') ''.e-+nainf''" by code_simp
    ultimately show ?thesis unfolding list_all_iff by blast
  qed
  then have v: "list_all (\<lambda>c. \<not> is_space c \<and> c \<noteq> CHR '','' \<and> c \<noteq> CHR ''_'') v"
    using assms(2) by (auto simp: list_all_iff)
  then have chs: "\<not> is_space c \<and> c \<noteq> CHR '','' \<and> c \<noteq> CHR ''_''" if "c \<in> set v" for c using that unfolding list_all_iff by blast
  have "strip v = v" by (rule strip_noop) (use chs in \<open>simp add: list_all_iff\<close>)
  then have u: "?u = v" "filter (\<lambda>c. c \<noteq> CHR ''_'') v = v"
    using chs by (auto simp: filter_id_conv intro!: map_idI)
  obtain neg d x where p: "parse_decimal v = Some (neg, d, x)" and m: "cents_magnitude d x < 10 ^ 28"
    and c: "c = (if neg then - int (cents_magnitude d x) else int (cents_magnitude d x))"
    using assms(1) unfolding to_cents_def u(1) by (auto simp: Let_def split: option.splits if_splits)
  have "fst (dec_sign v) = False" using assms(3) by (cases v) (auto simp: dec_sign_def)
  then have "\<not> neg" using p by (auto simp: parse_decimal_def u(2) Let_def split_beta split: if_splits option.splits)
  moreover have "cents_magnitude d x < DIGIT_LIMIT" by (rule le_limit[OF _ m]) simp
  ultimately show ?thesis by (simp add: c int_ok_def)
qed

lemma show_nat_chars: "list_all (\<lambda>c. is_dig c \<or> P c) (show_nat n)"
  using show_nat_digs[of n] by (auto simp: list_all_iff)

lemma show_nat_no_sign: "hd (show_nat n) \<noteq> CHR ''-''"
proof -
  have "\<not> is_dig (CHR ''-'')" by code_simp
  then show ?thesis using hd_show_nat[of n] by metis
qed

lemma cell_cents_ok: "cell_fits v \<Longrightarrow> amount_ok (cell_cents v)"
proof (cases v)
  case (Int_cell n)
  then show ?thesis
    using cents_ok[of "show_nat (nat n)"] show_nat_chars[of _ "nat n"] show_nat_no_sign[of "nat n"]
    by (auto simp: cell_cents_def amount_ok_def ok_or_none_def show_int_def split: sum.splits)
next
  case (Bool_cell b)
  have "to_cents ''True'' = Inl ValueError" by code_simp
  with Bool_cell show ?thesis by (simp add: cell_cents_def amount_ok_def ok_or_none_def)
next
  case (Float_cell s)
  assume "cell_fits v"
  then show ?thesis
    using Float_cell cents_ok[of s]
    by (auto simp: cell_cents_def amount_ok_def ok_or_none_def cell_fits_def not_positive_def split: sum.splits)
qed (simp_all add: cell_cents_def amount_ok_def)

lemma one_int_ok: "int_ok 0" "int_ok 1"
  using le_limit[of 1 1] le_limit[of 1 0] by (simp_all add: int_ok_def)

lemma cell_points_ok: "cell_fits v \<Longrightarrow> amount_ok (cell_points v)"
proof (cases v)
  case (Float_cell s)
  assume "cell_fits v"
  then have s: "length s \<le> 4300" using Float_cell by (simp add: cell_fits_def)
  have "digits_val (takeWhile is_dig s) < DIGIT_LIMIT"
    by (rule digits_int_ok) (use s length_takeWhile_le[of is_dig s] in \<open>auto simp: list_all_iff dest: set_takeWhileD\<close>)
  then show ?thesis using Float_cell one_int_ok by (simp add: cell_points_def amount_ok_def int_ok_def)
qed (use one_int_ok in \<open>auto simp: cell_points_def amount_ok_def cell_fits_def\<close>)

definition rows_fit :: "(string \<times> price_values) list \<Rightarrow> bool" where
  "rows_fit acc \<longleftrightarrow> list_all (\<lambda>cv. values_ok (snd cv)) acc"

lemma rows_fit_set: "rows_fit acc \<Longrightarrow> values_ok v \<Longrightarrow> rows_fit (dict_set c v acc)"
  using dict_set_members[of c v acc] by (auto simp: rows_fit_def list_all_iff)

lemma price_row_ok:
  assumes "list_all cell_fits row" "rows_fit acc"
  shows "rows_fit (price_row m row acc)"
proof -
  have cells: "cell_fits (cell_at row m r)" for r
    using assms(1) by (auto simp: cell_at_def cell_fits_def list_all_length split: option.split)
  have name: "case cell_name v of None \<Rightarrow> True | Some s \<Rightarrow> length s \<le> MAX_NAME" for v
    by (simp add: cell_name_def MAX_NAME_def)
  have v: "values_ok (cell_name (cell_at row m Col_name), Some consumer, cell_cents (cell_at row m Col_consultant), cell_points (cell_at row m Col_points))"
    if "cell_cents (cell_at row m Col_consumer) = Some consumer" for consumer
    using cell_cents_ok[OF cells, of Col_consumer] that cell_cents_ok[OF cells] cell_points_ok[OF cells] name
    by (simp add: values_ok_def)
  show ?thesis
    using assms(2) rows_fit_set[OF assms(2) v] by (auto simp: price_row_def Let_def split: option.split)
qed

lemma price_sheet_ok:
  assumes "list_all (list_all cell_fits) rows" "rows_fit acc"
  shows "rows_fit (price_sheet hw rows acc)"
proof -
  have fold_rows: "list_all (list_all cell_fits) xs \<Longrightarrow> rows_fit acc \<Longrightarrow> rows_fit (fold (price_row m) xs acc)" for m xs acc
    by (induction xs arbitrary: acc) (simp_all add: price_row_ok)
  have "list_all (list_all cell_fits) (drop n rows)" for n
    using assms(1) by (auto simp: list_all_iff dest: in_set_dropD)
  then show ?thesis using fold_rows assms(2) by (simp add: price_sheet_def split: option.split)
qed

lemma price_rows_ok:
  assumes "list_all (list_all (list_all cell_fits)) sheets"
  shows "rows_fit (collect_prices_from_sheets hw sheets)"
proof -
  have "list_all (list_all (list_all cell_fits)) sheets \<Longrightarrow> rows_fit acc \<Longrightarrow> rows_fit (fold (price_sheet hw) sheets acc)" for acc
    by (induction sheets arbitrary: acc) (simp_all add: price_sheet_ok)
  then show ?thesis using assms by (simp add: collect_prices_from_sheets_def rows_fit_def)
qed

text \<open>The digits of an issue code.\<close>

lemma digit_runs_parts: "r \<in> set (digit_runs s) \<Longrightarrow> list_all is_dig r \<and> length r \<le> length s"
proof (induction s rule: digit_runs.induct)
  case (1 s)
  let ?t = "dropWhile (\<lambda>c. \<not> is_dig c) s"
  have len: "length ?t \<le> length s" "length (takeWhile is_dig ?t) \<le> length ?t" "length (dropWhile is_dig ?t) \<le> length ?t"
    by (simp_all add: length_dropWhile_le length_takeWhile_le)
  have "r = takeWhile is_dig ?t \<or> r \<in> set (digit_runs (dropWhile is_dig ?t)) \<and> ?t \<noteq> []"
    using 1(2) by (subst (asm) digit_runs.simps) (auto simp: Let_def split: if_splits)
  then show ?case
  proof
    assume "r = takeWhile is_dig ?t"
    then show ?case using len by (auto simp: list_all_iff dest: set_takeWhileD)
  next
    assume "r \<in> set (digit_runs (dropWhile is_dig ?t)) \<and> ?t \<noteq> []"
    then show ?case using 1(1)[OF refl] len by auto
  qed
qed

lemma small_int_ok: "list_all is_dig r \<Longrightarrow> length r \<le> 255 \<Longrightarrow> int_ok (int (digits_val r)) \<and> int_ok (2000 + int (digits_val r))"
proof -
  assume r: "list_all is_dig r" "length r \<le> 255"
  have "digits_val r < 10 ^ length r" using r(1) by (rule digits_val_less)
  also have "\<dots> \<le> (10 :: nat) ^ 255" by (rule power_increasing[OF r(2)]) simp
  finally have b: "digits_val r < 10 ^ 255" .
  then have "2000 + digits_val r < 10 ^ 256" by simp
  then have "2000 + digits_val r < DIGIT_LIMIT" by (rule le_limit[rotated]) simp
  then show ?thesis by (simp add: int_ok_def nat_add_distrib)
qed

lemma issue_ok:
  assumes "issue_of (digit_runs s) = Some (y, n)" "list_all (\<lambda>r. length r \<le> 255) (digit_runs s)"
  shows "int_ok y \<and> int_ok n"
proof -
  obtain a b ts where d: "digit_runs s = a # b # ts"
    using assms(1) by (auto simp: issue_of_def split: list.splits)
  have "list_all is_dig r \<and> length r \<le> 255" if "r \<in> {a, b}" for r
    using digit_runs_parts[of r s] that assms(2) d by auto
  then have "int_ok (int (digits_val r)) \<and> int_ok (2000 + int (digits_val r))" if "r \<in> {a, b}" for r
    using small_int_ok that by blast
  then show ?thesis using assms(1) d by (auto simp: issue_of_def Let_def split: if_splits)
qed

lemma short_runs: "length s \<le> 255 \<Longrightarrow> list_all (\<lambda>r. length r \<le> 255) (digit_runs s)"
  using digit_runs_parts by (fastforce simp: list_all_iff)

definition keyed_fit :: "(price_key \<times> price_values) list \<Rightarrow> bool" where
  "keyed_fit acc \<longleftrightarrow> list_all (\<lambda>kv. int_ok (fst (fst kv)) \<and> int_ok (fst (snd (fst kv))) \<and> values_ok (snd kv)) acc"

lemma keyed_fit_set: "keyed_fit acc \<Longrightarrow> int_ok y \<Longrightarrow> int_ok n \<Longrightarrow> values_ok v \<Longrightarrow> keyed_fit (dict_set (y, n, c) v acc)"
  using dict_set_members[of "(y, n, c)" v acc] by (auto simp: keyed_fit_def list_all_iff)

lemma keyed_fit_fold:
  "rows_fit priced \<Longrightarrow> keyed_fit acc \<Longrightarrow> int_ok y \<Longrightarrow> int_ok n \<Longrightarrow> keyed_fit (fold (\<lambda>(c, v). dict_set (y, n, c) v) priced acc)"
  by (induction priced arbitrary: acc) (auto simp: rows_fit_def keyed_fit_set)

lemma archive_step_ok:
  assumes "file_fits fl" "keyed_fit (fst st)"
  shows "keyed_fit (fst (archive_step hw fl st))"
proof -
  obtain name book where f: "fl = (name, book)" by (cases fl)
  obtain acc rep where st: "st = (acc, rep)" by (cases st)
  show ?thesis
  proof (cases "parse_catalog name")
    case None
    then show ?thesis using assms(2) f st by (simp add: archive_step_def)
  next
    case (Some yn)
    obtain y n where yn: "yn = (y, n)" by (cases yn)
    have "length (drop_extension name) \<le> 255" using assms(1) f by (auto simp: drop_extension_def file_fits_def)
    then have "int_ok y \<and> int_ok n" using issue_ok[OF _ short_runs] Some yn unfolding parse_catalog_def by blast
    moreover have "rows_fit (collect_prices_from_sheets hw sheets)" if "book = Inr sheets" for sheets
      using assms(1) f that by (intro price_rows_ok) (simp add: file_fits_def)
    moreover have "fst (archive_step hw fl st) = (case book of Inl x \<Rightarrow> acc
        | Inr sheets \<Rightarrow> fold (\<lambda>(c, v). dict_set (y, n, c) v) (collect_prices_from_sheets hw sheets) acc)"
      using Some yn f st by (simp add: archive_step_def split: sum.split list.split)
    ultimately show ?thesis
      using assms(2) st keyed_fit_fold by (simp split: sum.split)
  qed
qed

lemma archive_records_ok:
  assumes "list_all file_fits files"
  shows "list_all price_ok (map archive_record (fst (collect_from_archive hw files)))"
proof -
  have "list_all file_fits files \<Longrightarrow> keyed_fit (fst st) \<Longrightarrow> keyed_fit (fst (fold (archive_step hw) files st))" for st
    by (induction files arbitrary: st) (simp_all add: archive_step_ok)
  then have "keyed_fit (fst (collect_from_archive hw files))"
    using assms by (simp add: collect_from_archive_def keyed_fit_def)
  then show ?thesis
    by (auto simp: list_all_iff archive_record_def price_ok_values price_values_def keyed_fit_def split: prod.splits)
qed

end
