(* ===== verification/MasterList.thy ===== *)
theory MasterList
  imports PriceArchive DictEntries
begin

text \<open>
  \<open>src/scripts/import_master_pricelist.py\<close>: one sheet with the latest price of every code replaces the
  dictionary and joins the price history through the writer of \<open>PriceImport\<close>. The header words, the
  name of the sheet and the rubric tables are parameters (they are Cyrillic); the two snapshots taken
  before the replacement are files and left out. The theorems: a replacement that is committed leaves
  one row per code and never fewer rows unless it is forced, and no mixture of the importers, accepted
  or refused, makes a stored price poorer or invalid.
\<close>

section \<open>The sheet\<close>

record master_words =
  mw_sheet :: string
  mw_code :: string
  mw_name :: string
  mw_consultant :: string
  mw_consumer :: string
  mw_last :: string

definition expected_headers :: "master_words \<Rightarrow> string list" where
  "expected_headers mw = [mw_code mw, mw_name mw, mw_consultant mw, mw_consumer mw, mw_last mw]"

record master_row =
  mr_name :: "string option"
  mr_year :: int
  mr_number :: int
  mr_consumer :: "int option"
  mr_consultant :: "int option"

record master_stats =
  ms_total :: nat
  ms_missing_code :: nat
  ms_bad_catalog :: nat

datatype master_exit =
    Sheet_not_found "string list" | Empty_sheet | Columns_missing "string list" | Force_with_only_missing
  | No_rows master_stats | Refused_empty | Refused_shrink nat nat | Import_failed exn

text \<open>\<open>re.findall\<close> on \<open>str(value).strip()\<close>; an empty cell reads \<open>None\<close> and has no digits.\<close>

definition parse_last_catalog :: "cell \<Rightarrow> (int \<times> int) option" where
  "parse_last_catalog v = issue_of (digit_runs (strip (cell_str v)))"

definition header_map :: "master_words \<Rightarrow> cell list \<Rightarrow> (string \<times> nat) list" where
  "header_map mw row = fold (\<lambda>(j, v) m.
     let name = (if v = Empty_cell then [] else strip (cell_str v))
     in if name \<in> set (expected_headers mw) \<and> map_of m name = None then dict_set name j m else m) (enumerate 0 row) []"

definition column :: "cell list \<Rightarrow> (string \<times> nat) list \<Rightarrow> string \<Rightarrow> cell" where
  "column row m h = (case map_of m h of None \<Rightarrow> Empty_cell | Some j \<Rightarrow> if j < length row then row ! j else Empty_cell)"

definition master_name :: "cell \<Rightarrow> string option" where
  "master_name v = (if v \<noteq> Empty_cell \<and> strip (cell_str v) \<noteq> [] then Some (take 200 (strip (cell_str v))) else None)"

definition master_step ::
  "master_words \<Rightarrow> (string \<times> nat) list \<Rightarrow> cell list \<Rightarrow> (string \<times> master_row) list \<times> master_stats \<Rightarrow> (string \<times> master_row) list \<times> master_stats" where
  "master_step mw m row st = (case st of (acc, s0) \<Rightarrow>
     (let s = s0\<lparr>ms_total := ms_total s0 + 1\<rparr>; code_cell = column row m (mw_code mw)
      in if code_cell = Empty_cell \<or> strip (cell_str code_cell) = [] then (acc, s\<lparr>ms_missing_code := ms_missing_code s + 1\<rparr>)
         else case parse_last_catalog (column row m (mw_last mw)) of
             None \<Rightarrow> (acc, s\<lparr>ms_bad_catalog := ms_bad_catalog s + 1\<rparr>)
           | Some (year, number) \<Rightarrow> (dict_set (strip (cell_str code_cell))
               \<lparr>mr_name = master_name (column row m (mw_name mw)), mr_year = year, mr_number = number,
                mr_consumer = cell_cents (column row m (mw_consumer mw)), mr_consultant = cell_cents (column row m (mw_consultant mw))\<rparr>
               acc, s)))"

text \<open>A workbook with its sheets by name.\<close>

definition collect_price_rows ::
  "master_words \<Rightarrow> (string \<times> cell list list) list \<Rightarrow> master_exit + (string \<times> master_row) list \<times> master_stats" where
  "collect_price_rows mw wb =
     (case map_of wb (mw_sheet mw) of
        None \<Rightarrow> Inl (Sheet_not_found (map fst wb))
      | Some [] \<Rightarrow> Inl Empty_sheet
      | Some (header # rows) \<Rightarrow>
          (let m = header_map mw header; missing = filter (\<lambda>h. map_of m h = None) (expected_headers mw)
           in if missing \<noteq> [] then Inl (Columns_missing missing)
              else Inr (fold (master_step mw m) rows ([], \<lparr>ms_total = 0, ms_missing_code = 0, ms_bad_catalog = 0\<rparr>))))"

section \<open>The rows of the dictionary\<close>

record naming =
  nm_overrides :: "(string \<times> rubric_override) list"
  nm_rubrics :: "string list"
  nm_by_name :: "string \<Rightarrow> string"

definition override_only_rows :: "naming \<Rightarrow> string list \<Rightarrow> (string \<times> rubric_override) list" where
  "override_only_rows nm codes = filter (\<lambda>(c, ov). c \<notin> set codes) (nm_overrides nm)"

text \<open>\<open>id\<close> and \<open>created_at\<close> are the defaults of the columns.\<close>

definition dictionary_row :: "env \<Rightarrow> naming \<Rightarrow> string \<Rightarrow> string \<Rightarrow> string \<Rightarrow> string list \<Rightarrow> world \<Rightarrow> dict_entry \<times> world" where
  "dictionary_row e nm code name0 rubric_name catalogs w =
     (let name = take 200 (resolve_name (map_of (nm_overrides nm)) code name0);
          (i, w1) = new_id e w; (now, w2) = utcnow_iso e w1
      in (\<lparr>d_id = i, d_code = code, d_name = name, d_name_lc = Some (lower name),
            d_rubric = Some (resolve_rubric (map_of (nm_overrides nm)) (nm_rubrics nm) (nm_by_name nm) code rubric_name),
            d_catalogs = Some catalogs, d_created_at = now\<rparr>, w2))"

definition priceless_row :: "env \<Rightarrow> naming \<Rightarrow> string \<Rightarrow> world \<Rightarrow> dict_entry \<times> world" where
  "priceless_row e nm code w =
     dictionary_row e nm code code (take 200 (resolve_name (map_of (nm_overrides nm)) code code)) [] w"

definition priced_row :: "env \<Rightarrow> naming \<Rightarrow> string \<times> master_row \<Rightarrow> world \<Rightarrow> dict_entry \<times> world" where
  "priced_row e nm kv w = (case kv of (code, r) \<Rightarrow>
     (let known = (case mr_name r of None \<Rightarrow> code | Some n \<Rightarrow> n)
      in dictionary_row e nm code known known [to_json_code (nat (mr_year r), nat (mr_number r))] w))"

fun rows_with :: "('a \<Rightarrow> world \<Rightarrow> dict_entry \<times> world) \<Rightarrow> 'a list \<Rightarrow> world \<Rightarrow> dict_entry list \<times> world" where
  "rows_with f [] w = ([], w)"
| "rows_with f (x # xs) w = (let (row, w1) = f x w; (rows, w2) = rows_with f xs w1 in (row # rows, w2))"

definition build_dictionary_rows :: "env \<Rightarrow> naming \<Rightarrow> (string \<times> master_row) list \<Rightarrow> world \<Rightarrow> dict_entry list \<times> world" where
  "build_dictionary_rows e nm collected w =
     (let (priced, w1) = rows_with (priced_row e nm) collected w;
          (extra, w2) = rows_with (priceless_row e nm) (sort (map fst (override_only_rows nm (map fst collected)))) w1
      in (priced @ extra, w2))"

definition build_catalog_price_records :: "(string \<times> master_row) list \<Rightarrow> price_record list" where
  "build_catalog_price_records collected = map (\<lambda>(code, r).
     \<lparr>pr_code = code, pr_year = mr_year r, pr_number = mr_number r, pr_name = mr_name r, pr_consumer_cents = mr_consumer r,
      pr_consultant_cents = mr_consultant r, pr_points = None\<rparr>) collected"

section \<open>The import\<close>

text \<open>\<open>query(Dictionary).delete()\<close> and the bulk insert that follows; code and id are unique.\<close>

definition replace_dictionary :: "dict_entry list \<Rightarrow> world \<Rightarrow> world" where
  "replace_dictionary rows w =
     stage (\<lambda>d. d\<lparr>dictionary := rows\<rparr>) (\<not> (distinct (map d_code rows) \<and> distinct (map d_id rows))) w"

definition apply_master_import ::
  "env \<Rightarrow> naming \<Rightarrow> (string \<times> master_row) list \<Rightarrow> bool \<Rightarrow> world \<Rightarrow> (master_exit + upsert_stats) \<times> world" where
  "apply_master_import e nm collected force w =
     (if collected = [] then (Inl Refused_empty, w)
      else let (rows, w1) = build_dictionary_rows e nm collected w; before = length (dictionary (cur w))
      in if length rows < before \<and> \<not> force then (Inl (Refused_shrink before (length rows)), w1)
         else let w2 = replace_dictionary rows w1
         in case flush w2 of
              Some x \<Rightarrow> (Inl (Import_failed x), w2)
            | None \<Rightarrow> (case upsert_price_rows e (build_catalog_price_records collected) w2 of
                (Inl x, w3) \<Rightarrow> (Inl (Import_failed x), w3) | (Inr st, w3) \<Rightarrow> (Inr st, w3)))"

text \<open>The codes of \<open>extra\<close> that are not there yet, in order.\<close>

definition insert_missing_dictionary_rows :: "env \<Rightarrow> naming \<Rightarrow> string list \<Rightarrow> world \<Rightarrow> string list \<times> world" where
  "insert_missing_dictionary_rows e nm extra w =
     (let missing = filter (\<lambda>c. c \<notin> set (map d_code (dictionary (cur w)))) (sort extra);
          (rows, w1) = rows_with (priceless_row e nm) missing w
      in (missing, stage (\<lambda>d. d\<lparr>dictionary := dictionary d @ rows\<rparr>)
            (\<not> (distinct (map d_code (dictionary (cur w) @ rows)) \<and> distinct (map d_id (dictionary (cur w) @ rows)))) w1))"

datatype master_done = Backfilled "string list" | Replaced upsert_stats

definition commit_master :: "master_done \<Rightarrow> world \<Rightarrow> (master_exit + master_done) \<times> world" where
  "commit_master r w = (case commit w of (None, w1) \<Rightarrow> (Inr r, w1) | (Some x, w1) \<Rightarrow> (Inl (Import_failed x), rollback w1))"

definition run_master ::
  "env \<Rightarrow> master_words \<Rightarrow> naming \<Rightarrow> (string \<times> cell list list) list \<Rightarrow> bool \<Rightarrow> bool \<Rightarrow> world \<Rightarrow> (master_exit + master_done) \<times> world" where
  "run_master e mw nm wb only_missing force w =
     (if force \<and> only_missing then (Inl Force_with_only_missing, w)
      else case collect_price_rows mw wb of
          Inl x \<Rightarrow> (Inl x, w)
        | Inr (collected, stats) \<Rightarrow>
            if collected = [] then (Inl (No_rows stats), w)
            else if only_missing then
              (case insert_missing_dictionary_rows e nm (map fst (override_only_rows nm (map fst collected))) w of
                 (inserted, w1) \<Rightarrow> commit_master (Backfilled inserted) w1)
            else (case apply_master_import e nm collected force w of
                 (Inl x, w1) \<Rightarrow> (Inl x, rollback w1) | (Inr st, w1) \<Rightarrow> commit_master (Replaced st) w1))"

section \<open>What a replacement leaves\<close>

lemma dictionary_row_spec:
  assumes "dictionary_row e nm code n0 rn cats w = (row, w1)"
  shows "d_code row = code" "cur w1 = cur w" "saved w1 = saved w" "bad w1 = bad w"
  using assms by (auto simp: dictionary_row_def Let_def new_id_def utcnow_iso_def)

lemma rows_with_spec:
  assumes "\<And>x w row w1. f x w = (row, w1) \<Longrightarrow> d_code row = g x \<and> cur w1 = cur w \<and> saved w1 = saved w \<and> bad w1 = bad w"
  shows "rows_with f xs w = (rows, w1) \<Longrightarrow> map d_code rows = map g xs \<and> cur w1 = cur w \<and> saved w1 = saved w \<and> bad w1 = bad w"
proof (induction xs arbitrary: w rows w1)
  case (Cons x xs)
  obtain row wa where a: "f x w = (row, wa)" by (cases "f x w")
  obtain rs wb where b: "rows_with f xs wa = (rs, wb)" by (cases "rows_with f xs wa")
  show ?case using Cons.IH[OF b] Cons.prems a b assms[OF a] by auto
qed simp

lemma built_rows:
  assumes "build_dictionary_rows e nm collected w = (rows, w1)"
  shows "map d_code rows = map fst collected @ sort (map fst (override_only_rows nm (map fst collected)))
    \<and> cur w1 = cur w \<and> saved w1 = saved w \<and> bad w1 = bad w"
proof -
  let ?extra = "sort (map fst (override_only_rows nm (map fst collected)))"
  obtain priced wa where a: "rows_with (priced_row e nm) collected w = (priced, wa)" by (cases "rows_with (priced_row e nm) collected w")
  obtain extra wb where b: "rows_with (priceless_row e nm) ?extra wa = (extra, wb)" by (cases "rows_with (priceless_row e nm) ?extra wa")
  have "map d_code priced = map fst collected \<and> cur wa = cur w \<and> saved wa = saved w \<and> bad wa = bad w"
    by (rule rows_with_spec[OF _ a]) (auto simp: priced_row_def Let_def dest: dictionary_row_spec split: prod.splits)
  moreover have "map d_code extra = map (\<lambda>c. c) ?extra \<and> cur wb = cur wa \<and> saved wb = saved wa \<and> bad wb = bad wa"
    by (rule rows_with_spec[OF _ b]) (auto simp: priceless_row_def dest: dictionary_row_spec)
  ultimately show ?thesis using assms a b by (auto simp: build_dictionary_rows_def)
qed

lemma collected_codes:
  assumes "collect_price_rows mw wb = Inr (collected, stats)"
  shows "distinct (map fst collected)"
proof -
  have "distinct (map fst (fst st)) \<Longrightarrow> distinct (map fst (fst (fold (master_step mw m) rows st)))" for m rows st
  proof (induction rows arbitrary: st)
    case (Cons row rows)
    have "distinct (map fst (fst (master_step mw m row st)))"
      using Cons.prems by (cases st) (auto simp: master_step_def Let_def distinct_update split: option.split)
    then show ?case using Cons.IH by simp
  qed simp
  from this[of "([], s)" for s] assms show ?thesis
    by (auto simp: collect_price_rows_def Let_def split: option.splits list.splits if_splits) (metis fst_conv)+
qed

lemma record_keys: "distinct (map fst collected) \<Longrightarrow> distinct (map price_key (build_catalog_price_records collected))"
proof -
  assume d: "distinct (map fst collected)"
  have "map (snd \<circ> snd) (map price_key (build_catalog_price_records collected)) = map fst collected"
    by (auto simp: build_catalog_price_records_def price_key_def)
  with d show ?thesis by (metis distinct_map)
qed

definition points_of :: "price_values \<Rightarrow> int option" where
  "points_of v = snd (snd (snd v))"

lemma no_points: "records_table (build_catalog_price_records collected) k = Some v \<Longrightarrow> points_of v = None"
  by (auto simp: records_table_def build_catalog_price_records_def price_values_def points_of_def dest!: map_of_SomeD)

text \<open>C30: the master list replaces the dictionary and only enriches the prices: a committed replacement leaves exactly the
  codes of the list and of the overrides, one row each and no fewer rows than before unless it was
  forced; every stored price row survives with all it knew, and its bonus points, which the list does
  not carry, are untouched.\<close>

theorem master_replaces:
  assumes "run_master e mw nm wb False force w = (Inr (Replaced st), w1)" "clean w" "price_keys_ok (catalog_prices (saved w))"
    and "collect_price_rows mw wb = Inr (collected, stats)"
  shows "codes_unique (saved w1) \<and> set (map d_code (dictionary (saved w1))) = fst ` set collected \<union> fst ` set (nm_overrides nm)
    \<and> (\<not> force \<longrightarrow> length (dictionary (saved w)) \<le> length (dictionary (saved w1)))
    \<and> (\<forall>k v. price_table (saved w) k = Some v \<longrightarrow>
        (\<exists>v'. price_table (saved w1) k = Some v' \<and> richer v v' \<and> points_of v' = points_of v))"
proof -
  have w: "cur w = saved w" "\<not> bad w" using assms(2) by (simp_all add: clean_def)
  obtain w2 where a: "apply_master_import e nm collected force w = (Inr st, w2)" and c: "commit w2 = (None, w1)"
    using assms(1,4)
    by (auto simp: run_master_def commit_master_def split: prod.splits sum.splits option.splits if_splits)
  obtain rows wa where b: "build_dictionary_rows e nm collected w = (rows, wa)" by (cases "build_dictionary_rows e nm collected w")
  note built = built_rows[OF b]
  let ?wb = "replace_dictionary rows wa"
  from a b have ne: "collected \<noteq> []" and size: "\<not> force \<longrightarrow> length (dictionary (cur w)) \<le> length rows"
    and fl: "flush ?wb = None" and u: "upsert_price_rows e (build_catalog_price_records collected) ?wb = (Inr st, w2)"
    by (auto simp: apply_master_import_def Let_def split: if_splits option.splits prod.splits sum.splits)
  have d: "distinct (map d_code rows)" "distinct (map d_id rows)"
    using fl by (auto simp: flush_def replace_dictionary_def split: if_splits)
  have cb: "cur ?wb = (saved w)\<lparr>dictionary := rows\<rparr>" using built w(1) by (simp add: replace_dictionary_def)
  then have pk: "price_keys_ok (catalog_prices (cur ?wb))" using assms(3) by simp
  note eff = upsert_effect[OF u pk record_keys[OF collected_codes[OF assms(4)]]]
  have s1: "saved w1 = cur w2" using c by (auto simp: commit_def split: if_splits)
  obtain ps where ps: "cur w2 = (cur ?wb)\<lparr>catalog_prices := ps\<rparr>" using eff by blast
  then have dict: "dictionary (saved w1) = rows" using s1 cb by simp
  have "price_table (cur ?wb) = price_table (saved w)" by (simp add: fun_eq_iff price_table_def cb)
  then have t: "price_table (saved w1) = enriched_table (records_table (build_catalog_price_records collected)) (price_table (saved w))"
    using eff s1 by simp
  have "\<exists>v'. price_table (saved w1) k = Some v' \<and> richer v v' \<and> points_of v' = points_of v"
    if k: "price_table (saved w) k = Some v" for k v
  proof (cases "records_table (build_catalog_price_records collected) k")
    case None
    then show ?thesis using k by (simp add: t enriched_table_def)
  next
    case (Some x)
    have "points_of (enriched x v) = points_of v"
      using no_points[OF Some] by (auto simp: points_of_def enriched_def over_def split: prod.splits)
    then show ?thesis using k Some by (simp add: t enriched_table_def)
  qed
  moreover have "set (map d_code rows) = fst ` set collected \<union> fst ` set (nm_overrides nm)"
  proof -
    have "set (map d_code rows) = fst ` set collected \<union> fst ` set (override_only_rows nm (map fst collected))"
      using conjunct1[OF built] by simp
    then show ?thesis by (force simp: override_only_rows_def)
  qed
  ultimately show ?thesis using dict d size w(1) by (simp add: codes_unique_def)
qed

section \<open>Any mixture of the importers\<close>

text \<open>Cells that fit, and no digit run longer than a file name.\<close>

definition wb_fits :: "(string \<times> cell list list) list \<Rightarrow> bool" where
  "wb_fits wb \<longleftrightarrow> list_all (\<lambda>(name, rows). list_all (list_all (\<lambda>v. cell_fits v
     \<and> list_all (\<lambda>r. length r \<le> 255) (digit_runs (strip (cell_str v))))) rows) wb"

definition master_fit :: "(string \<times> master_row) list \<Rightarrow> bool" where
  "master_fit acc \<longleftrightarrow> list_all (\<lambda>kv. int_ok (mr_year (snd kv)) \<and> int_ok (mr_number (snd kv))
     \<and> values_ok (mr_name (snd kv), mr_consumer (snd kv), mr_consultant (snd kv), None)) acc"

lemma master_step_ok:
  assumes "list_all (\<lambda>v. cell_fits v \<and> list_all (\<lambda>r. length r \<le> 255) (digit_runs (strip (cell_str v)))) row"
    and "master_fit (fst st)"
  shows "master_fit (fst (master_step mw m row st))"
proof -
  obtain acc s where st: "st = (acc, s)" by (cases st)
  have "digit_runs (strip (cell_str Empty_cell)) = []" by code_simp
  then have cells: "cell_fits (column row m h)" "list_all (\<lambda>r. length r \<le> 255) (digit_runs (strip (cell_str (column row m h))))" for h
    using assms(1) by (auto simp: column_def cell_fits_def list_all_length split: option.split)
  have "int_ok y \<and> int_ok n" if "parse_last_catalog (column row m (mw_last mw)) = Some (y, n)" for y n
    using issue_ok[OF _ cells(2)] that unfolding parse_last_catalog_def by blast
  moreover have "values_ok (master_name v, cell_cents (column row m h1), cell_cents (column row m h2), None)" for v h1 h2
    using cell_cents_ok[OF cells(1)] by (simp add: values_ok_def master_name_def MAX_NAME_def amount_ok_def)
  moreover have "master_fit (dict_set c r acc)"
    if "int_ok (mr_year r)" "int_ok (mr_number r)" "values_ok (mr_name r, mr_consumer r, mr_consultant r, None)" for c r
    using that assms(2) dict_set_members[of c r acc] st by (auto simp: master_fit_def list_all_iff)
  ultimately show ?thesis
    using assms(2) st by (auto simp: master_step_def Let_def split: option.split)
qed

lemma collected_fit:
  assumes "collect_price_rows mw wb = Inr (collected, stats)" "wb_fits wb"
  shows "list_all price_ok (build_catalog_price_records collected)"
proof -
  let ?ok = "\<lambda>v. cell_fits v \<and> list_all (\<lambda>r. length r \<le> 255) (digit_runs (strip (cell_str v)))"
  have steps: "list_all (list_all ?ok) rows \<Longrightarrow> master_fit (fst st) \<Longrightarrow> master_fit (fst (fold (master_step mw m) rows st))" for m rows st
    by (induction rows arbitrary: st) (simp_all add: master_step_ok)
  let ?s = "\<lparr>ms_total = 0, ms_missing_code = 0, ms_bad_catalog = 0\<rparr>"
  obtain header rows where r: "map_of wb (mw_sheet mw) = Some (header # rows)"
    "fold (master_step mw (header_map mw header)) rows ([], ?s) = (collected, stats)"
    using assms(1) by (auto simp: collect_price_rows_def Let_def split: option.splits list.splits if_splits)
  have "list_all (list_all ?ok) rows"
    using assms(2) map_of_SomeD[OF r(1)] by (auto simp: wb_fits_def list_all_iff)
  from steps[OF this, of "([], ?s)" "header_map mw header"] have "master_fit collected"
    unfolding r(2) by (simp add: master_fit_def)
  then show ?thesis
    by (auto simp: master_fit_def build_catalog_price_records_def list_all_iff price_ok_values price_values_def)
qed

text \<open>One database under any sequence of the price commands, accepted or not, each on its own session.\<close>

inductive price_runs :: "db \<Rightarrow> db \<Rightarrow> bool" where
  untouched: "price_runs d d"
| walked: "price_runs d0 (saved w) \<Longrightarrow> clean w \<Longrightarrow> list_all file_fits files
     \<Longrightarrow> price_runs d0 (saved (snd (run_archive e hw files w)))"
| loaded: "price_runs d0 (saved w) \<Longrightarrow> clean w \<Longrightarrow> price_runs d0 (saved (snd (run_from_export e content only_missing w)))"
| mastered: "price_runs d0 (saved w) \<Longrightarrow> clean w \<Longrightarrow> wb_fits wb
     \<Longrightarrow> price_runs d0 (saved (snd (run_master e mw nm wb only_missing force w)))"

definition import_step :: "db \<Rightarrow> db \<Rightarrow> bool" where
  "import_step d d' \<longleftrightarrow> good_prices d' \<and> prices_grow d d'
     \<and> (\<exists>ps rows. d' = d\<lparr>catalog_prices := ps, dictionary := rows\<rparr>)"

lemma import_step_refl: "good_prices d \<Longrightarrow> import_step d d"
  unfolding import_step_def by (intro conjI exI[of _ "catalog_prices d"] exI[of _ "dictionary d"]) simp_all

lemma import_step_trans: "import_step d d' \<Longrightarrow> import_step d' d'' \<Longrightarrow> import_step d d''"
  unfolding import_step_def using prices_grow_trans by fastforce

lemma price_step_import: "price_step d d' \<Longrightarrow> import_step d d'"
  unfolding price_step_def import_step_def
  by (elim conjE exE, intro conjI) (auto intro!: exI[of _ "dictionary d"])

lemma bulk_save_saved: "saved (snd (bulk_save e rs w)) = saved w"
  using build_price_rows_spec(3)[of e rs w] by (cases "build_price_rows e rs w") (simp add: bulk_save_def stage_def Let_def)

lemma bulk_saves_saved: "saved (snd (bulk_saves e cs w)) = saved w"
proof (induction cs arbitrary: w)
  case (Cons c cs)
  then show ?case using bulk_save_saved[of e c w] by (auto split: prod.splits option.splits)
qed simp

lemma upsert_error_saved:
  assumes "upsert_price_rows e rs w = (Inl x, w1)"
  shows "saved w1 = saved w"
proof -
  obtain fresh changed n where s: "sort_out (cur w) rs = (fresh, changed, n)" by (metis prod_cases3)
  obtain y where "bulk_saves e (chunks PRICE_CHUNK fresh) w = (Some y, w1)"
    using assms s by (auto simp: upsert_price_rows_def split: prod.splits option.splits if_splits)
  then show ?thesis using bulk_saves_saved[of e "chunks PRICE_CHUNK fresh" w] by simp
qed

lemma missing_error_saved:
  assumes "insert_missing_price_rows e rs w = (Inl x, w1)"
  shows "saved w1 = saved w"
  using assms bulk_save_saved[of e "filter (\<lambda>r. pr_code r \<notin> set (map cp_code (catalog_prices (cur w)))) rs" w]
  by (auto simp: insert_missing_price_rows_def Let_def split: prod.splits option.splits if_splits)

lemma upsert_commits:
  assumes "clean w" "good_prices (saved w)" "list_all price_ok rs"
  shows "price_step (saved w) (saved (snd (commit_or_fail (upsert_price_rows e rs w))))"
proof (rule commit_or_fail_step[OF assms(1,2)])
  have w: "cur w = saved w" using assms(1) by (simp add: clean_def)
  fix s w1 assume "upsert_price_rows e rs w = (Inr s, w1)"
  from upsert_keeps[OF this _ assms(3)] show "price_step (saved w) (cur w1) \<and> saved w1 = saved w"
    using assms(2) w by (simp add: price_step_def)
qed (rule upsert_error_saved)

lemma missing_commits:
  assumes "clean w" "good_prices (saved w)" "list_all price_ok rs"
  shows "price_step (saved w) (saved (snd (commit_or_fail (insert_missing_price_rows e rs w))))"
proof (rule commit_or_fail_step[OF assms(1,2)])
  have w: "cur w = saved w" using assms(1) by (simp add: clean_def)
  fix s w1 assume "insert_missing_price_rows e rs w = (Inr s, w1)"
  from insert_missing_keeps[OF this _ assms(3)] show "price_step (saved w) (cur w1) \<and> saved w1 = saved w"
    using assms(2) w by (simp add: price_step_def)
qed (rule missing_error_saved)

lemma archive_imports:
  assumes "clean w" "good_prices (saved w)" "list_all file_fits files"
  shows "import_step (saved w) (saved (snd (run_archive e hw files w)))"
  using price_step_import[OF upsert_commits[OF assms(1,2) archive_records_ok[OF assms(3)]]] import_step_refl[OF assms(2)]
  by (simp add: run_archive_def Let_def)

lemma load_imports:
  assumes "clean w" "good_prices (saved w)"
  shows "import_step (saved w) (saved (snd (run_from_export e content only_missing w)))"
proof (cases "load_export content")
  case (Inl x)
  then show ?thesis using import_step_refl[OF assms(2)] by (simp add: run_from_export_def)
next
  case (Inr rs)
  note ok = loaded_records_ok[OF Inr]
  have "saved (snd (run_from_export e content only_missing w))
      = saved (if only_missing then snd (commit_or_fail (insert_missing_price_rows e rs w)) else snd (commit_or_fail (upsert_price_rows e rs w)))"
    using Inr by (simp add: run_from_export_def split: prod.split sum.split)
  then show ?thesis
    using price_step_import[OF upsert_commits[OF assms ok]] price_step_import[OF missing_commits[OF assms ok]] by simp
qed

lemma same_prices_import: "good_prices d \<Longrightarrow> import_step d (d\<lparr>dictionary := rows\<rparr>)"
proof -
  assume "good_prices d"
  moreover have "price_table (d\<lparr>dictionary := rows\<rparr>) = price_table d" by (simp add: fun_eq_iff price_table_def)
  then have "prices_grow d (d\<lparr>dictionary := rows\<rparr>)" using prices_grow_refl[of d] by (simp only: prices_grow_def)
  ultimately show ?thesis
    unfolding import_step_def by (intro conjI exI[of _ "catalog_prices d"] exI[of _ rows]) (simp_all add: good_prices_def)
qed

lemma priceless_rows_world:
  "cur (snd (rows_with (priceless_row e nm) xs w)) = cur w \<and> saved (snd (rows_with (priceless_row e nm) xs w)) = saved w"
proof -
  obtain rows w1 where r: "rows_with (priceless_row e nm) xs w = (rows, w1)" by (cases "rows_with (priceless_row e nm) xs w")
  have "map d_code rows = map (\<lambda>c. c) xs \<and> cur w1 = cur w \<and> saved w1 = saved w \<and> bad w1 = bad w"
    by (rule rows_with_spec[OF _ r]) (auto simp: priceless_row_def dest: dictionary_row_spec)
  with r show ?thesis by simp
qed

lemma apply_master_imports:
  assumes "clean w" "good_prices (saved w)" "list_all price_ok (build_catalog_price_records collected)"
    and "apply_master_import e nm collected force w = (r, w1)"
  shows "saved w1 = saved w \<and> ((\<exists>st. r = Inr st) \<longrightarrow> import_step (saved w) (cur w1))"
proof -
  have w: "cur w = saved w" using assms(1) by (simp add: clean_def)
  obtain rows wa where b: "build_dictionary_rows e nm collected w = (rows, wa)" by (cases "build_dictionary_rows e nm collected w")
  note built = built_rows[OF b]
  let ?wb = "replace_dictionary rows wa" and ?rs = "build_catalog_price_records collected"
  have wb: "cur ?wb = (saved w)\<lparr>dictionary := rows\<rparr>" "saved ?wb = saved w"
    using built w by (simp_all add: replace_dictionary_def)
  note dict = same_prices_import[OF assms(2), of rows]
  then have good: "good_prices (cur ?wb)" unfolding wb by (simp add: import_step_def)
  show ?thesis
  proof (cases "upsert_price_rows e ?rs ?wb")
    case (Pair u w3)
    have "saved w3 = saved w" if "u = Inl x" for x
      using upsert_error_saved[of e ?rs ?wb x w3] Pair that wb(2) by simp
    moreover have "saved w3 = saved w \<and> import_step (saved w) (cur w3)" if "u = Inr st" for st
    proof -
      note k = upsert_keeps[OF Pair[unfolded that] good assms(3)]
      then have "price_step (cur ?wb) (cur w3)" by (simp add: price_step_def)
      from import_step_trans[OF dict, of "cur w3"] price_step_import[OF this] k wb show ?thesis by simp
    qed
    ultimately show ?thesis
      using assms(4) b Pair wb(2) built
      by (auto simp: apply_master_import_def Let_def split: if_splits option.splits sum.splits)
  qed
qed

lemma commit_master_cases: "saved (snd (commit_master r w)) = saved w \<or> saved (snd (commit_master r w)) = cur w"
  by (auto simp: commit_master_def commit_def)

lemma master_imports:
  assumes "clean w" "good_prices (saved w)" "wb_fits wb"
  shows "import_step (saved w) (saved (snd (run_master e mw nm wb only_missing force w)))"
proof (cases "collect_price_rows mw wb")
  case (Inl x)
  then show ?thesis using import_step_refl[OF assms(2)] by (simp add: run_master_def)
next
  case (Inr cs)
  obtain collected stats where cs: "cs = (collected, stats)" by (cases cs)
  note fit = collected_fit[OF Inr[unfolded cs] assms(3)] and stay = import_step_refl[OF assms(2)]
  have w: "cur w = saved w" using assms(1) by (simp add: clean_def)
  obtain ins wi where i: "insert_missing_dictionary_rows e nm (map fst (override_only_rows nm (map fst collected))) w = (ins, wi)"
    by (cases "insert_missing_dictionary_rows e nm (map fst (override_only_rows nm (map fst collected))) w")
  then have "\<exists>rows. cur wi = (saved w)\<lparr>dictionary := rows\<rparr>" "saved wi = saved w"
    using priceless_rows_world w by (auto simp: insert_missing_dictionary_rows_def Let_def split_beta)
  then have "import_step (saved w) (saved (snd (commit_master (Backfilled ins) wi)))"
    using commit_master_cases[of "Backfilled ins" wi] same_prices_import[OF assms(2)] stay by auto
  moreover obtain r wa where a: "apply_master_import e nm collected force w = (r, wa)"
    by (cases "apply_master_import e nm collected force w")
  note am = apply_master_imports[OF assms(1,2) fit a]
  have "import_step (saved w) (saved (snd (case r of Inl x \<Rightarrow> (Inl x, rollback wa) | Inr st \<Rightarrow> commit_master (Replaced st) wa)))"
    using am stay commit_master_cases[of "Replaced (projr r)" wa] by (cases r) auto
  ultimately show ?thesis
    using Inr cs i a stay by (auto simp: run_master_def split: sum.split)
qed

text \<open>C29: no mixture of the price importers loses or spoils a price: from a database with valid prices, whatever
  archives, price lists and transport files (any text, in either mode, accepted or refused) are run
  on it, the prices stay valid, every field known of a triple stays known, only the price history and
  the dictionary change, and the export of what results is accepted again and loads back as it is.\<close>

theorem prices_stay_good:
  assumes "price_runs d0 d" "good_prices d0"
  shows "good_prices d \<and> prices_grow d0 d \<and> (\<exists>ps rows. d = d0\<lparr>catalog_prices := ps, dictionary := rows\<rparr>)
    \<and> load_export (serialize_export (export_prices d)) = Inr (export_prices d)"
proof -
  have "import_step d0 d"
    using assms
  proof (induction rule: price_runs.induct)
    case (untouched d)
    then show ?case by (rule import_step_refl)
  next
    case (walked d0 w files e hw)
    then have i: "import_step d0 (saved w)" by simp
    then have "good_prices (saved w)" by (simp add: import_step_def)
    from import_step_trans[OF i archive_imports[OF walked(2) this walked(3)]] show ?case .
  next
    case (loaded d0 w e content only_missing)
    then have i: "import_step d0 (saved w)" by simp
    then have "good_prices (saved w)" by (simp add: import_step_def)
    from import_step_trans[OF i load_imports[OF loaded(2) this]] show ?case .
  next
    case (mastered d0 w wb e mw nm only_missing force)
    then have i: "import_step d0 (saved w)" by simp
    then have "good_prices (saved w)" by (simp add: import_step_def)
    from import_step_trans[OF i master_imports[OF mastered(2) this mastered(3)]] show ?case .
  qed
  then show ?thesis using load_serialized[OF export_prices_spec(2)] unfolding import_step_def by blast
qed

end
