(* ===== verification/PriceWitnesses.thy ===== *)
theory PriceWitnesses
  imports Witnesses MasterList
begin

text \<open>
  Concrete instances of the properties of the price importers: one machine with an archived price, one
  server that knows less of it and something else, one price list with one row.
\<close>

definition price0 :: catalog_price where
  "price0 = \<lparr>cp_id = ''c1'', cp_year = 2026, cp_number = 1, cp_code = ''100'', cp_name = Some ''CREAM'', cp_consumer_cents = Some 1500,
     cp_consultant_cents = None, cp_points = Some 7\<rparr>"

definition price1 :: catalog_price where
  "price1 = price0\<lparr>cp_id := ''c2'', cp_name := None, cp_consultant_cents := Some 900, cp_points := None\<rparr>"

definition archive_db :: db where
  "archive_db = shop\<lparr>catalog_prices := [price0]\<rparr>"

definition server_db :: db where
  "server_db = shop\<lparr>catalog_prices := [price1]\<rparr>"

lemma small_ok: "nat \<bar>n\<bar> < 10 ^ 9 \<Longrightarrow> int_ok n"
  unfolding int_ok_def by (rule le_limit[of 9]) simp_all

lemma good_dbs: "good_prices archive_db" "good_prices server_db"
  by (simp_all add: archive_db_def server_db_def good_prices_def price_keys_ok_def price1_def price0_def exported_def price_ok_def
      amount_ok_def small_ok MAX_NAME_def)

lemma new_ids0: "new_ids env0 server_db"
proof -
  have "inj (\<lambda>n. replicate (Suc n) (CHR ''i''))" by (rule injI) (metis length_replicate old.nat.inject)
  moreover have "replicate (Suc n) (CHR ''i'') \<noteq> ''c2''" for n by simp
  ultimately show ?thesis
    by (auto simp: new_ids_def env0_def server_db_def price1_def)
qed

lemma prices_travel_witness:
  "\<exists>t st w1. fold export_into [archive_db] None = Some t \<and> run_from_export env0 t False (open_session server_db) = (Inr (Inr st), w1)
     \<and> price_table (saved w1) (2026, 1, ''100'') = Some (Some ''CREAM'', Some 1500, Some 900, Some 7)"
proof -
  have "list_all good_prices [archive_db]" "clean (open_session server_db)"
    "price_keys_ok (catalog_prices (cur (open_session server_db)))" "new_ids env0 (cur (open_session server_db))"
    using good_dbs new_ids0 by (simp_all add: clean_def open_session_def good_prices_def)
  from prices_travel[OF _ this] obtain t st w1 where r: "fold export_into [archive_db] None = Some t"
    "run_from_export env0 t False (open_session server_db) = (Inr (Inr st), w1)"
    "price_table (saved w1) = enriched_table (Map.empty ++ price_table archive_db) (price_table server_db)"
    by auto
  have "price_table archive_db (2026, 1, ''100'') = Some (Some ''CREAM'', Some 1500, None, Some 7)"
    "price_table server_db (2026, 1, ''100'') = Some (None, Some 1500, Some 900, None)"
    by code_simp+
  then have "price_table (saved w1) (2026, 1, ''100'') = Some (Some ''CREAM'', Some 1500, Some 900, Some 7)"
    unfolding r(3) by (simp add: enriched_table_def enriched_def over_def)
  with r show ?thesis by blast
qed

lemma prices_stay_good_witness:
  "good_prices (saved (snd (run_from_export env0 (serialize_export [exported price0]) False (open_session server_db))))
   \<and> prices_grow server_db (saved (snd (run_from_export env0 (serialize_export [exported price0]) False (open_session server_db))))"
proof -
  have "price_runs server_db (saved (open_session server_db))" using price_runs.untouched by simp
  then have "price_runs server_db (saved (snd (run_from_export env0 (serialize_export [exported price0]) False (open_session server_db))))"
    by (rule price_runs.loaded) (simp add: clean_def open_session_def)
  from prices_stay_good[OF this good_dbs(2)] show ?thesis by blast
qed

section \<open>One price list\<close>

definition words0 :: master_words where
  "words0 = \<lparr>mw_sheet = ''Prices'', mw_code = ''Code'', mw_name = ''Name'', mw_consultant = ''DP'', mw_consumer = ''CP'', mw_last = ''Last''\<rparr>"

definition naming0 :: naming where
  "naming0 = \<lparr>nm_overrides = [(''300'', \<lparr>ro_rubric = None, ro_name = Some ''Mirror''\<rparr>)], nm_rubrics = [], nm_by_name = (\<lambda>_. ''Other'')\<rparr>"

definition list0 :: "(string \<times> cell list list) list" where
  "list0 = [(''Prices'', [[Text_cell ''Code'', Text_cell ''Name'', Text_cell ''DP'', Text_cell ''CP'', Text_cell ''Last''],
     [Int_cell 100, Text_cell ''Cream'', Int_cell 9, Float_cell ''15.5'', Text_cell ''01-2026''],
     [Empty_cell, Text_cell ''Total'', Empty_cell, Empty_cell, Empty_cell]])]"

lemma list_collected:
  "collect_price_rows words0 list0 = Inr ([(''100'', \<lparr>mr_name = Some ''Cream'', mr_year = 2026, mr_number = 1, mr_consumer = Some 1550,
     mr_consultant = Some 900\<rparr>)], \<lparr>ms_total = 2, ms_missing_code = 1, ms_bad_catalog = 0\<rparr>)"
  by code_simp

lemma list_replaces:
  "fst (run_master env0 words0 naming0 list0 False False (open_session archive_db))
     = Inr (Replaced \<lparr>us_inserted = 0, us_updated = 1, us_unchanged = 0\<rparr>)"
  by code_simp

lemma master_replaces_witness:
  "\<exists>w1 :: world. codes_unique (saved w1) \<and> set (map d_code (dictionary (saved w1))) = {''100'', ''300''}
     \<and> (\<exists>v. price_table (saved w1) (2026, 1, ''100'') = Some v \<and> points_of v = Some 7)"
proof -
  obtain w1 where r: "run_master env0 words0 naming0 list0 False False (open_session archive_db)
      = (Inr (Replaced \<lparr>us_inserted = 0, us_updated = 1, us_unchanged = 0\<rparr>), w1)"
    using list_replaces by (cases "run_master env0 words0 naming0 list0 False False (open_session archive_db)") simp
  have "clean (open_session archive_db)" "price_keys_ok (catalog_prices (saved (open_session archive_db)))"
    using good_dbs by (simp_all add: clean_def open_session_def good_prices_def)
  note m = master_replaces[OF r this list_collected]
  have "price_table (saved (open_session archive_db)) (2026, 1, ''100'') = Some (Some ''CREAM'', Some 1500, None, Some 7)"
    by code_simp
  with m obtain v where v: "price_table (saved w1) (2026, 1, ''100'') = Some v"
    "points_of v = points_of (Some ''CREAM'', Some 1500, None, Some 7)"
    by blast
  have p: "points_of v = Some 7" using v(2) by (simp add: points_of_def)
  have "set (map d_code (dictionary (saved w1))) = fst ` {(''100'', 0 :: nat)} \<union> fst ` set (nm_overrides naming0)"
    using m by simp
  then have c: "set (map d_code (dictionary (saved w1))) = {''100'', ''300''}" by (simp add: naming0_def insert_commute)
  have u: "codes_unique (saved w1)" using m by (rule conjunct1)
  show ?thesis using u c v(1) p by blast
qed

end
