(* ===== verification/Findings.thy ===== *)
theory Findings
  imports ViewWitnesses PriceWitnesses
begin

text \<open>
  Behaviours of the code that the modelling showed, each evaluated by the kernel on one concrete
  database. None contradicts a property: each lies outside the hypotheses or the promises above.
\<close>

text \<open>\<open>register_transfer\<close> parses the cost with \<open>to_cents\<close> alone, so a negative cost is accepted and frozen
  on the new batch; the sale price of the same form and every other price are refused when negative.\<close>

lemma transfer_takes_negative_cost:
  "(case fst (register_transfer env0 (transfer0\<lparr>tf_cost := ''-8''\<rparr>) (open_session shop)) of
      Ok (p, source, dest, q) \<Rightarrow> b_cost_cents dest = Some (- 800) | _ \<Rightarrow> False)"
  by code_simp

text \<open>The expiry typed on the transfer form is stored as it was typed; the receipt form and the batch
  form refuse what is not an ISO date.\<close>

lemma transfer_takes_any_expiry:
  "(case fst (register_transfer env0 (transfer0\<lparr>tf_new_expiry := ''soon''\<rparr>) (open_session shop)) of
      Ok (p, source, dest, q) \<Rightarrow> b_expiry dest = Some ''soon'' | _ \<Rightarrow> False)
   \<and> snd (parse_optional_expiry ''soon'' [] ''expiry'') \<noteq> []"
  by code_simp

text \<open>Restoring a card whose code an active card has taken meanwhile raises the unique index's
  \<open>IntegrityError\<close>, which neither \<open>restore_product\<close> nor its route catches.\<close>

lemma restore_taken_code_raises:
  "(case fst (restore_product env0 ''P0'' (open_session
       (shop\<lparr>products := [card0\<lparr>p_id := ''P0'', p_deleted_at := Some ''t1''\<rparr>, card0]\<rparr>))) of
      Raised x \<Rightarrow> x = IntegrityError | _ \<Rightarrow> False)"
  by code_simp

text \<open>The delete guard of a warehouse sums the quantities, so an oversold batch hides the stock of
  another: the warehouse is deleted with five units on hand.\<close>

lemma oversold_batch_hides_stock:
  "(case fst (soft_delete_warehouse env0 ''W1'' False (open_session
       (shop\<lparr>batches := [batch0\<lparr>b_quantity := 5\<rparr>, batch0\<lparr>b_id := ''B2'', b_quantity := - 5\<rparr>]\<rparr>))) of
      Ok (deleted, msg) \<Rightarrow> deleted | _ \<Rightarrow> False)"
  by code_simp

text \<open>A returned line that has no batch, of a product that has no legacy batch, makes a legacy batch with
  quantity 0 although the product's older rows, which that batch stands for, do not sum to 0: the
  cached quantity is not the recomputed one until \<open>rebuild_stock\<close> runs.\<close>

definition old_op :: "string \<Rightarrow> string \<Rightarrow> int \<Rightarrow> string option \<Rightarrow> operation" where
  "old_op i ty q sid = \<lparr>o_id = i, o_type = ty, o_product_id = ''P1'', o_qty_delta = q, o_unit_cost_cents = None,
     o_unit_price_cents = None, o_payload = None, o_sale_id = sid, o_batch_id = None, o_reverses_op_id = None,
     o_author_id = None, o_device_id = ''OLD'', o_seq = int (length i), o_created_at = ''2025-01-01T00:00:00'',
     o_business_date = None, o_created_by = ''Anna'', o_synced_at = None\<rparr>"

definition old_shop :: db where
  "old_shop = empty_shop\<lparr>warehouses := [wh0 DEFAULT_WAREHOUSE_ID ''RUB''],
     products := [card0\<lparr>p_quantity := 7\<rparr>],
     operations := [old_op ''r'' ''receipt'' 10 None, old_op ''ss'' ''sale'' (- 3) (Some ''S'')]\<rparr>"

lemma lazy_legacy_batch_off:
  "(let e = env0\<lparr>allowed_warehouses := None\<rparr>;
        d = serve e (Return ''ss'' ''1'' []) old_shop
    in map b_quantity (batches d) = [1] \<and> map (compute_batch_stock d) (batches d) = [8])"
  by code_simp

section \<open>Sync\<close>

text \<open>The server has renamed the device's card \<open>L1\<close> and holds another card with its old code. The page is
  consistent, yet it is refused: the new card is inserted before the local one is renamed. The next
  sync starts with the same page.\<close>

definition local_card :: product where
  "local_card = (blank_product ''L1'' ''t0'')\<lparr>p_code := Some ''100'', p_name := ''Lotion''\<rparr>"

definition renamed_page :: "record_row list" where
  "renamed_page = [R_product (local_card\<lparr>p_code := Some ''100~L1''\<rparr>), R_product (card0\<lparr>p_quantity := 0\<rparr>)]"

lemma pull_refuses_renamed_code:
  "active_codes (product_rows renamed_page) = [''100~L1'', ''100'']
   \<and> pull_tables renamed_page (empty_db\<lparr>products := [local_card]\<rparr>) = Inl IntegrityError"
  by code_simp

text \<open>\<open>json.dumps(ensure_ascii=False)\<close> leaves U+0085 as it is and \<open>str.splitlines\<close> breaks at it: a name with that
  character makes the body unreadable for the receiver.\<close>

lemma next_line_breaks_record:
  "(let line = dumps (J_obj [(''name'', J_str [CHR ''a'', char_of (133 :: nat), CHR ''b''])])
    in loads line \<noteq> None \<and> map loads (splitlines line) = [None, None])"
  by code_simp

text \<open>A record whose kind is a list raises \<open>TypeError\<close> (a list is not hashable), not the \<open>ValueError\<close> the push
  route turns into a 400.\<close>

lemma list_kind_raises_type_error:
  "parse_line ''{\"kind\": []}'' \<lparr>ps_header = Some [], ps_records = [], ps_seen = []\<rparr> = Inl TypeError"
  by code_simp

text \<open>A time part is said to be required of a timestamp; an empty one is let through.\<close>

lemma timestamp_without_time: "is_iso_timestamp ''2026-09-04T''"
  by code_simp

text \<open>An id of less than eight characters (dashes apart) gives the empty string as the new code of a colliding card.\<close>

lemma empty_code_after_collision:
  "(case merge_products [local_card\<lparr>p_id := ''zz''\<rparr>] (bare, empty_report) of
      Inr (d, rep) \<Rightarrow> map cf_resolved_code (conflicts rep) = [[]] | Inl x \<Rightarrow> False)"
  by code_simp

section \<open>Days, places and catalogs\<close>

definition moscow :: "int \<Rightarrow> int" where
  "moscow t = 3 * 3600 * 1000000"

text \<open>The local time of a timestamp is said never to raise; in the last hours of year 9999 it does, and the
  history page and the exports convert every row.\<close>

lemma last_hours_raise: "iso_to_local moscow (Some ''9999-12-31T23:30:00+00:00'') = Inl OverflowError"
  by code_simp

text \<open>A row entered half an hour after midnight for the day before is marked as back-dated, and the filter for
  back-dated rows, which is said to lose no marked row, leaves it out: its day is the UTC day of the
  timestamp.\<close>

lemma marked_row_filtered_out:
  "is_backdated moscow (Some ''2026-01-05'') (Some ''2026-01-05T21:30:00+00:00'') = Inr True
   \<and> \<not> dated_matches ''backdated'' (op0\<lparr>o_business_date := Some ''2026-01-05'', o_created_at := ''2026-01-05T21:30:00+00:00''\<rparr>)"
  by code_simp

text \<open>\<open>str.isdigit\<close> holds for a superscript and \<open>int\<close> refuses it: a batch whose place is one closes the page
  of places, and such a year closes the page of catalogs.\<close>

lemma superscript_place_raises: "place_sort_key [char_of (178 :: nat)] = Inl ValueError"
  by code_simp

lemma superscript_year_raises:
  "(case list_catalogs (Some [''2026-01.pdf'']) listed [char_of (178 :: nat)] ''newest'' 1 of Inl x \<Rightarrow> x = ValueError | Inr _ \<Rightarrow> False)"
  by code_simp

text \<open>The two forms of a catalog's code are said to map onto each other; years a century apart share the
  stored form, and the address of an issue with three digits does not read back.\<close>

lemma catalog_codes_collide:
  "to_json_code (1926, 1) = to_json_code (2026, 1) \<and> parse_url_code (to_url_code (2025, 125)) = None"
  by code_simp

text \<open>\<open>AppProcess.stop\<close> is said to drop the handle even when \<open>terminate\<close> raised; the call stands before the
  \<open>try\<close>, so the handle is kept.\<close>

lemma failed_terminate_keeps_handle:
  "(let (r, i) = stop_app (outside0\<lparr>le_fault := (\<lambda>k. if k = 0 then Some Failed_call else None)\<rparr>) install0
    in r = Some Failed_call \<and> child i = Some ''old'')"
  by code_simp

text \<open>A name typed beside an unpressed button: the desktop form asks to press it, the phone sells to nobody.\<close>

lemma phone_drops_typed_customer:
  "sp_errors (fst (sale_create env0 (header0\<lparr>hf_mode := ''new'', hf_name := ''Vera''\<rparr>) sale0 (open_session shop)))
     = [(''new_customer'', Press_add_customer)]
   \<and> (case snd (fst (mobile_sale_create env0 (header0\<lparr>hf_mode := ''new'', hf_name := ''Vera''\<rparr>) sale0 (open_session shop))) of
        Saved_screen (h, n, t) \<Rightarrow> s_customer_id h = None | _ \<Rightarrow> False)"
  by code_simp

text \<open>An accumulated row with bonus points meets the export of a database that knows the same row without them:
  the file loses the points.\<close>

lemma export_blanks_points:
  "map pr_points (fst (merge_price_export [exported price0] [exported (price0\<lparr>cp_points := None\<rparr>)])) = [None]"
  by code_simp

end
