(* ===== verification/Spec2Isabelle.thy ===== *)
theory Spec2Isabelle
  imports Findings
begin

text \<open>
  A verification library for myorishop, a stock and till program for a small shop (FastAPI handlers
  over SQLAlchemy services and one SQLite database). The services under \<open>src/app/services\<close> carry
  the logic; this development models them as functions on an explicit database state and proves
  what they promise.

  \<^bold>\<open>How the program is put together.\<close> A route opens one session, calls one service and closes the
  session. Every stock movement is one row of the append-only ledger \<open>operations\<close>, written by
  \<open>record_operation\<close> (\<open>ledger.py\<close>), which also moves the two cached quantities (of the card and of
  the batch); every cash movement is one row of \<open>cash_movements\<close>, written by
  \<open>record_cash_movement\<close> (\<open>finance.py\<close>). The handlers (sale, return, transfer, receipt, write-off,
  correction, card and batch edits, manual cash) validate a form, stage rows through these two
  paths and commit once. Prices are frozen in the rows and the batches; each warehouse has one
  currency and amounts of different currencies are never added. An operator is limited to the
  assigned warehouses.

  \<^bold>\<open>Theories and code.\<close>
  \<^item> \<open>Prelude\<close>, \<open>PyStr\<close>, \<open>Money\<close>, \<open>Dates\<close>: keyed tables, sums and numbering; Python strings and ints;
    the money and date helpers of \<open>app/core.py\<close>.
  \<^item> \<open>Models\<close> (\<open>app/models.py\<close>), \<open>Session\<close> (\<open>app/db.py\<close>, the SQLAlchemy session), \<open>Security\<close>
    (\<open>security.py\<close>), \<open>Forms\<close> (error dicts and results), \<open>Triggers\<close> (the SQL triggers of \<open>app/db.py\<close>).
  \<^item> \<open>Ledger\<close>, \<open>Finance\<close>: the two write paths, the recomputation and the balance.
  \<^item> \<open>WritePath\<close>, \<open>Invariants\<close>: the contract of the write paths as the locale \<open>write_path\<close> (what a
    database property must survive to be kept by every handler) and its interpretations on the
    program's invariants.
  \<^item> \<open>Catalog\<close>, \<open>Batches\<close>, \<open>Warehouses\<close>, \<open>Sales\<close>, \<open>Returns\<close>, \<open>Transfers\<close>, \<open>Receipts\<close>, \<open>Writeoffs\<close>,
    \<open>Corrections\<close>: one service each, \<open>Moves\<close> what the handlers share; \<open>Prefill\<close>: the form lookups.
  \<^item> \<open>Pricing\<close> (\<open>pricing.py\<close>, \<open>stock.py\<close>), \<open>Paging\<close> (\<open>pagination.py\<close>), \<open>RateLimit\<close> (\<open>rate_limit.py\<close>),
    \<open>Reports\<close> (\<open>reports.py\<close>, \<open>finance_reports.py\<close>).
  \<^item> \<open>System\<close>: requests, runs and reachable states of one shop.
  \<^item> \<open>Accounts\<close> (\<open>users.py\<close>, \<open>auth.py\<close>, \<open>routes/auth.py\<close>), \<open>Devices\<close> (\<open>devices.py\<close>, \<open>require_device\<close>): users,
    sign-in, assigned warehouses, device tokens.
  \<^item> \<open>Json\<close> (what the program uses of \<open>json\<close>), \<open>Exchange\<close> (the NDJSON format of \<open>merge.py\<close>), \<open>Columns\<close> (rows as
    records and back).
  \<^item> \<open>Merge\<close> (the engine of \<open>merge.py\<close>); \<open>Replication\<close>, \<open>Convergence\<close>, \<open>Collisions\<close>: what it promises.
  \<^item> \<open>SyncPull\<close> (\<open>sync.py\<close>), \<open>SyncClient\<close> (\<open>sync_client.py\<close>), \<open>SyncServer\<close> (\<open>routes/sync.py\<close>), \<open>SyncProps\<close>: both ends of
    a sync and what they promise together; \<open>Network\<close>: the runs of a database that takes part in syncs.
  \<^item> \<open>Offline\<close> (\<open>offline.py\<close>, \<open>routes/offline.py\<close> and the script of \<open>self_upload.html\<close>): the upload without a device.
  \<^item> \<open>Calendar\<close>, \<open>Clock\<close>: the proleptic calendar, timestamps and local days (\<open>app/core.py\<close>); \<open>Search\<close> (the searches of
    \<open>catalog.py\<close>), \<open>Customers\<close> (\<open>customers.py\<close>), \<open>History\<close> (\<open>operations.py\<close> and the two ledger pages), \<open>Dashboard\<close>
    (\<open>dashboard.py\<close>, periods, stale products), \<open>Export\<close> (\<open>export.py\<close>), \<open>Locations\<close> (\<open>locations.py\<close>), \<open>DictEntries\<close>
    (\<open>dictionary.py\<close>), \<open>CatalogIssues\<close> (\<open>catalogs.py\<close>, \<open>rubrics.py\<close>), \<open>Backups\<close> (\<open>backup.py\<close>, \<open>settings.py\<close>): the pages.
  \<^item> \<open>SaleRoutes\<close> (\<open>routes/sales.py\<close>, \<open>routes/mobile_sales.py\<close>): the sale form of the desktop and the wizard of the phone, as
    functions from the posted fields to the page; the steps of a user are the relation \<open>wizard\<close>.
  \<^item> \<open>Launcher\<close> (\<open>src/launcher\<close>), \<open>Update\<close> (\<open>update.py\<close>, \<open>minisign_verify.py\<close>): the swap of a new version with its
    rollback, and the gate a release passes before it is staged.
  \<^item> \<open>PriceImport\<close>, \<open>PriceArchive\<close> (\<open>scripts/import_prices.py\<close>): the one writer of the price table, the file that
    carries prices from one machine to another, the walk over an archive of price workbooks and the guards
    of the command line; \<open>MasterList\<close> (\<open>scripts/import_master_pricelist.py\<close>): the guarded replacement of the dictionary.
  \<^item> \<open>Witnesses\<close>, \<open>SyncWitnesses\<close>, \<open>ViewWitnesses\<close>, \<open>PriceWitnesses\<close>: every property with hypotheses applied to one small shop;
    \<open>Findings\<close>: behaviours the modelling showed.

  \<^bold>\<open>State and results.\<close> \<open>db\<close> holds the tables as lists in insertion order; \<open>world\<close> is a session: what it
  sees (\<open>cur\<close>), what is committed (\<open>saved\<close>), and whether a staged row breaks a key (\<open>bad\<close>), in which
  case the next flush raises. \<open>env\<close> is what a request runs under: the device, the user and the
  warehouses, and the streams of clock readings, local days and fresh ids, about which nothing is
  assumed. A handler returns \<open>Ok\<close>, \<open>Warn\<close> (confirmation needed), \<open>Errors\<close> (the error dict) or
  \<open>Raised\<close> (an exception that leaves the service), with the session after it.

  \<^bold>\<open>What is shown.\<close> For every run of requests, under any users, clocks and ids: the caches are the
  ledger's sums and rebuilding changes nothing; refused requests change nothing; history is only
  appended to; sequence numbers, active codes and cash rows keep their keys; returns never exceed
  sales; an operator's rows stay in the operator's warehouses. For each handler: the exact rows an
  accepted form commits. For syncs: the merge refines a union of maps in which the server's rows
  win, replays and shuffles change nothing, replicas that got the same rows agree, a push is all or
  nothing, what a device marks as synced is on the server, the pull loop stops, and the books of
  every database stay honest through any mixture of requests, merges, pulls and stamps. For the
  accounts: the last administrator stays, a revoked token stays out. For an update: under every pattern
  of failed calls the old version and the database survive, one failure at most ends in a matched pair
  of code and database, no marker is replayed for ever, and every bundle that ever runs was signed.
  For the pages: a sale page says what was saved and puts each message at its row, the wizard sells what the
  form sells, pages and counts agree, the files read back and reconcile with the reports, the
  offline file arrives as it was written. For the price importers: prices travel over the file without loss,
  no mixture of importers spoils or loses a price, and the master list never shrinks the dictionary unless
  it is forced to. For the rest: the triggers reject exactly the content
  changes, the guard denies by default, the reports reconcile with the ledgers, the limiter caps the
  volume, money and dates round-trip and sort.

  \<^bold>\<open>Bounds and fuel.\<close> Python integers are \<open>int\<close>; \<open>py_int\<close> has the interpreter's limit of 4300 digits and
  \<open>to_cents\<close> the 28 digits of the decimal context. The JSON reader takes the length of the text as
  fuel, which \<open>loads_dumps\<close> shows to be enough for every written value. The loop over the pages of
  a pull is a \<open>partial_function\<close>: a server may answer full pages for ever; against a database that
  does not change it returns (\<open>pull_terminates\<close>). The loop for a free snapshot name gets one round
  more than the folder has files, which is enough (\<open>target_name_exists\<close>). The watch loop of the launcher is
  run for a given number of rounds; every call it makes asks an oracle whether it fails, so the theorems
  hold for all failures.

  \<^bold>\<open>Not modelled.\<close> The \<open>updated_at\<close> stamps (an argument where the sync reads them); the 64-bit range of
  SQLite integers; interleaving of two requests inside one transaction (SQLite serialises writers);
  characters above code point 255; the Russian texts of messages (constructors of \<open>msg\<close>) and labels, the
  text of the legacy batch comment and the dash in automatic batch names (transliterated), the keyword
  tables of the rubrics (parameters); the order of rows an SQL \<open>ORDER BY\<close> leaves open (insertion order
  here); floats of the limiter (exact rationals here); HTTP, templates and UTF-8 decoding. Argon2,
  SHA-256, Ed25519, BLAKE2b, the token library, zip, a time zone's offset, the live schema version and the
  network are parameters, and so are the cells of the workbooks the price importers read (a decimal of the
  price file keeps its text). The other routes, which bind a form and render a page, the other import and
  seed scripts, \<open>--restore-shades\<close> and the release build are listed in the manifest as not modelled.
\<close>

text \<open>In a reachable state the cash-flow report leaves nothing out: its income and expense totals add up
  to the sum of all cash rows of the period in the currency.\<close>

theorem cash_flow_complete:
  assumes "reachable d"
  shows "fl_income_total (cash_flow_report d start stop currency) + fl_expense_total (cash_flow_report d start stop currency)
    = sum_where (\<lambda>m. cash_in_period start stop m \<and> m_currency m = currency) m_amount_cents (cash_movements d)"
  using reachable_laws(4)[OF assms] by (intro flow_total) (simp add: cash_ok_def)

lemma cash_flow_complete_witness:
  "fl_income_total (cash_flow_report received ''2026-01-01'' ''2026-01-31'' ''RUB'')
     + fl_expense_total (cash_flow_report received ''2026-01-01'' ''2026-01-31'' ''RUB'')
   = sum_where (\<lambda>m. cash_in_period ''2026-01-01'' ''2026-01-31'' m \<and> m_currency m = ''RUB'') m_amount_cents (cash_movements received)"
  by (rule cash_flow_complete[OF reachable_received])

end
